(* ===== verification/Prelude.thy ===== *)
theory Prelude
  imports Main "HOL-Library.Word" "HOL-Library.List_Lexorder" "HOL-Library.Char_ord"
    "HOL-Library.Product_Lexorder" "HOL-Library.Option_ord" "HOL-Library.Multiset"
    "HOL-Library.Code_Target_Nat"
begin

text \<open>
  What every component of the development shares: Rust's machine integers as words,
  \<open>Result\<close> as a sum type with its sequencing operators, and \<open>BTreeMap\<close>/\<open>BTreeSet\<close>
  as a type of strictly ascending association lists. The order of the entries is part
  of the type, because the code iterates over its maps and the order of that iteration
  reaches its outputs.
\<close>

named_theorems bt_simps \<open>lookup and iteration laws of the ordered map\<close>

section \<open>Machine integers and results\<close>

type_synonym u32 = "32 word"
type_synonym u64 = "64 word"

definition usize_max :: nat where
  "usize_max = 2 ^ 64 - 1"

definition checked_add_u64 :: "u64 \<Rightarrow> u64 \<Rightarrow> u64 option" where
  "checked_add_u64 a b = (if unat a + unat b < 2 ^ 64 then Some (a + b) else None)"

lemma checked_add_u64_Some:
  "checked_add_u64 a b = Some c \<Longrightarrow> unat c = unat a + unat b"
  by (auto simp: checked_add_u64_def unat_word_ariths split: if_splits)

lemma checked_add_u64_None:
  "checked_add_u64 a b = None \<longleftrightarrow> 2 ^ 64 \<le> unat a + unat b"
  by (auto simp: checked_add_u64_def)

text \<open>The question-mark operator: an error leaves the function, a value goes on.\<close>

definition bind_result :: "'e + 'a \<Rightarrow> ('a \<Rightarrow> 'e + 'b) \<Rightarrow> 'e + 'b" where
  "bind_result r f = (case r of Inl e \<Rightarrow> Inl e | Inr x \<Rightarrow> f x)"

lemma bind_result_simps [simp]:
  "bind_result (Inl e) f = Inl e" "bind_result (Inr x) f = f x"
  by (simp_all add: bind_result_def)

lemma bind_result_Inr:
  "bind_result r f = Inr y \<longleftrightarrow> (\<exists>x. r = Inr x \<and> f x = Inr y)"
  by (cases r) auto

lemma bind_result_Inl:
  "bind_result r f = Inl e \<longleftrightarrow> r = Inl e \<or> (\<exists>x. r = Inr x \<and> f x = Inl e)"
  by (cases r) auto

lemma bind_result_cong [fundef_cong]:
  "r = r' \<Longrightarrow> (\<And>x. r' = Inr x \<Longrightarrow> f x = f' x) \<Longrightarrow> bind_result r f = bind_result r' f'"
  by (cases r') auto

definition map_err :: "('e \<Rightarrow> 'f) \<Rightarrow> 'e + 'a \<Rightarrow> 'f + 'a" where
  "map_err f r = (case r of Inl e \<Rightarrow> Inl (f e) | Inr x \<Rightarrow> Inr x)"

lemma map_err_simps [simp]:
  "map_err f (Inl e) = Inl (f e)" "map_err f (Inr x) = Inr x"
  by (simp_all add: map_err_def)

lemma map_err_Inr [simp]: "map_err f r = Inr x \<longleftrightarrow> r = Inr x"
  by (cases r) auto

definition ok_or :: "'a option \<Rightarrow> 'e \<Rightarrow> 'e + 'a" where
  "ok_or v e = (case v of None \<Rightarrow> Inl e | Some x \<Rightarrow> Inr x)"

lemma ok_or_simps [simp]:
  "ok_or None e = Inl e" "ok_or (Some x) e = Inr x"
  by (simp_all add: ok_or_def)

lemma ok_or_the: "v \<noteq> None \<Longrightarrow> ok_or v e = Inr (the v)"
  by auto

text \<open>A \<open>for\<close> loop whose body may return early with an error.\<close>

fun try_fold :: "('a \<Rightarrow> 's \<Rightarrow> 'e + 's) \<Rightarrow> 'a list \<Rightarrow> 's \<Rightarrow> 'e + 's" where
  "try_fold f [] s = Inr s"
| "try_fold f (x # xs) s = bind_result (f x s) (try_fold f xs)"

lemma try_fold_append:
  "try_fold f (xs @ ys) s = bind_result (try_fold f xs s) (try_fold f ys)"
proof (induction xs arbitrary: s)
  case (Cons x xs)
  then show ?case by (cases "f x s") auto
qed simp

lemma try_fold_pure:
  "try_fold (\<lambda>x s. Inr (g x s)) xs s = Inr (fold g xs s)"
  by (induction xs arbitrary: s) auto

lemma try_fold_Inl: "try_fold f xs s = Inl e \<Longrightarrow> \<exists>x \<in> set xs. \<exists>s. f x s = Inl e"
  by (induction xs arbitrary: s) (auto simp: bind_result_Inl)

lemma try_fold_invariant:
  assumes "try_fold f xs s = Inr t" and "P s"
    and "\<And>x s t. x \<in> set xs \<Longrightarrow> P s \<Longrightarrow> f x s = Inr t \<Longrightarrow> P t"
  shows "P t"
  using assms
proof (induction xs arbitrary: s)
  case (Cons x xs)
  from Cons.prems(1) obtain u where u: "f x s = Inr u" "try_fold f xs u = Inr t"
    by (auto simp: bind_result_Inr)
  have "P u" using Cons.prems(3)[OF _ Cons.prems(2) u(1)] by simp
  then show ?case using Cons.IH[OF u(2)] Cons.prems(3) by (meson list.set_intros(2))
qed simp

lemma fold_invariant:
  assumes "P s" and "\<And>x s. x \<in> set xs \<Longrightarrow> P s \<Longrightarrow> P (f x s)"
  shows "P (fold f xs s)"
  using assms by (induction xs arbitrary: s) auto

fun map_result :: "('a \<Rightarrow> 'e + 'b) \<Rightarrow> 'a list \<Rightarrow> 'e + 'b list" where
  "map_result f [] = Inr []"
| "map_result f (x # xs) =
     bind_result (f x) (\<lambda>y. bind_result (map_result f xs) (\<lambda>ys. Inr (y # ys)))"

lemma map_result_Inr:
  "map_result f xs = Inr ys \<longleftrightarrow> list_all2 (\<lambda>x y. f x = Inr y) xs ys"
  by (induction xs arbitrary: ys) (auto simp: bind_result_Inr list_all2_Cons1)

lemma option_eqI: "(\<And>x. a = Some x \<longleftrightarrow> b = Some x) \<Longrightarrow> a = b"
  by (cases a; cases b) auto

section \<open>Iterator helpers\<close>

lemma set_map_filter: "y \<in> set (List.map_filter f xs) \<longleftrightarrow> (\<exists>x \<in> set xs. f x = Some y)"
  by (force simp: List.map_filter_def image_iff)

lemma distinct_map_filter_key:
  assumes "distinct (map key xs)" and "\<And>x y. f x = Some y \<Longrightarrow> key' y = key x"
  shows "distinct (map key' (List.map_filter f xs))"
  using assms(1)
proof (induction xs)
  case (Cons x xs)
  have "key' ` set (List.map_filter f xs) \<subseteq> key ` set xs"
    using assms(2) by (force simp: set_map_filter)
  with Cons assms(2)[of x] show ?case
    by (auto simp: List.map_filter_simps split: option.splits)
qed (simp add: List.map_filter_simps)

text \<open>\<open>Iterator::position\<close>: the index of the first element that satisfies a predicate.\<close>

fun position :: "('a \<Rightarrow> bool) \<Rightarrow> 'a list \<Rightarrow> nat option" where
  "position p [] = None"
| "position p (x # xs) = (if p x then Some 0 else map_option Suc (position p xs))"

lemma position_Some:
  "position p xs = Some i \<Longrightarrow> i < length xs \<and> p (xs ! i) \<and> (\<forall>j < i. \<not> p (xs ! j))"
proof (induction xs arbitrary: i)
  case (Cons x xs)
  then show ?case
    by (auto simp: nth_Cons' split: if_splits)
qed simp

lemma position_None: "position p xs = None \<longleftrightarrow> (\<forall>x \<in> set xs. \<not> p x)"
  by (induction xs) auto

text \<open>\<open>slice::sort_by_key\<close>/\<open>sort_by\<close>: a stable insertion sort on a total preorder.\<close>

fun insort_by :: "('a \<Rightarrow> 'a \<Rightarrow> bool) \<Rightarrow> 'a \<Rightarrow> 'a list \<Rightarrow> 'a list" where
  "insort_by le x [] = [x]"
| "insort_by le x (y # ys) = (if le x y then x # y # ys else y # insort_by le x ys)"

fun sort_by :: "('a \<Rightarrow> 'a \<Rightarrow> bool) \<Rightarrow> 'a list \<Rightarrow> 'a list" where
  "sort_by le [] = []"
| "sort_by le (x # xs) = insort_by le x (sort_by le xs)"

lemma mset_insort_by [simp]: "mset (insort_by le x xs) = add_mset x (mset xs)"
  by (induction xs) auto

lemma mset_sort_by [simp]: "mset (sort_by le xs) = mset xs"
  by (induction xs) auto

lemma set_sort_by [simp]: "set (sort_by le xs) = set xs"
  by (metis mset_sort_by set_mset_mset)

lemma length_sort_by [simp]: "length (sort_by le xs) = length xs"
  by (metis mset_sort_by size_mset)

lemma distinct_sort_by [simp]: "distinct (sort_by le xs) = distinct xs"
  by (metis mset_sort_by mset_eq_imp_distinct_iff)

lemma hd_insort_by:
  "hd (insort_by le x xs) = (if xs = [] \<or> le x (hd xs) then x else hd xs)"
  by (cases xs) auto

lemma hd_sort_by_key:
  fixes key :: "'a \<Rightarrow> 'b::linorder"
  shows "x \<in> set xs \<Longrightarrow> key (hd (sort_by (\<lambda>a b. key a \<le> key b) xs)) \<le> key x"
proof (induction xs)
  case (Cons y xs)
  show ?case
  proof (cases "xs = []")
    case False
    then have "sort_by (\<lambda>a b. key a \<le> key b) xs \<noteq> []" by (metis length_0_conv length_sort_by)
    with Cons show ?thesis by (auto simp: hd_insort_by)
  qed (use Cons.prems in simp)
qed simp

text \<open>\<open>Vec::dedup\<close> removes consecutive repeated elements.\<close>

fun dedup :: "'a list \<Rightarrow> 'a list" where
  "dedup [] = []"
| "dedup [x] = [x]"
| "dedup (x # y # xs) = (if x = y then dedup (y # xs) else x # dedup (y # xs))"

lemma set_dedup [simp]: "set (dedup xs) = set xs"
  by (induction xs rule: dedup.induct) auto

lemma distinct_dedup_id: "distinct xs \<Longrightarrow> dedup xs = xs"
  by (induction xs rule: dedup.induct) auto


section \<open>Ordered maps: \<open>BTreeMap\<close> and \<open>BTreeSet\<close>\<close>

abbreviation ascending :: "('k::linorder \<times> 'v) list \<Rightarrow> bool" where
  "ascending xs \<equiv> sorted_wrt (<) (map fst xs)"

fun al_insert :: "'k::linorder \<Rightarrow> 'v \<Rightarrow> ('k \<times> 'v) list \<Rightarrow> ('k \<times> 'v) list" where
  "al_insert k v [] = [(k, v)]"
| "al_insert k v ((k', v') # xs) =
     (if k < k' then (k, v) # (k', v') # xs
      else if k = k' then (k, v) # xs
      else (k', v') # al_insert k v xs)"

lemma al_insert_keys: "fst ` set (al_insert k v xs) = insert k (fst ` set xs)"
  by (induction xs rule: al_insert.induct) auto

lemma ascending_al_insert: "ascending xs \<Longrightarrow> ascending (al_insert k v xs)"
proof (induction k v xs rule: al_insert.induct)
  case (2 k v k' v' xs)
  have "\<forall>e \<in> set (al_insert k v xs). fst e = k \<or> fst e \<in> fst ` set xs"
    using al_insert_keys[of k v xs] by force
  with 2 show ?case by fastforce
qed simp

lemma map_of_al_insert: "map_of (al_insert k v xs) = (map_of xs)(k \<mapsto> v)"
  by (induction xs rule: al_insert.induct) auto

lemma ascending_filter: "ascending xs \<Longrightarrow> ascending (filter p xs)"
  by (induction xs) auto

lemma ascending_distinct: "ascending xs \<Longrightarrow> distinct (map fst xs)"
  by (induction xs) auto

lemma alist_from_keys:
  "distinct (map fst xs) \<Longrightarrow> xs = map (\<lambda>k. (k, the (map_of xs k))) (map fst xs)"
proof (rule nth_equalityI)
  fix i assume d: "distinct (map fst xs)" and i: "i < length xs"
  have "map_of xs (fst (xs ! i)) = Some (snd (xs ! i))"
    using d i by (metis map_of_eq_Some_iff nth_mem prod.collapse)
  then show "xs ! i = map (\<lambda>k. (k, the (map_of xs k))) (map fst xs) ! i"
    using i by simp
qed simp

lemma ascending_unique:
  assumes "ascending xs" and "ascending ys" and "map_of xs = map_of ys"
  shows "xs = ys"
proof -
  have "set (map fst xs) = set (map fst ys)"
    using arg_cong[OF assms(3), of dom] by (simp add: dom_map_of_conv_image_fst)
  then have "map fst xs = map fst ys"
    using assms(1,2) by (metis strict_sorted_equal)
  then show ?thesis
    using alist_from_keys[of xs] alist_from_keys[of ys] assms ascending_distinct by metis
qed

typedef (overloaded) ('k::linorder, 'v) btree = "{xs :: ('k \<times> 'v) list. ascending xs}"
  morphisms entries BTree
  by (rule exI[of _ "[]"]) simp

setup_lifting type_definition_btree

type_synonym 'k bset = "('k, unit) btree"

lift_definition bt_empty :: "('k::linorder, 'v) btree" is "[]"
  by simp

lift_definition bt_get :: "('k::linorder, 'v) btree \<Rightarrow> 'k \<Rightarrow> 'v option" is map_of .

lift_definition bt_insert :: "'k::linorder \<Rightarrow> 'v \<Rightarrow> ('k, 'v) btree \<Rightarrow> ('k, 'v) btree" is al_insert
  by (rule ascending_al_insert)

lift_definition bt_remove :: "'k::linorder \<Rightarrow> ('k, 'v) btree \<Rightarrow> ('k, 'v) btree"
  is "\<lambda>k. filter (\<lambda>e. fst e \<noteq> k)"
  by (rule ascending_filter)

lift_definition bt_map :: "('k::linorder \<Rightarrow> 'v \<Rightarrow> 'w) \<Rightarrow> ('k, 'v) btree \<Rightarrow> ('k, 'w) btree"
  is "\<lambda>f. map (\<lambda>(k, v). (k, f k v))"
  by (simp add: comp_def case_prod_beta)

definition bt_keys :: "('k::linorder, 'v) btree \<Rightarrow> 'k list" where
  "bt_keys m = map fst (entries m)"

definition bt_values :: "('k::linorder, 'v) btree \<Rightarrow> 'v list" where
  "bt_values m = map snd (entries m)"

definition bt_contains :: "('k::linorder, 'v) btree \<Rightarrow> 'k \<Rightarrow> bool" where
  "bt_contains m k = (bt_get m k \<noteq> None)"

definition bt_len :: "('k::linorder, 'v) btree \<Rightarrow> nat" where
  "bt_len m = length (entries m)"

definition bt_is_empty :: "('k::linorder, 'v) btree \<Rightarrow> bool" where
  "bt_is_empty m = (entries m = [])"

definition bt_get_or :: "'v \<Rightarrow> ('k::linorder, 'v) btree \<Rightarrow> 'k \<Rightarrow> 'v" where
  "bt_get_or d m k = (case bt_get m k of None \<Rightarrow> d | Some v \<Rightarrow> v)"

text \<open>\<open>map.entry(k).or_default()\<close> followed by a mutation of the entry.\<close>

definition bt_entry :: "'v \<Rightarrow> ('v \<Rightarrow> 'v) \<Rightarrow> 'k::linorder \<Rightarrow> ('k, 'v) btree \<Rightarrow> ('k, 'v) btree" where
  "bt_entry d f k m = bt_insert k (f (bt_get_or d m k)) m"

text \<open>\<open>if let Some(v) = map.get_mut(k)\<close> followed by a mutation of the entry.\<close>

definition bt_adjust :: "('v \<Rightarrow> 'v) \<Rightarrow> 'k::linorder \<Rightarrow> ('k, 'v) btree \<Rightarrow> ('k, 'v) btree" where
  "bt_adjust f k m = (case bt_get m k of None \<Rightarrow> m | Some v \<Rightarrow> bt_insert k (f v) m)"

definition bt_collect :: "('k::linorder \<times> 'v) list \<Rightarrow> ('k, 'v) btree" where
  "bt_collect xs = fold (\<lambda>(k, v). bt_insert k v) xs bt_empty"

definition bs_insert :: "'k::linorder \<Rightarrow> 'k bset \<Rightarrow> 'k bset" where
  "bs_insert k s = bt_insert k () s"

definition bs_collect :: "'k::linorder list \<Rightarrow> 'k bset" where
  "bs_collect xs = bt_collect (map (\<lambda>k. (k, ())) xs)"

instantiation btree :: (linorder, equal) equal
begin
definition equal_btree :: "('a, 'b) btree \<Rightarrow> ('a, 'b) btree \<Rightarrow> bool" where
  "equal_btree m n = (entries m = entries n)"
instance
  by standard (simp add: equal_btree_def entries_inject)
end


subsection \<open>Laws of the ordered map\<close>

lemma ascending_entries [simp]: "ascending (entries m)"
  using entries by auto

lemma distinct_keys [simp]: "distinct (bt_keys m)"
  by (simp add: bt_keys_def ascending_distinct)

lemma sorted_keys: "sorted_wrt (<) (bt_keys m)"
  by (simp add: bt_keys_def)

lemma bt_get_entries: "bt_get m = map_of (entries m)"
  by transfer (rule refl)

lemma bt_eqI: "(\<And>k. bt_get m k = bt_get n k) \<Longrightarrow> m = n"
  by transfer (auto intro: ascending_unique)

lemma bt_get_empty [simp, bt_simps]: "bt_get bt_empty k = None"
  by transfer simp

lemma bt_get_insert [simp, bt_simps]:
  "bt_get (bt_insert k v m) k' = (if k' = k then Some v else bt_get m k')"
  by transfer (simp add: map_of_al_insert)

lemma map_of_remove_key:
  "map_of (filter (\<lambda>e. fst e \<noteq> k) xs) k' = (if k' = k then None else map_of xs k')"
  by (induction xs) auto

lemma map_of_map_entries:
  "map_of (map (\<lambda>(k, v). (k, f k v)) xs) k = map_option (f k) (map_of xs k)"
  by (induction xs) auto

lemma bt_get_remove [simp, bt_simps]:
  "bt_get (bt_remove k m) k' = (if k' = k then None else bt_get m k')"
  by transfer (rule map_of_remove_key)

lemma bt_get_map [simp, bt_simps]: "bt_get (bt_map f m) k = map_option (f k) (bt_get m k)"
  by transfer (rule map_of_map_entries)

lemma bt_entries_iff: "(k, v) \<in> set (entries m) \<longleftrightarrow> bt_get m k = Some v"
  by (simp add: bt_get_entries ascending_distinct)

lemma bt_keys_iff: "k \<in> set (bt_keys m) \<longleftrightarrow> bt_get m k \<noteq> None"
proof -
  have "k \<in> set (bt_keys m) \<longleftrightarrow> (\<exists>v. (k, v) \<in> set (entries m))"
    by (force simp: bt_keys_def)
  then show ?thesis by (simp add: bt_entries_iff)
qed

lemma bt_values_iff: "v \<in> set (bt_values m) \<longleftrightarrow> (\<exists>k. bt_get m k = Some v)"
  by (auto simp: bt_values_def bt_entries_iff[symmetric]) force

lemma bt_contains_iff: "bt_contains m k \<longleftrightarrow> bt_get m k \<noteq> None"
  by (simp add: bt_contains_def)

lemma bt_keys_contains: "k \<in> set (bt_keys m) \<longleftrightarrow> bt_contains m k"
  by (simp add: bt_keys_iff bt_contains_def)

lemma bt_contains_simps [simp, bt_simps]:
  "\<not> bt_contains bt_empty k"
  "bt_contains (bt_insert k v m) k' \<longleftrightarrow> k' = k \<or> bt_contains m k'"
  "bt_contains (bt_remove k m) k' \<longleftrightarrow> k' \<noteq> k \<and> bt_contains m k'"
  by (auto simp: bt_contains_def)

lemma bt_get_or_simps [simp, bt_simps]:
  "bt_get_or d bt_empty k = d"
  "bt_get_or d (bt_insert k v m) k' = (if k' = k then v else bt_get_or d m k')"
  by (auto simp: bt_get_or_def)

lemma bt_get_entry [simp, bt_simps]:
  "bt_get (bt_entry d f k m) k' = (if k' = k then Some (f (bt_get_or d m k)) else bt_get m k')"
  by (simp add: bt_entry_def)

lemma bt_get_or_entry [simp, bt_simps]:
  "bt_get_or d (bt_entry d f k m) k' = (if k' = k then f (bt_get_or d m k) else bt_get_or d m k')"
  by (simp add: bt_get_or_def)

lemma bt_get_adjust [simp, bt_simps]:
  "bt_get (bt_adjust f k m) k' = (if k' = k then map_option f (bt_get m k) else bt_get m k')"
  by (auto simp: bt_adjust_def split: option.splits)

lemma entries_empty [simp]: "entries bt_empty = []"
  by transfer simp

lemma bt_keys_empty [simp]: "bt_keys bt_empty = []" and bt_values_empty [simp]: "bt_values bt_empty = []"
  by (simp_all add: bt_keys_def bt_values_def)

lemma bt_is_empty_iff: "bt_is_empty m \<longleftrightarrow> m = bt_empty"
  by (metis bt_is_empty_def entries_empty entries_inject)

lemma bt_values_map: "bt_values (bt_map f m) = map (\<lambda>(k, v). f k v) (entries m)"
  unfolding bt_values_def by transfer (simp add: comp_def case_prod_beta)

lemma bt_keys_map [simp]: "bt_keys (bt_map f m) = bt_keys m"
  unfolding bt_keys_def by transfer (simp add: comp_def case_prod_beta)

lemma bt_len_keys: "bt_len m = card (dom (bt_get m))"
proof -
  have "dom (bt_get m) = set (bt_keys m)" by (auto simp: bt_keys_iff)
  then show ?thesis
    using distinct_card[OF distinct_keys, of m] by (simp add: bt_len_def bt_keys_def)
qed

lemma bs_contains_insert [simp, bt_simps]:
  "bt_contains (bs_insert k s) k' \<longleftrightarrow> k' = k \<or> bt_contains s k'"
  by (simp add: bs_insert_def)

lemma bt_get_fold_insert:
  "bt_get (fold (\<lambda>(k, v). bt_insert k v) xs m) k =
     (case map_of (rev xs) k of None \<Rightarrow> bt_get m k | Some v \<Rightarrow> Some v)"
  by (induction xs arbitrary: m) (auto simp: map_add_def split: option.splits)

lemma bt_get_collect: "bt_get (bt_collect xs) k = map_of (rev xs) k"
  by (simp add: bt_collect_def bt_get_fold_insert split: option.splits)

lemma map_of_rev: "distinct (map fst xs) \<Longrightarrow> map_of (rev xs) = map_of xs"
  by (rule map_of_inject_set[THEN iffD2]) (simp_all flip: rev_map)

lemma bt_get_collect_distinct:
  "distinct (map fst xs) \<Longrightarrow> bt_get (bt_collect xs) k = map_of xs k"
  by (simp add: bt_get_collect map_of_rev)

lemma bt_collect_entries [simp]: "bt_collect (entries m) = m"
  by (rule bt_eqI) (metis ascending_distinct ascending_entries bt_get_collect_distinct bt_get_entries)

lemma bt_get_collect_map:
  assumes "inj f"
  shows "bt_get (bt_collect (map (\<lambda>(k, v). (f k, g v)) (entries m))) (f k) = map_option g (bt_get m k)"
proof -
  have d: "distinct (map fst (map (\<lambda>(k, v). (f k, g v)) (entries m)))"
    using ascending_distinct[OF ascending_entries[of m]] assms by (simp add: case_prod_beta comp_def distinct_map inj_on_def inj_def)
  show ?thesis
  proof (cases "bt_get m k")
    case None
    then have "f k \<notin> fst ` set (map (\<lambda>(k, v). (f k, g v)) (entries m))" using assms bt_entries_iff[of k _ m] by (auto simp: inj_eq image_iff)
    then show ?thesis using None by (simp add: bt_get_collect_distinct[OF d] map_of_eq_None_iff image_image case_prod_beta)
  next
    case (Some v)
    then have "(f k, g v) \<in> set (map (\<lambda>(k, v). (f k, g v)) (entries m))" by (auto simp: bt_entries_iff image_iff intro!: bexI[of _ "(k, v)"])
    then show ?thesis using Some d by (simp add: bt_get_collect_distinct[OF d])
  qed
qed


lemma bt_map_fold: "fold (\<lambda>(k, v). bt_insert k (f k v)) (entries m) bt_empty = bt_map f m"
proof -
  have e: "entries (bt_map f m) = map (\<lambda>(k, v). (k, f k v)) (entries m)"
    by transfer simp
  have "fold (\<lambda>(k, v). bt_insert k (f k v)) (entries m) bt_empty = bt_collect (map (\<lambda>(k, v). (k, f k v)) (entries m))"
    by (simp add: bt_collect_def fold_map comp_def case_prod_unfold)
  then show ?thesis by (metis e bt_collect_entries)
qed

lemma bs_contains_collect [simp]: "bt_contains (bs_collect xs) k \<longleftrightarrow> k \<in> set xs"
proof -
  have "fst ` set (rev (map (\<lambda>k. (k, ())) xs)) = set xs" by force
  then have "map_of (rev (map (\<lambda>k. (k, ())) xs)) k = None \<longleftrightarrow> k \<notin> set xs"
    by (metis map_of_eq_None_iff)
  then show ?thesis
    by (simp add: bs_collect_def bt_contains_def bt_get_collect)
qed

lemma fold_bs_insert: "bt_contains (fold bs_insert ks s) k \<longleftrightarrow> k \<in> set ks \<or> bt_contains s k"
  by (induction ks arbitrary: s) auto

subsection \<open>Predicates on all entries\<close>

definition bt_all :: "('k::linorder \<Rightarrow> 'v \<Rightarrow> bool) \<Rightarrow> ('k, 'v) btree \<Rightarrow> bool" where
  "bt_all P m \<longleftrightarrow> (\<forall>k v. bt_get m k = Some v \<longrightarrow> P k v)"

lemma bt_all_empty [simp]: "bt_all P bt_empty"
  by (simp add: bt_all_def)

lemma bt_all_insert: "bt_all P m \<Longrightarrow> P k v \<Longrightarrow> bt_all P (bt_insert k v m)"
  by (simp add: bt_all_def)

lemma bt_all_entry:
  assumes "bt_all P m" and "P k d" and "\<And>v. P k v \<Longrightarrow> P k (f v)"
  shows "bt_all P (bt_entry d f k m)"
  using assms by (auto simp: bt_all_def bt_entry_def bt_get_or_def split: option.splits)

lemma bt_allD: "bt_all P m \<Longrightarrow> bt_get m k = Some v \<Longrightarrow> P k v"
  by (simp add: bt_all_def)

subsection \<open>Grouping\<close>

text \<open>\<open>groups.entry(key).or_default().push(x)\<close> over a list: each group keeps the list's order.\<close>

definition group_push :: "('a \<Rightarrow> 'k::linorder) \<Rightarrow> 'a \<Rightarrow> ('k, 'a list) btree \<Rightarrow> ('k, 'a list) btree" where
  "group_push key x m = bt_entry [] (\<lambda>g. g @ [x]) (key x) m"

definition group_by :: "('a \<Rightarrow> 'k::linorder) \<Rightarrow> 'a list \<Rightarrow> ('k, 'a list) btree" where
  "group_by key xs = fold (group_push key) xs bt_empty"

lemma bt_get_group_fold:
  "bt_get (fold (group_push key) xs m) k =
     (if filter (\<lambda>x. key x = k) xs = [] then bt_get m k
      else Some (bt_get_or [] m k @ filter (\<lambda>x. key x = k) xs))"
  by (induction xs arbitrary: m) (auto simp: group_push_def bt_entry_def bt_get_or_def)

lemma bt_get_group_by:
  "bt_get (group_by key xs) k =
     (if filter (\<lambda>x. key x = k) xs = [] then None else Some (filter (\<lambda>x. key x = k) xs))"
  by (simp add: group_by_def bt_get_group_fold)

lemma mset_concat_al_insert:
  assumes "ascending xs"
  shows "mset (concat (map snd (al_insert k ((case map_of xs k of None \<Rightarrow> [] | Some g \<Rightarrow> g) @ [x]) xs))) =
     add_mset x (mset (concat (map snd xs)))"
  using assms
proof (induction xs)
  case (Cons y xs)
  obtain k' v where y: "y = (k', v)" by (cases y)
  have "map_of xs k = None" if "k < k'"
    using that Cons.prems y by (auto simp: map_of_eq_None_iff)
  with Cons y show ?case by auto
qed simp

lemma mset_group_push: "mset (concat (bt_values (group_push key x m))) = add_mset x (mset (concat (bt_values m)))"
  unfolding group_push_def bt_entry_def bt_get_or_def bt_values_def
  by transfer (rule mset_concat_al_insert)

lemma mset_group_by: "mset (concat (bt_values (group_by key xs))) = mset xs"
proof -
  have "mset (concat (bt_values (fold (group_push key) xs m))) = mset (concat (bt_values m)) + mset xs" for m
    by (induction xs arbitrary: m) (auto simp: mset_group_push)
  moreover have "bt_values bt_empty = []" by (simp add: bt_values_def bt_empty.rep_eq)
  ultimately show ?thesis by (simp add: group_by_def)
qed

lemma sorted_group_by: "sorted (map key (concat (bt_values (group_by key xs))))"
proof -
  have "sorted_wrt (<) (map fst ys) \<Longrightarrow> (\<forall>(k, g) \<in> set ys. \<forall>x \<in> set g. key x = k) \<Longrightarrow> sorted (map key (concat (map snd ys)))" for ys
  proof (induction ys)
    case (Cons y ys)
    obtain k g where y: "y = (k, g)" by (cases y)
    have "sorted (map key g)" using Cons.prems(2) y by (simp add: sorted_wrt_iff_nth_less)
    moreover have "key a \<le> key b" if ab: "a \<in> set g" "b \<in> set (concat (map snd ys))" for a b
    proof -
      obtain k' g' where "(k', g') \<in> set ys" "b \<in> set g'" using ab(2) by auto
      then have "key b = k'" "k < k'" using Cons.prems y by auto
      moreover have "key a = k" using Cons.prems(2) y ab(1) by auto
      ultimately show ?thesis by simp
    qed
    ultimately show ?case using Cons y by (auto simp: sorted_append)
  qed simp
  moreover have "\<forall>(k, g) \<in> set (entries (group_by key xs)). \<forall>x \<in> set g. key x = k"
    by (auto simp: bt_entries_iff bt_get_group_by split: if_splits)
  ultimately show ?thesis unfolding bt_values_def by simp
qed

section \<open>Invariants of step relations\<close>

text \<open>
  The interface between a stateful component and the properties of its histories: an
  initial state, a step relation and an invariant that the operations keep.
\<close>

locale invariant_system =
  fixes start :: 's and step :: "'s \<Rightarrow> 's \<Rightarrow> bool" and inv :: "'s \<Rightarrow> bool"
  assumes start_inv: "inv start"
    and step_inv: "inv s \<Longrightarrow> step s t \<Longrightarrow> inv t"
begin

lemma steps_inv: "step\<^sup>*\<^sup>* s t \<Longrightarrow> inv s \<Longrightarrow> inv t"
  by (induction rule: rtranclp_induct) (auto intro: step_inv)

lemma reachable_inv: "step\<^sup>*\<^sup>* start s \<Longrightarrow> inv s"
  using steps_inv start_inv by blast

text \<open>What every step keeps from an invariant state on, every history keeps.\<close>

lemma steps_keep:
  assumes "step\<^sup>*\<^sup>* s t" and "inv s" and "P s"
    and "\<And>u v. inv u \<Longrightarrow> P u \<Longrightarrow> step u v \<Longrightarrow> P v"
  shows "P t"
  using assms(1)
proof (induction rule: rtranclp_induct)
  case (step u v)
  then show ?case using steps_inv[OF _ assms(2)] assms(4) by blast
qed (rule assms(3))

end

end
