(* ===== verification/Identity.thy ===== *)
theory Identity
  imports Prelude
begin

text \<open>
  Identifiers, session tokens, state names, transitions and state cardinalities:
  \<^verbatim>\<open>src/model/identity.rs\<close> and \<^verbatim>\<open>src/model/state.rs\<close>. A newtype around a
  \<open>String\<close> is a one-constructor datatype; its derived \<open>Ord\<close> is the byte-wise
  lexicographic order of the string, given here as instances of \<open>linorder\<close>.
\<close>

section \<open>Identifiers\<close>

datatype IdentifierKind = InstanceKind | PartitionKind | ResourceKind

datatype IdentifierError = EmptyIdentifier IdentifierKind

definition IdentifierKind_fmt :: "IdentifierKind \<Rightarrow> string" where
  "IdentifierKind_fmt k = (case k of
     InstanceKind \<Rightarrow> ''instance'' | PartitionKind \<Rightarrow> ''partition'' | ResourceKind \<Rightarrow> ''resource'')"

definition IdentifierError_fmt :: "IdentifierError \<Rightarrow> string" where
  "IdentifierError_fmt e =
     (case e of EmptyIdentifier kind \<Rightarrow> IdentifierKind_fmt kind @ '' identifier must not be empty'')"

definition validate :: "IdentifierKind \<Rightarrow> string \<Rightarrow> IdentifierError + string" where
  "validate kind s = (if s = [] then Inl (EmptyIdentifier kind) else Inr s)"

datatype InstanceId = InstanceId (InstanceId_as_str: string)
datatype PartitionId = PartitionId (PartitionId_as_str: string)
datatype ResourceId = ResourceId (ResourceId_as_str: string)

definition InstanceId_new :: "string \<Rightarrow> IdentifierError + InstanceId" where
  "InstanceId_new s = bind_result (validate InstanceKind s) (\<lambda>s. Inr (InstanceId s))"

definition PartitionId_new :: "string \<Rightarrow> IdentifierError + PartitionId" where
  "PartitionId_new s = bind_result (validate PartitionKind s) (\<lambda>s. Inr (PartitionId s))"

definition ResourceId_new :: "string \<Rightarrow> IdentifierError + ResourceId" where
  "ResourceId_new s = bind_result (validate ResourceKind s) (\<lambda>s. Inr (ResourceId s))"

text \<open>A session token is a \<open>u64\<close>; the wire value is the token itself.\<close>

datatype SessionId = SessionId (SessionId_sequence: u64)

definition SessionId_wire_value :: "SessionId \<Rightarrow> u64" where
  "SessionId_wire_value s = SessionId_sequence s"

definition SessionId_from_wire_value :: "u64 \<Rightarrow> SessionId" where
  "SessionId_from_wire_value v = SessionId v"

section \<open>States and transitions\<close>

datatype State = State (State_as_str: string)

datatype StateError = EmptyName

definition State_new :: "string \<Rightarrow> StateError + State" where
  "State_new s = (if s = [] then Inl EmptyName else Inr (State s))"

definition StateError_fmt :: "StateError \<Rightarrow> string" where
  "StateError_fmt e = (case e of EmptyName \<Rightarrow> ''state name must not be empty'')"

definition is_leader :: "State \<Rightarrow> bool" where
  "is_leader s = (State_as_str s = ''LEADER'')"

definition is_standby :: "State \<Rightarrow> bool" where
  "is_standby s = (State_as_str s = ''STANDBY'')"

definition is_offline :: "State \<Rightarrow> bool" where
  "is_offline s = (State_as_str s = ''OFFLINE'')"

definition is_dropped :: "State \<Rightarrow> bool" where
  "is_dropped s = (State_as_str s = ''DROPPED'')"

definition is_error :: "State \<Rightarrow> bool" where
  "is_error s = (State_as_str s = ''ERROR'')"

record Transition =
  transition_source :: State
  transition_target :: State

definition Transition_new :: "State \<Rightarrow> State \<Rightarrow> Transition" where
  "Transition_new s t = \<lparr>transition_source = s, transition_target = t\<rparr>"

datatype StateCardinality = Exact u32 | ReplicaCount | NodeCount | Unbounded

datatype StateCardinalityError = InvalidValue string

text \<open>
  \<open>str::parse::<u32>\<close>: one optional plus sign, then at least one decimal digit, and
  a value below \<open>2^32\<close>.
\<close>

definition digit_of_char :: "char \<Rightarrow> nat option" where
  "digit_of_char c = (let n = of_char c in if 48 \<le> n \<and> n \<le> 57 then Some (n - 48) else None)"

fun parse_digits :: "nat \<Rightarrow> string \<Rightarrow> nat option" where
  "parse_digits acc [] = Some acc"
| "parse_digits acc (c # cs) =
     (case digit_of_char c of None \<Rightarrow> None | Some d \<Rightarrow> parse_digits (10 * acc + d) cs)"

definition parse_unsigned :: "nat \<Rightarrow> string \<Rightarrow> nat option" where
  "parse_unsigned width s =
     (let digits = (case s of c # cs \<Rightarrow> if c = CHR ''+'' then cs else s | [] \<Rightarrow> [])
      in if digits = [] then None
         else case parse_digits 0 digits of
           None \<Rightarrow> None
         | Some n \<Rightarrow> if n < 2 ^ width then Some n else None)"

definition StateCardinality_try_from :: "string \<Rightarrow> StateCardinalityError + StateCardinality" where
  "StateCardinality_try_from s =
     (if s = ''R'' then Inr ReplicaCount
      else if s = ''N'' then Inr NodeCount
      else if s = ''-1'' then Inr Unbounded
      else case parse_unsigned 32 s of
        Some n \<Rightarrow> Inr (Exact (of_nat n))
      | None \<Rightarrow> Inl (InvalidValue s))"

definition StateCardinalityError_fmt :: "StateCardinalityError \<Rightarrow> string" where
  "StateCardinalityError_fmt e =
     (case e of InvalidValue s \<Rightarrow> ''invalid state cardinality: '' @ s)"

text \<open>Decimal printing, as \<open>format!\<close> does it.\<close>

definition char_of_digit :: "nat \<Rightarrow> char" where
  "char_of_digit d = char_of (48 + d)"

fun show_nat :: "nat \<Rightarrow> string" where
  "show_nat n = (if n < 10 then [char_of_digit n]
                 else show_nat (n div 10) @ [char_of_digit (n mod 10)])"

declare show_nat.simps [simp del]

section \<open>The derived orders\<close>

instantiation InstanceId :: linorder
begin
definition less_eq_InstanceId :: "InstanceId \<Rightarrow> InstanceId \<Rightarrow> bool" where
  "less_eq_InstanceId a b = (InstanceId_as_str a \<le> InstanceId_as_str b)"
definition less_InstanceId :: "InstanceId \<Rightarrow> InstanceId \<Rightarrow> bool" where
  "less_InstanceId a b = (InstanceId_as_str a < InstanceId_as_str b)"
instance
  by standard (auto simp: less_eq_InstanceId_def less_InstanceId_def InstanceId.expand)
end

instantiation PartitionId :: linorder
begin
definition less_eq_PartitionId :: "PartitionId \<Rightarrow> PartitionId \<Rightarrow> bool" where
  "less_eq_PartitionId a b = (PartitionId_as_str a \<le> PartitionId_as_str b)"
definition less_PartitionId :: "PartitionId \<Rightarrow> PartitionId \<Rightarrow> bool" where
  "less_PartitionId a b = (PartitionId_as_str a < PartitionId_as_str b)"
instance
  by standard (auto simp: less_eq_PartitionId_def less_PartitionId_def PartitionId.expand)
end

instantiation ResourceId :: linorder
begin
definition less_eq_ResourceId :: "ResourceId \<Rightarrow> ResourceId \<Rightarrow> bool" where
  "less_eq_ResourceId a b = (ResourceId_as_str a \<le> ResourceId_as_str b)"
definition less_ResourceId :: "ResourceId \<Rightarrow> ResourceId \<Rightarrow> bool" where
  "less_ResourceId a b = (ResourceId_as_str a < ResourceId_as_str b)"
instance
  by standard (auto simp: less_eq_ResourceId_def less_ResourceId_def ResourceId.expand)
end

instantiation State :: linorder
begin
definition less_eq_State :: "State \<Rightarrow> State \<Rightarrow> bool" where
  "less_eq_State a b = (State_as_str a \<le> State_as_str b)"
definition less_State :: "State \<Rightarrow> State \<Rightarrow> bool" where
  "less_State a b = (State_as_str a < State_as_str b)"
instance
  by standard (auto simp: less_eq_State_def less_State_def State.expand)
end

instantiation SessionId :: linorder
begin
definition less_eq_SessionId :: "SessionId \<Rightarrow> SessionId \<Rightarrow> bool" where
  "less_eq_SessionId a b = (SessionId_sequence a \<le> SessionId_sequence b)"
definition less_SessionId :: "SessionId \<Rightarrow> SessionId \<Rightarrow> bool" where
  "less_SessionId a b = (SessionId_sequence a < SessionId_sequence b)"
instance
  by standard (auto simp: less_eq_SessionId_def less_SessionId_def SessionId.expand)
end

section \<open>Lemmas\<close>

lemma InstanceId_new_Inr [simp]: "InstanceId_new s = Inr i \<longleftrightarrow> s \<noteq> [] \<and> i = InstanceId s"
  by (auto simp: InstanceId_new_def validate_def)

lemma PartitionId_new_Inr [simp]: "PartitionId_new s = Inr i \<longleftrightarrow> s \<noteq> [] \<and> i = PartitionId s"
  by (auto simp: PartitionId_new_def validate_def)

lemma ResourceId_new_Inr [simp]: "ResourceId_new s = Inr i \<longleftrightarrow> s \<noteq> [] \<and> i = ResourceId s"
  by (auto simp: ResourceId_new_def validate_def)

lemma State_new_Inr [simp]: "State_new s = Inr st \<longleftrightarrow> s \<noteq> [] \<and> st = State s"
  by (auto simp: State_new_def)

lemma digit_roundtrip: "d < 10 \<Longrightarrow> digit_of_char (char_of_digit d) = Some d"
  by (simp add: digit_of_char_def char_of_digit_def)

lemma parse_digits_append:
  "parse_digits acc (xs @ ys) = Option.bind (parse_digits acc xs) (\<lambda>a. parse_digits a ys)"
  by (induction xs arbitrary: acc) (auto split: option.splits)

lemma parse_digits_show: "parse_digits 0 (show_nat n) = Some n"
proof (induction n rule: show_nat.induct)
  case (1 n)
  show ?case
    by (subst show_nat.simps) (auto simp: digit_roundtrip parse_digits_append 1)
qed

lemma show_nat_nonempty [simp]: "show_nat n \<noteq> []"
  by (subst show_nat.simps) simp

lemma show_nat_inject [simp]: "show_nat m = show_nat n \<longleftrightarrow> m = n"
  by (metis option.inject parse_digits_show)

lemma hd_show_nat: "\<exists>d < 10. hd (show_nat n) = char_of_digit d"
proof (induction n rule: show_nat.induct)
  case (1 n)
  show ?case
    by (cases "n < 10") (auto simp: show_nat.simps[of n] 1 hd_append)
qed

lemma parse_unsigned_show: "n < 2 ^ w \<Longrightarrow> parse_unsigned w (show_nat n) = Some n"
proof -
  assume n: "n < 2 ^ w"
  obtain c cs where s: "show_nat n = c # cs" by (cases "show_nat n") auto
  obtain d where "d < 10" "c = char_of_digit d" using hd_show_nat[of n] s by auto
  then have "digit_of_char c = Some d" by (simp add: digit_roundtrip)
  moreover have "digit_of_char (CHR ''+'') = None" by (simp add: digit_of_char_def)
  ultimately have "c \<noteq> CHR ''+''" by auto
  then show ?thesis using n s parse_digits_show[of n]
    by (simp add: parse_unsigned_def)
qed

end
