(* ===== verification/State_Model.thy ===== *)
theory State_Model
  imports Identity
begin

text \<open>
  State-model definitions: \<^verbatim>\<open>src/model/state_model.rs\<close> and \<^verbatim>\<open>src/model/builtins.rs\<close>.
  The builder validates states and transitions and precomputes a next-hop table with an
  in-place Floyd-Warshall pass over two matrices. \<open>Shortest_Paths\<close> proves that this
  table holds first edges of shortest paths, and \<open>State_Model_Laws\<close> what a built
  definition guarantees to the rest of the program.
\<close>

section \<open>Data\<close>

record StateModelDefinition =
  model_name :: string
  model_initial_state :: State
  states_by_priority :: "State list"
  transitions_by_priority :: "Transition list"
  model_cardinalities :: "(State, StateCardinality) btree"
  next_states :: "(State, (State, State) btree) btree"

record StateModelBuilder =
  builder_name :: string
  builder_initial_state :: "State option"
  builder_states :: "(State \<times> StateCardinality) list"
  builder_transitions :: "Transition list"

datatype StateModelError =
    EmptyModelName
  | NoStates
  | MissingInitialState
  | UnknownInitialState State
  | MissingDroppedState
  | NoPathToDropped State
  | DuplicateState State
  | UnknownTransitionState Transition State
  | DuplicateTransition Transition

definition StateModelError_fmt :: "StateModelError \<Rightarrow> string" where
  "StateModelError_fmt e = (case e of
     EmptyModelName \<Rightarrow> ''state-model name must not be empty''
   | NoStates \<Rightarrow> ''state model must contain at least one state''
   | MissingInitialState \<Rightarrow> ''state model has no initial state''
   | UnknownInitialState s \<Rightarrow> ''initial state is not defined: '' @ State_as_str s
   | MissingDroppedState \<Rightarrow> ''state model must contain the DROPPED state''
   | NoPathToDropped s \<Rightarrow> ''state has no path to DROPPED: '' @ State_as_str s
   | DuplicateState s \<Rightarrow> ''duplicate state: '' @ State_as_str s
   | UnknownTransitionState t s \<Rightarrow>
       ''transition '' @ State_as_str (transition_source t) @ '' -> '' @
       State_as_str (transition_target t) @ '' references unknown state '' @ State_as_str s
   | DuplicateTransition t \<Rightarrow>
       ''duplicate transition: '' @ State_as_str (transition_source t) @ '' -> '' @
       State_as_str (transition_target t))"

section \<open>Accessors\<close>

definition cardinality_for :: "StateModelDefinition \<Rightarrow> State \<Rightarrow> StateCardinality option" where
  "cardinality_for m s = bt_get (model_cardinalities m) s"

definition highest_priority_state :: "StateModelDefinition \<Rightarrow> State" where
  "highest_priority_state m = states_by_priority m ! 0"

definition has_single_highest_priority_state :: "StateModelDefinition \<Rightarrow> bool" where
  "has_single_highest_priority_state m =
     (cardinality_for m (highest_priority_state m) = Some (Exact 1))"

definition next_state_toward :: "StateModelDefinition \<Rightarrow> State \<Rightarrow> State \<Rightarrow> State option" where
  "next_state_toward m s t =
     (case bt_get (next_states m) s of None \<Rightarrow> None | Some targets \<Rightarrow> bt_get targets t)"

section \<open>The next-hop table\<close>

type_synonym matrix = "nat option list list"

definition mat_get :: "matrix \<Rightarrow> nat \<Rightarrow> nat \<Rightarrow> nat option" where
  "mat_get m i j = m ! i ! j"

definition mat_set :: "nat \<Rightarrow> nat \<Rightarrow> nat option \<Rightarrow> matrix \<Rightarrow> matrix" where
  "mat_set i j v m = m[i := (m ! i)[j := v]]"

text \<open>
  The index of a state, as the hash map of the code gives it. The code indexes that map
  with \<open>indexes[..]\<close>, which panics on a state that is not in it: \<open>None\<close> below is that
  panic.
\<close>

definition state_index :: "State list \<Rightarrow> State \<Rightarrow> nat option" where
  "state_index states s = map_of (rev (zip states [0..<length states])) s"

fun indexed_transitions :: "State list \<Rightarrow> Transition list \<Rightarrow> (nat \<times> nat) list option" where
  "indexed_transitions states [] = Some []"
| "indexed_transitions states (t # ts) =
     (case state_index states (transition_source t) of
        None \<Rightarrow> None
      | Some i \<Rightarrow> (case state_index states (transition_target t) of
          None \<Rightarrow> None
        | Some j \<Rightarrow> map_option (\<lambda>es. (i, j) # es) (indexed_transitions states ts)))"

definition init_diagonal :: "nat \<Rightarrow> matrix \<times> matrix \<Rightarrow> matrix \<times> matrix" where
  "init_diagonal n dn =
     fold (\<lambda>i (d, nx). (mat_set i i (Some 0) d, mat_set i i (Some i) nx)) [0..<n] dn"

definition init_edges :: "(nat \<times> nat) list \<Rightarrow> matrix \<times> matrix \<Rightarrow> matrix \<times> matrix" where
  "init_edges es dn =
     fold (\<lambda>(i, j) (d, nx). (mat_set i j (Some 1) d, mat_set i j (Some j) nx)) es dn"

definition relax :: "nat \<Rightarrow> nat \<Rightarrow> nat \<Rightarrow> matrix \<times> matrix \<Rightarrow> matrix \<times> matrix" where
  "relax k i j dn = (case dn of (d, nx) \<Rightarrow>
     (case mat_get d i k of
        None \<Rightarrow> (d, nx)
      | Some left \<Rightarrow> (case mat_get d k j of
          None \<Rightarrow> (d, nx)
        | Some right \<Rightarrow>
            (let candidate = left + right;
                 current = (case mat_get d i j of None \<Rightarrow> usize_max | Some c \<Rightarrow> c)
             in if candidate < current
                then (mat_set i j (Some candidate) d, mat_set i j (mat_get nx i k) nx)
                else (d, nx)))))"

definition floyd_warshall :: "nat \<Rightarrow> matrix \<times> matrix \<Rightarrow> matrix \<times> matrix" where
  "floyd_warshall n dn =
     fold (\<lambda>k. fold (\<lambda>i. fold (\<lambda>j. relax k i j) [0..<n]) [0..<n]) [0..<n] dn"

definition table_row :: "State list \<Rightarrow> nat \<Rightarrow> nat option list \<Rightarrow> (State, State) btree" where
  "table_row states i row =
     fold (\<lambda>(j, nx) targets.
             if i \<noteq> j
             then (case nx of None \<Rightarrow> targets
                            | Some h \<Rightarrow> bt_insert (states ! j) (states ! h) targets)
             else targets)
          (enumerate 0 row) bt_empty"

definition next_matrix :: "nat \<Rightarrow> (nat \<times> nat) list \<Rightarrow> matrix \<times> matrix" where
  "next_matrix n es =
     floyd_warshall n
       (init_edges es
         (init_diagonal n (replicate n (replicate n None), replicate n (replicate n None))))"

definition build_transition_table ::
    "State list \<Rightarrow> Transition list \<Rightarrow> (State, (State, State) btree) btree option" where
  "build_transition_table states transitions =
     map_option
       (\<lambda>es. fold (\<lambda>(i, row) table. bt_insert (states ! i) (table_row states i row) table)
               (enumerate 0 (snd (next_matrix (length states) es))) bt_empty)
       (indexed_transitions states transitions)"

section \<open>The builder\<close>

definition StateModelBuilder_new :: "string \<Rightarrow> StateModelBuilder" where
  "StateModelBuilder_new nm = \<lparr>builder_name = nm, builder_initial_state = None,
     builder_states = [], builder_transitions = []\<rparr>"

definition builder_set_initial_state :: "State \<Rightarrow> StateModelBuilder \<Rightarrow> StateModelBuilder" where
  "builder_set_initial_state s b = b\<lparr>builder_initial_state := Some s\<rparr>"

definition add_state :: "State \<Rightarrow> StateCardinality \<Rightarrow> StateModelBuilder \<Rightarrow> StateModelBuilder" where
  "add_state s c b = b\<lparr>builder_states := builder_states b @ [(s, c)]\<rparr>"

definition add_transition :: "Transition \<Rightarrow> StateModelBuilder \<Rightarrow> StateModelBuilder" where
  "add_transition t b = b\<lparr>builder_transitions := builder_transitions b @ [t]\<rparr>"

definition check_states ::
    "(State \<times> StateCardinality) list
     \<Rightarrow> StateModelError + (State set \<times> State list \<times> (State, StateCardinality) btree)" where
  "check_states scs =
     try_fold (\<lambda>(s, c) (state_set, by_priority, cards).
         if s \<in> state_set then Inl (DuplicateState s)
         else Inr (insert s state_set, by_priority @ [s], bt_insert s c cards))
       scs ({}, [], bt_empty)"

definition check_transitions ::
    "State set \<Rightarrow> Transition list \<Rightarrow> StateModelError + Transition set" where
  "check_transitions state_set ts =
     try_fold (\<lambda>t seen.
         if transition_source t \<notin> state_set
         then Inl (UnknownTransitionState t (transition_source t))
         else if transition_target t \<notin> state_set
         then Inl (UnknownTransitionState t (transition_target t))
         else if t \<in> seen then Inl (DuplicateTransition t)
         else Inr (insert t seen))
       ts {}"

definition check_dropped ::
    "State list \<Rightarrow> (State, (State, State) btree) btree \<Rightarrow> StateModelError + unit" where
  "check_dropped by_priority table =
     bind_result (ok_or (find (\<lambda>s. State_as_str s = ''DROPPED'') by_priority) MissingDroppedState)
       (\<lambda>dropped. try_fold (\<lambda>s u.
           if s \<noteq> dropped \<and>
              \<not> (case bt_get table s of None \<Rightarrow> False | Some targets \<Rightarrow> bt_contains targets dropped)
           then Inl (NoPathToDropped s) else Inr ())
         by_priority ())"

text \<open>\<open>None\<close> is the panic of the table construction; \<open>build_total\<close> shows it absent.\<close>

definition build :: "StateModelBuilder \<Rightarrow> (StateModelError + StateModelDefinition) option" where
  "build b =
     (if builder_name b = [] then Some (Inl EmptyModelName)
      else if builder_states b = [] then Some (Inl NoStates)
      else case check_states (builder_states b) of
        Inl e \<Rightarrow> Some (Inl e)
      | Inr (state_set, by_priority, cards) \<Rightarrow>
        (case builder_initial_state b of
           None \<Rightarrow> Some (Inl MissingInitialState)
         | Some initial \<Rightarrow>
           if initial \<notin> state_set then Some (Inl (UnknownInitialState initial))
           else case check_transitions state_set (builder_transitions b) of
             Inl e \<Rightarrow> Some (Inl e)
           | Inr _ \<Rightarrow>
             (case build_transition_table by_priority (builder_transitions b) of
                None \<Rightarrow> None
              | Some table \<Rightarrow>
                (case check_dropped by_priority table of
                   Inl e \<Rightarrow> Some (Inl e)
                 | Inr _ \<Rightarrow> Some (Inr
                     \<lparr>model_name = builder_name b, model_initial_state = initial,
                      states_by_priority = by_priority,
                      transitions_by_priority = builder_transitions b,
                      model_cardinalities = cards, next_states = table\<rparr>)))))"

section \<open>The built-in LeaderStandby model\<close>

definition leader_standby_builder :: StateModelBuilder where
  "leader_standby_builder =
     (let transition = (\<lambda>s t. Transition_new (State s) (State t)) in
      (add_transition (transition ''OFFLINE'' ''DROPPED'')
      (add_transition (transition ''STANDBY'' ''OFFLINE'')
      (add_transition (transition ''OFFLINE'' ''STANDBY'')
      (add_transition (transition ''STANDBY'' ''LEADER'')
      (add_transition (transition ''LEADER'' ''STANDBY'')
      (add_state (State ''DROPPED'') Unbounded
      (add_state (State ''OFFLINE'') Unbounded
      (add_state (State ''STANDBY'') ReplicaCount
      (add_state (State ''LEADER'') (Exact 1)
      (builder_set_initial_state (State ''OFFLINE'')
      (StateModelBuilder_new ''LeaderStandby''))))))))))))"

text \<open>\<open>.expect(..)\<close>: the build of the built-in model succeeds (\<open>leader_standby_build\<close>).\<close>

definition leader_standby :: StateModelDefinition where
  "leader_standby = (case build leader_standby_builder of
     Some (Inr m) \<Rightarrow> m
   | _ \<Rightarrow> undefined)"

end
