(* ===== verification/Shortest_Paths.thy ===== *)
theory Shortest_Paths
  imports State_Model
begin

text \<open>
  Correctness of the next-hop table of \<open>State_Model\<close>: walks in the transition graph,
  the matrices read cell by cell, the invariant of the Floyd-Warshall phases, and the
  reading of the finished matrix as a table over states. A missing entry means that no
  path exists; an entry is the first edge of a shortest path.
\<close>

section \<open>Walks\<close>

text \<open>A walk from \<open>i\<close> to \<open>j\<close> over the given intermediate nodes.\<close>

fun via :: "('a \<times> 'a) set \<Rightarrow> 'a \<Rightarrow> 'a list \<Rightarrow> 'a \<Rightarrow> bool" where
  "via E i [] j \<longleftrightarrow> (i, j) \<in> E"
| "via E i (m # ms) j \<longleftrightarrow> (i, m) \<in> E \<and> via E m ms j"

lemma via_append: "via E i (xs @ k # ys) j \<longleftrightarrow> via E i xs k \<and> via E k ys j"
  by (induction xs arbitrary: i) auto

lemma via_subset: "via E i ms j \<Longrightarrow> set ms \<subseteq> snd ` E"
  by (induction ms arbitrary: i) force+

lemma via_first: "via E i ms j \<Longrightarrow> (i, hd (ms @ [j])) \<in> E"
  by (cases ms) auto

lemma via_distinct:
  "via E i ms j \<Longrightarrow> \<exists>ms'. via E i ms' j \<and> distinct ms' \<and> set ms' \<subseteq> set ms"
proof (induction "length ms" arbitrary: ms rule: less_induct)
  case less
  show ?case
  proof (cases "distinct ms")
    case True
    with less.prems show ?thesis by blast
  next
    case False
    then obtain xs ys zs x where ms: "ms = xs @ [x] @ ys @ [x] @ zs"
      using not_distinct_decomp by blast
    have "via E i (xs @ x # zs) j"
      using less.prems by (auto simp: ms via_append)
    then obtain ms' where "via E i ms' j" "distinct ms'" "set ms' \<subseteq> set (xs @ x # zs)"
      using less.hyps[of "xs @ x # zs"] by (auto simp: ms)
    then show ?thesis by (auto simp: ms)
  qed
qed

lemma via_relpow: "(\<exists>ms. length ms = l \<and> via E i ms j) \<longleftrightarrow> (i, j) \<in> E ^^ Suc l"
proof (induction l arbitrary: i)
  case (Suc l)
  have "(\<exists>ms. length ms = Suc l \<and> via E i ms j)
      \<longleftrightarrow> (\<exists>m ms. length ms = l \<and> (i, m) \<in> E \<and> via E m ms j)"
    by (metis length_Suc_conv via.simps(2))
  also have "\<dots> \<longleftrightarrow> (\<exists>m. (i, m) \<in> E \<and> (\<exists>ms. length ms = l \<and> via E m ms j))"
    by blast
  also have "\<dots> \<longleftrightarrow> (i, j) \<in> E ^^ Suc (Suc l)"
    unfolding Suc.IH by (meson relpow_Suc_D2 relpow_Suc_I2)
  finally show ?case .
qed simp

lemma via_trancl: "(\<exists>ms. via E i ms j) \<longleftrightarrow> (i, j) \<in> E\<^sup>+"
proof -
  have "(i, j) \<in> E\<^sup>+ \<longleftrightarrow> (\<exists>l. (i, j) \<in> E ^^ Suc l)"
    by (metis gr0_conv_Suc trancl_power zero_less_Suc)
  then show ?thesis by (metis via_relpow)
qed

lemma via_image_iff:
  assumes inj: "inj_on f A" and E: "E \<subseteq> A \<times> A" and i: "i \<in> A" and j: "j \<in> A"
  shows "via (map_prod f f ` E) (f i) ss (f j) \<longleftrightarrow> (\<exists>ms. ss = map f ms \<and> via E i ms j)"
  using i
proof (induction ss arbitrary: i)
  case Nil
  have "(i, j) \<in> E" if "(f i, f j) \<in> map_prod f f ` E"
    using that E inj Nil j by (auto dest!: inj_onD[OF inj] elim!: subsetD[THEN mem_Sigma_iff[THEN iffD1], elim_format])
  then have "(f i, f j) \<in> map_prod f f ` E \<longleftrightarrow> (i, j) \<in> E" by force
  then show ?case by auto
next
  case (Cons s ss)
  have step: "(f i, s) \<in> map_prod f f ` E \<longleftrightarrow> (\<exists>m. s = f m \<and> (i, m) \<in> E)"
    using E inj Cons.prems by (force dest: inj_onD)
  show ?case
  proof
    assume "via (map_prod f f ` E) (f i) (s # ss) (f j)"
    then obtain m where m: "s = f m" "(i, m) \<in> E" and v: "via (map_prod f f ` E) (f m) ss (f j)"
      using step by auto
    then obtain ms where "ss = map f ms" "via E m ms j" using Cons.IH[of m] E by auto
    with m show "\<exists>ms. s # ss = map f ms \<and> via E i ms j"
      by (intro exI[of _ "m # ms"]) auto
  next
    assume "\<exists>ms. s # ss = map f ms \<and> via E i ms j"
    then obtain m ms where m: "s = f m" "ss = map f ms" "(i, m) \<in> E" "via E m ms j"
      by (auto simp: Cons_eq_map_conv)
    then have "via (map_prod f f ` E) (f m) ss (f j)" using Cons.IH[of m] E by auto
    with m step show "via (map_prod f f ` E) (f i) (s # ss) (f j)" by auto
  qed
qed

section \<open>Matrices\<close>

definition square :: "nat \<Rightarrow> matrix \<Rightarrow> bool" where
  "square n m \<longleftrightarrow> length m = n \<and> (\<forall>row \<in> set m. length row = n)"

lemma square_set: "square n m \<Longrightarrow> i < n \<Longrightarrow> square n (mat_set i j v m)"
  by (auto simp: square_def mat_set_def dest!: set_update_subset_insert[THEN subsetD])

lemma mat_get_set:
  "square n m \<Longrightarrow> i < n \<Longrightarrow> j < n \<Longrightarrow>
   mat_get (mat_set i j v m) a b = (if a = i \<and> b = j then v else mat_get m a b)"
  by (auto simp: square_def mat_get_def mat_set_def nth_list_update)

lemma square_init: "square n (replicate n (replicate n None))"
  by (auto simp: square_def)

text \<open>A pair of matrices read cell by cell, and a fold that writes each cell once.\<close>

definition cell :: "matrix \<times> matrix \<Rightarrow> nat \<times> nat \<Rightarrow> nat option \<times> nat option" where
  "cell dn p = (mat_get (fst dn) (fst p) (snd p), mat_get (snd dn) (fst p) (snd p))"

definition square2 :: "nat \<Rightarrow> matrix \<times> matrix \<Rightarrow> bool" where
  "square2 n dn \<longleftrightarrow> square n (fst dn) \<and> square n (snd dn)"

definition set_cell :: "nat \<times> nat \<Rightarrow> nat option \<times> nat option \<Rightarrow> matrix \<times> matrix \<Rightarrow> matrix \<times> matrix" where
  "set_cell p v dn =
     (mat_set (fst p) (snd p) (fst v) (fst dn), mat_set (fst p) (snd p) (snd v) (snd dn))"

lemma cell_set_cell:
  assumes "square2 n dn" and "fst p < n" and "snd p < n"
  shows "cell (set_cell p v dn) q = (if q = p then v else cell dn q)"
  using assms by (cases p; cases q) (auto simp: square2_def cell_def set_cell_def mat_get_set)

lemma square2_set_cell: "square2 n dn \<Longrightarrow> fst p < n \<Longrightarrow> square2 n (set_cell p v dn)"
  by (simp add: square2_def set_cell_def square_set)

lemma fold_nested_product:
  "fold (\<lambda>i. fold (\<lambda>j. f i j) ys) xs s = fold (\<lambda>(i, j). f i j) (List.product xs ys) s"
  by (induction xs arbitrary: s) (simp_all add: fold_map comp_def)

lemma fold_cells:
  assumes "square2 n dn"
    and "\<And>p. p \<in> set ps \<Longrightarrow> fst p < n \<and> snd p < n"
    and step: "\<And>p S dn'. p \<in> set ps \<Longrightarrow> square2 n dn' \<Longrightarrow>
      (\<And>q. fst q < n \<Longrightarrow> snd q < n \<Longrightarrow> cell dn' q = (if q \<in> S then new q else cell dn q)) \<Longrightarrow>
      f p dn' = set_cell p (new p) dn' \<or> f p dn' = dn' \<and> (p \<in> S \<or> new p = cell dn p)"
  shows "square2 n (fold f ps dn) \<and>
    (\<forall>q. fst q < n \<longrightarrow> snd q < n \<longrightarrow>
       cell (fold f ps dn) q = (if q \<in> set ps then new q else cell dn q))"
proof -
  have "square2 n dn' \<Longrightarrow> set ps' \<subseteq> set ps \<Longrightarrow>
      (\<And>q. fst q < n \<Longrightarrow> snd q < n \<Longrightarrow> cell dn' q = (if q \<in> S then new q else cell dn q)) \<Longrightarrow>
      square2 n (fold f ps' dn') \<and>
      (\<forall>q. fst q < n \<longrightarrow> snd q < n \<longrightarrow>
         cell (fold f ps' dn') q = (if q \<in> S \<union> set ps' then new q else cell dn q))"
    for ps' dn' S
  proof (induction ps' arbitrary: dn' S)
    case (Cons p ps')
    have p: "p \<in> set ps" "fst p < n" "snd p < n" using Cons.prems(2) assms(2) by auto
    have sq: "square2 n (f p dn')"
      using step[OF p(1) Cons.prems(1) Cons.prems(3)] square2_set_cell[OF Cons.prems(1) p(2)]
        Cons.prems(1) by metis
    have "cell (f p dn') q = (if q \<in> insert p S then new q else cell dn q)"
      if "fst q < n" "snd q < n" for q
      using step[OF p(1) Cons.prems(1) Cons.prems(3)] cell_set_cell[OF Cons.prems(1) p(2,3)]
        Cons.prems(3)[OF that] by (metis insert_iff)
    from Cons.IH[OF sq _ this] Cons.prems(2) show ?case by simp
  qed simp
  from this[of dn ps "{}"] assms(1) show ?thesis by simp
qed


section \<open>Correctness of the Floyd-Warshall pass\<close>

text \<open>
  What the loops leave in one cell. In the phase of the intermediate node \<open>k\<close> no cell of
  row \<open>k\<close> or column \<open>k\<close> changes, so the in-place update reads the values that the
  phase started with.
\<close>

definition relaxed :: "nat \<Rightarrow> matrix \<times> matrix \<Rightarrow> nat \<times> nat \<Rightarrow> nat option \<times> nat option" where
  "relaxed k dn p =
     (case (fst (cell dn (fst p, k)), fst (cell dn (k, snd p))) of
        (Some l, Some r) \<Rightarrow>
          if l + r < (case fst (cell dn p) of None \<Rightarrow> usize_max | Some c \<Rightarrow> c)
          then (Some (l + r), snd (cell dn (fst p, k))) else cell dn p
      | _ \<Rightarrow> cell dn p)"

lemma relax_cases:
  "relax k (fst p) (snd p) dn = set_cell p (relaxed k dn p) dn
   \<or> relax k (fst p) (snd p) dn = dn \<and> relaxed k dn p = cell dn p"
  by (cases dn; cases p)
    (auto simp: relax_def relaxed_def cell_def set_cell_def Let_def split: option.splits)

lemma relaxed_row_col:
  assumes "fst (cell dn (k, k)) = Some c"
  shows "relaxed k dn (i, k) = cell dn (i, k)" and "relaxed k dn (k, j) = cell dn (k, j)"
  using assms by (auto simp: relaxed_def split: option.splits)

lemma relaxed_cong:
  "cell dn' (fst p, k) = cell dn (fst p, k) \<Longrightarrow> cell dn' (k, snd p) = cell dn (k, snd p) \<Longrightarrow>
   cell dn' p = cell dn p \<Longrightarrow> relaxed k dn' p = relaxed k dn p"
  by (simp only: relaxed_def)

definition phase :: "nat \<Rightarrow> nat \<Rightarrow> matrix \<times> matrix \<Rightarrow> matrix \<times> matrix" where
  "phase n k dn = fold (\<lambda>i. fold (\<lambda>j. relax k i j) [0..<n]) [0..<n] dn"

lemma floyd_warshall_phases: "floyd_warshall n dn = fold (phase n) [0..<n] dn"
  by (simp only: floyd_warshall_def phase_def[abs_def])

lemma phase_product: "phase n k dn = fold (\<lambda>(i, j). relax k i j) (List.product [0..<n] [0..<n]) dn"
  unfolding phase_def by (rule fold_nested_product)

lemma phase_cells:
  assumes sq: "square2 n dn" and k: "k < n" and diag: "fst (cell dn (k, k)) = Some c"
  shows "square2 n (phase n k dn)"
    and "i < n \<Longrightarrow> j < n \<Longrightarrow> cell (phase n k dn) (i, j) = relaxed k dn (i, j)"
proof -
  let ?ps = "List.product [0..<n] [0..<n]"
  have step: "(\<lambda>(i, j). relax k i j) p dn' = set_cell p (relaxed k dn p) dn'
      \<or> (\<lambda>(i, j). relax k i j) p dn' = dn' \<and> (p \<in> S \<or> relaxed k dn p = cell dn p)"
    if p: "p \<in> set ?ps" and "square2 n dn'"
      and cells: "\<And>q. fst q < n \<Longrightarrow> snd q < n \<Longrightarrow>
        cell dn' q = (if q \<in> S then relaxed k dn q else cell dn q)" for p S dn'
  proof -
    obtain i j where ij: "p = (i, j)" "i < n" "j < n" using p by auto
    have rc: "cell dn' (i, k) = cell dn (i, k)" "cell dn' (k, j) = cell dn (k, j)"
      using cells[of "(i, k)"] cells[of "(k, j)"] relaxed_row_col[OF diag] ij k by auto
    show ?thesis
    proof (cases "p \<in> S")
      case True
      then have "fst (cell dn' p) = fst (relaxed k dn p)" using cells[of p] ij by simp
      with True show ?thesis
        using rc relax_cases[of k p dn'] ij cells[of p]
        by (auto simp: relaxed_def split: option.splits if_splits)
    next
      case False
      then have "relaxed k dn' p = relaxed k dn p" "cell dn' p = cell dn p"
        using cells[of p] relaxed_cong[of dn' p k dn] rc ij by auto
      then show ?thesis using relax_cases[of k p dn'] ij by auto
    qed
  qed
  have "square2 n (phase n k dn) \<and> (\<forall>q. fst q < n \<longrightarrow> snd q < n \<longrightarrow>
      cell (phase n k dn) q = (if q \<in> set ?ps then relaxed k dn q else cell dn q))"
    unfolding phase_product by (rule fold_cells[OF sq _ step]) auto
  then show "square2 n (phase n k dn)"
    and "i < n \<Longrightarrow> j < n \<Longrightarrow> cell (phase n k dn) (i, j) = relaxed k dn (i, j)"
    by auto
qed

text \<open>The invariant after the phases of the intermediate nodes below \<open>k\<close>.\<close>

definition fw_diag :: "nat \<Rightarrow> matrix \<times> matrix \<Rightarrow> bool" where
  "fw_diag n dn \<longleftrightarrow> (\<forall>i < n. \<exists>c \<le> 1. fst (cell dn (i, i)) = Some c)"

definition fw_sound :: "nat \<Rightarrow> (nat \<times> nat) set \<Rightarrow> nat \<Rightarrow> matrix \<times> matrix \<Rightarrow> bool" where
  "fw_sound n E k dn \<longleftrightarrow> (\<forall>i < n. \<forall>j < n. i \<noteq> j \<longrightarrow>
     cell dn (i, j) = (None, None) \<or>
     (\<exists>ms. via E i ms j \<and> set ms \<subseteq> {..<k} \<and>
           cell dn (i, j) = (Some (length ms + 1), Some (hd (ms @ [j])))))"

definition fw_complete :: "nat \<Rightarrow> (nat \<times> nat) set \<Rightarrow> nat \<Rightarrow> matrix \<times> matrix \<Rightarrow> bool" where
  "fw_complete n E k dn \<longleftrightarrow> (\<forall>i < n. \<forall>j < n. i \<noteq> j \<longrightarrow>
     (\<forall>ms. via E i ms j \<longrightarrow> set ms \<subseteq> {..<k} \<longrightarrow>
       (\<exists>c. fst (cell dn (i, j)) = Some c \<and> c \<le> length ms + 1)))"

definition fw_inv :: "nat \<Rightarrow> (nat \<times> nat) set \<Rightarrow> nat \<Rightarrow> matrix \<times> matrix \<Rightarrow> bool" where
  "fw_inv n E k dn \<longleftrightarrow> square2 n dn \<and> fw_diag n dn \<and> fw_sound n E k dn \<and> fw_complete n E k dn"

lemma fw_bound:
  assumes "fw_sound n E k dn" and "fw_complete n E k dn" and "i < n" and "j < n" and "i \<noteq> j"
    and "fst (cell dn (i, j)) = Some c"
  shows "c \<le> k + 1"
proof -
  obtain ms where "via E i ms j" "set ms \<subseteq> {..<k}"
    using assms unfolding fw_sound_def by fastforce
  then obtain ms' where ms': "via E i ms' j" "distinct ms'" "set ms' \<subseteq> {..<k}"
    using via_distinct by (metis order_trans)
  then have "c \<le> length ms' + 1"
    using assms unfolding fw_complete_def by fastforce
  moreover have "length ms' \<le> k"
    using ms'(2,3) distinct_card[of ms'] card_mono[of "{..<k}" "set ms'"] by simp
  ultimately show ?thesis by simp
qed


lemma fw_phase_diag:
  assumes inv: "fw_inv n E k dn" and k: "k < n"
  shows "fw_diag n (phase n k dn)"
  unfolding fw_diag_def
proof (intro allI impI)
  fix i assume i: "i < n"
  obtain c ck where c: "c \<le> 1" "fst (cell dn (i, i)) = Some c" and ck: "fst (cell dn (k, k)) = Some ck"
    using inv i k unfolding fw_inv_def fw_diag_def by blast
  have pos: "0 < l" if "i' < n" "j' < n" "i' \<noteq> j'" "fst (cell dn (i', j')) = Some l" for i' j' l
    using inv that unfolding fw_inv_def fw_sound_def by fastforce
  have "relaxed k dn (i, i) = cell dn (i, i)"
  proof (cases "i = k")
    case True
    then show ?thesis using relaxed_row_col(1)[OF ck] by simp
  next
    case False
    then show ?thesis
      using pos[of i k] pos[of k i] i k c
      by (auto simp: relaxed_def split: option.splits)
  qed
  then show "\<exists>c\<le>1. fst (cell (phase n k dn) (i, i)) = Some c"
    using phase_cells(2)[OF _ k ck i i] inv c unfolding fw_inv_def by auto
qed

lemma fw_phase_sound:
  assumes inv: "fw_inv n E k dn" and k: "k < n"
  shows "fw_sound n E (Suc k) (phase n k dn)"
  unfolding fw_sound_def
proof (intro allI impI)
  fix i j assume ij: "i < n" "j < n" "i \<noteq> j"
  obtain ck where ck: "fst (cell dn (k, k)) = Some ck"
    using inv k unfolding fw_inv_def fw_diag_def by blast
  have sq: "square2 n dn" and sound: "fw_sound n E k dn" using inv unfolding fw_inv_def by auto
  have eq: "cell (phase n k dn) (i, j) = relaxed k dn (i, j)" by (rule phase_cells(2)[OF sq k ck ij(1,2)])
  have sub: "{..<k} \<subseteq> {..<Suc k}" by auto
  have old: "cell dn (i, j) = (None, None) \<or> (\<exists>ms. via E i ms j \<and> set ms \<subseteq> {..<Suc k} \<and>
      cell dn (i, j) = (Some (length ms + 1), Some (hd (ms @ [j]))))"
  proof -
    have "cell dn (i, j) = (None, None) \<or> (\<exists>ms. via E i ms j \<and> set ms \<subseteq> {..<k} \<and>
        cell dn (i, j) = (Some (length ms + 1), Some (hd (ms @ [j]))))"
      using sound ij unfolding fw_sound_def by blast
    then show ?thesis using sub by (meson order_trans)
  qed
  show "cell (phase n k dn) (i, j) = (None, None) \<or> (\<exists>ms. via E i ms j \<and> set ms \<subseteq> {..<Suc k} \<and>
      cell (phase n k dn) (i, j) = (Some (length ms + 1), Some (hd (ms @ [j]))))"
  proof (cases "relaxed k dn (i, j) = cell dn (i, j)")
    case True
    with old eq show ?thesis by simp
  next
    case False
    then have ik: "i \<noteq> k" and jk: "k \<noteq> j" using relaxed_row_col[OF ck] by auto
    from False obtain l r where lr: "fst (cell dn (i, k)) = Some l" "fst (cell dn (k, j)) = Some r"
      and new: "relaxed k dn (i, j) = (Some (l + r), snd (cell dn (i, k)))"
      by (auto simp: relaxed_def split: option.splits if_splits)
    obtain xs where xs: "via E i xs k" "set xs \<subseteq> {..<k}"
        "cell dn (i, k) = (Some (length xs + 1), Some (hd (xs @ [k])))"
      using sound ij(1) k ik lr(1) unfolding fw_sound_def by fastforce
    obtain ys where ys: "via E k ys j" "set ys \<subseteq> {..<k}" "cell dn (k, j) = (Some (length ys + 1), Some (hd (ys @ [j])))"
      using sound k ij(2) jk lr(2) unfolding fw_sound_def by fastforce
    have "via E i (xs @ k # ys) j" using xs ys by (simp add: via_append)
    moreover have "set (xs @ k # ys) \<subseteq> {..<Suc k}" using xs(2) ys(2) by auto
    moreover have "relaxed k dn (i, j) =
        (Some (length (xs @ k # ys) + 1), Some (hd ((xs @ k # ys) @ [j])))"
      using new lr xs(3) ys(3) by (cases xs) auto
    ultimately show ?thesis using eq by metis
  qed
qed

text \<open>A walk through \<open>k\<close> splits at the first and the last visit of \<open>k\<close>.\<close>

lemma via_split:
  assumes "via E i ms j" and "k \<in> set ms" and "set ms \<subseteq> {..<Suc k}"
  obtains xs ys where "via E i xs k" and "via E k ys j" and "set xs \<subseteq> {..<k}" and "set ys \<subseteq> {..<k}"
    and "length xs + length ys + 1 \<le> length ms"
proof -
  obtain xs zs where xs: "ms = xs @ k # zs" "k \<notin> set xs" using split_list_first[OF assms(2)] by blast
  obtain us ys where ys: "ms = us @ k # ys" "k \<notin> set ys" using split_list_last[OF assms(2)] by blast
  have "length ys \<le> length zs"
  proof (rule ccontr)
    assume "\<not> length ys \<le> length zs"
    then have "length us < length xs" using arg_cong[OF xs(1)[symmetric, unfolded ys(1)], of length] by simp
    then have "ms ! length us \<in> set xs" using xs(1) by (metis nth_append nth_mem)
    with xs(2) ys(1) show False by simp
  qed
  then have "length xs + length ys + 1 \<le> length ms" using xs(1) by simp
  moreover have "set xs \<subseteq> {..<k}" using assms(3) xs by (force simp: less_Suc_eq)
  moreover have "set ys \<subseteq> {..<k}" using assms(3) ys by (force simp: less_Suc_eq)
  moreover have "via E i xs k" using assms(1) xs(1) by (simp add: via_append)
  moreover have "via E k ys j" using assms(1) ys(1) by (simp add: via_append)
  ultimately show ?thesis by (intro that)
qed

lemma fw_phase_complete:
  assumes inv: "fw_inv n E k dn" and k: "k < n" and small: "2 * n < usize_max"
  shows "fw_complete n E (Suc k) (phase n k dn)"
  unfolding fw_complete_def
proof (intro allI impI)
  fix i j ms assume ij: "i < n" "j < n" "i \<noteq> j" and ms: "via E i ms j" "set ms \<subseteq> {..<Suc k}"
  obtain ck where ck: "fst (cell dn (k, k)) = Some ck"
    using inv k unfolding fw_inv_def fw_diag_def by blast
  have sq: "square2 n dn" and sound: "fw_sound n E k dn" and cmp: "fw_complete n E k dn"
    using inv unfolding fw_inv_def by auto
  have eq: "cell (phase n k dn) (i, j) = relaxed k dn (i, j)" by (rule phase_cells(2)[OF sq k ck ij(1,2)])
  have mono: "\<exists>c'. fst (relaxed k dn (i, j)) = Some c' \<and> c' \<le> c" if "fst (cell dn (i, j)) = Some c" for c
    using that by (auto simp: relaxed_def split: option.splits)
  have short: "\<exists>c'. fst (relaxed k dn (i, j)) = Some c' \<and> c' \<le> length ms + 1"
    if "via E i ms' j" "set ms' \<subseteq> {..<k}" "length ms' \<le> length ms" for ms'
    using cmp ij that mono unfolding fw_complete_def by (meson add_le_mono1 order_trans)
  have "\<exists>c'. fst (relaxed k dn (i, j)) = Some c' \<and> c' \<le> length ms + 1"
  proof (cases "k \<in> set ms")
    case False
    then have "set ms \<subseteq> {..<k}" using ms(2) by (force simp: less_Suc_eq)
    then show ?thesis using short ms(1) by blast
  next
    case True
    then obtain xs ys where w: "via E i xs k" "via E k ys j" "set xs \<subseteq> {..<k}" "set ys \<subseteq> {..<k}"
        "length xs + length ys + 1 \<le> length ms"
      using via_split[OF ms(1) _ ms(2)] by metis
    show ?thesis
    proof (cases "i = k \<or> j = k")
      case True
      then show ?thesis using short[of xs] short[of ys] w by auto
    next
      case False
      obtain l where l: "fst (cell dn (i, k)) = Some l" "l \<le> length xs + 1"
        using cmp ij(1) k False w(1,3) unfolding fw_complete_def by blast
      obtain r where r: "fst (cell dn (k, j)) = Some r" "r \<le> length ys + 1"
        using cmp ij(2) k False w(2,4) unfolding fw_complete_def by blast
      have "l \<le> k + 1" "r \<le> k + 1"
        using fw_bound[OF sound cmp] ij k False l(1) r(1) by blast+
      then have "l + r < usize_max" using k small by simp
      then show ?thesis using l r w(5)
        by (auto simp: relaxed_def split: option.splits)
    qed
  qed
  with eq show "\<exists>c. fst (cell (phase n k dn) (i, j)) = Some c \<and> c \<le> length ms + 1" by simp
qed

lemma fw_phase:
  "fw_inv n E k dn \<Longrightarrow> k < n \<Longrightarrow> 2 * n < usize_max \<Longrightarrow> fw_inv n E (Suc k) (phase n k dn)"
proof -
  assume inv: "fw_inv n E k dn" and k: "k < n" and small: "2 * n < usize_max"
  from inv k obtain c where "square2 n dn" "fst (cell dn (k, k)) = Some c"
    unfolding fw_inv_def fw_diag_def by blast
  then have "square2 n (phase n k dn)" by (rule phase_cells(1)[OF _ k])
  then show ?thesis
    unfolding fw_inv_def[of n E "Suc k"]
    using fw_phase_diag[OF inv k] fw_phase_sound[OF inv k] fw_phase_complete[OF inv k small] by blast
qed

lemma floyd_warshall_inv:
  assumes "fw_inv n E 0 dn" and "2 * n < usize_max"
  shows "fw_inv n E n (floyd_warshall n dn)"
proof -
  have "k \<le> n \<Longrightarrow> fw_inv n E k (fold (phase n) [0..<k] dn)" for k
    by (induction k) (use assms fw_phase in auto)
  then show ?thesis by (simp add: floyd_warshall_phases)
qed


text \<open>The matrices before the first phase: zeros on the diagonal, one for every transition.\<close>

lemma init_diagonal_cells:
  "square2 n (init_diagonal n (replicate n (replicate n None), replicate n (replicate n None)))"
  "i < n \<Longrightarrow> j < n \<Longrightarrow>
   cell (init_diagonal n (replicate n (replicate n None), replicate n (replicate n None))) (i, j) =
     (if i = j then (Some 0, Some i) else (None, None))"
proof -
  let ?z = "(replicate n (replicate n None), replicate n (replicate n None)) :: matrix \<times> matrix"
  let ?f = "\<lambda>p. set_cell p (Some 0, Some (fst p))"
  let ?ps = "map (\<lambda>i. (i, i)) [0..<n]"
  have sq: "square2 n ?z" by (simp add: square2_def square_init)
  have f: "(\<lambda>i (d, nx). (mat_set i i (Some 0) d, mat_set i i (Some i) nx)) = ?f \<circ> (\<lambda>i. (i, i))"
    by (auto simp: fun_eq_iff set_cell_def)
  have diag: "init_diagonal n ?z = fold ?f ?ps ?z"
    by (simp only: init_diagonal_def f fold_map)
  have "square2 n (fold ?f ?ps ?z) \<and> (\<forall>q. fst q < n \<longrightarrow> snd q < n \<longrightarrow> cell (fold ?f ?ps ?z) q =
      (if q \<in> set ?ps then (Some 0, Some (fst q)) else cell ?z q))"
    by (rule fold_cells[OF sq]) auto
  then show "square2 n (init_diagonal n ?z)" and "i < n \<Longrightarrow> j < n \<Longrightarrow>
      cell (init_diagonal n ?z) (i, j) = (if i = j then (Some 0, Some i) else (None, None))"
    unfolding diag by (auto simp: cell_def mat_get_def)
qed

lemma init_edges_cells:
  assumes "square2 n dn" and "set es \<subseteq> {..<n} \<times> {..<n}"
  shows "square2 n (init_edges es dn)"
    and "i < n \<Longrightarrow> j < n \<Longrightarrow> cell (init_edges es dn) (i, j) =
      (if (i, j) \<in> set es then (Some 1, Some j) else cell dn (i, j))"
proof -
  have f: "(\<lambda>(i, j) (d, nx). (mat_set i j (Some 1) d, mat_set i j (Some j) nx)) =
      (\<lambda>p. set_cell p (Some 1, Some (snd p)))"
    by (auto simp: fun_eq_iff set_cell_def)
  have "init_edges es dn = fold (\<lambda>p. set_cell p (Some 1, Some (snd p))) es dn"
    by (simp only: init_edges_def f)
  moreover have "square2 n (fold (\<lambda>p. set_cell p (Some 1, Some (snd p))) es dn) \<and>
      (\<forall>q. fst q < n \<longrightarrow> snd q < n \<longrightarrow> cell (fold (\<lambda>p. set_cell p (Some 1, Some (snd p))) es dn) q =
      (if q \<in> set es then (Some 1, Some (snd q)) else cell dn q))"
    by (rule fold_cells[OF assms(1)]) (use assms(2) in auto)
  ultimately show "square2 n (init_edges es dn)" and "i < n \<Longrightarrow> j < n \<Longrightarrow>
      cell (init_edges es dn) (i, j) = (if (i, j) \<in> set es then (Some 1, Some j) else cell dn (i, j))"
    by auto
qed

lemma fw_init:
  assumes "set es \<subseteq> {..<n} \<times> {..<n}"
  shows "fw_inv n (set es) 0
    (init_edges es (init_diagonal n (replicate n (replicate n None), replicate n (replicate n None))))"
    (is "fw_inv n _ 0 ?dn")
proof -
  have cells: "cell ?dn (i, j) = (if (i, j) \<in> set es then (Some 1, Some j)
      else if i = j then (Some 0, Some i) else (None, None))" if "i < n" "j < n" for i j
    using init_edges_cells(2)[OF init_diagonal_cells(1) assms that] init_diagonal_cells(2)[OF that] by auto
  have "fw_diag n ?dn" unfolding fw_diag_def using cells by auto
  moreover have "fw_sound n (set es) 0 ?dn"
    unfolding fw_sound_def using cells by (auto intro: exI[of _ "[]"])
  moreover have "fw_complete n (set es) 0 ?dn" unfolding fw_complete_def using cells by auto
  ultimately show ?thesis
    using init_edges_cells(1)[OF init_diagonal_cells(1) assms] by (simp add: fw_inv_def)
qed

lemma next_matrix_correct:
  assumes es: "set es \<subseteq> {..<n} \<times> {..<n}" and small: "2 * n < usize_max"
    and ij: "i < n" "j < n" "i \<noteq> j"
  shows "mat_get (snd (next_matrix n es)) i j = None \<Longrightarrow> \<not> (\<exists>ms. via (set es) i ms j)"
    and "mat_get (snd (next_matrix n es)) i j = Some h \<Longrightarrow>
      \<exists>ms. via (set es) i ms j \<and> h = hd (ms @ [j]) \<and> (\<forall>ms'. via (set es) i ms' j \<longrightarrow> length ms \<le> length ms')"
proof -
  let ?dn = "next_matrix n es"
  have inv: "fw_sound n (set es) n ?dn" "fw_complete n (set es) n ?dn"
    using floyd_warshall_inv[OF fw_init[OF es] small] by (auto simp: next_matrix_def fw_inv_def)
  have inside: "set ms \<subseteq> {..<n}" if "via (set es) i ms j" for ms
    using via_subset[OF that] es by fastforce
  have cmp: "\<exists>c. fst (cell ?dn (i, j)) = Some c \<and> c \<le> length ms + 1" if "via (set es) i ms j" for ms
    using inv(2) ij that inside[OF that] unfolding fw_complete_def by blast
  have snd: "cell ?dn (i, j) = (None, None) \<or> (\<exists>ms. via (set es) i ms j \<and>
      cell ?dn (i, j) = (Some (length ms + 1), Some (hd (ms @ [j]))))"
    using inv(1) ij unfolding fw_sound_def by blast
  show "\<not> (\<exists>ms. via (set es) i ms j)" if "mat_get (snd ?dn) i j = None"
    using that snd cmp by (auto simp: cell_def)
  show "\<exists>ms. via (set es) i ms j \<and> h = hd (ms @ [j]) \<and> (\<forall>ms'. via (set es) i ms' j \<longrightarrow> length ms \<le> length ms')"
    if "mat_get (snd ?dn) i j = Some h"
    using that snd cmp by (fastforce simp: cell_def)
qed


section \<open>From the matrices to the table\<close>

definition transition_rel :: "Transition list \<Rightarrow> (State \<times> State) set" where
  "transition_rel ts = (\<lambda>t. (transition_source t, transition_target t)) ` set ts"

lemma state_index_Some:
  assumes "distinct states"
  shows "state_index states s = Some i \<longleftrightarrow> i < length states \<and> states ! i = s"
proof -
  have "distinct (map fst (zip states [0..<length states]))" using assms by simp
  then show ?thesis
    by (simp add: state_index_def map_of_rev map_of_eq_Some_iff in_set_zip) (metis nth_upt add_0)
qed

lemma indexed_transitions_Some:
  assumes "distinct states" and "transition_rel ts \<subseteq> set states \<times> set states"
  shows "\<exists>es. indexed_transitions states ts = Some es \<and> set es \<subseteq> {..<length states} \<times> {..<length states} \<and>
    map_prod ((!) states) ((!) states) ` set es = transition_rel ts"
  using assms(2)
proof (induction ts)
  case (Cons t ts)
  then obtain es where es: "indexed_transitions states ts = Some es"
      "set es \<subseteq> {..<length states} \<times> {..<length states}"
      "map_prod ((!) states) ((!) states) ` set es = transition_rel ts"
    by (auto simp: transition_rel_def)
  have "transition_source t \<in> set states" "transition_target t \<in> set states"
    using Cons.prems by (auto simp: transition_rel_def)
  then obtain i j where "i < length states" "states ! i = transition_source t"
      "j < length states" "states ! j = transition_target t"
    by (metis in_set_conv_nth)
  with es show ?case
    by (auto simp: transition_rel_def state_index_Some[OF assms(1), THEN iffD2])
qed (simp add: transition_rel_def)

lemma table_row_get:
  assumes "distinct states" and "length row = length states" and "j < length states"
  shows "bt_get (table_row states i row) (states ! j) =
    (if i = j then None else map_option ((!) states) (row ! j))"
proof -
  let ?f = "\<lambda>(j, nx) targets. if i \<noteq> j then (case nx of None \<Rightarrow> targets
      | Some h \<Rightarrow> bt_insert (states ! j) (states ! h) targets) else targets"
  have gen: "set (map fst ps) \<subseteq> {..<length states} \<Longrightarrow> distinct (map fst ps) \<Longrightarrow>
      bt_get (fold ?f ps m) (states ! j) =
        (case map_of ps j of Some (Some h) \<Rightarrow>
           if i = j then bt_get m (states ! j) else Some (states ! h)
         | _ \<Rightarrow> bt_get m (states ! j))" for ps m
  proof (induction ps arbitrary: m)
    case (Cons p ps)
    have ne: "states ! fst p \<noteq> states ! j" if "fst p \<noteq> j"
      using that Cons.prems(1) assms by (simp add: nth_eq_iff_index_eq)
    have None: "map_of ps (fst p) = None" using Cons.prems(2) by (simp add: map_of_eq_None_iff)
    show ?case
      using Cons ne None by (cases p) (auto split: option.splits)
  qed (simp split: option.splits)
  have "map_of (enumerate 0 row) j = Some (row ! j)"
    using assms by (simp add: map_of_eq_Some_iff in_set_enumerate_eq)
  moreover have "set (map fst (enumerate 0 row)) \<subseteq> {..<length states}"
    using assms(2) by (auto simp: in_set_enumerate_eq)
  ultimately show ?thesis
    using gen[of "enumerate 0 row" bt_empty]
    by (auto simp: table_row_def simp del: map_of_eq_Some_iff split: option.splits)
qed

lemma fold_insert_enumerate:
  assumes "distinct xs" and "length rows = length xs" and "i < length xs"
  shows "bt_get (fold (\<lambda>(i, row) t. bt_insert (xs ! i) (f i row) t) (enumerate 0 rows) bt_empty) (xs ! i)
    = Some (f i (rows ! i))"
proof -
  let ?ps = "map (\<lambda>(i, row). (xs ! i, f i row)) (enumerate 0 rows)"
  have eq: "fold (\<lambda>(i, row) t. bt_insert (xs ! i) (f i row) t) (enumerate 0 rows) bt_empty = bt_collect ?ps"
    by (simp add: bt_collect_def fold_map comp_def case_prod_unfold)
  have keys: "map fst ?ps = xs"
    using assms(2) by (auto intro: nth_equalityI simp: nth_enumerate_eq case_prod_beta)
  have "(xs ! i, f i (rows ! i)) \<in> set ?ps"
    using assms by (force simp: in_set_enumerate_eq)
  moreover have d: "distinct (map fst ?ps)" by (simp only: keys assms(1))
  ultimately have "map_of ?ps (xs ! i) = Some (f i (rows ! i))"
    using map_of_eq_Some_iff[OF d] by blast
  then show ?thesis unfolding eq by (simp only: bt_get_collect_distinct[OF d])
qed

lemma next_matrix_square:
  assumes "set es \<subseteq> {..<n} \<times> {..<n}" and "2 * n < usize_max"
  shows "square n (snd (next_matrix n es))"
  using floyd_warshall_inv[OF fw_init[OF assms(1)] assms(2)]
  by (simp add: next_matrix_def fw_inv_def square2_def)

lemma build_transition_table_correct:
  assumes "distinct states" and "transition_rel ts \<subseteq> set states \<times> set states"
    and small: "2 * length states < usize_max"
  shows "\<exists>table. build_transition_table states ts = Some table \<and>
    (\<forall>s \<in> set states. \<forall>t \<in> set states. s \<noteq> t \<longrightarrow>
      (case bt_get table s of None \<Rightarrow> False | Some targets \<Rightarrow>
        (case bt_get targets t of
           None \<Rightarrow> \<not> (\<exists>ms. via (transition_rel ts) s ms t)
         | Some h \<Rightarrow> \<exists>ms. via (transition_rel ts) s ms t \<and> h = hd (ms @ [t]) \<and>
             (\<forall>ms'. via (transition_rel ts) s ms' t \<longrightarrow> length ms \<le> length ms'))))"
proof -
  let ?n = "length states" and ?f = "(!) states"
  obtain es where es: "indexed_transitions states ts = Some es" "set es \<subseteq> {..<?n} \<times> {..<?n}"
      "map_prod ?f ?f ` set es = transition_rel ts"
    using indexed_transitions_Some[OF assms(1,2)] by blast
  let ?next = "snd (next_matrix ?n es)"
  let ?table = "fold (\<lambda>(i, row) t. bt_insert (states ! i) (table_row states i row) t) (enumerate 0 ?next) bt_empty"
  have len: "length ?next = ?n" "\<And>i. i < ?n \<Longrightarrow> length (?next ! i) = ?n"
    using next_matrix_square[OF es(2) small] by (auto simp: square_def)
  have inj: "inj_on ?f {..<?n}" using assms(1) by (simp add: inj_on_nth)
  have img: "via (transition_rel ts) (?f i) ss (?f j) \<longleftrightarrow> (\<exists>ms. ss = map ?f ms \<and> via (set es) i ms j)"
    if "i < ?n" "j < ?n" for i j ss
    using via_image_iff[OF inj es(2), of i j ss] that es(3) by simp
  have "case bt_get ?table s of None \<Rightarrow> False | Some targets \<Rightarrow>
      (case bt_get targets t of
         None \<Rightarrow> \<not> (\<exists>ms. via (transition_rel ts) s ms t)
       | Some h \<Rightarrow> \<exists>ms. via (transition_rel ts) s ms t \<and> h = hd (ms @ [t]) \<and>
           (\<forall>ms'. via (transition_rel ts) s ms' t \<longrightarrow> length ms \<le> length ms'))"
    if st: "s \<in> set states" "t \<in> set states" "s \<noteq> t" for s t
  proof -
    obtain i where i: "i < ?n" "s = ?f i" using st(1) by (auto simp: in_set_conv_nth)
    obtain j where j: "j < ?n" "t = ?f j" using st(2) by (auto simp: in_set_conv_nth)
    have ij: "i < ?n" "s = ?f i" "j < ?n" "t = ?f j" "i \<noteq> j" using i j st(3) by auto
    have row: "bt_get ?table s = Some (table_row states i (?next ! i))"
      using fold_insert_enumerate[OF assms(1) len(1) ij(1)] ij(2) by simp
    have hop: "bt_get (table_row states i (?next ! i)) t = map_option ?f (mat_get ?next i j)"
      using table_row_get[OF assms(1) len(2)[OF ij(1)] ij(3), of i] ij(4,5) by (simp add: mat_get_def)
    show ?thesis
    proof (cases "mat_get ?next i j")
      case None
      then show ?thesis
        using next_matrix_correct(1)[OF es(2) small ij(1,3,5)] row hop img ij by auto
    next
      case (Some h)
      then obtain ms where ms: "via (set es) i ms j" "h = hd (ms @ [j])"
          "\<forall>ms'. via (set es) i ms' j \<longrightarrow> length ms \<le> length ms'"
        using next_matrix_correct(2)[OF es(2) small ij(1,3,5)] by blast
      have "via (transition_rel ts) s (map ?f ms) t" using img ij ms(1) by auto
      moreover have "?f h = hd (map ?f ms @ [t])" using ms(2) ij(4) by (cases ms) auto
      moreover have "\<forall>ms'. via (transition_rel ts) s ms' t \<longrightarrow> length (map ?f ms) \<le> length ms'"
        using img ij ms(3) by auto
      ultimately show ?thesis using row hop Some by auto
    qed
  qed
  then show ?thesis using es(1) by (simp add: build_transition_table_def)
qed

end
