(* ===== verification/State_Model_Laws.thy ===== *)
theory State_Model_Laws
  imports Shortest_Paths
begin

text \<open>
  What the state-model builder accepts, what a built definition guarantees, and the
  contract \<open>next_hop\<close> that the planning stages rely on, with its interpretation for
  the built-in LeaderStandby model.
\<close>

section \<open>What the builder guarantees\<close>

lemma check_states_Inr:
  "check_states scs = Inr r \<longleftrightarrow>
     distinct (map fst scs) \<and> r = (set (map fst scs), map fst scs, bt_collect scs)"
proof -
  let ?f = "\<lambda>(s, c) (state_set, by_priority, cards).
      if s \<in> state_set then Inl (DuplicateState s)
      else Inr (insert s state_set, by_priority @ [s], bt_insert s c cards)"
  have "try_fold ?f scs (S, xs, m) = Inr r \<longleftrightarrow>
      distinct (map fst scs) \<and> set (map fst scs) \<inter> S = {} \<and>
      r = (S \<union> set (map fst scs), xs @ map fst scs, fold (\<lambda>(k, v). bt_insert k v) scs m)" for S xs m
  proof (induction scs arbitrary: S xs m)
    case (Cons x scs)
    then show ?case
      by (cases x; cases "fst x \<in> S") (auto simp: insert_commute)
  qed auto
  then show ?thesis by (simp add: check_states_def bt_collect_def)
qed

lemma check_transitions_Inr:
  "(\<exists>r. check_transitions S ts = Inr r) \<longleftrightarrow> transition_rel ts \<subseteq> S \<times> S \<and> distinct ts"
proof -
  let ?f = "\<lambda>t seen. if transition_source t \<notin> S then Inl (UnknownTransitionState t (transition_source t))
      else if transition_target t \<notin> S then Inl (UnknownTransitionState t (transition_target t))
      else if t \<in> seen then Inl (DuplicateTransition t) else Inr (insert t seen)"
  have "(\<exists>r. try_fold ?f ts seen = Inr r) \<longleftrightarrow>
      transition_rel ts \<subseteq> S \<times> S \<and> distinct ts \<and> set ts \<inter> seen = {}" for seen
    by (induction ts arbitrary: seen) (auto simp: transition_rel_def)
  then show ?thesis by (simp add: check_transitions_def)
qed

lemma find_dropped:
  "find (\<lambda>s. State_as_str s = ''DROPPED'') xs =
     (if State ''DROPPED'' \<in> set xs then Some (State ''DROPPED'') else None)"
proof (induction xs)
  case (Cons x xs)
  then show ?case by (cases x) auto
qed simp

lemma check_dropped_Inr:
  "check_dropped xs table = Inr u \<longleftrightarrow> State ''DROPPED'' \<in> set xs \<and>
     (\<forall>s \<in> set xs. s \<noteq> State ''DROPPED'' \<longrightarrow>
       (case bt_get table s of None \<Rightarrow> False | Some targets \<Rightarrow> bt_contains targets (State ''DROPPED'')))"
proof -
  have "try_fold (\<lambda>s u. if P s then Inl (NoPathToDropped s) else Inr ()) ys () = Inr u \<longleftrightarrow> (\<forall>s \<in> set ys. \<not> P s)"
    for P ys
    by (induction ys) simp_all
  then show ?thesis by (simp add: check_dropped_def find_dropped imp_conv_disj)
qed

text \<open>The builders that the code accepts, stated without its table.\<close>

definition valid_builder :: "StateModelBuilder \<Rightarrow> bool" where
  "valid_builder b \<longleftrightarrow>
     builder_name b \<noteq> [] \<and> builder_states b \<noteq> [] \<and>
     distinct (map fst (builder_states b)) \<and>
     (\<exists>s \<in> fst ` set (builder_states b). builder_initial_state b = Some s) \<and>
     transition_rel (builder_transitions b) \<subseteq> fst ` set (builder_states b) \<times> fst ` set (builder_states b) \<and>
     distinct (builder_transitions b) \<and>
     State ''DROPPED'' \<in> fst ` set (builder_states b) \<and>
     (\<forall>s \<in> fst ` set (builder_states b). s \<noteq> State ''DROPPED'' \<longrightarrow>
        (s, State ''DROPPED'') \<in> (transition_rel (builder_transitions b))\<^sup>+)"

definition small_builder :: "StateModelBuilder \<Rightarrow> bool" where
  "small_builder b \<longleftrightarrow> 2 * length (builder_states b) < usize_max"

lemma build_eq:
  "build b = Some (Inr m) \<longleftrightarrow>
     builder_name b \<noteq> [] \<and> builder_states b \<noteq> [] \<and> distinct (map fst (builder_states b)) \<and>
     transition_rel (builder_transitions b) \<subseteq> fst ` set (builder_states b) \<times> fst ` set (builder_states b) \<and>
     distinct (builder_transitions b) \<and>
     (\<exists>s table. builder_initial_state b = Some s \<and> s \<in> fst ` set (builder_states b) \<and>
        build_transition_table (map fst (builder_states b)) (builder_transitions b) = Some table \<and>
        check_dropped (map fst (builder_states b)) table = Inr () \<and>
        m = \<lparr>model_name = builder_name b, model_initial_state = s,
             states_by_priority = map fst (builder_states b),
             transitions_by_priority = builder_transitions b,
             model_cardinalities = bt_collect (builder_states b), next_states = table\<rparr>)"
proof -
  let ?S = "fst ` set (builder_states b)"
  show ?thesis
  proof (cases "check_states (builder_states b)")
    case (Inl e)
    then have "\<not> distinct (map fst (builder_states b))"
      using check_states_Inr by (metis sum.distinct(1))
    with Inl show ?thesis by (auto simp: build_def)
  next
    case (Inr r)
    then have r: "r = (?S, map fst (builder_states b), bt_collect (builder_states b))"
      and d: "distinct (map fst (builder_states b))" by (auto simp: check_states_Inr)
    show ?thesis
    proof (cases "check_transitions ?S (builder_transitions b)")
      case (Inl e)
      then have "\<not> (transition_rel (builder_transitions b) \<subseteq> ?S \<times> ?S \<and> distinct (builder_transitions b))"
        unfolding check_transitions_Inr[symmetric] by simp
      with Inl Inr r show ?thesis by (auto simp: build_def split: option.splits)
    next
      case (Inr v)
      then have "transition_rel (builder_transitions b) \<subseteq> ?S \<times> ?S \<and> distinct (builder_transitions b)"
        using check_transitions_Inr[of ?S] by blast
      with Inr \<open>check_states (builder_states b) = Inr r\<close> r d show ?thesis
        by (auto simp: build_def split: option.splits sum.splits)
    qed
  qed
qed

lemma build_fields:
  assumes "build b = Some (Inr m)"
  shows "model_name m = builder_name b" "builder_initial_state b = Some (model_initial_state m)"
    "states_by_priority m = map fst (builder_states b)" "transitions_by_priority m = builder_transitions b"
    "model_cardinalities m = bt_collect (builder_states b)"
  using assms unfolding build_eq by auto

lemma build_distinct_states: "build b = Some (Inr m) \<Longrightarrow> distinct (states_by_priority m)"
  unfolding build_eq by auto

lemma build_table_lookup:
  assumes "build b = Some (Inr m)" and "small_builder b"
    and "s \<in> fst ` set (builder_states b)" and "t \<in> fst ` set (builder_states b)" and "s \<noteq> t"
  shows "next_state_toward m s t = None \<Longrightarrow> \<not> (\<exists>ms. via (transition_rel (builder_transitions b)) s ms t)"
    and "next_state_toward m s t = Some h \<Longrightarrow>
      \<exists>ms. via (transition_rel (builder_transitions b)) s ms t \<and> h = hd (ms @ [t]) \<and>
        (\<forall>ms'. via (transition_rel (builder_transitions b)) s ms' t \<longrightarrow> length ms \<le> length ms')"
proof -
  have "distinct (map fst (builder_states b))"
    "transition_rel (builder_transitions b) \<subseteq> set (map fst (builder_states b)) \<times> set (map fst (builder_states b))"
    "build_transition_table (map fst (builder_states b)) (builder_transitions b) = Some (next_states m)"
    "2 * length (map fst (builder_states b)) < usize_max"
    using assms(1,2) unfolding build_eq small_builder_def by auto
  then have "case bt_get (next_states m) s of None \<Rightarrow> False | Some targets \<Rightarrow>
        (case bt_get targets t of
           None \<Rightarrow> \<not> (\<exists>ms. via (transition_rel (builder_transitions b)) s ms t)
         | Some h \<Rightarrow> \<exists>ms. via (transition_rel (builder_transitions b)) s ms t \<and> h = hd (ms @ [t]) \<and>
             (\<forall>ms'. via (transition_rel (builder_transitions b)) s ms' t \<longrightarrow> length ms \<le> length ms'))"
    using build_transition_table_correct[of "map fst (builder_states b)" "builder_transitions b"] assms(3-5)
    by fastforce
  then show "next_state_toward m s t = None \<Longrightarrow> \<not> (\<exists>ms. via (transition_rel (builder_transitions b)) s ms t)"
    and "next_state_toward m s t = Some h \<Longrightarrow>
      \<exists>ms. via (transition_rel (builder_transitions b)) s ms t \<and> h = hd (ms @ [t]) \<and>
        (\<forall>ms'. via (transition_rel (builder_transitions b)) s ms' t \<longrightarrow> length ms \<le> length ms')"
    by (auto simp: next_state_toward_def split: option.splits)
qed

lemma build_accepts:
  assumes "small_builder b"
  shows "(\<exists>m. build b = Some (Inr m)) \<longleftrightarrow> valid_builder b"
proof -
  let ?S = "fst ` set (builder_states b)" and ?R = "transition_rel (builder_transitions b)"
  let ?d = "State ''DROPPED''"
  have tbl: "\<exists>table. build_transition_table (map fst (builder_states b)) (builder_transitions b) = Some table \<and>
      (\<forall>s \<in> ?S. s \<noteq> ?d \<longrightarrow> ?d \<in> ?S \<longrightarrow>
        (case bt_get table s of None \<Rightarrow> False | Some targets \<Rightarrow> bt_contains targets ?d) = ((s, ?d) \<in> ?R\<^sup>+))"
    if pre: "distinct (map fst (builder_states b))" "?R \<subseteq> ?S \<times> ?S"
  proof -
    obtain table where t: "build_transition_table (map fst (builder_states b)) (builder_transitions b) = Some table"
      "\<forall>s \<in> ?S. \<forall>t \<in> ?S. s \<noteq> t \<longrightarrow>
        (case bt_get table s of None \<Rightarrow> False | Some targets \<Rightarrow>
          (case bt_get targets t of None \<Rightarrow> \<not> (\<exists>ms. via ?R s ms t)
           | Some h \<Rightarrow> \<exists>ms. via ?R s ms t \<and> h = hd (ms @ [t]) \<and> (\<forall>ms'. via ?R s ms' t \<longrightarrow> length ms \<le> length ms')))"
      using build_transition_table_correct[of "map fst (builder_states b)" "builder_transitions b"] pre assms
      by (auto simp: small_builder_def)
    have "(case bt_get table s of None \<Rightarrow> False | Some targets \<Rightarrow> bt_contains targets ?d) = ((s, ?d) \<in> ?R\<^sup>+)"
      if s: "s \<in> ?S" "s \<noteq> ?d" "?d \<in> ?S" for s
    proof -
      note row = t(2)[rule_format, OF s(1) s(3) s(2)]
      then obtain targets where targets: "bt_get table s = Some targets" by (auto split: option.splits)
      with row show ?thesis
        by (cases "bt_get targets ?d") (auto simp: bt_contains_def via_trancl[symmetric])
    qed
    with t(1) show ?thesis by blast
  qed
  show ?thesis
  proof
    assume "\<exists>m. build b = Some (Inr m)"
    then obtain table where b: "builder_name b \<noteq> []" "builder_states b \<noteq> []"
        "distinct (map fst (builder_states b))" "?R \<subseteq> ?S \<times> ?S" "distinct (builder_transitions b)"
        "\<exists>s \<in> ?S. builder_initial_state b = Some s"
        "build_transition_table (map fst (builder_states b)) (builder_transitions b) = Some table"
        "?d \<in> ?S" "\<forall>s \<in> ?S. s \<noteq> ?d \<longrightarrow>
          (case bt_get table s of None \<Rightarrow> False | Some targets \<Rightarrow> bt_contains targets ?d)"
      unfolding build_eq check_dropped_Inr by auto
    have "\<forall>s \<in> ?S. s \<noteq> ?d \<longrightarrow> (s, ?d) \<in> ?R\<^sup>+" using tbl[OF b(3,4)] b(7-9) by simp
    with b show "valid_builder b" unfolding valid_builder_def by blast
  next
    assume v: "valid_builder b"
    then obtain table where "build_transition_table (map fst (builder_states b)) (builder_transitions b) = Some table"
      "\<forall>s \<in> ?S. s \<noteq> ?d \<longrightarrow> ?d \<in> ?S \<longrightarrow>
        (case bt_get table s of None \<Rightarrow> False | Some targets \<Rightarrow> bt_contains targets ?d) = ((s, ?d) \<in> ?R\<^sup>+)"
      using tbl unfolding valid_builder_def by blast
    then show "\<exists>m. build b = Some (Inr m)"
      using v unfolding build_eq valid_builder_def check_dropped_Inr by auto
  qed
qed

lemma build_no_panic_aux: "check_states scs = Inr (S, xs, c) \<Longrightarrow> check_transitions S ts = Inr r \<Longrightarrow>
    build_transition_table xs ts \<noteq> None"
  using indexed_transitions_Some[of xs ts] check_transitions_Inr[of S ts]
  by (auto simp: check_states_Inr build_transition_table_def)

lemma build_total: "build b \<noteq> None"
  using build_no_panic_aux by (fastforce simp: build_def split: sum.splits option.splits)


lemma table_row_dom:
  assumes "length row = length states" and "distinct states" and "i < length states"
    and "bt_get (table_row states i row) t = Some h"
  shows "t \<in> set states \<and> t \<noteq> states ! i"
proof -
  let ?P = "\<lambda>m. \<forall>t. bt_get m t \<noteq> None \<longrightarrow> (\<exists>j < length states. j \<noteq> i \<and> t = states ! j)"
  have "?P (table_row states i row)"
    unfolding table_row_def
    by (rule fold_invariant) (use assms(1) in \<open>auto simp: in_set_enumerate_eq split: option.splits if_splits\<close>)
  then show ?thesis
    using assms(2-4) nth_eq_iff_index_eq[OF assms(2)] nth_mem by blast
qed

lemma table_dom:
  assumes "build_transition_table states ts = Some table" and "distinct states"
    and "bt_get table s = Some targets" and "bt_get targets t = Some h"
    and "\<And>es. indexed_transitions states ts = Some es \<Longrightarrow> square (length states) (snd (next_matrix (length states) es))"
  shows "s \<in> set states \<and> t \<in> set states \<and> s \<noteq> t"
proof -
  obtain es where es: "indexed_transitions states ts = Some es"
    and table: "table = fold (\<lambda>(i, row) t. bt_insert (states ! i) (table_row states i row) t)
      (enumerate 0 (snd (next_matrix (length states) es))) bt_empty"
    using assms(1) by (auto simp: build_transition_table_def)
  let ?next = "snd (next_matrix (length states) es)"
  let ?P = "\<lambda>m. \<forall>s targets. bt_get m s = Some targets \<longrightarrow>
      (\<exists>i < length states. s = states ! i \<and> targets = table_row states i (?next ! i))"
  have len: "length ?next = length states" "\<And>i. i < length states \<Longrightarrow> length (?next ! i) = length states"
    using assms(5)[OF es] by (auto simp: square_def)
  have "?P table"
    unfolding table by (rule fold_invariant) (use len in \<open>auto simp: in_set_enumerate_eq split: if_splits\<close>)
  then obtain i where i: "i < length states" "s = states ! i" "targets = table_row states i (?next ! i)"
    using assms(3) by blast
  with table_row_dom[OF len(2)[OF i(1)] assms(2) i(1)] assms(4) show ?thesis by auto
qed

lemma next_state_toward_dom:
  assumes "build b = Some (Inr m)" and "small_builder b" and "next_state_toward m s t = Some h"
  shows "s \<in> set (states_by_priority m) \<and> t \<in> set (states_by_priority m) \<and> s \<noteq> t"
proof -
  obtain targets where t: "bt_get (next_states m) s = Some targets" "bt_get targets t = Some h"
    using assms(3) by (auto simp: next_state_toward_def split: option.splits)
  have b: "distinct (map fst (builder_states b))" "states_by_priority m = map fst (builder_states b)"
      "transition_rel (builder_transitions b) \<subseteq> set (map fst (builder_states b)) \<times> set (map fst (builder_states b))"
      "build_transition_table (map fst (builder_states b)) (builder_transitions b) = Some (next_states m)"
    using assms(1) unfolding build_eq by auto
  have "square (length (map fst (builder_states b))) (snd (next_matrix (length (map fst (builder_states b))) es))"
    if "indexed_transitions (map fst (builder_states b)) (builder_transitions b) = Some es" for es
    using next_matrix_square[of es "length (map fst (builder_states b))"] indexed_transitions_Some[OF b(1,3)] that
      assms(2) by (auto simp: small_builder_def)
  then show ?thesis using table_dom[OF b(4,1) t] b(2) by simp
qed

section \<open>Following the table to a target\<close>

fun follow :: "('s \<Rightarrow> 's \<Rightarrow> 's option) \<Rightarrow> 's \<Rightarrow> nat \<Rightarrow> 's \<Rightarrow> 's" where
  "follow hop t 0 s = s"
| "follow hop t (Suc n) s =
     (if s = t then s else case hop s t of None \<Rightarrow> s | Some h \<Rightarrow> follow hop t n h)"

text \<open>
  The contract between the state model and the stages that ask it for the next state:
  a missing hop means that there is no path, a hop is the first edge of a shortest path.
\<close>

locale next_hop =
  fixes hop :: "'s \<Rightarrow> 's \<Rightarrow> 's option" and E :: "('s \<times> 's) set" and S :: "'s set"
  assumes edges: "E \<subseteq> S \<times> S"
    and hop_dom: "hop s t = Some h \<Longrightarrow> s \<in> S \<and> t \<in> S \<and> s \<noteq> t"
    and hop_None: "s \<in> S \<Longrightarrow> t \<in> S \<Longrightarrow> s \<noteq> t \<Longrightarrow> hop s t = None \<Longrightarrow> (s, t) \<notin> E\<^sup>+"
    and hop_Some: "hop s t = Some h \<Longrightarrow>
      (s, h) \<in> E \<and> (\<exists>l. (h, t) \<in> E ^^ l \<and> (\<forall>l'. (s, t) \<in> E ^^ l' \<longrightarrow> Suc l \<le> l'))"
begin

lemma hop_moves: "hop s t = Some h \<Longrightarrow> h \<noteq> s"
  using hop_Some by fastforce

lemma hop_edge: "hop s t = Some h \<Longrightarrow> (s, h) \<in> E"
  using hop_Some by blast

lemma hop_target: "hop s t = Some h \<Longrightarrow> (h, t) \<in> E\<^sup>*"
  using hop_Some by (metis relpow_imp_rtrancl)

lemma hop_direct: "s \<noteq> t \<Longrightarrow> (s, t) \<in> E \<Longrightarrow> hop s t = Some t"
proof -
  assume st: "s \<noteq> t" "(s, t) \<in> E"
  then obtain h where h: "hop s t = Some h"
    using hop_None[of s t] edges by (metis SigmaE2 not_Some_eq r_into_trancl' subsetD)
  then obtain l where "(h, t) \<in> E ^^ l" "\<forall>l'. (s, t) \<in> E ^^ l' \<longrightarrow> Suc l \<le> l'"
    using hop_Some by blast
  moreover have "(s, t) \<in> E ^^ 1" using st by simp
  ultimately have "l = 0" by fastforce
  with \<open>(h, t) \<in> E ^^ l\<close> h show ?thesis by simp
qed

lemma follow_shortest:
  "(s, t) \<in> E ^^ n \<Longrightarrow> (\<And>l. l < n \<Longrightarrow> (s, t) \<notin> E ^^ l) \<Longrightarrow> s \<in> S \<Longrightarrow> t \<in> S \<Longrightarrow> follow hop t n s = t"
proof (induction n arbitrary: s)
  case (Suc n)
  have st: "s \<noteq> t" using Suc.prems(2)[of 0] by auto
  have "(s, t) \<in> E\<^sup>+" using Suc.prems(1) by (metis trancl_power zero_less_Suc)
  then obtain h where h: "hop s t = Some h"
    using hop_None[OF Suc.prems(3,4) st] by blast
  then obtain l where l: "(s, h) \<in> E" "(h, t) \<in> E ^^ l" "\<forall>l'. (s, t) \<in> E ^^ l' \<longrightarrow> Suc l \<le> l'"
    using hop_Some by blast
  have path: "(s, t) \<in> E ^^ Suc l'" if "(h, t) \<in> E ^^ l'" for l'
    using l(1) that by (rule relpow_Suc_I2)
  have "l = n" using path[OF l(2)] l(3) Suc.prems(1,2) by (metis Suc_le_mono le_antisym not_less_eq_eq not_le)
  moreover have "h \<in> S" using l(1) edges by blast
  ultimately have "follow hop t n h = t"
    using Suc.IH[of h] l(2) path Suc.prems(2,4) by (metis Suc_mono)
  with h st show ?case by simp
qed simp

lemma follow_reaches:
  assumes "(s, t) \<in> E\<^sup>*" and "s \<in> S" and "t \<in> S"
  shows "\<exists>n. follow hop t n s = t"
proof -
  define n where "n = (LEAST n. (s, t) \<in> E ^^ n)"
  have "(s, t) \<in> E ^^ n" unfolding n_def using assms(1) by (metis LeastI_ex rtrancl_imp_relpow)
  moreover have "(s, t) \<notin> E ^^ l" if "l < n" for l using that not_less_Least unfolding n_def by blast
  ultimately show ?thesis using follow_shortest assms(2,3) by blast
qed

end

lemma built_next_hop:
  assumes "build b = Some (Inr m)" and "small_builder b"
  shows "next_hop (next_state_toward m) (transition_rel (transitions_by_priority m)) (set (states_by_priority m))"
proof
  have b: "transitions_by_priority m = builder_transitions b" "states_by_priority m = map fst (builder_states b)"
    "transition_rel (builder_transitions b) \<subseteq> set (map fst (builder_states b)) \<times> set (map fst (builder_states b))"
    using assms(1) unfolding build_eq by auto
  let ?R = "transition_rel (transitions_by_priority m)"
  show "?R \<subseteq> set (states_by_priority m) \<times> set (states_by_priority m)" using b by simp
  show "s \<in> set (states_by_priority m) \<and> t \<in> set (states_by_priority m) \<and> s \<noteq> t"
    if "next_state_toward m s t = Some h" for s t h
    by (rule next_state_toward_dom[OF assms that])
  show "(s, t) \<notin> ?R\<^sup>+" if "s \<in> set (states_by_priority m)" "t \<in> set (states_by_priority m)" "s \<noteq> t"
    "next_state_toward m s t = None" for s t
    using build_table_lookup(1)[OF assms, of s t] that b by (simp add: via_trancl[symmetric])
  show "(s, h) \<in> ?R \<and> (\<exists>l. (h, t) \<in> ?R ^^ l \<and> (\<forall>l'. (s, t) \<in> ?R ^^ l' \<longrightarrow> Suc l \<le> l'))"
    if hop: "next_state_toward m s t = Some h" for s t h
  proof -
    have st: "s \<in> fst ` set (builder_states b)" "t \<in> fst ` set (builder_states b)" "s \<noteq> t"
      using next_state_toward_dom[OF assms hop] b(2) by auto
    obtain ms where ms: "via ?R s ms t" "h = hd (ms @ [t])" "\<forall>ms'. via ?R s ms' t \<longrightarrow> length ms \<le> length ms'"
      using build_table_lookup(2)[OF assms st hop] b(1) by auto
    have "(h, t) \<in> ?R ^^ length ms"
      using ms(1,2) via_relpow[of "length (tl ms)" ?R h t] by (cases ms) auto
    moreover have "Suc (length ms) \<le> l'" if "(s, t) \<in> ?R ^^ l'" for l'
      using that st(3) ms(3) via_relpow[of "l' - 1" ?R s t] by (cases l') (auto simp del: relpow.simps(2))
    ultimately show ?thesis using via_first[OF ms(1)] ms(2) by blast
  qed
qed


section \<open>LeaderStandby\<close>

lemma leader_standby_builder_fields:
  "builder_states leader_standby_builder =
     [(State ''LEADER'', Exact 1), (State ''STANDBY'', ReplicaCount),
      (State ''OFFLINE'', Unbounded), (State ''DROPPED'', Unbounded)]"
  "builder_initial_state leader_standby_builder = Some (State ''OFFLINE'')"
  "small_builder leader_standby_builder"
  by code_simp+

lemma leader_standby_build: "build leader_standby_builder = Some (Inr leader_standby)"
proof -
  have "case build leader_standby_builder of Some (Inr m) \<Rightarrow> True | _ \<Rightarrow> False" by code_simp
  then show ?thesis by (auto simp: leader_standby_def split: option.splits sum.splits)
qed

lemma leader_standby_states [simp]:
  "states_by_priority leader_standby =
     [State ''LEADER'', State ''STANDBY'', State ''OFFLINE'', State ''DROPPED'']"
  "model_initial_state leader_standby = State ''OFFLINE''"
  "highest_priority_state leader_standby = State ''LEADER''"
  using build_fields[OF leader_standby_build]
  by (auto simp: leader_standby_builder_fields highest_priority_state_def)

lemma leader_standby_cardinalities [simp]:
  "cardinality_for leader_standby (State ''LEADER'') = Some (Exact 1)"
  "cardinality_for leader_standby (State ''STANDBY'') = Some ReplicaCount"
  "cardinality_for leader_standby (State ''OFFLINE'') = Some Unbounded"
  "cardinality_for leader_standby (State ''DROPPED'') = Some Unbounded"
  using build_fields(5)[OF leader_standby_build]
  by (auto simp: leader_standby_builder_fields cardinality_for_def bt_get_collect)

lemma leader_standby_transitions:
  "transition_rel (transitions_by_priority leader_standby) =
     {(State ''LEADER'', State ''STANDBY''), (State ''STANDBY'', State ''LEADER''),
      (State ''OFFLINE'', State ''STANDBY''), (State ''STANDBY'', State ''OFFLINE''),
      (State ''OFFLINE'', State ''DROPPED'')}"
proof -
  have "transitions_by_priority leader_standby = builder_transitions leader_standby_builder"
    by (rule build_fields(4)[OF leader_standby_build])
  then show ?thesis
    by (simp add: transition_rel_def leader_standby_builder_def Let_def add_transition_def add_state_def
        builder_set_initial_state_def StateModelBuilder_new_def Transition_new_def)
qed

interpretation ls: next_hop "next_state_toward leader_standby"
  "transition_rel (transitions_by_priority leader_standby)" "set (states_by_priority leader_standby)"
  by (rule built_next_hop[OF leader_standby_build leader_standby_builder_fields(3)])

lemma leader_standby_hops [simp]:
  "next_state_toward leader_standby (State ''OFFLINE'') (State ''STANDBY'') = Some (State ''STANDBY'')"
  "next_state_toward leader_standby (State ''OFFLINE'') (State ''LEADER'') = Some (State ''STANDBY'')"
  "next_state_toward leader_standby (State ''OFFLINE'') (State ''DROPPED'') = Some (State ''DROPPED'')"
  "next_state_toward leader_standby (State ''STANDBY'') (State ''LEADER'') = Some (State ''LEADER'')"
  "next_state_toward leader_standby (State ''STANDBY'') (State ''OFFLINE'') = Some (State ''OFFLINE'')"
  "next_state_toward leader_standby (State ''STANDBY'') (State ''DROPPED'') = Some (State ''OFFLINE'')"
  "next_state_toward leader_standby (State ''LEADER'') (State ''STANDBY'') = Some (State ''STANDBY'')"
  "next_state_toward leader_standby (State ''LEADER'') (State ''OFFLINE'') = Some (State ''STANDBY'')"
  "next_state_toward leader_standby (State ''LEADER'') (State ''DROPPED'') = Some (State ''STANDBY'')"
proof -
  have "map (\<lambda>(s, ts). (s, entries ts)) (entries (next_states leader_standby)) =
    [(State ''DROPPED'', []),
     (State ''LEADER'', [(State ''DROPPED'', State ''STANDBY''), (State ''OFFLINE'', State ''STANDBY''),
                         (State ''STANDBY'', State ''STANDBY'')]),
     (State ''OFFLINE'', [(State ''DROPPED'', State ''DROPPED''), (State ''LEADER'', State ''STANDBY''),
                         (State ''STANDBY'', State ''STANDBY'')]),
     (State ''STANDBY'', [(State ''DROPPED'', State ''OFFLINE''), (State ''LEADER'', State ''LEADER''),
                         (State ''OFFLINE'', State ''OFFLINE'')])]"
    by code_simp
  then obtain d l f t where "entries (next_states leader_standby) =
      [(State ''DROPPED'', d), (State ''LEADER'', l), (State ''OFFLINE'', f), (State ''STANDBY'', t)]"
    "entries l = [(State ''DROPPED'', State ''STANDBY''), (State ''OFFLINE'', State ''STANDBY''), (State ''STANDBY'', State ''STANDBY'')]"
    "entries f = [(State ''DROPPED'', State ''DROPPED''), (State ''LEADER'', State ''STANDBY''), (State ''STANDBY'', State ''STANDBY'')]"
    "entries t = [(State ''DROPPED'', State ''OFFLINE''), (State ''LEADER'', State ''LEADER''), (State ''OFFLINE'', State ''OFFLINE'')]"
    by (auto simp: map_eq_Cons_conv)
  note this [simp]
  show "next_state_toward leader_standby (State ''OFFLINE'') (State ''STANDBY'') = Some (State ''STANDBY'')"
    "next_state_toward leader_standby (State ''OFFLINE'') (State ''LEADER'') = Some (State ''STANDBY'')"
    "next_state_toward leader_standby (State ''OFFLINE'') (State ''DROPPED'') = Some (State ''DROPPED'')"
    "next_state_toward leader_standby (State ''STANDBY'') (State ''LEADER'') = Some (State ''LEADER'')"
    "next_state_toward leader_standby (State ''STANDBY'') (State ''OFFLINE'') = Some (State ''OFFLINE'')"
    "next_state_toward leader_standby (State ''STANDBY'') (State ''DROPPED'') = Some (State ''OFFLINE'')"
    "next_state_toward leader_standby (State ''LEADER'') (State ''STANDBY'') = Some (State ''STANDBY'')"
    "next_state_toward leader_standby (State ''LEADER'') (State ''OFFLINE'') = Some (State ''STANDBY'')"
    "next_state_toward leader_standby (State ''LEADER'') (State ''DROPPED'') = Some (State ''STANDBY'')"
    by (simp_all add: next_state_toward_def bt_get_entries)
qed

section \<open>Properties\<close>

text \<open>C28: In every model the builder accepts, the precomputed table is exact: when it has no
  next state from \<open>s\<close> toward \<open>t\<close> there is no path of transitions from \<open>s\<close> to \<open>t\<close>, and
  when it has one, that state is one declared transition away from \<open>s\<close> and lies on a
  shortest path to \<open>t\<close>.\<close>

theorem next_state_toward_shortest:
  assumes "build b = Some (Inr m)" and "small_builder b"
    and "s \<in> set (states_by_priority m)" and "t \<in> set (states_by_priority m)" and "s \<noteq> t"
  shows "case next_state_toward m s t of
      None \<Rightarrow> (s, t) \<notin> (transition_rel (transitions_by_priority m))\<^sup>+
    | Some h \<Rightarrow> (s, h) \<in> transition_rel (transitions_by_priority m) \<and>
        (\<exists>l. (h, t) \<in> transition_rel (transitions_by_priority m) ^^ l \<and>
          (\<forall>l'. (s, t) \<in> transition_rel (transitions_by_priority m) ^^ l' \<longrightarrow> Suc l \<le> l'))"
  using next_hop.hop_None[OF built_next_hop[OF assms(1,2)] assms(3-5)]
    next_hop.hop_Some[OF built_next_hop[OF assms(1,2)], of s t]
  by (simp split: option.splits)

theorem next_state_toward_shortest_witness:
  "next_state_toward leader_standby (State ''OFFLINE'') (State ''LEADER'') = Some (State ''STANDBY'') \<and>
   (State ''OFFLINE'', State ''STANDBY'') \<in> transition_rel (transitions_by_priority leader_standby)"
  using next_state_toward_shortest[OF leader_standby_build leader_standby_builder_fields(3),
      of "State ''OFFLINE''" "State ''LEADER''"] by simp

text \<open>From every state of an accepted model, following the table toward \<open>DROPPED\<close> ends
  in \<open>DROPPED\<close> after finitely many transitions, so every replica can be drained.\<close>

lemma drain_to_dropped:
  assumes "build b = Some (Inr m)" and "small_builder b" and "s \<in> set (states_by_priority m)"
  shows "\<exists>n. follow (next_state_toward m) (State ''DROPPED'') n s = State ''DROPPED''"
proof -
  have v: "valid_builder b" using build_accepts[OF assms(2)] assms(1) by blast
  have "(s, State ''DROPPED'') \<in> (transition_rel (transitions_by_priority m))\<^sup>*"
    and d: "State ''DROPPED'' \<in> set (states_by_priority m)"
    using v assms(3) build_fields[OF assms(1)] unfolding valid_builder_def
    by (auto intro: trancl_into_rtrancl)
  then show ?thesis
    using next_hop.follow_reaches[OF built_next_hop[OF assms(1,2)]] assms(3) by blast
qed

text \<open>C29: The builder never panics, and it accepts exactly the well-formed definitions: a name, a
  non-empty duplicate-free list of states with the initial state and \<open>DROPPED\<close> among
  them, duplicate-free transitions between these states, and a path to \<open>DROPPED\<close> from
  every other state.\<close>

theorem build_accepts_exactly_valid:
  assumes "small_builder b"
  shows "build b \<noteq> None \<and> ((\<exists>m. build b = Some (Inr m)) \<longleftrightarrow> valid_builder b)"
  using build_total build_accepts[OF assms] by blast

theorem build_accepts_exactly_valid_witness: "valid_builder leader_standby_builder"
  using build_accepts_exactly_valid[OF leader_standby_builder_fields(3)] leader_standby_build by blast

end
