(* ===== verification/Replica_State.thy ===== *)
theory Replica_State
  imports State_Model_Laws
begin

text \<open>
  The snapshots the controller stages exchange: per-replica state maps
  (\<^verbatim>\<open>src/model/replica_state.rs\<close>, \<^verbatim>\<open>current_state.rs\<close>,
  \<^verbatim>\<open>best_possible_state.rs\<close>), the aggregated view (\<^verbatim>\<open>external_view.rs\<close>), explicit
  placements (\<^verbatim>\<open>ideal_state.rs\<close>), and transition requests, pending transitions and
  messages (\<^verbatim>\<open>src/transition/\<close>).
\<close>

section \<open>Replica states\<close>

type_synonym instance_states = "(InstanceId, State) btree"
type_synonym replica_map = "(PartitionId, instance_states) btree"

datatype ReplicaStateError = DuplicateReplica PartitionId InstanceId

definition ReplicaStateError_fmt :: "ReplicaStateError \<Rightarrow> string" where
  "ReplicaStateError_fmt e = (case e of DuplicateReplica p i \<Rightarrow>
     ''duplicate state for partition '' @ PartitionId_as_str p @ '' and instance '' @ InstanceId_as_str i)"

record ReplicaStates =
  replica_states :: replica_map

definition ReplicaStates_default :: ReplicaStates where
  "ReplicaStates_default = \<lparr>replica_states = bt_empty\<rparr>"

text \<open>
  The insertion happens before the duplicate is reported, so the state on the error path
  differs from the state before the call: the new state value has replaced the old one.
  The second component is the structure after the call on either path.
\<close>

definition ReplicaStates_insert ::
    "PartitionId \<Rightarrow> InstanceId \<Rightarrow> State \<Rightarrow> ReplicaStates \<Rightarrow> (ReplicaStateError + unit) \<times> ReplicaStates" where
  "ReplicaStates_insert p i s rs =
     (let instances = bt_get_or bt_empty (replica_states rs) p;
          rs' = rs\<lparr>replica_states := bt_insert p (bt_insert i s instances) (replica_states rs)\<rparr>
      in if bt_get instances i \<noteq> None then (Inl (DuplicateReplica p i), rs') else (Inr (), rs'))"

definition ReplicaStates_get :: "ReplicaStates \<Rightarrow> PartitionId \<Rightarrow> InstanceId \<Rightarrow> State option" where
  "ReplicaStates_get rs p i =
     (case bt_get (replica_states rs) p of None \<Rightarrow> None | Some instances \<Rightarrow> bt_get instances i)"

record CurrentState =
  current_states :: ReplicaStates

record BestPossibleState =
  best_states :: ReplicaStates

definition CurrentState_default :: CurrentState where
  "CurrentState_default = \<lparr>current_states = ReplicaStates_default\<rparr>"

definition BestPossibleState_default :: BestPossibleState where
  "BestPossibleState_default = \<lparr>best_states = ReplicaStates_default\<rparr>"

definition CurrentState_state :: "CurrentState \<Rightarrow> PartitionId \<Rightarrow> InstanceId \<Rightarrow> State option" where
  "CurrentState_state c p i = ReplicaStates_get (current_states c) p i"

definition CurrentState_entries :: "CurrentState \<Rightarrow> replica_map" where
  "CurrentState_entries c = replica_states (current_states c)"

definition BestPossibleState_state :: "BestPossibleState \<Rightarrow> PartitionId \<Rightarrow> InstanceId \<Rightarrow> State option" where
  "BestPossibleState_state c p i = ReplicaStates_get (best_states c) p i"

definition BestPossibleState_entries :: "BestPossibleState \<Rightarrow> replica_map" where
  "BestPossibleState_entries c = replica_states (best_states c)"

text \<open>
  \<open>builder.set_state(..)?\<close> as the callers use it: an error leaves the caller with the
  error, a success goes on with the updated builder. \<open>CurrentStateBuilder\<close> and
  \<open>BestPossibleStateBuilder\<close> wrap the same structure.
\<close>

definition set_state ::
    "PartitionId \<Rightarrow> InstanceId \<Rightarrow> State \<Rightarrow> ReplicaStates \<Rightarrow> ReplicaStateError + ReplicaStates" where
  "set_state p i s rs =
     (case ReplicaStates_insert p i s rs of (Inl e, _) \<Rightarrow> Inl e | (Inr _, rs') \<Rightarrow> Inr rs')"

definition CurrentState_build :: "ReplicaStates \<Rightarrow> CurrentState" where
  "CurrentState_build rs = \<lparr>current_states = rs\<rparr>"

definition BestPossibleState_build :: "ReplicaStates \<Rightarrow> BestPossibleState" where
  "BestPossibleState_build rs = \<lparr>best_states = rs\<rparr>"

section \<open>The external view\<close>

type_synonym resource_map = "(ResourceId, replica_map) btree"

record ExternalView =
  view_states :: resource_map

definition ExternalView_from_current_states :: "(ResourceId, CurrentState) btree \<Rightarrow> ExternalView" where
  "ExternalView_from_current_states m =
     \<lparr>view_states = bt_map (\<lambda>_ c. CurrentState_entries c) m\<rparr>"

definition resource_map_state :: "resource_map \<Rightarrow> ResourceId \<Rightarrow> PartitionId \<Rightarrow> InstanceId \<Rightarrow> State option" where
  "resource_map_state m r p i =
     (case bt_get m r of None \<Rightarrow> None
      | Some partitions \<Rightarrow> (case bt_get partitions p of None \<Rightarrow> None
      | Some instances \<Rightarrow> bt_get instances i))"

definition ExternalView_state :: "ExternalView \<Rightarrow> ResourceId \<Rightarrow> PartitionId \<Rightarrow> InstanceId \<Rightarrow> State option" where
  "ExternalView_state v r p i = resource_map_state (view_states v) r p i"

section \<open>Explicit placements\<close>

record IdealState =
  ideal_resource :: ResourceId
  ideal_replicas :: nat
  preference_lists :: "(PartitionId, InstanceId list) btree"

datatype IdealStateError =
    DuplicateIdealPartition PartitionId
  | DuplicatePreferenceInstance PartitionId
  | NoPartitions
  | PreferenceListReplicaCount PartitionId nat nat

definition IdealStateError_fmt :: "IdealStateError \<Rightarrow> string" where
  "IdealStateError_fmt e = (case e of
     DuplicateIdealPartition p \<Rightarrow> ''duplicate ideal-state partition: '' @ PartitionId_as_str p
   | DuplicatePreferenceInstance p \<Rightarrow>
       ''preference list contains a duplicate instance for partition '' @ PartitionId_as_str p
   | NoPartitions \<Rightarrow> ''ideal state must contain a partition''
   | PreferenceListReplicaCount p expected actual \<Rightarrow>
       ''preference list for partition '' @ PartitionId_as_str p @ '' has '' @ show_nat actual @
       '' entries; expected '' @ show_nat expected)"

definition IdealState_builder :: "ResourceId \<Rightarrow> nat \<Rightarrow> IdealState" where
  "IdealState_builder r n = \<lparr>ideal_resource = r, ideal_replicas = n, preference_lists = bt_empty\<rparr>"

definition preference_list :: "IdealState \<Rightarrow> PartitionId \<Rightarrow> InstanceId list option" where
  "preference_list ideal p = bt_get (preference_lists ideal) p"

definition set_preference_list ::
    "PartitionId \<Rightarrow> InstanceId list \<Rightarrow> IdealState \<Rightarrow> IdealStateError + IdealState" where
  "set_preference_list p instances b =
     (if bt_contains (preference_lists b) p then Inl (DuplicateIdealPartition p)
      else if length instances \<noteq> ideal_replicas b
      then Inl (PreferenceListReplicaCount p (ideal_replicas b) (length instances))
      else if bt_len (bs_collect instances) \<noteq> length instances
      then Inl (DuplicatePreferenceInstance p)
      else Inr (b\<lparr>preference_lists := bt_insert p instances (preference_lists b)\<rparr>))"

definition IdealState_build :: "IdealState \<Rightarrow> IdealStateError + IdealState" where
  "IdealState_build b = (if bt_is_empty (preference_lists b) then Inl NoPartitions else Inr b)"

section \<open>Transition requests\<close>

record TransitionRequest =
  request_resource :: ResourceId
  request_partition :: PartitionId
  request_instance :: InstanceId
  request_source :: State
  request_target :: State

record PendingTransition =
  pending_partition :: PartitionId
  pending_instance :: InstanceId
  pending_source :: State
  pending_target :: State

record TransitionMessage =
  message_id :: string
  message_resource :: string
  message_partition :: string
  message_instance :: string
  target_session :: u64
  message_from :: string
  message_to :: string
  message_type :: string

section \<open>Lemmas\<close>

definition put_state :: "PartitionId \<Rightarrow> InstanceId \<Rightarrow> State \<Rightarrow> ReplicaStates \<Rightarrow> ReplicaStates" where
  "put_state p i s rs = snd (ReplicaStates_insert p i s rs)"

lemma ReplicaStates_get_default [simp]: "ReplicaStates_get ReplicaStates_default p i = None"
  by (simp add: ReplicaStates_get_def ReplicaStates_default_def)

lemma ReplicaStates_get_put [simp]:
  "ReplicaStates_get (put_state p i s rs) p' i' =
     (if p' = p \<and> i' = i then Some s else ReplicaStates_get rs p' i')"
  by (auto simp: put_state_def ReplicaStates_insert_def ReplicaStates_get_def Let_def bt_get_or_def
      split: option.splits)

lemma put_state_partitions [simp]:
  "bt_contains (replica_states (put_state p i s rs)) p' \<longleftrightarrow> p' = p \<or> bt_contains (replica_states rs) p'"
  by (auto simp: put_state_def ReplicaStates_insert_def Let_def)

lemma ReplicaStates_insert_result:
  "ReplicaStates_insert p i s rs =
     (if ReplicaStates_get rs p i = None then Inr () else Inl (DuplicateReplica p i), put_state p i s rs)"
  by (auto simp: put_state_def ReplicaStates_insert_def ReplicaStates_get_def Let_def bt_get_or_def
      split: option.splits)

lemma set_state_eq:
  "set_state p i s rs =
     (if ReplicaStates_get rs p i = None then Inr (put_state p i s rs) else Inl (DuplicateReplica p i))"
  by (simp add: set_state_def ReplicaStates_insert_result)

lemma set_state_Inr [simp]:
  "set_state p i s rs = Inr rs' \<longleftrightarrow> ReplicaStates_get rs p i = None \<and> rs' = put_state p i s rs"
  by (auto simp: set_state_eq)

text \<open>
  Building a snapshot replica by replica: when the replicas are pairwise distinct no
  insertion is a duplicate, and the result has each replica's state.
\<close>

lemma try_set_states:
  assumes "distinct (map (\<lambda>x. (P x, I x)) xs)" and "\<forall>x \<in> set xs. ReplicaStates_get rs (P x) (I x) = None"
  shows "try_fold (\<lambda>x b. map_err E (set_state (P x) (I x) (S x) b)) xs rs =
     Inr (fold (\<lambda>x. put_state (P x) (I x) (S x)) xs rs)"
  using assms
proof (induction xs arbitrary: rs)
  case (Cons x xs)
  have "\<forall>y \<in> set xs. ReplicaStates_get (put_state (P x) (I x) (S x) rs) (P y) (I y) = None"
    using Cons.prems by (simp add: image_iff) metis
  with Cons show ?case by (simp add: set_state_eq)
qed simp

lemma get_fold_put_other:
  "(\<And>x. x \<in> set xs \<Longrightarrow> (P x, I x) \<noteq> (p, i)) \<Longrightarrow>
     ReplicaStates_get (fold (\<lambda>x. put_state (P x) (I x) (S x)) xs rs) p i = ReplicaStates_get rs p i"
  by (induction xs arbitrary: rs) auto

lemma get_fold_put:
  assumes "distinct (map (\<lambda>x. (P x, I x)) xs)" and "x \<in> set xs"
  shows "ReplicaStates_get (fold (\<lambda>x. put_state (P x) (I x) (S x)) xs rs) (P x) (I x) = Some (S x)"
  using assms
proof (induction xs arbitrary: rs)
  case (Cons y xs)
  show ?case
  proof (cases "x \<in> set xs")
    case False
    then have "x = y" using Cons.prems by simp
    then show ?thesis using Cons.prems(1)
      by (subst fold.simps, subst comp_apply, subst get_fold_put_other) (auto simp: image_iff)
  qed (use Cons in simp)
qed simp

text \<open>The replicas of a snapshot in iteration order.\<close>

definition replicas :: "replica_map \<Rightarrow> (PartitionId \<times> InstanceId \<times> State) list" where
  "replicas m = concat (map (\<lambda>(p, is). map (\<lambda>(i, s). (p, i, s)) (entries is)) (entries m))"

lemma set_replicas:
  "(p, i, s) \<in> set (replicas m) \<longleftrightarrow> (\<exists>is. bt_get m p = Some is \<and> bt_get is i = Some s)"
  by (auto simp: replicas_def bt_entries_iff[symmetric])

lemma set_replicas_get:
  "(p, i, s) \<in> set (replicas (replica_states rs)) \<longleftrightarrow> ReplicaStates_get rs p i = Some s"
  by (auto simp: set_replicas ReplicaStates_get_def split: option.splits)

lemma distinct_replicas: "distinct (map (\<lambda>(p, i, s). (p, i)) (replicas m))"
proof -
  have "distinct (map fst xs) \<Longrightarrow>
    distinct (map (\<lambda>(p, i, s). (p, i)) (concat (map (\<lambda>(p, is). map (\<lambda>(i, s). (p, i, s)) (entries is)) xs)))"
    for xs :: "(PartitionId \<times> instance_states) list"
  proof (induction xs)
    case (Cons x xs)
    let ?key = "\<lambda>(p, i, s). (p, i)" and ?rest = "concat (map (\<lambda>(p, is). map (\<lambda>(i, s). (p, i, s)) (entries is)) xs)"
    obtain p "is" where x: "x = (p, is)" by (cases x)
    have "distinct (map fst (entries is))" by (simp add: ascending_distinct)
    then have A: "distinct (map (\<lambda>(i, s). (p, i)) (entries is))"
      by (fastforce simp: distinct_map inj_on_def)
    have eq: "map ?key (map (\<lambda>(i, s). (p, i, s)) (entries is)) = map (\<lambda>(i, s). (p, i)) (entries is)"
      by (simp add: comp_def case_prod_unfold)
    have "fst ` set (map ?key ?rest) \<subseteq> fst ` set xs" by force
    moreover have "p \<notin> fst ` set xs" using Cons.prems x by simp
    moreover have "fst q = p" if "q \<in> set (map (\<lambda>(i, s). (p, i)) (entries is))" for q using that by auto
    ultimately have "set (map (\<lambda>(i, s). (p, i)) (entries is)) \<inter> set (map ?key ?rest) = {}" by blast
    moreover have "distinct (map ?key ?rest)" using Cons by simp
    ultimately show ?case using A by (simp only: x list.map concat.simps map_append prod.case eq distinct_append)
  qed simp
  then show ?thesis by (simp add: replicas_def ascending_distinct)
qed

lemma bt_len_collect: "bt_len (bs_collect xs) = card (set xs)"
proof -
  have "dom (bt_get (bs_collect xs)) = {k. bt_contains (bs_collect xs) k}"
    unfolding dom_def bt_contains_def by blast
  then show ?thesis by (simp add: bt_len_keys)
qed

lemma set_preference_list_Inr [simp]:
  "set_preference_list p is b = Inr b' \<longleftrightarrow>
     \<not> bt_contains (preference_lists b) p \<and> length is = ideal_replicas b \<and> distinct is \<and>
     b' = b\<lparr>preference_lists := bt_insert p is (preference_lists b)\<rparr>"
  by (auto simp: set_preference_list_def bt_len_collect card_distinct distinct_card)

definition ideal_wf :: "IdealState \<Rightarrow> bool" where
  "ideal_wf ideal \<longleftrightarrow> (\<forall>p is. preference_list ideal p = Some is \<longrightarrow>
     distinct is \<and> length is = ideal_replicas ideal)"

lemma ideal_wf_builder: "ideal_wf (IdealState_builder r n)"
  by (simp add: ideal_wf_def IdealState_builder_def preference_list_def)

lemma ideal_wf_set: "ideal_wf b \<Longrightarrow> set_preference_list p is b = Inr b' \<Longrightarrow> ideal_wf b'"
  by (auto simp: ideal_wf_def preference_list_def split: if_splits)

lemma ideal_wf_build: "ideal_wf b \<Longrightarrow> IdealState_build b = Inr i \<Longrightarrow> ideal_wf i"
  by (auto simp: IdealState_build_def split: if_splits)

lemma ExternalView_state_current:
  "ExternalView_state (ExternalView_from_current_states m) r p i =
     (case bt_get m r of None \<Rightarrow> None | Some c \<Rightarrow> CurrentState_state c p i)"
  by (simp add: ExternalView_state_def ExternalView_from_current_states_def resource_map_state_def
      CurrentState_state_def CurrentState_entries_def ReplicaStates_get_def split: option.splits)

lemma current_build [simp]:
  "CurrentState_state (CurrentState_build rs) p i = ReplicaStates_get rs p i"
  "CurrentState_entries (CurrentState_build rs) = replica_states rs"
  by (simp_all add: CurrentState_state_def CurrentState_entries_def CurrentState_build_def)

section \<open>Properties\<close>

text \<open>Placements built by \<open>IdealStateBuilder\<close>: after any sequence of accepted preference
  lists, every preference list of the built placement is duplicate-free and has exactly
  the configured replica count, and the placement has a partition.\<close>

lemma ideal_state_built_wf:
  assumes "try_fold (\<lambda>(p, is). set_preference_list p is) pls (IdealState_builder r n) = Inr b"
    and "IdealState_build b = Inr ideal" and "preference_list ideal p = Some is"
  shows "distinct is \<and> length is = n \<and> preference_lists ideal \<noteq> bt_empty"
proof -
  have "ideal_wf (IdealState_builder r n) \<and> ideal_replicas (IdealState_builder r n) = n"
    by (simp add: ideal_wf_builder) (simp add: IdealState_builder_def)
  with assms(1) have "ideal_wf b \<and> ideal_replicas b = n"
    by (rule try_fold_invariant) (use ideal_wf_set in fastforce)
  then show ?thesis
    using assms(2,3) by (auto simp: IdealState_build_def ideal_wf_def bt_is_empty_iff split: if_splits)
qed

text \<open>Inserting a replica state reports a duplicate exactly when the replica already has a
  state, and on both paths, the error path included, the replica has the new state
  afterwards while every other replica keeps its own.\<close>

lemma replica_insert_outcome:
  "ReplicaStates_insert p i s rs = (r, rs') \<Longrightarrow>
     (r = Inl (DuplicateReplica p i) \<longleftrightarrow> ReplicaStates_get rs p i \<noteq> None) \<and>
     (r = Inr () \<longleftrightarrow> ReplicaStates_get rs p i = None) \<and>
     (\<forall>p' i'. ReplicaStates_get rs' p' i' =
        (if p' = p \<and> i' = i then Some s else ReplicaStates_get rs p' i'))"
  by (auto simp: ReplicaStates_insert_result split: if_splits)

end
