(* ===== verification/Session.thy ===== *)
theory Session
  imports Replica_State
begin

text \<open>
  Participant incarnations and session fencing (\<^verbatim>\<open>src/model/session.rs\<close>). Every
  operation checks and computes all its fallible parts before it changes the structure,
  so an error leaves the state as it was: an operation returns either an error or its
  result with the new state.
\<close>

section \<open>State\<close>

record LiveInstance =
  live_instance_id :: InstanceId
  live_session_id :: SessionId

record ActiveCurrentState =
  active_session_id :: SessionId
  active_resources :: "(ResourceId, CurrentState) btree"

record ParticipantSessionSnapshot =
  snapshot_live_instances :: "(InstanceId, LiveInstance) btree"
  snapshot_active_current_state :: "(InstanceId, ActiveCurrentState) btree"

type_synonym resource_states = "(ResourceId, CurrentState) btree"
type_synonym session_states = "(SessionId, resource_states) btree"

record ParticipantSessionState =
  next_session_sequence :: u64
  known_sessions :: "(SessionId, InstanceId) btree"
  live_instances :: "(InstanceId, LiveInstance) btree"
  session_current_states :: "(InstanceId, session_states) btree"
  default_initial_state :: State
  resource_initial_states :: "(ResourceId, State) btree"

datatype SessionError =
    AlreadyLive InstanceId
  | NotLive InstanceId
  | SessionIdExhausted
  | SessionMismatch InstanceId SessionId SessionId
  | SessionOwnershipMismatch InstanceId SessionId InstanceId
  | UnknownSession SessionId
  | CurrentStateError ReplicaStateError

definition SessionError_fmt :: "SessionError \<Rightarrow> string" where
  "SessionError_fmt e = (case e of
     AlreadyLive i \<Rightarrow> ''instance '' @ InstanceId_as_str i @ '' is already live''
   | NotLive i \<Rightarrow> ''instance '' @ InstanceId_as_str i @ '' is not live''
   | SessionIdExhausted \<Rightarrow> ''session identifier space exhausted''
   | SessionMismatch i _ _ \<Rightarrow> ''session does not own live instance '' @ InstanceId_as_str i
   | SessionOwnershipMismatch i s owner \<Rightarrow>
       ''session SessionId('' @ show_nat (unat (SessionId_sequence s)) @ '') belongs to '' @
       InstanceId_as_str owner @ '', not '' @ InstanceId_as_str i
   | UnknownSession _ \<Rightarrow> ''session is unknown to this model''
   | CurrentStateError err \<Rightarrow> ReplicaStateError_fmt err)"

definition ParticipantSessionState_default :: ParticipantSessionState where
  "ParticipantSessionState_default =
     \<lparr>next_session_sequence = 0, known_sessions = bt_empty, live_instances = bt_empty,
      session_current_states = bt_empty, default_initial_state = State ''OFFLINE'',
      resource_initial_states = bt_empty\<rparr>"

section \<open>Operations\<close>

definition set_resource_initial_state ::
    "ResourceId \<Rightarrow> State \<Rightarrow> ParticipantSessionState \<Rightarrow> ParticipantSessionState" where
  "set_resource_initial_state r s st =
     st\<lparr>resource_initial_states := bt_insert r s (resource_initial_states st)\<rparr>"

definition require_live_session ::
    "InstanceId \<Rightarrow> SessionId \<Rightarrow> ParticipantSessionState \<Rightarrow> SessionError + unit" where
  "require_live_session i sid st =
     (case bt_get (live_instances st) i of
        Some li \<Rightarrow> if live_session_id li = sid then Inr () else Inl (SessionMismatch i (live_session_id li) sid)
      | None \<Rightarrow> Inl (NotLive i))"

definition allocate_session ::
    "InstanceId \<Rightarrow> ParticipantSessionState \<Rightarrow> SessionError + SessionId \<times> ParticipantSessionState" where
  "allocate_session i st =
     bind_result (ok_or (checked_add_u64 (next_session_sequence st) 1) SessionIdExhausted) (\<lambda>next_seq.
       Inr (SessionId next_seq,
            st\<lparr>next_session_sequence := next_seq,
               known_sessions := bt_insert (SessionId next_seq) i (known_sessions st)\<rparr>))"

text \<open>The records of one session: those of a named session, or of the latest one.\<close>

definition last_value :: "('k::linorder, 'v) btree \<Rightarrow> 'v option" where
  "last_value m = (if entries m = [] then None else Some (snd (last (entries m))))"

definition previous_resources ::
    "InstanceId \<Rightarrow> SessionId option \<Rightarrow> ParticipantSessionState \<Rightarrow> resource_states option" where
  "previous_resources i previous st =
     Option.bind (bt_get (session_current_states st) i) (\<lambda>sessions.
       case previous of Some sid \<Rightarrow> bt_get sessions sid | None \<Rightarrow> last_value sessions)"

definition carried_current_states ::
    "InstanceId \<Rightarrow> SessionId option \<Rightarrow> ParticipantSessionState \<Rightarrow> SessionError + resource_states" where
  "carried_current_states i previous st =
     (case previous_resources i previous st of
        None \<Rightarrow> Inr bt_empty
      | Some resources \<Rightarrow>
          try_fold (\<lambda>(r, current_state) carried.
            let initial_state = bt_get_or (default_initial_state st) (resource_initial_states st) r
            in bind_result
              (try_fold (\<lambda>(p, stored, s) b. map_err CurrentStateError
                    (set_state p stored (if stored = i then initial_state else s) b))
                 (replicas (CurrentState_entries current_state)) ReplicaStates_default)
              (\<lambda>b. Inr (bt_insert r (CurrentState_build b) carried)))
            (entries resources) bt_empty)"

definition start_session ::
    "InstanceId \<Rightarrow> SessionId \<Rightarrow> resource_states \<Rightarrow> ParticipantSessionState \<Rightarrow> ParticipantSessionState" where
  "start_session i sid carried st =
     st\<lparr>live_instances := bt_insert i \<lparr>live_instance_id = i, live_session_id = sid\<rparr> (live_instances st),
        session_current_states :=
          bt_entry bt_empty (bt_insert sid carried) i (session_current_states st)\<rparr>"

definition connect ::
    "InstanceId \<Rightarrow> ParticipantSessionState \<Rightarrow> SessionError + SessionId \<times> ParticipantSessionState" where
  "connect i st =
     (if bt_contains (live_instances st) i then Inl (AlreadyLive i)
      else bind_result (carried_current_states i None st) (\<lambda>carried.
        bind_result (allocate_session i st) (\<lambda>(sid, st').
        Inr (sid, start_session i sid carried st'))))"

definition disconnect ::
    "InstanceId \<Rightarrow> SessionId \<Rightarrow> ParticipantSessionState \<Rightarrow> SessionError + ParticipantSessionState" where
  "disconnect i sid st =
     bind_result (require_live_session i sid st) (\<lambda>_.
       Inr (st\<lparr>live_instances := bt_remove i (live_instances st)\<rparr>))"

definition expire_and_reconnect ::
    "InstanceId \<Rightarrow> SessionId \<Rightarrow> ParticipantSessionState \<Rightarrow> SessionError + SessionId \<times> ParticipantSessionState" where
  "expire_and_reconnect i old st =
     bind_result (require_live_session i old st) (\<lambda>_.
     bind_result (carried_current_states i (Some old) st) (\<lambda>carried.
     bind_result (allocate_session i st) (\<lambda>(sid, st').
     Inr (sid, start_session i sid carried st'))))"

definition session_resource ::
    "InstanceId \<Rightarrow> SessionId \<Rightarrow> ResourceId \<Rightarrow> ParticipantSessionState \<Rightarrow> CurrentState option" where
  "session_resource i sid r st =
     Option.bind (bt_get (session_current_states st) i) (\<lambda>sessions.
     Option.bind (bt_get sessions sid) (\<lambda>resources. bt_get resources r))"

definition merged_states ::
    "InstanceId \<Rightarrow> CurrentState option \<Rightarrow> (PartitionId, State) btree \<Rightarrow> (PartitionId \<times> InstanceId, State) btree" where
  "merged_states i existing states =
     fold (\<lambda>(p, s). bt_insert (p, i) s) (entries states)
       (case existing of
          None \<Rightarrow> bt_empty
        | Some c \<Rightarrow> fold (\<lambda>(p, j, s). bt_insert (p, j) s) (replicas (CurrentState_entries c)) bt_empty)"

definition store_current_state ::
    "InstanceId \<Rightarrow> SessionId \<Rightarrow> ResourceId \<Rightarrow> (PartitionId, State) btree \<Rightarrow> ParticipantSessionState \<Rightarrow>
     SessionError + ParticipantSessionState" where
  "store_current_state i sid r states st =
     bind_result
       (try_fold (\<lambda>((p, j), s) b. map_err CurrentStateError (set_state p j s b))
          (entries (merged_states i (session_resource i sid r st) states)) ReplicaStates_default)
       (\<lambda>b. Inr (st\<lparr>session_current_states :=
          bt_entry bt_empty (bt_entry bt_empty (bt_insert r (CurrentState_build b)) sid) i
            (session_current_states st)\<rparr>))"

definition publish_current_state ::
    "InstanceId \<Rightarrow> SessionId \<Rightarrow> ResourceId \<Rightarrow> (PartitionId, State) btree \<Rightarrow> ParticipantSessionState \<Rightarrow>
     SessionError + ParticipantSessionState" where
  "publish_current_state i sid r states st =
     bind_result (require_live_session i sid st) (\<lambda>_. store_current_state i sid r states st)"

definition inject_session_current_state ::
    "InstanceId \<Rightarrow> SessionId \<Rightarrow> ResourceId \<Rightarrow> (PartitionId, State) btree \<Rightarrow> ParticipantSessionState \<Rightarrow>
     SessionError + ParticipantSessionState" where
  "inject_session_current_state i sid r states st =
     (case bt_get (known_sessions st) sid of
        None \<Rightarrow> Inl (UnknownSession sid)
      | Some owner \<Rightarrow>
          if owner \<noteq> i then Inl (SessionOwnershipMismatch i sid owner)
          else store_current_state i sid r states st)"

definition session_snapshot :: "ParticipantSessionState \<Rightarrow> ParticipantSessionSnapshot" where
  "session_snapshot st =
     \<lparr>snapshot_live_instances = live_instances st,
      snapshot_active_current_state = bt_map (\<lambda>i li.
        \<lparr>active_session_id = live_session_id li,
         active_resources = (case Option.bind (bt_get (session_current_states st) i)
              (\<lambda>sessions. bt_get sessions (live_session_id li)) of
            None \<Rightarrow> bt_empty | Some resources \<Rightarrow> resources)\<rparr>) (live_instances st)\<rparr>"

section \<open>Histories\<close>

text \<open>Any sequence of calls on one structure; a failed call leaves it unchanged.\<close>

inductive session_step :: "ParticipantSessionState \<Rightarrow> ParticipantSessionState \<Rightarrow> bool" where
  step_initial: "session_step st (set_resource_initial_state r s st)"
| step_connect: "connect i st = Inr (sid, st') \<Longrightarrow> session_step st st'"
| step_disconnect: "disconnect i sid st = Inr st' \<Longrightarrow> session_step st st'"
| step_expire: "expire_and_reconnect i old st = Inr (sid, st') \<Longrightarrow> session_step st st'"
| step_publish: "publish_current_state i sid r states st = Inr st' \<Longrightarrow> session_step st st'"
| step_inject: "inject_session_current_state i sid r states st = Inr st' \<Longrightarrow> session_step st st'"

inductive_cases session_stepE: "session_step st st'"

definition session_inv :: "ParticipantSessionState \<Rightarrow> bool" where
  "session_inv st \<longleftrightarrow>
     (\<forall>i li. bt_get (live_instances st) i = Some li \<longrightarrow>
        live_instance_id li = i \<and> bt_get (known_sessions st) (live_session_id li) = Some i) \<and>
     (\<forall>sid i. bt_get (known_sessions st) sid = Some i \<longrightarrow>
        0 < SessionId_sequence sid \<and> SessionId_sequence sid \<le> next_session_sequence st) \<and>
     (\<forall>i sessions sid. bt_get (session_current_states st) i = Some sessions \<longrightarrow> bt_contains sessions sid \<longrightarrow>
        bt_get (known_sessions st) sid = Some i)"

section \<open>Snapshots an incarnation carries over\<close>

definition reset_own_states :: "InstanceId \<Rightarrow> State \<Rightarrow> CurrentState \<Rightarrow> CurrentState" where
  "reset_own_states i initial c = CurrentState_build
     (fold (\<lambda>x. put_state (fst x) (fst (snd x)) (if fst (snd x) = i then initial else snd (snd x)))
        (replicas (CurrentState_entries c)) ReplicaStates_default)"

lemma distinct_replica_keys: "distinct (map (\<lambda>x. (fst x, fst (snd x))) (replicas m))"
  using distinct_replicas[of m] by (simp add: case_prod_unfold)

lemma replicas_mem_current:
  "(p, i, s) \<in> set (replicas (CurrentState_entries c)) \<longleftrightarrow> CurrentState_state c p i = Some s"
  by (simp add: CurrentState_entries_def CurrentState_state_def set_replicas_get)

lemma state_reset_own_states [simp]:
  "CurrentState_state (reset_own_states i initial c) p j =
     map_option (\<lambda>s. if j = i then initial else s) (CurrentState_state c p j)"
proof (cases "CurrentState_state c p j")
  case None
  then have "(fst x, fst (snd x)) \<noteq> (p, j)" if "x \<in> set (replicas (CurrentState_entries c))" for x
    using that replicas_mem_current[of "fst x" "fst (snd x)" "snd (snd x)" c] by auto
  with None show ?thesis
    by (simp add: reset_own_states_def CurrentState_state_def CurrentState_build_def get_fold_put_other)
next
  case (Some s)
  then have "(p, j, s) \<in> set (replicas (CurrentState_entries c))" by (simp add: replicas_mem_current)
  from get_fold_put[OF distinct_replica_keys this] Some show ?thesis
    by (simp add: reset_own_states_def CurrentState_state_def CurrentState_build_def)
qed

lemma carried_eq:
  "carried_current_states i previous st =
     (case previous_resources i previous st of
        None \<Rightarrow> Inr bt_empty
      | Some resources \<Rightarrow> Inr (bt_map (\<lambda>r c. reset_own_states i
            (bt_get_or (default_initial_state st) (resource_initial_states st) r) c) resources))"
proof -
  have inner: "try_fold (\<lambda>(p, stored, s) b. map_err CurrentStateError
        (set_state p stored (if stored = i then initial else s) b)) (replicas (CurrentState_entries c)) ReplicaStates_default =
     Inr (fold (\<lambda>x. put_state (fst x) (fst (snd x)) (if fst (snd x) = i then initial else snd (snd x)))
        (replicas (CurrentState_entries c)) ReplicaStates_default)" for initial c
    using try_set_states[OF distinct_replica_keys[of "CurrentState_entries c"], of ReplicaStates_default CurrentStateError]
    by (simp add: case_prod_unfold)
  let ?init = "\<lambda>r. bt_get_or (default_initial_state st) (resource_initial_states st) r"
  have "carried_current_states i previous st = (case previous_resources i previous st of None \<Rightarrow> Inr bt_empty
    | Some resources \<Rightarrow> try_fold (\<lambda>x s. Inr ((\<lambda>(r, c). bt_insert r (reset_own_states i (?init r) c)) x s)) (entries resources) bt_empty)"
    unfolding carried_current_states_def inner
    by (simp add: reset_own_states_def case_prod_unfold Let_def cong: option.case_cong)
  then show ?thesis by (simp only: try_fold_pure bt_map_fold)
qed

section \<open>Published states\<close>

lemma get_fold_insert_replicas:
  "bt_get (fold (\<lambda>(p, j, s). bt_insert (p, j) s) (replicas (CurrentState_entries c)) bt_empty) (p, j) = CurrentState_state c p j"
proof -
  let ?xs = "map (\<lambda>x. ((fst x, fst (snd x)), snd (snd x))) (replicas (CurrentState_entries c))"
  have d: "distinct (map fst ?xs)" using distinct_replica_keys by (simp add: comp_def)
  have "fold (\<lambda>(p, j, s). bt_insert (p, j) s) (replicas (CurrentState_entries c)) bt_empty = bt_collect ?xs"
    by (simp add: bt_collect_def fold_map comp_def case_prod_unfold)
  moreover have img: "((p, j), s) \<in> (\<lambda>x. ((fst x, fst (snd x)), snd (snd x))) ` A \<longleftrightarrow> (p, j, s) \<in> A"
    for s :: State and A :: "(PartitionId \<times> InstanceId \<times> State) set"
    by (auto simp: image_iff Bex_def)
  have "map_of ?xs (p, j) = Some s \<longleftrightarrow> CurrentState_state c p j = Some s" for s
    unfolding map_of_eq_Some_iff[OF d] set_map img by (rule replicas_mem_current)
  then have "map_of ?xs (p, j) = CurrentState_state c p j"
    by (rule option_eqI)
  ultimately show ?thesis
    by (simp only: bt_get_collect_distinct[OF d])
qed

lemma merged_states_get:
  "bt_get (merged_states i existing states) (p, j) =
     (if j = i \<and> bt_contains states p then bt_get states p
      else Option.bind existing (\<lambda>c. CurrentState_state c p j))"
proof -
  have own: "bt_get (fold (\<lambda>(p, s). bt_insert (p, i) s) xs m) (p, j) =
      (if j = i \<and> map_of (rev xs) p \<noteq> None then map_of (rev xs) p else bt_get m (p, j))" for xs m
    by (induction xs arbitrary: m) (auto simp: map_add_def split: option.splits)
  have "map_of (rev (entries states)) = bt_get states"
    by (simp add: map_of_rev ascending_distinct bt_get_entries)
  then show ?thesis
    by (cases existing) (auto simp: merged_states_def own bt_contains_def get_fold_insert_replicas)
qed

definition stored_state :: "InstanceId \<Rightarrow> CurrentState option \<Rightarrow> (PartitionId, State) btree \<Rightarrow> CurrentState" where
  "stored_state i existing states = CurrentState_build
     (fold (\<lambda>x. put_state (fst (fst x)) (snd (fst x)) (snd x)) (entries (merged_states i existing states)) ReplicaStates_default)"

lemma distinct_entry_keys: "distinct (map (\<lambda>x. (fst (fst x), snd (fst x))) (entries m))"
  using ascending_distinct[of "entries m"] by simp

lemma stored_state_get [simp]:
  "CurrentState_state (stored_state i existing states) p j =
     (if j = i \<and> bt_contains states p then bt_get states p
      else Option.bind existing (\<lambda>c. CurrentState_state c p j))"
proof -
  let ?m = "merged_states i existing states"
  have "CurrentState_state (stored_state i existing states) p j = bt_get ?m (p, j)"
  proof (cases "bt_get ?m (p, j)")
    case None
    then have "(fst (fst x), snd (fst x)) \<noteq> (p, j)" if "x \<in> set (entries ?m)" for x
      using that bt_entries_iff[of "fst x" "snd x" ?m] by auto
    with None show ?thesis
      by (simp add: stored_state_def CurrentState_state_def CurrentState_build_def get_fold_put_other)
  next
    case (Some s)
    then have "((p, j), s) \<in> set (entries ?m)" by (simp add: bt_entries_iff)
    from get_fold_put[OF distinct_entry_keys this] Some show ?thesis
      by (simp add: stored_state_def CurrentState_state_def CurrentState_build_def)
  qed
  then show ?thesis by (simp add: merged_states_get)
qed

lemma store_eq:
  "store_current_state i sid r states st =
     Inr (st\<lparr>session_current_states :=
       bt_entry bt_empty (bt_entry bt_empty
         (bt_insert r (stored_state i (session_resource i sid r st) states)) sid) i (session_current_states st)\<rparr>)"
proof -
  have "try_fold (\<lambda>((p, j), s) b. map_err CurrentStateError (set_state p j s b)) (entries m) ReplicaStates_default =
    Inr (fold (\<lambda>x. put_state (fst (fst x)) (snd (fst x)) (snd x)) (entries m) ReplicaStates_default)" for m
    using try_set_states[OF distinct_entry_keys[of m], of ReplicaStates_default CurrentStateError]
    by (simp add: case_prod_unfold)
  then show ?thesis by (simp add: store_current_state_def stored_state_def)
qed

section \<open>Every operation keeps the invariant\<close>

definition carried :: "InstanceId \<Rightarrow> SessionId option \<Rightarrow> ParticipantSessionState \<Rightarrow> resource_states" where
  "carried i previous st = (case previous_resources i previous st of None \<Rightarrow> bt_empty
     | Some resources \<Rightarrow> bt_map (\<lambda>r c. reset_own_states i
         (bt_get_or (default_initial_state st) (resource_initial_states st) r) c) resources)"

lemma allocate_Inr:
  "allocate_session i st = Inr (sid, st') \<longleftrightarrow>
     unat (next_session_sequence st) + 1 < 2 ^ 64 \<and> sid = SessionId (next_session_sequence st + 1) \<and>
     st' = st\<lparr>next_session_sequence := next_session_sequence st + 1,
              known_sessions := bt_insert sid i (known_sessions st)\<rparr>"
  by (auto simp: allocate_session_def checked_add_u64_def bind_result_Inr)

lemma connect_Inr:
  "connect i st = Inr (sid, st') \<longleftrightarrow> \<not> bt_contains (live_instances st) i \<and>
     (\<exists>st1. allocate_session i st = Inr (sid, st1) \<and> st' = start_session i sid (carried i None st) st1)"
  by (auto simp: connect_def carried_eq carried_def bind_result_Inr split: option.splits)

lemma expire_Inr:
  "expire_and_reconnect i old st = Inr (sid, st') \<longleftrightarrow> require_live_session i old st = Inr () \<and>
     (\<exists>st1. allocate_session i st = Inr (sid, st1) \<and> st' = start_session i sid (carried i (Some old) st) st1)"
  by (auto simp: expire_and_reconnect_def carried_eq carried_def bind_result_Inr split: option.splits)

lemma require_live_Inr:
  "require_live_session i sid st = Inr u \<longleftrightarrow> (\<exists>li. bt_get (live_instances st) i = Some li \<and> live_session_id li = sid)"
  by (auto simp: require_live_session_def split: option.splits)

lemma session_inv_live:
  "session_inv st \<Longrightarrow> bt_get (live_instances st) i = Some li \<Longrightarrow>
     live_instance_id li = i \<and> bt_get (known_sessions st) (live_session_id li) = Some i"
  unfolding session_inv_def by blast

lemma session_inv_known:
  "session_inv st \<Longrightarrow> bt_get (known_sessions st) sid = Some i \<Longrightarrow>
     0 < SessionId_sequence sid \<and> SessionId_sequence sid \<le> next_session_sequence st"
  unfolding session_inv_def by blast

lemma allocate_fresh:
  assumes "session_inv st" and "allocate_session i st = Inr (sid, st')" and "bt_get (known_sessions st) sid' = Some j"
  shows "sid' < sid"
proof -
  have "next_session_sequence st < next_session_sequence st + 1"
    using assms(2) by (simp add: allocate_Inr word_less_nat_alt unat_word_ariths)
  then show ?thesis
    using session_inv_known[OF assms(1,3)] assms(2) by (auto simp: allocate_Inr less_SessionId_def)
qed

lemma allocate_unknown:
  assumes "session_inv st" and "allocate_session i st = Inr (sid, st')"
  shows "bt_get (known_sessions st) sid = None"
  using allocate_fresh[OF assms, of sid] by (cases "bt_get (known_sessions st) sid") auto

lemma start_session_inv:
  assumes "session_inv st" and "allocate_session i st = Inr (sid, st1)"
  shows "session_inv (start_session i sid c st1)"
proof -
  have new: "bt_get (known_sessions st) sid = None" by (rule allocate_unknown[OF assms])
  have lt: "next_session_sequence st < next_session_sequence st + 1" and pos: "0 < next_session_sequence st + 1"
    using assms(2) by (auto simp: allocate_Inr word_less_nat_alt unat_word_ariths)
  have sid: "SessionId_sequence sid = next_session_sequence st + 1" using assms(2) by (simp add: allocate_Inr)
  have old: "SessionId_sequence s \<le> next_session_sequence st + 1" if "bt_get (known_sessions st) s = Some j" for s j
    using session_inv_known[OF assms(1) that] lt by (meson less_imp_le order.trans)
  have st1: "st1 = st\<lparr>next_session_sequence := next_session_sequence st + 1,
              known_sessions := bt_insert sid i (known_sessions st)\<rparr>" using assms(2) by (simp add: allocate_Inr)
  show ?thesis
    using assms(1) new old pos sid unfolding session_inv_def st1
    by (auto simp: start_session_def bt_entry_def bt_get_or_def split: if_splits option.splits)
qed

lemma store_inv:
  assumes "session_inv st" and "bt_get (known_sessions st) sid = Some i"
    and "store_current_state i sid r states st = Inr st'"
  shows "session_inv st'"
  using assms unfolding session_inv_def store_eq
  by (auto simp: bt_entry_def bt_get_or_def split: if_splits option.splits)

lemma session_step_inv: "session_inv st \<Longrightarrow> session_step st st' \<Longrightarrow> session_inv st'"
proof (elim session_stepE)
  fix r s assume "session_inv st" "st' = set_resource_initial_state r s st"
  then show ?thesis by (simp add: session_inv_def set_resource_initial_state_def)
next
  fix i sid assume "session_inv st" "connect i st = Inr (sid, st')"
  then show ?thesis by (auto simp: connect_Inr intro: start_session_inv)
next
  fix i sid assume "session_inv st" "disconnect i sid st = Inr st'"
  then show ?thesis by (auto simp: disconnect_def bind_result_Inr session_inv_def split: if_splits)
next
  fix i old sid assume "session_inv st" "expire_and_reconnect i old st = Inr (sid, st')"
  then show ?thesis by (auto simp: expire_Inr intro: start_session_inv)
next
  fix i sid r states assume "session_inv st" "publish_current_state i sid r states st = Inr st'"
  then show ?thesis
    by (auto simp: publish_current_state_def bind_result_Inr require_live_Inr intro: store_inv dest: session_inv_live)
next
  fix i sid r states assume "session_inv st" "inject_session_current_state i sid r states st = Inr st'"
  then show ?thesis
    by (auto simp: inject_session_current_state_def intro: store_inv split: option.splits if_splits)
qed

lemma session_inv_default: "session_inv ParticipantSessionState_default"
  by (simp add: session_inv_def ParticipantSessionState_default_def)

interpretation sess: invariant_system ParticipantSessionState_default session_step session_inv
  by unfold_locales (rule session_inv_default, rule session_step_inv)

section \<open>Fencing\<close>

definition fenced :: "SessionId \<Rightarrow> ParticipantSessionState \<Rightarrow> bool" where
  "fenced sid st \<longleftrightarrow> bt_contains (known_sessions st) sid \<and>
     (\<forall>i li. bt_get (live_instances st) i = Some li \<longrightarrow> live_session_id li \<noteq> sid)"

lemma fenced_start:
  assumes "session_inv st" and "fenced sid st" and "allocate_session i st = Inr (new, st1)"
  shows "fenced sid (start_session i new c st1)"
  using assms(2,3) allocate_unknown[OF assms(1,3)]
  by (auto simp: fenced_def allocate_Inr start_session_def bt_contains_def)

lemma fenced_store: "fenced sid st \<Longrightarrow> store_current_state i s r states st = Inr st' \<Longrightarrow> fenced sid st'"
proof -
  assume f: "fenced sid st" and "store_current_state i s r states st = Inr st'"
  then have "live_instances st' = live_instances st \<and> known_sessions st' = known_sessions st"
    by (auto simp: store_eq)
  with f show ?thesis by (simp add: fenced_def)
qed

lemma fenced_subset:
  "fenced sid st \<Longrightarrow> known_sessions st' = known_sessions st \<Longrightarrow>
     (\<And>i li. bt_get (live_instances st') i = Some li \<Longrightarrow> bt_get (live_instances st) i = Some li) \<Longrightarrow> fenced sid st'"
  unfolding fenced_def by metis

lemma fenced_step: "session_inv st \<Longrightarrow> fenced sid st \<Longrightarrow> session_step st st' \<Longrightarrow> fenced sid st'"
  by (elim session_stepE)
    (auto simp: connect_Inr expire_Inr disconnect_def publish_current_state_def inject_session_current_state_def
      bind_result_Inr set_resource_initial_state_def
      intro: fenced_start fenced_store elim: fenced_subset split: option.splits if_splits)

section \<open>What a snapshot shows\<close>

definition snapshot_session :: "ParticipantSessionSnapshot \<Rightarrow> InstanceId \<Rightarrow> SessionId option" where
  "snapshot_session snap i = map_option active_session_id (bt_get (snapshot_active_current_state snap) i)"

definition snapshot_state ::
    "ParticipantSessionSnapshot \<Rightarrow> InstanceId \<Rightarrow> ResourceId \<Rightarrow> PartitionId \<Rightarrow> InstanceId \<Rightarrow> State option" where
  "snapshot_state snap i r p j =
     Option.bind (bt_get (snapshot_active_current_state snap) i) (\<lambda>a.
     Option.bind (bt_get (active_resources a) r) (\<lambda>c. CurrentState_state c p j))"

lemma snapshot_session_live:
  "snapshot_session (session_snapshot st) i = map_option live_session_id (bt_get (live_instances st) i)"
  by (simp add: snapshot_session_def session_snapshot_def option.map_comp comp_def)

lemma snapshot_state_live:
  "snapshot_state (session_snapshot st) i r p j =
     Option.bind (bt_get (live_instances st) i) (\<lambda>li.
     Option.bind (session_resource i (live_session_id li) r st) (\<lambda>c. CurrentState_state c p j))"
  by (cases "bt_get (live_instances st) i"; cases "bt_get (session_current_states st) i")
    (auto simp: snapshot_state_def session_snapshot_def session_resource_def split: option.splits)

lemma snapshot_eqI:
  assumes "live_instances st = live_instances st'"
    and "\<And>i li. bt_get (live_instances st) i = Some li \<Longrightarrow>
      Option.bind (bt_get (session_current_states st) i) (\<lambda>ss. bt_get ss (live_session_id li)) =
      Option.bind (bt_get (session_current_states st') i) (\<lambda>ss. bt_get ss (live_session_id li))"
  shows "session_snapshot st = session_snapshot st'"
proof -
  have "bt_get (snapshot_active_current_state (session_snapshot st)) i =
      bt_get (snapshot_active_current_state (session_snapshot st')) i" for i
    using assms by (cases "bt_get (live_instances st) i") (simp_all add: session_snapshot_def)
  then have "snapshot_active_current_state (session_snapshot st) = snapshot_active_current_state (session_snapshot st')"
    by (rule bt_eqI)
  then show ?thesis using assms(1) by (simp add: session_snapshot_def)
qed

lemma session_resource_start:
  "session_resource i sid r (start_session i sid c st) = bt_get c r"
  "i' \<noteq> i \<Longrightarrow> session_resource i' s r (start_session i sid c st) = session_resource i' s r st"
  by (simp_all add: session_resource_def start_session_def bt_entry_def)

lemma session_resource_alloc:
  "allocate_session i st = Inr (sid, st') \<Longrightarrow> session_resource j s r st' = session_resource j s r st"
  by (auto simp: allocate_Inr session_resource_def)

lemma carried_get:
  "bt_get (carried i previous st) r = map_option
     (reset_own_states i (bt_get_or (default_initial_state st) (resource_initial_states st) r))
     (Option.bind (previous_resources i previous st) (\<lambda>rs. bt_get rs r))"
  by (simp add: carried_def split: option.splits)

section \<open>A concrete history\<close>

text \<open>One participant connects, publishes a leader replica, expires and disconnects.\<close>

definition demo_connected :: ParticipantSessionState where
  "demo_connected = snd (projr (connect (InstanceId ''a'') ParticipantSessionState_default))"

definition demo_published :: ParticipantSessionState where
  "demo_published = projr (publish_current_state (InstanceId ''a'') (SessionId 1) (ResourceId ''r'')
     (bt_insert (PartitionId ''p'') (State ''LEADER'') bt_empty) demo_connected)"

definition demo_reconnected :: ParticipantSessionState where
  "demo_reconnected = snd (projr (expire_and_reconnect (InstanceId ''a'') (SessionId 1) demo_published))"

lemma is_Inr_projr: "(case r of Inl e \<Rightarrow> False | Inr x \<Rightarrow> P x) \<Longrightarrow> r = Inr (projr r) \<and> P (projr r)"
  by (cases r) auto

lemma demo_steps:
  "connect (InstanceId ''a'') ParticipantSessionState_default = Inr (SessionId 1, demo_connected)"
  "publish_current_state (InstanceId ''a'') (SessionId 1) (ResourceId ''r'')
     (bt_insert (PartitionId ''p'') (State ''LEADER'') bt_empty) demo_connected = Inr demo_published"
  "expire_and_reconnect (InstanceId ''a'') (SessionId 1) demo_published = Inr (SessionId 2, demo_reconnected)"
proof -
  have "case connect (InstanceId ''a'') ParticipantSessionState_default of Inl e \<Rightarrow> False | Inr x \<Rightarrow> fst x = SessionId 1"
    by code_simp
  from is_Inr_projr[OF this]
  show "connect (InstanceId ''a'') ParticipantSessionState_default = Inr (SessionId 1, demo_connected)"
    by (metis demo_connected_def prod.collapse)
  have "case publish_current_state (InstanceId ''a'') (SessionId 1) (ResourceId ''r'')
     (bt_insert (PartitionId ''p'') (State ''LEADER'') bt_empty) demo_connected of Inl e \<Rightarrow> False | Inr x \<Rightarrow> True"
    by code_simp
  from is_Inr_projr[OF this]
  show "publish_current_state (InstanceId ''a'') (SessionId 1) (ResourceId ''r'')
     (bt_insert (PartitionId ''p'') (State ''LEADER'') bt_empty) demo_connected = Inr demo_published"
    by (simp add: demo_published_def)
  have "case expire_and_reconnect (InstanceId ''a'') (SessionId 1) demo_published of Inl e \<Rightarrow> False | Inr x \<Rightarrow> fst x = SessionId 2"
    by code_simp
  from is_Inr_projr[OF this]
  show "expire_and_reconnect (InstanceId ''a'') (SessionId 1) demo_published = Inr (SessionId 2, demo_reconnected)"
    by (metis demo_reconnected_def prod.collapse)
qed

lemma demo_reachable:
  "session_step\<^sup>*\<^sup>* ParticipantSessionState_default demo_connected"
  "session_step\<^sup>*\<^sup>* ParticipantSessionState_default demo_published"
  "session_step\<^sup>*\<^sup>* ParticipantSessionState_default demo_reconnected"
proof -
  show c: "session_step\<^sup>*\<^sup>* ParticipantSessionState_default demo_connected"
    by (rule r_into_rtranclp) (rule step_connect[OF demo_steps(1)])
  show p: "session_step\<^sup>*\<^sup>* ParticipantSessionState_default demo_published"
    by (rule rtranclp.rtrancl_into_rtrancl[OF c]) (rule step_publish[OF demo_steps(2)])
  show "session_step\<^sup>*\<^sup>* ParticipantSessionState_default demo_reconnected"
    by (rule rtranclp.rtrancl_into_rtrancl[OF p]) (rule step_expire[OF demo_steps(3)])
qed

lemma demo_snapshots:
  "snapshot_state (session_snapshot demo_published) (InstanceId ''a'') (ResourceId ''r'') (PartitionId ''p'') (InstanceId ''a'')
     = Some (State ''LEADER'')"
  "bt_get_or (default_initial_state demo_published) (resource_initial_states demo_published) (ResourceId ''r'') = State ''OFFLINE''"
  "bt_contains (known_sessions demo_reconnected) (SessionId 1)"
  "map fst (entries (live_instances demo_reconnected)) = [InstanceId ''a'']"
  "snapshot_session (session_snapshot demo_reconnected) (InstanceId ''a'') = Some (SessionId 2)"
  by code_simp+

lemma demo_fenced: "snapshot_session (session_snapshot demo_reconnected) i \<noteq> Some (SessionId 1)"
proof (cases "i = InstanceId ''a''")
  case False
  then have "i \<notin> set (map fst (entries (live_instances demo_reconnected)))" by (simp add: demo_snapshots)
  then show ?thesis by (simp add: snapshot_session_live bt_keys_iff[symmetric] bt_keys_def)
     (metis bt_get_entries map_of_eq_None_iff set_map option.distinct(1))
qed (simp add: demo_snapshots)

section \<open>Properties\<close>

text \<open>C26: Session fencing. In any history of the model, a session that has been issued and is
  no longer the live one stays fenced forever: every later attempt to publish, to
  disconnect or to reconnect under it is refused, whatever calls come in between.\<close>

theorem stale_session_fenced:
  assumes "session_step\<^sup>*\<^sup>* ParticipantSessionState_default st" and "session_step\<^sup>*\<^sup>* st st'"
    and "bt_contains (known_sessions st) sid"
    and "\<forall>i. snapshot_session (session_snapshot st) i \<noteq> Some sid"
  shows "(\<exists>e \<in> {NotLive i, SessionMismatch i (live_session_id (the (bt_get (live_instances st') i))) sid}.
            publish_current_state i sid r states st' = Inl e \<and> disconnect i sid st' = Inl e \<and>
            expire_and_reconnect i sid st' = Inl e)"
proof -
  have "fenced sid st" using assms(3,4) by (auto simp: fenced_def snapshot_session_live)
  with sess.steps_keep[OF assms(2) sess.reachable_inv[OF assms(1)]] have "fenced sid st'"
    using fenced_step by blast
  then show ?thesis
    by (auto simp: fenced_def publish_current_state_def disconnect_def expire_and_reconnect_def
        require_live_session_def split: option.splits)
qed

theorem stale_session_fenced_witness:
  "\<exists>e. publish_current_state (InstanceId ''a'') (SessionId 1) (ResourceId ''r'') bt_empty demo_reconnected = Inl e"
  using stale_session_fenced[OF demo_reachable(3) rtranclp.rtrancl_refl demo_snapshots(3)] demo_fenced by blast

text \<open>A new incarnation, by connecting or by expiry and reconnection, gets a session
  above every session issued before, becomes the live session of its instance, and
  leaves the liveness and states of the other instances alone.\<close>

lemma new_incarnation_fresh:
  assumes "session_step\<^sup>*\<^sup>* ParticipantSessionState_default st"
    and "connect i st = Inr (sid, st') \<or> expire_and_reconnect i old st = Inr (sid, st')"
  shows "(\<forall>s. bt_contains (known_sessions st) s \<longrightarrow> s < sid) \<and>
    snapshot_session (session_snapshot st') i = Some sid \<and>
    (\<forall>j r p k. j \<noteq> i \<longrightarrow> snapshot_session (session_snapshot st') j = snapshot_session (session_snapshot st) j \<and>
       snapshot_state (session_snapshot st') j r p k = snapshot_state (session_snapshot st) j r p k)"
proof -
  obtain st1 c where a: "allocate_session i st = Inr (sid, st1)" and st': "st' = start_session i sid c st1"
    using assms(2) by (auto simp: connect_Inr expire_Inr)
  have "session_inv st" by (rule sess.reachable_inv[OF assms(1)])
  note fresh = allocate_fresh[OF this a]
  have live: "bt_get (live_instances st') j = (if j = i then Some \<lparr>live_instance_id = i, live_session_id = sid\<rparr>
      else bt_get (live_instances st) j)" for j
    using a by (simp add: st' start_session_def allocate_Inr)
  have res: "session_resource j s r st' = session_resource j s r st" if "j \<noteq> i" for j s r
    using that by (simp add: st' session_resource_start session_resource_alloc[OF a])
  show ?thesis
    using fresh by (auto simp: live res snapshot_session_live snapshot_state_live bt_contains_def)
qed

text \<open>Reconnecting after an expiry carries the partition membership of the expired session
  over and resets the instance's own replicas to the initial state configured for
  their resource; nothing else of the records changes.\<close>

lemma reconnect_resets_own_replicas:
  assumes "expire_and_reconnect i old st = Inr (sid, st')"
  shows "snapshot_state (session_snapshot st') i r p j =
    map_option (\<lambda>s. if j = i then bt_get_or (default_initial_state st) (resource_initial_states st) r else s)
      (snapshot_state (session_snapshot st) i r p j)"
proof -
  obtain st1 li where a: "allocate_session i st = Inr (sid, st1)" and st': "st' = start_session i sid (carried i (Some old) st) st1"
    and li: "bt_get (live_instances st) i = Some li" "live_session_id li = old"
    using assms by (auto simp: expire_Inr require_live_Inr)
  have "bt_get (live_instances st') i = Some \<lparr>live_instance_id = i, live_session_id = sid\<rparr>"
    by (simp add: st' start_session_def)
  then have "snapshot_state (session_snapshot st') i r p j =
      Option.bind (bt_get (carried i (Some old) st) r) (\<lambda>c. CurrentState_state c p j)"
    by (simp add: snapshot_state_live st' session_resource_start)
  also have "\<dots> = map_option (\<lambda>s. if j = i then bt_get_or (default_initial_state st) (resource_initial_states st) r else s)
      (Option.bind (session_resource i old r st) (\<lambda>c. CurrentState_state c p j))"
    by (cases "session_resource i old r st") (auto simp: carried_get previous_resources_def session_resource_def
        split: Option.bind_splits)
  finally show ?thesis using li by (simp add: snapshot_state_live)
qed

text \<open>A publication is accepted exactly from the live session of its instance; it
  then sets the instance's own published replicas and keeps every other record visible
  in the snapshot, and it never fails on the stored records.\<close>

lemma publish_visible:
  "case publish_current_state i sid r states st of
     Inl e \<Rightarrow> snapshot_session (session_snapshot st) i \<noteq> Some sid
   | Inr st' \<Rightarrow> snapshot_session (session_snapshot st) i = Some sid \<and>
      (\<forall>k r' p j. snapshot_state (session_snapshot st') k r' p j =
         (if k = i \<and> r' = r \<and> j = i \<and> bt_contains states p then bt_get states p
          else snapshot_state (session_snapshot st) k r' p j))"
proof (cases "require_live_session i sid st")
  case (Inl e)
  then have "\<not> (\<exists>li. bt_get (live_instances st) i = Some li \<and> live_session_id li = sid)"
    using require_live_Inr[of i sid st "()"] by auto
  with Inl show ?thesis by (auto simp: publish_current_state_def snapshot_session_live)
next
  case (Inr u)
  then obtain li where li: "bt_get (live_instances st) i = Some li" "live_session_id li = sid"
    by (auto simp: require_live_Inr)
  define st' where "st' = st\<lparr>session_current_states :=
       bt_entry bt_empty (bt_entry bt_empty
         (bt_insert r (stored_state i (session_resource i sid r st) states)) sid) i (session_current_states st)\<rparr>"
  have res: "session_resource k s r' st' = (if k = i \<and> s = sid \<and> r' = r
      then Some (stored_state i (session_resource i sid r st) states) else session_resource k s r' st)" for k s r'
    by (auto simp: session_resource_def st'_def bt_entry_def bt_get_or_def split: option.splits)
  have live: "live_instances st' = live_instances st" by (simp add: st'_def)
  have "snapshot_state (session_snapshot st') k r' p j =
         (if k = i \<and> r' = r \<and> j = i \<and> bt_contains states p then bt_get states p
          else snapshot_state (session_snapshot st) k r' p j)" for k r' p j
    using li live by (cases "k = i") (simp_all add: snapshot_state_live res)
  with Inr li show ?thesis
    by (simp add: publish_current_state_def store_eq st'_def[symmetric] snapshot_session_live)
qed

text \<open>Records injected under a session that is not the live one of its instance are
  stored but never reach a snapshot.\<close>

lemma stale_injection_invisible:
  assumes "inject_session_current_state i sid r states st = Inr st'"
    and "snapshot_session (session_snapshot st) i \<noteq> Some sid"
  shows "session_snapshot st' = session_snapshot st"
proof -
  have st': "store_current_state i sid r states st = Inr st'"
    using assms(1) by (auto simp: inject_session_current_state_def split: option.splits if_splits)
  show ?thesis
    using assms(2) st' by (intro snapshot_eqI)
      (auto simp: store_eq snapshot_session_live bt_entry_def bt_get_or_def split: option.splits)
qed

end
