(* ===== verification/Semi_Auto.thy ===== *)
theory Semi_Auto
  imports Replica_State
begin

text \<open>
  The SEMI_AUTO rebalancer (\<^verbatim>\<open>src/rebalance/semi_auto.rs\<close>): from explicit preference
  lists, live instances and current states to a desired state per replica. The nested
  loops of \<open>compute_semi_auto_best_possible_state\<close> are one definition each, from the
  inside out.
\<close>

section \<open>Definitions\<close>

datatype SemiAutoError = ReplicaStateErr ReplicaStateError

definition SemiAutoError_fmt :: "SemiAutoError \<Rightarrow> string" where
  "SemiAutoError_fmt e = (case e of ReplicaStateErr err \<Rightarrow> ReplicaStateError_fmt err)"

definition state_count :: "StateCardinality option \<Rightarrow> nat \<Rightarrow> nat \<Rightarrow> nat" where
  "state_count cardinality live_candidate_count preference_list_count =
     (case cardinality of
        Some (Exact n) \<Rightarrow> unat n
      | Some ReplicaCount \<Rightarrow> preference_list_count
      | Some NodeCount \<Rightarrow> live_candidate_count
      | Some Unbounded \<Rightarrow> 0
      | None \<Rightarrow> 0)"

definition current_state_priority :: "instance_states option \<Rightarrow> StateModelDefinition \<Rightarrow> InstanceId \<Rightarrow> nat" where
  "current_state_priority current m i =
     (case Option.bind (Option.bind current (\<lambda>states. bt_get states i))
             (\<lambda>s. position (\<lambda>candidate. candidate = s) (states_by_priority m)) of
        None \<Rightarrow> usize_max | Some n \<Rightarrow> n)"

definition is_second_top_state :: "State \<Rightarrow> StateModelDefinition \<Rightarrow> bool" where
  "is_second_top_state s m =
     list_ex (\<lambda>candidate. next_state_toward m candidate (highest_priority_state m) = Some (highest_priority_state m)
                 \<and> candidate = s) (states_by_priority m)"

text \<open>The iterator over candidates is consumed: the second component is what is left of it.\<close>

fun next_unassigned :: "InstanceId bset \<Rightarrow> InstanceId list \<Rightarrow> InstanceId option \<times> InstanceId list" where
  "next_unassigned assigned [] = (None, [])"
| "next_unassigned assigned (c # cs) =
     (if \<not> bt_contains assigned c then (Some c, cs) else next_unassigned assigned cs)"

definition adjust_instance_if_necessary ::
    "InstanceId \<Rightarrow> InstanceId bset \<Rightarrow> nat \<Rightarrow> nat \<Rightarrow> bool \<Rightarrow> bool \<Rightarrow> InstanceId list \<Rightarrow> InstanceId \<times> InstanceId list" where
  "adjust_instance_if_necessary proposed assigned remaining_candidates remaining_requests is_top needs_adjustment prio =
     (if remaining_requests < remaining_candidates \<and> is_top \<and> needs_adjustment
      then (case next_unassigned assigned prio of
          (Some c, rest) \<Rightarrow> (c, rest)
        | (None, rest) \<Rightarrow> (proposed, rest))
      else (proposed, prio))"

text \<open>
  \<open>while state_count > 0\<close>: the queue of candidates, the iterator by current priority, the
  assigned set and the output are the loop's state.
\<close>

function (sequential) assign_loop ::
    "StateModelDefinition \<Rightarrow> PartitionId \<Rightarrow> instance_states option \<Rightarrow> nat \<Rightarrow> State \<Rightarrow> nat \<Rightarrow>
     InstanceId list \<Rightarrow> InstanceId list \<Rightarrow> InstanceId bset \<Rightarrow> ReplicaStates \<Rightarrow>
     SemiAutoError + InstanceId list \<times> InstanceId list \<times> InstanceId bset \<times> ReplicaStates" where
  "assign_loop m p current total_candidates requested 0 queue prio assigned output = Inr (queue, prio, assigned, output)"
| "assign_loop m p current total_candidates requested (Suc n) [] prio assigned output = Inr ([], prio, assigned, output)"
| "assign_loop m p current total_candidates requested (Suc n) (peek # rest) prio assigned output =
     (if bt_contains assigned peek
      then assign_loop m p current total_candidates requested (Suc n) rest prio assigned output
      else
        (let current_instance_state =
               (case Option.bind current (\<lambda>states. bt_get states peek) of
                  None \<Rightarrow> model_initial_state m | Some s \<Rightarrow> s);
             (proposed, prio') = adjust_instance_if_necessary peek assigned (total_candidates - bt_len assigned) (Suc n)
               (requested = highest_priority_state m)
               (current_instance_state \<noteq> requested \<and> \<not> is_second_top_state current_instance_state m) prio
         in bind_result (map_err ReplicaStateErr (set_state p proposed requested output))
              (\<lambda>output'. assign_loop m p current total_candidates requested n
                 (if proposed = peek then rest else peek # rest) prio' (bs_insert proposed assigned) output')))"
  by pat_completeness auto
termination
  by (relation "measure (\<lambda>(m, p, current, total_candidates, requested, n, queue, prio, assigned, output). n + length queue)") auto

text \<open>The same loop without patterns on the remaining count, for evaluation.\<close>

lemma assign_loop_code [code]:
  "assign_loop m p current total_candidates requested n queue prio assigned output =
     (if n = 0 then Inr (queue, prio, assigned, output)
      else case queue of
        [] \<Rightarrow> Inr ([], prio, assigned, output)
      | peek # rest \<Rightarrow>
          if bt_contains assigned peek
          then assign_loop m p current total_candidates requested n rest prio assigned output
          else
            (let current_instance_state =
                   (case Option.bind current (\<lambda>states. bt_get states peek) of
                      None \<Rightarrow> model_initial_state m | Some s \<Rightarrow> s);
                 (proposed, prio') = adjust_instance_if_necessary peek assigned (total_candidates - bt_len assigned) n
                   (requested = highest_priority_state m)
                   (current_instance_state \<noteq> requested \<and> \<not> is_second_top_state current_instance_state m) prio
             in bind_result (map_err ReplicaStateErr (set_state p proposed requested output))
                  (\<lambda>output'. assign_loop m p current total_candidates requested (n - 1)
                     (if proposed = peek then rest else peek # rest) prio' (bs_insert proposed assigned) output')))"
  by (cases n; cases queue) simp_all

definition drop_unpreferred ::
    "PartitionId \<Rightarrow> InstanceId list \<Rightarrow> instance_states option \<Rightarrow> ReplicaStates \<Rightarrow> SemiAutoError + ReplicaStates" where
  "drop_unpreferred p pl current output =
     (case current of
        None \<Rightarrow> Inr output
      | Some states \<Rightarrow>
          try_fold (\<lambda>i out. if i \<notin> set pl then map_err ReplicaStateErr (set_state p i (State ''DROPPED'') out) else Inr out)
            (bt_keys states) output)"

definition assign_partition ::
    "CurrentState \<Rightarrow> InstanceId bset \<Rightarrow> StateModelDefinition \<Rightarrow> PartitionId \<times> InstanceId list \<Rightarrow> ReplicaStates \<Rightarrow>
     SemiAutoError + ReplicaStates" where
  "assign_partition current_state live m entry output =
     (case entry of (p, pl) \<Rightarrow>
       let current = bt_get (CurrentState_entries current_state) p;
           active = filter (bt_contains live) pl;
           prio = sort_by (\<lambda>a b. current_state_priority current m a \<le> current_state_priority current m b) active;
           total_candidates = length active
       in bind_result (drop_unpreferred p pl current output) (\<lambda>output.
          bind_result
            (try_fold (\<lambda>requested (queue, prio, assigned, out).
               assign_loop m p current total_candidates requested
                 (state_count (cardinality_for m requested) total_candidates (length pl)) queue prio assigned out)
               (states_by_priority m) (active, prio, bt_empty, output))
            (\<lambda>(queue, prio, assigned, out). Inr out)))"

definition drain_removed :: "IdealState \<Rightarrow> CurrentState \<Rightarrow> ReplicaStates \<Rightarrow> SemiAutoError + ReplicaStates" where
  "drain_removed ideal current_state output =
     try_fold (\<lambda>(p, current) out.
        if preference_list ideal p = None
        then try_fold (\<lambda>i out. map_err ReplicaStateErr (set_state p i (State ''DROPPED'') out)) (bt_keys current) out
        else Inr out)
       (entries (CurrentState_entries current_state)) output"

definition compute_semi_auto_best_possible_state ::
    "IdealState \<Rightarrow> CurrentState \<Rightarrow> InstanceId bset \<Rightarrow> StateModelDefinition \<Rightarrow> SemiAutoError + BestPossibleState" where
  "compute_semi_auto_best_possible_state ideal current_state live m =
     bind_result (try_fold (assign_partition current_state live m) (entries (preference_lists ideal)) ReplicaStates_default)
       (\<lambda>output. bind_result (drain_removed ideal current_state output)
       (\<lambda>output. Inr (BestPossibleState_build output)))"

section \<open>The assignment loop\<close>

text \<open>
  What holds around the loop for one partition: unassigned active instances are still
  queued, and exactly the assigned ones have an output state.
\<close>

definition assign_inv ::
    "PartitionId \<Rightarrow> InstanceId set \<Rightarrow> InstanceId list \<Rightarrow> InstanceId list \<Rightarrow> InstanceId bset \<Rightarrow> ReplicaStates \<Rightarrow> bool" where
  "assign_inv p A queue prio assigned out \<longleftrightarrow>
     set queue \<subseteq> A \<and> set prio \<subseteq> A \<and> finite A \<and>
     (\<forall>i. bt_contains assigned i \<longrightarrow> i \<in> A) \<and>
     (\<forall>i \<in> A. \<not> bt_contains assigned i \<longrightarrow> i \<in> set queue) \<and>
     (\<forall>i \<in> A. ReplicaStates_get out p i \<noteq> None \<longleftrightarrow> bt_contains assigned i)"

abbreviation members :: "'k::linorder bset \<Rightarrow> 'k set" where
  "members s \<equiv> {k. bt_contains s k}"

lemma next_unassigned_Some:
  "next_unassigned assigned prio = (Some c, rest) \<Longrightarrow>
     c \<in> set prio \<and> \<not> bt_contains assigned c \<and> set rest \<subseteq> set prio"
  by (induction prio) (auto split: if_splits)

lemma next_unassigned_None: "next_unassigned assigned prio = (None, rest) \<Longrightarrow> rest = []"
  by (induction prio) (auto split: if_splits)

lemma adjust_spec:
  assumes "adjust_instance_if_necessary peek assigned a b c d prio = (proposed, prio')"
    and "\<not> bt_contains assigned peek"
  shows "proposed \<in> insert peek (set prio) \<and> \<not> bt_contains assigned proposed \<and> set prio' \<subseteq> set prio"
  using assms next_unassigned_Some next_unassigned_None
  by (fastforce simp: adjust_instance_if_necessary_def split: if_splits prod.splits option.splits)

lemma assign_inv_insert:
  assumes "assign_inv p A (peek # rest) prio assigned out" and "proposed \<in> insert peek (set prio)"
    and "\<not> bt_contains assigned proposed" and "set prio' \<subseteq> set prio"
  shows "assign_inv p A (if proposed = peek then rest else peek # rest) prio' (bs_insert proposed assigned)
     (put_state p proposed requested out)"
  using assms unfolding assign_inv_def by auto

lemma members_insert: "members (bs_insert k s) = insert k (members s)"
  by auto

lemma min_step: "finite M \<Longrightarrow> k \<notin> M \<Longrightarrow> insert k M \<subseteq> A \<Longrightarrow> finite A \<Longrightarrow>
    min (card A) (card (insert k M) + n) = min (card A) (card M + Suc n)"
  by simp

definition assign_post ::
    "PartitionId \<Rightarrow> State \<Rightarrow> InstanceId set \<Rightarrow> nat \<Rightarrow> InstanceId bset \<Rightarrow> ReplicaStates \<Rightarrow> InstanceId bset \<Rightarrow> ReplicaStates \<Rightarrow> bool" where
  "assign_post p requested A n assigned out assigned' out' \<longleftrightarrow>
     members assigned \<subseteq> members assigned' \<and>
     card (members assigned') = min (card A) (card (members assigned) + n) \<and>
     (\<forall>p' i. ReplicaStates_get out' p' i =
        (if p' = p \<and> i \<in> members assigned' - members assigned then Some requested else ReplicaStates_get out p' i))"

lemma assign_loop_post:
  assumes "assign_inv p A queue prio assigned out"
  shows "\<exists>queue' prio' assigned' out'.
     assign_loop m p current total_candidates requested n queue prio assigned out = Inr (queue', prio', assigned', out') \<and>
     assign_inv p A queue' prio' assigned' out' \<and> assign_post p requested A n assigned out assigned' out'"
  using assms
proof (induction m p current total_candidates requested n queue prio assigned out rule: assign_loop.induct)
  case (1 m p current total_candidates requested queue prio assigned out0)
  have "card (members assigned) \<le> card A"
    using 1 by (auto simp: assign_inv_def intro!: card_mono)
  with 1 show ?case by (auto simp: assign_post_def)
next
  case (2 m p current total_candidates requested n prio assigned out0)
  then have "members assigned = A" by (auto simp: assign_inv_def)
  with 2 show ?case by (auto simp: assign_post_def)
next
  case (3 m p current total_candidates requested n peek rest prio assigned out0)
  show ?case
  proof (cases "bt_contains assigned peek")
    case True
    then have "assign_inv p A rest prio assigned out0"
      using 3(3) by (auto simp: assign_inv_def)
    with 3(1)[OF True] True show ?thesis by simp
  next
    case False
    define cis where "cis = (case Option.bind current (\<lambda>states. bt_get states peek) of
                  None \<Rightarrow> model_initial_state m | Some s \<Rightarrow> s)"
    obtain proposed prio' where adj: "adjust_instance_if_necessary peek assigned (total_candidates - bt_len assigned) (Suc n)
         (requested = highest_priority_state m) (cis \<noteq> requested \<and> \<not> is_second_top_state cis m) prio = (proposed, prio')"
      by (meson surj_pair)
    note spec = adjust_spec[OF adj False]
    have inA: "proposed \<in> A" using spec 3(3) by (auto simp: assign_inv_def)
    have set: "set_state p proposed requested out0 = Inr (put_state p proposed requested out0)"
      using spec 3(3) inA by (auto simp: assign_inv_def)
    let ?queue = "if proposed = peek then rest else peek # rest"
    have inv: "assign_inv p A ?queue prio' (bs_insert proposed assigned) (put_state p proposed requested out0)"
      using assign_inv_insert[OF 3(3)] spec by blast
    note IH = 3(2)[OF False cis_def, of "(proposed, prio')" proposed prio', unfolded adj, OF refl refl _ inv]
    obtain queue'' prio'' assigned'' out'' where r:
      "assign_loop m p current total_candidates requested n ?queue prio' (bs_insert proposed assigned) (put_state p proposed requested out0)
         = Inr (queue'', prio'', assigned'', out'')"
      "assign_inv p A queue'' prio'' assigned'' out''"
      "assign_post p requested A n (bs_insert proposed assigned) (put_state p proposed requested out0) assigned'' out''"
      using IH set by auto
    have fin: "finite (members assigned)" "members assigned \<subseteq> A" "finite A"
      using 3(3) by (auto simp: assign_inv_def intro: finite_subset)
    have "assign_post p requested A (Suc n) assigned out0 assigned'' out''"
      using r(3) spec min_step[OF fin(1) _ _ fin(3), of proposed n] fin inA
      unfolding assign_post_def members_insert by auto
    moreover have "assign_loop m p current total_candidates requested (Suc n) (peek # rest) prio assigned out0 =
        Inr (queue'', prio'', assigned'', out'')"
      using False adj set r(1) by (simp add: cis_def[symmetric] set_state_eq)
    ultimately show ?thesis using r(2) by blast
  qed
qed

section \<open>One partition\<close>

definition states_post ::
    "PartitionId \<Rightarrow> (State \<Rightarrow> nat) \<Rightarrow> InstanceId set \<Rightarrow> State list \<Rightarrow> InstanceId bset \<Rightarrow> ReplicaStates \<Rightarrow>
     InstanceId bset \<Rightarrow> ReplicaStates \<Rightarrow> bool" where
  "states_post p cnt A states assigned out assigned' out' \<longleftrightarrow>
     members assigned \<subseteq> members assigned' \<and>
     (\<forall>p' i. \<not> (p' = p \<and> i \<in> members assigned' - members assigned) \<longrightarrow>
        ReplicaStates_get out' p' i = ReplicaStates_get out p' i) \<and>
     (\<forall>i \<in> members assigned' - members assigned. ReplicaStates_get out' p i \<in> Some ` set states) \<and>
     (\<forall>k < length states. card {i \<in> members assigned' - members assigned. ReplicaStates_get out' p i = Some (states ! k)} =
        min (cnt (states ! k)) (card A - (card (members assigned) + sum_list (map cnt (take k states)))))"

lemma states_post_Cons:
  assumes inv: "assign_inv p A q pr as out" and inv1: "assign_inv p A q1 pr1 as1 out1"
    and post: "assign_post p s A (cnt s) as out as1 out1"
    and rest: "states_post p cnt A states as1 out1 as2 out2" and new: "s \<notin> set states"
  shows "states_post p cnt A (s # states) as out as2 out2"
proof -
  let ?g = "ReplicaStates_get out2 p"
  have sub: "members as \<subseteq> members as1" "members as1 \<subseteq> members as2" "members as1 \<subseteq> A" "finite A"
    using post rest inv1 by (auto simp: assign_post_def states_post_def assign_inv_def)
  have c1: "card (members as1) = min (card A) (card (members as) + cnt s)" using post by (simp add: assign_post_def)
  have c0: "card (members as) \<le> card A" by (rule card_mono) (use sub in auto)
  have old: "?g i = Some s" if "i \<in> members as1 - members as" for i
    using that post rest by (simp add: assign_post_def states_post_def)
  have later: "?g i \<in> Some ` set states" if "i \<in> members as2 - members as1" for i
    using that rest by (auto simp: states_post_def)
  have keep: "ReplicaStates_get out2 p' i = ReplicaStates_get out p' i" if "\<not> (p' = p \<and> i \<in> members as2 - members as)" for p' i
  proof -
    have "\<not> (p' = p \<and> i \<in> members as1 - members as)" "\<not> (p' = p \<and> i \<in> members as2 - members as1)"
      using that sub by auto
    then show ?thesis using post rest unfolding assign_post_def states_post_def by metis
  qed
  have range: "?g i \<in> Some ` set (s # states)" if "i \<in> members as2 - members as" for i
    using old[of i] later[of i] that by (cases "i \<in> members as1") auto
  have zero: "{i \<in> members as2 - members as. ?g i = Some s} = members as1 - members as"
  proof (intro equalityI subsetI)
    fix i assume "i \<in> {i \<in> members as2 - members as. ?g i = Some s}"
    then show "i \<in> members as1 - members as" using later[of i] new by auto
  qed (use old sub in auto)
  have "card (members as1 - members as) = min (cnt s) (card A - card (members as))"
    using c0 c1 sub by (subst card_Diff_subset) (auto intro: finite_subset)
  moreover have "card {i \<in> members as2 - members as. ?g i = Some (states ! k)} =
      min (cnt (states ! k)) (card A - (card (members as) + (cnt s + sum_list (map cnt (take k states)))))"
    if k: "k < length states" for k
  proof -
    have "states ! k \<noteq> s" using new k by auto
    then have "{i \<in> members as2 - members as. ?g i = Some (states ! k)} = {i \<in> members as2 - members as1. ?g i = Some (states ! k)}"
      using old sub by auto
    then have "card {i \<in> members as2 - members as. ?g i = Some (states ! k)} =
        min (cnt (states ! k)) (card A - (card (members as1) + sum_list (map cnt (take k states))))"
      using rest k by (simp add: states_post_def)
    moreover have "card A - (card (members as1) + x) = card A - (card (members as) + (cnt s + x))" for x
      using c1 by (simp add: min_def add.assoc)
    ultimately show ?thesis by simp
  qed
  ultimately have "card {i \<in> members as2 - members as. ?g i = Some ((s # states) ! k)} =
      min (cnt ((s # states) ! k)) (card A - (card (members as) + sum_list (map cnt (take k (s # states)))))"
    if "k < length (s # states)" for k
    using that zero by (cases k) auto
  then show ?thesis using sub keep range unfolding states_post_def by blast
qed

lemma states_loop:
  assumes "assign_inv p A q pr as out" and "distinct states"
  shows "\<exists>q' pr' as' out'. try_fold (\<lambda>requested (q, pr, as, o'). assign_loop m p current n requested (cnt requested) q pr as o')
        states (q, pr, as, out) = Inr (q', pr', as', out') \<and> assign_inv p A q' pr' as' out' \<and> states_post p cnt A states as out as' out'"
  using assms
proof (induction states arbitrary: q pr as out)
  case (Cons s states)
  obtain q1 pr1 as1 out1 where 1: "assign_loop m p current n s (cnt s) q pr as out = Inr (q1, pr1, as1, out1)"
    "assign_inv p A q1 pr1 as1 out1" "assign_post p s A (cnt s) as out as1 out1"
    using assign_loop_post[OF Cons.prems(1)] by blast
  obtain q2 pr2 as2 out2 where 2: "try_fold (\<lambda>requested (q, pr, as, o'). assign_loop m p current n requested (cnt requested) q pr as o')
        states (q1, pr1, as1, out1) = Inr (q2, pr2, as2, out2)" "assign_inv p A q2 pr2 as2 out2"
      "states_post p cnt A states as1 out1 as2 out2"
    using Cons.IH[OF 1(2)] Cons.prems(2) by auto
  have "states_post p cnt A (s # states) as out as2 out2"
    by (rule states_post_Cons[OF Cons.prems(1) 1(2,3) 2(3)]) (use Cons.prems(2) in simp)
  then show ?case using 1(1) 2 by auto
qed (auto simp: states_post_def)

lemma try_set_some:
  assumes "distinct ks" and "\<forall>i \<in> set ks. P i \<longrightarrow> ReplicaStates_get out p i = None"
  shows "\<exists>out'. try_fold (\<lambda>i out. if P i then map_err E (set_state p i s out) else Inr out) ks out = Inr out' \<and>
     (\<forall>p' i. ReplicaStates_get out' p' i = (if p' = p \<and> i \<in> set ks \<and> P i then Some s else ReplicaStates_get out p' i))"
  using assms
proof (induction ks arbitrary: out)
  case (Cons k ks)
  show ?case
  proof (cases "P k")
    case True
    have "\<exists>out'. try_fold (\<lambda>i out. if P i then map_err E (set_state p i s out) else Inr out) ks (put_state p k s out) = Inr out' \<and>
     (\<forall>p' i. ReplicaStates_get out' p' i = (if p' = p \<and> i \<in> set ks \<and> P i then Some s else ReplicaStates_get (put_state p k s out) p' i))"
      using Cons.prems by (intro Cons.IH) auto
    then show ?thesis using True Cons.prems(2) by (auto simp: set_state_eq)
  next
    case False
    then have "(i \<in> set (k # ks) \<and> P i) = (i \<in> set ks \<and> P i)" for i by auto
    then show ?thesis using False Cons.IH[of out] Cons.prems by simp
  qed
qed auto

lemma drop_unpreferred_post:
  assumes "\<forall>i. ReplicaStates_get out p i = None"
  shows "\<exists>out'. drop_unpreferred p pl (bt_get (CurrentState_entries cs) p) out = Inr out' \<and>
    (\<forall>p' i. ReplicaStates_get out' p' i =
      (if p' = p \<and> i \<notin> set pl \<and> CurrentState_state cs p i \<noteq> None then Some (State ''DROPPED'') else ReplicaStates_get out p' i))"
proof (cases "bt_get (CurrentState_entries cs) p")
  case None
  then show ?thesis
    by (auto simp: drop_unpreferred_def CurrentState_state_def CurrentState_entries_def ReplicaStates_get_def)
next
  case (Some states)
  then have "i \<in> set (bt_keys states) \<longleftrightarrow> CurrentState_state cs p i \<noteq> None" for i
    by (simp add: bt_keys_iff CurrentState_state_def CurrentState_entries_def ReplicaStates_get_def)
  then show ?thesis
    using Some assms try_set_some[of "bt_keys states" "\<lambda>i. i \<notin> set pl" out p ReplicaStateErr "State ''DROPPED''"]
    by (auto simp: drop_unpreferred_def cong: if_cong)
qed

text \<open>
  The instance that gets a single top state: the head of the active preference list,
  unless its current state is neither the top state nor one step below it, in which
  case the active instance with the highest current state.
\<close>

definition active_instances :: "InstanceId bset \<Rightarrow> InstanceId list \<Rightarrow> InstanceId list" where
  "active_instances live pl = filter (bt_contains live) pl"

definition by_current_priority :: "CurrentState \<Rightarrow> StateModelDefinition \<Rightarrow> PartitionId \<Rightarrow> InstanceId list \<Rightarrow> InstanceId list" where
  "by_current_priority cs m p xs = (let current = bt_get (CurrentState_entries cs) p in
     sort_by (\<lambda>a b. current_state_priority current m a \<le> current_state_priority current m b) xs)"

definition top_choice :: "CurrentState \<Rightarrow> StateModelDefinition \<Rightarrow> PartitionId \<Rightarrow> InstanceId list \<Rightarrow> InstanceId" where
  "top_choice cs m p active =
     (let cur = (case CurrentState_state cs p (hd active) of None \<Rightarrow> model_initial_state m | Some s \<Rightarrow> s)
      in if 1 < length active \<and> cur \<noteq> highest_priority_state m \<and> \<not> is_second_top_state cur m
         then hd (by_current_priority cs m p active) else hd active)"

definition partition_post ::
    "CurrentState \<Rightarrow> InstanceId bset \<Rightarrow> StateModelDefinition \<Rightarrow> PartitionId \<Rightarrow> InstanceId list \<Rightarrow> (InstanceId \<Rightarrow> State option) \<Rightarrow> bool" where
  "partition_post cs live m p pl g \<longleftrightarrow>
     (let active = active_instances live pl;
          cnt = (\<lambda>s. state_count (cardinality_for m s) (length active) (length pl));
          states = states_by_priority m in
     (\<forall>i. i \<notin> set pl \<longrightarrow> g i = (if CurrentState_state cs p i \<noteq> None then Some (State ''DROPPED'') else None)) \<and>
     (\<forall>i. i \<in> set pl \<and> \<not> bt_contains live i \<longrightarrow> g i = None) \<and>
     (\<forall>k < length states. card {i \<in> set active. g i = Some (states ! k)} =
        min (cnt (states ! k)) (card (set active) - sum_list (map cnt (take k states)))) \<and>
     (active \<noteq> [] \<and> states \<noteq> [] \<and> cnt (highest_priority_state m) = 1 \<longrightarrow>
        g (top_choice cs m p active) = Some (highest_priority_state m)))"

lemma current_bind: "Option.bind (bt_get (CurrentState_entries cs) p) (\<lambda>states. bt_get states i) = CurrentState_state cs p i"
  by (simp add: CurrentState_state_def CurrentState_entries_def ReplicaStates_get_def split: option.splits)

lemma bt_contains_len: "bt_len bt_empty = 0"
  by (simp add: bt_len_def bt_empty.rep_eq)

lemma first_choice:
  assumes "active \<noteq> []" and "ReplicaStates_get out p (top_choice cs m p active) = None"
  shows "\<exists>q pr. assign_loop m p (bt_get (CurrentState_entries cs) p) (length active) (highest_priority_state m) 1
      active (by_current_priority cs m p active) bt_empty out =
    Inr (q, pr, bs_insert (top_choice cs m p active) bt_empty, put_state p (top_choice cs m p active) (highest_priority_state m) out)"
proof -
  obtain a rest where a: "active = a # rest" using assms(1) by (cases active) auto
  let ?prio = "by_current_priority cs m p active"
  have "?prio \<noteq> []" using assms(1) by (metis by_current_priority_def length_0_conv length_sort_by)
  then have nu: "next_unassigned bt_empty ?prio = (Some (hd ?prio), tl ?prio)" by (cases ?prio) auto
  let ?cur = "case CurrentState_state cs p a of None \<Rightarrow> model_initial_state m | Some s \<Rightarrow> s"
  have "fst (adjust_instance_if_necessary a bt_empty (length active - bt_len (bt_empty :: InstanceId bset)) (Suc 0)
       (highest_priority_state m = highest_priority_state m)
       (?cur \<noteq> highest_priority_state m \<and> \<not> is_second_top_state ?cur m) ?prio) = top_choice cs m p active"
    using nu by (simp add: adjust_instance_if_necessary_def top_choice_def a bt_contains_len Let_def)
  then obtain pr where adj: "adjust_instance_if_necessary a bt_empty (length active - bt_len (bt_empty :: InstanceId bset)) (Suc 0)
       (highest_priority_state m = highest_priority_state m)
       (?cur \<noteq> highest_priority_state m \<and> \<not> is_second_top_state ?cur m) ?prio = (top_choice cs m p active, pr)"
    by (metis prod.collapse)
  show ?thesis
    using assms(2) adj by (simp add: a current_bind set_state_eq One_nat_def)
qed

lemma assign_states_top:
  assumes inv: "assign_inv p (set active) active (by_current_priority cs m p active) bt_empty out"
    and "distinct (states_by_priority m)" and "active \<noteq> []" and "states_by_priority m \<noteq> []"
    and one: "cnt (highest_priority_state m) = 1"
    and run: "try_fold (\<lambda>requested (q, pr, as, o'). assign_loop m p (bt_get (CurrentState_entries cs) p) (length active)
         requested (cnt requested) q pr as o') (states_by_priority m)
         (active, by_current_priority cs m p active, bt_empty, out) = Inr (q', pr', as', out')"
  shows "ReplicaStates_get out' p (top_choice cs m p active) = Some (highest_priority_state m)"
proof -
  let ?c = "top_choice cs m p active" and ?top = "highest_priority_state m"
  have "by_current_priority cs m p active \<noteq> []" using assms(3) by (metis by_current_priority_def length_0_conv length_sort_by)
  then have c: "?c \<in> set active"
    using assms(3) hd_in_set[of "by_current_priority cs m p active"] by (simp add: top_choice_def by_current_priority_def Let_def)
  with inv have None: "ReplicaStates_get out p ?c = None" by (auto simp: assign_inv_def)
  obtain q pr where first: "assign_loop m p (bt_get (CurrentState_entries cs) p) (length active) ?top 1
      active (by_current_priority cs m p active) bt_empty out = Inr (q, pr, bs_insert ?c bt_empty, put_state p ?c ?top out)"
    using first_choice[OF assms(3) None] by blast
  obtain rest where rest: "states_by_priority m = ?top # rest" "distinct rest"
    using assms(2,4) by (cases "states_by_priority m") (auto simp: highest_priority_state_def)
  have inv1: "assign_inv p (set active) q pr (bs_insert ?c bt_empty) (put_state p ?c ?top out)"
    using assign_loop_post[OF inv, of m "bt_get (CurrentState_entries cs) p" "length active" ?top 1] first by auto
  from run have "try_fold (\<lambda>requested (q, pr, as, o'). assign_loop m p (bt_get (CurrentState_entries cs) p) (length active)
         requested (cnt requested) q pr as o') rest (q, pr, bs_insert ?c bt_empty, put_state p ?c ?top out) = Inr (q', pr', as', out')"
    using first one by (simp add: rest(1))
  with states_loop[OF inv1 rest(2), of m "bt_get (CurrentState_entries cs) p" "length active" cnt]
  have "states_post p cnt (set active) rest (bs_insert ?c bt_empty) (put_state p ?c ?top out) as' out'" by auto
  then show ?thesis by (simp add: states_post_def)
qed

lemma partition_run:
  assumes empty: "\<forall>i. ReplicaStates_get out p i = None" and d: "distinct (states_by_priority m)"
  shows "\<exists>out'. assign_partition cs live m (p, pl) out = Inr out' \<and>
     (\<forall>p' i. p' \<noteq> p \<longrightarrow> ReplicaStates_get out' p' i = ReplicaStates_get out p' i) \<and>
     partition_post cs live m p pl (ReplicaStates_get out' p)"
proof -
  let ?active = "active_instances live pl" and ?cur = "bt_get (CurrentState_entries cs) p"
  let ?cnt = "\<lambda>s. state_count (cardinality_for m s) (length ?active) (length pl)"
  let ?prio = "by_current_priority cs m p ?active"
  obtain out1 where 1: "drop_unpreferred p pl ?cur out = Inr out1"
    "\<And>p' i. ReplicaStates_get out1 p' i = (if p' = p \<and> i \<notin> set pl \<and> CurrentState_state cs p i \<noteq> None
        then Some (State ''DROPPED'') else ReplicaStates_get out p' i)"
    using drop_unpreferred_post[OF empty] by blast
  have inv: "assign_inv p (set ?active) ?active ?prio bt_empty out1"
    using empty by (auto simp: assign_inv_def by_current_priority_def Let_def 1(2) active_instances_def)
  obtain q as pr out' where run: "try_fold (\<lambda>requested (q, pr, as, o'). assign_loop m p ?cur (length ?active)
         requested (?cnt requested) q pr as o') (states_by_priority m) (?active, ?prio, bt_empty, out1) = Inr (q, pr, as, out')"
    and inv': "assign_inv p (set ?active) q pr as out'" and post: "states_post p ?cnt (set ?active) (states_by_priority m) bt_empty out1 as out'"
    using states_loop[OF inv d, of m ?cur "length ?active" ?cnt] by blast
  have as: "members as \<subseteq> set ?active" using inv' by (auto simp: assign_inv_def)
  then have inactive: "\<not> bt_contains as i" if "i \<notin> set pl \<or> \<not> bt_contains live i" for i
    using that by (auto simp: active_instances_def)
  have "assign_partition cs live m (p, pl) out = Inr out'"
    using run 1(1) by (simp add: assign_partition_def active_instances_def by_current_priority_def Let_def)
  moreover have out': "ReplicaStates_get out' p' i = ReplicaStates_get out1 p' i" if "\<not> (p' = p \<and> bt_contains as i)" for p' i
    using post that by (simp add: states_post_def)
  moreover have "{i \<in> set ?active. ReplicaStates_get out' p i = Some s} = {i \<in> members as. ReplicaStates_get out' p i = Some s}" for s
    using as inv' by (fastforce simp: assign_inv_def)
  then have "card {i \<in> set ?active. ReplicaStates_get out' p i = Some (states_by_priority m ! k)} =
      min (?cnt (states_by_priority m ! k)) (card (set ?active) - sum_list (map ?cnt (take k (states_by_priority m))))"
    if "k < length (states_by_priority m)" for k
    using post that by (simp add: states_post_def)
  moreover have "ReplicaStates_get out' p (top_choice cs m p ?active) = Some (highest_priority_state m)"
    if "?active \<noteq> []" "states_by_priority m \<noteq> []" "?cnt (highest_priority_state m) = 1"
    using assign_states_top[OF inv d that(1,2), of ?cnt, OF that(3) run] .
  moreover have "ReplicaStates_get out' p i = (if CurrentState_state cs p i \<noteq> None then Some (State ''DROPPED'') else None)"
    if "i \<notin> set pl" for i
    using out'[of p i] inactive[of i] that empty by (simp add: 1(2))
  moreover have "ReplicaStates_get out' p i = None" if "i \<in> set pl" "\<not> bt_contains live i" for i
    using out'[of p i] inactive[of i] that empty by (simp add: 1(2))
  ultimately show ?thesis using 1(2) unfolding partition_post_def Let_def by auto
qed

lemma partition_post_outside:
  assumes "partition_post cs live m p pl g"
  shows "i \<notin> set pl \<Longrightarrow> g i = (if CurrentState_state cs p i \<noteq> None then Some (State ''DROPPED'') else None)"
    and "i \<in> set pl \<Longrightarrow> \<not> bt_contains live i \<Longrightarrow> g i = None"
  using assms unfolding partition_post_def Let_def by blast+

section \<open>All partitions\<close>

lemma keyed_fold:
  assumes "\<And>k v out. (k, v) \<in> set xs \<Longrightarrow> (\<forall>i. ReplicaStates_get out k i = None) \<Longrightarrow>
      \<exists>out'. step (k, v) out = Inr out' \<and> (\<forall>k' i. k' \<noteq> k \<longrightarrow> ReplicaStates_get out' k' i = ReplicaStates_get out k' i) \<and>
        Q k v (ReplicaStates_get out' k)"
    and "distinct (map fst xs)" and "\<forall>k \<in> fst ` set xs. \<forall>i. ReplicaStates_get out k i = None"
  shows "\<exists>out'. try_fold step xs out = Inr out' \<and> (\<forall>k v. (k, v) \<in> set xs \<longrightarrow> Q k v (ReplicaStates_get out' k)) \<and>
     (\<forall>k i. k \<notin> fst ` set xs \<longrightarrow> ReplicaStates_get out' k i = ReplicaStates_get out k i)"
  using assms
proof (induction xs arbitrary: out)
  case (Cons x xs)
  obtain k v where x: "x = (k, v)" by (cases x)
  obtain out1 where 1: "step (k, v) out = Inr out1" "Q k v (ReplicaStates_get out1 k)"
    "\<And>k' i. k' \<noteq> k \<Longrightarrow> ReplicaStates_get out1 k' i = ReplicaStates_get out k' i"
    using Cons.prems(1)[of k v out] Cons.prems(3) by (auto simp: x)
  have "\<exists>out'. try_fold step xs out1 = Inr out' \<and> (\<forall>k v. (k, v) \<in> set xs \<longrightarrow> Q k v (ReplicaStates_get out' k)) \<and>
     (\<forall>k i. k \<notin> fst ` set xs \<longrightarrow> ReplicaStates_get out' k i = ReplicaStates_get out1 k i)"
  proof (rule Cons.IH)
    show "\<forall>k \<in> fst ` set xs. \<forall>i. ReplicaStates_get out1 k i = None"
    proof (intro ballI allI)
      fix k' i assume k': "k' \<in> fst ` set xs"
      then have "k' \<noteq> k" using Cons.prems(2) by (auto simp: x)
      then show "ReplicaStates_get out1 k' i = None" using 1(3) Cons.prems(3) k' by auto
    qed
    show "distinct (map fst xs)" using Cons.prems(2) by simp
  qed (rule Cons.prems(1), simp_all)
  then obtain out2 where 2: "try_fold step xs out1 = Inr out2" "\<And>k v. (k, v) \<in> set xs \<Longrightarrow> Q k v (ReplicaStates_get out2 k)"
     "\<And>k i. k \<notin> fst ` set xs \<Longrightarrow> ReplicaStates_get out2 k i = ReplicaStates_get out1 k i" by blast
  have "ReplicaStates_get out2 k = ReplicaStates_get out1 k"
    using 2(3)[of k] Cons.prems(2) by (intro ext) (auto simp: x)
  then show ?case using 1 2 by (auto simp: x)
qed simp

lemma drain_removed_post:
  assumes "\<forall>p i. preference_list ideal p = None \<longrightarrow> ReplicaStates_get out p i = None"
  shows "\<exists>out'. drain_removed ideal cs out = Inr out' \<and> (\<forall>p i. ReplicaStates_get out' p i =
     (if preference_list ideal p = None \<and> CurrentState_state cs p i \<noteq> None then Some (State ''DROPPED'') else ReplicaStates_get out p i))"
proof -
  define removed where "removed p \<longleftrightarrow> preference_list ideal p = None" for p
  let ?step = "\<lambda>(p, current) out. if preference_list ideal p = None
        then try_fold (\<lambda>i out. map_err ReplicaStateErr (set_state p i (State ''DROPPED'') out)) (bt_keys current) out
        else Inr out"
  have gen: "distinct (map fst xs) \<Longrightarrow> (\<forall>p \<in> fst ` set xs. removed p \<longrightarrow> (\<forall>i. ReplicaStates_get out p i = None)) \<Longrightarrow>
    \<exists>out'. try_fold ?step xs out = Inr out' \<and> (\<forall>p i. ReplicaStates_get out' p i =
      (if removed p \<and> (\<exists>c. map_of xs p = Some c \<and> bt_get c i \<noteq> None) then Some (State ''DROPPED'') else ReplicaStates_get out p i))"
    for xs :: "(PartitionId \<times> instance_states) list" and out
  proof (induction xs arbitrary: out)
    case (Cons x xs)
    obtain p c where x: "x = (p, c)" by (cases x)
    have p: "map_of xs p = None" using Cons.prems(1) by (simp add: x map_of_eq_None_iff)
    show ?case
    proof (cases "removed p")
      case True
      have "\<forall>i \<in> set (bt_keys c). True \<longrightarrow> ReplicaStates_get out p i = None" using True Cons.prems(2) by (auto simp: x)
      from try_set_some[OF distinct_keys this, of ReplicaStateErr "State ''DROPPED''"]
      obtain out1 where 1: "?step x out = Inr out1" "\<And>p' i. ReplicaStates_get out1 p' i =
          (if p' = p \<and> i \<in> set (bt_keys c) then Some (State ''DROPPED'') else ReplicaStates_get out p' i)"
        using True by (auto simp: x removed_def)
      have "\<forall>p \<in> fst ` set xs. removed p \<longrightarrow> (\<forall>i. ReplicaStates_get out1 p i = None)"
        using Cons.prems by (auto simp: x 1(2))
      from Cons.IH[OF _ this] Cons.prems(1) obtain out2 where 2: "try_fold ?step xs out1 = Inr out2"
        "\<And>p i. ReplicaStates_get out2 p i = (if removed p \<and> (\<exists>c. map_of xs p = Some c \<and> bt_get c i \<noteq> None)
            then Some (State ''DROPPED'') else ReplicaStates_get out1 p i)" by auto
      then show ?thesis using 1(1) p True by (auto simp: 1(2) x bt_keys_iff)
    next
      case False
      then have "?step x out = Inr out" by (auto simp: x removed_def)
      moreover obtain out2 where "try_fold ?step xs out = Inr out2"
        "\<And>p i. ReplicaStates_get out2 p i = (if removed p \<and> (\<exists>c. map_of xs p = Some c \<and> bt_get c i \<noteq> None)
            then Some (State ''DROPPED'') else ReplicaStates_get out p i)"
        using Cons.IH[of out] Cons.prems by auto
      ultimately show ?thesis using False p by (auto simp: x)
    qed
  qed simp
  have cur: "(\<exists>c. bt_get (CurrentState_entries cs) p = Some c \<and> bt_get c i \<noteq> None) \<longleftrightarrow> CurrentState_state cs p i \<noteq> None" for p i
    by (simp add: CurrentState_state_def CurrentState_entries_def ReplicaStates_get_def split: option.splits)
  have "\<exists>out'. drain_removed ideal cs out = Inr out' \<and> (\<forall>p i. ReplicaStates_get out' p i =
      (if removed p \<and> (\<exists>c. bt_get (CurrentState_entries cs) p = Some c \<and> bt_get c i \<noteq> None) then Some (State ''DROPPED'') else ReplicaStates_get out p i))"
    using gen[of "entries (CurrentState_entries cs)" out] assms
    by (simp add: drain_removed_def ascending_distinct bt_get_entries[symmetric] removed_def)
  then show ?thesis unfolding cur removed_def .
qed

lemma semi_auto_run:
  assumes "distinct (states_by_priority m)"
  shows "\<exists>best. compute_semi_auto_best_possible_state ideal cs live m = Inr best \<and>
    (\<forall>p pl. preference_list ideal p = Some pl \<longrightarrow> partition_post cs live m p pl (BestPossibleState_state best p)) \<and>
    (\<forall>p i. preference_list ideal p = None \<longrightarrow> BestPossibleState_state best p i =
       (if CurrentState_state cs p i \<noteq> None then Some (State ''DROPPED'') else None))"
proof -
  have mem: "(p, pl) \<in> set (entries (preference_lists ideal)) \<longleftrightarrow> preference_list ideal p = Some pl" for p pl
    by (simp add: preference_list_def bt_entries_iff)
  have keys: "p \<in> fst ` set (entries (preference_lists ideal)) \<longleftrightarrow> preference_list ideal p \<noteq> None" for p
    by (simp add: preference_list_def bt_keys_iff[symmetric] bt_keys_def del: not_None_eq)
  obtain out where run: "try_fold (assign_partition cs live m) (entries (preference_lists ideal)) ReplicaStates_default = Inr out"
    and post: "\<And>p pl. preference_list ideal p = Some pl \<Longrightarrow> partition_post cs live m p pl (ReplicaStates_get out p)"
    and rest: "\<And>p i. preference_list ideal p = None \<Longrightarrow> ReplicaStates_get out p i = None"
  proof -
    have "\<exists>out. try_fold (assign_partition cs live m) (entries (preference_lists ideal)) ReplicaStates_default = Inr out \<and>
        (\<forall>p pl. (p, pl) \<in> set (entries (preference_lists ideal)) \<longrightarrow> partition_post cs live m p pl (ReplicaStates_get out p)) \<and>
        (\<forall>p i. p \<notin> fst ` set (entries (preference_lists ideal)) \<longrightarrow> ReplicaStates_get out p i = ReplicaStates_get ReplicaStates_default p i)"
      by (rule keyed_fold) (rule partition_run[OF _ assms], simp_all add: ascending_distinct)
    then show ?thesis unfolding mem keys using that by auto
  qed
  obtain out' where out': "drain_removed ideal cs out = Inr out'" "\<And>p i. ReplicaStates_get out' p i =
     (if preference_list ideal p = None \<and> CurrentState_state cs p i \<noteq> None then Some (State ''DROPPED'') else ReplicaStates_get out p i)"
    using drain_removed_post[of ideal out cs] rest by auto
  have same: "ReplicaStates_get out' p = ReplicaStates_get out p" if "preference_list ideal p = Some pl" for p pl
    using that by (intro ext) (simp add: out'(2))
  have "BestPossibleState_state (BestPossibleState_build out') = ReplicaStates_get out'"
    by (intro ext) (simp add: BestPossibleState_state_def BestPossibleState_build_def)
  then show ?thesis
    using run out'(1) post same rest
    by (simp add: compute_semi_auto_best_possible_state_def out'(2))
qed

section \<open>LeaderStandby placements\<close>

lemma leader_standby_distinct: "distinct (states_by_priority leader_standby)"
  by simp

lemma is_second_top_leader_standby: "is_second_top_state s leader_standby \<longleftrightarrow> s = State ''STANDBY''"
proof -
  have "next_state_toward leader_standby (State ''OFFLINE'') (State ''LEADER'') \<noteq> Some (State ''LEADER'')" by simp
  moreover have "next_state_toward leader_standby (State ''LEADER'') (State ''LEADER'') = None"
    using ls.hop_dom by (metis option.exhaust)
  moreover have "next_state_toward leader_standby (State ''DROPPED'') (State ''LEADER'') \<noteq> Some (State ''LEADER'')"
  proof
    assume "next_state_toward leader_standby (State ''DROPPED'') (State ''LEADER'') = Some (State ''LEADER'')"
    from ls.hop_edge[OF this] show False by (simp add: leader_standby_transitions)
  qed
  ultimately show ?thesis by (auto simp: is_second_top_state_def)
qed

lemma leader_standby_post:
  assumes "partition_post cs live leader_standby p pl g"
  shows "g i = (if i \<in> set (active_instances live pl)
      then Some (if i = top_choice cs leader_standby p (active_instances live pl) then State ''LEADER'' else State ''STANDBY'')
      else if i \<notin> set pl \<and> CurrentState_state cs p i \<noteq> None then Some (State ''DROPPED'') else None)"
proof (cases "i \<in> set (active_instances live pl)")
  case False
  then show ?thesis using partition_post_outside[OF assms, of i]
    by (cases "i \<in> set pl") (simp_all add: active_instances_def)
next
  case True
  let ?A = "set (active_instances live pl)" and ?top = "top_choice cs leader_standby p (active_instances live pl)"
  let ?L = "{i \<in> ?A. g i = Some (State ''LEADER'')}" and ?S = "{i \<in> ?A. g i = Some (State ''STANDBY'')}"
  have ne: "active_instances live pl \<noteq> []" using True by auto
  have counts: "\<forall>k < 4. card {i \<in> ?A. g i = Some (states_by_priority leader_standby ! k)} =
        min (state_count (cardinality_for leader_standby (states_by_priority leader_standby ! k)) (length (active_instances live pl)) (length pl))
          (card ?A - sum_list (map (\<lambda>s. state_count (cardinality_for leader_standby s) (length (active_instances live pl)) (length pl))
             (take k (states_by_priority leader_standby))))"
    and top: "g ?top = Some (State ''LEADER'')"
    using assms ne unfolding partition_post_def Let_def by (simp_all add: state_count_def)
  have cA: "0 < card ?A" "card ?A \<le> length pl"
    using ne order.trans[OF card_length[of "active_instances live pl"], of "length pl"]
    by (simp_all add: card_gt_0_iff) (simp add: active_instances_def)
  have "card ?L = 1" "card ?S = card ?A - 1"
    using counts[rule_format, of 0] counts[rule_format, of 1] cA by (simp_all add: state_count_def)
  moreover have "card (?L \<union> ?S) = card ?L + card ?S" by (rule card_Un_disjoint) auto
  ultimately have LS: "?L \<union> ?S = ?A" using cA by (intro card_subset_eq) auto
  obtain x where x: "?L = {x}" using \<open>card ?L = 1\<close> by (auto simp: card_1_singleton_iff)
  have "?top \<in> ?A"
  proof -
    have "by_current_priority cs leader_standby p (active_instances live pl) \<noteq> []"
      using ne by (metis by_current_priority_def length_0_conv length_sort_by)
    then show ?thesis using ne hd_in_set[of "by_current_priority cs leader_standby p (active_instances live pl)"]
      by (simp add: top_choice_def by_current_priority_def Let_def)
  qed
  with top have "?top \<in> ?L" by simp
  then have "?L = {?top}" using x by auto
  then have "i \<in> ?S" if "i \<noteq> ?top" using LS True that by blast
  then show ?thesis using True top by auto
qed

text \<open>A placement of one partition on two instances, with a leftover of a removed partition.\<close>

definition demo_ideal :: IdealState where
  "demo_ideal = \<lparr>ideal_resource = ResourceId ''r'', ideal_replicas = 2,
     preference_lists = bt_insert (PartitionId ''p'') [InstanceId ''a'', InstanceId ''b''] bt_empty\<rparr>"

definition demo_current :: CurrentState where
  "demo_current = CurrentState_build
     (put_state (PartitionId ''old'') (InstanceId ''a'') (State ''STANDBY'')
     (put_state (PartitionId ''p'') (InstanceId ''b'') (State ''STANDBY'') ReplicaStates_default))"

definition demo_live :: "InstanceId bset" where
  "demo_live = bs_collect [InstanceId ''a'', InstanceId ''b'']"

section \<open>Properties\<close>

text \<open>The rebalancer never fails on a built model, and for every partition of the placement it gives
  each state, in priority order, exactly as many live preferred instances as its
  cardinality asks for and as the states before it have left over.\<close>

lemma semi_auto_state_counts:
  assumes "build b = Some (Inr m)" and "preference_list ideal p = Some pl"
  shows "\<exists>best. compute_semi_auto_best_possible_state ideal cs live m = Inr best \<and>
    (let active = active_instances live pl;
         cnt = (\<lambda>s. state_count (cardinality_for m s) (length active) (length pl));
         states = states_by_priority m in
     \<forall>k < length states. card {i \<in> set active. BestPossibleState_state best p i = Some (states ! k)} =
        min (cnt (states ! k)) (card (set active) - sum_list (map cnt (take k states))))"
  using semi_auto_run[OF build_distinct_states[OF assms(1)], of ideal cs live] assms(2)
  unfolding partition_post_def Let_def by blast

text \<open>Draining. A replica the placement no longer wants, because its partition was removed
  or its instance is not preferred, is sent to \<open>DROPPED\<close>; nothing else outside the
  live preferred instances gets a state.\<close>

lemma semi_auto_drains:
  assumes "build b = Some (Inr m)" and "compute_semi_auto_best_possible_state ideal cs live m = Inr best"
    and "i \<notin> set (case preference_list ideal p of None \<Rightarrow> [] | Some pl \<Rightarrow> active_instances live pl)"
  shows "BestPossibleState_state best p i =
    (if CurrentState_state cs p i \<noteq> None \<and> i \<notin> set (case preference_list ideal p of None \<Rightarrow> [] | Some pl \<Rightarrow> pl)
     then Some (State ''DROPPED'') else None)"
proof (cases "preference_list ideal p")
  case None
  then show ?thesis using semi_auto_run[OF build_distinct_states[OF assms(1)], of ideal cs live] assms(2) by auto
next
  case (Some pl)
  then have "partition_post cs live m p pl (BestPossibleState_state best p)"
    using semi_auto_run[OF build_distinct_states[OF assms(1)], of ideal cs live] assms(2) by auto
  note outside = partition_post_outside[OF this, of i]
  show ?thesis
  proof (cases "i \<in> set pl")
    case True
    then show ?thesis using assms(3) Some outside(2) by (simp add: active_instances_def)
  qed (use Some outside(1) in simp)
qed

text \<open>C27: LeaderStandby placements in full: exactly the chosen live preferred instance is
  \<open>LEADER\<close>, every other live preferred instance is \<open>STANDBY\<close>, unpreferred replicas are
  \<open>DROPPED\<close> and nothing else has a state.\<close>

theorem semi_auto_leader_standby:
  assumes "preference_list ideal p = Some pl"
  shows "\<exists>best. compute_semi_auto_best_possible_state ideal cs live leader_standby = Inr best \<and>
    (\<forall>i. BestPossibleState_state best p i =
      (if i \<in> set pl \<and> bt_contains live i
       then Some (if i = top_choice cs leader_standby p (active_instances live pl) then State ''LEADER'' else State ''STANDBY'')
       else if i \<notin> set pl \<and> CurrentState_state cs p i \<noteq> None then Some (State ''DROPPED'') else None))"
proof -
  have "i \<in> set (active_instances live pl) \<longleftrightarrow> i \<in> set pl \<and> bt_contains live i" for i by (auto simp: active_instances_def)
  then show ?thesis
    using semi_auto_run[OF leader_standby_distinct, of ideal cs live] assms leader_standby_post by fastforce
qed

theorem semi_auto_leader_standby_witness:
  "\<exists>best. compute_semi_auto_best_possible_state demo_ideal demo_current demo_live leader_standby = Inr best \<and>
     BestPossibleState_state best (PartitionId ''p'') (InstanceId ''c'') = None"
proof -
  have "preference_list demo_ideal (PartitionId ''p'') = Some [InstanceId ''a'', InstanceId ''b'']"
    by (simp add: demo_ideal_def preference_list_def)
  from semi_auto_leader_standby[OF this, of demo_current demo_live] show ?thesis
    by (auto simp: demo_current_def CurrentState_state_def CurrentState_build_def)
qed

text \<open>Leadership is handed to a ready replica: the chosen leader is the preferred head when
  that one is \<open>LEADER\<close> or \<open>STANDBY\<close> now, and otherwise no live preferred instance is
  in a better current state than the chosen one.\<close>

lemma leader_choice_is_ready:
  assumes "active \<noteq> []" and "i \<in> set active"
  shows "(CurrentState_state cs p (hd active) \<in> {Some (State ''LEADER''), Some (State ''STANDBY'')} \<longrightarrow>
      top_choice cs leader_standby p active = hd active) \<and>
    (CurrentState_state cs p (hd active) \<notin> {Some (State ''LEADER''), Some (State ''STANDBY'')} \<longrightarrow>
      current_state_priority (bt_get (CurrentState_entries cs) p) leader_standby (top_choice cs leader_standby p active)
      \<le> current_state_priority (bt_get (CurrentState_entries cs) p) leader_standby i)"
proof (cases "length active = 1")
  case True
  then obtain a where "active = [a]" by (auto simp: length_Suc_conv)
  then show ?thesis using assms(2) by (simp add: top_choice_def)
next
  case False
  then have "1 < length active" using assms(1) by (cases active) auto
  then show ?thesis
    using hd_sort_by_key[OF assms(2), of "current_state_priority (bt_get (CurrentState_entries cs) p) leader_standby"]
    by (auto simp: top_choice_def is_second_top_leader_standby by_current_priority_def Let_def split: option.splits)
qed

end
