(* ===== verification/Message_Generation.thy ===== *)
theory Message_Generation
  imports Replica_State
begin

text \<open>
  Semantic transition generation (\<^verbatim>\<open>src/controller/message_generation.rs\<close>): for every
  replica whose current state differs from its target, the next hop of the state model.
  Nested \<open>for\<close> loops over a snapshot are loops over its replicas in iteration order; an
  \<open>expect\<close> that fails is \<open>None\<close>.
\<close>

section \<open>Definitions\<close>

datatype TransitionGenerationError =
    MissingCurrentState PartitionId InstanceId
  | MissingTargetState PartitionId InstanceId

definition TransitionGenerationError_fmt :: "TransitionGenerationError \<Rightarrow> string" where
  "TransitionGenerationError_fmt e = (case e of
     MissingCurrentState p i \<Rightarrow>
       ''missing current state for partition '' @ PartitionId_as_str p @ '' and instance '' @ InstanceId_as_str i
   | MissingTargetState p i \<Rightarrow>
       ''missing target state for partition '' @ PartitionId_as_str p @ '' and instance '' @ InstanceId_as_str i)"

definition validate_explicit_replica_set ::
    "CurrentState \<Rightarrow> BestPossibleState \<Rightarrow> TransitionGenerationError + unit" where
  "validate_explicit_replica_set current target =
     bind_result
       (try_fold (\<lambda>(p, i, _) _. if CurrentState_state current p i = None
                                 then Inl (MissingCurrentState p i) else Inr ())
          (replicas (BestPossibleState_entries target)) ())
       (\<lambda>_. try_fold (\<lambda>(p, i, _) _. if BestPossibleState_state target p i = None
                                      then Inl (MissingTargetState p i) else Inr ())
          (replicas (CurrentState_entries current)) ())"

fun generate_loop ::
    "ResourceId \<Rightarrow> CurrentState \<Rightarrow> StateModelDefinition \<Rightarrow> (PartitionId \<times> InstanceId \<times> State) list \<Rightarrow>
     TransitionRequest list \<Rightarrow> TransitionRequest list option" where
  "generate_loop resource current m [] requests = Some requests"
| "generate_loop resource current m ((p, i, desired) # rest) requests =
     (case CurrentState_state current p i of
        None \<Rightarrow> None
      | Some current_state \<Rightarrow>
          if current_state = desired then generate_loop resource current m rest requests
          else (case next_state_toward m current_state desired of
              None \<Rightarrow> generate_loop resource current m rest requests
            | Some next_state \<Rightarrow> generate_loop resource current m rest
                (requests @ [\<lparr>request_resource = resource, request_partition = p, request_instance = i,
                   request_source = current_state, request_target = next_state\<rparr>])))"

definition generate_transitions ::
    "ResourceId \<Rightarrow> CurrentState \<Rightarrow> BestPossibleState \<Rightarrow> StateModelDefinition \<Rightarrow>
     (TransitionGenerationError + TransitionRequest list) option" where
  "generate_transitions resource current target m =
     (case validate_explicit_replica_set current target of
        Inl e \<Rightarrow> Some (Inl e)
      | Inr _ \<Rightarrow> map_option Inr
          (generate_loop resource current m (replicas (BestPossibleState_entries target)) []))"

section \<open>Lemmas\<close>

definition same_replicas :: "CurrentState \<Rightarrow> BestPossibleState \<Rightarrow> bool" where
  "same_replicas current target \<longleftrightarrow>
     (\<forall>p i. CurrentState_state current p i = None \<longleftrightarrow> BestPossibleState_state target p i = None)"

lemma replicas_current:
  "(p, i, s) \<in> set (replicas (CurrentState_entries c)) \<longleftrightarrow> CurrentState_state c p i = Some s"
  by (simp add: CurrentState_entries_def CurrentState_state_def set_replicas_get)

lemma replicas_best:
  "(p, i, s) \<in> set (replicas (BestPossibleState_entries c)) \<longleftrightarrow> BestPossibleState_state c p i = Some s"
  by (simp add: BestPossibleState_entries_def BestPossibleState_state_def set_replicas_get)

lemma try_check_Inr:
  "try_fold (\<lambda>(p, i, s) _. if bad p i then Inl (err p i) else Inr ()) xs () = Inr u \<longleftrightarrow>
     (\<forall>(p, i, s) \<in> set xs. \<not> bad p i)"
  by (induction xs) (auto simp: bind_result_def split: if_splits)

lemma try_check_Inl:
  "try_fold (\<lambda>(p, i, s) _. if bad p i then Inl (err p i) else Inr ()) xs () = Inl e \<Longrightarrow>
     \<exists>p i s. (p, i, s) \<in> set xs \<and> bad p i \<and> e = err p i"
proof (induction xs)
  case (Cons x xs)
  obtain p i s where "x = (p, i, s)" by (cases x)
  with Cons show ?case by (cases "bad p i") (simp, blast, auto)
qed simp

lemma validate_Inr:
  "validate_explicit_replica_set c t = Inr u \<longleftrightarrow> same_replicas c t"
proof -
  have "validate_explicit_replica_set c t = Inr u \<longleftrightarrow>
      (\<forall>p i s. BestPossibleState_state t p i = Some s \<longrightarrow> CurrentState_state c p i \<noteq> None) \<and>
      (\<forall>p i s. CurrentState_state c p i = Some s \<longrightarrow> BestPossibleState_state t p i \<noteq> None)"
    by (simp add: validate_explicit_replica_set_def bind_result_Inr try_check_Inr split_beta
        Ball_def replicas_best replicas_current)
  then show ?thesis unfolding same_replicas_def by (metis not_Some_eq)
qed

lemma validate_Inl:
  assumes "validate_explicit_replica_set c t = Inl e"
  shows "\<exists>p i. (e = MissingCurrentState p i \<and> CurrentState_state c p i = None \<and> BestPossibleState_state t p i \<noteq> None) \<or>
           (e = MissingTargetState p i \<and> CurrentState_state c p i \<noteq> None \<and> BestPossibleState_state t p i = None)"
proof -
  let ?cur = "try_fold (\<lambda>(p, i, _) _. if CurrentState_state c p i = None
                                 then Inl (MissingCurrentState p i) else Inr ())
          (replicas (BestPossibleState_entries t)) ()"
  show ?thesis
  proof (cases ?cur)
    case (Inl e')
    then have "e = e'" using assms by (simp add: validate_explicit_replica_set_def)
    then show ?thesis using try_check_Inl[OF Inl] by (auto simp: replicas_best)
  next
    case (Inr u)
    then show ?thesis using assms try_check_Inl[of "\<lambda>p i. BestPossibleState_state t p i = None" MissingTargetState]
      by (fastforce simp: validate_explicit_replica_set_def replicas_current)
  qed
qed

text \<open>The request one replica contributes.\<close>

definition replica_request ::
    "ResourceId \<Rightarrow> CurrentState \<Rightarrow> StateModelDefinition \<Rightarrow> PartitionId \<times> InstanceId \<times> State \<Rightarrow> TransitionRequest option" where
  "replica_request r c m = (\<lambda>(p, i, desired).
     case CurrentState_state c p i of None \<Rightarrow> None
     | Some s \<Rightarrow> if s = desired then None
         else map_option (\<lambda>h. \<lparr>request_resource = r, request_partition = p, request_instance = i,
                   request_source = s, request_target = h\<rparr>) (next_state_toward m s desired))"

lemma generate_loop_eq:
  assumes "\<forall>(p, i, s) \<in> set xs. CurrentState_state c p i \<noteq> None"
  shows "generate_loop r c m xs acc = Some (acc @ List.map_filter (replica_request r c m) xs)"
  using assms
proof (induction xs arbitrary: acc)
  case (Cons x xs)
  obtain p i d where x: "x = (p, i, d)" by (cases x)
  obtain s where "CurrentState_state c p i = Some s" using Cons.prems x by auto
  with Cons x show ?case
    by (auto simp: replica_request_def List.map_filter_simps split: option.splits)
qed (simp add: List.map_filter_simps)

lemma generate_eq:
  assumes "same_replicas c t"
  shows "generate_transitions r c t m =
     Some (Inr (List.map_filter (replica_request r c m) (replicas (BestPossibleState_entries t))))"
proof -
  have "\<forall>(p, i, s) \<in> set (replicas (BestPossibleState_entries t)). CurrentState_state c p i \<noteq> None"
    using assms by (auto simp: replicas_best same_replicas_def)
  then show ?thesis
    using assms validate_Inr[of c t "()"] by (simp add: generate_transitions_def generate_loop_eq)
qed

lemma generate_Inr:
  "generate_transitions r c t m = Some (Inr reqs) \<longleftrightarrow> same_replicas c t \<and>
     reqs = List.map_filter (replica_request r c m) (replicas (BestPossibleState_entries t))"
proof (cases "same_replicas c t")
  case True
  then show ?thesis by (auto simp: generate_eq)
next
  case False
  then obtain e where "validate_explicit_replica_set c t = Inl e"
    using validate_Inr[of c t] by (cases "validate_explicit_replica_set c t") auto
  with False show ?thesis by (simp add: generate_transitions_def)
qed

lemma replica_request_Some:
  "replica_request r c m (p, i, d) = Some q \<longleftrightarrow>
     (\<exists>s h. CurrentState_state c p i = Some s \<and> s \<noteq> d \<and> next_state_toward m s d = Some h \<and>
        q = \<lparr>request_resource = r, request_partition = p, request_instance = i,
              request_source = s, request_target = h\<rparr>)"
  by (auto simp: replica_request_def split: option.splits)

lemma generate_mem:
  assumes "generate_transitions r c t m = Some (Inr reqs)"
  shows "q \<in> set reqs \<longleftrightarrow> (\<exists>p i s d h. BestPossibleState_state t p i = Some d \<and>
      CurrentState_state c p i = Some s \<and> s \<noteq> d \<and> next_state_toward m s d = Some h \<and>
      q = \<lparr>request_resource = r, request_partition = p, request_instance = i,
            request_source = s, request_target = h\<rparr>)"
  using assms unfolding generate_Inr
  by (simp only: set_map_filter Bex_def split_paired_Ex replica_request_Some replicas_best) blast

lemma generate_distinct:
  assumes "generate_transitions r c t m = Some (Inr reqs)"
  shows "distinct (map (\<lambda>q. (request_partition q, request_instance q)) reqs)"
proof -
  have reqs: "reqs = List.map_filter (replica_request r c m) (replicas (BestPossibleState_entries t))"
    using assms by (simp add: generate_Inr)
  show ?thesis unfolding reqs
    by (rule distinct_map_filter_key[OF distinct_replicas])
       (auto simp: replica_request_Some)
qed

section \<open>Properties\<close>

text \<open>Generation never reaches its panic. It succeeds exactly when the current and the
  target snapshot list the same replicas, and an error names a replica that one
  snapshot has and the other lacks, on the side the error says.\<close>

lemma generate_transitions_errors:
  "case generate_transitions r c t m of
     None \<Rightarrow> False
   | Some (Inr _) \<Rightarrow> same_replicas c t
   | Some (Inl (MissingCurrentState p i)) \<Rightarrow> CurrentState_state c p i = None \<and> BestPossibleState_state t p i \<noteq> None
   | Some (Inl (MissingTargetState p i)) \<Rightarrow> CurrentState_state c p i \<noteq> None \<and> BestPossibleState_state t p i = None"
proof (cases "validate_explicit_replica_set c t")
  case (Inl e)
  with validate_Inl[OF Inl] show ?thesis by (auto simp: generate_transitions_def)
next
  case (Inr u)
  then have "same_replicas c t" by (simp add: validate_Inr)
  then show ?thesis by (simp add: generate_eq)
qed

text \<open>What generation requests, for any accepted state model: exactly one request for each replica that
  is away from its target and can still reach it, the request is a declared transition
  out of the current state, and its target is one step of a shortest path.\<close>

lemma generate_transitions_requests:
  assumes "generate_transitions r c t m = Some (Inr reqs)"
    and "build b = Some (Inr m)" and "small_builder b"
    and "CurrentState_state c p i = Some s" and "BestPossibleState_state t p i = Some d"
    and "s \<in> set (states_by_priority m)" and "d \<in> set (states_by_priority m)"
  shows "length (filter (\<lambda>q. request_partition q = p \<and> request_instance q = i) reqs) =
           (if s \<noteq> d \<and> (s, d) \<in> (transition_rel (transitions_by_priority m))\<^sup>+ then 1 else 0) \<and>
         (\<forall>q \<in> set reqs. request_partition q = p \<and> request_instance q = i \<longrightarrow>
           request_source q = s \<and> (s, request_target q) \<in> transition_rel (transitions_by_priority m) \<and>
           (request_target q, d) \<in> (transition_rel (transitions_by_priority m))\<^sup>*)"
proof -
  let ?E = "transition_rel (transitions_by_priority m)"
  note hop = built_next_hop[OF assms(2,3)]
  have mem: "q \<in> set reqs \<and> request_partition q = p \<and> request_instance q = i \<longleftrightarrow>
     s \<noteq> d \<and> (\<exists>h. next_state_toward m s d = Some h \<and>
        q = \<lparr>request_resource = r, request_partition = p, request_instance = i, request_source = s, request_target = h\<rparr>)" for q
    using assms(4,5) by (auto simp: generate_mem[OF assms(1)])
  have path: "s \<noteq> d \<Longrightarrow> (\<exists>h. next_state_toward m s d = Some h) \<longleftrightarrow> (s, d) \<in> ?E\<^sup>+"
    using next_hop.hop_None[OF hop assms(6,7)] rtrancl_into_trancl2[OF next_hop.hop_edge[OF hop] next_hop.hop_target[OF hop]]
    by (cases "next_state_toward m s d") auto
  let ?f = "filter (\<lambda>q. request_partition q = p \<and> request_instance q = i) reqs"
  have "distinct (map (\<lambda>q. (request_partition q, request_instance q)) reqs)"
    by (rule generate_distinct[OF assms(1)])
  then have "distinct reqs" by (simp add: distinct_map)
  then have "length ?f = card {q \<in> set reqs. request_partition q = p \<and> request_instance q = i}"
    using distinct_card[OF distinct_filter, of reqs "\<lambda>q. request_partition q = p \<and> request_instance q = i"] by simp
  also have "\<dots> = (if s \<noteq> d \<and> (s, d) \<in> ?E\<^sup>+ then 1 else 0)"
  proof (cases "s \<noteq> d \<and> (s, d) \<in> ?E\<^sup>+")
    case True
    then obtain h where "next_state_toward m s d = Some h" using path by blast
    then have "{q \<in> set reqs. request_partition q = p \<and> request_instance q = i} =
      {\<lparr>request_resource = r, request_partition = p, request_instance = i, request_source = s, request_target = h\<rparr>}"
      using mem True by auto
    then show ?thesis using True by simp
  next
    case False
    then have "{q \<in> set reqs. request_partition q = p \<and> request_instance q = i} = {}"
      using mem path by auto
    with False show ?thesis by (simp only: card.empty if_False)
  qed
  finally have count: "length ?f = (if s \<noteq> d \<and> (s, d) \<in> ?E\<^sup>+ then 1 else 0)" .
  have "request_source q = s \<and> (s, request_target q) \<in> ?E \<and> (request_target q, d) \<in> ?E\<^sup>*"
    if q: "q \<in> set reqs" "request_partition q = p" "request_instance q = i" for q
  proof -
    obtain h where "next_state_toward m s d = Some h" "request_source q = s" "request_target q = h"
      using mem[of q] q by (metis TransitionRequest.select_convs(4,5))
    then show ?thesis using next_hop.hop_edge[OF hop] next_hop.hop_target[OF hop] by simp
  qed
  with count show ?thesis by blast
qed

end
