(* ===== verification/Message_Selection.thy ===== *)
theory Message_Selection
  imports Message_Generation
begin

text \<open>
  Cardinality-safe message selection (\<^verbatim>\<open>src/controller/message_selection.rs\<close>): of the
  candidate transitions, per partition and in transition-priority order, those that fit
  the bounds of the state model, given the live states and the pending transitions.
\<close>

section \<open>Definitions\<close>

datatype MessageSelectionError =
    CandidateResourceMismatch ResourceId ResourceId
  | UnknownCandidatePartition PartitionId
  | UnknownPendingPartition PartitionId
  | DuplicatePendingTransition PartitionId InstanceId

definition MessageSelectionError_fmt :: "MessageSelectionError \<Rightarrow> string" where
  "MessageSelectionError_fmt e = (case e of
     CandidateResourceMismatch expected actual \<Rightarrow>
       ''candidate transition belongs to resource '' @ ResourceId_as_str actual @ '', expected '' @ ResourceId_as_str expected
   | UnknownCandidatePartition p \<Rightarrow> ''candidate transition references unknown partition '' @ PartitionId_as_str p
   | UnknownPendingPartition p \<Rightarrow> ''pending transition references unknown partition '' @ PartitionId_as_str p
   | DuplicatePendingTransition p i \<Rightarrow>
       ''duplicate pending transition for partition '' @ PartitionId_as_str p @ '' and instance '' @ InstanceId_as_str i)"

definition is_drop_path :: "PartitionId \<Rightarrow> State \<Rightarrow> State \<Rightarrow> CurrentState \<Rightarrow> StateModelDefinition \<Rightarrow> bool" where
  "is_drop_path p s t current m =
     (case find (\<lambda>st. State_as_str st = ''DROPPED'') (states_by_priority m) of
        None \<Rightarrow> False
      | Some dropped \<Rightarrow> bt_contains (CurrentState_entries current) p \<and> next_state_toward m s dropped = Some t)"

definition state_bounds :: "StateModelDefinition \<Rightarrow> nat \<Rightarrow> (State, nat) btree" where
  "state_bounds m live_instance_count =
     bt_collect (List.map_filter (\<lambda>s.
       (case cardinality_for m s of
          None \<Rightarrow> None
        | Some (Exact v) \<Rightarrow> Some (s, unat v)
        | Some NodeCount \<Rightarrow> Some (s, live_instance_count)
        | Some ReplicaCount \<Rightarrow> None
        | Some Unbounded \<Rightarrow> None)) (states_by_priority m))"

definition increase_state_count :: "(State, nat) btree \<Rightarrow> State \<Rightarrow> (State, nat) btree \<Rightarrow> (State, nat) btree" where
  "increase_state_count bounds s counts =
     (if bt_contains bounds s then bt_entry 0 Suc s counts else counts)"

definition group_candidates ::
    "ResourceId \<Rightarrow> IdealState \<Rightarrow> CurrentState \<Rightarrow> StateModelDefinition \<Rightarrow> TransitionRequest list \<Rightarrow>
     MessageSelectionError + (PartitionId, TransitionRequest list) btree" where
  "group_candidates resource ideal current m candidates =
     try_fold (\<lambda>c groups.
       if request_resource c \<noteq> resource then Inl (CandidateResourceMismatch resource (request_resource c))
       else if preference_list ideal (request_partition c) = None \<and>
               \<not> is_drop_path (request_partition c) (request_source c) (request_target c) current m
       then Inl (UnknownCandidatePartition (request_partition c))
       else Inr (group_push request_partition c groups)) candidates bt_empty"

definition group_pending ::
    "IdealState \<Rightarrow> CurrentState \<Rightarrow> StateModelDefinition \<Rightarrow> PendingTransition list \<Rightarrow>
     MessageSelectionError + (PartitionId, PendingTransition list) btree \<times> (PartitionId \<times> InstanceId) bset" where
  "group_pending ideal current m pending =
     try_fold (\<lambda>t (groups, keys).
       if preference_list ideal (pending_partition t) = None \<and>
          \<not> is_drop_path (pending_partition t) (pending_source t) (pending_target t) current m
       then Inl (UnknownPendingPartition (pending_partition t))
       else if bt_contains keys (pending_partition t, pending_instance t)
       then Inl (DuplicatePendingTransition (pending_partition t) (pending_instance t))
       else Inr (group_push pending_partition t groups, bs_insert (pending_partition t, pending_instance t) keys))
       pending (bt_empty, bt_empty)"

definition transition_priority :: "StateModelDefinition \<Rightarrow> TransitionRequest \<Rightarrow> nat" where
  "transition_priority m c =
     (case position (\<lambda>t. transition_source t = request_source c \<and> transition_target t = request_target c)
             (transitions_by_priority m) of
        None \<Rightarrow> usize_max | Some n \<Rightarrow> n)"

definition initial_counts ::
    "(State, nat) btree \<Rightarrow> CurrentState \<Rightarrow> InstanceId bset \<Rightarrow> StateModelDefinition \<Rightarrow> PendingTransition list \<Rightarrow> PartitionId \<Rightarrow>
     (State, nat) btree" where
  "initial_counts bounds current live m partition_pending p =
     fold (\<lambda>t counts. increase_state_count bounds (pending_source t)
                        (increase_state_count bounds (pending_target t) counts)) partition_pending
       (fold (\<lambda>i. increase_state_count bounds
                (case CurrentState_state current p i of None \<Rightarrow> model_initial_state m | Some s \<Rightarrow> s))
          (bt_keys live) bt_empty)"

definition admit ::
    "(State, nat) btree \<Rightarrow> TransitionRequest \<Rightarrow> (State, nat) btree \<times> TransitionRequest list \<Rightarrow>
     (State, nat) btree \<times> TransitionRequest list" where
  "admit bounds c st = (case st of (counts, selected) \<Rightarrow>
     (if (case bt_get bounds (request_target c) of
            Some upper_bound \<Rightarrow> bt_get_or 0 counts (request_target c) + 1 > upper_bound
          | None \<Rightarrow> False)
      then (counts, selected)
      else (increase_state_count bounds (request_target c) counts, selected @ [c])))"

definition select_partition ::
    "(State, nat) btree \<Rightarrow> CurrentState \<Rightarrow> InstanceId bset \<Rightarrow> StateModelDefinition \<Rightarrow>
     (PartitionId, TransitionRequest list) btree \<Rightarrow> (PartitionId, PendingTransition list) btree \<Rightarrow>
     PartitionId \<Rightarrow> TransitionRequest list \<Rightarrow> TransitionRequest list" where
  "select_partition bounds current live m candidates_by_partition pending_by_partition p selected =
     (case bt_get candidates_by_partition p of
        None \<Rightarrow> selected
      | Some partition_candidates \<Rightarrow>
          snd (fold (fold (admit bounds)) (bt_values (group_by (transition_priority m) partition_candidates))
            (initial_counts bounds current live m (bt_get_or [] pending_by_partition p) p, selected)))"

definition select_transitions ::
    "ResourceId \<Rightarrow> IdealState \<Rightarrow> CurrentState \<Rightarrow> InstanceId bset \<Rightarrow> TransitionRequest list \<Rightarrow> PendingTransition list \<Rightarrow>
     StateModelDefinition \<Rightarrow> MessageSelectionError + TransitionRequest list" where
  "select_transitions resource ideal current live candidates pending m =
     bind_result (group_candidates resource ideal current m candidates) (\<lambda>candidates_by_partition.
     bind_result (group_pending ideal current m pending) (\<lambda>(pending_by_partition, _).
       let bounds = state_bounds m (bt_len live);
           partitions = bs_collect (bt_keys (preference_lists ideal) @ bt_keys candidates_by_partition)
       in Inr (fold (select_partition bounds current live m candidates_by_partition pending_by_partition)
                 (bt_keys partitions) [])))"

section \<open>Validation\<close>

definition known_partition :: "IdealState \<Rightarrow> CurrentState \<Rightarrow> StateModelDefinition \<Rightarrow> PartitionId \<Rightarrow> State \<Rightarrow> State \<Rightarrow> bool" where
  "known_partition ideal current m p s t \<longleftrightarrow> preference_list ideal p \<noteq> None \<or> is_drop_path p s t current m"

lemma group_candidates_Inr:
  "group_candidates resource ideal current m candidates = Inr groups \<longleftrightarrow>
     (\<forall>c \<in> set candidates. request_resource c = resource \<and>
        known_partition ideal current m (request_partition c) (request_source c) (request_target c)) \<and>
     groups = group_by request_partition candidates"
proof -
  have "try_fold (\<lambda>c groups.
       if request_resource c \<noteq> resource then Inl (CandidateResourceMismatch resource (request_resource c))
       else if preference_list ideal (request_partition c) = None \<and>
               \<not> is_drop_path (request_partition c) (request_source c) (request_target c) current m
       then Inl (UnknownCandidatePartition (request_partition c))
       else Inr (group_push request_partition c groups)) candidates g = Inr groups \<longleftrightarrow>
     (\<forall>c \<in> set candidates. request_resource c = resource \<and>
        known_partition ideal current m (request_partition c) (request_source c) (request_target c)) \<and>
     groups = fold (group_push request_partition) candidates g" for g
    by (induction candidates arbitrary: g) (auto simp: bind_result_def known_partition_def)
  then show ?thesis by (simp add: group_candidates_def group_by_def)
qed

lemma group_pending_Inr:
  "group_pending ideal current m pending = Inr (groups, keys) \<longleftrightarrow>
     (\<forall>t \<in> set pending. known_partition ideal current m (pending_partition t) (pending_source t) (pending_target t)) \<and>
     distinct (map (\<lambda>t. (pending_partition t, pending_instance t)) pending) \<and>
     groups = group_by pending_partition pending \<and>
     keys = fold (\<lambda>t. bs_insert (pending_partition t, pending_instance t)) pending bt_empty"
proof -
  have "try_fold (\<lambda>t (groups, keys).
       if preference_list ideal (pending_partition t) = None \<and>
          \<not> is_drop_path (pending_partition t) (pending_source t) (pending_target t) current m
       then Inl (UnknownPendingPartition (pending_partition t))
       else if bt_contains keys (pending_partition t, pending_instance t)
       then Inl (DuplicatePendingTransition (pending_partition t) (pending_instance t))
       else Inr (group_push pending_partition t groups, bs_insert (pending_partition t, pending_instance t) keys))
       pending (g, ks) = Inr (groups, keys) \<longleftrightarrow>
     (\<forall>t \<in> set pending. known_partition ideal current m (pending_partition t) (pending_source t) (pending_target t)) \<and>
     distinct (map (\<lambda>t. (pending_partition t, pending_instance t)) pending) \<and>
     (\<forall>t \<in> set pending. \<not> bt_contains ks (pending_partition t, pending_instance t)) \<and>
     groups = fold (group_push pending_partition) pending g \<and>
     keys = fold (\<lambda>t. bs_insert (pending_partition t, pending_instance t)) pending ks" for g ks
    by (induction pending arbitrary: g ks) (auto simp: bind_result_def known_partition_def image_iff)
  then show ?thesis by (simp add: group_pending_def group_by_def)
qed

section \<open>Counts\<close>

lemma count_fold_increase:
  assumes "bt_contains bounds s"
  shows "bt_get_or 0 (fold (\<lambda>x. increase_state_count bounds (f x)) xs counts) s =
     bt_get_or 0 counts s + length (filter (\<lambda>x. f x = s) xs)"
  using assms
  by (induction xs arbitrary: counts) (auto simp: increase_state_count_def bt_entry_def)

definition occupancy ::
    "CurrentState \<Rightarrow> InstanceId bset \<Rightarrow> StateModelDefinition \<Rightarrow> PendingTransition list \<Rightarrow> PartitionId \<Rightarrow> State \<Rightarrow> nat" where
  "occupancy current live m pending p s =
     length (filter (\<lambda>i. (case CurrentState_state current p i of None \<Rightarrow> model_initial_state m | Some s' \<Rightarrow> s') = s) (bt_keys live)) +
     length (filter (\<lambda>t. pending_partition t = p \<and> pending_target t = s) pending) +
     length (filter (\<lambda>t. pending_partition t = p \<and> pending_source t = s) pending)"

lemma count_pending:
  assumes "bt_contains bounds s"
  shows "bt_get_or 0 (fold (\<lambda>t counts. increase_state_count bounds (pending_source t)
            (increase_state_count bounds (pending_target t) counts)) ts counts) s =
     bt_get_or 0 counts s + length (filter (\<lambda>t. pending_target t = s) ts) + length (filter (\<lambda>t. pending_source t = s) ts)"
  using assms
  by (induction ts arbitrary: counts) (auto simp: increase_state_count_def bt_entry_def)

lemma initial_counts_occupancy:
  assumes "bt_contains bounds s"
  shows "bt_get_or 0 (initial_counts bounds current live m (bt_get_or [] (group_by pending_partition pending) p) p) s =
     occupancy current live m pending p s"
proof -
  have g: "bt_get_or [] (group_by pending_partition pending) p = filter (\<lambda>t. pending_partition t = p) pending"
    by (simp add: bt_get_or_def bt_get_group_by)
  show ?thesis
    unfolding initial_counts_def occupancy_def g count_pending[OF assms] count_fold_increase[OF assms]
    by (simp add: conj_commute)
qed

text \<open>Admission in one pass: of the transitions into a bounded state, the first that fit.\<close>

lemma admit_step:
  "admit bounds c (counts, selected @ ys) =
     (fst (admit bounds c (counts, ys)), selected @ snd (admit bounds c (counts, ys)))"
  by (simp add: admit_def)

lemma admit_append:
  "fold (admit bounds) xs (counts, selected) =
     (fst (fold (admit bounds) xs (counts, [])), selected @ snd (fold (admit bounds) xs (counts, [])))"
proof (induction xs rule: rev_induct)
  case (snoc x xs)
  then show ?case
    by (cases "fold (admit bounds) xs (counts, [])") (simp add: admit_step)
qed simp

definition admitted :: "(State, nat) btree \<Rightarrow> (State, nat) btree \<Rightarrow> TransitionRequest list \<Rightarrow> TransitionRequest list" where
  "admitted bounds counts xs = snd (fold (admit bounds) xs (counts, []))"

lemma admitted_Nil [simp]: "admitted bounds counts [] = []"
  by (simp add: admitted_def)

lemma admitted_Cons:
  "admitted bounds counts (c # xs) =
     (if (case bt_get bounds (request_target c) of Some b \<Rightarrow> bt_get_or 0 counts (request_target c) + 1 > b | None \<Rightarrow> False)
      then admitted bounds counts xs
      else c # admitted bounds (increase_state_count bounds (request_target c) counts) xs)"
  using admit_append[of bounds xs "increase_state_count bounds (request_target c) counts" "[c]"]
  by (simp add: admitted_def admit_def)

lemma admitted_subset: "mset (admitted bounds counts xs) \<subseteq># mset xs"
proof (induction xs arbitrary: counts)
  case (Cons c xs)
  show ?case using Cons[of counts] Cons[of "increase_state_count bounds (request_target c) counts"]
    by (auto simp: admitted_Cons intro: subset_mset.order_trans)
qed simp

lemma admitted_filter:
  "filter (\<lambda>c. request_target c = s) (admitted bounds counts xs) =
     (case bt_get bounds s of
        None \<Rightarrow> filter (\<lambda>c. request_target c = s) xs
      | Some b \<Rightarrow> take (b - bt_get_or 0 counts s) (filter (\<lambda>c. request_target c = s) xs))"
proof (induction xs arbitrary: counts)
  case Nil
  then show ?case by (simp split: option.splits)
next
  case (Cons c xs)
  let ?t = "request_target c"
  have inc: "bt_get_or 0 (increase_state_count bounds ?t counts) s =
      (if s = ?t \<and> bt_contains bounds s then bt_get_or 0 counts s + 1 else bt_get_or 0 counts s)"
    by (simp add: increase_state_count_def bt_entry_def)
  show ?case
  proof (cases "bt_get bounds ?t")
    case None
    then show ?thesis using Cons inc by (auto simp: admitted_Cons bt_contains_def split: option.splits)
  next
    case (Some b)
    show ?thesis
    proof (cases "bt_get_or 0 counts ?t + 1 > b")
      case True
      then show ?thesis using Some Cons[of counts] by (auto simp: admitted_Cons split: option.splits)
    next
      case False
      then have "b - bt_get_or 0 counts ?t = Suc (b - Suc (bt_get_or 0 counts ?t))" by simp
      then show ?thesis using False Some Cons inc by (auto simp: admitted_Cons bt_contains_def split: option.splits)
    qed
  qed
qed

section \<open>Selection\<close>

definition by_priority :: "StateModelDefinition \<Rightarrow> TransitionRequest list \<Rightarrow> TransitionRequest list" where
  "by_priority m xs = concat (bt_values (group_by (transition_priority m) xs))"

lemma by_priority_mset [simp]: "mset (by_priority m xs) = mset xs"
  by (simp add: by_priority_def mset_group_by)

lemma by_priority_set [simp]: "set (by_priority m xs) = set xs"
  by (metis by_priority_mset set_mset_mset)

lemma by_priority_sorted: "sorted (map (transition_priority m) (by_priority m xs))"
  by (simp add: by_priority_def sorted_group_by)

lemma by_priority_Nil [simp]: "by_priority m [] = []"
  by (metis by_priority_mset mset_zero_iff)

lemma fold_fold_concat: "fold (fold f) xss s = fold f (concat xss) s"
  by (induction xss arbitrary: s) auto

definition picked ::
    "(State, nat) btree \<Rightarrow> CurrentState \<Rightarrow> InstanceId bset \<Rightarrow> StateModelDefinition \<Rightarrow> TransitionRequest list \<Rightarrow>
     PendingTransition list \<Rightarrow> PartitionId \<Rightarrow> TransitionRequest list" where
  "picked bounds current live m candidates pending p =
     admitted bounds (initial_counts bounds current live m (bt_get_or [] (group_by pending_partition pending) p) p)
       (by_priority m (filter (\<lambda>c. request_partition c = p) candidates))"

lemma select_partition_picked:
  "select_partition bounds current live m (group_by request_partition candidates) (group_by pending_partition pending) p selected =
     selected @ picked bounds current live m candidates pending p"
proof (cases "filter (\<lambda>c. request_partition c = p) candidates = []")
  case True
  then show ?thesis by (simp add: select_partition_def bt_get_group_by picked_def)
next
  case False
  then show ?thesis
    by (simp only: select_partition_def bt_get_group_by picked_def admitted_def by_priority_def fold_fold_concat
        if_False option.case) (subst admit_append, simp)
qed

lemma select_Inr:
  "select_transitions resource ideal current live candidates pending m = Inr selected \<longleftrightarrow>
     (\<forall>c \<in> set candidates. request_resource c = resource \<and>
        known_partition ideal current m (request_partition c) (request_source c) (request_target c)) \<and>
     (\<forall>t \<in> set pending. known_partition ideal current m (pending_partition t) (pending_source t) (pending_target t)) \<and>
     distinct (map (\<lambda>t. (pending_partition t, pending_instance t)) pending) \<and>
     selected = concat (map (picked (state_bounds m (bt_len live)) current live m candidates pending)
       (bt_keys (bs_collect (bt_keys (preference_lists ideal) @ bt_keys (group_by request_partition candidates)))))"
proof -
  have "fold (\<lambda>p selected. selected @ f p) ps [] = concat (map f ps)" for f :: "PartitionId \<Rightarrow> TransitionRequest list" and ps
    by (induction ps rule: rev_induct) auto
  moreover have "fold (select_partition b current live m (group_by request_partition candidates) (group_by pending_partition pending)) ps [] =
      fold (\<lambda>p selected. selected @ picked b current live m candidates pending p) ps []" for b ps
    by (intro fold_cong) (auto simp: select_partition_picked)
  ultimately show ?thesis
    by (auto simp: select_transitions_def bind_result_Inr group_candidates_Inr group_pending_Inr Let_def)
qed

lemma picked_subset: "mset (picked bounds current live m candidates pending p) \<subseteq># mset (filter (\<lambda>c. request_partition c = p) candidates)"
  unfolding picked_def using admitted_subset by (metis by_priority_mset)

lemma picked_partition: "c \<in> set (picked bounds current live m candidates pending p) \<Longrightarrow> request_partition c = p \<and> c \<in> set candidates"
  using mset_subset_eqD[OF picked_subset] by fastforce

lemma filter_concat_keyed:
  assumes "\<And>k x. x \<in> set (f k) \<Longrightarrow> key x = k" and "distinct ks" and "k \<notin> set ks \<Longrightarrow> f k = []"
  shows "filter (\<lambda>x. key x = k) (concat (map f ks)) = f k"
  using assms(2,3)
proof (induction ks)
  case (Cons a ks)
  have own: "filter (\<lambda>x. key x = k) (f a) = (if a = k then f k else [])"
    using assms(1)[of _ a] by (auto simp: filter_empty_conv intro: filter_True)
  show ?case
  proof (cases "a = k")
    case True
    then have "filter (\<lambda>x. key x = k) (concat (map f ks)) = []"
      using Cons.prems(1) assms(1) by (auto simp: filter_empty_conv)
    with True own show ?thesis by simp
  qed (use Cons own in simp)
qed simp

lemma select_partition_filter:
  assumes "select_transitions resource ideal current live candidates pending m = Inr selected"
  shows "filter (\<lambda>c. request_partition c = p) selected = picked (state_bounds m (bt_len live)) current live m candidates pending p"
proof -
  let ?ps = "bt_keys (bs_collect (bt_keys (preference_lists ideal) @ bt_keys (group_by request_partition candidates)))"
  have "picked (state_bounds m (bt_len live)) current live m candidates pending p = []" if "p \<notin> set ?ps"
  proof -
    have "bt_get (group_by request_partition candidates) p = None"
      using that unfolding bt_keys_contains bs_contains_collect set_append Un_iff by (simp add: bt_contains_def)
    then have "filter (\<lambda>c. request_partition c = p) candidates = []"
      by (simp add: bt_get_group_by split: if_splits)
    then show ?thesis by (simp add: picked_def)
  qed
  then show ?thesis
    using assms filter_concat_keyed[of "picked (state_bounds m (bt_len live)) current live m candidates pending" request_partition ?ps p]
    by (auto simp: select_Inr dest: picked_partition)
qed

lemma select_subset:
  assumes "select_transitions resource ideal current live candidates pending m = Inr selected"
  shows "mset selected \<subseteq># mset candidates"
proof (rule mset_subset_eqI)
  fix c :: TransitionRequest
  have part: "count (mset xs) c = count (mset (filter (\<lambda>x. request_partition x = request_partition c) xs)) c" for xs
    by (simp add: mset_filter)
  show "count (mset selected) c \<le> count (mset candidates) c"
    unfolding part[of selected] part[of candidates] select_partition_filter[OF assms]
    using picked_subset by (rule mset_subset_eq_count)
qed

lemma select_target_filter:
  assumes "select_transitions resource ideal current live candidates pending m = Inr selected"
  shows "filter (\<lambda>c. request_partition c = p \<and> request_target c = s) selected =
    (let ordered = filter (\<lambda>c. request_target c = s) (by_priority m (filter (\<lambda>c. request_partition c = p) candidates)) in
     case bt_get (state_bounds m (bt_len live)) s of
       None \<Rightarrow> ordered
     | Some b \<Rightarrow> take (b - occupancy current live m pending p s) ordered)"
proof -
  let ?b = "state_bounds m (bt_len live)"
  have "filter (\<lambda>c. request_partition c = p \<and> request_target c = s) selected =
      filter (\<lambda>c. request_target c = s) (picked ?b current live m candidates pending p)"
    by (simp flip: select_partition_filter[OF assms] add: conj_commute)
  then show ?thesis
    using initial_counts_occupancy[of ?b s current live m pending p]
    by (simp add: picked_def admitted_filter Let_def bt_contains_def split: option.splits)
qed

lemma leader_standby_bounds:
  "bt_get (state_bounds leader_standby n) s = (if s = State ''LEADER'' then Some 1 else None)"
  by (simp add: state_bounds_def List.map_filter_simps bt_collect_def)

lemma selected_promotions:
  assumes "select_transitions resource ideal current live candidates pending leader_standby = Inr selected"
  shows "length (filter (\<lambda>c. request_partition c = p \<and> request_target c = State ''LEADER'') selected) \<le>
    1 - occupancy current live leader_standby pending p (State ''LEADER'')"
  unfolding select_target_filter[OF assms] by (simp add: leader_standby_bounds Let_def)

section \<open>Properties\<close>

text \<open>Selection accepts its input exactly when every candidate belongs to the resource,
  every candidate and pending transition is for a placed partition or on the way of a
  replica to \<open>DROPPED\<close>, and no replica has two pending transitions.\<close>

lemma select_transitions_accepts:
  "(\<exists>selected. select_transitions resource ideal current live candidates pending m = Inr selected) \<longleftrightarrow>
     (\<forall>c \<in> set candidates. request_resource c = resource \<and>
        known_partition ideal current m (request_partition c) (request_source c) (request_target c)) \<and>
     (\<forall>t \<in> set pending. known_partition ideal current m (pending_partition t) (pending_source t) (pending_target t)) \<and>
     distinct (map (\<lambda>t. (pending_partition t, pending_instance t)) pending)"
  by (simp add: select_Inr)

text \<open>C30: What is selected, per partition and target state: all candidates of an unbounded state, and of a bounded
  state the first candidates in transition-priority order that still fit beside the live
  states and the endpoints of the pending transitions. Nothing is selected twice.\<close>

theorem select_transitions_exact:
  assumes "select_transitions resource ideal current live candidates pending m = Inr selected"
  shows "mset selected \<subseteq># mset candidates \<and>
    filter (\<lambda>c. request_partition c = p \<and> request_target c = s) selected =
    (let ordered = filter (\<lambda>c. request_target c = s) (by_priority m (filter (\<lambda>c. request_partition c = p) candidates)) in
     case bt_get (state_bounds m (bt_len live)) s of
       None \<Rightarrow> ordered
     | Some b \<Rightarrow> take (b - occupancy current live m pending p s) ordered)"
  using select_subset[OF assms] select_target_filter[OF assms] by blast

text \<open>Selection never pushes a bounded state over its bound: the replicas of a partition
  that are in the state, about to enter or leave it, or selected to enter it, stay
  within the bound unless they were over it before.\<close>

lemma selection_within_bounds:
  assumes "select_transitions resource ideal current live candidates pending m = Inr selected"
    and "bt_get (state_bounds m (bt_len live)) s = Some b"
  shows "occupancy current live m pending p s +
      length (filter (\<lambda>c. request_partition c = p \<and> request_target c = s) selected)
    \<le> max b (occupancy current live m pending p s)"
  unfolding select_target_filter[OF assms(1)] by (simp add: assms(2) Let_def)

text \<open>One leader. Under LeaderStandby, while a live replica of the partition is leader, or a
  pending transition enters or leaves leadership, no promotion is selected; otherwise at
  most one is.\<close>

lemma selection_single_leader:
  assumes "select_transitions resource ideal current live candidates pending leader_standby = Inr selected"
  shows "length (filter (\<lambda>c. request_partition c = p \<and> request_target c = State ''LEADER'') selected) \<le>
    1 - occupancy current live leader_standby pending p (State ''LEADER'')"
  using assms by (rule selected_promotions)

section \<open>A concrete selection\<close>

text \<open>Two standbys of one partition ask for promotion while nobody leads.\<close>

definition promotion :: "string \<Rightarrow> TransitionRequest" where
  "promotion i = \<lparr>request_resource = ResourceId ''r'', request_partition = PartitionId ''p'', request_instance = InstanceId i,
     request_source = State ''STANDBY'', request_target = State ''LEADER''\<rparr>"

definition promotion_ideal :: IdealState where
  "promotion_ideal = \<lparr>ideal_resource = ResourceId ''r'', ideal_replicas = 2,
     preference_lists = bt_insert (PartitionId ''p'') [InstanceId ''a'', InstanceId ''b''] bt_empty\<rparr>"

lemma promotion_selected:
  "\<exists>selected. select_transitions (ResourceId ''r'') promotion_ideal CurrentState_default bt_empty
     [promotion ''a'', promotion ''b''] [] leader_standby = Inr selected"
  by (simp add: select_Inr promotion_def promotion_ideal_def known_partition_def preference_list_def)

lemma no_keys_empty: "bt_keys bt_empty = []"
  by (simp add: bt_keys_def bt_empty.rep_eq)

lemma promotion_occupancy: "occupancy CurrentState_default bt_empty leader_standby [] p s = 0"
  by (simp add: occupancy_def no_keys_empty)

theorem select_transitions_exact_witness:
  "\<exists>selected. select_transitions (ResourceId ''r'') promotion_ideal CurrentState_default bt_empty
     [promotion ''a'', promotion ''b''] [] leader_standby = Inr selected \<and>
   length (filter (\<lambda>c. request_partition c = PartitionId ''p'' \<and> request_target c = State ''LEADER'') selected) = 1"
proof -
  obtain sel where sel: "select_transitions (ResourceId ''r'') promotion_ideal CurrentState_default bt_empty
     [promotion ''a'', promotion ''b''] [] leader_standby = Inr sel" using promotion_selected by blast
  have "length (filter (\<lambda>c. request_target c = State ''LEADER'') (by_priority leader_standby [promotion ''a'', promotion ''b''])) =
      size (filter_mset (\<lambda>c. request_target c = State ''LEADER'') (mset (by_priority leader_standby [promotion ''a'', promotion ''b''])))"
    by (metis mset_filter size_mset)
  then have "length (filter (\<lambda>c. request_target c = State ''LEADER'') (by_priority leader_standby [promotion ''a'', promotion ''b''])) = 2"
    by (simp add: promotion_def)
  with select_transitions_exact[OF sel, of "PartitionId ''p''" "State ''LEADER''"] sel show ?thesis
    by (auto simp: leader_standby_bounds promotion_occupancy Let_def promotion_def)
qed

end
