(* ===== verification/Message_Throttle.thy ===== *)
theory Message_Throttle
  imports Message_Selection
begin

text \<open>
  Intermediate state and operational throttling (\<^verbatim>\<open>src/controller/message_throttle.rs\<close>,
  \<^verbatim>\<open>intermediate_state.rs\<close>): quotas at cluster, resource and instance scope, charged by
  pending transitions first and then by the selected transitions that are let through.
  \<open>slice::sort_by\<close> with a comparison function is \<open>sort_by\<close> with its ``not greater'' test.
\<close>

section \<open>Quota configuration\<close>

datatype RebalanceType = AnyBalance | RecoveryBalance | LoadBalance

definition rebalance_rank :: "RebalanceType \<Rightarrow> nat" where
  "rebalance_rank t = (case t of AnyBalance \<Rightarrow> 0 | RecoveryBalance \<Rightarrow> 1 | LoadBalance \<Rightarrow> 2)"

instantiation RebalanceType :: linorder
begin
definition less_eq_RebalanceType :: "RebalanceType \<Rightarrow> RebalanceType \<Rightarrow> bool" where
  "less_eq_RebalanceType a b = (rebalance_rank a \<le> rebalance_rank b)"
definition less_RebalanceType :: "RebalanceType \<Rightarrow> RebalanceType \<Rightarrow> bool" where
  "less_RebalanceType a b = (rebalance_rank a < rebalance_rank b)"
instance
  by standard (auto simp: less_eq_RebalanceType_def less_RebalanceType_def rebalance_rank_def split: RebalanceType.splits)
end

datatype ThrottleScope = ClusterScope | ResourceScope | InstanceScope

datatype ThrottleTarget = TargetResource ResourceId | TargetInstance InstanceId

record StateTransitionThrottleConfig =
  config_rebalance_type :: RebalanceType
  config_scope :: ThrottleScope
  max_transitions :: nat
  config_target :: "ThrottleTarget option"

definition ThrottleConfig_new :: "RebalanceType \<Rightarrow> ThrottleScope \<Rightarrow> nat \<Rightarrow> StateTransitionThrottleConfig" where
  "ThrottleConfig_new t scope n =
     \<lparr>config_rebalance_type = t, config_scope = scope, max_transitions = n, config_target = None\<rparr>"

definition ThrottleConfig_for_resource :: "RebalanceType \<Rightarrow> ResourceId \<Rightarrow> nat \<Rightarrow> StateTransitionThrottleConfig" where
  "ThrottleConfig_for_resource t r n =
     \<lparr>config_rebalance_type = t, config_scope = ResourceScope, max_transitions = n,
      config_target = Some (TargetResource r)\<rparr>"

definition ThrottleConfig_for_instance :: "RebalanceType \<Rightarrow> InstanceId \<Rightarrow> nat \<Rightarrow> StateTransitionThrottleConfig" where
  "ThrottleConfig_for_instance t i n =
     \<lparr>config_rebalance_type = t, config_scope = InstanceScope, max_transitions = n,
      config_target = Some (TargetInstance i)\<rparr>"

record OperationalPendingTransition =
  op_resource :: ResourceId
  op_partition :: PartitionId
  op_instance :: InstanceId
  op_source :: State
  op_target :: State

record ResourceTransitionInput =
  input_resource :: ResourceId
  input_replicas :: nat
  input_min_active_replicas :: "nat option"
  input_preference_lists :: "(PartitionId, InstanceId list) btree"
  input_current_state :: CurrentState
  input_best_possible_state :: BestPossibleState
  input_selected_transitions :: "TransitionRequest list"

record IntermediateState =
  intermediate_states :: resource_map

definition IntermediateState_state :: "IntermediateState \<Rightarrow> ResourceId \<Rightarrow> PartitionId \<Rightarrow> InstanceId \<Rightarrow> State option" where
  "IntermediateState_state m r p i = resource_map_state (intermediate_states m) r p i"

record IntermediateThrottleResult =
  intermediate_state :: IntermediateState
  dispatchable_transitions :: "TransitionRequest list"

datatype IntermediateThrottleError =
    DuplicateResource ResourceId
  | DuplicateOperationalPending PartitionId InstanceId
  | ResourceMismatch ResourceId ResourceId
  | UnknownPendingResource ResourceId
  | UnknownSelectedPartition ResourceId PartitionId

definition IntermediateThrottleError_fmt :: "IntermediateThrottleError \<Rightarrow> string" where
  "IntermediateThrottleError_fmt e = (case e of
     DuplicateResource r \<Rightarrow> ''duplicate resource '' @ ResourceId_as_str r
   | DuplicateOperationalPending p i \<Rightarrow>
       ''duplicate pending transition for partition '' @ PartitionId_as_str p @ '' and instance '' @ InstanceId_as_str i
   | ResourceMismatch expected actual \<Rightarrow>
       ''selected transition belongs to resource '' @ ResourceId_as_str actual @ '', expected '' @ ResourceId_as_str expected
   | UnknownPendingResource r \<Rightarrow> ''pending transition references unknown resource '' @ ResourceId_as_str r
   | UnknownSelectedPartition r p \<Rightarrow>
       ''selected transition references unknown partition '' @ PartitionId_as_str p @ '' in resource '' @ ResourceId_as_str r)"

section \<open>The quota controller\<close>

type_synonym quota = "(RebalanceType, nat) btree"

record ThrottleController =
  cluster_quota :: quota
  resource_quotas :: "(ResourceId, quota) btree"
  instance_quotas :: "(InstanceId, quota) btree"

definition ThrottleController_default :: ThrottleController where
  "ThrottleController_default =
     \<lparr>cluster_quota = bt_empty, resource_quotas = bt_empty, instance_quotas = bt_empty\<rparr>"

definition configure :: "StateTransitionThrottleConfig \<Rightarrow> ThrottleController \<Rightarrow> ThrottleController" where
  "configure config c =
     (let set = bt_insert (config_rebalance_type config) (max_transitions config) in
      case config_scope config of
        ClusterScope \<Rightarrow> c\<lparr>cluster_quota := set (cluster_quota c)\<rparr>
      | ResourceScope \<Rightarrow>
          (case config_target config of
             Some (TargetResource r) \<Rightarrow> c\<lparr>resource_quotas := bt_adjust set r (resource_quotas c)\<rparr>
           | _ \<Rightarrow> c\<lparr>resource_quotas := bt_map (\<lambda>_. set) (resource_quotas c)\<rparr>)
      | InstanceScope \<Rightarrow>
          (case config_target config of
             Some (TargetInstance i) \<Rightarrow> c\<lparr>instance_quotas := bt_adjust set i (instance_quotas c)\<rparr>
           | _ \<Rightarrow> c\<lparr>instance_quotas := bt_map (\<lambda>_. set) (instance_quotas c)\<rparr>))"

definition ThrottleController_new ::
    "ResourceTransitionInput list \<Rightarrow> InstanceId bset \<Rightarrow> StateTransitionThrottleConfig list \<Rightarrow> ThrottleController" where
  "ThrottleController_new resources live configs =
     fold configure configs
       (ThrottleController_default
         \<lparr>resource_quotas := fold (\<lambda>r. bt_entry bt_empty id (input_resource r)) resources bt_empty,
          instance_quotas := fold (\<lambda>i. bt_entry bt_empty id i) (bt_keys live) bt_empty\<rparr>)"

definition quota_exhausted :: "quota \<Rightarrow> RebalanceType \<Rightarrow> bool" where
  "quota_exhausted quota t = (bt_get quota AnyBalance = Some 0 \<or> bt_get quota t = Some 0)"

definition charge_quota :: "RebalanceType \<Rightarrow> quota \<Rightarrow> quota" where
  "charge_quota t quota =
     (let quota' = bt_adjust (\<lambda>v. v - 1) AnyBalance quota
      in if t \<noteq> AnyBalance then bt_adjust (\<lambda>v. v - 1) t quota' else quota')"

definition should_throttle :: "ThrottleController \<Rightarrow> RebalanceType \<Rightarrow> ResourceId \<Rightarrow> InstanceId \<Rightarrow> bool" where
  "should_throttle c t r i =
     (quota_exhausted (cluster_quota c) t \<or>
      (case bt_get (resource_quotas c) r of None \<Rightarrow> False | Some q \<Rightarrow> quota_exhausted q t) \<or>
      (case bt_get (instance_quotas c) i of None \<Rightarrow> False | Some q \<Rightarrow> quota_exhausted q t))"

definition charge :: "RebalanceType \<Rightarrow> ResourceId \<Rightarrow> InstanceId \<Rightarrow> ThrottleController \<Rightarrow> ThrottleController" where
  "charge t r i c =
     c\<lparr>cluster_quota := charge_quota t (cluster_quota c),
       resource_quotas := bt_adjust (charge_quota t) r (resource_quotas c),
       instance_quotas := bt_adjust (charge_quota t) i (instance_quotas c)\<rparr>"

section \<open>Classification and priorities\<close>

fun required_fixed ::
    "StateModelDefinition \<Rightarrow> State list \<Rightarrow> nat \<Rightarrow> nat \<Rightarrow> (State, nat) btree \<Rightarrow> nat \<times> nat \<times> (State, nat) btree" where
  "required_fixed m [] candidates remaining_replicas result = (candidates, remaining_replicas, result)"
| "required_fixed m (s # states) candidates remaining_replicas result =
     (if candidates = 0 then (candidates, remaining_replicas, result)
      else (case cardinality_for m s of
          Some (Exact n) \<Rightarrow>
            if 0 < n
            then (let k = min (unat n) candidates
                  in required_fixed m states (candidates - k) (remaining_replicas - k) (bt_insert s k result))
            else required_fixed m states candidates remaining_replicas result
        | Some NodeCount \<Rightarrow>
            required_fixed m states 0 (remaining_replicas - candidates) (bt_insert s candidates result)
        | Some ReplicaCount \<Rightarrow> required_fixed m states candidates remaining_replicas result
        | Some Unbounded \<Rightarrow> required_fixed m states candidates remaining_replicas result
        | None \<Rightarrow> required_fixed m states candidates remaining_replicas result))"

fun required_replica ::
    "StateModelDefinition \<Rightarrow> State list \<Rightarrow> nat \<Rightarrow> nat \<Rightarrow> (State, nat) btree \<Rightarrow> (State, nat) btree" where
  "required_replica m [] candidates remaining_replicas result = result"
| "required_replica m (s # states) candidates remaining_replicas result =
     (if cardinality_for m s = Some ReplicaCount \<and> 0 < candidates \<and> 0 < remaining_replicas
      then bt_insert s (min candidates remaining_replicas) result
      else required_replica m states candidates remaining_replicas result)"

definition required_states ::
    "ResourceTransitionInput \<Rightarrow> PartitionId \<Rightarrow> InstanceId bset \<Rightarrow> StateModelDefinition \<Rightarrow> (State, nat) btree" where
  "required_states resource p live m =
     (let candidates = (case bt_get (input_preference_lists resource) p of
             None \<Rightarrow> 0 | Some pl \<Rightarrow> length (filter (bt_contains live) pl));
          replica_count = (case input_min_active_replicas resource of None \<Rightarrow> input_replicas resource | Some n \<Rightarrow> n);
          (candidates', replicas', result) = required_fixed m (states_by_priority m) candidates replica_count bt_empty
      in required_replica m (states_by_priority m) candidates' replicas' result)"

text \<open>No count is 0 here: only positive ones are inserted, and 1 is removed.\<close>

definition consume_required :: "State \<Rightarrow> (State, nat) btree \<Rightarrow> (State, nat) btree" where
  "consume_required s remaining =
     (case bt_get remaining s of
        None \<Rightarrow> remaining
      | Some n \<Rightarrow> if n = 1 then bt_remove s remaining else bt_insert s (n - 1) remaining)"

definition rebalance_type :: "(State, nat) btree \<Rightarrow> replica_map \<Rightarrow> TransitionRequest \<Rightarrow> RebalanceType" where
  "rebalance_type required current transition =
     (let remaining = (case bt_get current (request_partition transition) of
            None \<Rightarrow> required | Some states \<Rightarrow> fold consume_required (bt_values states) required)
      in if bt_contains remaining (request_target transition) then RecoveryBalance else LoadBalance)"

definition count_active :: "instance_states option \<Rightarrow> instance_states \<Rightarrow> nat" where
  "count_active current best =
     (let remaining = fold (\<lambda>s. bt_entry 0 Suc s) (bt_values best) bt_empty
      in snd (fold (\<lambda>s (remaining, n).
             (case bt_get remaining s of
                None \<Rightarrow> (remaining, n)
              | Some c \<Rightarrow> if c = 0 then (remaining, n) else (bt_insert s (c - 1) remaining, Suc n)))
           (case current of None \<Rightarrow> [] | Some states \<Rightarrow> bt_values states) (remaining, 0)))"

definition partition_key :: "ResourceTransitionInput \<Rightarrow> State \<Rightarrow> PartitionId \<Rightarrow> nat \<times> nat \<times> nat" where
  "partition_key resource top_state p =
     (let current = bt_get (CurrentState_entries (input_current_state resource)) p;
          best = bt_get (BestPossibleState_entries (input_best_possible_state resource)) p;
          miss_top = (if (case current of None \<Rightarrow> False | Some states \<Rightarrow> top_state \<in> set (bt_values states)) then 0 else 1);
          active = (case best of None \<Rightarrow> 0 | Some b \<Rightarrow> count_active current b);
          matched = (case best of None \<Rightarrow> 0 | Some b \<Rightarrow>
             length (filter (\<lambda>(i, s). bt_get b i = Some s) (case current of None \<Rightarrow> [] | Some states \<Rightarrow> entries states)))
      in (miss_top, active, matched))"

definition partition_priority :: "ResourceTransitionInput \<Rightarrow> State \<Rightarrow> PartitionId \<Rightarrow> PartitionId \<Rightarrow> bool" where
  "partition_priority resource top_state l r =
     ((partition_key resource top_state l, l) \<le> (partition_key resource top_state r, r))"

definition state_position :: "StateModelDefinition \<Rightarrow> State \<Rightarrow> nat" where
  "state_position m s = (case position (\<lambda>c. c = s) (states_by_priority m) of None \<Rightarrow> usize_max | Some n \<Rightarrow> n)"

definition preference_position :: "ResourceTransitionInput \<Rightarrow> PartitionId \<Rightarrow> InstanceId \<Rightarrow> nat option" where
  "preference_position resource p i =
     Option.bind (bt_get (input_preference_lists resource) p) (position (\<lambda>j. j = i))"

definition message_priority ::
    "ResourceTransitionInput \<Rightarrow> StateModelDefinition \<Rightarrow> TransitionRequest \<Rightarrow> TransitionRequest \<Rightarrow> bool" where
  "message_priority resource m l r =
     (if request_target l \<noteq> request_target r
      then state_position m (request_target l) \<le> state_position m (request_target r)
      else (preference_position resource (request_partition l) (request_instance l), request_instance l) \<le>
           (preference_position resource (request_partition r) (request_instance r), request_instance r))"

definition pending_as_request :: "OperationalPendingTransition \<Rightarrow> TransitionRequest" where
  "pending_as_request t =
     \<lparr>request_resource = op_resource t, request_partition = op_partition t, request_instance = op_instance t,
      request_source = op_source t, request_target = op_target t\<rparr>"

definition message_pending_priority ::
    "ResourceTransitionInput \<Rightarrow> StateModelDefinition \<Rightarrow> OperationalPendingTransition \<Rightarrow> OperationalPendingTransition \<Rightarrow> bool" where
  "message_pending_priority resource m l r =
     message_priority resource m (pending_as_request l) (pending_as_request r)"

section \<open>Validation and pending work\<close>

definition is_drop_transition :: "TransitionRequest \<Rightarrow> ResourceTransitionInput \<Rightarrow> StateModelDefinition \<Rightarrow> bool" where
  "is_drop_transition transition resource m =
     (case find (\<lambda>st. State_as_str st = ''DROPPED'') (states_by_priority m) of
        None \<Rightarrow> False
      | Some dropped \<Rightarrow>
          bt_contains (CurrentState_entries (input_current_state resource)) (request_partition transition) \<and>
          next_state_toward m (request_source transition) dropped = Some (request_target transition))"

definition validate_selected :: "ResourceTransitionInput \<Rightarrow> StateModelDefinition \<Rightarrow> IntermediateThrottleError + unit" where
  "validate_selected resource m =
     try_fold (\<lambda>t _.
       if request_resource t \<noteq> input_resource resource
       then Inl (ResourceMismatch (input_resource resource) (request_resource t))
       else if \<not> bt_contains (input_preference_lists resource) (request_partition t) \<or>
               (\<not> (case bt_get (input_preference_lists resource) (request_partition t) of None \<Rightarrow> False | Some pl \<Rightarrow> pl \<noteq> []) \<and>
                \<not> is_drop_transition t resource m)
       then Inl (UnknownSelectedPartition (input_resource resource) (request_partition t))
       else Inr ()) (input_selected_transitions resource) ()"

definition pending_matches :: "OperationalPendingTransition list option \<Rightarrow> TransitionRequest \<Rightarrow> bool" where
  "pending_matches pending transition =
     (case pending of None \<Rightarrow> False | Some ps \<Rightarrow>
       list_ex (\<lambda>c. op_partition c = request_partition transition \<and> op_instance c = request_instance transition \<and>
                    op_source c = request_source transition \<and> op_target c = request_target transition) ps)"

definition charge_pending ::
    "InstanceId bset \<Rightarrow> StateModelDefinition \<Rightarrow> ResourceTransitionInput \<Rightarrow> OperationalPendingTransition list \<Rightarrow>
     ThrottleController \<Rightarrow> ThrottleController" where
  "charge_pending live m resource pending controller =
     fold (\<lambda>(p, transitions) c.
       let required = required_states resource p live m in
       fold (\<lambda>t c.
         let current = Option.bind (bt_get (CurrentState_entries (input_current_state resource)) p)
                         (\<lambda>states. bt_get states (op_instance t))
         in if current \<noteq> Some (op_source t) \<or> current = Some (op_target t) then c
            else charge (rebalance_type required (CurrentState_entries (input_current_state resource)) (pending_as_request t))
                   (input_resource resource) (op_instance t) c)
         (sort_by (message_pending_priority resource m) transitions) c)
       (entries (group_by op_partition pending)) controller"

text \<open>\<open>apply_pending\<close> and the closing loop of the main function write transitions into the
  derived state in the same way: a drop removes the replica, anything else sets it.\<close>

definition derive_replica :: "State option \<Rightarrow> PartitionId \<Rightarrow> InstanceId \<Rightarrow> State \<Rightarrow> replica_map \<Rightarrow> replica_map" where
  "derive_replica dropped p i s states =
     (if Some s = dropped then bt_adjust (bt_remove i) p states
      else bt_entry bt_empty (bt_insert i s) p states)"

definition apply_pending ::
    "State option \<Rightarrow> OperationalPendingTransition list option \<Rightarrow> replica_map \<Rightarrow> replica_map" where
  "apply_pending dropped pending states =
     (case pending of None \<Rightarrow> states
      | Some ps \<Rightarrow> fold (\<lambda>t. derive_replica dropped (op_partition t) (op_instance t) (op_target t)) ps states)"

section \<open>The throttling loops\<close>

type_synonym throttle_state = "ThrottleController \<times> replica_map \<times> TransitionRequest list"

definition throttle_message ::
    "ResourceTransitionInput \<Rightarrow> OperationalPendingTransition list option \<Rightarrow> (State, nat) btree \<Rightarrow>
     TransitionRequest \<Rightarrow> throttle_state \<Rightarrow> throttle_state" where
  "throttle_message resource pending required t st = (case st of (controller, derived, dispatchable) \<Rightarrow>
     if pending_matches pending t then (controller, derived, dispatchable)
     else
       (let rt = rebalance_type required derived t in
        if should_throttle controller rt (input_resource resource) (request_instance t)
        then (controller, derived, dispatchable)
        else (charge rt (input_resource resource) (request_instance t) controller,
              bt_entry bt_empty (bt_insert (request_instance t) (request_target t)) (request_partition t) derived,
              dispatchable @ [t])))"

definition throttle_partition ::
    "InstanceId bset \<Rightarrow> StateModelDefinition \<Rightarrow> ResourceTransitionInput \<Rightarrow> OperationalPendingTransition list option \<Rightarrow>
     (PartitionId, TransitionRequest list) btree \<Rightarrow> PartitionId \<Rightarrow> throttle_state \<Rightarrow> throttle_state" where
  "throttle_partition live m resource pending selected_by_partition p st =
     (case bt_get selected_by_partition p of
        None \<Rightarrow> st
      | Some messages \<Rightarrow>
          fold (throttle_message resource pending (required_states resource p live m))
            (sort_by (message_priority resource m) messages) st)"

definition throttle_resource ::
    "InstanceId bset \<Rightarrow> StateModelDefinition \<Rightarrow> (ResourceId, OperationalPendingTransition list) btree \<Rightarrow>
     ResourceTransitionInput \<Rightarrow> ThrottleController \<times> TransitionRequest list \<times> resource_map \<Rightarrow>
     IntermediateThrottleError + ThrottleController \<times> TransitionRequest list \<times> resource_map" where
  "throttle_resource live m pending_by_resource resource st = (case st of (controller, dispatchable, intermediate) \<Rightarrow>
     bind_result (validate_selected resource m) (\<lambda>_.
       if input_selected_transitions resource = []
       then Inr (controller, dispatchable,
                 bt_insert (input_resource resource) (BestPossibleState_entries (input_best_possible_state resource)) intermediate)
       else
         (let dropped = find (\<lambda>st. State_as_str st = ''DROPPED'') (states_by_priority m);
              pending = bt_get pending_by_resource (input_resource resource);
              selected_by_partition = group_by request_partition (input_selected_transitions resource);
              partition_order = sort_by (partition_priority resource (highest_priority_state m)) (bt_keys selected_by_partition);
              (controller', derived, dispatchable') =
                fold (throttle_partition live m resource pending selected_by_partition) partition_order
                  (controller, CurrentState_entries (input_current_state resource), dispatchable);
              derived' = apply_pending dropped pending derived;
              derived'' = fold (\<lambda>t. derive_replica dropped (request_partition t) (request_instance t) (request_target t))
                (filter (\<lambda>t. t \<in> set dispatchable') (input_selected_transitions resource)) derived'
          in Inr (controller', dispatchable', bt_insert (input_resource resource) derived'' intermediate))))"

definition compute_intermediate_and_throttle ::
    "ResourceTransitionInput list \<Rightarrow> InstanceId bset \<Rightarrow> OperationalPendingTransition list \<Rightarrow>
     StateTransitionThrottleConfig list \<Rightarrow> StateModelDefinition \<Rightarrow> IntermediateThrottleError + IntermediateThrottleResult" where
  "compute_intermediate_and_throttle resources live pending configs m =
     bind_result (try_fold (\<lambda>r seen. if bt_contains seen (input_resource r) then Inl (DuplicateResource (input_resource r))
                                       else Inr (bs_insert (input_resource r) seen)) resources bt_empty) (\<lambda>resource_indexes.
     bind_result (try_fold (\<lambda>t _. if bt_contains resource_indexes (op_resource t) then Inr ()
                                    else Inl (UnknownPendingResource (op_resource t))) pending ()) (\<lambda>_.
     bind_result (try_fold (\<lambda>t (keys, groups).
          if bt_contains keys (op_resource t, op_partition t, op_instance t)
          then Inl (DuplicateOperationalPending (op_partition t) (op_instance t))
          else Inr (bs_insert (op_resource t, op_partition t, op_instance t) keys, group_push op_resource t groups))
        pending (bt_empty, bt_empty)) (\<lambda>(_, pending_by_resource).
       let controller = fold (\<lambda>r. charge_pending live m r (bt_get_or [] pending_by_resource (input_resource r)))
             resources (ThrottleController_new resources live configs)
       in bind_result (try_fold (throttle_resource live m pending_by_resource) resources (controller, [], bt_empty))
            (\<lambda>(_, dispatchable, intermediate).
               Inr \<lparr>intermediate_state = \<lparr>intermediate_states = intermediate\<rparr>, dispatchable_transitions = dispatchable\<rparr>))))"

end
