(* ===== verification/Message_Throttle_Laws.thy ===== *)
theory Message_Throttle_Laws
  imports Message_Throttle
begin

text \<open>
  Laws of the throttle: what a configuration means for a quota, the budget argument that
  bounds admitted work by its quota, what is dispatched, and the intermediate state.
\<close>

section \<open>Admission against a budget\<close>

text \<open>
  The interface between the quota controller and the loops that consult it: a request
  may be blocked, an admitted request is charged. \<open>admits\<close> are the histories of
  admissions.
\<close>

fun admits :: "('c \<Rightarrow> 'r \<Rightarrow> bool) \<Rightarrow> ('r \<Rightarrow> 'c \<Rightarrow> 'c) \<Rightarrow> 'c \<Rightarrow> 'r list \<Rightarrow> 'c \<Rightarrow> bool" where
  "admits blocked chg c [] c' \<longleftrightarrow> c' = c"
| "admits blocked chg c (r # log) c' \<longleftrightarrow> \<not> blocked c r \<and> admits blocked chg (chg r c) log c'"

lemma admits_append: "admits blocked chg c log c1 \<Longrightarrow> admits blocked chg c1 log' c2 \<Longrightarrow> admits blocked chg c (log @ log') c2"
  by (induction log arbitrary: c) auto

locale admission =
  fixes blocked :: "'c \<Rightarrow> 'r \<Rightarrow> bool" and chg :: "'r \<Rightarrow> 'c \<Rightarrow> 'c"
    and budget :: "'c \<Rightarrow> nat option" and counts :: "'r \<Rightarrow> bool"
  assumes charged: "budget (chg r c) = (if counts r then map_option (\<lambda>v. v - 1) (budget c) else budget c)"
    and exhausted: "counts r \<Longrightarrow> budget c = Some 0 \<Longrightarrow> blocked c r"
begin

lemma admitted_within_budget:
  "admits blocked chg c log c' \<Longrightarrow> budget c = Some v \<Longrightarrow>
     length (filter counts log) \<le> v \<and> budget c' = Some (v - length (filter counts log))"
proof (induction log arbitrary: c v)
  case (Cons r log)
  show ?case
  proof (cases "counts r")
    case True
    then have "0 < v" using Cons.prems exhausted[of r c] by (cases v) auto
    moreover have "admits blocked chg (chg r c) log c'" "budget (chg r c) = Some (v - 1)"
      using Cons.prems True by (auto simp: charged)
    note Cons.IH[OF this]
    ultimately show ?thesis using True by auto
  qed (use Cons in \<open>auto simp: charged\<close>)
qed simp

lemma charges_budget:
  "budget c = Some v \<Longrightarrow> budget (fold chg rs c) = Some (v - length (filter counts rs))"
  by (induction rs arbitrary: c v) (auto simp: charged)

end

datatype quota_scope = WholeCluster | OneResource ResourceId | OneInstance InstanceId

definition quota_of :: "quota_scope \<Rightarrow> RebalanceType \<Rightarrow> ThrottleController \<Rightarrow> nat option" where
  "quota_of k T c = (case k of
     WholeCluster \<Rightarrow> bt_get (cluster_quota c) T
   | OneResource r \<Rightarrow> Option.bind (bt_get (resource_quotas c) r) (\<lambda>q. bt_get q T)
   | OneInstance i \<Rightarrow> Option.bind (bt_get (instance_quotas c) i) (\<lambda>q. bt_get q T))"

definition in_scope :: "quota_scope \<Rightarrow> ResourceId \<Rightarrow> InstanceId \<Rightarrow> bool" where
  "in_scope k r i = (case k of WholeCluster \<Rightarrow> True | OneResource r' \<Rightarrow> r = r' | OneInstance i' \<Rightarrow> i = i')"

definition counted :: "quota_scope \<Rightarrow> RebalanceType \<Rightarrow> RebalanceType \<times> ResourceId \<times> InstanceId \<Rightarrow> bool" where
  "counted k T = (\<lambda>(t, r, i). in_scope k r i \<and> (T = AnyBalance \<or> t = T))"

abbreviation blocked3 :: "ThrottleController \<Rightarrow> RebalanceType \<times> ResourceId \<times> InstanceId \<Rightarrow> bool" where
  "blocked3 c \<equiv> \<lambda>(t, r, i). should_throttle c t r i"

abbreviation charge3 :: "RebalanceType \<times> ResourceId \<times> InstanceId \<Rightarrow> ThrottleController \<Rightarrow> ThrottleController" where
  "charge3 \<equiv> \<lambda>(t, r, i). charge t r i"

lemma bt_get_charge_quota:
  "bt_get (charge_quota t q) T = (if T = AnyBalance \<or> t = T then map_option (\<lambda>v. v - 1) (bt_get q T) else bt_get q T)"
  by (simp add: charge_quota_def bt_get_adjust Let_def)

interpretation throttle: admission blocked3 charge3 "quota_of k T" "counted k T" for k T
proof
  fix q :: "RebalanceType \<times> ResourceId \<times> InstanceId" and c
  obtain t r i where q: "q = (t, r, i)" by (cases q)
  show "quota_of k T (charge3 q c) = (if counted k T q then map_option (\<lambda>v. v - 1) (quota_of k T c) else quota_of k T c)"
    by (cases k; cases "bt_get (resource_quotas c) r"; cases "bt_get (instance_quotas c) i")
      (auto simp: q quota_of_def counted_def in_scope_def charge_def bt_get_adjust bt_get_charge_quota)
  show "blocked3 c q" if "counted k T q" "quota_of k T c = Some 0"
    using that by (auto simp: q quota_of_def counted_def in_scope_def should_throttle_def quota_exhausted_def
        split: quota_scope.splits Option.bind_splits)
qed

section \<open>What a configuration means\<close>

definition config_applies :: "quota_scope \<Rightarrow> RebalanceType \<Rightarrow> StateTransitionThrottleConfig \<Rightarrow> bool" where
  "config_applies k T config \<longleftrightarrow> config_rebalance_type config = T \<and>
     (case k of
        WholeCluster \<Rightarrow> config_scope config = ClusterScope
      | OneResource r \<Rightarrow> config_scope config = ResourceScope \<and> (\<forall>r'. config_target config = Some (TargetResource r') \<longrightarrow> r' = r)
      | OneInstance i \<Rightarrow> config_scope config = InstanceScope \<and> (\<forall>i'. config_target config = Some (TargetInstance i') \<longrightarrow> i' = i))"

definition scope_known :: "quota_scope \<Rightarrow> ThrottleController \<Rightarrow> bool" where
  "scope_known k c = (case k of WholeCluster \<Rightarrow> True
     | OneResource r \<Rightarrow> bt_contains (resource_quotas c) r | OneInstance i \<Rightarrow> bt_contains (instance_quotas c) i)"

lemma scope_known_configure: "scope_known k (configure config c) = scope_known k c"
  by (cases k) (auto simp: scope_known_def configure_def Let_def bt_contains_def bt_get_adjust
      split: ThrottleScope.splits option.splits ThrottleTarget.splits)

lemma quota_of_configure:
  "quota_of k T (configure config c) =
     (if scope_known k c \<and> config_applies k T config then Some (max_transitions config) else quota_of k T c)"
  by (cases k; cases "config_scope config"; cases "config_target config")
    (auto simp: quota_of_def scope_known_def config_applies_def configure_def Let_def bt_contains_def bt_get_adjust
      split: option.splits ThrottleTarget.splits Option.bind_splits)

lemma quota_of_fold_configure:
  "quota_of k T (fold configure configs c) =
     (case (if scope_known k c then find (config_applies k T) (rev configs) else None) of
        Some config \<Rightarrow> Some (max_transitions config) | None \<Rightarrow> quota_of k T c)"
proof (induction configs rule: rev_induct)
  case (snoc config configs)
  have "scope_known k (fold configure configs c) = scope_known k c"
    by (induction configs rule: rev_induct) (auto simp: scope_known_configure)
  with snoc show ?case by (auto simp: quota_of_configure)
qed simp

lemma fold_entry_empty:
  "bt_get (fold (\<lambda>x. bt_entry bt_empty id (f x)) xs m) k =
     (if k \<in> f ` set xs then Some (bt_get_or bt_empty m k) else bt_get m k)"
  by (induction xs arbitrary: m) (auto simp: bt_entry_def bt_get_or_def split: option.splits)

lemma quota_of_new:
  "quota_of k T (ThrottleController_new resources live configs) =
     (if (case k of WholeCluster \<Rightarrow> True | OneResource r \<Rightarrow> r \<in> input_resource ` set resources | OneInstance i \<Rightarrow> bt_contains live i)
      then map_option max_transitions (find (config_applies k T) (rev configs)) else None)"
proof -
  define c0 where "c0 = ThrottleController_default
         \<lparr>resource_quotas := fold (\<lambda>r. bt_entry bt_empty id (input_resource r)) resources bt_empty,
          instance_quotas := fold (\<lambda>i. bt_entry bt_empty id i) (bt_keys live) bt_empty\<rparr>"
  have inst: "bt_get (instance_quotas c0) i = (if bt_contains live i then Some bt_empty else None)" for i
    using fold_entry_empty[of "\<lambda>x. x" "bt_keys live" "bt_empty :: (InstanceId, quota) btree" i] by (simp add: c0_def bt_keys_contains)
  have res: "bt_get (resource_quotas c0) r = (if r \<in> input_resource ` set resources then Some bt_empty else None)" for r
    by (simp add: c0_def fold_entry_empty)
  have "cluster_quota c0 = bt_empty" by (simp add: c0_def ThrottleController_default_def)
  then have "quota_of k T c0 = None" by (simp add: quota_of_def inst res split: quota_scope.splits)
  moreover have "scope_known k c0 \<longleftrightarrow>
      (case k of WholeCluster \<Rightarrow> True | OneResource r \<Rightarrow> r \<in> input_resource ` set resources | OneInstance i \<Rightarrow> bt_contains live i)"
    by (auto simp: scope_known_def bt_contains_def inst res split: quota_scope.splits)
  ultimately show ?thesis
    by (simp add: ThrottleController_new_def c0_def[symmetric] quota_of_fold_configure split: option.splits)
qed

section \<open>One resource's messages\<close>

definition replica_get :: "replica_map \<Rightarrow> PartitionId \<Rightarrow> InstanceId \<Rightarrow> State option" where
  "replica_get m p i = Option.bind (bt_get m p) (\<lambda>states. bt_get states i)"

abbreviation replica_of :: "TransitionRequest \<Rightarrow> PartitionId \<times> InstanceId" where
  "replica_of q \<equiv> (request_partition q, request_instance q)"

text \<open>The derived state once a message is taken as done, and the charges for a list of messages:
  each is classified by the state that the ones before it leave.\<close>

definition assume_done :: "TransitionRequest \<Rightarrow> replica_map \<Rightarrow> replica_map" where
  "assume_done q = bt_entry bt_empty (bt_insert (request_instance q) (request_target q)) (request_partition q)"

fun admissions :: "ResourceId \<Rightarrow> (PartitionId \<Rightarrow> (State, nat) btree) \<Rightarrow> replica_map \<Rightarrow> TransitionRequest list \<Rightarrow> (RebalanceType \<times> ResourceId \<times> InstanceId) list" where
  "admissions r required d [] = []"
| "admissions r required d (q # qs) = (rebalance_type (required (request_partition q)) d q, r, request_instance q) # admissions r required (assume_done q d) qs"

lemma admissions_append: "admissions r required d (qs @ qs') = admissions r required d qs @ admissions r required (fold assume_done qs d) qs'"
  by (induction qs arbitrary: d) auto

lemma admissions_of: "list_all2 (\<lambda>(t, r', i) q. r' = r \<and> i = request_instance q) (admissions r required d qs) qs"
  by (induction qs arbitrary: d) auto

lemma replica_get_insert:
  "replica_get (bt_entry bt_empty (bt_insert i s) p m) p' i' = (if p' = p \<and> i' = i then Some s else replica_get m p' i')"
  by (simp add: replica_get_def bt_entry_def bt_get_or_def split: option.splits)

lemma replica_get_done: "(p, i) \<notin> replica_of ` set qs \<Longrightarrow> replica_get (fold assume_done qs d) p i = replica_get d p i"
  by (induction qs arbitrary: d) (auto simp: assume_done_def replica_get_insert)

text \<open>
  What a run over messages does: it dispatches some of them, none twice and none that is
  skipped, admits the history of their charges, and takes them as done.
\<close>

definition throttle_run ::
    "ResourceId \<Rightarrow> (PartitionId \<Rightarrow> (State, nat) btree) \<Rightarrow> (TransitionRequest \<Rightarrow> bool) \<Rightarrow> TransitionRequest list \<Rightarrow> throttle_state \<Rightarrow> throttle_state \<Rightarrow> bool" where
  "throttle_run r required skip xs st st' \<longleftrightarrow>
     (\<exists>new. admits blocked3 charge3 (fst st) (admissions r required (fst (snd st)) new) (fst st') \<and> snd (snd st') = snd (snd st) @ new \<and>
        mset new \<subseteq># mset xs \<and> (\<forall>q \<in> set new. \<not> skip q) \<and> fst (snd st') = fold assume_done new (fst (snd st)))"

lemma throttle_run_nil: "throttle_run r required skip [] st st"
  unfolding throttle_run_def by (intro exI[of _ "[]"]) simp

lemma throttle_run_trans:
  assumes "throttle_run r required skip xs st st1" and "throttle_run r required skip ys st1 st2"
  shows "throttle_run r required skip (xs @ ys) st st2"
proof -
  obtain new where 1: "admits blocked3 charge3 (fst st) (admissions r required (fst (snd st)) new) (fst st1)" "snd (snd st1) = snd (snd st) @ new"
    "mset new \<subseteq># mset xs" "\<forall>q \<in> set new. \<not> skip q" "fst (snd st1) = fold assume_done new (fst (snd st))"
    using assms(1) unfolding throttle_run_def by blast
  obtain new' where 2: "admits blocked3 charge3 (fst st1) (admissions r required (fst (snd st1)) new') (fst st2)" "snd (snd st2) = snd (snd st1) @ new'"
    "mset new' \<subseteq># mset ys" "\<forall>q \<in> set new'. \<not> skip q" "fst (snd st2) = fold assume_done new' (fst (snd st1))"
    using assms(2) unfolding throttle_run_def by blast
  show ?thesis unfolding throttle_run_def
  proof (intro exI conjI)
    show "admits blocked3 charge3 (fst st) (admissions r required (fst (snd st)) (new @ new')) (fst st2)"
      using admits_append[OF 1(1) 2(1)] by (simp add: admissions_append 1(5))
    show "snd (snd st2) = snd (snd st) @ (new @ new')" using 1(2) 2(2) by simp
    show "mset (new @ new') \<subseteq># mset (xs @ ys)" using 1(3) 2(3) by (simp add: subset_mset.add_mono)
    show "\<forall>q \<in> set (new @ new'). \<not> skip q" using 1(4) 2(4) by auto
    show "fst (snd st2) = fold assume_done (new @ new') (fst (snd st))" using 1(5) 2(5) by simp
  qed
qed

lemma throttle_message_run:
  assumes "required (request_partition t) = needed"
  shows "throttle_run (input_resource resource) required (pending_matches pending) [t] st (throttle_message resource pending needed t st)"
proof -
  obtain c d disp where st: "st = (c, d, disp)" by (cases st)
  let ?rt = "rebalance_type needed d t"
  show ?thesis
  proof (cases "pending_matches pending t \<or> should_throttle c ?rt (input_resource resource) (request_instance t)")
    case True
    then have "throttle_message resource pending needed t st = st" by (auto simp: throttle_message_def st Let_def)
    then show ?thesis unfolding throttle_run_def by (intro exI[of _ "[]"]) simp
  next
    case False
    then show ?thesis unfolding throttle_run_def
      by (intro exI[of _ "[t]"]) (simp add: throttle_message_def st Let_def assume_done_def assms)
  qed
qed

lemma throttle_run_fold:
  assumes "\<And>x st. x \<in> set xs \<Longrightarrow> throttle_run r required skip (g x) st (f x st)"
  shows "throttle_run r required skip (concat (map g xs)) st (fold f xs st)"
  using assms
proof (induction xs arbitrary: st)
  case (Cons x xs)
  have "throttle_run r required skip (g x) st (f x st)" by (rule Cons.prems) simp
  moreover have "throttle_run r required skip (concat (map g xs)) (f x st) (fold f xs (f x st))" by (rule Cons.IH) (simp add: Cons.prems)
  ultimately show ?case using throttle_run_trans by simp
qed (simp add: throttle_run_nil)

lemma throttle_run_mset: "throttle_run r required skip xs st st' \<Longrightarrow> mset xs = mset ys \<Longrightarrow> throttle_run r required skip ys st st'"
  unfolding throttle_run_def by simp

lemma throttle_partition_run:
  assumes "\<forall>t \<in> set (bt_get_or [] groups p). request_partition t = p"
  shows "throttle_run (input_resource resource) (\<lambda>p. required_states resource p live m) (pending_matches pending) (bt_get_or [] groups p) st
     (throttle_partition live m resource pending groups p st)"
proof (cases "bt_get groups p")
  case None
  then show ?thesis by (simp add: throttle_partition_def bt_get_or_def throttle_run_nil)
next
  case (Some messages)
  have "throttle_run (input_resource resource) (\<lambda>p. required_states resource p live m) (pending_matches pending) (concat (map (\<lambda>t. [t]) (sort_by (message_priority resource m) messages)))
     st (fold (throttle_message resource pending (required_states resource p live m)) (sort_by (message_priority resource m) messages) st)"
  proof (rule throttle_run_fold, rule throttle_message_run)
    fix t assume "t \<in> set (sort_by (message_priority resource m) messages)"
    then have "t \<in> set messages" by (metis mset_sort_by set_mset_mset)
    then show "required_states resource (request_partition t) live m = required_states resource p live m" using assms Some by (simp add: bt_get_or_def)
  qed
  then show ?thesis
    using Some by (auto simp: throttle_partition_def bt_get_or_def elim!: throttle_run_mset)
qed

lemma mset_concat_map_perm: "mset xs = mset ys \<Longrightarrow> mset (concat (map f xs)) = mset (concat (map f ys))"
proof -
  have "mset (concat (map f zs)) = sum_mset (image_mset (\<lambda>x. mset (f x)) (mset zs))" for zs
    by (induction zs) auto
  then show "mset xs = mset ys \<Longrightarrow> ?thesis" by simp
qed

lemma throttle_partitions_run:
  "throttle_run (input_resource resource) (\<lambda>p. required_states resource p live m) (pending_matches pending) selected st
     (fold (throttle_partition live m resource pending (group_by request_partition selected))
        (sort_by (partition_priority resource t) (bt_keys (group_by request_partition selected))) st)"
proof -
  let ?g = "group_by request_partition selected"
  have "mset (concat (map (bt_get_or [] ?g) (sort_by (partition_priority resource t) (bt_keys ?g)))) =
      mset (concat (map (bt_get_or [] ?g) (bt_keys ?g)))"
    by (rule mset_concat_map_perm) simp
  also have "map (bt_get_or [] ?g) (bt_keys ?g) = bt_values ?g"
    by (auto simp: bt_keys_def bt_values_def bt_get_or_def bt_entries_iff)
  finally have "mset (concat (map (bt_get_or [] ?g) (sort_by (partition_priority resource t) (bt_keys ?g)))) = mset selected"
    by (simp add: mset_group_by)
  moreover have "throttle_run (input_resource resource) (\<lambda>p. required_states resource p live m) (pending_matches pending)
      (concat (map (bt_get_or [] ?g) (sort_by (partition_priority resource t) (bt_keys ?g)))) st
      (fold (throttle_partition live m resource pending ?g) (sort_by (partition_priority resource t) (bt_keys ?g)) st)"
    by (rule throttle_run_fold, rule throttle_partition_run) (auto simp: bt_get_or_def bt_get_group_by split: if_splits)
  ultimately show ?thesis by (rule throttle_run_mset[rotated])
qed

section \<open>Pending charges\<close>

text \<open>A pending transition is in flight while its replica is still in its source state.\<close>

definition charged_pending :: "ResourceTransitionInput \<Rightarrow> OperationalPendingTransition \<Rightarrow> bool" where
  "charged_pending resource t \<longleftrightarrow>
     CurrentState_state (input_current_state resource) (op_partition t) (op_instance t) = Some (op_source t) \<and>
     op_source t \<noteq> op_target t"

text \<open>Its charge: recovery when the resource still requires a replica in its target state.\<close>

definition pending_charge :: "InstanceId bset \<Rightarrow> StateModelDefinition \<Rightarrow> ResourceTransitionInput \<Rightarrow> OperationalPendingTransition \<Rightarrow> RebalanceType \<times> ResourceId \<times> InstanceId" where
  "pending_charge live m r t =
     (rebalance_type (required_states r (op_partition t) live m) (CurrentState_entries (input_current_state r)) (pending_as_request t),
      input_resource r, op_instance t)"

text \<open>The work of a type that is in flight in a scope.\<close>

definition in_flight :: "InstanceId bset \<Rightarrow> StateModelDefinition \<Rightarrow> quota_scope \<Rightarrow> RebalanceType \<Rightarrow> ResourceTransitionInput list \<Rightarrow> OperationalPendingTransition list \<Rightarrow> nat" where
  "in_flight live m k T resources pending = (\<Sum>r\<leftarrow>resources. length (filter (\<lambda>t. op_resource t = input_resource r \<and>
      charged_pending r t \<and> counted k T (pending_charge live m r t)) pending))"

lemma charge_pending_fold:
  "\<exists>reqs. charge_pending live m r ps c = fold charge3 reqs c \<and>
     (\<forall>k T. length (filter (counted k T) reqs) =
        length (filter (\<lambda>t. charged_pending r t \<and> counted k T (pending_charge live m r t)) ps))"
proof -
  define cur where "cur p t = Option.bind (bt_get (CurrentState_entries (input_current_state r)) p) (\<lambda>states. bt_get states (op_instance t))"
    for p and t :: OperationalPendingTransition
  define req where "req p t = (rebalance_type (required_states r p live m) (CurrentState_entries (input_current_state r)) (pending_as_request t),
      input_resource r, op_instance t)" for p and t :: OperationalPendingTransition
  define ok where "ok p t \<longleftrightarrow> \<not> (cur p t \<noteq> Some (op_source t) \<or> cur p t = Some (op_target t))" for p and t :: OperationalPendingTransition
  define part where "part = (\<lambda>(p, ts). map (req p) (filter (ok p) (sort_by (message_pending_priority r m) ts)))"
  have inner: "fold (\<lambda>t c. if cur p t \<noteq> Some (op_source t) \<or> cur p t = Some (op_target t) then c else charge3 (req p t) c) xs c =
      fold charge3 (map (req p) (filter (ok p) xs)) c" for p xs c
    by (induction xs arbitrary: c) (auto simp: ok_def)
  have "charge_pending live m r ps c = fold (\<lambda>x. fold charge3 (part x)) (entries (group_by op_partition ps)) c"
    unfolding charge_pending_def
  proof (intro fold_cong refl ext)
    fix x :: "PartitionId \<times> OperationalPendingTransition list" and c
    obtain p ts where x: "x = (p, ts)" by (cases x)
    show "(case x of (p, transitions) \<Rightarrow> \<lambda>c. let required = required_states r p live m in
       fold (\<lambda>t c. let current = Option.bind (bt_get (CurrentState_entries (input_current_state r)) p) (\<lambda>states. bt_get states (op_instance t))
         in if current \<noteq> Some (op_source t) \<or> current = Some (op_target t) then c
            else charge (rebalance_type required (CurrentState_entries (input_current_state r)) (pending_as_request t))
                   (input_resource r) (op_instance t) c)
         (sort_by (message_pending_priority r m) transitions) c) c = fold charge3 (part x) c"
      using inner[of p "sort_by (message_pending_priority r m) ts" c]
      by (simp add: x part_def Let_def cur_def req_def cong: if_cong)
  qed
  also have "\<dots> = fold charge3 (concat (map part (entries (group_by op_partition ps)))) c"
    unfolding fold_fold_concat[symmetric] fold_map by (simp add: comp_def)
  finally have run: "charge_pending live m r ps c = fold charge3 (concat (map part (entries (group_by op_partition ps)))) c" .
  let ?P = "\<lambda>k T t. charged_pending r t \<and> counted k T (pending_charge live m r t)"
  have okp: "ok (op_partition t) t = charged_pending r t" for t
    unfolding ok_def cur_def charged_pending_def CurrentState_state_def CurrentState_entries_def ReplicaStates_get_def
    by (auto split: option.splits)
  have reqp: "req (op_partition t) t = pending_charge live m r t" for t by (simp add: req_def pending_charge_def)
  have one: "length (filter (counted k T) (part (p, ts))) = length (filter (?P k T) ts)"
    if "\<forall>t \<in> set ts. op_partition t = p" for k T p ts
  proof -
    have "length (filter (counted k T) (part (p, ts))) =
        length (filter (\<lambda>t. ok p t \<and> counted k T (req p t)) (sort_by (message_pending_priority r m) ts))"
      by (simp add: part_def filter_map comp_def conj_commute)
    also have "\<dots> = size (filter_mset (\<lambda>t. ok p t \<and> counted k T (req p t)) (mset ts))"
      by (metis mset_filter mset_sort_by size_mset)
    also have "\<dots> = length (filter (\<lambda>t. ok p t \<and> counted k T (req p t)) ts)"
      by (metis mset_filter size_mset)
    also have "\<dots> = length (filter (?P k T) ts)"
      using that by (intro arg_cong[where f = length] filter_cong) (auto simp flip: okp reqp)
    finally show ?thesis .
  qed
  have "length (filter (counted k T) (concat (map part xs))) = length (filter (?P k T) (concat (map snd xs)))"
    if "\<forall>(p, ts) \<in> set xs. \<forall>t \<in> set ts. op_partition t = p" for k T xs
    using that by (induction xs) (auto simp: one)
  moreover have "\<forall>(p, ts) \<in> set (entries (group_by op_partition ps)). \<forall>t \<in> set ts. op_partition t = p"
    by (auto simp: bt_entries_iff bt_get_group_by split: if_splits)
  ultimately have "length (filter (counted k T) (concat (map part (entries (group_by op_partition ps))))) =
      length (filter (?P k T) (concat (bt_values (group_by op_partition ps))))" for k T
    by (simp add: bt_values_def)
  also have "length (filter (?P k T) (concat (bt_values (group_by op_partition ps)))) = length (filter (?P k T) ps)" for k T
    using mset_group_by[of op_partition ps] by (metis mset_filter size_mset)
  finally show ?thesis using run by blast
qed

lemma charge_all_pending:
  assumes "quota_of k T c = Some v"
  shows "quota_of k T (fold (\<lambda>r. charge_pending live m r (filter (\<lambda>t. op_resource t = input_resource r) pending)) resources c) =
     Some (v - in_flight live m k T resources pending)"
  using assms
proof (induction resources arbitrary: c v)
  case (Cons r resources)
  let ?ps = "filter (\<lambda>t. op_resource t = input_resource r) pending"
  obtain reqs where reqs: "charge_pending live m r ?ps c = fold charge3 reqs c"
    "length (filter (counted k T) reqs) = length (filter (\<lambda>t. charged_pending r t \<and> counted k T (pending_charge live m r t)) ?ps)"
    using charge_pending_fold[of live m r ?ps c] by blast
  have "quota_of k T (charge_pending live m r ?ps c) =
      Some (v - length (filter (\<lambda>t. charged_pending r t \<and> counted k T (pending_charge live m r t)) ?ps))"
    unfolding reqs(1) using throttle.charges_budget[OF Cons.prems, of reqs] reqs(2) by simp
  from Cons.IH[OF this] show ?case by (simp add: in_flight_def conj_commute conj_left_commute)
qed (simp add: in_flight_def)

lemma list_all2_mono_mem:
  "list_all2 P xs ys \<Longrightarrow> (\<And>x y. x \<in> set xs \<Longrightarrow> y \<in> set ys \<Longrightarrow> P x y \<Longrightarrow> Q x y) \<Longrightarrow> list_all2 Q xs ys"
  by (auto simp: list_all2_conv_all_nth)

section \<open>All resources\<close>

definition valid_selected :: "ResourceTransitionInput \<Rightarrow> StateModelDefinition \<Rightarrow> bool" where
  "valid_selected resource m \<longleftrightarrow> (\<forall>t \<in> set (input_selected_transitions resource).
     request_resource t = input_resource resource \<and>
     bt_contains (input_preference_lists resource) (request_partition t) \<and>
     (bt_get (input_preference_lists resource) (request_partition t) = Some [] \<longrightarrow> is_drop_transition t resource m))"

lemma validate_selected_Inr: "validate_selected resource m = Inr u \<longleftrightarrow> valid_selected resource m"
proof -
  have "try_fold (\<lambda>t _.
       if request_resource t \<noteq> input_resource resource
       then Inl (ResourceMismatch (input_resource resource) (request_resource t))
       else if \<not> bt_contains (input_preference_lists resource) (request_partition t) \<or>
               (\<not> (case bt_get (input_preference_lists resource) (request_partition t) of None \<Rightarrow> False | Some pl \<Rightarrow> pl \<noteq> []) \<and>
                \<not> is_drop_transition t resource m)
       then Inl (UnknownSelectedPartition (input_resource resource) (request_partition t))
       else Inr ()) ts () = Inr u \<longleftrightarrow> (\<forall>t \<in> set ts.
     request_resource t = input_resource resource \<and>
     bt_contains (input_preference_lists resource) (request_partition t) \<and>
     (bt_get (input_preference_lists resource) (request_partition t) = Some [] \<longrightarrow> is_drop_transition t resource m))" for ts
    by (induction ts) (auto simp: bind_result_def bt_contains_def split: option.splits)
  then show ?thesis unfolding validate_selected_def valid_selected_def by simp
qed

abbreviation dropped_state :: "StateModelDefinition \<Rightarrow> State option" where
  "dropped_state m \<equiv> find (\<lambda>st. State_as_str st = ''DROPPED'') (states_by_priority m)"

text \<open>The derived state a resource ends with, once its dispatched messages are known.\<close>

definition derived_state ::
    "StateModelDefinition \<Rightarrow> OperationalPendingTransition list option \<Rightarrow> TransitionRequest list \<Rightarrow> replica_map \<Rightarrow> replica_map" where
  "derived_state m pending dispatched derived =
     fold (\<lambda>t. derive_replica (dropped_state m) (request_partition t) (request_instance t) (request_target t))
       dispatched (apply_pending (dropped_state m) pending derived)"

lemma throttle_resource_Inr:
  assumes "throttle_resource live m groups resource (c, disp, im) = Inr (c', disp', im')"
  shows "valid_selected resource m \<and>
    (\<exists>derived. throttle_run (input_resource resource) (\<lambda>p. required_states resource p live m) (pending_matches (bt_get groups (input_resource resource)))
        (input_selected_transitions resource)
        (c, CurrentState_entries (input_current_state resource), disp) (c', derived, disp') \<and>
      im' = bt_insert (input_resource resource)
        (if input_selected_transitions resource = [] then BestPossibleState_entries (input_best_possible_state resource)
         else derived_state m (bt_get groups (input_resource resource))
           (filter (\<lambda>t. t \<in> set disp') (input_selected_transitions resource)) derived) im)"
proof -
  have v: "valid_selected resource m"
    using assms by (auto simp: throttle_resource_def bind_result_Inr validate_selected_Inr)
  show ?thesis
  proof (cases "input_selected_transitions resource = []")
    case True
    then have "c' = c" "disp' = disp"
      "im' = bt_insert (input_resource resource) (BestPossibleState_entries (input_best_possible_state resource)) im"
      using assms by (auto simp: throttle_resource_def bind_result_Inr)
    with v True show ?thesis by simp (blast intro: throttle_run_nil)
  next
    case False
    let ?st = "fold (throttle_partition live m resource (bt_get groups (input_resource resource)) (group_by request_partition (input_selected_transitions resource)))
        (sort_by (partition_priority resource (highest_priority_state m)) (bt_keys (group_by request_partition (input_selected_transitions resource))))
        (c, CurrentState_entries (input_current_state resource), disp)"
    obtain c1 d1 disp1 where st: "?st = (c1, d1, disp1)" by (cases ?st)
    have "c' = c1" "disp' = disp1" "im' = bt_insert (input_resource resource)
        (derived_state m (bt_get groups (input_resource resource)) (filter (\<lambda>t. t \<in> set disp1) (input_selected_transitions resource)) d1) im"
      using assms False by (auto simp: throttle_resource_def bind_result_Inr Let_def st derived_state_def)
    with v False show ?thesis
      using throttle_partitions_run[where resource = resource and pending = "bt_get groups (input_resource resource)" and selected = "input_selected_transitions resource"
          and st = "(c, CurrentState_entries (input_current_state resource), disp)" and live = live and m = m and t = "highest_priority_state m"]
      unfolding st by auto
  qed
qed

lemma throttle_resources_run:
  assumes "try_fold (throttle_resource live m groups) rs (c, disp, im) = Inr (c', disp', im')"
  shows "\<exists>log new. admits blocked3 charge3 c log c' \<and> disp' = disp @ new \<and>
    list_all2 (\<lambda>(t, r, i) q. r = request_resource q \<and> i = request_instance q) log new \<and>
    mset new \<subseteq># mset (concat (map input_selected_transitions rs)) \<and>
    (\<forall>q \<in> set new. \<not> pending_matches (bt_get groups (request_resource q)) q \<and> request_resource q \<in> input_resource ` set rs)"
  using assms
proof (induction rs arbitrary: c disp im)
  case Nil
  then show ?case by (intro exI[of _ "[]"]) simp
next
  case (Cons r rs)
  obtain c1 disp1 im1 where step: "throttle_resource live m groups r (c, disp, im) = Inr (c1, disp1, im1)"
    and rest: "try_fold (throttle_resource live m groups) rs (c1, disp1, im1) = Inr (c', disp', im')"
    using Cons.prems by (auto simp: bind_result_Inr)
  from throttle_resource_Inr[OF step] obtain d where v: "valid_selected r m" and
    run: "throttle_run (input_resource r) (\<lambda>p. required_states r p live m) (pending_matches (bt_get groups (input_resource r))) (input_selected_transitions r)
        (c, CurrentState_entries (input_current_state r), disp) (c1, d, disp1)" by blast
  then obtain log new where 1: "admits blocked3 charge3 c log c1" "disp1 = disp @ new"
    "list_all2 (\<lambda>(t, r', i) q. r' = input_resource r \<and> i = request_instance q) log new"
    "mset new \<subseteq># mset (input_selected_transitions r)"
    "\<forall>q \<in> set new. \<not> pending_matches (bt_get groups (input_resource r)) q"
    unfolding throttle_run_def using admissions_of by fastforce
  have res: "request_resource q = input_resource r" if "q \<in> set new" for q
    using v mset_subset_eqD[OF 1(4), of q] that by (auto simp: valid_selected_def)
  have log: "list_all2 (\<lambda>(t, r', i) q. r' = request_resource q \<and> i = request_instance q) log new"
    using 1(3) by (rule list_all2_mono_mem) (auto simp: res)
  from Cons.IH[OF rest] obtain log' new' where 2: "admits blocked3 charge3 c1 log' c'" "disp' = disp1 @ new'"
    "list_all2 (\<lambda>(t, r, i) q. r = request_resource q \<and> i = request_instance q) log' new'"
    "mset new' \<subseteq># mset (concat (map input_selected_transitions rs))"
    "\<forall>q \<in> set new'. \<not> pending_matches (bt_get groups (request_resource q)) q \<and> request_resource q \<in> input_resource ` set rs" by blast
  show ?case
  proof (intro exI conjI)
    show "admits blocked3 charge3 c (log @ log') c'" by (rule admits_append[OF 1(1) 2(1)])
    show "disp' = disp @ (new @ new')" using 1(2) 2(2) by simp
    show "list_all2 (\<lambda>(t, r, i) q. r = request_resource q \<and> i = request_instance q) (log @ log') (new @ new')"
      using log 2(3) by (rule list_all2_appendI)
    show "mset (new @ new') \<subseteq># mset (concat (map input_selected_transitions (r # rs)))"
      using 1(4) 2(4) by (simp add: subset_mset.add_mono)
    show "\<forall>q \<in> set (new @ new'). \<not> pending_matches (bt_get groups (request_resource q)) q \<and> request_resource q \<in> input_resource ` set (r # rs)"
      using 1(5) 2(5) res by auto
  qed
qed

text \<open>The charges for dispatched messages of several resources, each classified by the state that the
  earlier ones of its resource leave.\<close>

definition dispatch_charge :: "InstanceId bset \<Rightarrow> StateModelDefinition \<Rightarrow> ResourceTransitionInput list \<Rightarrow> TransitionRequest list \<Rightarrow> TransitionRequest \<Rightarrow> RebalanceType \<times> ResourceId \<times> InstanceId" where
  "dispatch_charge live m resources earlier q =
     (case find (\<lambda>r. input_resource r = request_resource q) resources of
        None \<Rightarrow> LoadBalance
      | Some r \<Rightarrow> rebalance_type (required_states r (request_partition q) live m)
          (fold assume_done (filter (\<lambda>t. request_resource t = request_resource q) earlier) (CurrentState_entries (input_current_state r))) q,
      request_resource q, request_instance q)"

fun dispatch_charges :: "InstanceId bset \<Rightarrow> StateModelDefinition \<Rightarrow> ResourceTransitionInput list \<Rightarrow> TransitionRequest list \<Rightarrow> TransitionRequest list \<Rightarrow> (RebalanceType \<times> ResourceId \<times> InstanceId) list" where
  "dispatch_charges live m resources earlier [] = []"
| "dispatch_charges live m resources earlier (q # qs) = dispatch_charge live m resources earlier q # dispatch_charges live m resources (earlier @ [q]) qs"

lemma dispatch_charges_append:
  "dispatch_charges live m resources earlier (qs @ qs') = dispatch_charges live m resources earlier qs @ dispatch_charges live m resources (earlier @ qs) qs'"
  by (induction qs arbitrary: earlier) auto

lemma admissions_charges:
  assumes "find (\<lambda>r'. input_resource r' = input_resource r) resources = Some r" and "\<forall>q \<in> set qs. request_resource q = input_resource r"
  shows "admissions (input_resource r) (\<lambda>p. required_states r p live m)
      (fold assume_done (filter (\<lambda>t. request_resource t = input_resource r) earlier) (CurrentState_entries (input_current_state r))) qs =
    dispatch_charges live m resources earlier qs"
  using assms(2)
proof (induction qs arbitrary: earlier)
  case (Cons q qs)
  then show ?case using Cons.IH[of "earlier @ [q]"] assms(1) by (simp add: dispatch_charge_def)
qed simp

lemma throttle_resources_charges:
  assumes "try_fold (throttle_resource live m groups) rs (c, disp, im) = Inr (c', disp', im')"
    and "distinct (map input_resource resources)" and "set rs \<subseteq> set resources" and "distinct (map input_resource rs)"
    and "\<forall>q \<in> set disp. request_resource q \<notin> input_resource ` set rs"
  shows "\<exists>new. disp' = disp @ new \<and> admits blocked3 charge3 c (dispatch_charges live m resources disp new) c'"
  using assms(1,3-5)
proof (induction rs arbitrary: c disp im)
  case (Cons r rs)
  obtain c1 disp1 im1 where step: "throttle_resource live m groups r (c, disp, im) = Inr (c1, disp1, im1)"
    and rest: "try_fold (throttle_resource live m groups) rs (c1, disp1, im1) = Inr (c', disp', im')"
    using Cons.prems by (auto simp: bind_result_Inr)
  from throttle_resource_Inr[OF step] obtain new where new: "disp1 = disp @ new" "mset new \<subseteq># mset (input_selected_transitions r)" "valid_selected r m"
    "admits blocked3 charge3 c (admissions (input_resource r) (\<lambda>p. required_states r p live m) (CurrentState_entries (input_current_state r)) new) c1"
    unfolding throttle_run_def by auto
  have res: "\<forall>q \<in> set new. request_resource q = input_resource r"
    using new(3) mset_subset_eqD[OF new(2)] by (auto simp: valid_selected_def)
  have "r \<in> set resources" using Cons.prems(2) by simp
  then have "find (\<lambda>r'. input_resource r' = input_resource r) resources = Some r"
    using assms(2) by (induction resources) auto
  moreover have "filter (\<lambda>t. request_resource t = input_resource r) disp = []" using Cons.prems(4) by (auto simp: filter_empty_conv)
  ultimately have first: "admits blocked3 charge3 c (dispatch_charges live m resources disp new) c1"
    using admissions_charges[of r resources new live m disp] res new(4) by simp
  have "\<forall>q \<in> set disp1. request_resource q \<notin> input_resource ` set rs" using Cons.prems(3,4) res by (auto simp: new(1))
  from Cons.IH[OF rest _ _ this] Cons.prems(2,3) obtain new' where "disp' = disp1 @ new'" "admits blocked3 charge3 c1 (dispatch_charges live m resources disp1 new') c'" by auto
  then show ?case using new(1) admits_append[OF first] by (intro exI[of _ "new @ new'"]) (simp add: dispatch_charges_append)
qed simp

lemma check_resources_Inr:
  "(\<exists>seen. try_fold (\<lambda>r seen. if bt_contains seen (input_resource r) then Inl (DuplicateResource (input_resource r))
        else Inr (bs_insert (input_resource r) seen)) resources bt_empty = Inr seen) \<longleftrightarrow> distinct (map input_resource resources)"
  "try_fold (\<lambda>r seen. if bt_contains seen (input_resource r) then Inl (DuplicateResource (input_resource r))
        else Inr (bs_insert (input_resource r) seen)) resources bt_empty = Inr seen \<Longrightarrow>
     bt_contains seen k \<longleftrightarrow> k \<in> input_resource ` set resources"
proof -
  let ?f = "\<lambda>r seen. if bt_contains seen (input_resource r) then Inl (DuplicateResource (input_resource r))
        else Inr (bs_insert (input_resource r) seen)"
  have "(\<exists>seen. try_fold ?f resources s0 = Inr seen) \<longleftrightarrow>
      distinct (map input_resource resources) \<and> (\<forall>r \<in> set resources. \<not> bt_contains s0 (input_resource r))" for s0
    by (induction resources arbitrary: s0) (auto simp: image_iff)
  then show "(\<exists>seen. try_fold ?f resources bt_empty = Inr seen) \<longleftrightarrow> distinct (map input_resource resources)" by simp
  have "try_fold ?f resources s0 = Inr seen \<Longrightarrow> bt_contains seen k \<longleftrightarrow> k \<in> input_resource ` set resources \<or> bt_contains s0 k" for s0 seen
    by (induction resources arbitrary: s0) (auto split: if_splits)
  then show "try_fold ?f resources bt_empty = Inr seen \<Longrightarrow> bt_contains seen k \<longleftrightarrow> k \<in> input_resource ` set resources" by simp
qed

lemma check_pending_Inr:
  "try_fold (\<lambda>t (keys, groups).
          if bt_contains keys (op_resource t, op_partition t, op_instance t)
          then Inl (DuplicateOperationalPending (op_partition t) (op_instance t))
          else Inr (bs_insert (op_resource t, op_partition t, op_instance t) keys, group_push op_resource t groups))
        pending (bt_empty, bt_empty) = Inr (keys, groups) \<longleftrightarrow>
     distinct (map (\<lambda>t. (op_resource t, op_partition t, op_instance t)) pending) \<and> groups = group_by op_resource pending \<and>
     keys = fold (\<lambda>t. bs_insert (op_resource t, op_partition t, op_instance t)) pending bt_empty"
proof -
  have "try_fold (\<lambda>t (keys, groups).
          if bt_contains keys (op_resource t, op_partition t, op_instance t)
          then Inl (DuplicateOperationalPending (op_partition t) (op_instance t))
          else Inr (bs_insert (op_resource t, op_partition t, op_instance t) keys, group_push op_resource t groups))
        pending (k0, g0) = Inr (keys, groups) \<longleftrightarrow>
     distinct (map (\<lambda>t. (op_resource t, op_partition t, op_instance t)) pending) \<and>
     (\<forall>t \<in> set pending. \<not> bt_contains k0 (op_resource t, op_partition t, op_instance t)) \<and>
     groups = fold (group_push op_resource) pending g0 \<and>
     keys = fold (\<lambda>t. bs_insert (op_resource t, op_partition t, op_instance t)) pending k0" for k0 g0
    by (induction pending arbitrary: k0 g0) (auto simp: image_iff)
  then show ?thesis by (simp add: group_by_def)
qed

definition valid_throttle_input :: "ResourceTransitionInput list \<Rightarrow> OperationalPendingTransition list \<Rightarrow> bool" where
  "valid_throttle_input resources pending \<longleftrightarrow> distinct (map input_resource resources) \<and>
     op_resource ` set pending \<subseteq> input_resource ` set resources \<and>
     distinct (map (\<lambda>t. (op_resource t, op_partition t, op_instance t)) pending)"

definition charged_controller ::
    "InstanceId bset \<Rightarrow> StateModelDefinition \<Rightarrow> ResourceTransitionInput list \<Rightarrow> OperationalPendingTransition list \<Rightarrow>
     ThrottleController \<Rightarrow> ThrottleController" where
  "charged_controller live m resources pending c =
     fold (\<lambda>r. charge_pending live m r (filter (\<lambda>t. op_resource t = input_resource r) pending)) resources c"

lemma pending_group: "bt_get_or [] (group_by op_resource pending) r = filter (\<lambda>t. op_resource t = r) pending"
  by (simp add: bt_get_or_def bt_get_group_by)

lemma compute_throttle_Inr:
  "compute_intermediate_and_throttle resources live pending configs m = Inr result \<longleftrightarrow>
     valid_throttle_input resources pending \<and>
     (\<exists>c'. try_fold (throttle_resource live m (group_by op_resource pending)) resources
        (charged_controller live m resources pending (ThrottleController_new resources live configs), [], bt_empty) =
        Inr (c', dispatchable_transitions result, intermediate_states (intermediate_state result)))"
proof -
  have unk: "try_fold (\<lambda>t _. if bt_contains idx (op_resource t) then Inr () else Inl (UnknownPendingResource (op_resource t))) ps () = Inr u
      \<longleftrightarrow> (\<forall>t \<in> set ps. bt_contains idx (op_resource t))" for idx :: "ResourceId bset" and ps :: "OperationalPendingTransition list" and u
    by (induction ps) auto
  have sub: "(\<forall>t \<in> set pending. op_resource t \<in> S) \<longleftrightarrow> op_resource ` set pending \<subseteq> S" for S by auto
  have rec: "result = \<lparr>intermediate_state = \<lparr>intermediate_states = a\<rparr>, dispatchable_transitions = b\<rparr> \<longleftrightarrow>
      a = intermediate_states (intermediate_state result) \<and> b = dispatchable_transitions result" for a b
    by (cases result) (cases "intermediate_state result", auto)
  show ?thesis
    unfolding compute_intermediate_and_throttle_def bind_result_Inr Let_def valid_throttle_input_def charged_controller_def
    using check_resources_Inr[of resources]
    by (auto simp: bind_result_Inr unk check_pending_Inr pending_group rec sub; metis)
qed

section \<open>The intermediate state\<close>

definition written :: "State option \<Rightarrow> State \<Rightarrow> State option" where
  "written dropped s = (if Some s = dropped then None else Some s)"

lemma replica_get_derive:
  "replica_get (derive_replica dropped p i s m) p' i' = (if p' = p \<and> i' = i then written dropped s else replica_get m p' i')"
  by (cases "bt_get m p") (auto simp: derive_replica_def replica_get_insert written_def replica_get_def bt_get_adjust
      bt_entry_def bt_get_or_def)

lemma replica_get_fold_derive:
  assumes "distinct (map (\<lambda>x. (P x, I x)) xs)"
  shows "replica_get (fold (\<lambda>x. derive_replica dropped (P x) (I x) (S x)) xs m) p i =
     (case find (\<lambda>x. P x = p \<and> I x = i) xs of None \<Rightarrow> replica_get m p i | Some x \<Rightarrow> written dropped (S x))"
  using assms
proof (induction xs arbitrary: m)
  case (Cons x xs)
  have "find (\<lambda>x. P x = p \<and> I x = i) xs = None" if "P x = p" "I x = i"
    using Cons.prems that by (auto simp: find_None_iff image_iff)
  with Cons show ?case by (auto simp: replica_get_derive split: option.splits)
qed simp

lemma find_filter: "find P (filter Q xs) = find (\<lambda>x. Q x \<and> P x) xs"
  by (induction xs) auto

lemma replica_get_current: "replica_get (CurrentState_entries c) p i = CurrentState_state c p i"
  by (simp add: replica_get_def CurrentState_state_def CurrentState_entries_def ReplicaStates_get_def split: option.splits)

definition resource_derived ::
    "StateModelDefinition \<Rightarrow> (ResourceId, OperationalPendingTransition list) btree \<Rightarrow> TransitionRequest list \<Rightarrow>
     ResourceTransitionInput \<Rightarrow> replica_map \<Rightarrow> bool" where
  "resource_derived m groups disp r states \<longleftrightarrow>
     (let mine = filter (\<lambda>t. t \<in> set disp) (input_selected_transitions r) in
      if input_selected_transitions r = [] then states = BestPossibleState_entries (input_best_possible_state r)
      else \<exists>d. states = derived_state m (bt_get groups (input_resource r)) mine d \<and>
        (\<forall>p i. (p, i) \<notin> replica_of ` set mine \<longrightarrow> replica_get d p i = CurrentState_state (input_current_state r) p i))"

lemma throttle_resource_derived:
  assumes "throttle_resource live m groups r (c, disp, im) = Inr (c1, disp1, im1)"
  shows "\<exists>states. im1 = bt_insert (input_resource r) states im \<and> resource_derived m groups disp1 r states"
proof -
  from throttle_resource_Inr[OF assms] obtain d where run: "throttle_run (input_resource r) (\<lambda>p. required_states r p live m) (pending_matches (bt_get groups (input_resource r)))
      (input_selected_transitions r) (c, CurrentState_entries (input_current_state r), disp) (c1, d, disp1)"
    and im: "im1 = bt_insert (input_resource r) (if input_selected_transitions r = [] then BestPossibleState_entries (input_best_possible_state r)
         else derived_state m (bt_get groups (input_resource r)) (filter (\<lambda>t. t \<in> set disp1) (input_selected_transitions r)) d) im" by blast
  from run obtain new where new: "disp1 = disp @ new" "mset new \<subseteq># mset (input_selected_transitions r)" "d = fold assume_done new (CurrentState_entries (input_current_state r))"
    by (auto simp: throttle_run_def)
  have same: "\<forall>p i. (p, i) \<notin> replica_of ` set new \<longrightarrow> replica_get d p i = CurrentState_state (input_current_state r) p i"
    by (simp add: new(3) replica_get_done replica_get_current)
  note 1 = new(1,2) same im
  have "set new \<subseteq> set (filter (\<lambda>t. t \<in> set disp1) (input_selected_transitions r))"
    using 1(1) mset_subset_eqD[OF 1(2)] by auto
  then have "replica_get d p i = CurrentState_state (input_current_state r) p i"
    if "(p, i) \<notin> replica_of ` set (filter (\<lambda>t. t \<in> set disp1) (input_selected_transitions r))" for p i
    using 1(3) that by blast
  then show ?thesis using 1(4) unfolding resource_derived_def Let_def by auto
qed

lemma resource_derived_cong:
  assumes "resource_derived m groups disp1 r states" and "valid_selected r m"
    and "\<And>q. request_resource q = input_resource r \<Longrightarrow> q \<in> set disp1 \<longleftrightarrow> q \<in> set disp2"
  shows "resource_derived m groups disp2 r states"
proof -
  have "filter (\<lambda>t. t \<in> set disp1) (input_selected_transitions r) = filter (\<lambda>t. t \<in> set disp2) (input_selected_transitions r)"
    using assms(2,3) by (intro filter_cong) (auto simp: valid_selected_def)
  then show ?thesis using assms(1) unfolding resource_derived_def by simp
qed

lemma throttle_resources_derived:
  assumes "try_fold (throttle_resource live m groups) rs (c, disp, im) = Inr (c', disp', im')"
    and "distinct (map input_resource rs)"
  shows "(\<forall>k. k \<notin> input_resource ` set rs \<longrightarrow> bt_get im' k = bt_get im k) \<and>
    (\<forall>r \<in> set rs. valid_selected r m \<and> (\<exists>states. bt_get im' (input_resource r) = Some states \<and> resource_derived m groups disp' r states))"
  using assms
proof (induction rs arbitrary: c disp im)
  case (Cons r rs)
  obtain c1 disp1 im1 where step: "throttle_resource live m groups r (c, disp, im) = Inr (c1, disp1, im1)"
    and rest: "try_fold (throttle_resource live m groups) rs (c1, disp1, im1) = Inr (c', disp', im')"
    using Cons.prems by (auto simp: bind_result_Inr)
  have new: "input_resource r \<notin> input_resource ` set rs" using Cons.prems(2) by auto
  have IH: "(\<forall>k. k \<notin> input_resource ` set rs \<longrightarrow> bt_get im' k = bt_get im1 k) \<and>
    (\<forall>r \<in> set rs. valid_selected r m \<and> (\<exists>states. bt_get im' (input_resource r) = Some states \<and> resource_derived m groups disp' r states))"
    using Cons.IH[OF rest] Cons.prems(2) by simp
  obtain states where st: "im1 = bt_insert (input_resource r) states im" "resource_derived m groups disp1 r states"
    using throttle_resource_derived[OF step] by blast
  obtain new' where n: "disp' = disp1 @ new'" "\<forall>q \<in> set new'. request_resource q \<in> input_resource ` set rs"
    using throttle_resources_run[OF rest] by blast
  have v: "valid_selected r m" using throttle_resource_Inr[OF step] by blast
  have "resource_derived m groups disp' r states"
  proof (rule resource_derived_cong[OF st(2) v])
    fix q :: TransitionRequest assume "request_resource q = input_resource r"
    then have "q \<notin> set new'" using n(2) new by metis
    then show "q \<in> set disp1 \<longleftrightarrow> q \<in> set disp'" using n(1) by simp
  qed
  moreover have "bt_get im' (input_resource r) = Some states" using IH new st(1) by simp
  ultimately show ?case using IH v st(1) by auto
qed simp

lemma resource_derived_get:
  assumes "resource_derived m (group_by op_resource pending) disp r states"
    and "distinct (map (\<lambda>t. (op_resource t, op_partition t, op_instance t)) pending)"
    and "distinct (map replica_of (input_selected_transitions r))" and "input_selected_transitions r \<noteq> []"
  shows "replica_get states p i =
    (case find (\<lambda>q. q \<in> set disp \<and> request_partition q = p \<and> request_instance q = i) (input_selected_transitions r) of
       Some q \<Rightarrow> written (dropped_state m) (request_target q)
     | None \<Rightarrow> (case find (\<lambda>t. op_resource t = input_resource r \<and> op_partition t = p \<and> op_instance t = i) pending of
         Some t \<Rightarrow> written (dropped_state m) (op_target t)
       | None \<Rightarrow> CurrentState_state (input_current_state r) p i))"
proof -
  let ?mine = "filter (\<lambda>t. t \<in> set disp) (input_selected_transitions r)"
  let ?ps = "filter (\<lambda>t. op_resource t = input_resource r) pending"
  obtain d where d: "states = derived_state m (bt_get (group_by op_resource pending) (input_resource r)) ?mine d"
    "\<And>p i. (p, i) \<notin> replica_of ` set ?mine \<Longrightarrow> replica_get d p i = CurrentState_state (input_current_state r) p i"
    using assms(1,4) unfolding resource_derived_def Let_def by auto
  have "distinct (map (\<lambda>t. (op_partition t, op_instance t)) ?ps)"
    using assms(2) by (auto simp: distinct_map inj_on_def)
  note pend = replica_get_fold_derive[OF this, where S = op_target]
  have ap: "replica_get (apply_pending (dropped_state m) (bt_get (group_by op_resource pending) (input_resource r)) d) p i =
      (case find (\<lambda>t. op_partition t = p \<and> op_instance t = i) ?ps of None \<Rightarrow> replica_get d p i | Some t \<Rightarrow> written (dropped_state m) (op_target t))"
    by (simp add: apply_pending_def bt_get_group_by pend)
  have "distinct (map replica_of ?mine)" using assms(3) by (simp add: distinct_map_filter)
  note sel = replica_get_fold_derive[OF this, where S = request_target]
  have "(p, i) \<notin> replica_of ` set ?mine" if "find (\<lambda>q. request_partition q = p \<and> request_instance q = i) ?mine = None"
    using that by (auto simp: find_None_iff)
  then show ?thesis
    unfolding d(1) derived_state_def sel ap
    by (auto simp: find_filter d(2) split: option.splits)
qed

lemma dispatch_subset:
  assumes "compute_intermediate_and_throttle resources live pending configs m = Inr result"
  shows "mset (dispatchable_transitions result) \<subseteq># mset (concat (map input_selected_transitions resources))"
proof -
  obtain c' where "try_fold (throttle_resource live m (group_by op_resource pending)) resources
        (charged_controller live m resources pending (ThrottleController_new resources live configs), [], bt_empty) =
        Inr (c', dispatchable_transitions result, intermediate_states (intermediate_state result))"
    using assms by (auto simp: compute_throttle_Inr)
  from throttle_resources_run[OF this] show ?thesis by auto
qed

lemma throttle_accepts_iff:
  "(\<exists>result. compute_intermediate_and_throttle resources live pending configs m = Inr result) \<longleftrightarrow>
     valid_throttle_input resources pending \<and> (\<forall>r \<in> set resources. valid_selected r m)"
proof -
  have step: "valid_selected r m \<Longrightarrow> \<exists>st'. throttle_resource live m groups r st = Inr st'" for r st groups
    using validate_selected_Inr[of r m "()"]
    by (cases st) (simp add: throttle_resource_def Let_def split: prod.splits)
  have whole: "(\<exists>st'. try_fold (throttle_resource live m groups) rs st = Inr st') \<longleftrightarrow> (\<forall>r \<in> set rs. valid_selected r m)" for rs st groups
  proof (induction rs arbitrary: st)
    case (Cons r rs)
    show ?case
    proof (cases "valid_selected r m")
      case True
      then obtain st' where "throttle_resource live m groups r st = Inr st'" using step by blast
      then show ?thesis using Cons[of st'] True by simp
    next
      case False
      then have "\<not> (\<exists>st'. throttle_resource live m groups r st = Inr st')"
        using validate_selected_Inr[of r m] by (cases st) (auto simp: throttle_resource_def bind_result_Inr)
      then show ?thesis using False by (auto simp: bind_result_Inr)
    qed
  next
    case Nil
    then show ?case by (cases st) auto
  qed
  let ?run = "try_fold (throttle_resource live m (group_by op_resource pending)) resources
        (charged_controller live m resources pending (ThrottleController_new resources live configs), [], bt_empty)"
  have "(\<exists>result. compute_intermediate_and_throttle resources live pending configs m = Inr result) \<longleftrightarrow>
      valid_throttle_input resources pending \<and> (\<exists>st'. ?run = Inr st')"
  proof
    assume R: "valid_throttle_input resources pending \<and> (\<exists>st'. ?run = Inr st')"
    then obtain c d im where "?run = Inr (c, d, im)" by (metis prod_cases3)
    then have "compute_intermediate_and_throttle resources live pending configs m =
        Inr \<lparr>intermediate_state = \<lparr>intermediate_states = im\<rparr>, dispatchable_transitions = d\<rparr>"
      using R by (simp add: compute_throttle_Inr)
    then show "\<exists>result. compute_intermediate_and_throttle resources live pending configs m = Inr result" by blast
  qed (auto simp: compute_throttle_Inr)
  then show ?thesis using whole by simp
qed

text \<open>A cycle with two selected transitions and room for one.\<close>

definition demo_start :: "string \<Rightarrow> TransitionRequest" where
  "demo_start i = \<lparr>request_resource = ResourceId ''r'', request_partition = PartitionId ''p'', request_instance = InstanceId i,
     request_source = State ''OFFLINE'', request_target = State ''STANDBY''\<rparr>"

definition demo_input :: ResourceTransitionInput where
  "demo_input = \<lparr>input_resource = ResourceId ''r'', input_replicas = 2, input_min_active_replicas = None,
     input_preference_lists = bt_insert (PartitionId ''p'') [InstanceId ''a'', InstanceId ''b''] bt_empty,
     input_current_state = CurrentState_default, input_best_possible_state = BestPossibleState_default,
     input_selected_transitions = [demo_start ''a'', demo_start ''b'']\<rparr>"

definition demo_instances :: "InstanceId bset" where
  "demo_instances = bs_collect [InstanceId ''a'', InstanceId ''b'']"

definition demo_config :: StateTransitionThrottleConfig where
  "demo_config = ThrottleConfig_new AnyBalance ClusterScope 1"

definition demo_load :: StateTransitionThrottleConfig where
  "demo_load = ThrottleConfig_new LoadBalance ClusterScope 0"

lemma demo_valid: "valid_throttle_input [demo_input] [] \<and> (\<forall>r \<in> set [demo_input]. valid_selected r leader_standby)"
  by (simp add: valid_throttle_input_def valid_selected_def demo_input_def demo_start_def)

lemma demo_result: "\<exists>result. compute_intermediate_and_throttle [demo_input] demo_instances [] [demo_config] leader_standby = Inr result"
  using throttle_accepts_iff demo_valid by blast

section \<open>Properties\<close>

text \<open>C25: Quotas hold. For the cluster, any resource of the cycle and any live instance with
  a configured quota, be it on all work, on recovery or on load balancing, the transitions of that
  type that are in flight and the newly dispatched ones in that scope stay within the quota,
  unless what is in flight already exceeds it, and then nothing of the type is dispatched there.
  A dispatched transition counts as recovery when its target state is still required of the
  partition after all that was dispatched for its resource before.\<close>

theorem throttle_quota_respected:
  assumes "compute_intermediate_and_throttle resources live pending configs m = Inr result"
    and "quota_of k T (ThrottleController_new resources live configs) = Some v"
  shows "in_flight live m k T resources pending +
      length (filter (counted k T) (dispatch_charges live m resources [] (dispatchable_transitions result)))
    \<le> max v (in_flight live m k T resources pending)"
proof -
  obtain c' where run: "try_fold (throttle_resource live m (group_by op_resource pending)) resources
        (charged_controller live m resources pending (ThrottleController_new resources live configs), [], bt_empty) =
        Inr (c', dispatchable_transitions result, intermediate_states (intermediate_state result))"
    and d: "distinct (map input_resource resources)"
    using assms(1) by (auto simp: compute_throttle_Inr valid_throttle_input_def)
  have log: "admits blocked3 charge3 (charged_controller live m resources pending (ThrottleController_new resources live configs))
      (dispatch_charges live m resources [] (dispatchable_transitions result)) c'"
    using throttle_resources_charges[OF run d subset_refl d] by simp
  have "quota_of k T (charged_controller live m resources pending (ThrottleController_new resources live configs)) =
      Some (v - in_flight live m k T resources pending)"
    unfolding charged_controller_def by (rule charge_all_pending[OF assms(2)])
  then show ?thesis using throttle.admitted_within_budget[OF log, of k T] by fastforce
qed

text \<open>The first of two transitions recovers the required replica, the second would be load balancing,
  which is not allowed.\<close>

theorem throttle_quota_respected_witness:
  "\<exists>result. compute_intermediate_and_throttle [demo_input] demo_instances [] [demo_load] leader_standby = Inr result \<and>
     filter (\<lambda>(t, r, i). t = LoadBalance) (dispatch_charges demo_instances leader_standby [demo_input] [] (dispatchable_transitions result)) = [] \<and>
     map fst (dispatch_charges demo_instances leader_standby [demo_input] [] [demo_start ''a'', demo_start ''b'']) = [RecoveryBalance, LoadBalance]"
proof -
  obtain result where r: "compute_intermediate_and_throttle [demo_input] demo_instances [] [demo_load] leader_standby = Inr result"
    using throttle_accepts_iff demo_valid by blast
  have q: "quota_of WholeCluster LoadBalance (ThrottleController_new [demo_input] demo_instances [demo_load]) = Some 0"
    by (simp add: quota_of_new config_applies_def demo_load_def ThrottleConfig_new_def)
  have types: "map fst (dispatch_charges demo_instances leader_standby [demo_input] [] [demo_start ''a'', demo_start ''b'']) = [RecoveryBalance, LoadBalance]" by code_simp
  have "counted WholeCluster LoadBalance = (\<lambda>(t, r, i). t = LoadBalance)" by (auto simp: counted_def in_scope_def)
  then have "filter (\<lambda>(t, r, i). t = LoadBalance) (dispatch_charges demo_instances leader_standby [demo_input] [] (dispatchable_transitions result)) = []"
    using throttle_quota_respected[OF r q] by (simp add: in_flight_def)
  then show ?thesis by (intro exI[of _ result] conjI r types)
qed

text \<open>The quota of a scope is the limit of the last configuration that applies to it: a
  targeted configuration applies to its target only, an untargeted one to every
  resource of the cycle or every live instance.\<close>

lemma throttle_config_meaning:
  "quota_of k T (ThrottleController_new resources live configs) =
     (if (case k of WholeCluster \<Rightarrow> True | OneResource r \<Rightarrow> r \<in> input_resource ` set resources | OneInstance i \<Rightarrow> bt_contains live i)
      then map_option max_transitions (find (config_applies k T) (rev configs)) else None)"
  by (rule quota_of_new)

text \<open>Dispatch is safe: only selected transitions are dispatched, each at most once, and
  never one that is pending already.\<close>

lemma dispatch_only_new_selected:
  assumes "compute_intermediate_and_throttle resources live pending configs m = Inr result"
  shows "mset (dispatchable_transitions result) \<subseteq># mset (concat (map input_selected_transitions resources)) \<and>
    (\<forall>q \<in> set (dispatchable_transitions result). \<forall>t \<in> set pending.
       \<not> (op_resource t = request_resource q \<and> op_partition t = request_partition q \<and> op_instance t = request_instance q \<and>
          op_source t = request_source q \<and> op_target t = request_target q))"
proof -
  obtain c' where "try_fold (throttle_resource live m (group_by op_resource pending)) resources
        (charged_controller live m resources pending (ThrottleController_new resources live configs), [], bt_empty) =
        Inr (c', dispatchable_transitions result, intermediate_states (intermediate_state result))"
    using assms by (auto simp: compute_throttle_Inr)
  note run = throttle_resources_run[OF this]
  have "\<not> (op_resource t = request_resource q \<and> op_partition t = request_partition q \<and> op_instance t = request_instance q \<and>
          op_source t = request_source q \<and> op_target t = request_target q)"
    if q: "q \<in> set (dispatchable_transitions result)" and t: "t \<in> set pending" for q t
  proof
    assume same: "op_resource t = request_resource q \<and> op_partition t = request_partition q \<and> op_instance t = request_instance q \<and>
          op_source t = request_source q \<and> op_target t = request_target q"
    then have "filter (\<lambda>t. op_resource t = request_resource q) pending \<noteq> []" using t by (auto simp: filter_empty_conv)
    then have "pending_matches (bt_get (group_by op_resource pending) (request_resource q)) q"
      using t same by (auto simp: pending_matches_def bt_get_group_by list_ex_iff)
    then show False using run q by auto
  qed
  then show ?thesis using run by auto
qed

text \<open>The throttle rejects its input exactly when two resources have the same name, a pending transition
  belongs to no resource, a replica has two pending transitions, or a selected
  transition has the wrong resource or a partition the resource cannot place or drain.\<close>

lemma throttle_accepts:
  "(\<exists>result. compute_intermediate_and_throttle resources live pending configs m = Inr result) \<longleftrightarrow>
     valid_throttle_input resources pending \<and> (\<forall>r \<in> set resources. valid_selected r m)"
  by (rule throttle_accepts_iff)

text \<open>C31: The intermediate state of a resource, replica by replica: the target of its
  dispatched transition, else of its pending transition, else the current state, where
  a drop removes the replica; a resource with nothing selected shows its best possible state.\<close>

theorem intermediate_state_exact:
  assumes "compute_intermediate_and_throttle resources live pending configs m = Inr result" and "r \<in> set resources"
    and "distinct (map replica_of (input_selected_transitions r))"
  shows "IntermediateState_state (intermediate_state result) (input_resource r) p i =
    (if input_selected_transitions r = [] then BestPossibleState_state (input_best_possible_state r) p i
     else case find (\<lambda>q. q \<in> set (dispatchable_transitions result) \<and> request_partition q = p \<and> request_instance q = i) (input_selected_transitions r) of
       Some q \<Rightarrow> written (dropped_state m) (request_target q)
     | None \<Rightarrow> (case find (\<lambda>t. op_resource t = input_resource r \<and> op_partition t = p \<and> op_instance t = i) pending of
         Some t \<Rightarrow> written (dropped_state m) (op_target t)
       | None \<Rightarrow> CurrentState_state (input_current_state r) p i))"
proof -
  obtain c' where v: "valid_throttle_input resources pending" and run: "try_fold (throttle_resource live m (group_by op_resource pending)) resources
        (charged_controller live m resources pending (ThrottleController_new resources live configs), [], bt_empty) =
        Inr (c', dispatchable_transitions result, intermediate_states (intermediate_state result))"
    using assms(1) by (auto simp: compute_throttle_Inr)
  obtain states where st: "bt_get (intermediate_states (intermediate_state result)) (input_resource r) = Some states"
    "resource_derived m (group_by op_resource pending) (dispatchable_transitions result) r states"
    using throttle_resources_derived[OF run] v assms(2) by (auto simp: valid_throttle_input_def)
  have get: "IntermediateState_state (intermediate_state result) (input_resource r) p i = replica_get states p i"
    using st(1) by (simp add: IntermediateState_state_def resource_map_state_def replica_get_def split: option.splits)
  show ?thesis
  proof (cases "input_selected_transitions r = []")
    case True
    then have "states = BestPossibleState_entries (input_best_possible_state r)" using st(2) by (simp add: resource_derived_def)
    then show ?thesis using True get
      by (simp add: replica_get_def BestPossibleState_state_def BestPossibleState_entries_def ReplicaStates_get_def split: option.splits)
  next
    case False
    then show ?thesis
      using get resource_derived_get[OF st(2) _ assms(3)] v by (simp add: valid_throttle_input_def)
  qed
qed

theorem intermediate_state_exact_witness:
  "\<exists>result. compute_intermediate_and_throttle [demo_input] demo_instances [] [demo_config] leader_standby = Inr result \<and>
     IntermediateState_state (intermediate_state result) (ResourceId ''r'') (PartitionId ''p'') (InstanceId ''c'') = None"
proof -
  obtain result where r: "compute_intermediate_and_throttle [demo_input] demo_instances [] [demo_config] leader_standby = Inr result"
    using demo_result by blast
  have "distinct (map replica_of (input_selected_transitions demo_input))" by (simp add: demo_input_def demo_start_def)
  from intermediate_state_exact[OF r _ this, of "PartitionId ''p''" "InstanceId ''c''"] r show ?thesis
    by (auto simp: demo_input_def demo_start_def CurrentState_state_def CurrentState_default_def)
qed

end
