(* ===== verification/Routing.thy ===== *)
theory Routing
  imports Replica_State
begin

text \<open>
  Routing on a published external view (\<^verbatim>\<open>src/routing/snapshot.rs\<close>): which configured
  instances advertise a state, the sole leader of a partition, and its serving replicas.
\<close>

section \<open>Definitions\<close>

datatype RoutingError =
    InvalidResource string
  | InvalidPartition string
  | MultipleLeaders string string "InstanceId bset"

record RoutingSnapshot =
  routing_view :: ExternalView
  configured_instances :: "InstanceId bset"

definition from_external_view :: "ExternalView \<Rightarrow> InstanceId list \<Rightarrow> RoutingSnapshot" where
  "from_external_view view instances = \<lparr>routing_view = view, configured_instances = bs_collect instances\<rparr>"

definition instances_for :: "RoutingSnapshot \<Rightarrow> ResourceId \<Rightarrow> PartitionId \<Rightarrow> State \<Rightarrow> InstanceId bset" where
  "instances_for snap r p s =
     (case Option.bind (bt_get (view_states (routing_view snap)) r) (\<lambda>partitions. bt_get partitions p) of
        None \<Rightarrow> bt_empty
      | Some instance_states \<Rightarrow>
          bs_collect (map fst (filter (\<lambda>(i, advertised). advertised = s \<and> bt_contains (configured_instances snap) i)
            (entries instance_states))))"

definition route_ids :: "string \<Rightarrow> string \<Rightarrow> RoutingError + ResourceId \<times> PartitionId" where
  "route_ids resource part_name =
     bind_result (map_err (\<lambda>_. InvalidResource resource) (ResourceId_new resource)) (\<lambda>r.
     bind_result (map_err (\<lambda>_. InvalidPartition part_name) (PartitionId_new part_name)) (\<lambda>p.
     Inr (r, p)))"

definition leader :: "RoutingSnapshot \<Rightarrow> string \<Rightarrow> string \<Rightarrow> RoutingError + InstanceId option" where
  "leader snap resource part_name =
     bind_result (route_ids resource part_name) (\<lambda>(r, p).
       let leaders = instances_for snap r p (State ''LEADER'') in
       if bt_len leaders = 0 then Inr None
       else if bt_len leaders = 1 then Inr (Some (hd (bt_keys leaders)))
       else Inl (MultipleLeaders (ResourceId_as_str r) (PartitionId_as_str p) leaders))"

definition routing_replicas :: "RoutingSnapshot \<Rightarrow> string \<Rightarrow> string \<Rightarrow> RoutingError + InstanceId bset" where
  "routing_replicas snap resource part_name =
     bind_result (route_ids resource part_name) (\<lambda>(r, p).
       Inr (fold bs_insert (bt_keys (instances_for snap r p (State ''STANDBY'')))
              (instances_for snap r p (State ''LEADER''))))"

section \<open>Lemmas\<close>

text \<open>A configured instance that advertises a state.\<close>

definition advertises :: "RoutingSnapshot \<Rightarrow> ResourceId \<Rightarrow> PartitionId \<Rightarrow> State \<Rightarrow> InstanceId \<Rightarrow> bool" where
  "advertises snap r p s i \<longleftrightarrow> ExternalView_state (routing_view snap) r p i = Some s \<and> bt_contains (configured_instances snap) i"

lemma instances_for_contains: "bt_contains (instances_for snap r p s) i \<longleftrightarrow> advertises snap r p s i"
proof (cases "Option.bind (bt_get (view_states (routing_view snap)) r) (\<lambda>partitions. bt_get partitions p)")
  case None
  then show ?thesis
    by (simp add: instances_for_def advertises_def ExternalView_state_def resource_map_state_def split: Option.bind_splits option.splits)
next
  case (Some instances)
  then have "ExternalView_state (routing_view snap) r p i = bt_get instances i"
    by (simp add: ExternalView_state_def resource_map_state_def split: Option.bind_splits option.splits)
  moreover have "i \<in> fst ` set (filter (\<lambda>(i, advertised). advertised = s \<and> bt_contains (configured_instances snap) i) (entries instances))
      \<longleftrightarrow> bt_get instances i = Some s \<and> bt_contains (configured_instances snap) i"
    by (auto simp: bt_entries_iff image_iff)
  ultimately show ?thesis using Some by (simp add: instances_for_def advertises_def)
qed

lemma bt_len_members: "bt_len (s :: 'k::linorder bset) = card {k. bt_contains s k}"
  by (simp add: bt_len_keys dom_def bt_contains_def)

lemma finite_members: "finite {k. bt_contains (s :: 'k::linorder bset) k}"
proof -
  have "{k. bt_contains s k} = set (bt_keys s)" by (auto simp: bt_keys_contains)
  then show ?thesis by simp
qed

lemma hd_keys_singleton: "{k. bt_contains s k} = {x} \<Longrightarrow> hd (bt_keys s) = x"
  by (metis bt_keys_contains hd_in_set insertCI list.set(1) empty_iff mem_Collect_eq singletonD)

lemma route_ids_Inr: "route_ids resource part_name = Inr (r, p) \<longleftrightarrow>
    resource \<noteq> [] \<and> part_name \<noteq> [] \<and> r = ResourceId resource \<and> p = PartitionId part_name"
  by (auto simp: route_ids_def bind_result_Inr)

section \<open>Properties\<close>

text \<open>The leader lookup, by result: an instance is returned exactly when it is the only
  configured instance advertising \<open>LEADER\<close> for the partition, nothing when there is
  none, and the ambiguity error carries all of them, at least two.\<close>

lemma leader_lookup:
  assumes "resource \<noteq> []" and "part_name \<noteq> []"
  shows "case leader snap resource part_name of
      Inr (Some i) \<Rightarrow> {j. advertises snap (ResourceId resource) (PartitionId part_name) (State ''LEADER'') j} = {i}
    | Inr None \<Rightarrow> {j. advertises snap (ResourceId resource) (PartitionId part_name) (State ''LEADER'') j} = {}
    | Inl (MultipleLeaders r p leaders) \<Rightarrow> r = resource \<and> p = part_name \<and>
        (\<forall>j. bt_contains leaders j \<longleftrightarrow> advertises snap (ResourceId resource) (PartitionId part_name) (State ''LEADER'') j) \<and>
        2 \<le> card {j. advertises snap (ResourceId resource) (PartitionId part_name) (State ''LEADER'') j}
    | Inl _ \<Rightarrow> False"
proof -
  let ?l = "instances_for snap (ResourceId resource) (PartitionId part_name) (State ''LEADER'')"
  let ?A = "{j. advertises snap (ResourceId resource) (PartitionId part_name) (State ''LEADER'') j}"
  have A: "{k. bt_contains ?l k} = ?A" by (simp add: instances_for_contains)
  have len: "bt_len ?l = card ?A" by (simp add: bt_len_members A)
  have fin: "finite ?A" using finite_members[of ?l] by (simp only: A)
  have ids: "route_ids resource part_name = Inr (ResourceId resource, PartitionId part_name)"
    using assms by (simp add: route_ids_Inr)
  consider "card ?A = 0" | "card ?A = 1" | "2 \<le> card ?A" by linarith
  then show ?thesis
  proof cases
    case 1
    then show ?thesis using fin by (simp add: leader_def ids Let_def len)
  next
    case 2
    then obtain x where x: "?A = {x}" by (auto simp: card_1_singleton_iff)
    then have "hd (bt_keys ?l) = x" using A by (intro hd_keys_singleton) simp
    then show ?thesis using x by (simp add: leader_def ids Let_def len 2)
  next
    case 3
    then show ?thesis by (simp add: leader_def ids Let_def len instances_for_contains)
  qed
qed

text \<open>The serving replicas of a partition are exactly the configured instances that
  advertise \<open>LEADER\<close> or \<open>STANDBY\<close>; an empty name is an error that returns the name.\<close>

lemma replicas_lookup:
  "case routing_replicas snap resource part_name of
     Inr found \<Rightarrow> resource \<noteq> [] \<and> part_name \<noteq> [] \<and> (\<forall>i. bt_contains found i \<longleftrightarrow>
        advertises snap (ResourceId resource) (PartitionId part_name) (State ''LEADER'') i \<or>
        advertises snap (ResourceId resource) (PartitionId part_name) (State ''STANDBY'') i)
   | Inl e \<Rightarrow> (resource = [] \<and> e = InvalidResource []) \<or> (resource \<noteq> [] \<and> part_name = [] \<and> e = InvalidPartition [])"
  by (auto simp: routing_replicas_def route_ids_def ResourceId_new_def PartitionId_new_def validate_def
      fold_bs_insert bt_keys_contains instances_for_contains)

end
