(* ===== verification/Coordination.thy ===== *)
theory Coordination
  imports Session
begin

text \<open>
  The vocabulary of the etcd backend (\<^verbatim>\<open>src/coordination/etcd/mod.rs\<close> and
  \<^verbatim>\<open>src/coordination/etcd/session.rs\<close>): store revisions, errors, the key layout of a
  coordination namespace with its hexadecimal segments, and the decoding of the records one
  range request returns. Strings and store values are byte lists; a Rust string is a byte list
  that is valid UTF-8.
\<close>

section \<open>Revisions and errors\<close>

datatype Revision = Revision (revision_value: int)

datatype CoordinationError =
    EtcdError string
  | InvalidConnectionOptions string
  | InvalidPrefix
  | InvalidCluster
  | InvalidKey
  | InvalidStoreValue
  | InvalidLeaseTtl
  | LeaseExpired
  | InvalidRevision int
  | RevisionExhausted
  | MissingRevision
  | OutsidePrefix
  | InvalidSession
  | UnknownStoreSession SessionId
  | RegistrationLost
  | Contention
  | StaleSession InstanceId
  | DuplicateMessage string
  | StaleController
  | StaleRevision
  | InstanceStillLive InstanceId
  | ResourceDeletionDisabled

definition is_transient :: "CoordinationError \<Rightarrow> bool" where
  "is_transient e = (case e of EtcdError _ \<Rightarrow> True | _ \<Rightarrow> False)"

definition show_int :: "int \<Rightarrow> string" where
  "show_int v = (if v < 0 then ''-'' @ show_nat (nat (- v)) else show_nat (nat v))"

definition CoordinationError_fmt :: "CoordinationError \<Rightarrow> string" where
  "CoordinationError_fmt e = (case e of
     EtcdError msg \<Rightarrow> msg
   | InvalidConnectionOptions msg \<Rightarrow> msg
   | InvalidPrefix \<Rightarrow> ''coordination prefix must not be empty''
   | InvalidCluster \<Rightarrow> ''coordination cluster must not be empty''
   | InvalidKey \<Rightarrow> ''coordination key is invalid''
   | InvalidStoreValue \<Rightarrow> ''coordination value is invalid UTF-8''
   | InvalidLeaseTtl \<Rightarrow> ''lease TTL must be positive''
   | LeaseExpired \<Rightarrow> ''lease expired before keepalive completed''
   | InvalidRevision r \<Rightarrow> ''invalid revision '' @ show_int r
   | RevisionExhausted \<Rightarrow> ''revision space exhausted''
   | MissingRevision \<Rightarrow> ''etcd response did not include a revision''
   | OutsidePrefix \<Rightarrow> ''key is outside the coordination prefix''
   | InvalidSession \<Rightarrow> ''invalid persisted session identifier''
   | UnknownStoreSession s \<Rightarrow> ''unknown session SessionId('' @ show_nat (unat (SessionId_sequence s)) @ '')''
   | RegistrationLost \<Rightarrow> ''participant registration lost the race''
   | Contention \<Rightarrow> ''coordination CAS contention exceeded retry bound''
   | StaleSession i \<Rightarrow> ''session is not live for '' @ InstanceId_as_str i
   | DuplicateMessage m \<Rightarrow> ''duplicate message: '' @ m
   | StaleController \<Rightarrow> ''controller authority is no longer current''
   | StaleRevision \<Rightarrow> ''controller input revision is stale''
   | InstanceStillLive i \<Rightarrow> ''instance is still live: '' @ InstanceId_as_str i
   | ResourceDeletionDisabled \<Rightarrow> ''resource deletion is disabled'')"

definition Revision_new :: "int \<Rightarrow> CoordinationError + Revision" where
  "Revision_new v = (if v \<le> 0 then Inl (InvalidRevision v) else Inr (Revision v))"

definition Revision_next :: "Revision \<Rightarrow> CoordinationError + Revision" where
  "Revision_next r = (if revision_value r + 1 \<le> 2 ^ 63 - 1 then Inr (Revision (revision_value r + 1)) else Inl RevisionExhausted)"

definition revision_from_header :: "int option \<Rightarrow> CoordinationError + Revision" where
  "revision_from_header header = (case header of None \<Rightarrow> Inl MissingRevision | Some r \<Rightarrow> Revision_new r)"

instantiation Revision :: linorder
begin
definition less_eq_Revision :: "Revision \<Rightarrow> Revision \<Rightarrow> bool" where
  "less_eq_Revision a b = (revision_value a \<le> revision_value b)"
definition less_Revision :: "Revision \<Rightarrow> Revision \<Rightarrow> bool" where
  "less_Revision a b = (revision_value a < revision_value b)"
instance
  by standard (auto simp: less_eq_Revision_def less_Revision_def Revision.expand)
end

definition ok :: "'e + 'a \<Rightarrow> 'a option" where
  "ok r = (case r of Inl _ \<Rightarrow> None | Inr x \<Rightarrow> Some x)"

lemma ok_Some [simp]: "ok r = Some x \<longleftrightarrow> r = Inr x"
  by (cases r) (auto simp: ok_def)

lemma ok_simps [simp]: "ok (Inr x) = Some x" "ok (Inl e) = None"
  by (simp_all add: ok_def)

section \<open>Text\<close>

text \<open>\<open>str::from_utf8\<close>: which byte strings are well-formed UTF-8 (no overlong forms, no
  surrogates, nothing above U+10FFFF).\<close>

definition in_range :: "nat \<Rightarrow> nat \<Rightarrow> char \<Rightarrow> bool" where
  "in_range lo hi c = (lo \<le> of_char c \<and> of_char c \<le> hi)"

fun valid_utf8 :: "string \<Rightarrow> bool" where
  "valid_utf8 [] = True"
| "valid_utf8 (a # rest) =
     (if in_range 0 127 a then valid_utf8 rest
      else case rest of
        [] \<Rightarrow> False
      | b # rest \<Rightarrow>
          if in_range 194 223 a then in_range 128 191 b \<and> valid_utf8 rest
          else (case rest of
            [] \<Rightarrow> False
          | c # rest \<Rightarrow>
              if in_range 224 239 a
              then in_range (if of_char a = (224 :: nat) then 160 else 128) (if of_char a = (237 :: nat) then 159 else 191) b \<and>
                in_range 128 191 c \<and> valid_utf8 rest
              else (case rest of
                [] \<Rightarrow> False
              | d # rest \<Rightarrow>
                  in_range 240 244 a \<and>
                  in_range (if of_char a = (240 :: nat) then 144 else 128) (if of_char a = (244 :: nat) then 143 else 191) b \<and>
                  in_range 128 191 c \<and> in_range 128 191 d \<and> valid_utf8 rest)))"

fun code_points :: "string \<Rightarrow> nat list" where
  "code_points [] = []"
| "code_points (a # rest) =
     (if of_char a < (128 :: nat) then of_char a # code_points rest
      else case rest of
        [] \<Rightarrow> []
      | b # rest \<Rightarrow>
          if of_char a < (224 :: nat) then ((of_char a - 192) * 64 + (of_char b - 128)) # code_points rest
          else (case rest of
            [] \<Rightarrow> []
          | c # rest \<Rightarrow>
              if of_char a < (240 :: nat)
              then (((of_char a - 224) * 64 + (of_char b - 128)) * 64 + (of_char c - 128)) # code_points rest
              else (case rest of
                [] \<Rightarrow> []
              | d # rest \<Rightarrow>
                  ((((of_char a - 240) * 64 + (of_char b - 128)) * 64 + (of_char c - 128)) * 64 + (of_char d - 128)) # code_points rest)))"

definition is_whitespace :: "nat \<Rightarrow> bool" where
  "is_whitespace cp = ((9 \<le> cp \<and> cp \<le> 13) \<or> cp \<in> {32, 133, 160, 5760, 8232, 8233, 8239, 8287, 12288} \<or> (8192 \<le> cp \<and> cp \<le> 8202))"

text \<open>\<open>value.trim().is_empty()\<close>.\<close>

definition blank :: "string \<Rightarrow> bool" where
  "blank s = list_all is_whitespace (code_points s)"

definition contains_nul :: "string \<Rightarrow> bool" where
  "contains_nul s = (CHR 0x00 \<in> set s)"

definition starts_with :: "string \<Rightarrow> string \<Rightarrow> bool" where
  "starts_with pre s = (take (length pre) s = pre)"

definition ends_with :: "string \<Rightarrow> string \<Rightarrow> bool" where
  "ends_with suf s = (length suf \<le> length s \<and> drop (length s - length suf) s = suf)"

definition strip_prefix :: "string \<Rightarrow> string \<Rightarrow> string option" where
  "strip_prefix pre s = (if take (length pre) s = pre then Some (drop (length pre) s) else None)"

lemma strip_prefix_Some: "strip_prefix pre s = Some rest \<longleftrightarrow> s = pre @ rest"
  by (auto simp: strip_prefix_def append_eq_conv_conj) (metis append_take_drop_id)

text \<open>\<open>str::split\<close> on one ASCII character.\<close>

fun split_on :: "char \<Rightarrow> string \<Rightarrow> string list" where
  "split_on sep [] = [[]]"
| "split_on sep (c # cs) =
     (if c = sep then [] # split_on sep cs
      else case split_on sep cs of [] \<Rightarrow> [[c]] | part # parts \<Rightarrow> (c # part) # parts)"

definition parse_i64 :: "string \<Rightarrow> int option" where
  "parse_i64 s =
     (let (negative, digits) = (case s of [] \<Rightarrow> (False, [])
            | c # cs \<Rightarrow> if c = CHR ''+'' then (False, cs) else if c = CHR ''-'' then (True, cs) else (False, s))
      in if digits = [] then None
         else case parse_digits 0 digits of
           None \<Rightarrow> None
         | Some n \<Rightarrow>
             if negative then (if n \<le> 2 ^ 63 then Some (- int n) else None)
             else if n < 2 ^ 63 then Some (int n) else None)"

section \<open>Key segments\<close>

definition hex_digit :: "nat \<Rightarrow> char" where
  "hex_digit d = char_of (if d < 10 then 48 + d else 87 + d)"

definition hex_value :: "char \<Rightarrow> nat option" where
  "hex_value c =
     (let n = of_char c in
      if 48 \<le> n \<and> n \<le> 57 then Some (n - 48)
      else if 97 \<le> n \<and> n \<le> 102 then Some (n - 87)
      else if 65 \<le> n \<and> n \<le> 70 then Some (n - 55)
      else None)"

definition encode_segment :: "string \<Rightarrow> string" where
  "encode_segment value = concat (map (\<lambda>b. [hex_digit (of_char b div 16), hex_digit (of_char b mod 16)]) value)"

text \<open>\<open>u8::from_str_radix\<close> on a pair: two hexadecimal digits, or a plus sign and one.\<close>

definition byte_from_radix_16 :: "char \<Rightarrow> char \<Rightarrow> char option" where
  "byte_from_radix_16 a b =
     (if a = CHR ''+'' then map_option (\<lambda>l. char_of l) (hex_value b)
      else case (hex_value a, hex_value b) of (Some h, Some l) \<Rightarrow> Some (char_of (16 * h + l)) | _ \<Rightarrow> None)"

fun decode_pairs :: "string \<Rightarrow> CoordinationError + string" where
  "decode_pairs [] = Inr []"
| "decode_pairs [a] = Inl InvalidKey"
| "decode_pairs (a # b # rest) =
     (if \<not> valid_utf8 [a, b] then Inl InvalidKey
      else case byte_from_radix_16 a b of
        None \<Rightarrow> Inl InvalidKey
      | Some c \<Rightarrow> bind_result (decode_pairs rest) (\<lambda>bytes. Inr (c # bytes)))"

definition decode_segment :: "string \<Rightarrow> CoordinationError + string" where
  "decode_segment value =
     (if length value mod 2 \<noteq> 0 then Inl InvalidKey
      else bind_result (decode_pairs value) (\<lambda>bytes. if valid_utf8 bytes then Inr bytes else Inl InvalidKey))"

section \<open>The key layout\<close>

record EtcdCoordination =
  namespace_prefix :: string
  namespace_cluster :: string

definition normalize_prefix :: "string \<Rightarrow> CoordinationError + string" where
  "normalize_prefix p =
     (let trimmed = rev (dropWhile (\<lambda>c. c = CHR ''/'') (rev p))
      in if trimmed = [] \<or> contains_nul trimmed then Inl InvalidPrefix else Inr trimmed)"

definition namespaced_key :: "EtcdCoordination \<Rightarrow> string \<Rightarrow> string" where
  "namespaced_key b suffix = namespace_prefix b @ ''/'' @ suffix"

definition metadata_key :: "EtcdCoordination \<Rightarrow> string \<Rightarrow> string" where
  "metadata_key b key = namespaced_key b (''metadata/'' @ encode_segment key)"

definition controller_active_key :: "EtcdCoordination \<Rightarrow> string" where
  "controller_active_key b = namespaced_key b ''controller/election/active''"

definition controller_candidate_key :: "EtcdCoordination \<Rightarrow> string \<Rightarrow> string" where
  "controller_candidate_key b controller_id = namespaced_key b (''controller/election/candidates/'' @ encode_segment controller_id)"

definition session_text :: "SessionId \<Rightarrow> string" where
  "session_text s = show_nat (unat (SessionId_sequence s))"

definition live_key :: "EtcdCoordination \<Rightarrow> InstanceId \<Rightarrow> string" where
  "live_key b i = namespaced_key b (''live/'' @ encode_segment (InstanceId_as_str i))"

definition session_prefix :: "EtcdCoordination \<Rightarrow> InstanceId \<Rightarrow> string" where
  "session_prefix b i = namespaced_key b (''sessions/'' @ encode_segment (InstanceId_as_str i) @ ''/'')"

definition session_key :: "EtcdCoordination \<Rightarrow> InstanceId \<Rightarrow> SessionId \<Rightarrow> string" where
  "session_key b i s = namespaced_key b (''sessions/'' @ encode_segment (InstanceId_as_str i) @ ''/'' @ session_text s)"

definition current_state_session_prefix :: "EtcdCoordination \<Rightarrow> InstanceId \<Rightarrow> SessionId \<Rightarrow> string" where
  "current_state_session_prefix b i s =
     namespaced_key b (''current-state/'' @ encode_segment (InstanceId_as_str i) @ ''/'' @ session_text s @ ''/'')"

definition current_state_key :: "EtcdCoordination \<Rightarrow> InstanceId \<Rightarrow> SessionId \<Rightarrow> ResourceId \<Rightarrow> PartitionId \<Rightarrow> string" where
  "current_state_key b i s r p =
     namespaced_key b (''current-state/'' @ encode_segment (InstanceId_as_str i) @ ''/'' @ session_text s @ ''/'' @
       encode_segment (ResourceId_as_str r) @ ''/'' @ encode_segment (PartitionId_as_str p))"

definition INTERNAL_SESSION_SEQUENCE :: string where
  "INTERNAL_SESSION_SEQUENCE = ''internal/session-sequence''"

definition AUTHORITATIVE_INPUT_MARKER :: string where
  "AUTHORITATIVE_INPUT_MARKER = ''internal/authoritative-input''"

definition PENDING_TRANSITIONS_KEY :: string where
  "PENDING_TRANSITIONS_KEY = ''controller/output/pending-transitions''"

definition is_authoritative_metadata_key :: "string \<Rightarrow> bool" where
  "is_authoritative_metadata_key key =
     (key \<noteq> AUTHORITATIVE_INPUT_MARKER \<and> \<not> starts_with ''controller/output/'' key \<and>
      \<not> (starts_with ''participant/'' key \<and> ends_with ''/processed-revision'' key))"

definition is_authoritative_key :: "string \<Rightarrow> string option \<Rightarrow> bool" where
  "is_authoritative_key relative metadata =
     (let is_derived = (case metadata of None \<Rightarrow> False | Some key \<Rightarrow> starts_with ''controller/output/'' key);
          is_participant_progress = (case metadata of None \<Rightarrow> False
            | Some key \<Rightarrow> starts_with ''participant/'' key \<and> ends_with ''/processed-revision'' key);
          is_election_record = starts_with ''controller/election/'' relative;
          is_session_sequence = (relative = INTERNAL_SESSION_SEQUENCE)
      in \<not> is_derived \<and> \<not> is_participant_progress \<and> \<not> is_election_record \<and> \<not> is_session_sequence)"

section \<open>Records of a range response\<close>

record KeyValue =
  kv_key :: string
  kv_value :: string
  kv_create_revision :: int
  kv_mod_revision :: int
  kv_version :: int
  kv_lease :: int

record MetadataEntry =
  entry_value :: "string option"
  entry_revision :: Revision

definition parse_relative_key :: "EtcdCoordination \<Rightarrow> string \<Rightarrow> CoordinationError + string" where
  "parse_relative_key b key =
     (if \<not> valid_utf8 key then Inl InvalidKey
      else ok_or (strip_prefix (namespace_prefix b @ ''/'') key) OutsidePrefix)"

definition parse_sequence :: "string \<Rightarrow> CoordinationError + u64" where
  "parse_sequence value =
     (if \<not> valid_utf8 value then Inl InvalidSession
      else case parse_unsigned 64 value of
        None \<Rightarrow> Inl InvalidSession
      | Some n \<Rightarrow> if n > 0 then Inr (of_nat n) else Inl InvalidSession)"

definition parse_session :: "string \<Rightarrow> CoordinationError + SessionId" where
  "parse_session value = bind_result (parse_sequence value) (\<lambda>n. Inr (SessionId n))"

definition metadata_entry_of :: "KeyValue \<Rightarrow> CoordinationError + MetadataEntry" where
  "metadata_entry_of kv =
     (if \<not> valid_utf8 (kv_value kv) then Inl InvalidStoreValue
      else bind_result (Revision_new (kv_mod_revision kv)) (\<lambda>r.
        Inr \<lparr>entry_value = Some (kv_value kv), entry_revision = r\<rparr>))"

definition metadata_entry_from_snapshot :: "Revision \<Rightarrow> KeyValue list \<Rightarrow> CoordinationError + MetadataEntry" where
  "metadata_entry_from_snapshot snapshot_revision kvs =
     (case kvs of [] \<Rightarrow> Inr \<lparr>entry_value = None, entry_revision = snapshot_revision\<rparr> | kv # _ \<Rightarrow> metadata_entry_of kv)"

definition metadata_from_snapshot ::
    "EtcdCoordination \<Rightarrow> KeyValue list \<Rightarrow> CoordinationError + (string, MetadataEntry) btree" where
  "metadata_from_snapshot b kvs =
     try_fold (\<lambda>kv metadata.
       bind_result (parse_relative_key b (kv_key kv)) (\<lambda>relative.
       case strip_prefix ''metadata/'' relative of
         None \<Rightarrow> Inr metadata
       | Some encoded \<Rightarrow>
           bind_result (decode_segment encoded) (\<lambda>key.
           bind_result (metadata_entry_of kv) (\<lambda>entry. Inr (bt_insert key entry metadata))))) kvs bt_empty"

record ControllerElectionSnapshot =
  election_active :: "(string \<times> int) option"
  election_candidates :: "(string, int) btree"

definition controller_election_from_kvs :: "EtcdCoordination \<Rightarrow> KeyValue list \<Rightarrow> CoordinationError + ControllerElectionSnapshot" where
  "controller_election_from_kvs b kvs =
     try_fold (\<lambda>kv el.
       bind_result (parse_relative_key b (kv_key kv)) (\<lambda>relative.
       if relative = ''controller/election/active'' then
         (if \<not> valid_utf8 (kv_value kv) \<or> blank (kv_value kv) \<or> kv_lease kv = 0 then Inl InvalidStoreValue
          else Inr (el\<lparr>election_active := Some (kv_value kv, kv_lease kv)\<rparr>))
       else (case strip_prefix ''controller/election/candidates/'' relative of
         None \<Rightarrow> Inr el
       | Some encoded \<Rightarrow>
           bind_result (decode_segment encoded) (\<lambda>controller.
           if blank controller \<or> kv_lease kv = 0 then Inl InvalidStoreValue
           else Inr (el\<lparr>election_candidates := bt_insert controller (kv_lease kv) (election_candidates el)\<rparr>)))))
       kvs \<lparr>election_active = None, election_candidates = bt_empty\<rparr>"

definition authoritative_revision_of :: "EtcdCoordination \<Rightarrow> Revision \<Rightarrow> KeyValue list \<Rightarrow> CoordinationError + Revision" where
  "authoritative_revision_of b snapshot_revision kvs =
     bind_result (try_fold (\<lambda>kv revision.
       bind_result (parse_relative_key b (kv_key kv)) (\<lambda>relative.
       let metadata = (case strip_prefix ''metadata/'' relative of None \<Rightarrow> None
             | Some encoded \<Rightarrow> ok (decode_segment encoded))
       in if is_authoritative_key relative metadata
          then bind_result (Revision_new (kv_mod_revision kv)) (\<lambda>current.
            Inr (Some (case revision of None \<Rightarrow> current | Some previous \<Rightarrow> max previous current)))
          else Inr revision)) kvs None) (\<lambda>revision.
     Inr (case revision of None \<Rightarrow> snapshot_revision | Some r \<Rightarrow> r))"

text \<open>The two loops of \<open>participant_snapshot_from_kvs\<close>. Every pair of instance and session is
  looked up once in the second loop, so that \<open>remove\<close> is a lookup.\<close>

type_synonym state_records = "((InstanceId \<times> SessionId), (ResourceId, (PartitionId, State) btree) btree) btree"

definition read_live_record :: "string \<Rightarrow> KeyValue \<Rightarrow> (InstanceId, SessionId) btree \<Rightarrow> CoordinationError + (InstanceId, SessionId) btree" where
  "read_live_record encoded_instance kv live =
     bind_result (decode_segment encoded_instance) (\<lambda>name.
     bind_result (map_err (\<lambda>_. InvalidKey) (InstanceId_new name)) (\<lambda>i.
     bind_result (parse_session (kv_value kv)) (\<lambda>s. Inr (bt_insert i s live))))"

definition read_state_record :: "string \<Rightarrow> string \<Rightarrow> string \<Rightarrow> string \<Rightarrow> KeyValue \<Rightarrow> state_records \<Rightarrow> CoordinationError + state_records" where
  "read_state_record encoded_instance encoded_session encoded_resource encoded_partition kv records =
     bind_result (bind_result (decode_segment encoded_instance) (\<lambda>name. map_err (\<lambda>_. InvalidKey) (InstanceId_new name))) (\<lambda>i.
     bind_result (parse_session encoded_session) (\<lambda>s.
     bind_result (bind_result (decode_segment encoded_resource) (\<lambda>name. map_err (\<lambda>_. InvalidKey) (ResourceId_new name))) (\<lambda>r.
     bind_result (bind_result (decode_segment encoded_partition) (\<lambda>name. map_err (\<lambda>_. InvalidKey) (PartitionId_new name))) (\<lambda>p.
     bind_result (if valid_utf8 (kv_value kv) then map_err (\<lambda>_. InvalidStoreValue) (State_new (kv_value kv)) else Inl InvalidStoreValue) (\<lambda>state.
     Inr (bt_entry bt_empty (bt_entry bt_empty (bt_insert p state) r) (i, s) records))))))"

definition read_participant_record ::
    "EtcdCoordination \<Rightarrow> KeyValue \<Rightarrow> (InstanceId, SessionId) btree \<times> state_records \<Rightarrow>
     CoordinationError + (InstanceId, SessionId) btree \<times> state_records" where
  "read_participant_record b kv st =
     bind_result (parse_relative_key b (kv_key kv)) (\<lambda>relative.
     case split_on CHR ''/'' relative of
       [a, i] \<Rightarrow> if a = ''live'' then bind_result (read_live_record i kv (fst st)) (\<lambda>live. Inr (live, snd st)) else Inr st
     | [a, i, s, r, p] \<Rightarrow>
         if a = ''current-state'' then bind_result (read_state_record i s r p kv (snd st)) (\<lambda>records. Inr (fst st, records)) else Inr st
     | _ \<Rightarrow> Inr st)"

definition build_partition_states :: "InstanceId \<Rightarrow> (PartitionId, State) btree \<Rightarrow> CoordinationError + CurrentState" where
  "build_partition_states i partitions =
     bind_result (try_fold (\<lambda>(p, state) builder. map_err (\<lambda>_. InvalidKey) (set_state p i state builder)) (entries partitions) ReplicaStates_default)
       (\<lambda>builder. Inr (CurrentState_build builder))"

definition active_participant ::
    "state_records \<Rightarrow> InstanceId \<times> SessionId \<Rightarrow> ParticipantSessionSnapshot \<Rightarrow> CoordinationError + ParticipantSessionSnapshot" where
  "active_participant records is snap =
     bind_result (map_result (\<lambda>(r, partitions). bind_result (build_partition_states (fst is) partitions) (\<lambda>c. Inr (r, c)))
         (entries (case bt_get records is of None \<Rightarrow> bt_empty | Some resources \<Rightarrow> resources))) (\<lambda>resources.
     Inr \<lparr>snapshot_live_instances = bt_insert (fst is) \<lparr>live_instance_id = fst is, live_session_id = snd is\<rparr> (snapshot_live_instances snap),
          snapshot_active_current_state =
            bt_insert (fst is) \<lparr>active_session_id = snd is, active_resources = bt_collect resources\<rparr> (snapshot_active_current_state snap)\<rparr>)"

definition participant_snapshot_from_kvs :: "EtcdCoordination \<Rightarrow> KeyValue list \<Rightarrow> CoordinationError + ParticipantSessionSnapshot" where
  "participant_snapshot_from_kvs b kvs =
     bind_result (try_fold (read_participant_record b) kvs (bt_empty, bt_empty)) (\<lambda>(live, records).
     try_fold (active_participant records) (entries live)
       \<lparr>snapshot_live_instances = bt_empty, snapshot_active_current_state = bt_empty\<rparr>)"

record CoordinationSnapshot =
  snapshot_revision :: Revision
  authoritative_revision :: Revision
  snapshot_metadata :: "(string, MetadataEntry) btree"
  snapshot_participants :: ParticipantSessionSnapshot
  controller_election :: ControllerElectionSnapshot

definition with_authoritative_revision :: "Revision \<Rightarrow> CoordinationSnapshot \<Rightarrow> CoordinationSnapshot" where
  "with_authoritative_revision r snap = snap\<lparr>authoritative_revision := r\<rparr>"

definition controller_snapshot_from_kvs :: "EtcdCoordination \<Rightarrow> Revision \<Rightarrow> KeyValue list \<Rightarrow> CoordinationError + CoordinationSnapshot" where
  "controller_snapshot_from_kvs b revision kvs =
     bind_result (metadata_from_snapshot b kvs) (\<lambda>metadata.
     bind_result (authoritative_revision_of b revision kvs) (\<lambda>authoritative.
     bind_result (participant_snapshot_from_kvs b kvs) (\<lambda>participants.
     bind_result (controller_election_from_kvs b kvs) (\<lambda>election.
     Inr \<lparr>snapshot_revision = revision, authoritative_revision = authoritative, snapshot_metadata = metadata,
          snapshot_participants = participants, controller_election = election\<rparr>))))"

end
