(* ===== verification/Completion.thy ===== *)
theory Completion
  imports Coordination
begin

text \<open>
  The participant's completion frontier (\<^verbatim>\<open>src/participant.rs\<close>, \<open>CompletionState\<close>):
  revisions of the pending queue with the messages observed in them, and the highest
  revision below which every observed message is done. Store revisions are the positive
  \<open>i64\<close> values of \<^verbatim>\<open>src/coordination/etcd/mod.rs\<close>. Also the typed state projection
  \<open>ResourceState\<close>.
\<close>

section \<open>The completion state\<close>

record CompletionState =
  revisions :: "(Revision, string bset) btree"
  completed :: "string bset"
  frontier :: "Revision option"

definition CompletionState_new :: CompletionState where
  "CompletionState_new = \<lparr>revisions = bt_empty, completed = bt_empty, frontier = None\<rparr>"

definition observe :: "Revision \<Rightarrow> string list \<Rightarrow> CompletionState \<Rightarrow> CompletionState" where
  "observe revision message_ids st =
     st\<lparr>revisions := bt_entry bt_empty (fold bs_insert message_ids) revision (revisions st)\<rparr>"

text \<open>\<open>CompletionFrontier::observe\<close> ignores an empty list of messages.\<close>

definition frontier_observe :: "Revision \<Rightarrow> string list \<Rightarrow> CompletionState \<Rightarrow> CompletionState" where
  "frontier_observe revision message_ids st = (if message_ids = [] then st else observe revision message_ids st)"

lemma bt_len_remove_first: "entries m = (k, v) # rest \<Longrightarrow> bt_len (bt_remove k m) < bt_len m"
proof -
  assume e: "entries m = (k, v) # rest"
  have "bt_len (bt_remove k m) = length (filter (\<lambda>e. fst e \<noteq> k) (entries m))"
    by (simp add: bt_len_def bt_remove.rep_eq)
  also have "\<dots> < length (entries m)" by (simp add: e le_imp_less_Suc)
  finally show ?thesis by (simp add: bt_len_def)
qed

function complete_loop ::
    "(Revision, string bset) btree \<Rightarrow> string bset \<Rightarrow> Revision option \<Rightarrow>
     (Revision, string bset) btree \<times> string bset \<times> Revision option" where
  "complete_loop revs done_ids reached =
     (case entries revs of
        [] \<Rightarrow> (revs, done_ids, reached)
      | (revision, message_ids) # _ \<Rightarrow>
          if \<not> list_all (bt_contains done_ids) (bt_keys message_ids) then (revs, done_ids, reached)
          else
            (let revs' = bt_remove revision revs;
                 done' = fold (\<lambda>i d. if \<not> list_ex (\<lambda>ids. bt_contains ids i) (bt_values revs') then bt_remove i d else d)
                           (bt_keys message_ids) done_ids
             in complete_loop revs' done' (Some revision)))"
  by pat_completeness auto
termination
  by (relation "measure (\<lambda>(revs, d, r). bt_len revs)") (auto simp: bt_len_remove_first)

declare complete_loop.simps [simp del]

definition complete :: "string \<Rightarrow> CompletionState \<Rightarrow> Revision option \<times> CompletionState" where
  "complete done_id st =
     (case complete_loop (revisions st) (bs_insert done_id (completed st)) None of
        (revs, done_ids, reached) \<Rightarrow>
          (reached, st\<lparr>revisions := revs, completed := done_ids,
                       frontier := (case reached of Some r \<Rightarrow> Some r | None \<Rightarrow> frontier st)\<rparr>))"

section \<open>The typed state projection\<close>

datatype ResourceState = OfflineState | StandbyState | LeaderState | DroppedState | ErrorState | OtherState string

definition ResourceState_from_state :: "State \<Rightarrow> ResourceState" where
  "ResourceState_from_state st = (let s = State_as_str st in
     if s = ''OFFLINE'' then OfflineState else if s = ''STANDBY'' then StandbyState
     else if s = ''LEADER'' then LeaderState else if s = ''DROPPED'' then DroppedState
     else if s = ''ERROR'' then ErrorState else OtherState s)"

definition ResourceState_as_str :: "ResourceState \<Rightarrow> string" where
  "ResourceState_as_str st = (case st of
     OfflineState \<Rightarrow> ''OFFLINE'' | StandbyState \<Rightarrow> ''STANDBY'' | LeaderState \<Rightarrow> ''LEADER''
   | DroppedState \<Rightarrow> ''DROPPED'' | ErrorState \<Rightarrow> ''ERROR'' | OtherState s \<Rightarrow> s)"

section \<open>The loop\<close>

lemma first_entry_min:
  assumes "entries m = (k, v) # rest" and "bt_get m k' = Some v'"
  shows "k \<le> k'"
proof -
  have "(k', v') \<in> set ((k, v) # rest)" using assms by (metis bt_entries_iff)
  moreover have "ascending ((k, v) # rest)" using ascending_entries[of m] assms(1) by simp
  ultimately show ?thesis by (auto simp: order.order_iff_strict)
qed

lemma contains_fold_remove:
  "bt_contains (fold (\<lambda>i d. if P i then bt_remove i d else d) xs d) k \<Longrightarrow> bt_contains d k"
proof (induction xs arbitrary: d)
  case (Cons a xs)
  from Cons.IH[of "bt_remove a d"] Cons.IH[of d] Cons.prems show ?case by (auto split: if_splits)
qed simp

lemma contains_fold_remove_keep:
  "bt_contains d k \<Longrightarrow> \<not> P k \<Longrightarrow> bt_contains (fold (\<lambda>i d. if P i then bt_remove i d else d) xs d) k"
proof (induction xs arbitrary: d)
  case (Cons a xs)
  from Cons.IH[of "bt_remove a d"] Cons.IH[of d] Cons.prems show ?case by auto
qed simp

lemma complete_loop_sound:
  assumes "complete_loop revs done_ids reached = (revs', done_ids', reached')"
  shows "(\<forall>k. bt_contains done_ids' k \<longrightarrow> bt_contains done_ids k) \<and>
    (\<forall>k. bt_get revs' k = bt_get revs k \<or>
       bt_get revs' k = None \<and> (\<forall>ids x. bt_get revs k = Some ids \<longrightarrow> bt_contains ids x \<longrightarrow> bt_contains done_ids x)) \<and>
    (\<forall>r. reached' = Some r \<longrightarrow> reached = Some r \<and> revs' = revs \<or> (\<forall>k. bt_contains revs' k \<longrightarrow> r < k))"
  using assms
proof (induction revs done_ids reached rule: complete_loop.induct)
  case (1 revs done_ids reached)
  show ?case
  proof (cases "entries revs")
    case Nil
    then show ?thesis using "1.prems" by (auto simp: complete_loop.simps[of revs])
  next
    case (Cons e rest)
    obtain revision ids where e: "e = (revision, ids)" by (cases e)
    show ?thesis
    proof (cases "list_all (bt_contains done_ids) (bt_keys ids)")
      case False
      then show ?thesis using "1.prems" Cons e by (auto simp: complete_loop.simps[of revs])
    next
      case True
      define d1 where "d1 = fold (\<lambda>i d. if \<not> list_ex (\<lambda>ids. bt_contains ids i) (bt_values (bt_remove revision revs)) then bt_remove i d else d)
                           (bt_keys ids) done_ids"
      have run: "complete_loop (bt_remove revision revs) d1 (Some revision) = (revs', done_ids', reached')"
        using "1.prems" Cons e True by (simp add: complete_loop.simps[of revs] d1_def Let_def)
      have sub: "bt_contains d1 k \<Longrightarrow> bt_contains done_ids k" for k
        unfolding d1_def by (rule contains_fold_remove)
      have rev: "bt_get revs revision = Some ids" using Cons e by (metis bt_entries_iff list.set_intros(1))
      have min: "revision < k" if "bt_contains (bt_remove revision revs) k" for k
        using that first_entry_min[OF Cons[unfolded e], of k] by (auto simp: bt_contains_def order.order_iff_strict split: if_splits)
      have IH: "(\<forall>k. bt_contains done_ids' k \<longrightarrow> bt_contains d1 k) \<and>
        (\<forall>k. bt_get revs' k = bt_get (bt_remove revision revs) k \<or>
           bt_get revs' k = None \<and> (\<forall>ids x. bt_get (bt_remove revision revs) k = Some ids \<longrightarrow> bt_contains ids x \<longrightarrow> bt_contains d1 x)) \<and>
        (\<forall>r. reached' = Some r \<longrightarrow> Some revision = Some r \<and> revs' = bt_remove revision revs \<or> (\<forall>k. bt_contains revs' k \<longrightarrow> r < k))"
        by (rule "1.IH"[OF Cons e[symmetric] _ refl d1_def run]) (use True in simp)
      have ok: "bt_contains done_ids x" if "bt_contains ids x" for x
        using True that by (auto simp: list_all_iff bt_keys_contains)
      have "bt_get revs' k = bt_get revs k \<or>
         bt_get revs' k = None \<and> (\<forall>ids x. bt_get revs k = Some ids \<longrightarrow> bt_contains ids x \<longrightarrow> bt_contains done_ids x)" for k
      proof (cases "k = revision")
        case True
        then have "bt_get revs' k = None" using IH by (metis bt_get_remove)
        then show ?thesis using True rev ok by auto
      next
        case False
        then show ?thesis using IH sub by (metis bt_get_remove)
      qed
      moreover have "\<forall>k. bt_contains done_ids' k \<longrightarrow> bt_contains done_ids k" using IH sub by blast
      moreover have "\<forall>k. bt_contains revs' k \<longrightarrow> r < k" if "reached' = Some r" for r
        using IH that min by auto
      ultimately show ?thesis by blast
    qed
  qed
qed

text \<open>When every message still listed is done, the loop empties the structure.\<close>

lemma complete_loop_drains:
  assumes "\<And>k ids x. bt_get revs k = Some ids \<Longrightarrow> bt_contains ids x \<Longrightarrow> bt_contains done_ids x"
    and "complete_loop revs done_ids reached = (revs', done_ids', reached')"
  shows "revs' = bt_empty \<and> (revs \<noteq> bt_empty \<longrightarrow> (\<exists>r. reached' = Some r \<and> bt_contains revs r \<and> (\<forall>k. bt_contains revs k \<longrightarrow> k \<le> r)))
     \<and> (revs = bt_empty \<longrightarrow> reached' = reached)"
  using assms
proof (induction revs done_ids reached rule: complete_loop.induct)
  case (1 revs done_ids reached)
  show ?case
  proof (cases "entries revs")
    case Nil
    then have "revs = bt_empty" by (metis bt_is_empty_def bt_is_empty_iff)
    moreover have "complete_loop revs done_ids reached = (revs, done_ids, reached)"
      by (simp add: complete_loop.simps[of revs] Nil)
    ultimately show ?thesis using "1.prems"(2) by auto
  next
    case (Cons e rest)
    obtain revision ids where e: "e = (revision, ids)" by (cases e)
    have rev: "bt_get revs revision = Some ids" using Cons e by (metis bt_entries_iff list.set_intros(1))
    then have all: "list_all (bt_contains done_ids) (bt_keys ids)"
      using "1.prems"(1) by (auto simp: list_all_iff bt_keys_contains)
    define d1 where "d1 = fold (\<lambda>i d. if \<not> list_ex (\<lambda>ids. bt_contains ids i) (bt_values (bt_remove revision revs)) then bt_remove i d else d)
                           (bt_keys ids) done_ids"
    have run: "complete_loop (bt_remove revision revs) d1 (Some revision) = (revs', done_ids', reached')"
      using "1.prems"(2) Cons e all by (simp add: complete_loop.simps[of revs] d1_def Let_def)
    have kept: "bt_contains d1 x" if "bt_get (bt_remove revision revs) k = Some ids'" "bt_contains ids' x" for k ids' x
      unfolding d1_def
    proof (rule contains_fold_remove_keep)
      show "bt_contains done_ids x" using that "1.prems"(1)[of k ids' x] by (auto split: if_splits)
      show "\<not> \<not> list_ex (\<lambda>ids. bt_contains ids x) (bt_values (bt_remove revision revs))"
        using that(2) bt_values_iff[THEN iffD2, OF exI, OF that(1)] by (auto simp: list_ex_iff)
    qed
    have IH: "revs' = bt_empty \<and> (bt_remove revision revs \<noteq> bt_empty \<longrightarrow>
        (\<exists>r. reached' = Some r \<and> bt_contains (bt_remove revision revs) r \<and> (\<forall>k. bt_contains (bt_remove revision revs) k \<longrightarrow> k \<le> r))) \<and>
        (bt_remove revision revs = bt_empty \<longrightarrow> reached' = Some revision)"
      by (rule "1.IH"[OF Cons e[symmetric] _ refl d1_def kept run]) (use all in simp)
    have min: "revision \<le> k" if "bt_contains revs k" for k
      using that first_entry_min[OF Cons[unfolded e], of k] by (auto simp: bt_contains_def)
    have ne: "revs \<noteq> bt_empty" using rev by auto
    show ?thesis
    proof (cases "bt_remove revision revs = bt_empty")
      case True
      then have "\<not> bt_contains revs k" if "k \<noteq> revision" for k using that by (metis bt_contains_simps(1,3))
      then show ?thesis using IH True rev ne by (auto simp: bt_contains_def) (metis order.refl option.distinct(1))
    next
      case False
      then obtain r where r: "reached' = Some r" "bt_contains (bt_remove revision revs) r"
        "\<forall>k. bt_contains (bt_remove revision revs) k \<longrightarrow> k \<le> r" using IH by blast
      have "k \<le> r" if "bt_contains revs k" for k
        using r that min[of r] by (cases "k = revision") auto
      then show ?thesis using IH r ne by auto
    qed
  qed
qed

section \<open>Histories\<close>

text \<open>
  The frontier together with what was ever observed and completed: the observed
  messages with their revisions, and the completed messages.
\<close>

type_synonym completion_history = "CompletionState \<times> (Revision \<times> string) set \<times> string set"

inductive completion_step :: "completion_history \<Rightarrow> completion_history \<Rightarrow> bool" where
  step_observe: "completion_step (st, seen, fin) (frontier_observe revision ids st, seen \<union> {revision} \<times> set ids, fin)"
| step_complete: "complete x st = (reached, st') \<Longrightarrow> completion_step (st, seen, fin) (st', seen, insert x fin)"

inductive_cases completion_stepE: "completion_step h h'"

definition completion_inv :: "completion_history \<Rightarrow> bool" where
  "completion_inv = (\<lambda>(st, seen, fin).
     (\<forall>(k, x) \<in> seen. x \<in> fin \<or> (\<exists>ids. bt_get (revisions st) k = Some ids \<and> bt_contains ids x)) \<and>
     (\<forall>x. bt_contains (completed st) x \<longrightarrow> x \<in> fin))"

lemma contains_fold_insert: "bt_contains (fold bs_insert ks s) k \<longleftrightarrow> k \<in> set ks \<or> bt_contains s k"
  by (induction ks arbitrary: s) auto

lemma listed_observe:
  "(\<exists>l. bt_get (revisions (frontier_observe revision ids st)) k = Some l \<and> bt_contains l x) \<longleftrightarrow>
     (k = revision \<and> x \<in> set ids) \<or> (\<exists>l. bt_get (revisions st) k = Some l \<and> bt_contains l x)"
  by (cases "bt_get (revisions st) revision")
    (auto simp: frontier_observe_def observe_def bt_entry_def contains_fold_insert bt_get_or_def)

lemma completion_inv_observe:
  "completion_inv (st, seen, fin) \<Longrightarrow> completion_inv (frontier_observe revision ids st, seen \<union> {revision} \<times> set ids, fin)"
proof -
  have "completed (frontier_observe revision ids st) = completed st" by (simp add: frontier_observe_def observe_def)
  then show "completion_inv (st, seen, fin) \<Longrightarrow> ?thesis" unfolding completion_inv_def prod.case listed_observe by auto
qed

lemma complete_result:
  assumes "complete x st = (reached, st')"
  shows "complete_loop (revisions st) (bs_insert x (completed st)) None = (revisions st', completed st', reached)"
  using assms by (auto simp: complete_def split: prod.splits)

lemma completion_inv_complete:
  assumes "completion_inv (st, seen, fin)" and "complete x st = (reached, st')"
  shows "completion_inv (st', seen, insert x fin)"
proof -
  note sound = complete_loop_sound[OF complete_result[OF assms(2)]]
  have inv: "\<And>k y. (k, y) \<in> seen \<Longrightarrow> y \<in> fin \<or> (\<exists>ids. bt_get (revisions st) k = Some ids \<and> bt_contains ids y)"
    "\<And>y. bt_contains (completed st) y \<Longrightarrow> y \<in> fin"
    using assms(1) by (auto simp: completion_inv_def)
  have "y \<in> insert x fin \<or> (\<exists>ids. bt_get (revisions st') k = Some ids \<and> bt_contains ids y)" if ky: "(k, y) \<in> seen" for k y
  proof (cases "y \<in> fin")
    case False
    then obtain ids where ids: "bt_get (revisions st) k = Some ids" "bt_contains ids y" using inv(1)[OF ky] by blast
    have "bt_get (revisions st') k = bt_get (revisions st) k \<or> bt_contains (bs_insert x (completed st)) y"
      using sound ids by blast
    then show ?thesis using ids inv(2) by auto
  qed simp
  moreover have "y \<in> insert x fin" if "bt_contains (completed st') y" for y
    using sound that inv(2)[of y] by auto
  ultimately show ?thesis by (auto simp: completion_inv_def)
qed

interpretation completion: invariant_system "(CompletionState_new, {}, {})" completion_step completion_inv
proof
  show "completion_inv (CompletionState_new, {}, {})" by (simp add: completion_inv_def CompletionState_new_def)
  show "completion_inv h'" if "completion_inv h" "completion_step h h'" for h h'
    using that by (auto elim!: completion_stepE intro: completion_inv_observe completion_inv_complete)
qed

text \<open>Messages observed at revisions 5 and 7 of which the later one is completed first.\<close>

definition demo_observed :: CompletionState where
  "demo_observed = frontier_observe (Revision 7) [''b''] (frontier_observe (Revision 5) [''a''] CompletionState_new)"

definition demo_waiting :: CompletionState where
  "demo_waiting = snd (complete ''b'' demo_observed)"

definition demo_seen :: "(Revision \<times> string) set" where
  "demo_seen = {(Revision 5, ''a''), (Revision 7, ''b'')}"

lemma demo_history: "completion_step\<^sup>*\<^sup>* (CompletionState_new, {}, {}) (demo_waiting, demo_seen, {''b''})"
proof -
  have "completion_step (CompletionState_new, {}, {}) (frontier_observe (Revision 5) [''a''] CompletionState_new, {} \<union> {Revision 5} \<times> set [''a''], {})"
    by (rule step_observe)
  moreover have "completion_step (frontier_observe (Revision 5) [''a''] CompletionState_new, {} \<union> {Revision 5} \<times> set [''a''], {})
      (demo_observed, ({} \<union> {Revision 5} \<times> set [''a'']) \<union> {Revision 7} \<times> set [''b''], {})"
    unfolding demo_observed_def by (rule step_observe)
  moreover have "complete ''b'' demo_observed = (fst (complete ''b'' demo_observed), demo_waiting)" by (simp add: demo_waiting_def)
  then have "completion_step (demo_observed, ({} \<union> {Revision 5} \<times> set [''a'']) \<union> {Revision 7} \<times> set [''b''], {})
      (demo_waiting, ({} \<union> {Revision 5} \<times> set [''a'']) \<union> {Revision 7} \<times> set [''b''], insert ''b'' {})"
    by (rule step_complete)
  moreover have "({} \<union> {Revision 5} \<times> set [''a'']) \<union> {Revision 7} \<times> set [''b''] = demo_seen" by (auto simp: demo_seen_def)
  ultimately show ?thesis by (metis (no_types, lifting) rtranclp.rtrancl_into_rtrancl rtranclp.rtrancl_refl)
qed

section \<open>Properties\<close>

text \<open>C34: The frontier is sound. In every history of observations and completions, when
  completing a message moves the frontier to a revision, every message ever observed at
  that revision or an earlier one has been completed.\<close>

theorem completion_frontier_sound:
  assumes "completion_step\<^sup>*\<^sup>* (CompletionState_new, {}, {}) (st, seen, fin)"
    and "complete x st = (Some r, st')" and "(k, y) \<in> seen" and "k \<le> r"
  shows "y \<in> insert x fin"
proof -
  have "completion_inv (st', seen, insert x fin)"
    using completion_inv_complete[OF completion.reachable_inv[OF assms(1)] assms(2)] .
  moreover have "bt_get (revisions st') k = None"
    using complete_loop_sound[OF complete_result[OF assms(2)]] assms(4) by (fastforce simp: bt_contains_def)
  ultimately show ?thesis using assms(3) by (auto simp: completion_inv_def)
qed

text \<open>The completion of the later message moves nothing, that of the earlier one moves the frontier over
  both.\<close>

theorem completion_frontier_sound_witness:
  "completion_step\<^sup>*\<^sup>* (CompletionState_new, {}, {}) (demo_waiting, demo_seen, {''b''}) \<and> fst (complete ''b'' demo_observed) = None \<and>
   fst (complete ''a'' demo_waiting) = Some (Revision 7) \<and> snd ` demo_seen \<subseteq> insert ''a'' {''b''}"
proof -
  have none: "fst (complete ''b'' demo_observed) = None" by code_simp
  have r: "fst (complete ''a'' demo_waiting) = Some (Revision 7)" by code_simp
  then have "complete ''a'' demo_waiting = (Some (Revision 7), snd (complete ''a'' demo_waiting))" by (metis prod.collapse)
  note sound = completion_frontier_sound[OF demo_history this]
  have "k \<le> Revision 7" if "(k, y) \<in> demo_seen" for k y using that by (auto simp: demo_seen_def less_eq_Revision_def)
  then have "snd ` demo_seen \<subseteq> insert ''a'' {''b''}" using sound by fastforce
  then show ?thesis using demo_history none r by blast
qed

text \<open>The frontier is live. Completing the last outstanding message advances it to the
  highest observed revision and leaves nothing recorded as pending.\<close>

lemma completion_frontier_advances:
  assumes "\<And>k ids y. bt_get (revisions st) k = Some ids \<Longrightarrow> bt_contains ids y \<Longrightarrow> y = x \<or> bt_contains (completed st) y"
    and "bt_contains (revisions st) k0"
  shows "\<exists>r st'. complete x st = (Some r, st') \<and> frontier st' = Some r \<and> revisions st' = bt_empty \<and>
     bt_contains (revisions st) r \<and> (\<forall>k. bt_contains (revisions st) k \<longrightarrow> k \<le> r)"
proof -
  obtain reached st' where c: "complete x st = (reached, st')" by (meson surj_pair)
  have "revisions st \<noteq> bt_empty" using assms(2) by auto
  moreover have "bt_contains (bs_insert x (completed st)) y" if "bt_get (revisions st) k = Some ids" "bt_contains ids y" for k ids y
    using assms(1)[OF that] by auto
  ultimately obtain r where r: "revisions st' = bt_empty" "reached = Some r" "bt_contains (revisions st) r"
      "\<forall>k. bt_contains (revisions st) k \<longrightarrow> k \<le> r"
    using complete_loop_drains[OF _ complete_result[OF c]] by blast
  then have "frontier st' = Some r" using c by (auto simp: complete_def split: prod.splits)
  with c r show ?thesis by blast
qed

text \<open>The typed projection loses nothing: the name of the projected state is the name of
  the state.\<close>

lemma resource_state_roundtrip: "ResourceState_as_str (ResourceState_from_state s) = State_as_str s"
  by (simp add: ResourceState_as_str_def ResourceState_from_state_def Let_def)

end
