(* ===== verification/Crush_Hash.thy ===== *)
theory Crush_Hash
  imports Identity
begin

text \<open>
  The hash arithmetic of CRUSH placement (\<^verbatim>\<open>src/rebalance/crush.rs\<close>): Java's string hash
  and hash-map buckets, the first word of SHA-1, and the Jenkins mix. \<open>u32\<close>, \<open>u64\<close> and
  \<open>i64\<close> values are words of that width, so every wrapping operation wraps here too. A
  string is its UTF-8 bytes.
\<close>

unbundle bit_operations_syntax

section \<open>Java string hashing\<close>

text \<open>\<open>str::encode_utf16\<close> on the bytes of a valid UTF-8 string.\<close>

definition byte :: "char \<Rightarrow> nat" where
  "byte c = of_char c"

fun utf16_units :: "nat \<Rightarrow> nat list" where
  "utf16_units cp = (if cp < 65536 then [cp]
     else [55296 + (cp - 65536) div 1024, 56320 + (cp - 65536) mod 1024])"

fun encode_utf16 :: "string \<Rightarrow> nat list" where
  "encode_utf16 [] = []"
| "encode_utf16 (a # rest) =
     (if byte a < 128 then byte a # encode_utf16 rest
      else (case rest of
          [] \<Rightarrow> []
        | b # rest \<Rightarrow>
            if byte a < 224 then utf16_units ((byte a - 192) * 64 + (byte b - 128)) @ encode_utf16 rest
            else (case rest of
                [] \<Rightarrow> []
              | c # rest \<Rightarrow>
                  if byte a < 240
                  then utf16_units (((byte a - 224) * 64 + (byte b - 128)) * 64 + (byte c - 128)) @ encode_utf16 rest
                  else (case rest of
                      [] \<Rightarrow> []
                    | d # rest \<Rightarrow>
                        utf16_units ((((byte a - 240) * 64 + (byte b - 128)) * 64 + (byte c - 128)) * 64 + (byte d - 128))
                        @ encode_utf16 rest))))"

definition java_string_hash :: "string \<Rightarrow> u32" where
  "java_string_hash s = fold (\<lambda>code_unit hash. hash * 31 + of_nat code_unit) (encode_utf16 s) 0"

text \<open>The doubling loop of the capacity ends because the bound doubles; it is given the
  number of entries as fuel, which is always enough.\<close>

fun capacity_loop :: "nat \<Rightarrow> nat \<Rightarrow> nat \<Rightarrow> nat" where
  "capacity_loop 0 n capacity = capacity"
| "capacity_loop (Suc fuel) n capacity =
     (if n > capacity * 3 div 4 then capacity_loop fuel n (capacity * 2) else capacity)"

definition java_hash_map_capacity :: "nat \<Rightarrow> nat" where
  "java_hash_map_capacity n = capacity_loop n n 16"

definition java_hash_map_bucket :: "string \<Rightarrow> nat \<Rightarrow> u32" where
  "java_hash_map_bucket name capacity =
     (let hash = java_string_hash name in (hash XOR drop_bit 16 hash) AND (of_nat capacity - 1))"

section \<open>SHA-1\<close>

definition be_bytes_u64 :: "u64 \<Rightarrow> 8 word list" where
  "be_bytes_u64 x = map (\<lambda>i. ucast (drop_bit (8 * i) x)) [7, 6, 5, 4, 3, 2, 1, 0]"

definition sha1_pad :: "8 word list \<Rightarrow> 8 word list" where
  "sha1_pad message =
     (let m = message @ [0x80];
          zeros = (if length m mod 64 \<le> 56 then 56 - length m mod 64 else 120 - length m mod 64)
      in m @ replicate zeros 0 @ be_bytes_u64 (of_nat (length message) * 8))"

definition be_word :: "8 word list \<Rightarrow> nat \<Rightarrow> u32" where
  "be_word chunk i =
     push_bit 24 (ucast (chunk ! (4 * i))) OR push_bit 16 (ucast (chunk ! (4 * i + 1))) OR
     push_bit 8 (ucast (chunk ! (4 * i + 2))) OR ucast (chunk ! (4 * i + 3))"

definition sha1_words :: "8 word list \<Rightarrow> u32 list" where
  "sha1_words chunk =
     fold (\<lambda>i ws. ws @ [word_rotl 1 (ws ! (i - 3) XOR ws ! (i - 8) XOR ws ! (i - 14) XOR ws ! (i - 16))])
       [16..<80] (map (be_word chunk) [0..<16])"

definition sha1_round ::
    "nat \<times> u32 \<Rightarrow> u32 \<times> u32 \<times> u32 \<times> u32 \<times> u32 \<Rightarrow> u32 \<times> u32 \<times> u32 \<times> u32 \<times> u32" where
  "sha1_round iw st = (case (iw, st) of ((index, w), (a, b, c, d, e)) \<Rightarrow>
     let (f, k) = (if index \<le> 19 then ((b AND c) OR ((NOT b) AND d), 0x5a827999)
                   else if index \<le> 39 then (b XOR c XOR d, 0x6ed9eba1)
                   else if index \<le> 59 then ((b AND c) OR (b AND d) OR (c AND d), 0x8f1bbcdc)
                   else (b XOR c XOR d, 0xca62c1d6));
         temporary = word_rotl 5 a + f + e + k + w
     in (temporary, a, word_rotl 30 b, c, d))"

definition sha1_chunk ::
    "8 word list \<Rightarrow> u32 \<times> u32 \<times> u32 \<times> u32 \<times> u32 \<Rightarrow> u32 \<times> u32 \<times> u32 \<times> u32 \<times> u32" where
  "sha1_chunk chunk h = (case h of (h0, h1, h2, h3, h4) \<Rightarrow>
     (case fold sha1_round (enumerate 0 (sha1_words chunk)) h of
        (a, b, c, d, e) \<Rightarrow> (h0 + a, h1 + b, h2 + c, h3 + d, h4 + e)))"

fun chunks_exact :: "nat \<Rightarrow> 'a list \<Rightarrow> 'a list list" where
  "chunks_exact n xs = (if n = 0 \<or> length xs < n then [] else take n xs # chunks_exact n (drop n xs))"

declare chunks_exact.simps [simp del]

definition sha1_first_u32 :: "string \<Rightarrow> u64" where
  "sha1_first_u32 value =
     (let message = sha1_pad (map (\<lambda>c. of_nat (byte c)) value);
          h = fold sha1_chunk (chunks_exact 64 message)
                (0x67452301, 0xefcdab89, 0x98badcfe, 0x10325476, 0xc3d2e1f0)
      in ucast (fst h))"

section \<open>The Jenkins mix\<close>

definition HASH_MASK :: u64 where
  "HASH_MASK = 0xffffffff"

definition CRUSH_HASH_SEED :: u64 where
  "CRUSH_HASH_SEED = 1315423911"

definition mix_step :: "u64 \<Rightarrow> u64 \<Rightarrow> u64 \<Rightarrow> u64 \<Rightarrow> u64" where
  "mix_step x y z shifted =
     ((((x - y) AND HASH_MASK) - z) AND HASH_MASK XOR shifted) AND HASH_MASK"

text \<open>The three rounds of \<open>hash_mix\<close> differ in their shift distances only.\<close>

definition mix_round :: "nat \<Rightarrow> nat \<Rightarrow> nat \<Rightarrow> u64 \<times> u64 \<times> u64 \<Rightarrow> u64 \<times> u64 \<times> u64" where
  "mix_round s1 s2 s3 t = (case t of (a, b, c) \<Rightarrow>
     let a = mix_step a b c (drop_bit s1 c);
         b = mix_step b c a (push_bit s2 a AND HASH_MASK);
         c = mix_step c a b (drop_bit s3 b)
     in (a, b, c))"

definition hash_mix :: "u64 \<Rightarrow> u64 \<Rightarrow> u64 \<Rightarrow> u64 \<times> u64 \<times> u64" where
  "hash_mix a b c = mix_round 3 10 15 (mix_round 12 16 5 (mix_round 13 8 13 (a, b, c)))"

text \<open>\<open>hash as i32 as i64\<close>: the low 32 bits, sign-extended.\<close>

definition sign_extend_i32 :: "u64 \<Rightarrow> u64" where
  "sign_extend_i32 hash = scast (ucast hash :: u32)"

definition jenkins_hash_one :: "u64 \<Rightarrow> u64" where
  "jenkins_hash_one value =
     (let a = value AND HASH_MASK;
          (_, _, hash) = hash_mix a 231232 ((CRUSH_HASH_SEED XOR a) AND HASH_MASK);
          (_, _, hash) = hash_mix 1232 a hash
      in sign_extend_i32 hash)"

definition jenkins_hash_three :: "u64 \<Rightarrow> u64 \<Rightarrow> u64 \<Rightarrow> u64" where
  "jenkins_hash_three a b c =
     (let a = a AND HASH_MASK; b = b AND HASH_MASK; c = c AND HASH_MASK;
          hash = (CRUSH_HASH_SEED XOR a XOR b XOR c) AND HASH_MASK;
          x = 231232; y = 1232;
          (a, b, hash) = hash_mix a b hash;
          (c, x, hash) = hash_mix c x hash;
          (y, _, hash) = hash_mix y a hash;
          (_, _, hash) = hash_mix b x hash;
          (_, _, hash) = hash_mix y c hash
      in hash)"

section \<open>Lemmas\<close>

lemma mask_bound: "unat (x AND HASH_MASK) < 2 ^ 32"
proof -
  have "x AND HASH_MASK = take_bit 32 x"
    by (simp add: take_bit_eq_mask HASH_MASK_def mask_eq_exp_minus_1)
  then show ?thesis by (simp only: unsigned_take_bit_eq take_bit_nat_less_exp)
qed

lemma mix_step_bound: "unat (mix_step x y z s) < 2 ^ 32"
  unfolding mix_step_def by (rule mask_bound)

lemma hash_mix_bound: "hash_mix a b c = (x, y, z) \<Longrightarrow> unat z < 2 ^ 32"
  by (cases "mix_round 12 16 5 (mix_round 13 8 13 (a, b, c))")
    (auto simp: hash_mix_def mix_round_def[of 3] Let_def mix_step_bound[simplified])

lemma jenkins_hash_three_bound: "unat (jenkins_hash_three a b c) < 2 ^ 32"
  unfolding jenkins_hash_three_def Let_def
  by (auto split: prod.splits dest: hash_mix_bound)

lemma capacity_loop_enough:
  "n \<le> capacity * 2 ^ fuel * 3 div 4 \<Longrightarrow> n \<le> capacity_loop fuel n capacity * 3 div 4"
  by (induction fuel arbitrary: capacity) (auto simp: mult.assoc)

lemma java_hash_map_capacity_enough: "n \<le> java_hash_map_capacity n * 3 div 4"
proof -
  have "n < 2 ^ n" by (rule less_exp)
  then have "n \<le> 12 * 2 ^ n" by linarith
  then have "n \<le> 16 * 2 ^ n * 3 div 4" by simp
  then show ?thesis unfolding java_hash_map_capacity_def by (rule capacity_loop_enough)
qed

end
