(* ===== verification/Crush.thy ===== *)
theory Crush
  imports Replica_State Crush_Hash
begin

text \<open>
  CRUSH placement (\<^verbatim>\<open>src/rebalance/crush.rs\<close>): topology validation, the node tree, straw
  selection of a child, the retry loops and the assignment. Straw lengths are \<open>f32\<close> values
  computed with \<open>f64::powf\<close>, whose result Rust leaves to the platform: the floating-point
  operations are a parameter, and every statement holds for all of them. A selection that
  never returns, or that panics on a node without children, is \<open>None\<close>.
\<close>

unbundle bit_operations_syntax

section \<open>Topologies and instances\<close>

record CrushTopology =
  topology_path :: string
  fault_zone_type :: string
  end_node_type :: string

record CrushInstance =
  crush_instance :: InstanceId
  crush_fault_zone :: string

datatype CrushError =
    DuplicateInstance InstanceId
  | DuplicateCrushPartition PartitionId
  | EmptyFaultZone
  | LiveInstanceUnknown InstanceId
  | NoInstances
  | NoCrushPartitions
  | SelectedNonInstance
  | UnsupportedTopology string string string

text \<open>\<open>str::split('/')\<close>.\<close>

fun split_slash :: "string \<Rightarrow> string list" where
  "split_slash [] = [[]]"
| "split_slash (c # cs) =
     (if c = CHR ''/'' then [] # split_slash cs
      else (case split_slash cs of [] \<Rightarrow> [[c]] | w # ws \<Rightarrow> (c # w) # ws))"

definition topology_validate :: "CrushTopology \<Rightarrow> CrushError + unit" where
  "topology_validate t =
     (let path = filter (\<lambda>component. component \<noteq> []) (split_slash (topology_path t));
          flat = (length path = 1 \<and> path ! 0 = end_node_type t \<and> fault_zone_type t = end_node_type t);
          hierarchical = (length path = 2 \<and> path ! 0 = fault_zone_type t \<and> path ! 1 = end_node_type t)
      in if \<not> flat \<and> \<not> hierarchical
         then Inl (UnsupportedTopology (topology_path t) (fault_zone_type t) (end_node_type t)) else Inr ())"

definition CrushTopology_new :: "string \<Rightarrow> string \<Rightarrow> string \<Rightarrow> CrushError + CrushTopology" where
  "CrushTopology_new path zone leaf =
     (let t = \<lparr>topology_path = path, fault_zone_type = zone, end_node_type = leaf\<rparr>
      in bind_result (topology_validate t) (\<lambda>_. Inr t))"

definition CrushInstance_new :: "InstanceId \<Rightarrow> string \<Rightarrow> CrushError + CrushInstance" where
  "CrushInstance_new i zone =
     (if zone = [] then Inl EmptyFaultZone else Inr \<lparr>crush_instance = i, crush_fault_zone = zone\<rparr>)"

section \<open>The node tree\<close>

record Node =
  node_name :: string
  node_type :: string
  node_id :: u64
  node_weight :: nat
  node_failed :: bool
  node_children :: "nat list"
  node_instance :: "InstanceId option"

type_synonym tree_nodes = "Node list"

definition DEFAULT_NODE_WEIGHT :: nat where
  "DEFAULT_NODE_WEIGHT = 1000"

definition MAX_RETRY :: nat where
  "MAX_RETRY = 10"

definition MAX_LOOPBACK_COUNT :: nat where
  "MAX_LOOPBACK_COUNT = 50"

definition add_node :: "string \<Rightarrow> string \<Rightarrow> InstanceId option \<Rightarrow> bool \<Rightarrow> tree_nodes \<Rightarrow> nat \<times> tree_nodes" where
  "add_node name ty inst failed nodes =
     (length nodes, nodes @ [\<lparr>node_name = name, node_type = ty, node_id = sha1_first_u32 name, node_weight = 0,
        node_failed = failed, node_children = [], node_instance = inst\<rparr>])"

definition add_weight :: "nat \<Rightarrow> tree_nodes \<Rightarrow> tree_nodes" where
  "add_weight n nodes = nodes[n := (nodes ! n)\<lparr>node_weight := node_weight (nodes ! n) + DEFAULT_NODE_WEIGHT\<rparr>]"

definition set_default_weight :: "nat \<Rightarrow> tree_nodes \<Rightarrow> tree_nodes" where
  "set_default_weight n nodes = nodes[n := (nodes ! n)\<lparr>node_weight := DEFAULT_NODE_WEIGHT\<rparr>]"

definition push_child :: "nat \<Rightarrow> nat \<Rightarrow> tree_nodes \<Rightarrow> tree_nodes" where
  "push_child parent child nodes =
     nodes[parent := (nodes ! parent)\<lparr>node_children := node_children (nodes ! parent) @ [child]\<rparr>]"

text \<open>The root is node 0.\<close>

definition add_leaf :: "InstanceId bset \<Rightarrow> CrushTopology \<Rightarrow> CrushInstance \<Rightarrow> tree_nodes \<Rightarrow> nat \<times> tree_nodes" where
  "add_leaf live t inst nodes =
     (let is_live = bt_contains live (crush_instance inst);
          (leaf, nodes) = add_node (InstanceId_as_str (crush_instance inst)) (end_node_type t) (Some (crush_instance inst)) (\<not> is_live) nodes
      in (leaf, if is_live then set_default_weight leaf nodes else nodes))"

definition ensure_zone ::
    "CrushTopology \<Rightarrow> CrushInstance \<Rightarrow> tree_nodes \<Rightarrow> (string, nat) btree \<Rightarrow> nat \<times> tree_nodes \<times> (string, nat) btree" where
  "ensure_zone t inst nodes zones =
     (case bt_get zones (crush_fault_zone inst) of
        Some zone \<Rightarrow> (zone, nodes, zones)
      | None \<Rightarrow>
          (let (zone, nodes) = add_node (crush_fault_zone inst) (fault_zone_type t) None False nodes
           in (zone, push_child 0 zone nodes, bt_insert (crush_fault_zone inst) zone zones)))"

definition build_instance ::
    "InstanceId bset \<Rightarrow> CrushTopology \<Rightarrow> CrushInstance \<Rightarrow> tree_nodes \<times> (string, nat) btree \<Rightarrow> tree_nodes \<times> (string, nat) btree" where
  "build_instance live t inst st = (case st of (nodes, zones) \<Rightarrow>
     let is_live = bt_contains live (crush_instance inst) in
     if fault_zone_type t = end_node_type t
     then
       (let (leaf, nodes) = add_leaf live t inst nodes;
            nodes = (if is_live then add_weight 0 nodes else nodes)
        in (push_child 0 leaf nodes, zones))
     else
       (let (zone, nodes, zones) = ensure_zone t inst nodes zones;
            (leaf, nodes) = add_leaf live t inst nodes;
            nodes = (if is_live then add_weight 0 (add_weight zone nodes) else nodes)
        in (push_child zone leaf nodes, zones)))"

definition build_tree :: "CrushInstance list \<Rightarrow> InstanceId bset \<Rightarrow> CrushTopology \<Rightarrow> tree_nodes" where
  "build_tree instances live t =
     fst (fold (build_instance live t) instances (snd (add_node ''root'' ''ROOT'' None False []), bt_empty))"

section \<open>Straw selection\<close>

record 'f float_ops =
  f_of_nat :: "nat \<Rightarrow> 'f"
  f_add :: "'f \<Rightarrow> 'f \<Rightarrow> 'f"
  f_sub :: "'f \<Rightarrow> 'f \<Rightarrow> 'f"
  f_mul :: "'f \<Rightarrow> 'f \<Rightarrow> 'f"
  f_div :: "'f \<Rightarrow> 'f \<Rightarrow> 'f"
  f_eq :: "'f \<Rightarrow> 'f \<Rightarrow> bool"
  f_root :: "'f \<Rightarrow> 'f \<Rightarrow> 'f"
  f_to_u64 :: "'f \<Rightarrow> u64"

text \<open>
  \<open>f_root p n\<close> is \<open>(1.0 / f64::from(p)).powf(1.0 / f64::from(n)) as f32\<close>. The inner
  \<open>while\<close> counts the nodes from \<open>index\<close> on that have the weight of \<open>index\<close>.
\<close>

definition weight_at :: "tree_nodes \<Rightarrow> nat list \<Rightarrow> nat \<Rightarrow> nat" where
  "weight_at nodes sorted_children k = node_weight (nodes ! (sorted_children ! k))"

definition group_size :: "'f float_ops \<Rightarrow> tree_nodes \<Rightarrow> nat list \<Rightarrow> nat \<Rightarrow> nat" where
  "group_size ops nodes sorted_children index =
     length (takeWhile (\<lambda>c. f_eq ops (f_of_nat ops (node_weight (nodes ! c)))
                                (f_of_nat ops (weight_at nodes sorted_children index)))
               (drop index sorted_children))"

function straw_loop ::
    "'f float_ops \<Rightarrow> tree_nodes \<Rightarrow> nat list \<Rightarrow> nat \<Rightarrow> 'f \<Rightarrow> 'f \<Rightarrow> 'f \<Rightarrow> 'f \<Rightarrow> (nat \<times> u64 \<times> nat) list \<Rightarrow> (nat \<times> u64 \<times> nat) list" where
  "straw_loop ops nodes sorted_children index num_left straw w_below last_w straws =
     (if \<not> index < length sorted_children then straws
      else if weight_at nodes sorted_children index = 0
      then straw_loop ops nodes sorted_children (index + 1) num_left straw w_below last_w (straws @ [(sorted_children ! index, 0, index)])
      else
        (let straws = straws @ [(sorted_children ! index, f_to_u64 ops (f_mul ops straw (f_of_nat ops 65536)), index)]; index = index + 1 in
         if index = length sorted_children then straws
         else
           (let current_weight = f_of_nat ops (weight_at nodes sorted_children index);
                previous_weight = f_of_nat ops (weight_at nodes sorted_children (index - 1)) in
            if f_eq ops current_weight previous_weight
            then straw_loop ops nodes sorted_children index num_left straw w_below last_w straws
            else
              (let w_below = f_add ops w_below (f_mul ops (f_sub ops previous_weight last_w) num_left);
                   num_left = ((\<lambda>n. f_sub ops n (f_of_nat ops 1)) ^^ group_size ops nodes sorted_children index) num_left;
                   w_next = f_mul ops num_left (f_sub ops current_weight previous_weight);
                   p_below = f_div ops w_below (f_add ops w_below w_next);
                   straw = f_mul ops straw (f_root ops p_below num_left)
               in straw_loop ops nodes sorted_children index num_left straw w_below previous_weight straws))))"
  by pat_completeness auto
termination
  by (relation "measure (\<lambda>(ops, nodes, s, index, r). length s - index)") auto

declare straw_loop.simps [simp del]

text \<open>\<open>straws[0]\<close> panics on a node without children. The product of hash and straw is taken
  modulo \<open>2 ^ 64\<close>, as in a release build.\<close>

definition score_straw :: "tree_nodes \<Rightarrow> u64 \<Rightarrow> nat \<Rightarrow> nat \<times> u64 \<times> nat \<Rightarrow> nat \<times> u64 \<Rightarrow> nat \<times> u64" where
  "score_straw nodes input round entry best = (case (entry, best) of ((node, straw, _), (selected, high_score)) \<Rightarrow>
     let hash = jenkins_hash_three input (node_id (nodes ! node)) (of_nat round) AND 0xffff;
         score = hash * straw
     in if score > high_score then (node, score) else (selected, high_score))"

definition best_straw :: "tree_nodes \<Rightarrow> u64 \<Rightarrow> nat \<Rightarrow> (nat \<times> u64 \<times> nat) list \<Rightarrow> nat option" where
  "best_straw nodes input round straws =
     (case straws of
        [] \<Rightarrow> None
      | first # _ \<Rightarrow> Some (fst (fold (score_straw nodes input round) straws (fst first, 0))))"

definition choose_child :: "'f float_ops \<Rightarrow> tree_nodes \<Rightarrow> nat \<Rightarrow> u64 \<Rightarrow> nat \<Rightarrow> nat option" where
  "choose_child ops nodes parent input round =
     (let sorted_children = sort_by (\<lambda>l r. node_weight (nodes ! r) \<le> node_weight (nodes ! l)) (node_children (nodes ! parent));
          straws = straw_loop ops nodes sorted_children 0 (f_of_nat ops (length sorted_children)) (f_of_nat ops 1) (f_of_nat ops 0) (f_of_nat ops 0) [];
          capacity = java_hash_map_capacity (length straws)
      in best_straw nodes input round
           (sort_by (\<lambda>(l, _, i) (r, _, j). (java_hash_map_bucket (node_name (nodes ! l)) capacity, i) \<le>
                                            (java_hash_map_bucket (node_name (nodes ! r)) capacity, j)) straws))"

definition is_node_unavailable :: "tree_nodes \<Rightarrow> nat \<Rightarrow> bool" where
  "is_node_unavailable nodes n =
     (node_weight (nodes ! n) = 0 \<or> (node_children (nodes ! n) = [] \<and> node_failed (nodes ! n)))"

definition all_children_eliminated :: "tree_nodes \<Rightarrow> nat \<Rightarrow> nat list \<Rightarrow> nat bset \<Rightarrow> bool" where
  "all_children_eliminated nodes parent selected rejected =
     list_all (\<lambda>child. is_node_unavailable nodes child \<or> child \<in> set selected \<or> bt_contains rejected child)
       (node_children (nodes ! parent))"

section \<open>Selection loops\<close>

text \<open>
  The nested \<open>loop\<close>s that look for one node: the value is the candidate with the escape
  flag, \<open>None\<close> when the search does not return.
\<close>

partial_function (option) select_loop ::
    "'f float_ops \<Rightarrow> tree_nodes \<Rightarrow> nat \<Rightarrow> u64 \<Rightarrow> nat \<Rightarrow> string \<Rightarrow> nat bset \<Rightarrow> nat list \<Rightarrow>
     nat \<Rightarrow> nat bset \<Rightarrow> nat \<Rightarrow> nat \<Rightarrow> (bool \<times> nat) option" where
  "select_loop ops nodes parent input r ty excluded selected input_node rejected failure loopback_count =
     Option.bind (choose_child ops nodes input_node input (r + failure)) (\<lambda>candidate.
       if node_type (nodes ! candidate) \<noteq> ty
       then select_loop ops nodes parent input r ty excluded selected candidate rejected failure loopback_count
       else if candidate \<in> set selected \<or> bt_contains excluded candidate
       then
         (if all_children_eliminated nodes input_node selected (bs_insert candidate rejected)
          then (if loopback_count = MAX_LOOPBACK_COUNT then Some (True, candidate)
                else select_loop ops nodes parent input r ty excluded selected parent bt_empty (failure + 1) (loopback_count + 1))
          else select_loop ops nodes parent input r ty excluded selected input_node (bs_insert candidate rejected) (failure + 1) loopback_count)
       else if is_node_unavailable nodes candidate
       then (if loopback_count = MAX_LOOPBACK_COUNT then Some (True, candidate)
             else select_loop ops nodes parent input r ty excluded selected parent bt_empty (failure + 1) (loopback_count + 1))
       else Some (False, candidate))"

fun select_rounds ::
    "'f float_ops \<Rightarrow> tree_nodes \<Rightarrow> nat \<Rightarrow> u64 \<Rightarrow> string \<Rightarrow> nat bset \<Rightarrow> nat list \<Rightarrow> nat list \<Rightarrow> nat list option" where
  "select_rounds ops nodes parent input ty excluded [] selected = Some selected"
| "select_rounds ops nodes parent input ty excluded (r # rs) selected =
     Option.bind (select_loop ops nodes parent input r ty excluded selected parent bt_empty 0 0) (\<lambda>(escape, out).
       select_rounds ops nodes parent input ty excluded rs (if escape then selected else selected @ [out]))"

definition select_nodes_of_type ::
    "'f float_ops \<Rightarrow> tree_nodes \<Rightarrow> nat \<Rightarrow> u64 \<Rightarrow> nat \<Rightarrow> string \<Rightarrow> nat bset \<Rightarrow> nat list option" where
  "select_nodes_of_type ops nodes parent input n ty excluded =
     select_rounds ops nodes parent input ty excluded [1..<n + 1] []"

fun select_end_nodes :: "'f float_ops \<Rightarrow> tree_nodes \<Rightarrow> CrushTopology \<Rightarrow> u64 \<Rightarrow> nat list \<Rightarrow> nat list \<Rightarrow> nat list option" where
  "select_end_nodes ops nodes t input [] selected = Some selected"
| "select_end_nodes ops nodes t input (zone # zones) selected =
     Option.bind (select_nodes_of_type ops nodes zone input 1 (end_node_type t) bt_empty) (\<lambda>end_nodes.
       select_end_nodes ops nodes t input zones (selected @ end_nodes))"

definition add_replicas_for_attempt ::
    "'f float_ops \<Rightarrow> tree_nodes \<Rightarrow> CrushTopology \<Rightarrow> nat \<Rightarrow> u64 \<Rightarrow> nat \<Rightarrow> nat list \<times> nat bset \<Rightarrow> (nat list \<times> nat bset) option" where
  "add_replicas_for_attempt ops nodes t top_node input n st = (case st of (selected, zones_used) \<Rightarrow>
     if fault_zone_type t \<noteq> end_node_type t
     then Option.bind (select_nodes_of_type ops nodes top_node input n (fault_zone_type t) zones_used) (\<lambda>zones.
            Option.bind (select_end_nodes ops nodes t input zones selected) (\<lambda>selected'.
              Some (selected', fold bs_insert zones zones_used)))
     else Option.bind (select_nodes_of_type ops nodes top_node input n (end_node_type t) (bs_collect selected)) (\<lambda>more.
            Some (selected @ more, zones_used)))"

text \<open>
  \<open>while nodes.len() < replica_count\<close>: every pass that does not fill the list counts a
  try, so the loop ends after at most \<open>MAX_RETRY\<close> passes.
\<close>

function replicas_loop ::
    "'f float_ops \<Rightarrow> tree_nodes \<Rightarrow> CrushTopology \<Rightarrow> nat \<Rightarrow> u64 \<Rightarrow> nat \<Rightarrow> nat \<Rightarrow> nat \<Rightarrow> nat list \<times> nat bset \<Rightarrow> nat list option" where
  "replicas_loop ops nodes t top_node input replica_count n tries st =
     (if \<not> length (fst st) < replica_count then Some (fst st)
      else Option.bind (add_replicas_for_attempt ops nodes t top_node input n st) (\<lambda>st'.
        let n' = replica_count - length (fst st') in
        if n' > 0
        then (if tries + 1 \<ge> MAX_RETRY then Some (fst st')
              else replicas_loop ops nodes t top_node (jenkins_hash_one input) replica_count n' (tries + 1) st')
        else Some (fst st')))"
  by pat_completeness auto
termination
  by (relation "measure (\<lambda>(ops, nodes, t, top_node, input, rc, n, tries, st). MAX_RETRY - tries)") auto

declare replicas_loop.simps [simp del]

definition select_replicas :: "'f float_ops \<Rightarrow> tree_nodes \<Rightarrow> CrushTopology \<Rightarrow> nat \<Rightarrow> u64 \<Rightarrow> nat \<Rightarrow> nat list option" where
  "select_replicas ops nodes t top_node data replica_count =
     replicas_loop ops nodes t top_node data replica_count replica_count 0 ([], bt_empty)"

section \<open>The assignment\<close>

definition crush_validate ::
    "PartitionId list \<Rightarrow> CrushInstance list \<Rightarrow> InstanceId bset \<Rightarrow> CrushTopology \<Rightarrow> CrushError + unit" where
  "crush_validate partitions instances live t =
     bind_result (topology_validate t) (\<lambda>_.
     if partitions = [] then Inl NoCrushPartitions
     else if instances = [] then Inl NoInstances
     else
       bind_result (try_fold (\<lambda>p seen. if bt_contains seen p then Inl (DuplicateCrushPartition p) else Inr (bs_insert p seen))
                      partitions bt_empty) (\<lambda>_.
       bind_result (try_fold (\<lambda>i seen. if bt_contains seen (crush_instance i) then Inl (DuplicateInstance (crush_instance i))
                                       else Inr (bs_insert (crush_instance i) seen)) instances bt_empty) (\<lambda>names.
       try_fold (\<lambda>i _. if bt_contains names i then Inr () else Inl (LiveInstanceUnknown i)) (bt_keys live) ())))"

definition crush_preferences :: "tree_nodes \<Rightarrow> nat list \<Rightarrow> CrushError + InstanceId list" where
  "crush_preferences nodes selected = map_result (\<lambda>n. ok_or (node_instance (nodes ! n)) SelectedNonInstance) selected"

fun crush_loop ::
    "'f float_ops \<Rightarrow> tree_nodes \<Rightarrow> CrushTopology \<Rightarrow> nat \<Rightarrow> PartitionId list \<Rightarrow> (PartitionId, InstanceId list) btree \<Rightarrow>
     (CrushError + (PartitionId, InstanceId list) btree) option" where
  "crush_loop ops nodes t replica_count [] assignment = Some (Inr assignment)"
| "crush_loop ops nodes t replica_count (p # ps) assignment =
     Option.bind (select_replicas ops nodes t 0 (scast (java_string_hash (PartitionId_as_str p))) replica_count) (\<lambda>selected.
       (case crush_preferences nodes selected of
          Inl e \<Rightarrow> Some (Inl e)
        | Inr preferences \<Rightarrow> crush_loop ops nodes t replica_count ps (bt_insert p preferences assignment)))"

definition compute_crush_assignment ::
    "'f float_ops \<Rightarrow> ResourceId \<Rightarrow> PartitionId list \<Rightarrow> nat \<Rightarrow> CrushInstance list \<Rightarrow> InstanceId bset \<Rightarrow> CrushTopology \<Rightarrow>
     (CrushError + (PartitionId, InstanceId list) btree) option" where
  "compute_crush_assignment ops resource partitions replica_count instances live t =
     (case crush_validate partitions instances live t of
        Inl e \<Rightarrow> Some (Inl e)
      | Inr _ \<Rightarrow> crush_loop ops (build_tree instances live t) t replica_count partitions bt_empty)"

end
