(* ===== verification/Crush_Laws.thy ===== *)
theory Crush_Laws
  imports Crush
begin

text \<open>
  What CRUSH placement guarantees, for every choice of floating-point operations: the exact
  validation, placements of distinct live instances in distinct fault zones, and the searches
  that always return. The lemmas go from the choice of one child over the search loops to the
  tree built from the topology.
\<close>

section \<open>Choosing a child\<close>

lemma straw_loop_nodes:
  "index \<le> length cs \<Longrightarrow>
   map fst (straw_loop ops nodes cs index num_left straw w_below last_w straws) = map fst straws @ drop index cs"
proof (induction ops nodes cs index num_left straw w_below last_w straws rule: straw_loop.induct)
  case (1 ops nodes cs index num_left straw w_below last_w straws)
  show ?case
  proof (cases "index < length cs")
    case True
    have step: "drop index cs = cs ! index # drop (Suc index) cs" using True by (simp add: Cons_nth_drop_Suc)
    consider "weight_at nodes cs index = 0"
      | "weight_at nodes cs index \<noteq> 0" "Suc index = length cs"
      | "weight_at nodes cs index \<noteq> 0" "Suc index \<noteq> length cs"
          "f_eq ops (f_of_nat ops (weight_at nodes cs (Suc index))) (f_of_nat ops (weight_at nodes cs index))"
      | "weight_at nodes cs index \<noteq> 0" "Suc index \<noteq> length cs"
          "\<not> f_eq ops (f_of_nat ops (weight_at nodes cs (Suc index))) (f_of_nat ops (weight_at nodes cs index))"
      by blast
    then show ?thesis
    proof cases
      case 1
      then show ?thesis using "1.IH"(1) True by (subst straw_loop.simps) (simp add: step)
    next
      case 2
      then show ?thesis using True by (subst straw_loop.simps) (simp add: step Let_def)
    next
      case 3
      then show ?thesis using "1.IH"(2)[OF _ _ refl refl _ refl refl] True
        by (subst straw_loop.simps) (simp add: step Let_def)
    next
      case 4
      then show ?thesis using "1.IH"(3)[OF _ _ refl refl _ refl refl _ refl refl refl refl refl] True
        by (subst straw_loop.simps) (simp add: step Let_def)
    qed
  qed (use 1 in \<open>subst straw_loop.simps, simp\<close>)
qed

lemma fold_score_straw_mem: "fst (fold (score_straw nodes input round) ss best) \<in> insert (fst best) (fst ` set ss)"
proof (induction ss arbitrary: best)
  case (Cons s ss)
  have "fst (score_straw nodes input round s best) \<in> {fst best, fst s}"
    by (cases s; cases best) (simp add: score_straw_def Let_def)
  with Cons.IH[of "score_straw nodes input round s best"] show ?case by auto
qed simp

lemma best_straw_mem:
  assumes "straws \<noteq> []"
  shows "\<exists>n \<in> fst ` set straws. best_straw nodes input round straws = Some n"
proof (cases straws)
  case (Cons s ss)
  then show ?thesis using fold_score_straw_mem[of nodes input round straws "(fst s, 0)"]
    by (auto simp: best_straw_def)
qed (use assms in simp)

text \<open>The chosen child is a child, and only a node without children makes the choice panic.\<close>

lemma choose_child_mem:
  assumes "node_children (nodes ! n) \<noteq> []"
  shows "\<exists>c \<in> set (node_children (nodes ! n)). choose_child ops nodes n input round = Some c"
proof -
  let ?cs = "sort_by (\<lambda>l r. node_weight (nodes ! r) \<le> node_weight (nodes ! l)) (node_children (nodes ! n))"
  let ?ss = "straw_loop ops nodes ?cs 0 (f_of_nat ops (length ?cs)) (f_of_nat ops 1) (f_of_nat ops 0) (f_of_nat ops 0) []"
  define le where "le = (\<lambda>(l :: nat, _ :: u64, i :: nat) (r :: nat, _ :: u64, j).
     (java_hash_map_bucket (node_name (nodes ! l)) (java_hash_map_capacity (length ?ss)), i) \<le>
     (java_hash_map_bucket (node_name (nodes ! r)) (java_hash_map_capacity (length ?ss)), j))"
  have mem: "fst ` set (sort_by le ?ss) = set (node_children (nodes ! n))"
    using arg_cong[OF straw_loop_nodes[of 0 ?cs ops nodes "f_of_nat ops (length ?cs)" "f_of_nat ops 1" "f_of_nat ops 0" "f_of_nat ops 0" "[]"], of set]
    by simp
  then have "sort_by le ?ss \<noteq> []" using assms by (metis image_is_empty set_empty)
  from best_straw_mem[OF this, of nodes input round, unfolded mem] show ?thesis
    by (simp only: choose_child_def Let_def le_def)
qed

lemma choose_child_None:
  assumes "node_children (nodes ! n) = []"
  shows "choose_child ops nodes n input round = None"
  using assms by (simp add: choose_child_def straw_loop.simps best_straw_def)

lemma choose_child_child: "choose_child ops nodes n input round = Some c \<Longrightarrow> c \<in> set (node_children (nodes ! n))"
  using choose_child_mem[of nodes n ops input round] choose_child_None[of nodes n ops input round] by force

section \<open>The search for one node\<close>

text \<open>
  When all children of the start node have the wanted type, the search stays at the start
  node: what it accepts is a new, available child.
\<close>

lemma select_loop_accepts:
  assumes "select_loop ops nodes parent input r ty excluded selected input_node rejected failure loopback = Some res"
    and "input_node = parent" and "\<forall>c \<in> set (node_children (nodes ! parent)). node_type (nodes ! c) = ty"
    and "res = (False, out)"
  shows "out \<in> set (node_children (nodes ! parent)) \<and> out \<notin> set selected \<and> \<not> bt_contains excluded out \<and>
    \<not> is_node_unavailable nodes out"
  using assms
proof (induction rule: select_loop.raw_induct[rotated 1, consumes 1, case_names body])
  case (body loop ops nodes parent input r ty excluded selected input_node rejected failure loopback res)
  note IH = body(1)
  obtain c where c: "choose_child ops nodes input_node input (r + failure) = Some c"
    using body(2) by (auto simp: bind_eq_Some_conv)
  then have m: "c \<in> set (node_children (nodes ! parent))" and ty: "node_type (nodes ! c) = ty"
    using body(3,4) choose_child_child by blast+
  show ?case
    using body(2) IH[OF _ refl body(4,5)] m ty body(5) unfolding body(3) c[unfolded body(3)] by (simp split: if_splits)
qed

lemma select_rounds_accepts:
  assumes "select_rounds ops nodes parent input ty excluded rs selected = Some out"
    and "\<forall>c \<in> set (node_children (nodes ! parent)). node_type (nodes ! c) = ty"
  shows "\<exists>more. out = selected @ more \<and> length more \<le> length rs \<and> distinct more \<and> set more \<inter> set selected = {} \<and>
    (\<forall>c \<in> set more. c \<in> set (node_children (nodes ! parent)) \<and> \<not> bt_contains excluded c \<and> \<not> is_node_unavailable nodes c)"
  using assms(1)
proof (induction rs arbitrary: selected)
  case (Cons r rs)
  then obtain escape c where
    c: "select_loop ops nodes parent input r ty excluded selected parent bt_empty 0 0 = Some (escape, c)" and
    rest: "select_rounds ops nodes parent input ty excluded rs (if escape then selected else selected @ [c]) = Some out"
    by (auto simp: bind_eq_Some_conv)
  show ?case
  proof (cases escape)
    case True
    then show ?thesis using Cons.IH[of selected] rest by fastforce
  next
    case False
    from select_loop_accepts[OF c refl assms(2)] False have "c \<in> set (node_children (nodes ! parent))" "c \<notin> set selected"
      "\<not> bt_contains excluded c" "\<not> is_node_unavailable nodes c" by simp_all
    moreover from Cons.IH[of "selected @ [c]"] rest False obtain more where
      "out = (selected @ [c]) @ more" "length more \<le> length rs" "distinct more" "set more \<inter> set (selected @ [c]) = {}"
      "\<forall>c \<in> set more. c \<in> set (node_children (nodes ! parent)) \<and> \<not> bt_contains excluded c \<and> \<not> is_node_unavailable nodes c"
      by auto
    ultimately show ?thesis by (intro exI[of _ "c # more"]) auto
  qed
qed simp

lemma select_nodes_of_type_accepts:
  assumes "select_nodes_of_type ops nodes parent input n ty excluded = Some out"
    and "\<forall>c \<in> set (node_children (nodes ! parent)). node_type (nodes ! c) = ty"
  shows "length out \<le> n" and "distinct out"
    and "\<forall>c \<in> set out. c \<in> set (node_children (nodes ! parent)) \<and> \<not> bt_contains excluded c \<and> \<not> is_node_unavailable nodes c"
  using select_rounds_accepts[OF assms[unfolded select_nodes_of_type_def]] by (auto simp del: upt_Suc)

section \<open>The tree\<close>

text \<open>Weight updates leave everything but weights alone.\<close>

lemma add_weight_nth:
  "add_weight n nodes ! k =
     (if k = n \<and> n < length nodes then (nodes ! n)\<lparr>node_weight := node_weight (nodes ! n) + DEFAULT_NODE_WEIGHT\<rparr> else nodes ! k)"
  by (cases "n < length nodes") (auto simp: add_weight_def list_update_beyond not_less)

lemma add_weight_fields [simp]:
  "length (add_weight n nodes) = length nodes"
  "node_name (add_weight n nodes ! k) = node_name (nodes ! k)"
  "node_type (add_weight n nodes ! k) = node_type (nodes ! k)"
  "node_failed (add_weight n nodes ! k) = node_failed (nodes ! k)"
  "node_children (add_weight n nodes ! k) = node_children (nodes ! k)"
  "node_instance (add_weight n nodes ! k) = node_instance (nodes ! k)"
  "k \<noteq> n \<Longrightarrow> add_weight n nodes ! k = nodes ! k"
  by (simp_all add: add_weight_nth) (simp add: add_weight_def)

lemma set_default_weight_other [simp]:
  "length (set_default_weight n nodes) = length nodes"
  "k \<noteq> n \<Longrightarrow> set_default_weight n nodes ! k = nodes ! k"
  "n < length nodes \<Longrightarrow> set_default_weight n nodes ! n = (nodes ! n)\<lparr>node_weight := DEFAULT_NODE_WEIGHT\<rparr>"
  by (simp_all add: set_default_weight_def)

lemma push_child_nth [simp]:
  "length (push_child p c nodes) = length nodes"
  "k \<noteq> p \<Longrightarrow> push_child p c nodes ! k = nodes ! k"
  "p < length nodes \<Longrightarrow> push_child p c nodes ! p = (nodes ! p)\<lparr>node_children := node_children (nodes ! p) @ [c]\<rparr>"
  by (simp_all add: push_child_def)

definition leaf_node :: "InstanceId bset \<Rightarrow> CrushTopology \<Rightarrow> CrushInstance \<Rightarrow> Node" where
  "leaf_node live t inst = \<lparr>node_name = InstanceId_as_str (crush_instance inst), node_type = end_node_type t,
     node_id = sha1_first_u32 (InstanceId_as_str (crush_instance inst)),
     node_weight = (if bt_contains live (crush_instance inst) then DEFAULT_NODE_WEIGHT else 0),
     node_failed = (\<not> bt_contains live (crush_instance inst)), node_children = [], node_instance = Some (crush_instance inst)\<rparr>"

lemma add_leaf_eq: "add_leaf live t inst nodes = (length nodes, nodes @ [leaf_node live t inst])"
  by (simp add: add_leaf_def add_node_def leaf_node_def Let_def set_default_weight_def list_update_append)

lemma leaf_node_fields [simp]:
  "node_type (leaf_node live t inst) = end_node_type t"
  "node_instance (leaf_node live t inst) = Some (crush_instance inst)"
  by (simp_all add: leaf_node_def)

lemma leaf_available: "node_weight (leaf_node live t inst) \<noteq> 0 \<Longrightarrow> bt_contains live (crush_instance inst)"
  by (simp add: leaf_node_def split: if_splits)

text \<open>A flat tree: the leaves in the order of the instances, below the root.\<close>

definition flat_tree :: "CrushTopology \<Rightarrow> InstanceId bset \<Rightarrow> CrushInstance list \<Rightarrow> tree_nodes \<Rightarrow> bool" where
  "flat_tree t live instances nodes \<longleftrightarrow>
     length nodes = Suc (length instances) \<and> node_children (nodes ! 0) = [1..<length nodes] \<and>
     (\<forall>k < length instances. nodes ! Suc k = leaf_node live t (instances ! k))"

lemma flat_tree_leaf:
  assumes "flat_tree t live instances nodes" and "c \<in> set (node_children (nodes ! 0))"
  shows "\<exists>k < length instances. c = Suc k \<and> nodes ! c = leaf_node live t (instances ! k)"
proof -
  have "0 < c" "c < length nodes" using assms by (simp_all add: flat_tree_def del: upt_Suc)
  then show ?thesis using assms(1) by (cases c) (auto simp: flat_tree_def)
qed

lemma flat_tree_step:
  assumes "flat_tree t live seen nodes" and "fault_zone_type t = end_node_type t"
  shows "flat_tree t live (seen @ [inst]) (fst (build_instance live t inst (nodes, zones)))"
proof -
  have "0 < length nodes" using assms(1) by (simp add: flat_tree_def)
  then show ?thesis using assms
    by (auto simp: flat_tree_def build_instance_def add_leaf_eq Let_def nth_append less_Suc_eq)
qed

text \<open>A hierarchical tree: the root's children are the zones, found by name, and a zone's
  children are leaves of its instances.\<close>

definition zone_node ::
    "CrushTopology \<Rightarrow> InstanceId bset \<Rightarrow> CrushInstance set \<Rightarrow> tree_nodes \<Rightarrow> string \<Rightarrow> nat \<Rightarrow> bool" where
  "zone_node t live instances nodes name z \<longleftrightarrow>
     0 < z \<and> z < length nodes \<and> node_name (nodes ! z) = name \<and> node_type (nodes ! z) = fault_zone_type t \<and>
     node_instance (nodes ! z) = None \<and>
     (\<forall>c \<in> set (node_children (nodes ! z)). c < length nodes \<and>
        (\<exists>inst \<in> instances. crush_fault_zone inst = name \<and> nodes ! c = leaf_node live t inst))"

definition zone_tree ::
    "CrushTopology \<Rightarrow> InstanceId bset \<Rightarrow> CrushInstance set \<Rightarrow> tree_nodes \<Rightarrow> (string, nat) btree \<Rightarrow> bool" where
  "zone_tree t live instances nodes zones \<longleftrightarrow>
     0 < length nodes \<and> node_instance (nodes ! 0) = None \<and>
     (\<forall>z. z \<in> set (node_children (nodes ! 0)) \<longleftrightarrow> (\<exists>name. bt_get zones name = Some z)) \<and>
     (\<forall>name z. bt_get zones name = Some z \<longrightarrow> zone_node t live instances nodes name z) \<and>
     (\<forall>inst \<in> instances. bt_contains zones (crush_fault_zone inst))"

lemma zone_node_update:
  assumes "zone_node t live seen nodes name z" and "length nodes \<le> length nodes'"
    and "\<And>k. k < length nodes \<Longrightarrow> node_instance (nodes ! k) \<noteq> None \<Longrightarrow> nodes' ! k = nodes ! k"
    and "node_name (nodes' ! z) = node_name (nodes ! z)" "node_type (nodes' ! z) = node_type (nodes ! z)"
      "node_instance (nodes' ! z) = node_instance (nodes ! z)"
    and "\<And>c. c \<in> set (node_children (nodes' ! z)) \<Longrightarrow> c \<in> set (node_children (nodes ! z)) \<or>
      (c < length nodes' \<and> (\<exists>inst \<in> seen'. crush_fault_zone inst = name \<and> nodes' ! c = leaf_node live t inst))"
    and "seen \<subseteq> seen'"
  shows "zone_node t live seen' nodes' name z"
proof -
  have old: "nodes' ! c = leaf_node live t inst"
    if "c < length nodes" "nodes ! c = leaf_node live t inst" for c inst
    using assms(3)[of c] that by simp
  show ?thesis unfolding zone_node_def
  proof (intro conjI ballI)
    fix c assume "c \<in> set (node_children (nodes' ! z))"
    then show "c < length nodes'" and "\<exists>inst \<in> seen'. crush_fault_zone inst = name \<and> nodes' ! c = leaf_node live t inst"
      using assms(7)[of c] assms(1,2,8) old unfolding zone_node_def by force+
  qed (use assms(1,2,4,5,6) in \<open>auto simp: zone_node_def\<close>)
qed

lemma zone_tree_ensure_new:
  assumes "zone_tree t live seen nodes zones" and "bt_get zones (crush_fault_zone inst) = None"
    and "ensure_zone t inst nodes zones = (zone, nodes', zones')"
  shows "zone_tree t live seen nodes' zones'" and "bt_get zones' (crush_fault_zone inst) = Some zone"
    and "\<And>name z. bt_get zones' name = Some z \<Longrightarrow> z \<noteq> zone \<Longrightarrow>
      bt_get zones name = Some z \<and> node_children (nodes' ! z) = node_children (nodes ! z)"
proof -
  have tree: "0 < length nodes" "node_instance (nodes ! 0) = None"
      "\<And>z. z \<in> set (node_children (nodes ! 0)) \<longleftrightarrow> (\<exists>name. bt_get zones name = Some z)"
      "\<And>name z. bt_get zones name = Some z \<Longrightarrow> zone_node t live seen nodes name z"
    using assms(1) by (auto simp: zone_tree_def)
  define nd where "nd = \<lparr>node_name = crush_fault_zone inst, node_type = fault_zone_type t,
    node_id = sha1_first_u32 (crush_fault_zone inst), node_weight = 0, node_failed = False, node_children = [], node_instance = None\<rparr>"
  have nd: "nodes' = push_child 0 (length nodes) (nodes @ [nd])" "zone = length nodes"
      "zones' = bt_insert (crush_fault_zone inst) zone zones" "node_name nd = crush_fault_zone inst"
      "node_type nd = fault_zone_type t" "node_instance nd = None" "node_children nd = []"
    using assms(2,3) by (simp_all add: ensure_zone_def add_node_def nd_def) auto
  show zones': "bt_get zones' (crush_fault_zone inst) = Some zone" by (simp add: nd)
  have same: "nodes' ! k = nodes ! k" if "0 < k" "k < length nodes" for k using that by (simp add: nd nth_append)
  have old: "bt_get zones name = Some z" if "bt_get zones' name = Some z" "z \<noteq> zone" for name z
    using that by (auto simp: nd split: if_splits)
  then show "bt_get zones name = Some z \<and> node_children (nodes' ! z) = node_children (nodes ! z)"
    if "bt_get zones' name = Some z" "z \<noteq> zone" for name z
    using tree(4)[OF old[OF that]] same old[OF that] by (simp add: zone_node_def)
  have zone: "zone_node t live seen nodes' (crush_fault_zone inst) zone"
    using tree(1) by (simp add: zone_node_def nd nth_append)
  have keep: "zone_node t live seen nodes' name z" if h: "bt_get zones name = Some z" for name z
  proof (rule zone_node_update[OF tree(4)[OF h]])
    show "nodes' ! k = nodes ! k" if "k < length nodes" "node_instance (nodes ! k) \<noteq> None" for k
      using that tree(2) same[of k] by (cases "k = 0") auto
    have z: "nodes' ! z = nodes ! z" using tree(4)[OF h] same by (simp add: zone_node_def)
    then show "node_name (nodes' ! z) = node_name (nodes ! z)" "node_type (nodes' ! z) = node_type (nodes ! z)"
      "node_instance (nodes' ! z) = node_instance (nodes ! z)"
      and "c \<in> set (node_children (nodes' ! z)) \<Longrightarrow> c \<in> set (node_children (nodes ! z)) \<or>
      (c < length nodes' \<and> (\<exists>inst \<in> seen. crush_fault_zone inst = name \<and> nodes' ! c = leaf_node live t inst))" for c
      by simp_all
  qed (simp_all add: nd)
  have root: "set (node_children (nodes' ! 0)) = insert zone (set (node_children (nodes ! 0)))"
      "node_instance (nodes' ! 0) = None" "0 < length nodes'"
    using tree(1,2) by (auto simp: nd nth_append)
  have names: "(\<exists>name. bt_get zones' name = Some z) \<longleftrightarrow> z = zone \<or> (\<exists>name. bt_get zones name = Some z)" for z
    using assms(2) by (auto simp: nd) (metis option.distinct(1))
  have all: "zone_node t live seen nodes' name z" if "bt_get zones' name = Some z" for name z
    using that keep zone by (auto simp: nd(3) split: if_splits)
  show "zone_tree t live seen nodes' zones'"
    unfolding zone_tree_def root(1) using root(2,3) tree(3) names all assms(1) by (auto simp: nd(3) zone_tree_def)
qed

lemma zone_tree_ensure:
  assumes "zone_tree t live seen nodes zones" and "ensure_zone t inst nodes zones = (zone, nodes', zones')"
  shows "zone_tree t live seen nodes' zones' \<and> bt_get zones' (crush_fault_zone inst) = Some zone \<and>
    (\<forall>name z. bt_get zones' name = Some z \<longrightarrow> z \<noteq> zone \<longrightarrow>
      bt_get zones name = Some z \<and> node_children (nodes' ! z) = node_children (nodes ! z))"
proof (cases "bt_get zones (crush_fault_zone inst)")
  case None
  then show ?thesis using zone_tree_ensure_new[OF assms(1) None assms(2)] by blast
next
  case (Some z)
  then show ?thesis using assms by (simp add: ensure_zone_def)
qed

lemma zone_tree_attach:
  assumes tree: "zone_tree t live seen nodes zones" and zone: "bt_get zones (crush_fault_zone inst) = Some zone"
    and nodes': "nodes' = push_child zone (length nodes)
      (if bt_contains live (crush_instance inst) then add_weight 0 (add_weight zone (nodes @ [leaf_node live t inst]))
       else nodes @ [leaf_node live t inst])"
  shows "zone_tree t live (insert inst seen) nodes' zones"
    and "node_children (nodes' ! zone) \<noteq> []"
    and "\<And>z. z < length nodes \<Longrightarrow> z \<noteq> zone \<Longrightarrow> node_children (nodes' ! z) = node_children (nodes ! z)"
proof -
  have t: "0 < length nodes" "node_instance (nodes ! 0) = None"
      "\<And>name z. bt_get zones name = Some z \<Longrightarrow> zone_node t live seen nodes name z"
    using tree by (auto simp: zone_tree_def)
  have z: "0 < zone" "zone < length nodes" "node_instance (nodes ! zone) = None" using t(3)[OF zone] by (auto simp: zone_node_def)
  have fields: "node_name (nodes' ! k) = node_name (nodes ! k)" "node_type (nodes' ! k) = node_type (nodes ! k)"
      "node_instance (nodes' ! k) = node_instance (nodes ! k)"
      "node_children (nodes' ! k) = (if k = zone then node_children (nodes ! k) @ [length nodes] else node_children (nodes ! k))"
    if "k < length nodes" for k
    using that z by (cases "k = zone"; simp add: nodes' nth_append)+
  have other: "nodes' ! k = nodes ! k" if "k < length nodes" "k \<noteq> 0" "k \<noteq> zone" for k
    using that z by (simp add: nodes' nth_append)
  have leaf: "nodes' ! length nodes = leaf_node live t inst" using t(1) z by (simp add: nodes')
  have len: "length nodes' = Suc (length nodes)" by (simp add: nodes')
  show "node_children (nodes' ! zone) \<noteq> []" using z by (simp add: fields)
  show "node_children (nodes' ! z) = node_children (nodes ! z)" if "z < length nodes" "z \<noteq> zone" for z
    using that by (simp add: fields)
  have zones: "zone_node t live (insert inst seen) nodes' name z" if h: "bt_get zones name = Some z" for name z
  proof (rule zone_node_update[OF t(3)[OF h]])
    have z': "z < length nodes" "node_name (nodes ! z) = name" using t(3)[OF h] by (auto simp: zone_node_def)
    then show "node_name (nodes' ! z) = node_name (nodes ! z)" "node_type (nodes' ! z) = node_type (nodes ! z)"
      "node_instance (nodes' ! z) = node_instance (nodes ! z)" by (simp_all add: fields)
    have "z = zone \<Longrightarrow> crush_fault_zone inst = name" using t(3)[OF zone] z' by (auto simp: zone_node_def)
    then show "c \<in> set (node_children (nodes' ! z)) \<Longrightarrow> c \<in> set (node_children (nodes ! z)) \<or>
      (c < length nodes' \<and> (\<exists>inst \<in> insert inst seen. crush_fault_zone inst = name \<and> nodes' ! c = leaf_node live t inst))" for c
      using z' leaf len by (auto simp: fields split: if_splits)
  next
    show "nodes' ! k = nodes ! k" if "k < length nodes" "node_instance (nodes ! k) \<noteq> None" for k
      using that t(2) z other by metis
  qed (auto simp: len)
  show "zone_tree t live (insert inst seen) nodes' zones"
    using tree zones fields[OF t(1)] z len zone by (auto simp: zone_tree_def bt_contains_def)
qed

definition zones_filled :: "tree_nodes \<Rightarrow> (string, nat) btree \<Rightarrow> bool" where
  "zones_filled nodes zones \<longleftrightarrow> (\<forall>name z. bt_get zones name = Some z \<longrightarrow> node_children (nodes ! z) \<noteq> [])"

lemma zone_tree_step:
  assumes "zone_tree t live seen nodes zones" and "zones_filled nodes zones" and "fault_zone_type t \<noteq> end_node_type t"
    and "build_instance live t inst (nodes, zones) = (nodes', zones')"
  shows "zone_tree t live (insert inst seen) nodes' zones'" and "zones_filled nodes' zones'"
proof -
  obtain zone nodes1 zones1 where e: "ensure_zone t inst nodes zones = (zone, nodes1, zones1)" by (metis prod_cases3)
  note ensured = zone_tree_ensure[OF assms(1) e]
  have z1: "zones1 = zones'" and n1: "nodes' = push_child zone (length nodes1)
      (if bt_contains live (crush_instance inst) then add_weight 0 (add_weight zone (nodes1 @ [leaf_node live t inst]))
       else nodes1 @ [leaf_node live t inst])"
    using assms(3,4) by (auto simp: build_instance_def e add_leaf_eq Let_def)
  note attached = zone_tree_attach[OF _ _ n1, of seen zones1] ensured
  show "zone_tree t live (insert inst seen) nodes' zones'" using attached z1 by simp
  have "node_children (nodes' ! z) \<noteq> []" if h: "bt_get zones' name = Some z" for name z
  proof (cases "z = zone")
    case False
    moreover have "z < length nodes1" using ensured h z1 by (auto simp: zone_tree_def zone_node_def)
    moreover have "bt_get zones name = Some z" "node_children (nodes1 ! z) = node_children (nodes ! z)"
      using ensured h z1 False by blast+
    ultimately show ?thesis using attached assms(2) by (simp add: zones_filled_def)
  qed (use attached in auto)
  then show "zones_filled nodes' zones'" by (simp add: zones_filled_def)
qed

lemma build_tree_flat:
  assumes "fault_zone_type t = end_node_type t"
  shows "flat_tree t live instances (build_tree instances live t)"
proof -
  have "flat_tree t live (seen @ instances) (fst (fold (build_instance live t) instances (nodes, zones)))"
    if "flat_tree t live seen nodes" for seen nodes zones
    using that
  proof (induction instances arbitrary: seen nodes zones)
    case (Cons inst instances)
    obtain n z where b: "build_instance live t inst (nodes, zones) = (n, z)" by force
    then have "flat_tree t live (seen @ [inst]) n" using flat_tree_step[OF Cons.prems assms, of inst zones] by simp
    from Cons.IH[OF this, of z] show ?case by (simp add: b)
  qed simp
  from this[of "[]" "snd (add_node ''root'' ''ROOT'' None False [])" bt_empty] show ?thesis
    by (simp add: build_tree_def add_node_def flat_tree_def)
qed

lemma build_tree_zones:
  assumes "fault_zone_type t \<noteq> end_node_type t"
  shows "\<exists>zones. zone_tree t live (set instances) (build_tree instances live t) zones \<and> zones_filled (build_tree instances live t) zones"
proof -
  have "\<exists>nodes' zones'. fold (build_instance live t) instances (nodes, zones) = (nodes', zones') \<and>
      zone_tree t live (seen \<union> set instances) nodes' zones' \<and> zones_filled nodes' zones'"
    if "zone_tree t live seen nodes zones" "zones_filled nodes zones" for seen nodes zones
    using that
  proof (induction instances arbitrary: seen nodes zones)
    case (Cons inst instances)
    obtain n z where b: "build_instance live t inst (nodes, zones) = (n, z)" by force
    from Cons.IH[OF zone_tree_step[OF Cons.prems assms b]] show ?case by (simp add: b)
  qed simp
  from this[of "{}" "snd (add_node ''root'' ''ROOT'' None False [])" bt_empty] show ?thesis
    unfolding build_tree_def by (force simp: add_node_def zone_tree_def[of _ _ "{}"] zones_filled_def[of _ bt_empty])
qed

section \<open>Collecting replicas\<close>

text \<open>The retry loop keeps what one attempt keeps.\<close>

lemma replicas_loop_keeps:
  assumes "replicas_loop ops nodes t top_node input replica_count n tries st = Some out"
    and "P st" and "n \<le> replica_count - length (fst st)"
    and "\<And>input n st st'. P st \<Longrightarrow> n \<le> replica_count - length (fst st) \<Longrightarrow>
      add_replicas_for_attempt ops nodes t top_node input n st = Some st' \<Longrightarrow> P st'"
  shows "\<exists>st'. P st' \<and> out = fst st'"
  using assms(1-3)
proof (induction "MAX_RETRY - tries" arbitrary: input n tries st rule: less_induct)
  case less
  show ?case
  proof (cases "length (fst st) < replica_count")
    case True
    then obtain st' where a: "add_replicas_for_attempt ops nodes t top_node input n st = Some st'"
      using less.prems(1) by (subst (asm) replicas_loop.simps) (auto simp: bind_eq_Some_conv)
    have P: "P st'" using assms(4) less.prems(2,3) a by blast
    show ?thesis
    proof (cases "replica_count - length (fst st') > 0 \<and> \<not> tries + 1 \<ge> MAX_RETRY")
      case more: True
      then have "replicas_loop ops nodes t top_node (jenkins_hash_one input) replica_count
          (replica_count - length (fst st')) (tries + 1) st' = Some out"
        using less.prems(1) True by (subst (asm) replicas_loop.simps) (simp add: a Let_def)
      moreover have "MAX_RETRY - (tries + 1) < MAX_RETRY - tries" using more by linarith
      ultimately show ?thesis using less.hyps P by simp
    next
      case False
      then have "out = fst st'"
        using less.prems(1) True by (subst (asm) replicas_loop.simps) (auto simp: a Let_def split: if_splits)
      with P show ?thesis by blast
    qed
  next
    case False
    then have "out = fst st" using less.prems(1) by (subst (asm) replicas_loop.simps) simp
    then show ?thesis using less.prems(2) by blast
  qed
qed

text \<open>In a flat topology the selected nodes are distinct available leaves.\<close>

definition flat_selection :: "tree_nodes \<Rightarrow> nat \<Rightarrow> nat list \<times> nat bset \<Rightarrow> bool" where
  "flat_selection nodes replica_count st \<longleftrightarrow> length (fst st) \<le> replica_count \<and> distinct (fst st) \<and>
     (\<forall>c \<in> set (fst st). c \<in> set (node_children (nodes ! 0)) \<and> \<not> is_node_unavailable nodes c)"

lemma flat_attempt:
  assumes "fault_zone_type t = end_node_type t"
    and "\<forall>c \<in> set (node_children (nodes ! 0)). node_type (nodes ! c) = end_node_type t"
    and "flat_selection nodes replica_count st" and "n \<le> replica_count - length (fst st)"
    and "add_replicas_for_attempt ops nodes t 0 input n st = Some st'"
  shows "flat_selection nodes replica_count st'"
proof (cases st)
  case (Pair selected zones_used)
  with assms(1,5) obtain more where
    "select_nodes_of_type ops nodes 0 input n (end_node_type t) (bs_collect selected) = Some more" "st' = (selected @ more, zones_used)"
    by (auto simp: add_replicas_for_attempt_def bind_eq_Some_conv)
  with select_nodes_of_type_accepts[OF _ assms(2)] assms(3,4) Pair show ?thesis
    by (fastforce simp: flat_selection_def)
qed

text \<open>In a hierarchical topology every selected node is an available leaf of a zone of its own.\<close>

definition zone_selection :: "tree_nodes \<Rightarrow> nat \<Rightarrow> nat list \<times> nat bset \<Rightarrow> bool" where
  "zone_selection nodes replica_count st \<longleftrightarrow> length (fst st) \<le> replica_count \<and>
     (\<exists>zs. distinct zs \<and> (\<forall>z \<in> set zs. z \<in> set (node_children (nodes ! 0)) \<and> bt_contains (snd st) z) \<and>
        list_all2 (\<lambda>c z. c \<in> set (node_children (nodes ! z)) \<and> \<not> is_node_unavailable nodes c) (fst st) zs)"

lemma select_end_nodes_zones:
  assumes "select_end_nodes ops nodes t input zones selected = Some out" and "distinct zones"
    and "\<forall>z \<in> set zones. \<forall>c \<in> set (node_children (nodes ! z)). node_type (nodes ! c) = end_node_type t"
  shows "\<exists>more zs. out = selected @ more \<and> distinct zs \<and> set zs \<subseteq> set zones \<and> length zs \<le> length zones \<and>
    list_all2 (\<lambda>c z. c \<in> set (node_children (nodes ! z)) \<and> \<not> is_node_unavailable nodes c) more zs"
  using assms
proof (induction zones arbitrary: selected)
  case (Cons z zones)
  then obtain ends where ends: "select_nodes_of_type ops nodes z input 1 (end_node_type t) bt_empty = Some ends"
    and rest: "select_end_nodes ops nodes t input zones (selected @ ends) = Some out"
    by (auto simp: bind_eq_Some_conv)
  have child: "\<forall>c \<in> set (node_children (nodes ! z)). node_type (nodes ! c) = end_node_type t" using Cons.prems(3) by simp
  from Cons.IH[OF rest] Cons.prems(2,3) obtain more zs where
    m: "out = (selected @ ends) @ more" "distinct zs" "set zs \<subseteq> set zones" "length zs \<le> length zones"
      "list_all2 (\<lambda>c z. c \<in> set (node_children (nodes ! z)) \<and> \<not> is_node_unavailable nodes c) more zs"
    by auto
  show ?case
  proof (cases ends)
    case Nil
    then show ?thesis using m by (intro exI[of _ more] exI[of _ zs]) auto
  next
    case (Cons c cs)
    then have "ends = [c]" "c \<in> set (node_children (nodes ! z))" "\<not> is_node_unavailable nodes c"
      using select_nodes_of_type_accepts[OF ends child] by auto
    then show ?thesis using m Cons.prems(2) by (intro exI[of _ "c # more"] exI[of _ "z # zs"]) auto
  qed
qed simp

lemma zone_attempt:
  assumes "fault_zone_type t \<noteq> end_node_type t"
    and zones: "\<forall>z \<in> set (node_children (nodes ! 0)). node_type (nodes ! z) = fault_zone_type t \<and>
      (\<forall>c \<in> set (node_children (nodes ! z)). node_type (nodes ! c) = end_node_type t)"
    and sel: "zone_selection nodes replica_count st" and n: "n \<le> replica_count - length (fst st)"
    and "add_replicas_for_attempt ops nodes t 0 input n st = Some st'"
  shows "zone_selection nodes replica_count st'"
proof -
  obtain selected used where st: "st = (selected, used)" by force
  with assms(1,5) obtain new selected' where
    new: "select_nodes_of_type ops nodes 0 input n (fault_zone_type t) used = Some new" and
    ends: "select_end_nodes ops nodes t input new selected = Some selected'" and
    st': "st' = (selected', fold bs_insert new used)"
    by (auto simp: add_replicas_for_attempt_def bind_eq_Some_conv)
  note acc = select_nodes_of_type_accepts[OF new] zones
  have "\<exists>more zs. selected' = selected @ more \<and> distinct zs \<and> set zs \<subseteq> set new \<and> length zs \<le> length new \<and>
    list_all2 (\<lambda>c z. c \<in> set (node_children (nodes ! z)) \<and> \<not> is_node_unavailable nodes c) more zs"
    using select_end_nodes_zones[OF ends] acc by blast
  then obtain more zs where more: "selected' = selected @ more" "distinct zs" "set zs \<subseteq> set new" "length zs \<le> length new"
    "list_all2 (\<lambda>c z. c \<in> set (node_children (nodes ! z)) \<and> \<not> is_node_unavailable nodes c) more zs" by blast
  from sel obtain zs0 where zs0: "distinct zs0" "\<forall>z \<in> set zs0. z \<in> set (node_children (nodes ! 0)) \<and> bt_contains used z"
    "list_all2 (\<lambda>c z. c \<in> set (node_children (nodes ! z)) \<and> \<not> is_node_unavailable nodes c) selected zs0"
    "length selected \<le> replica_count"
    by (auto simp: zone_selection_def st)
  have fresh: "length new \<le> n" "\<forall>z \<in> set new. z \<in> set (node_children (nodes ! 0)) \<and> \<not> bt_contains used z"
    using acc by blast+
  have "distinct (zs0 @ zs)" using zs0(1,2) more(2,3) fresh(2) by auto
  moreover have "\<forall>z \<in> set (zs0 @ zs). z \<in> set (node_children (nodes ! 0)) \<and> bt_contains (fold bs_insert new used) z"
    using zs0(2) more(3) fresh(2) by (auto simp: fold_bs_insert)
  moreover have "list_all2 (\<lambda>c z. c \<in> set (node_children (nodes ! z)) \<and> \<not> is_node_unavailable nodes c) (selected @ more) (zs0 @ zs)"
    using zs0(3) more(5) by (rule list_all2_appendI)
  moreover have "length (selected @ more) \<le> replica_count"
    using zs0(4) more(4) list_all2_lengthD[OF more(5)] fresh(1) n st by simp
  ultimately show ?thesis unfolding zone_selection_def st' more(1) by (intro conjI exI[of _ "zs0 @ zs"]) auto
qed

section \<open>Placements\<close>

definition fault_zone_of :: "CrushInstance list \<Rightarrow> InstanceId \<Rightarrow> string option" where
  "fault_zone_of instances i = map_of (map (\<lambda>inst. (crush_instance inst, crush_fault_zone inst)) instances) i"

definition valid_placement ::
    "CrushInstance list \<Rightarrow> InstanceId bset \<Rightarrow> CrushTopology \<Rightarrow> nat \<Rightarrow> InstanceId list \<Rightarrow> bool" where
  "valid_placement instances live t replica_count placed \<longleftrightarrow>
     length placed \<le> replica_count \<and> distinct placed \<and> (\<forall>i \<in> set placed. bt_contains live i) \<and>
     (fault_zone_type t \<noteq> end_node_type t \<longrightarrow> distinct (map (fault_zone_of instances) placed))"

lemma fault_zone_of_mem:
  assumes "distinct (map crush_instance instances)" and "inst \<in> set instances"
  shows "fault_zone_of instances (crush_instance inst) = Some (crush_fault_zone inst)"
  unfolding fault_zone_of_def by (rule map_of_is_SomeI) (use assms in \<open>force simp: comp_def\<close>)+

lemma flat_placement:
  assumes flat: "fault_zone_type t = end_node_type t" and d: "distinct (map crush_instance instances)"
    and s: "select_replicas ops (build_tree instances live t) t 0 input replica_count = Some selected"
  shows "\<exists>placed. crush_preferences (build_tree instances live t) selected = Inr placed \<and>
    valid_placement instances live t replica_count placed"
proof -
  let ?nodes = "build_tree instances live t"
  note tree = build_tree_flat[OF flat, of live instances]
  note leaf = flat_tree_leaf[OF tree]
  then have types: "\<forall>c \<in> set (node_children (?nodes ! 0)). node_type (?nodes ! c) = end_node_type t" by fastforce
  have "\<exists>st. flat_selection ?nodes replica_count st \<and> selected = fst st"
    by (rule replicas_loop_keeps[OF s[unfolded select_replicas_def]])
      (auto simp: flat_selection_def[of _ _ "([], bt_empty)"] intro: flat_attempt[OF flat types])
  then have sel: "length selected \<le> replica_count" "distinct selected"
      "\<And>c. c \<in> set selected \<Longrightarrow> c \<in> set (node_children (?nodes ! 0)) \<and> \<not> is_node_unavailable ?nodes c"
    by (auto simp: flat_selection_def)
  let ?inst = "\<lambda>c. crush_instance (instances ! (c - 1))"
  have node: "node_instance (?nodes ! c) = Some (?inst c) \<and> bt_contains live (?inst c)" if "c \<in> set selected" for c
    using leaf[of c] sel(3)[OF that] leaf_available by (fastforce simp: is_node_unavailable_def)
  have "crush_preferences ?nodes selected = Inr (map ?inst selected)"
    using node by (simp add: crush_preferences_def map_result_Inr list_all2_conv_all_nth ok_or_def)
  moreover have "inj_on ?inst (set selected)"
  proof (rule inj_onI)
    fix a b assume ab: "a \<in> set selected" "b \<in> set selected" "?inst a = ?inst b"
    then obtain k l where "a = Suc k" "k < length instances" "b = Suc l" "l < length instances"
      using leaf sel(3) by meson
    with ab(3) d show "a = b" by (metis diff_Suc_1 length_map nth_eq_iff_index_eq nth_map)
  qed
  ultimately show ?thesis using sel(1,2) node flat by (simp add: valid_placement_def distinct_map)
qed

lemma zone_placement:
  assumes hier: "fault_zone_type t \<noteq> end_node_type t" and d: "distinct (map crush_instance instances)"
    and s: "select_replicas ops (build_tree instances live t) t 0 input replica_count = Some selected"
  shows "\<exists>placed. crush_preferences (build_tree instances live t) selected = Inr placed \<and>
    valid_placement instances live t replica_count placed"
proof -
  let ?nodes = "build_tree instances live t"
  obtain zones where tree: "zone_tree t live (set instances) ?nodes zones" using build_tree_zones[OF hier] by blast
  have zone: "zone_node t live (set instances) ?nodes (node_name (?nodes ! z)) z"
    if "z \<in> set (node_children (?nodes ! 0))" for z
    using that tree by (auto simp: zone_tree_def zone_node_def)
  have leaf: "\<exists>inst \<in> set instances. crush_fault_zone inst = node_name (?nodes ! z) \<and> ?nodes ! c = leaf_node live t inst"
    if "z \<in> set (node_children (?nodes ! 0))" "c \<in> set (node_children (?nodes ! z))" for z c
    using zone[OF that(1)] that(2) by (auto simp: zone_node_def)
  have types: "\<forall>z \<in> set (node_children (?nodes ! 0)). node_type (?nodes ! z) = fault_zone_type t \<and>
      (\<forall>c \<in> set (node_children (?nodes ! z)). node_type (?nodes ! c) = end_node_type t)"
    using zone leaf by (fastforce simp: zone_node_def)
  have "\<exists>st. zone_selection ?nodes replica_count st \<and> selected = fst st"
    by (rule replicas_loop_keeps[OF s[unfolded select_replicas_def]])
      (auto simp: zone_selection_def[of _ _ "([], bt_empty)"] intro: zone_attempt[OF hier types])
  then obtain zs where len: "length selected \<le> replica_count" and zs: "distinct zs" "set zs \<subseteq> set (node_children (?nodes ! 0))"
      "list_all2 (\<lambda>c z. c \<in> set (node_children (?nodes ! z)) \<and> \<not> is_node_unavailable ?nodes c) selected zs"
    by (auto simp: zone_selection_def)
  let ?inst = "\<lambda>c. the (node_instance (?nodes ! c))"
  have node: "node_instance (?nodes ! c) = Some (?inst c) \<and> bt_contains live (?inst c) \<and>
      fault_zone_of instances (?inst c) = Some (node_name (?nodes ! z))"
    if "(c, z) \<in> set (List.zip selected zs)" for c z
  proof -
    have c: "c \<in> set (node_children (?nodes ! z))" "\<not> is_node_unavailable ?nodes c"
      using that zs(3) by (auto simp: list_all2_iff)
    have "z \<in> set (node_children (?nodes ! 0))" using that zs(2) by (auto dest: set_zip_rightD)
    from leaf[OF this c(1)] obtain inst where "inst \<in> set instances" "crush_fault_zone inst = node_name (?nodes ! z)"
      "?nodes ! c = leaf_node live t inst" by blast
    then show ?thesis using c(2) fault_zone_of_mem[OF d] leaf_available by (auto simp: is_node_unavailable_def)
  qed
  have length: "length selected = length zs" using zs(3) by (rule list_all2_lengthD)
  have nth: "(selected ! k, zs ! k) \<in> set (List.zip selected zs)" if "k < length selected" for k
    using that length by (metis length_zip min.idem nth_mem nth_zip)
  have prefs: "crush_preferences ?nodes selected = Inr (map ?inst selected)"
    using node[OF nth] by (auto simp: crush_preferences_def map_result_Inr list_all2_conv_all_nth intro!: ok_or_the)
  have map: "map (fault_zone_of instances) (map ?inst selected) = map (\<lambda>z. Some (node_name (?nodes ! z))) zs"
    using node[OF nth] length by (auto intro!: nth_equalityI)
  have "inj_on (\<lambda>z. Some (node_name (?nodes ! z))) (set zs)"
  proof (rule inj_onI)
    fix a b assume "a \<in> set zs" "b \<in> set zs" "Some (node_name (?nodes ! a)) = Some (node_name (?nodes ! b))"
    then have "\<exists>m n. bt_get zones m = Some a \<and> bt_get zones n = Some b \<and> m = n"
      using zs(2) tree by (auto simp: zone_tree_def zone_node_def subset_iff) metis
    then show "a = b" by auto
  qed
  then have "distinct (map (fault_zone_of instances) (map ?inst selected))" unfolding map using zs(1) by (simp add: distinct_map)
  moreover have "\<forall>i \<in> set (map ?inst selected). bt_contains live i"
    using node[OF nth] by (auto simp: in_set_conv_nth)
  moreover from calculation(1) have "distinct (map ?inst selected)" using distinct_map by blast
  ultimately show ?thesis using prefs len by (auto simp: valid_placement_def)
qed

lemmas placement = flat_placement zone_placement

lemma crush_loop_placements:
  assumes "distinct (map crush_instance instances)"
    and "crush_loop ops (build_tree instances live t) t replica_count ps assignment = Some res"
  shows "\<exists>asg. res = Inr asg \<and> (\<forall>p. bt_contains asg p \<longleftrightarrow> bt_contains assignment p \<or> p \<in> set ps) \<and>
    (\<forall>p placed. bt_get asg p = Some placed \<longrightarrow>
       bt_get assignment p = Some placed \<or> valid_placement instances live t replica_count placed)"
  using assms(2)
proof (induction ps arbitrary: assignment)
  case (Cons p ps)
  then obtain selected where s: "select_replicas ops (build_tree instances live t) t 0
      (scast (java_string_hash (PartitionId_as_str p))) replica_count = Some selected"
    by (auto simp: bind_eq_Some_conv)
  obtain placed where placed: "crush_preferences (build_tree instances live t) selected = Inr placed"
      "valid_placement instances live t replica_count placed"
    using placement[OF _ assms(1) s] by blast
  have "crush_loop ops (build_tree instances live t) t replica_count ps (bt_insert p placed assignment) = Some res"
    using Cons.prems by (simp add: s placed)
  from Cons.IH[OF this] placed(2) show ?case by (auto simp: bt_contains_def split: if_splits)
qed auto

section \<open>Validation\<close>

lemma try_fold_new:
  assumes "\<And>x seen. f x seen = (if bt_contains seen (key x) then Inl (err x) else Inr (bs_insert (key x) seen))"
  shows "try_fold f xs seen = Inr seen' \<longleftrightarrow>
    distinct (map key xs) \<and> (\<forall>x \<in> set xs. \<not> bt_contains seen (key x)) \<and> seen' = fold bs_insert (map key xs) seen"
proof (induction xs arbitrary: seen)
  case (Cons x xs)
  then show ?case by (cases "bt_contains seen (key x)") (auto simp: assms image_iff)
qed auto

lemma try_fold_all:
  "try_fold (\<lambda>x _. if p x then Inr () else Inl (e x)) xs () = Inr () \<longleftrightarrow> (\<forall>x \<in> set xs. p x)"
  by (induction xs) auto

definition valid_topology :: "CrushTopology \<Rightarrow> bool" where
  "valid_topology t \<longleftrightarrow>
     (let path = filter (\<lambda>component. component \<noteq> []) (split_slash (topology_path t))
      in path = [fault_zone_type t, end_node_type t] \<or> (path = [end_node_type t] \<and> fault_zone_type t = end_node_type t))"

definition valid_crush_input ::
    "PartitionId list \<Rightarrow> CrushInstance list \<Rightarrow> InstanceId bset \<Rightarrow> CrushTopology \<Rightarrow> bool" where
  "valid_crush_input partitions instances live t \<longleftrightarrow>
     valid_topology t \<and> partitions \<noteq> [] \<and> distinct partitions \<and> instances \<noteq> [] \<and> distinct (map crush_instance instances) \<and>
     (\<forall>i. bt_contains live i \<longrightarrow> i \<in> crush_instance ` set instances)"

lemma topology_validate_Inr: "topology_validate t = Inr () \<longleftrightarrow> valid_topology t"
  by (auto simp: topology_validate_def valid_topology_def Let_def numeral_2_eq_2 length_Suc_conv)

lemma crush_validate_Inr: "crush_validate partitions instances live t = Inr () \<longleftrightarrow> valid_crush_input partitions instances live t"
proof -
  have parts: "try_fold (\<lambda>p seen. if bt_contains seen p then Inl (DuplicateCrushPartition p) else Inr (bs_insert p seen)) partitions bt_empty = Inr seen
      \<longleftrightarrow> distinct partitions \<and> seen = fold bs_insert partitions bt_empty" for seen
    by (subst try_fold_new[where key = "\<lambda>p. p"]) auto
  have insts: "try_fold (\<lambda>i seen. if bt_contains seen (crush_instance i) then Inl (DuplicateInstance (crush_instance i))
      else Inr (bs_insert (crush_instance i) seen)) instances bt_empty = Inr seen
      \<longleftrightarrow> distinct (map crush_instance instances) \<and> seen = fold bs_insert (map crush_instance instances) bt_empty" for seen
    by (subst try_fold_new[where key = crush_instance]) auto
  show ?thesis
    by (auto simp: crush_validate_def bind_result_Inr topology_validate_Inr valid_crush_input_def parts insts try_fold_all
        fold_bs_insert bt_keys_contains)
qed

section \<open>Searches that return\<close>

text \<open>
  The rejection branch of the search retries without counting a loopback, so it returns only
  if the draws do not avoid a child forever. \<open>draws_all\<close> says that from every round on each
  child with a positive weight is drawn again.
\<close>

definition draws_all :: "'f float_ops \<Rightarrow> tree_nodes \<Rightarrow> nat \<Rightarrow> u64 \<Rightarrow> bool" where
  "draws_all ops nodes n input \<longleftrightarrow>
     (\<forall>c \<in> set (node_children (nodes ! n)). node_weight (nodes ! c) \<noteq> 0 \<longrightarrow>
        (\<forall>r. \<exists>r' \<ge> r. choose_child ops nodes n input r' = Some c))"

definition fair_draws :: "'f float_ops \<Rightarrow> tree_nodes \<Rightarrow> bool" where
  "fair_draws ops nodes \<longleftrightarrow> (\<forall>n < length nodes. \<forall>input. draws_all ops nodes n input)"

text \<open>Children of the start node that the elimination test still waits for.\<close>

definition waiting :: "tree_nodes \<Rightarrow> nat \<Rightarrow> nat list \<Rightarrow> nat bset \<Rightarrow> nat set" where
  "waiting nodes parent selected rejected =
     {c \<in> set (node_children (nodes ! parent)). \<not> is_node_unavailable nodes c \<and> c \<notin> set selected \<and> \<not> bt_contains rejected c}"

lemma all_children_eliminated_iff: "all_children_eliminated nodes parent selected rejected \<longleftrightarrow> waiting nodes parent selected rejected = {}"
  by (auto simp: all_children_eliminated_def waiting_def list_all_iff)

lemma finite_waiting [simp]: "finite (waiting nodes parent selected rejected)"
  by (simp add: waiting_def)

lemma waiting_insert: "waiting nodes parent selected (bs_insert c rejected) = waiting nodes parent selected rejected - {c}"
  by (auto simp: waiting_def)

text \<open>One more draw of the search: either it returns, or it counts a loopback, or it rejects
  the drawn child and goes on to the next round.\<close>

lemma select_loop_draw:
  assumes kids: "node_children (nodes ! parent) \<noteq> []" "\<forall>c \<in> set (node_children (nodes ! parent)). node_type (nodes ! c) = ty"
    and loopback: "loopback = MAX_LOOPBACK_COUNT \<or>
      (\<exists>res. select_loop ops nodes parent input r ty excluded selected parent bt_empty (failure + 1) (loopback + 1) = Some res)"
    and reject: "\<And>c. choose_child ops nodes parent input (r + failure) = Some c \<Longrightarrow> c \<in> set selected \<or> bt_contains excluded c \<Longrightarrow>
      waiting nodes parent selected (bs_insert c rejected) \<noteq> {} \<Longrightarrow>
      \<exists>res. select_loop ops nodes parent input r ty excluded selected parent (bs_insert c rejected) (failure + 1) loopback = Some res"
  shows "\<exists>res. select_loop ops nodes parent input r ty excluded selected parent rejected failure loopback = Some res"
proof -
  obtain c where c: "choose_child ops nodes parent input (r + failure) = Some c" "node_type (nodes ! c) = ty"
    using choose_child_mem[OF kids(1), of ops input "r + failure"] kids(2) by blast
  show ?thesis
    using loopback reject[OF c(1)] c(2)
    by (subst select_loop.simps) (auto simp: c all_children_eliminated_iff)
qed

lemma select_loop_waits:
  assumes kids: "node_children (nodes ! parent) \<noteq> []" "\<forall>c \<in> set (node_children (nodes ! parent)). node_type (nodes ! c) = ty"
    and fair: "draws_all ops nodes parent input"
    and loopback: "\<And>failure. loopback = MAX_LOOPBACK_COUNT \<or>
      (\<exists>res. select_loop ops nodes parent input r ty excluded selected parent bt_empty failure (loopback + 1) = Some res)"
  shows "\<exists>res. select_loop ops nodes parent input r ty excluded selected parent rejected failure loopback = Some res"
proof (induction "card (waiting nodes parent selected rejected)" arbitrary: rejected failure rule: less_induct)
  case less
  show ?case
  proof (cases "waiting nodes parent selected rejected = {}")
    case True
    show ?thesis by (rule select_loop_draw[OF kids loopback]) (simp add: waiting_insert True)
  next
    case False
    then obtain b where b: "b \<in> waiting nodes parent selected rejected" by blast
    then obtain r' where r': "r' \<ge> r + failure" "choose_child ops nodes parent input r' = Some b"
      using fair by (force simp: draws_all_def waiting_def is_node_unavailable_def)
    have "\<exists>res. select_loop ops nodes parent input r ty excluded selected parent rejected1 failure1 loopback = Some res"
      if "waiting nodes parent selected rejected1 = waiting nodes parent selected rejected" "r' = r + failure1 + d"
      for d rejected1 failure1
      using that
    proof (induction d arbitrary: rejected1 failure1)
      case 0
      show ?case
      proof (rule select_loop_draw[OF kids loopback])
        fix c assume "choose_child ops nodes parent input (r + failure1) = Some c"
        then have "c = b" using 0 r'(2) by simp
        then have "card (waiting nodes parent selected (bs_insert c rejected1)) < card (waiting nodes parent selected rejected)"
          using b by (simp add: waiting_insert 0(1) card_Diff1_less del: card_Diff_insert card_Diff_singleton)
        then show "\<exists>res. select_loop ops nodes parent input r ty excluded selected parent (bs_insert c rejected1) (failure1 + 1) loopback = Some res"
          by (rule less)
      qed
    next
      case (Suc d)
      show ?case
      proof (rule select_loop_draw[OF kids loopback])
        fix c
        consider "c \<in> waiting nodes parent selected rejected" | "c \<notin> waiting nodes parent selected rejected" by blast
        then show "\<exists>res. select_loop ops nodes parent input r ty excluded selected parent (bs_insert c rejected1) (failure1 + 1) loopback = Some res"
        proof cases
          case 1
          then show ?thesis
            by (intro less) (simp add: waiting_insert Suc.prems(1) card_Diff1_less del: card_Diff_insert card_Diff_singleton)
        next
          case 2
          then show ?thesis using Suc.prems by (intro Suc.IH) (auto simp: waiting_insert)
        qed
      qed
    qed
    then show ?thesis using r'(1) by (metis le_Suc_ex)
  qed
qed

lemma select_loop_returns:
  assumes kids: "node_children (nodes ! parent) \<noteq> []" "\<forall>c \<in> set (node_children (nodes ! parent)). node_type (nodes ! c) = ty"
    and fair: "draws_all ops nodes parent input" and "loopback \<le> MAX_LOOPBACK_COUNT"
  shows "\<exists>res. select_loop ops nodes parent input r ty excluded selected parent rejected failure loopback = Some res"
  using assms(4)
proof (induction "MAX_LOOPBACK_COUNT - loopback" arbitrary: loopback rejected failure)
  case 0
  then show ?case using select_loop_waits[OF kids fair] by simp
next
  case (Suc n)
  then show ?case using select_loop_waits[OF kids fair] by simp
qed

lemma select_rounds_returns:
  assumes kids: "node_children (nodes ! parent) \<noteq> []" "\<forall>c \<in> set (node_children (nodes ! parent)). node_type (nodes ! c) = ty"
    and fair: "draws_all ops nodes parent input"
  shows "\<exists>out. select_rounds ops nodes parent input ty excluded rs selected = Some out"
proof (induction rs arbitrary: selected)
  case (Cons r rs)
  obtain escape c where "select_loop ops nodes parent input r ty excluded selected parent bt_empty 0 0 = Some (escape, c)"
    using select_loop_returns[OF kids fair, of 0 r excluded selected bt_empty 0] by auto
  then show ?case using Cons by simp
qed simp

lemma select_end_nodes_returns:
  assumes "\<forall>z \<in> set zones. z < length nodes \<and> node_children (nodes ! z) \<noteq> [] \<and> (\<forall>c \<in> set (node_children (nodes ! z)). node_type (nodes ! c) = end_node_type t)"
    and fair: "fair_draws ops nodes"
  shows "\<exists>out. select_end_nodes ops nodes t input zones selected = Some out"
  using assms(1)
proof (induction zones arbitrary: selected)
  case (Cons z zones)
  obtain ends where "select_nodes_of_type ops nodes z input 1 (end_node_type t) bt_empty = Some ends"
    using select_rounds_returns[of nodes z "end_node_type t" ops input bt_empty "[1..<1 + 1]" "[]"] Cons.prems fair
    unfolding fair_draws_def select_nodes_of_type_def by auto
  then show ?case using Cons by simp
qed simp

lemma replicas_loop_returns:
  assumes "\<And>input n st. \<exists>st'. add_replicas_for_attempt ops nodes t top_node input n st = Some st'"
  shows "\<exists>out. replicas_loop ops nodes t top_node input replica_count n tries st = Some out"
proof (induction "MAX_RETRY - tries" arbitrary: input n tries st rule: less_induct)
  case less
  obtain st' where a: "add_replicas_for_attempt ops nodes t top_node input n st = Some st'" using assms by blast
  show ?case
  proof (cases "tries + 1 \<ge> MAX_RETRY")
    case True
    then show ?thesis by (subst replicas_loop.simps) (simp add: a Let_def)
  next
    case False
    then have "MAX_RETRY - (tries + 1) < MAX_RETRY - tries" by linarith
    then show ?thesis using less False by (subst replicas_loop.simps) (simp add: a Let_def)
  qed
qed

lemma attempt_returns:
  assumes "instances \<noteq> []" and fair: "fair_draws ops (build_tree instances live t)"
  shows "\<exists>st'. add_replicas_for_attempt ops (build_tree instances live t) t 0 input n st = Some st'"
proof -
  let ?nodes = "build_tree instances live t"
  obtain selected used where st: "st = (selected, used)" by force
  have draws: "0 < length ?nodes \<Longrightarrow> draws_all ops ?nodes 0 input" using fair by (auto simp: fair_draws_def)
  show ?thesis
  proof (cases "fault_zone_type t = end_node_type t")
    case True
    note tree = build_tree_flat[OF True, of live instances]
    have "node_children (?nodes ! 0) \<noteq> []" using assms(1) tree by (simp add: flat_tree_def del: upt_Suc)
    moreover have "node_type (?nodes ! c) = end_node_type t" if "c \<in> set (node_children (?nodes ! 0))" for c
      using flat_tree_leaf[OF tree that] by auto
    moreover have "0 < length ?nodes" using tree by (simp add: flat_tree_def)
    ultimately obtain more where "select_nodes_of_type ops ?nodes 0 input n (end_node_type t) (bs_collect selected) = Some more"
      using select_rounds_returns[OF _ _ draws] unfolding select_nodes_of_type_def by blast
    then show ?thesis using True by (simp add: add_replicas_for_attempt_def st)
  next
    case False
    then obtain zones where tree: "zone_tree t live (set instances) ?nodes zones" "zones_filled ?nodes zones"
      using build_tree_zones[OF False] by blast
    then have root: "0 < length ?nodes" by (simp add: zone_tree_def)
    have zone: "z < length ?nodes \<and> node_type (?nodes ! z) = fault_zone_type t \<and> node_children (?nodes ! z) \<noteq> [] \<and>
        (\<forall>c \<in> set (node_children (?nodes ! z)). node_type (?nodes ! c) = end_node_type t)"
      if "z \<in> set (node_children (?nodes ! 0))" for z
      using that tree by (fastforce simp: zone_tree_def zone_node_def zones_filled_def)
    have "node_children (?nodes ! 0) \<noteq> []"
      using assms(1) tree(1) by (cases instances) (auto simp: zone_tree_def bt_contains_def simp flip: set_empty)
    then obtain new where new: "select_nodes_of_type ops ?nodes 0 input n (fault_zone_type t) used = Some new"
      using select_rounds_returns[OF _ _ draws[OF root]] zone unfolding select_nodes_of_type_def by blast
    have "\<forall>z \<in> set new. z \<in> set (node_children (?nodes ! 0))"
      using select_nodes_of_type_accepts(3)[OF new] zone by blast
    then obtain out where "select_end_nodes ops ?nodes t input new selected = Some out"
      using select_end_nodes_returns[OF _ fair] zone by blast
    then show ?thesis using False new by (simp add: add_replicas_for_attempt_def st)
  qed
qed

lemma crush_loop_returns:
  assumes "distinct (map crush_instance instances)" and "instances \<noteq> []" and "fair_draws ops (build_tree instances live t)"
  shows "\<exists>asg. crush_loop ops (build_tree instances live t) t replica_count ps assignment = Some (Inr asg)"
proof (induction ps arbitrary: assignment)
  case (Cons p ps)
  obtain selected where s: "select_replicas ops (build_tree instances live t) t 0
      (scast (java_string_hash (PartitionId_as_str p))) replica_count = Some selected"
    using replicas_loop_returns[OF attempt_returns[OF assms(2,3)]] unfolding select_replicas_def by blast
  obtain placed where "crush_preferences (build_tree instances live t) selected = Inr placed"
    using placement[OF _ assms(1) s] by blast
  with Cons s show ?case by simp
qed simp

lemma crush_returns:
  assumes "valid_crush_input partitions instances live t" and "fair_draws ops (build_tree instances live t)"
  shows "\<exists>asg. compute_crush_assignment ops resource partitions replica_count instances live t = Some (Inr asg)"
  using crush_loop_returns[OF _ _ assms(2)] assms(1) crush_validate_Inr[of partitions instances live t]
  by (auto simp: compute_crush_assignment_def valid_crush_input_def)

section \<open>A concrete topology\<close>

text \<open>One live instance in one zone.\<close>

definition demo_topology :: CrushTopology where
  "demo_topology = \<lparr>topology_path = ''/zone/instance'', fault_zone_type = ''zone'', end_node_type = ''instance''\<rparr>"

definition demo_instance :: CrushInstance where
  "demo_instance = \<lparr>crush_instance = InstanceId ''a'', crush_fault_zone = ''z1''\<rparr>"

abbreviation demo_live :: "InstanceId bset" where
  "demo_live \<equiv> bs_collect [InstanceId ''a'']"

definition demo_ops :: "int float_ops" where
  "demo_ops = \<lparr>f_of_nat = int, f_add = (+), f_sub = (-), f_mul = (*), f_div = (div), f_eq = (=),
     f_root = (\<lambda>p n. 1), f_to_u64 = of_int\<rparr>"

lemma demo_crush_valid: "valid_crush_input [PartitionId ''p''] [demo_instance] demo_live demo_topology"
  by (simp add: valid_crush_input_def valid_topology_def demo_topology_def demo_instance_def)

lemma single_child_draws:
  assumes "length (node_children (nodes ! n)) \<le> 1"
  shows "draws_all ops nodes n input"
proof -
  have "choose_child ops nodes n input r = Some c" if "c \<in> set (node_children (nodes ! n))" for c r
    using choose_child_mem[of nodes n ops input r] that assms by (cases "node_children (nodes ! n)") auto
  then show ?thesis by (auto simp: draws_all_def)
qed

lemma demo_fair: "fair_draws ops (build_tree [demo_instance] demo_live demo_topology)"
proof -
  let ?nodes = "build_tree [demo_instance] demo_live demo_topology"
  have "\<forall>nd \<in> set ?nodes. length (node_children nd) \<le> 1"
    by (simp add: build_tree_def build_instance_def ensure_zone_def add_leaf_def add_node_def Let_def push_child_def
        add_weight_def set_default_weight_def demo_topology_def demo_instance_def)
  then show ?thesis by (simp add: fair_draws_def single_child_draws)
qed

section \<open>Properties\<close>

text \<open>C35: Every placement CRUSH returns is safe, whatever the floating-point results were: each
  requested partition gets a list of at most \<open>replica_count\<close> distinct instances, all of them
  live, and in a hierarchical topology no two of them share a fault zone.\<close>

theorem crush_placement_safe:
  assumes "compute_crush_assignment ops resource partitions replica_count instances live t = Some (Inr asg)"
  shows "(\<forall>p. bt_contains asg p \<longleftrightarrow> p \<in> set partitions) \<and>
    (\<forall>p placed. bt_get asg p = Some placed \<longrightarrow> valid_placement instances live t replica_count placed)"
proof -
  have v: "crush_validate partitions instances live t = Inr ()"
    and l: "crush_loop ops (build_tree instances live t) t replica_count partitions bt_empty = Some (Inr asg)"
    using assms by (auto simp: compute_crush_assignment_def split: sum.splits)
  have "distinct (map crush_instance instances)" using v by (simp add: crush_validate_Inr valid_crush_input_def)
  from crush_loop_placements[OF this l] show ?thesis by auto
qed

theorem crush_placement_safe_witness:
  "\<exists>asg placed. compute_crush_assignment demo_ops (ResourceId ''r'') [PartitionId ''p''] 3 [demo_instance] demo_live demo_topology = Some (Inr asg) \<and>
     bt_get asg (PartitionId ''p'') = Some placed \<and> valid_placement [demo_instance] demo_live demo_topology 3 placed"
proof -
  obtain asg where asg: "compute_crush_assignment demo_ops (ResourceId ''r'') [PartitionId ''p''] 3 [demo_instance] demo_live demo_topology = Some (Inr asg)"
    using crush_returns[OF demo_crush_valid demo_fair] by blast
  have "bt_contains asg (PartitionId ''p'')" using crush_placement_safe[OF asg] by simp
  then obtain placed where "bt_get asg (PartitionId ''p'') = Some placed" by (auto simp: bt_contains_def)
  with crush_placement_safe[OF asg] asg show ?thesis by blast
qed

text \<open>CRUSH fails exactly with the errors of its validation, which accepts exactly a flat or
  two-level topology with distinct partitions, distinct instances, at least one of each, and
  live instances that are all in the topology. Selecting a node that is not an instance never
  happens.\<close>

lemma crush_errors:
  "(compute_crush_assignment ops resource partitions replica_count instances live t = Some (Inl e) \<longleftrightarrow>
     crush_validate partitions instances live t = Inl e) \<and>
   (crush_validate partitions instances live t = Inr () \<longleftrightarrow> valid_crush_input partitions instances live t) \<and>
   crush_validate partitions instances live t \<noteq> Inl SelectedNonInstance"
proof -
  have "e \<noteq> SelectedNonInstance" if h: "crush_validate partitions instances live t = Inl e" for e
    using h by (auto simp: crush_validate_def bind_result_Inl topology_validate_def Let_def
        split: if_splits dest!: try_fold_Inl)
  moreover have "crush_loop ops (build_tree instances live t) t replica_count partitions bt_empty \<noteq> Some (Inl e)"
    if "crush_validate partitions instances live t = Inr ()"
    using that crush_loop_placements[of instances ops live t replica_count partitions bt_empty "Inl e"]
    by (auto simp: crush_validate_Inr valid_crush_input_def)
  ultimately show ?thesis
    by (cases "crush_validate partitions instances live t")
      (auto simp: compute_crush_assignment_def simp flip: crush_validate_Inr)
qed

text \<open>C36: CRUSH returns a placement for every well-formed input and every replica count when the
  draws are fair: no search and no retry loop runs forever.\<close>

theorem crush_terminates:
  assumes "valid_crush_input partitions instances live t" and "fair_draws ops (build_tree instances live t)"
  shows "\<exists>asg. compute_crush_assignment ops resource partitions replica_count instances live t = Some (Inr asg)"
  using assms by (rule crush_returns)

theorem crush_terminates_witness:
  "\<exists>asg. compute_crush_assignment demo_ops (ResourceId ''r'') [PartitionId ''p''] 2 [demo_instance] demo_live demo_topology = Some (Inr asg)"
  by (rule crush_terminates[OF demo_crush_valid demo_fair])

end
