(* ===== verification/Controller_Plans.thy ===== *)
theory Controller_Plans
  imports Session Semi_Auto Message_Throttle_Laws Completion Crush_Laws
begin

text \<open>
  What the controller runtime (\<^verbatim>\<open>src/controller/runtime.rs\<close>) reads from a coordination
  snapshot: instance configurations, resource plans, throttle configurations and the
  published queue. JSON decoding is \<open>serde_json\<close>, so the four decoders are a parameter;
  everything after the decoding is modelled. Errors keep their cause as a value instead of
  its rendered text. A value \<open>None\<close> is a CRUSH search that does not return or a failed
  \<open>expect\<close>.
\<close>

section \<open>Snapshots\<close>

abbreviation participants_live :: "CoordinationSnapshot \<Rightarrow> (InstanceId, LiveInstance) btree" where
  "participants_live snap \<equiv> snapshot_live_instances (snapshot_participants snap)"

definition metadata_value :: "CoordinationSnapshot \<Rightarrow> string \<Rightarrow> string option" where
  "metadata_value snap key = Option.bind (bt_get (snapshot_metadata snap) key) entry_value"

definition INSTANCE_CONFIGS_KEY :: string where
  "INSTANCE_CONFIGS_KEY = ''controller/instance-configs''"

definition THROTTLES_KEY :: string where
  "THROTTLES_KEY = ''controller/throttles''"

definition RESOURCE_PREFIX :: string where
  "RESOURCE_PREFIX = ''controller/resources/''"

definition EXTERNAL_OUTPUT_KEY :: string where
  "EXTERNAL_OUTPUT_KEY = ''controller/output/external-view''"

definition PENDING_OUTPUT_KEY :: string where
  "PENDING_OUTPUT_KEY = ''controller/output/pending-transitions''"

definition PROCESSED_OUTPUT_KEY :: string where
  "PROCESSED_OUTPUT_KEY = ''controller/output/processed-revision''"

section \<open>Decoded records\<close>

record InstanceConfigRecord =
  config_name :: string
  config_zone :: string

record CrushTopologyRecord =
  record_path :: string
  record_fault_zone_type :: string
  record_end_node_type :: string

record PlacementRecord =
  placement_kind :: string
  placement_replicas :: nat
  placement_preference_lists :: "(string, string list) btree"
  placement_partitions :: "string list"
  placement_topology :: "CrushTopologyRecord option"

record ResourceRecord =
  record_name :: string
  record_state_model :: string
  record_placement :: PlacementRecord

record ThrottleRecord =
  throttle_scope :: string
  throttle_resource_name :: "string option"
  throttle_instance_name :: "string option"
  throttle_rebalance_type :: string
  max_in_flight :: nat

record PublishedTransition =
  pub_resource :: string
  pub_partition :: string
  pub_instance :: string
  pub_target_session :: u64
  pub_from :: string
  pub_to :: string
  pub_message_type :: string
  pub_message_id :: string

record decoders =
  decode_instance_configs :: "string \<Rightarrow> string + InstanceConfigRecord list"
  decode_resource :: "string \<Rightarrow> string + ResourceRecord"
  decode_throttles :: "string \<Rightarrow> string + ThrottleRecord list"
  decode_pending :: "string \<Rightarrow> string + PublishedTransition list"

record ResourcePlan =
  plan_resource :: ResourceId
  plan_ideal :: IdealState

datatype ControllerRuntimeError =
    DecodeFailed string
  | BadIdentifier IdentifierError
  | ResourceNameMismatch string string
  | UnsupportedStateModel string
  | UnsupportedPlacementKind string
  | CrushFailed CrushError
  | PlacementInvalid IdealStateError
  | UnknownThrottleScope string
  | UnknownRebalanceType string
  | ZeroThrottleLimit
  | ClusterThrottleTargeted
  | ResourceThrottleTargetsInstance
  | InstanceThrottleTargetsResource
  | MissingMessageIdentity
  | RebalanceFailed SemiAutoError
  | GenerationFailed TransitionGenerationError
  | SelectionFailed MessageSelectionError
  | ThrottleFailed IntermediateThrottleError

section \<open>Results of code that may not return\<close>

definition bind_run :: "('e + 'a) option \<Rightarrow> ('a \<Rightarrow> ('e + 'b) option) \<Rightarrow> ('e + 'b) option" where
  "bind_run r f = (case r of None \<Rightarrow> None | Some (Inl e) \<Rightarrow> Some (Inl e) | Some (Inr x) \<Rightarrow> f x)"

fun map_run :: "('a \<Rightarrow> ('e + 'b) option) \<Rightarrow> 'a list \<Rightarrow> ('e + 'b list) option" where
  "map_run f [] = Some (Inr [])"
| "map_run f (x # xs) = bind_run (f x) (\<lambda>y. bind_run (map_run f xs) (\<lambda>ys. Some (Inr (y # ys))))"

lemma bind_run_Inr: "bind_run r f = Some (Inr y) \<longleftrightarrow> (\<exists>x. r = Some (Inr x) \<and> f x = Some (Inr y))"
  by (auto simp: bind_run_def split: option.splits sum.splits)

lemma bind_run_simps [simp]:
  "bind_run None f = None" "bind_run (Some (Inl e)) f = Some (Inl e)" "bind_run (Some (Inr x)) f = f x"
  by (simp_all add: bind_run_def)

lemma map_run_Inr: "map_run f xs = Some (Inr ys) \<longleftrightarrow> list_all2 (\<lambda>x y. f x = Some (Inr y)) xs ys"
  by (induction xs arbitrary: ys) (auto simp: bind_run_Inr list_all2_Cons1)

section \<open>Reading the snapshot\<close>

definition instance_configs ::
    "decoders \<Rightarrow> CoordinationSnapshot \<Rightarrow> ControllerRuntimeError + (InstanceId, string) btree" where
  "instance_configs dec snap =
     (case metadata_value snap INSTANCE_CONFIGS_KEY of
        None \<Rightarrow> Inr bt_empty
      | Some v \<Rightarrow>
          bind_result (map_err DecodeFailed (decode_instance_configs dec v)) (\<lambda>records.
          bind_result (map_result (\<lambda>r. bind_result (map_err BadIdentifier (InstanceId_new (config_name r)))
                         (\<lambda>i. Inr (i, config_zone r))) records) (\<lambda>configs.
          Inr (bt_collect configs))))"

definition crush_lists ::
    "'f float_ops \<Rightarrow> (InstanceId, string) btree \<Rightarrow> InstanceId bset \<Rightarrow> ResourceId \<Rightarrow> PlacementRecord \<Rightarrow>
     (ControllerRuntimeError + (PartitionId, InstanceId list) btree) option" where
  "crush_lists ops configs live resource placement =
     bind_run (Some (map_result (\<lambda>v. map_err BadIdentifier (PartitionId_new v)) (placement_partitions placement))) (\<lambda>partitions.
     bind_run (Some (map_result (\<lambda>(i, zone). map_err CrushFailed (CrushInstance_new i zone)) (entries configs))) (\<lambda>instances.
     bind_run (Some (map_err CrushFailed (case placement_topology placement of
         Some t \<Rightarrow> CrushTopology_new (record_path t) (record_fault_zone_type t) (record_end_node_type t)
       | None \<Rightarrow> CrushTopology_new ''/instance'' ''instance'' ''instance''))) (\<lambda>topology.
     map_option (map_err CrushFailed)
       (compute_crush_assignment ops resource partitions (min (placement_replicas placement) (bt_len live))
          instances live topology))))"

definition semi_auto_lists :: "PlacementRecord \<Rightarrow> ControllerRuntimeError + (PartitionId, InstanceId list) btree" where
  "semi_auto_lists placement =
     bind_result (map_result (\<lambda>(p, instances).
         bind_result (map_err BadIdentifier (PartitionId_new p)) (\<lambda>p.
         bind_result (map_result (\<lambda>i. map_err BadIdentifier (InstanceId_new i)) instances) (\<lambda>instances.
         Inr (p, instances)))) (entries (placement_preference_lists placement)))
       (\<lambda>pls. Inr (bt_collect pls))"

definition effective_replicas :: "PlacementRecord \<Rightarrow> (PartitionId, InstanceId list) btree \<Rightarrow> nat" where
  "effective_replicas placement pls =
     (if placement_kind placement = ''CRUSH''
      then (case map length (bt_values pls) of [] \<Rightarrow> 0 | n # ns \<Rightarrow> fold min ns n)
      else placement_replicas placement)"

definition build_ideal :: "ResourceId \<Rightarrow> nat \<Rightarrow> (PartitionId, InstanceId list) btree \<Rightarrow> ControllerRuntimeError + IdealState" where
  "build_ideal resource n pls =
     map_err PlacementInvalid
       (bind_result (try_fold (\<lambda>(p, instances). set_preference_list p instances) (entries pls) (IdealState_builder resource n))
          IdealState_build)"

definition resource_plan ::
    "decoders \<Rightarrow> 'f float_ops \<Rightarrow> (InstanceId, string) btree \<Rightarrow> InstanceId bset \<Rightarrow> string \<Rightarrow> MetadataEntry \<Rightarrow>
     (ControllerRuntimeError + ResourcePlan) option" where
  "resource_plan dec ops configs live name entry =
     bind_run (Some (map_err DecodeFailed (decode_resource dec (case entry_value entry of None \<Rightarrow> [] | Some v \<Rightarrow> v)))) (\<lambda>record.
     if record_name record \<noteq> name then Some (Inl (ResourceNameMismatch name (record_name record)))
     else if record_state_model record \<noteq> ''LeaderStandby'' then Some (Inl (UnsupportedStateModel (record_state_model record)))
     else
       bind_run (Some (map_err BadIdentifier (ResourceId_new (record_name record)))) (\<lambda>resource.
       bind_run
         (if placement_kind (record_placement record) = ''CRUSH'' then crush_lists ops configs live resource (record_placement record)
          else if placement_kind (record_placement record) = ''SEMI_AUTO'' then Some (semi_auto_lists (record_placement record))
          else Some (Inl (UnsupportedPlacementKind (placement_kind (record_placement record))))) (\<lambda>pls.
       bind_run (Some (build_ideal resource (effective_replicas (record_placement record) pls) pls)) (\<lambda>ideal.
       Some (Inr \<lparr>plan_resource = resource, plan_ideal = ideal\<rparr>)))))"

definition resource_entries :: "CoordinationSnapshot \<Rightarrow> (string \<times> MetadataEntry) list" where
  "resource_entries snap =
     List.map_filter (\<lambda>(key, entry). map_option (\<lambda>name. (name, entry)) (strip_prefix RESOURCE_PREFIX key))
       (entries (snapshot_metadata snap))"

definition resource_plans ::
    "decoders \<Rightarrow> 'f float_ops \<Rightarrow> CoordinationSnapshot \<Rightarrow> (InstanceId, string) btree \<Rightarrow> InstanceId bset \<Rightarrow>
     (ControllerRuntimeError + ResourcePlan list) option" where
  "resource_plans dec ops snap configs live =
     map_run (\<lambda>(name, entry). resource_plan dec ops configs live name entry) (resource_entries snap)"

section \<open>Throttle configurations\<close>

definition throttle_scope_of :: "string \<Rightarrow> ControllerRuntimeError + ThrottleScope" where
  "throttle_scope_of s =
     (if s = ''CLUSTER'' then Inr ClusterScope
      else if s = ''RESOURCE'' then Inr ResourceScope
      else if s = ''INSTANCE'' then Inr InstanceScope
      else Inl (UnknownThrottleScope s))"

definition rebalance_type_of :: "string \<Rightarrow> ControllerRuntimeError + RebalanceType" where
  "rebalance_type_of s =
     (if s = ''ANY'' then Inr AnyBalance
      else if s = ''RECOVERY_BALANCE'' then Inr RecoveryBalance
      else if s = ''LOAD_BALANCE'' then Inr LoadBalance
      else Inl (UnknownRebalanceType s))"

definition throttle_config :: "ThrottleRecord \<Rightarrow> ControllerRuntimeError + StateTransitionThrottleConfig" where
  "throttle_config r =
     bind_result (throttle_scope_of (throttle_scope r)) (\<lambda>scope.
     bind_result (rebalance_type_of (throttle_rebalance_type r)) (\<lambda>t.
     if max_in_flight r = 0 then Inl ZeroThrottleLimit
     else case scope of
       ClusterScope \<Rightarrow>
         if throttle_resource_name r \<noteq> None \<or> throttle_instance_name r \<noteq> None then Inl ClusterThrottleTargeted
         else Inr (ThrottleConfig_new t scope (max_in_flight r))
     | ResourceScope \<Rightarrow>
         if throttle_instance_name r \<noteq> None then Inl ResourceThrottleTargetsInstance
         else (case throttle_resource_name r of
             Some resource \<Rightarrow> bind_result (map_err BadIdentifier (ResourceId_new resource))
               (\<lambda>resource. Inr (ThrottleConfig_for_resource t resource (max_in_flight r)))
           | None \<Rightarrow> Inr (ThrottleConfig_new t scope (max_in_flight r)))
     | InstanceScope \<Rightarrow>
         if throttle_resource_name r \<noteq> None then Inl InstanceThrottleTargetsResource
         else (case throttle_instance_name r of
             Some i \<Rightarrow> bind_result (map_err BadIdentifier (InstanceId_new i))
               (\<lambda>i. Inr (ThrottleConfig_for_instance t i (max_in_flight r)))
           | None \<Rightarrow> Inr (ThrottleConfig_new t scope (max_in_flight r)))))"

definition throttles :: "decoders \<Rightarrow> CoordinationSnapshot \<Rightarrow> ControllerRuntimeError + StateTransitionThrottleConfig list" where
  "throttles dec snap =
     (case metadata_value snap THROTTLES_KEY of
        None \<Rightarrow> Inr []
      | Some v \<Rightarrow> bind_result (map_err DecodeFailed (decode_throttles dec v)) (map_result throttle_config))"

section \<open>The published queue\<close>

definition read_pending :: "decoders \<Rightarrow> CoordinationSnapshot \<Rightarrow> ControllerRuntimeError + PublishedTransition list" where
  "read_pending dec snap =
     (case metadata_value snap PENDING_OUTPUT_KEY of
        None \<Rightarrow> Inr []
      | Some v \<Rightarrow> bind_result (map_err DecodeFailed (decode_pending dec v)) (\<lambda>pending.
          if list_ex (\<lambda>t. pub_message_id t = []) pending then Inl MissingMessageIdentity else Inr pending))"

end
