(* ===== verification/Controller_Runtime.thy ===== *)
theory Controller_Runtime
  imports Controller_Plans
begin

text \<open>
  One planning cycle of the controller (\<^verbatim>\<open>src/controller/runtime.rs\<close>): the state it keeps
  between cycles, the current state it plans from, which published messages stay pending,
  and the composition of rebalancing, generation, selection and throttling into the external
  view and the next queue.
\<close>

section \<open>State between cycles\<close>

datatype ReconcileMode = Startup | Normal | SessionReplacement

record ControllerState =
  controller_pending :: "PublishedTransition list"
  controller_sessions :: "(InstanceId, SessionId) btree"
  controller_revision :: Revision

definition live_sessions :: "CoordinationSnapshot \<Rightarrow> (InstanceId, SessionId) btree" where
  "live_sessions snap = bt_map (\<lambda>_ live. live_session_id live) (participants_live snap)"

definition session_replaced :: "(InstanceId, SessionId) btree \<Rightarrow> CoordinationSnapshot \<Rightarrow> bool" where
  "session_replaced known snap =
     list_ex (\<lambda>(i, live). case bt_get known i of None \<Rightarrow> False | Some s \<Rightarrow> s \<noteq> live_session_id live)
       (entries (participants_live snap))"

definition ControllerState_from_snapshot ::
    "decoders \<Rightarrow> CoordinationSnapshot \<Rightarrow> ControllerRuntimeError + ControllerState" where
  "ControllerState_from_snapshot dec snap =
     bind_result (read_pending dec snap) (\<lambda>pending.
     Inr \<lparr>controller_pending = pending, controller_sessions = live_sessions snap,
          controller_revision = authoritative_revision snap\<rparr>)"

definition observe_input_revision :: "Revision \<Rightarrow> ControllerState \<Rightarrow> ControllerState" where
  "observe_input_revision r st = st\<lparr>controller_revision := max (controller_revision st) r\<rparr>"

definition mode_for :: "ControllerState \<Rightarrow> CoordinationSnapshot \<Rightarrow> ReconcileMode" where
  "mode_for st snap = (if session_replaced (controller_sessions st) snap then SessionReplacement else Normal)"

definition remember_sessions :: "CoordinationSnapshot \<Rightarrow> ControllerState \<Rightarrow> ControllerState" where
  "remember_sessions snap st = st\<lparr>controller_sessions :=
     fold (\<lambda>(i, live). bt_insert i (live_session_id live)) (entries (participants_live snap)) (controller_sessions st)\<rparr>"

section \<open>Current states\<close>

text \<open>\<open>builder.set_state(..).expect(..)\<close> in a loop: \<open>None\<close> is the panic.\<close>

definition expect_states :: "(PartitionId \<times> InstanceId \<times> State) list \<Rightarrow> ReplicaStates \<Rightarrow> ReplicaStates option" where
  "expect_states xs rs =
     (case try_fold (\<lambda>x b. map_err (\<lambda>e. e) (set_state (fst x) (fst (snd x)) (snd (snd x)) b)) xs rs of
        Inl _ \<Rightarrow> None | Inr rs' \<Rightarrow> Some rs')"

definition collect_active ::
    "(InstanceId, string) btree \<Rightarrow> InstanceId bset \<Rightarrow> ActiveCurrentState \<Rightarrow> resource_map \<Rightarrow> resource_map" where
  "collect_active configs live active states =
     fold (\<lambda>(r, current). bt_entry bt_empty (\<lambda>resource_states.
         fold (\<lambda>(p, replica_states). bt_entry bt_empty (\<lambda>partition_states.
             fold (\<lambda>(i, s) ps. if \<not> bt_contains configs i \<or> \<not> bt_contains live i then ps else bt_insert i s ps)
               (entries replica_states) partition_states) p)
           (entries (CurrentState_entries current)) resource_states) r)
       (entries (active_resources active)) states"

definition active_current_state ::
    "CoordinationSnapshot \<Rightarrow> (InstanceId, string) btree \<Rightarrow> InstanceId bset \<Rightarrow> (ResourceId, CurrentState) btree option" where
  "active_current_state snap configs live =
     (let states = fold (collect_active configs live)
            (bt_values (snapshot_active_current_state (snapshot_participants snap))) bt_empty;
          built = bt_map (\<lambda>_ m. expect_states (replicas m) ReplicaStates_default) states
      in if list_ex (\<lambda>c. c = None) (bt_values built) then None
         else Some (bt_map (\<lambda>_ c. CurrentState_build (the c)) built))"

definition normalize_current ::
    "CurrentState \<Rightarrow> IdealState \<Rightarrow> InstanceId bset \<Rightarrow> StateModelDefinition \<Rightarrow> CurrentState option" where
  "normalize_current actual ideal live m =
     Option.bind (expect_states (filter (\<lambda>(p, i, s). bt_contains live i) (replicas (CurrentState_entries actual))) ReplicaStates_default)
       (\<lambda>builder. map_option CurrentState_build
         (expect_states
            (concat (map (\<lambda>(p, instances).
               map (\<lambda>i. (p, i, model_initial_state m))
                 (filter (\<lambda>i. bt_contains live i \<and> CurrentState_state actual p i = None) instances))
               (entries (preference_lists ideal)))) builder))"

section \<open>Pending messages\<close>

definition retains ::
    "CoordinationSnapshot \<Rightarrow> (ResourceId, CurrentState) btree \<Rightarrow> ResourcePlan list \<Rightarrow> bool \<Rightarrow> PublishedTransition \<Rightarrow> bool" where
  "retains snap actual plans strict_pending_fencing message =
     (case InstanceId_new (pub_instance message) of Inl _ \<Rightarrow> False | Inr i \<Rightarrow>
     (case bt_get (participants_live snap) i of None \<Rightarrow> False | Some live \<Rightarrow>
      if SessionId_wire_value (live_session_id live) \<noteq> pub_target_session message then False
      else
     (case ResourceId_new (pub_resource message) of Inl _ \<Rightarrow> False | Inr resource \<Rightarrow>
     (case PartitionId_new (pub_partition message) of Inl _ \<Rightarrow> False | Inr p \<Rightarrow>
     (case find (\<lambda>plan. ResourceId_as_str (plan_resource plan) = pub_resource message) plans of None \<Rightarrow> False | Some plan \<Rightarrow>
      let desired_preference = preference_list (plan_ideal plan) p in
      if desired_preference = None \<and>
         \<not> (case bt_get actual resource of None \<Rightarrow> False | Some state \<Rightarrow> bt_contains (CurrentState_entries state) p)
      then False
      else if strict_pending_fencing \<and>
              (case desired_preference of None \<Rightarrow> False | Some instances \<Rightarrow> i \<in> set instances) =
              (pub_to message = ''OFFLINE'' \<or> pub_to message = ''DROPPED'')
      then False
      else (case Option.bind (bt_get actual resource) (\<lambda>state. CurrentState_state state p i) of
              Some state \<Rightarrow> State_as_str state = pub_from message
            | None \<Rightarrow> True))))))"

definition retain_pending ::
    "PublishedTransition list \<Rightarrow> CoordinationSnapshot \<Rightarrow> (ResourceId, CurrentState) btree \<Rightarrow> ResourcePlan list \<Rightarrow> bool \<Rightarrow>
     PublishedTransition list" where
  "retain_pending pending snap actual plans strict_pending_fencing =
     filter (retains snap actual plans strict_pending_fencing) pending"

definition to_operational_pending :: "PublishedTransition \<Rightarrow> OperationalPendingTransition option" where
  "to_operational_pending message =
     Option.bind (ok (ResourceId_new (pub_resource message))) (\<lambda>r.
     Option.bind (ok (PartitionId_new (pub_partition message))) (\<lambda>p.
     Option.bind (ok (InstanceId_new (pub_instance message))) (\<lambda>i.
     Option.bind (ok (State_new (pub_from message))) (\<lambda>s.
     Option.bind (ok (State_new (pub_to message))) (\<lambda>t.
     Some \<lparr>op_resource = r, op_partition = p, op_instance = i, op_source = s, op_target = t\<rparr>)))))"

definition pending_partition_is_current_only :: "ResourcePlan \<Rightarrow> PartitionId \<Rightarrow> bool" where
  "pending_partition_is_current_only plan p = (preference_list (plan_ideal plan) p = None)"

definition belongs_to_plan :: "ResourcePlan list \<Rightarrow> ReconcileMode \<Rightarrow> OperationalPendingTransition \<Rightarrow> bool" where
  "belongs_to_plan plans mode t =
     (mode \<noteq> SessionReplacement \<or>
      list_ex (\<lambda>plan. plan_resource plan = op_resource t \<and>
        ((case preference_list (plan_ideal plan) (op_partition t) of None \<Rightarrow> False | Some instances \<Rightarrow> op_instance t \<in> set instances) \<or>
         pending_partition_is_current_only plan (op_partition t))) plans)"

definition operational_pending_for_plans ::
    "PublishedTransition list \<Rightarrow> ResourcePlan list \<Rightarrow> ReconcileMode \<Rightarrow> OperationalPendingTransition list" where
  "operational_pending_for_plans pending plans mode =
     filter (belongs_to_plan plans mode) (List.map_filter to_operational_pending pending)"

definition pending_for_resource :: "ResourceId \<Rightarrow> OperationalPendingTransition list \<Rightarrow> PendingTransition list" where
  "pending_for_resource resource pending =
     map (\<lambda>t. \<lparr>pending_partition = op_partition t, pending_instance = op_instance t, pending_source = op_source t,
               pending_target = op_target t\<rparr>)
       (filter (\<lambda>t. op_resource t = resource) pending)"

section \<open>Planning one resource\<close>

definition resource_transition_input ::
    "ResourcePlan \<Rightarrow> (ResourceId, CurrentState) btree \<Rightarrow> InstanceId bset \<Rightarrow> OperationalPendingTransition list \<Rightarrow>
     StateModelDefinition \<Rightarrow> (ControllerRuntimeError + ResourceTransitionInput) option" where
  "resource_transition_input plan actual live operational_pending m =
     Option.bind (normalize_current (bt_get_or CurrentState_default actual (plan_resource plan)) (plan_ideal plan) live m) (\<lambda>planning_state.
     bind_run (Some (if bt_is_empty (preference_lists (plan_ideal plan)) then Inr BestPossibleState_default
         else map_err RebalanceFailed (compute_semi_auto_best_possible_state (plan_ideal plan) planning_state live m))) (\<lambda>best.
     bind_run (map_option (map_err GenerationFailed) (generate_transitions (plan_resource plan) planning_state best m)) (\<lambda>candidates.
     bind_run (Some (map_err SelectionFailed (select_transitions (plan_resource plan) (plan_ideal plan) planning_state live
         candidates (pending_for_resource (plan_resource plan) operational_pending) m))) (\<lambda>selected.
     Some (Inr \<lparr>input_resource = plan_resource plan, input_replicas = ideal_replicas (plan_ideal plan),
       input_min_active_replicas = None,
       input_preference_lists = fold (\<lambda>p. bt_entry [] (\<lambda>pl. pl) p) (bt_keys (CurrentState_entries planning_state))
         (preference_lists (plan_ideal plan)),
       input_current_state = planning_state, input_best_possible_state = best,
       input_selected_transitions = selected\<rparr>)))))"

section \<open>Publishing\<close>

definition same_replica :: "PublishedTransition \<Rightarrow> PublishedTransition \<Rightarrow> bool" where
  "same_replica l r = (pub_resource l = pub_resource r \<and> pub_partition l = pub_partition r \<and> pub_instance l = pub_instance r)"

definition same_transition :: "PublishedTransition \<Rightarrow> TransitionRequest \<Rightarrow> u64 \<Rightarrow> bool" where
  "same_transition existing t session =
     (pub_resource existing = ResourceId_as_str (request_resource t) \<and>
      pub_partition existing = PartitionId_as_str (request_partition t) \<and>
      pub_instance existing = InstanceId_as_str (request_instance t) \<and>
      pub_target_session existing = session \<and>
      pub_from existing = State_as_str (request_source t) \<and>
      pub_to existing = State_as_str (request_target t) \<and>
      pub_message_type existing = ''STATE_TRANSITION'')"

definition publish_transition ::
    "CoordinationSnapshot \<Rightarrow> PublishedTransition list \<Rightarrow> nat \<times> TransitionRequest \<Rightarrow> PublishedTransition list \<Rightarrow> PublishedTransition list" where
  "publish_transition snap original_pending ot next_pending = (case ot of (ordinal, t) \<Rightarrow>
     (case bt_get (participants_live snap) (request_instance t) of
        None \<Rightarrow> next_pending
      | Some live \<Rightarrow>
          (let session = SessionId_wire_value (live_session_id live);
               mid = (case find (\<lambda>existing. same_transition existing t session) original_pending of
                   Some existing \<Rightarrow> pub_message_id existing
                 | None \<Rightarrow> ''m10:'' @ show_int (revision_value (snapshot_revision snap)) @ '':'' @ show_nat ordinal);
               message = \<lparr>pub_resource = ResourceId_as_str (request_resource t), pub_partition = PartitionId_as_str (request_partition t),
                 pub_instance = InstanceId_as_str (request_instance t), pub_target_session = session,
                 pub_from = State_as_str (request_source t), pub_to = State_as_str (request_target t),
                 pub_message_type = ''STATE_TRANSITION'', pub_message_id = mid\<rparr>
           in if \<not> list_ex (\<lambda>existing. same_replica existing message) next_pending then next_pending @ [message] else next_pending)))"

text \<open>The derived order of \<open>PublishedTransition\<close> compares the fields in declaration order.\<close>

definition pub_key :: "PublishedTransition \<Rightarrow> string \<times> string \<times> string \<times> u64 \<times> string \<times> string \<times> string \<times> string" where
  "pub_key t = (pub_resource t, pub_partition t, pub_instance t, pub_target_session t, pub_from t, pub_to t,
     pub_message_type t, pub_message_id t)"

definition compute_outputs_with_pending_policy ::
    "decoders \<Rightarrow> 'f float_ops \<Rightarrow> CoordinationSnapshot \<Rightarrow> PublishedTransition list \<Rightarrow> ReconcileMode \<Rightarrow>
     (ControllerRuntimeError + ExternalView \<times> PublishedTransition list) option" where
  "compute_outputs_with_pending_policy dec ops snap original_pending mode =
     (let live = bs_collect (bt_keys (participants_live snap)) in
      bind_run (Some (instance_configs dec snap)) (\<lambda>configs.
      Option.bind (active_current_state snap configs live) (\<lambda>actual.
      bind_run (resource_plans dec ops snap configs live) (\<lambda>plans.
      let pending = retain_pending original_pending snap actual plans (mode = SessionReplacement);
          operational_pending = operational_pending_for_plans pending plans mode in
      bind_run (map_run (\<lambda>plan. resource_transition_input plan actual live operational_pending leader_standby) plans) (\<lambda>inputs.
      bind_run (Some (if mode = Startup then Inr [] else throttles dec snap)) (\<lambda>throttle_configs.
      bind_run (Some (map_err ThrottleFailed (compute_intermediate_and_throttle inputs live operational_pending throttle_configs leader_standby)))
        (\<lambda>throttle.
      let next_pending = fold (publish_transition snap original_pending)
            (List.enumerate 0 (dispatchable_transitions throttle)) pending
      in Some (Inr (ExternalView_from_current_states actual,
           dedup (sort_by (\<lambda>a b. pub_key a \<le> pub_key b) next_pending))))))))))"

section \<open>Outputs in the store\<close>

definition outputs_match :: "CoordinationSnapshot \<Rightarrow> string \<Rightarrow> string \<Rightarrow> bool" where
  "outputs_match snap external_view pending_transitions =
     (metadata_value snap EXTERNAL_OUTPUT_KEY = Some external_view \<and>
      metadata_value snap PENDING_OUTPUT_KEY = Some pending_transitions \<and>
      (case Option.bind (metadata_value snap PROCESSED_OUTPUT_KEY) parse_i64 of
         None \<Rightarrow> False
       | Some processed \<Rightarrow> revision_value (authoritative_revision snap) \<le> processed))"

definition external_view_output :: "ExternalView \<Rightarrow> (string, (string, (string, string) btree) btree) btree" where
  "external_view_output view =
     bt_collect (map (\<lambda>(r, partitions). (ResourceId_as_str r,
       bt_collect (map (\<lambda>(p, states). (PartitionId_as_str p,
         bt_collect (map (\<lambda>(i, s). (InstanceId_as_str i, State_as_str s)) (entries states)))) (entries partitions))))
       (entries (view_states view)))"

end
