(* ===== verification/Controller_Laws.thy ===== *)
theory Controller_Laws
  imports Controller_Runtime
begin

text \<open>
  What one planning cycle guarantees: it never panics, the stages never reject each other's
  outputs except for one named case, the queue it publishes has at most one message per
  replica, all for live sessions, and never two promotions for a partition.
\<close>

section \<open>Building current states\<close>

lemma expect_states_eq:
  assumes "distinct (map (\<lambda>x. (fst x, fst (snd x))) xs)" and "\<forall>x \<in> set xs. ReplicaStates_get rs (fst x) (fst (snd x)) = None"
  shows "expect_states xs rs = Some (fold (\<lambda>x. put_state (fst x) (fst (snd x)) (snd (snd x))) xs rs)"
  unfolding expect_states_def try_set_states[OF assms] by simp

text \<open>Loading a list of replicas with pairwise distinct keys into an empty builder.\<close>

definition loaded :: "(PartitionId \<times> InstanceId \<times> State) list \<Rightarrow> ReplicaStates" where
  "loaded xs = fold (\<lambda>x. put_state (fst x) (fst (snd x)) (snd (snd x))) xs ReplicaStates_default"

lemma loaded_get:
  assumes "distinct (map (\<lambda>x. (fst x, fst (snd x))) xs)"
  shows "ReplicaStates_get (loaded xs) p i = Some s \<longleftrightarrow> (p, i, s) \<in> set xs"
proof (cases "\<exists>s. (p, i, s) \<in> set xs")
  case True
  then obtain s' where s': "(p, i, s') \<in> set xs" by blast
  then have "ReplicaStates_get (loaded xs) p i = Some s'"
    using get_fold_put[OF assms, of "(p, i, s')" "\<lambda>x. snd (snd x)"] by (simp add: loaded_def)
  moreover have "s = s'" if "(p, i, s) \<in> set xs"
    using inj_onD[OF conjunct2[OF assms[unfolded distinct_map]], of "(p, i, s)" "(p, i, s')"] that s' by simp
  ultimately show ?thesis using s' by auto
next
  case False
  then have "ReplicaStates_get (loaded xs) p i = None"
    unfolding loaded_def by (subst get_fold_put_other) auto
  then show ?thesis using False by simp
qed

lemma fold_put_partitions:
  "bt_contains (replica_states (fold (\<lambda>x. put_state (fst x) (fst (snd x)) (snd (snd x))) xs rs)) p \<longleftrightarrow>
     p \<in> fst ` set xs \<or> bt_contains (replica_states rs) p"
  by (induction xs arbitrary: rs) auto

lemma loaded_partitions: "bt_contains (replica_states (loaded xs)) p \<longleftrightarrow> p \<in> fst ` set xs"
  unfolding loaded_def fold_put_partitions by (simp add: ReplicaStates_default_def)

definition actual_state :: "(ResourceId, CurrentState) btree \<Rightarrow> ResourceId \<Rightarrow> PartitionId \<Rightarrow> InstanceId \<Rightarrow> State option" where
  "actual_state actual r p i = Option.bind (bt_get actual r) (\<lambda>c. CurrentState_state c p i)"

lemma active_current_state_Some:
  "\<exists>states. active_current_state snap configs live =
     Some (bt_map (\<lambda>_ m. CurrentState_build (loaded (replicas m))) states) \<and>
   states = fold (collect_active configs live) (bt_values (snapshot_active_current_state (snapshot_participants snap))) bt_empty"
proof -
  have e: "expect_states (replicas m) ReplicaStates_default = Some (loaded (replicas m))" for m
    unfolding loaded_def by (rule expect_states_eq) (simp_all add: distinct_replica_keys)
  show ?thesis unfolding active_current_state_def Let_def e
    by (auto simp: list_ex_iff bt_values_iff option.map_comp comp_def intro!: bt_eqI)
qed

text \<open>Only live, configured instances are planned for.\<close>

definition admitted_states :: "(InstanceId, string) btree \<Rightarrow> InstanceId bset \<Rightarrow> resource_map \<Rightarrow> bool" where
  "admitted_states configs live =
     bt_all (\<lambda>_. bt_all (\<lambda>_. bt_all (\<lambda>i _. bt_contains configs i \<and> bt_contains live i)))"

lemma admitted_statesD:
  assumes "admitted_states configs live states" and "resource_map_state states r p i = Some s"
  shows "bt_contains configs i \<and> bt_contains live i"
  using assms by (fastforce simp: admitted_states_def resource_map_state_def split: option.splits dest: bt_allD)

lemma collect_active_admitted:
  assumes "admitted_states configs live states"
  shows "admitted_states configs live (collect_active configs live active states)"
  unfolding collect_active_def admitted_states_def
  by (rule fold_invariant, rule assms[unfolded admitted_states_def])
    (auto intro!: bt_all_entry bt_all_insert elim!: fold_invariant split: prod.splits if_splits)

lemma actual_state_admitted:
  assumes "active_current_state snap configs live = Some actual" and "actual_state actual r p i = Some s"
  shows "bt_contains configs i \<and> bt_contains live i"
proof -
  obtain states where states: "actual = bt_map (\<lambda>_ m. CurrentState_build (loaded (replicas m))) states"
      "states = fold (collect_active configs live) (bt_values (snapshot_active_current_state (snapshot_participants snap))) bt_empty"
    using active_current_state_Some[of snap configs live] assms(1) by auto
  have "admitted_states configs live states" unfolding states(2)
    by (rule fold_invariant[where P = "admitted_states configs live"], simp add: admitted_states_def)
      (rule collect_active_admitted)
  moreover have "resource_map_state states r p i = Some s"
    using assms(2) by (auto simp: actual_state_def states(1) bind_eq_Some_conv
        loaded_get distinct_replica_keys set_replicas resource_map_state_def)
  ultimately show ?thesis by (rule admitted_statesD)
qed

lemma actual_partition_inhabited:
  assumes "active_current_state snap configs live = Some actual" and "bt_get actual r = Some c"
    and "bt_contains (CurrentState_entries c) p"
  shows "\<exists>i s. CurrentState_state c p i = Some s"
proof -
  obtain m where c: "c = CurrentState_build (loaded (replicas m))"
    using active_current_state_Some[of snap configs live] assms(1,2) by auto
  then obtain i s where "(p, i, s) \<in> set (replicas m)"
    using assms(3) by (auto simp: loaded_partitions)
  then have "CurrentState_state c p i = Some s" by (simp add: c loaded_get distinct_replica_keys)
  then show ?thesis by blast
qed

section \<open>Planning states\<close>

definition preferred :: "IdealState \<Rightarrow> PartitionId \<Rightarrow> InstanceId \<Rightarrow> bool" where
  "preferred ideal p i \<longleftrightarrow> (case preference_list ideal p of None \<Rightarrow> False | Some pl \<Rightarrow> i \<in> set pl)"

text \<open>A live replica keeps its reported state; a live preferred instance without one starts in
  the initial state.\<close>

definition planned_state :: "CurrentState \<Rightarrow> IdealState \<Rightarrow> InstanceId bset \<Rightarrow> StateModelDefinition \<Rightarrow> PartitionId \<Rightarrow> InstanceId \<Rightarrow> State option" where
  "planned_state actual ideal live m p i =
     (if \<not> bt_contains live i then None
      else case CurrentState_state actual p i of
        Some s \<Rightarrow> Some s
      | None \<Rightarrow> if preferred ideal p i then Some (model_initial_state m) else None)"

lemma new_replicas_mem:
  "x \<in> set (concat (map (\<lambda>(p, pl). map (\<lambda>i. (p, i, s)) (filter (P p) pl)) xs)) \<longleftrightarrow>
     (\<exists>p pl i. (p, pl) \<in> set xs \<and> i \<in> set pl \<and> P p i \<and> x = (p, i, s))"
  by (induction xs) auto

lemma distinct_new_replicas:
  assumes "distinct (map fst xs)" and "\<forall>(p, pl) \<in> set xs. distinct pl"
  shows "distinct (map (\<lambda>x. (fst x, fst (snd x))) (concat (map (\<lambda>(p, pl). map (\<lambda>i. (p, i, s)) (filter (P p) pl)) xs)))"
  using assms
proof (induction xs)
  case (Cons x xs)
  obtain p pl where x: "x = (p, pl)" by force
  have "distinct (map (\<lambda>i. (p, i)) (filter (P p) pl))" using Cons.prems by (auto simp: x distinct_map inj_on_def)
  moreover have "fst y \<noteq> p" if "y \<in> set (concat (map (\<lambda>(p, pl). map (\<lambda>i. (p, i, s)) (filter (P p) pl)) xs))" for y
    using that Cons.prems(1) unfolding new_replicas_mem by (force simp: x)
  ultimately show ?case using Cons by (fastforce simp: x comp_def)
qed simp

lemma normalize_current_Some:
  assumes "ideal_wf ideal"
  shows "\<exists>planning. normalize_current actual ideal live m = Some planning \<and>
    (\<forall>p i. CurrentState_state planning p i = planned_state actual ideal live m p i) \<and>
    (\<forall>p. bt_contains (CurrentState_entries planning) p \<longrightarrow> (\<exists>i. planned_state actual ideal live m p i \<noteq> None))"
proof -
  define old where "old = filter (\<lambda>(p, i, s). bt_contains live i) (replicas (CurrentState_entries actual))"
  define new where "new = concat (map (\<lambda>(p, pl). map (\<lambda>i. (p, i, model_initial_state m))
    (filter (\<lambda>i. bt_contains live i \<and> CurrentState_state actual p i = None) pl)) (entries (preference_lists ideal)))"
  have d_old: "distinct (map (\<lambda>x. (fst x, fst (snd x))) old)"
    unfolding old_def by (rule distinct_map_filter) (rule distinct_replica_keys)
  have d_new: "distinct (map (\<lambda>x. (fst x, fst (snd x))) new)"
    unfolding new_def using assms
    by (intro distinct_new_replicas) (auto simp: ascending_distinct ideal_wf_def preference_list_def bt_entries_iff)
  have mem_old: "(p, i, s) \<in> set old \<longleftrightarrow> bt_contains live i \<and> CurrentState_state actual p i = Some s" for p i s
    by (auto simp: old_def replicas_current)
  have mem_new: "(p, i, s) \<in> set new \<longleftrightarrow> s = model_initial_state m \<and> bt_contains live i \<and>
      CurrentState_state actual p i = None \<and> preferred ideal p i" for p i s
  proof -
    have "(p, i, s) \<in> set new \<longleftrightarrow> (\<exists>pl. (p, pl) \<in> set (entries (preference_lists ideal)) \<and> i \<in> set pl \<and> s = model_initial_state m \<and>
        bt_contains live i \<and> CurrentState_state actual p i = None)"
      unfolding new_def new_replicas_mem by auto
    then show ?thesis by (auto simp: preferred_def preference_list_def bt_entries_iff split: option.splits)
  qed
  have "expect_states old ReplicaStates_default = Some (loaded old)"
    unfolding loaded_def by (rule expect_states_eq[OF d_old]) simp
  moreover have fresh: "ReplicaStates_get (loaded old) p i = None" if "(p, i, s) \<in> set new" for p i s
    using that by (metis mem_old mem_new loaded_get[OF d_old] option.exhaust option.distinct(1))
  have "\<forall>x \<in> set new. ReplicaStates_get (loaded old) (fst x) (fst (snd x)) = None" using fresh by (metis prod.collapse)
  from expect_states_eq[OF d_new this] have "expect_states new (loaded old) = Some (loaded (old @ new))"
    by (simp add: loaded_def)
  ultimately have n: "normalize_current actual ideal live m = Some (CurrentState_build (loaded (old @ new)))"
    by (simp add: normalize_current_def old_def new_def)
  have d: "distinct (map (\<lambda>x. (fst x, fst (snd x))) (old @ new))"
    using d_old d_new mem_old mem_new by (auto simp: disjoint_iff)
  have get: "CurrentState_state (CurrentState_build (loaded (old @ new))) p i = planned_state actual ideal live m p i" for p i
    by (rule option_eqI)
      (auto simp: loaded_get[OF d] mem_old mem_new planned_state_def split: option.splits)
  have "\<exists>i. planned_state actual ideal live m p i \<noteq> None"
    if "bt_contains (CurrentState_entries (CurrentState_build (loaded (old @ new)))) p" for p
  proof -
    from that have "p \<in> fst ` set (old @ new)" by (simp only: current_build loaded_partitions)
    then obtain i s where "(p, i, s) \<in> set (old @ new)" by (metis (no_types, lifting) imageE prod.collapse)
    then have "ReplicaStates_get (loaded (old @ new)) p i = Some s" by (simp add: loaded_get[OF d])
    then have "planned_state actual ideal live m p i = Some s" using get[of p i] by simp
    then show ?thesis by blast
  qed
  with n get show ?thesis by blast
qed

section \<open>Plans\<close>

lemma build_ideal_wf:
  assumes "build_ideal resource n pls = Inr ideal"
  shows "ideal_wf ideal" and "\<not> bt_is_empty (preference_lists ideal)"
proof -
  obtain b where b: "try_fold (\<lambda>(p, instances). set_preference_list p instances) (entries pls) (IdealState_builder resource n) = Inr b"
    and i: "IdealState_build b = Inr ideal"
    using assms by (auto simp: build_ideal_def bind_result_Inr)
  have "ideal_wf b"
    by (rule try_fold_invariant[where P = ideal_wf, OF b]) (use ideal_wf_set ideal_wf_builder in fastforce)+
  then show "ideal_wf ideal" using i by (rule ideal_wf_build)
  show "\<not> bt_is_empty (preference_lists ideal)" using i by (auto simp: IdealState_build_def split: if_splits)
qed

lemma resource_plan_ok:
  assumes "resource_plan dec ops configs live name entry = Some (Inr plan)"
  shows "ideal_wf (plan_ideal plan)" and "\<not> bt_is_empty (preference_lists (plan_ideal plan))"
    and "plan_resource plan = ResourceId name" and "name \<noteq> []"
  using assms
  by (auto simp: resource_plan_def bind_run_Inr ResourceId_new_def validate_def bind_result_Inr
      split: if_splits dest: build_ideal_wf)

lemma resource_entries_distinct: "distinct (map fst (resource_entries snap))"
proof -
  have "distinct (map ((@) RESOURCE_PREFIX \<circ> fst) (resource_entries snap))"
    unfolding resource_entries_def
    by (rule distinct_map_filter_key[of fst]) (auto simp: ascending_distinct strip_prefix_Some)
  then show ?thesis using distinct_map[of "(@) RESOURCE_PREFIX"] by (simp flip: map_map)
qed

lemma resource_plans_ok:
  assumes "resource_plans dec ops snap configs live = Some (Inr plans)"
  shows "distinct (map plan_resource plans)"
    and "\<forall>plan \<in> set plans. ideal_wf (plan_ideal plan) \<and> \<not> bt_is_empty (preference_lists (plan_ideal plan))"
proof -
  have l: "list_all2 (\<lambda>(name, entry) plan. resource_plan dec ops configs live name entry = Some (Inr plan)) (resource_entries snap) plans"
    using assms unfolding resource_plans_def map_run_Inr by (rule list_all2_mono) auto
  have "map plan_resource plans = map (ResourceId \<circ> fst) (resource_entries snap)"
    using l by (induction rule: list_all2_induct) (auto dest: resource_plan_ok)
  then show "distinct (map plan_resource plans)"
    using resource_entries_distinct[of snap] by (simp add: distinct_map inj_on_def flip: map_map)
  show "\<forall>plan \<in> set plans. ideal_wf (plan_ideal plan) \<and> \<not> bt_is_empty (preference_lists (plan_ideal plan))"
    using l by (induction rule: list_all2_induct) (auto dest: resource_plan_ok)
qed

section \<open>Planning one resource\<close>

lemma find_dropped_state [simp]: "find (\<lambda>st. State_as_str st = ''DROPPED'') (states_by_priority leader_standby) = Some (State ''DROPPED'')"
  by simp

text \<open>The rebalancer gives a state to exactly the planned replicas; a replica outside the
  placement is on its way to \<open>DROPPED\<close>.\<close>

lemma planned_best:
  assumes wf: "ideal_wf ideal" and n: "normalize_current actual ideal live leader_standby = Some planning"
    and best: "compute_semi_auto_best_possible_state ideal planning live leader_standby = Inr best"
  shows "same_replicas planning best"
    and "CurrentState_state planning p i \<noteq> None \<Longrightarrow> \<not> preferred ideal p i \<Longrightarrow> BestPossibleState_state best p i = Some (State ''DROPPED'')"
proof -
  have planning: "CurrentState_state planning p i = planned_state actual ideal live leader_standby p i" for p i
    using normalize_current_Some[OF wf, of actual live leader_standby] n by auto
  obtain best' where b': "compute_semi_auto_best_possible_state ideal planning live leader_standby = Inr best'"
      "\<And>p pl. preference_list ideal p = Some pl \<Longrightarrow> partition_post planning live leader_standby p pl (BestPossibleState_state best' p)"
      "\<And>p i. preference_list ideal p = None \<Longrightarrow> BestPossibleState_state best' p i =
         (if CurrentState_state planning p i \<noteq> None then Some (State ''DROPPED'') else None)"
    using semi_auto_run[OF leader_standby_distinct, of ideal planning live] by blast
  then have b: "\<And>p pl i. preference_list ideal p = Some pl \<Longrightarrow> BestPossibleState_state best p i =
      (if i \<in> set (active_instances live pl)
       then Some (if i = top_choice planning leader_standby p (active_instances live pl) then State ''LEADER'' else State ''STANDBY'')
       else if i \<notin> set pl \<and> CurrentState_state planning p i \<noteq> None then Some (State ''DROPPED'') else None)"
    "\<And>p i. preference_list ideal p = None \<Longrightarrow> BestPossibleState_state best p i =
         (if CurrentState_state planning p i \<noteq> None then Some (State ''DROPPED'') else None)"
    using best leader_standby_post by auto
  have "CurrentState_state planning p i = None \<longleftrightarrow> BestPossibleState_state best p i = None" for p i
    using b[of p] by (cases "preference_list ideal p")
      (auto simp: planning planned_state_def preferred_def active_instances_def split: option.splits)
  then show "same_replicas planning best" by (simp add: same_replicas_def)
  show "BestPossibleState_state best p i = Some (State ''DROPPED'')"
    if "CurrentState_state planning p i \<noteq> None" "\<not> preferred ideal p i"
    using that b[of p] by (cases "preference_list ideal p") (auto simp: preferred_def active_instances_def)
qed

text \<open>Every candidate is for a placed partition or on the way to \<open>DROPPED\<close>.\<close>

lemma planned_candidates:
  assumes wf: "ideal_wf ideal" and n: "normalize_current actual ideal live leader_standby = Some planning"
    and best: "compute_semi_auto_best_possible_state ideal planning live leader_standby = Inr best"
    and c: "generate_transitions r planning best leader_standby = Some (Inr candidates)" and t: "t \<in> set candidates"
  shows "request_resource t = r" and "CurrentState_state planning (request_partition t) (request_instance t) = Some (request_source t)"
    and "bt_contains (CurrentState_entries planning) (request_partition t)"
    and "\<not> preferred ideal (request_partition t) (request_instance t) \<Longrightarrow>
      next_state_toward leader_standby (request_source t) (State ''DROPPED'') = Some (request_target t)"
    and "request_source t \<in> set (states_by_priority leader_standby) \<and> request_target t \<in> set (states_by_priority leader_standby)"
proof -
  obtain p i s d h where m: "BestPossibleState_state best p i = Some d" "CurrentState_state planning p i = Some s"
      "next_state_toward leader_standby s d = Some h"
      "t = \<lparr>request_resource = r, request_partition = p, request_instance = i, request_source = s, request_target = h\<rparr>"
    using t by (auto simp: generate_mem[OF c])
  show "request_resource t = r" "CurrentState_state planning (request_partition t) (request_instance t) = Some (request_source t)"
    using m by simp_all
  show "bt_contains (CurrentState_entries planning) (request_partition t)"
    using m(2,4) by (auto simp: CurrentState_state_def CurrentState_entries_def ReplicaStates_get_def bt_contains_def split: option.splits)
  show "next_state_toward leader_standby (request_source t) (State ''DROPPED'') = Some (request_target t)"
    if "\<not> preferred ideal (request_partition t) (request_instance t)"
    using planned_best(2)[OF wf n best, of p i] that m by simp
  show "request_source t \<in> set (states_by_priority leader_standby) \<and> request_target t \<in> set (states_by_priority leader_standby)"
    using m ls.hop_dom ls.hop_edge ls.edges by fastforce
qed

definition planned_input ::
    "ResourcePlan \<Rightarrow> CurrentState \<Rightarrow> BestPossibleState \<Rightarrow> TransitionRequest list \<Rightarrow> ResourceTransitionInput" where
  "planned_input plan planning best selected =
     \<lparr>input_resource = plan_resource plan, input_replicas = ideal_replicas (plan_ideal plan), input_min_active_replicas = None,
       input_preference_lists = fold (\<lambda>p. bt_entry [] (\<lambda>pl. pl) p) (bt_keys (CurrentState_entries planning))
         (preference_lists (plan_ideal plan)),
       input_current_state = planning, input_best_possible_state = best, input_selected_transitions = selected\<rparr>"

text \<open>A plan always gets to the selection stage.\<close>

lemma transition_input_run:
  assumes "ideal_wf (plan_ideal plan)" and "\<not> bt_is_empty (preference_lists (plan_ideal plan))"
  obtains planning best candidates where
    "normalize_current (bt_get_or CurrentState_default actual (plan_resource plan)) (plan_ideal plan) live leader_standby = Some planning"
    "compute_semi_auto_best_possible_state (plan_ideal plan) planning live leader_standby = Inr best"
    "generate_transitions (plan_resource plan) planning best leader_standby = Some (Inr candidates)"
    "\<And>operational. resource_transition_input plan actual live operational leader_standby =
       (case select_transitions (plan_resource plan) (plan_ideal plan) planning live candidates
               (pending_for_resource (plan_resource plan) operational) leader_standby of
          Inl e \<Rightarrow> Some (Inl (SelectionFailed e))
        | Inr selected \<Rightarrow> Some (Inr (planned_input plan planning best selected)))"
proof -
  obtain planning where n: "normalize_current (bt_get_or CurrentState_default actual (plan_resource plan)) (plan_ideal plan) live leader_standby = Some planning"
    using normalize_current_Some[OF assms(1)] by blast
  obtain best where b: "compute_semi_auto_best_possible_state (plan_ideal plan) planning live leader_standby = Inr best"
    using semi_auto_run[OF leader_standby_distinct] by blast
  obtain candidates where c: "generate_transitions (plan_resource plan) planning best leader_standby = Some (Inr candidates)"
    using generate_eq[OF planned_best(1)[OF assms(1) n b]] by blast
  have "resource_transition_input plan actual live operational leader_standby =
       (case select_transitions (plan_resource plan) (plan_ideal plan) planning live candidates
               (pending_for_resource (plan_resource plan) operational) leader_standby of
          Inl e \<Rightarrow> Some (Inl (SelectionFailed e))
        | Inr selected \<Rightarrow> Some (Inr (planned_input plan planning best selected)))" for operational
    by (simp add: resource_transition_input_def n b c assms(2) planned_input_def split: sum.splits)
  with n b c show ?thesis by (rule that)
qed

lemma known_partition_ls:
  "known_partition ideal planning leader_standby p s t \<longleftrightarrow>
     preference_list ideal p \<noteq> None \<or>
     (bt_contains (CurrentState_entries planning) p \<and> next_state_toward leader_standby s (State ''DROPPED'') = Some t)"
  unfolding known_partition_def is_drop_path_def find_dropped_state by simp

lemma fold_entry_lists:
  "bt_get (fold (\<lambda>p. bt_entry [] (\<lambda>pl. pl) p) ps m) p =
     (if p \<in> set ps \<and> bt_get m p = None then Some [] else bt_get m p)"
  by (induction ps arbitrary: m) (auto simp: bt_entry_def bt_get_or_def split: option.splits)

text \<open>What a planned resource hands to the throttle is what the throttle accepts.\<close>

lemma planned_selected_valid:
  assumes wf: "ideal_wf (plan_ideal plan)"
    and n: "normalize_current actual (plan_ideal plan) live leader_standby = Some planning"
    and b: "compute_semi_auto_best_possible_state (plan_ideal plan) planning live leader_standby = Inr best"
    and c: "generate_transitions (plan_resource plan) planning best leader_standby = Some (Inr candidates)"
    and sel: "set selected \<subseteq> set candidates"
  shows "valid_selected (planned_input plan planning best selected) leader_standby"
  unfolding valid_selected_def
proof (intro ballI conjI impI)
  let ?input = "planned_input plan planning best selected"
  fix t assume "t \<in> set (input_selected_transitions ?input)"
  then have t: "t \<in> set candidates" using sel by (auto simp: planned_input_def)
  note cand = planned_candidates[OF wf n b c t]
  show "request_resource t = input_resource ?input" using cand(1) by (simp add: planned_input_def)
  show "bt_contains (input_preference_lists ?input) (request_partition t)"
    using cand(3) by (simp add: planned_input_def bt_contains_def[of "fold _ _ _"] fold_entry_lists bt_keys_contains)
  assume "bt_get (input_preference_lists ?input) (request_partition t) = Some []"
  then have "\<not> preferred (plan_ideal plan) (request_partition t) (request_instance t)"
    by (auto simp: planned_input_def fold_entry_lists preferred_def preference_list_def split: if_splits option.splits)
  from cand(4)[OF this] cand(3) show "is_drop_transition t ?input leader_standby"
    unfolding is_drop_transition_def find_dropped_state by (simp add: planned_input_def)
qed

section \<open>Pending messages\<close>

lemma id_new_Inr [simp]:
  "InstanceId_new v = Inr i \<longleftrightarrow> v \<noteq> [] \<and> i = InstanceId v"
  "PartitionId_new v = Inr p \<longleftrightarrow> v \<noteq> [] \<and> p = PartitionId v"
  "ResourceId_new v = Inr r \<longleftrightarrow> v \<noteq> [] \<and> r = ResourceId v"
  "State_new v = Inr s \<longleftrightarrow> v \<noteq> [] \<and> s = State v"
  by (auto simp: InstanceId_new_def PartitionId_new_def ResourceId_new_def State_new_def validate_def bind_result_Inr)

lemma to_operational_Some:
  "to_operational_pending m = Some t \<longleftrightarrow>
     pub_resource m \<noteq> [] \<and> pub_partition m \<noteq> [] \<and> pub_instance m \<noteq> [] \<and> pub_from m \<noteq> [] \<and> pub_to m \<noteq> [] \<and>
     t = \<lparr>op_resource = ResourceId (pub_resource m), op_partition = PartitionId (pub_partition m),
          op_instance = InstanceId (pub_instance m), op_source = State (pub_from m), op_target = State (pub_to m)\<rparr>"
  by (auto simp: to_operational_pending_def bind_eq_Some_conv)

lemma retainsD:
  assumes "retains snap actual plans strict m"
  obtains live plan where "pub_instance m \<noteq> []" "pub_resource m \<noteq> []" "pub_partition m \<noteq> []"
    "bt_get (participants_live snap) (InstanceId (pub_instance m)) = Some live"
    "SessionId_wire_value (live_session_id live) = pub_target_session m"
    "plan \<in> set plans" "plan_resource plan = ResourceId (pub_resource m)"
    "preference_list (plan_ideal plan) (PartitionId (pub_partition m)) = None \<Longrightarrow>
       \<exists>c. bt_get actual (ResourceId (pub_resource m)) = Some c \<and> bt_contains (CurrentState_entries c) (PartitionId (pub_partition m))"
    "strict \<Longrightarrow> preferred (plan_ideal plan) (PartitionId (pub_partition m)) (InstanceId (pub_instance m)) \<noteq>
       (pub_to m = ''OFFLINE'' \<or> pub_to m = ''DROPPED'')"
proof -
  have names: "pub_instance m \<noteq> []" "pub_resource m \<noteq> []" "pub_partition m \<noteq> []"
    using assms by (auto simp: retains_def InstanceId_new_def ResourceId_new_def PartitionId_new_def validate_def
        split: sum.splits option.splits if_splits)
  then have new: "InstanceId_new (pub_instance m) = Inr (InstanceId (pub_instance m))"
    "ResourceId_new (pub_resource m) = Inr (ResourceId (pub_resource m))"
    "PartitionId_new (pub_partition m) = Inr (PartitionId (pub_partition m))" by simp_all
  obtain live where live: "bt_get (participants_live snap) (InstanceId (pub_instance m)) = Some live"
      "SessionId_wire_value (live_session_id live) = pub_target_session m"
    using assms unfolding retains_def new by (auto split: option.splits if_splits)
  obtain plan where f: "find (\<lambda>plan. ResourceId_as_str (plan_resource plan) = pub_resource m) plans = Some plan"
    using assms unfolding retains_def new by (auto split: option.splits if_splits)
  have plan: "plan \<in> set plans" "plan_resource plan = ResourceId (pub_resource m)"
    using f by (auto simp: find_Some_iff in_set_conv_nth ResourceId.expand)
  show ?thesis
    by (rule that[OF names live plan]; use assms in \<open>simp add: retains_def new live f Let_def preferred_def split: option.splits if_splits\<close>)
qed

lemma operational_mem:
  "t \<in> set (operational_pending_for_plans pending plans mode) \<longleftrightarrow>
     belongs_to_plan plans mode t \<and> (\<exists>m \<in> set pending. to_operational_pending m = Some t)"
  by (auto simp: operational_pending_for_plans_def set_map_filter)

definition replica_key :: "PublishedTransition \<Rightarrow> string \<times> string \<times> string" where
  "replica_key m = (pub_resource m, pub_partition m, pub_instance m)"

lemma operational_distinct:
  assumes "distinct (map replica_key pending)"
  shows "distinct (map (\<lambda>t. (op_resource t, op_partition t, op_instance t)) (operational_pending_for_plans pending plans mode))"
proof -
  have "distinct (map (\<lambda>t. (ResourceId_as_str (op_resource t), PartitionId_as_str (op_partition t), InstanceId_as_str (op_instance t)))
      (List.map_filter to_operational_pending pending))"
    by (rule distinct_map_filter_key[OF assms]) (auto simp: to_operational_Some replica_key_def)
  then have "distinct (map (\<lambda>t. (op_resource t, op_partition t, op_instance t)) (List.map_filter to_operational_pending pending))"
    by (auto simp: distinct_map inj_on_def)
  then show ?thesis unfolding operational_pending_for_plans_def by (rule distinct_map_filter)
qed

section \<open>One cycle\<close>

abbreviation live_of :: "CoordinationSnapshot \<Rightarrow> InstanceId bset" where
  "live_of snap \<equiv> bs_collect (bt_keys (participants_live snap))"

lemma live_of_contains [simp]: "bt_contains (live_of snap) i \<longleftrightarrow> bt_contains (participants_live snap) i"
  by (simp add: bt_keys_contains)

text \<open>The operational pending transitions of a cycle.\<close>

abbreviation reserved :: "CoordinationSnapshot \<Rightarrow> (ResourceId, CurrentState) btree \<Rightarrow> ResourcePlan list \<Rightarrow> ReconcileMode \<Rightarrow>
    PublishedTransition list \<Rightarrow> OperationalPendingTransition list" where
  "reserved snap actual plans mode pending \<equiv>
     operational_pending_for_plans (retain_pending pending snap actual plans (mode = SessionReplacement)) plans mode"

lemma outputs_Inr:
  "compute_outputs_with_pending_policy dec ops snap pending mode = Some (Inr (view, next)) \<longleftrightarrow>
     (\<exists>configs actual plans inputs limits throttle.
        instance_configs dec snap = Inr configs \<and>
        active_current_state snap configs (live_of snap) = Some actual \<and>
        resource_plans dec ops snap configs (live_of snap) = Some (Inr plans) \<and>
        map_run (\<lambda>plan. resource_transition_input plan actual (live_of snap) (reserved snap actual plans mode pending) leader_standby) plans = Some (Inr inputs) \<and>
        (if mode = Startup then Inr [] else throttles dec snap) = Inr limits \<and>
        compute_intermediate_and_throttle inputs (live_of snap) (reserved snap actual plans mode pending) limits leader_standby = Inr throttle \<and>
        view = ExternalView_from_current_states actual \<and>
        next = dedup (sort_by (\<lambda>a b. pub_key a \<le> pub_key b) (fold (publish_transition snap pending)
          (List.enumerate 0 (dispatchable_transitions throttle)) (retain_pending pending snap actual plans (mode = SessionReplacement)))))"
  by (auto simp: compute_outputs_with_pending_policy_def Let_def bind_run_Inr bind_eq_Some_conv)

text \<open>A pending transition the planner can account for: its partition is placed, or it is a
  step of the way to \<open>DROPPED\<close>.\<close>

definition accountable :: "ResourcePlan list \<Rightarrow> OperationalPendingTransition \<Rightarrow> bool" where
  "accountable plans t \<longleftrightarrow> (\<exists>plan \<in> set plans. plan_resource plan = op_resource t \<and>
     (preference_list (plan_ideal plan) (op_partition t) \<noteq> None \<or>
      next_state_toward leader_standby (op_source t) (State ''DROPPED'') = Some (op_target t)))"

lemma reserved_plan:
  assumes "t \<in> set (reserved snap actual plans mode pending)"
  obtains plan where "plan \<in> set plans" "plan_resource plan = op_resource t"
    "preference_list (plan_ideal plan) (op_partition t) = None \<Longrightarrow>
       \<exists>c. bt_get actual (op_resource t) = Some c \<and> bt_contains (CurrentState_entries c) (op_partition t)"
proof -
  from assms obtain m where m: "retains snap actual plans (mode = SessionReplacement) m" "to_operational_pending m = Some t"
    by (auto simp: operational_mem retain_pending_def)
  from m(1) show ?thesis by (rule retainsD) (use m(2) that in \<open>auto simp: to_operational_Some\<close>)
qed

lemma plan_unique:
  assumes "distinct (map plan_resource plans)" "a \<in> set plans" "b \<in> set plans" "plan_resource a = plan_resource b"
  shows "a = b"
  using assms by (auto simp: distinct_map inj_on_def)

text \<open>A planned resource is accepted by the selection stage exactly when its pending
  transitions are distinct and accountable.\<close>

lemma transition_input_accepts:
  assumes plans: "resource_plans dec ops snap configs (live_of snap) = Some (Inr plans)" and plan: "plan \<in> set plans"
    and actual: "active_current_state snap configs (live_of snap) = Some actual"
  shows "(\<exists>input. resource_transition_input plan actual (live_of snap) (reserved snap actual plans mode pending) leader_standby = Some (Inr input)) \<longleftrightarrow>
    (\<forall>t \<in> set (reserved snap actual plans mode pending). op_resource t = plan_resource plan \<longrightarrow> accountable plans t) \<and>
    distinct (map (\<lambda>t. (op_partition t, op_instance t)) (filter (\<lambda>t. op_resource t = plan_resource plan) (reserved snap actual plans mode pending)))"
proof -
  let ?res = "reserved snap actual plans mode pending" and ?ideal = "plan_ideal plan"
  have wf: "ideal_wf ?ideal" "\<not> bt_is_empty (preference_lists ?ideal)" and d: "distinct (map plan_resource plans)"
    using resource_plans_ok[OF plans] plan by auto
  obtain planning best candidates where
    n: "normalize_current (bt_get_or CurrentState_default actual (plan_resource plan)) ?ideal (live_of snap) leader_standby = Some planning" and
    b: "compute_semi_auto_best_possible_state ?ideal planning (live_of snap) leader_standby = Inr best" and
    c: "generate_transitions (plan_resource plan) planning best leader_standby = Some (Inr candidates)" and
    run: "resource_transition_input plan actual (live_of snap) ?res leader_standby =
       (case select_transitions (plan_resource plan) ?ideal planning (live_of snap) candidates
               (pending_for_resource (plan_resource plan) ?res) leader_standby of
          Inl e \<Rightarrow> Some (Inl (SelectionFailed e))
        | Inr selected \<Rightarrow> Some (Inr (planned_input plan planning best selected)))"
    using transition_input_run[OF wf] by metis
  have cands: "request_resource t = plan_resource plan \<and>
      known_partition ?ideal planning leader_standby (request_partition t) (request_source t) (request_target t)" if "t \<in> set candidates" for t
    using planned_candidates(1,3,4)[OF wf(1) n b c that]
    by (cases "preference_list ?ideal (request_partition t)") (simp_all add: known_partition_ls preferred_def)
  have known: "known_partition ?ideal planning leader_standby (op_partition t) (op_source t) (op_target t) \<longleftrightarrow> accountable plans t"
    if t: "t \<in> set ?res" "op_resource t = plan_resource plan" for t
  proof -
    have "accountable plans t \<longleftrightarrow> preference_list ?ideal (op_partition t) \<noteq> None \<or>
        next_state_toward leader_standby (op_source t) (State ''DROPPED'') = Some (op_target t)"
      using plan plan_unique[OF d _ plan] t(2) by (auto simp: accountable_def)
    moreover have "bt_contains (CurrentState_entries planning) (op_partition t)" if none: "preference_list ?ideal (op_partition t) = None"
    proof -
      have "\<exists>c. bt_get actual (op_resource t) = Some c \<and> bt_contains (CurrentState_entries c) (op_partition t)"
        by (rule reserved_plan[OF t(1)]) (use plan_unique[OF d _ plan] t(2) none in metis)
      then obtain c where c: "bt_get actual (plan_resource plan) = Some c" "bt_contains (CurrentState_entries c) (op_partition t)"
        using t(2) by auto
      obtain i s where i: "CurrentState_state c (op_partition t) i = Some s" using actual_partition_inhabited[OF actual c] by blast
      then have "bt_contains (live_of snap) i"
        using actual_state_admitted[OF actual, of "plan_resource plan" "op_partition t" i s] c(1) by (simp add: actual_state_def)
      then have "CurrentState_state planning (op_partition t) i = Some s"
        using normalize_current_Some[OF wf(1), of "bt_get_or CurrentState_default actual (plan_resource plan)" "live_of snap" leader_standby] n i c(1)
        by (auto simp: planned_state_def bt_get_or_def)
      then show ?thesis by (auto simp: CurrentState_state_def CurrentState_entries_def ReplicaStates_get_def bt_contains_def split: option.splits)
    qed
    ultimately show ?thesis by (auto simp: known_partition_ls)
  qed
  have "(\<exists>input. resource_transition_input plan actual (live_of snap) ?res leader_standby = Some (Inr input)) \<longleftrightarrow>
      (\<exists>selected. select_transitions (plan_resource plan) ?ideal planning (live_of snap) candidates
        (pending_for_resource (plan_resource plan) ?res) leader_standby = Inr selected)"
    unfolding run by (auto split: sum.splits)
  also have "\<dots> \<longleftrightarrow> (\<forall>t \<in> set ?res. op_resource t = plan_resource plan \<longrightarrow> accountable plans t) \<and>
    distinct (map (\<lambda>t. (op_partition t, op_instance t)) (filter (\<lambda>t. op_resource t = plan_resource plan) ?res))"
    using cands known by (auto simp: select_Inr pending_for_resource_def comp_def)
  finally show ?thesis .
qed

lemma list_all2_ex: "(\<exists>ys. list_all2 P xs ys) \<longleftrightarrow> (\<forall>x \<in> set xs. \<exists>y. P x y)"
  by (induction xs) (auto simp: list_all2_Cons1)

text \<open>The inputs handed to the throttle, one per plan and in the same order.\<close>

definition planned_from ::
    "(ResourceId, CurrentState) btree \<Rightarrow> InstanceId bset \<Rightarrow> OperationalPendingTransition list \<Rightarrow> ResourcePlan \<Rightarrow> ResourceTransitionInput \<Rightarrow> bool" where
  "planned_from actual live operational plan input \<longleftrightarrow> (\<exists>planning best candidates selected.
     normalize_current (bt_get_or CurrentState_default actual (plan_resource plan)) (plan_ideal plan) live leader_standby = Some planning \<and>
     compute_semi_auto_best_possible_state (plan_ideal plan) planning live leader_standby = Inr best \<and>
     generate_transitions (plan_resource plan) planning best leader_standby = Some (Inr candidates) \<and>
     select_transitions (plan_resource plan) (plan_ideal plan) planning live candidates
       (pending_for_resource (plan_resource plan) operational) leader_standby = Inr selected \<and>
     input = planned_input plan planning best selected)"

lemma transition_input_planned:
  assumes "ideal_wf (plan_ideal plan)" and "\<not> bt_is_empty (preference_lists (plan_ideal plan))"
    and "resource_transition_input plan actual live operational leader_standby = Some (Inr input)"
  shows "planned_from actual live operational plan input"
proof -
  obtain planning best candidates where
    *: "normalize_current (bt_get_or CurrentState_default actual (plan_resource plan)) (plan_ideal plan) live leader_standby = Some planning"
      "compute_semi_auto_best_possible_state (plan_ideal plan) planning live leader_standby = Inr best"
      "generate_transitions (plan_resource plan) planning best leader_standby = Some (Inr candidates)" and
    run: "resource_transition_input plan actual live operational leader_standby =
       (case select_transitions (plan_resource plan) (plan_ideal plan) planning live candidates
               (pending_for_resource (plan_resource plan) operational) leader_standby of
          Inl e \<Rightarrow> Some (Inl (SelectionFailed e))
        | Inr selected \<Rightarrow> Some (Inr (planned_input plan planning best selected)))"
    using transition_input_run[OF assms(1,2)] by metis
  then show ?thesis using assms(3) unfolding planned_from_def by (auto split: sum.splits)
qed

lemma planned_valid:
  assumes "ideal_wf (plan_ideal plan)" and "planned_from actual live operational plan input"
  shows "input_resource input = plan_resource plan" and "valid_selected input leader_standby"
proof -
  obtain planning best candidates selected where
    n: "normalize_current (bt_get_or CurrentState_default actual (plan_resource plan)) (plan_ideal plan) live leader_standby = Some planning" and
    b: "compute_semi_auto_best_possible_state (plan_ideal plan) planning live leader_standby = Inr best" and
    c: "generate_transitions (plan_resource plan) planning best leader_standby = Some (Inr candidates)" and
    sel: "select_transitions (plan_resource plan) (plan_ideal plan) planning live candidates
       (pending_for_resource (plan_resource plan) operational) leader_standby = Inr selected" and
    input: "input = planned_input plan planning best selected"
    using assms(2) unfolding planned_from_def by blast
  have "set selected \<subseteq> set candidates" using select_subset[OF sel] by (metis set_mset_mono set_mset_mset)
  from planned_selected_valid[OF assms(1) n b c this] show "valid_selected input leader_standby" by (simp add: input)
  show "input_resource input = plan_resource plan" by (simp add: input planned_input_def)
qed

lemma planned_inputs:
  assumes plans: "resource_plans dec ops snap configs live = Some (Inr plans)"
    and inputs: "map_run (\<lambda>plan. resource_transition_input plan actual live operational leader_standby) plans = Some (Inr inputs)"
  shows "list_all2 (\<lambda>plan input. planned_from actual live operational plan input \<and>
    input_resource input = plan_resource plan \<and> valid_selected input leader_standby) plans inputs"
proof (rule list.rel_mono_strong)
  show "list_all2 (\<lambda>plan input. resource_transition_input plan actual live operational leader_standby = Some (Inr input)) plans inputs"
    using inputs by (simp add: map_run_Inr)
  fix plan input assume "plan \<in> set plans" "resource_transition_input plan actual live operational leader_standby = Some (Inr input)"
  then show "planned_from actual live operational plan input \<and>
    input_resource input = plan_resource plan \<and> valid_selected input leader_standby"
    using resource_plans_ok(2)[OF plans] transition_input_planned planned_valid by meson
qed

lemma planned_inputs_set:
  assumes "list_all2 (\<lambda>plan input. planned_from actual live operational plan input \<and>
    input_resource input = plan_resource plan \<and> valid_selected input leader_standby) plans inputs"
  shows "map input_resource inputs = map plan_resource plans" and "\<forall>input \<in> set inputs. valid_selected input leader_standby"
  using assms by (induction rule: list_all2_induct) auto

lemma outputs_accepts:
  assumes configs: "instance_configs dec snap = Inr configs" and actual: "active_current_state snap configs (live_of snap) = Some actual"
    and plans: "resource_plans dec ops snap configs (live_of snap) = Some (Inr plans)"
    and limits: "(if mode = Startup then Inr [] else throttles dec snap) = Inr limits"
  shows "(\<exists>out. compute_outputs_with_pending_policy dec ops snap pending mode = Some (Inr out)) \<longleftrightarrow>
    distinct (map (\<lambda>t. (op_resource t, op_partition t, op_instance t)) (reserved snap actual plans mode pending)) \<and>
    (\<forall>t \<in> set (reserved snap actual plans mode pending). accountable plans t)"
    (is "?lhs \<longleftrightarrow> ?distinct \<and> ?accountable")
proof -
  let ?res = "reserved snap actual plans mode pending" and ?live = "live_of snap"
  let ?run = "\<lambda>plan. resource_transition_input plan actual ?live ?res leader_standby"
  have res: "op_resource ` set ?res \<subseteq> plan_resource ` set plans" using reserved_plan by (metis image_eqI image_subsetI)
  have throttle: "(\<exists>r. compute_intermediate_and_throttle inputs ?live ?res limits leader_standby = Inr r) \<longleftrightarrow> ?distinct"
    if run: "map_run ?run plans = Some (Inr inputs)" for inputs
    using planned_inputs_set[OF planned_inputs[OF plans run]] resource_plans_ok(1)[OF plans] res
    by (simp add: throttle_accepts_iff valid_throttle_input_def flip: set_map)
  have runs: "(\<exists>inputs. map_run ?run plans = Some (Inr inputs)) \<longleftrightarrow> (\<forall>plan \<in> set plans.
      (\<forall>t \<in> set ?res. op_resource t = plan_resource plan \<longrightarrow> accountable plans t) \<and>
      distinct (map (\<lambda>t. (op_partition t, op_instance t)) (filter (\<lambda>t. op_resource t = plan_resource plan) ?res)))"
    unfolding map_run_Inr list_all2_ex using transition_input_accepts[OF plans _ actual] by blast
  have parts: "distinct (map (\<lambda>t. (op_partition t, op_instance t)) (filter (\<lambda>t. op_resource t = r) ?res))" if ?distinct for r
    using that by (auto simp: distinct_map inj_on_def)
  have "?lhs \<longleftrightarrow> (\<exists>inputs. map_run ?run plans = Some (Inr inputs) \<and>
      (\<exists>r. compute_intermediate_and_throttle inputs ?live ?res limits leader_standby = Inr r))"
    using configs actual plans limits by (auto simp: outputs_Inr)
  also have "\<dots> \<longleftrightarrow> (\<exists>inputs. map_run ?run plans = Some (Inr inputs)) \<and> ?distinct" using throttle by blast
  also have "\<dots> \<longleftrightarrow> ?distinct \<and> ?accountable" unfolding runs using parts res by blast
  finally show ?thesis .
qed

section \<open>Promotions\<close>

lemma dispatch_by_resource:
  assumes plans: "resource_plans dec ops snap configs live = Some (Inr plans)"
    and inputs: "map_run (\<lambda>plan. resource_transition_input plan actual live operational leader_standby) plans = Some (Inr inputs)"
    and throttle: "compute_intermediate_and_throttle inputs live operational limits leader_standby = Inr result"
    and some: "filter (\<lambda>t. request_resource t = r \<and> Q t) (dispatchable_transitions result) \<noteq> []"
  shows "\<exists>plan \<in> set plans. \<exists>input. plan_resource plan = r \<and> planned_from actual live operational plan input \<and>
    length (filter (\<lambda>t. request_resource t = r \<and> Q t) (dispatchable_transitions result)) \<le>
    length (filter Q (input_selected_transitions input))"
proof -
  let ?D = "dispatchable_transitions result" and ?Q = "\<lambda>t. request_resource t = r \<and> Q t"
  note l = planned_inputs[OF plans inputs]
  note res = planned_inputs_set(1)[OF l]
  have sub: "length (filter ?Q ?D) \<le> length (filter ?Q (concat (map input_selected_transitions inputs)))"
    using size_mset_mono[OF multiset_filter_mono[OF dispatch_subset[OF throttle], of ?Q]] by (simp flip: mset_filter)
  have own: "request_resource t = input_resource input" if "input \<in> set inputs" "t \<in> set (input_selected_transitions input)" for input t
    using planned_inputs_set(2)[OF l] that by (auto simp: valid_selected_def)
  have d: "distinct (map input_resource inputs)" using res resource_plans_ok(1)[OF plans] by simp
  have "filter ?Q (concat (map input_selected_transitions inputs)) \<noteq> []" using some sub by (metis le_zero_eq length_0_conv)
  then obtain t input where t: "input \<in> set inputs" "t \<in> set (input_selected_transitions input)" "?Q t"
    by (auto simp: filter_empty_conv)
  then have r: "input_resource input = r" using own by auto
  have "filter ?Q (concat (map input_selected_transitions xs)) =
      (if input \<in> set xs then filter Q (input_selected_transitions input) else [])"
    if "set xs \<subseteq> set inputs" "distinct (map input_resource xs)" for xs
    using that
  proof (induction xs)
    case (Cons x xs)
    show ?case
    proof (cases "x = input")
      case True
      have "filter ?Q (input_selected_transitions x) = filter Q (input_selected_transitions x)"
        using own[of x] Cons.prems r True by (intro filter_cong) auto
      moreover have "input \<notin> set xs" using Cons.prems True by auto
      ultimately show ?thesis using Cons True by auto
    next
      case False
      have "x \<in> set inputs" using Cons.prems by simp
      then have "input_resource x \<noteq> r" using d t(1) r False by (auto simp: distinct_map inj_on_def)
      then have "filter ?Q (input_selected_transitions x) = []" using own[of x] \<open>x \<in> set inputs\<close> by (auto simp: filter_empty_conv)
      then show ?thesis using Cons False by auto
    qed
  qed simp
  from this[of inputs] t(1) d have "filter ?Q (concat (map input_selected_transitions inputs)) = filter Q (input_selected_transitions input)" by simp
  moreover have "\<exists>plan \<in> set plans. planned_from actual live operational plan input \<and> input_resource input = plan_resource plan"
    using l t(1) by (induction rule: list_all2_induct) auto
  ultimately show ?thesis using sub r by auto
qed

text \<open>New promotions of a partition: at most one, and none while a live replica leads or a
  pending transition of the partition enters or leaves leadership.\<close>

lemma dispatched_promotions:
  fixes r :: ResourceId and p :: PartitionId
  assumes plans: "resource_plans dec ops snap configs live = Some (Inr plans)"
    and inputs: "map_run (\<lambda>plan. resource_transition_input plan actual live operational leader_standby) plans = Some (Inr inputs)"
    and throttle: "compute_intermediate_and_throttle inputs live operational limits leader_standby = Inr result"
  defines "P \<equiv> \<lambda>t. request_resource t = r \<and> request_partition t = p \<and> request_target t = State ''LEADER''"
  shows "length (filter P (dispatchable_transitions result)) \<le> 1"
    and "t \<in> set operational \<Longrightarrow> op_resource t = r \<Longrightarrow> op_partition t = p \<Longrightarrow> op_target t = State ''LEADER'' \<Longrightarrow>
      filter P (dispatchable_transitions result) = []"
    and "actual_state actual r p i = Some (State ''LEADER'') \<Longrightarrow> bt_contains live i \<Longrightarrow> filter P (dispatchable_transitions result) = []"
proof -
  let ?D = "filter P (dispatchable_transitions result)"
  have bound: "\<exists>planning. (\<forall>i s. actual_state actual r p i = Some s \<longrightarrow> bt_contains live i \<longrightarrow> CurrentState_state planning p i = Some s) \<and>
      length ?D \<le> 1 - occupancy planning live leader_standby (pending_for_resource r operational) p (State ''LEADER'')" if "?D \<noteq> []"
  proof -
    from dispatch_by_resource[OF plans inputs throttle, of r "\<lambda>t. request_partition t = p \<and> request_target t = State ''LEADER''"] that
    obtain plan input where plan: "plan \<in> set plans" "plan_resource plan = r" "planned_from actual live operational plan input"
      "length ?D \<le> length (filter (\<lambda>t. request_partition t = p \<and> request_target t = State ''LEADER'') (input_selected_transitions input))"
      by (auto simp: P_def)
    from plan(3) obtain planning best candidates selected where
      n: "normalize_current (bt_get_or CurrentState_default actual r) (plan_ideal plan) live leader_standby = Some planning" and
      sel: "select_transitions r (plan_ideal plan) planning live candidates (pending_for_resource r operational) leader_standby = Inr selected" and
      i: "input = planned_input plan planning best selected"
      unfolding planned_from_def plan(2) by blast
    have "ideal_wf (plan_ideal plan)" using resource_plans_ok(2)[OF plans] plan(1) by blast
    from normalize_current_Some[OF this, of "bt_get_or CurrentState_default actual r" live leader_standby] n
    have "CurrentState_state planning p i = Some s" if "actual_state actual r p i = Some s" "bt_contains live i" for i s
      using that by (auto simp: planned_state_def actual_state_def bt_get_or_def bind_eq_Some_conv)
    moreover have "length ?D \<le> 1 - occupancy planning live leader_standby (pending_for_resource r operational) p (State ''LEADER'')"
      using plan(4) selected_promotions[OF sel, of p] by (simp add: i planned_input_def)
    ultimately show ?thesis by blast
  qed
  show "length ?D \<le> 1" using bound by (cases "?D = []") auto
  show "?D = []" if t: "t \<in> set operational" "op_resource t = r" "op_partition t = p" "op_target t = State ''LEADER''"
  proof (rule ccontr)
    assume ne: "?D \<noteq> []"
    with bound obtain planning where
      "length ?D \<le> 1 - occupancy planning live leader_standby (pending_for_resource r operational) p (State ''LEADER'')" by blast
    moreover have "filter (\<lambda>t. pending_partition t = p \<and> pending_target t = State ''LEADER'') (pending_for_resource r operational) \<noteq> []"
      using t by (auto simp: pending_for_resource_def filter_empty_conv)
    then have "0 < length (filter (\<lambda>t. pending_partition t = p \<and> pending_target t = State ''LEADER'') (pending_for_resource r operational))" by simp
    moreover have "0 < length ?D" using ne by simp
    ultimately show False unfolding occupancy_def by linarith
  qed
  show "?D = []" if l: "actual_state actual r p i = Some (State ''LEADER'')" "bt_contains live i"
  proof (rule ccontr)
    assume ne: "?D \<noteq> []"
    with bound l obtain planning where "CurrentState_state planning p i = Some (State ''LEADER'')"
      and le: "length ?D \<le> 1 - occupancy planning live leader_standby (pending_for_resource r operational) p (State ''LEADER'')" by blast
    then have "filter (\<lambda>i. (case CurrentState_state planning p i of None \<Rightarrow> model_initial_state leader_standby | Some s' \<Rightarrow> s') = State ''LEADER'') (bt_keys live) \<noteq> []"
      using l(2) by (auto simp: filter_empty_conv bt_keys_contains intro!: bexI[of _ i])
    then have "0 < length (filter (\<lambda>i. (case CurrentState_state planning p i of None \<Rightarrow> model_initial_state leader_standby | Some s' \<Rightarrow> s') = State ''LEADER'') (bt_keys live))" by simp
    moreover have "0 < length ?D" using ne by simp
    ultimately show False using le unfolding occupancy_def by linarith
  qed
qed

section \<open>The published queue\<close>

definition for_live_session :: "CoordinationSnapshot \<Rightarrow> PublishedTransition \<Rightarrow> bool" where
  "for_live_session snap m \<longleftrightarrow> (\<exists>live. bt_get (participants_live snap) (InstanceId (pub_instance m)) = Some live \<and>
     pub_target_session m = SessionId_wire_value (live_session_id live))"

definition announces :: "TransitionRequest \<Rightarrow> PublishedTransition \<Rightarrow> bool" where
  "announces t m \<longleftrightarrow> pub_resource m = ResourceId_as_str (request_resource t) \<and> pub_partition m = PartitionId_as_str (request_partition t) \<and>
     pub_instance m = InstanceId_as_str (request_instance t) \<and> pub_from m = State_as_str (request_source t) \<and>
     pub_to m = State_as_str (request_target t)"

lemma publish_cases:
  obtains "publish_transition snap original (k, t) q = q"
  | m where "publish_transition snap original (k, t) q = q @ [m]" "announces t m" "for_live_session snap m"
      "replica_key m \<notin> replica_key ` set q"
proof (cases "bt_get (participants_live snap) (request_instance t)")
  case None
  then show ?thesis using that(1) by (simp add: publish_transition_def)
next
  case (Some live)
  define m where "m = \<lparr>pub_resource = ResourceId_as_str (request_resource t), pub_partition = PartitionId_as_str (request_partition t),
    pub_instance = InstanceId_as_str (request_instance t), pub_target_session = SessionId_wire_value (live_session_id live),
    pub_from = State_as_str (request_source t), pub_to = State_as_str (request_target t), pub_message_type = ''STATE_TRANSITION'',
    pub_message_id = (case find (\<lambda>existing. same_transition existing t (SessionId_wire_value (live_session_id live))) original of
        Some existing \<Rightarrow> pub_message_id existing
      | None \<Rightarrow> ''m10:'' @ show_int (revision_value (snapshot_revision snap)) @ '':'' @ show_nat k)\<rparr>"
  have p: "publish_transition snap original (k, t) q = (if \<not> list_ex (\<lambda>existing. same_replica existing m) q then q @ [m] else q)"
    by (simp add: publish_transition_def Some m_def Let_def)
  have "announces t m" "for_live_session snap m" by (simp_all add: announces_def for_live_session_def m_def Some)
  moreover have "\<not> list_ex (\<lambda>existing. same_replica existing m) q \<Longrightarrow> replica_key m \<notin> replica_key ` set q"
    by (auto simp: list_ex_iff same_replica_def replica_key_def)
  ultimately show ?thesis using p that by (cases "list_ex (\<lambda>existing. same_replica existing m) q") auto
qed

text \<open>Appending messages keeps what was queued, one message per replica, and adds only
  messages that announce a dispatched transition to the live session.\<close>

lemma publish_fold:
  "distinct (map replica_key q) \<Longrightarrow> \<exists>new ts. fold (publish_transition snap original) xs q = q @ new \<and>
     distinct (map replica_key (q @ new)) \<and> (\<forall>m \<in> set new. for_live_session snap m) \<and>
     mset ts \<subseteq># mset (map snd xs) \<and> list_all2 announces ts new"
proof (induction xs arbitrary: q)
  case Nil
  then show ?case by auto
next
  case (Cons x xs)
  obtain k t where x: "x = (k, t)" by force
  show ?case
  proof (rule publish_cases[of snap original k t q])
    assume same: "publish_transition snap original (k, t) q = q"
    from Cons.IH[OF Cons.prems] obtain new ts where
      "fold (publish_transition snap original) xs q = q @ new" "distinct (map replica_key (q @ new))"
      "\<forall>m \<in> set new. for_live_session snap m" "mset ts \<subseteq># mset (map snd xs)" "list_all2 announces ts new" by blast
    then show ?thesis using same by (intro exI[of _ new] exI[of _ ts]) (auto simp: x intro: subset_mset.order_trans)
  next
    fix m assume m: "publish_transition snap original (k, t) q = q @ [m]" "announces t m" "for_live_session snap m"
      "replica_key m \<notin> replica_key ` set q"
    then have "distinct (map replica_key (q @ [m]))" using Cons.prems by simp
    from Cons.IH[OF this] obtain new ts where
      "fold (publish_transition snap original) xs (q @ [m]) = (q @ [m]) @ new" "distinct (map replica_key ((q @ [m]) @ new))"
      "\<forall>m \<in> set new. for_live_session snap m" "mset ts \<subseteq># mset (map snd xs)" "list_all2 announces ts new" by blast
    then show ?thesis using m by (intro exI[of _ "m # new"] exI[of _ "t # ts"]) (auto simp: x)
  qed
qed

definition promotions :: "string \<Rightarrow> string \<Rightarrow> PublishedTransition list \<Rightarrow> nat" where
  "promotions r p q = length (filter (\<lambda>m. pub_resource m = r \<and> pub_partition m = p \<and> pub_to m = ''LEADER'') q)"

lemma promotions_mset:
  assumes "mset q = mset q'"
  shows "promotions r p q = promotions r p q'"
proof -
  let ?P = "\<lambda>m. pub_resource m = r \<and> pub_partition m = p \<and> pub_to m = ''LEADER''"
  have "size (mset (filter ?P q)) = size (mset (filter ?P q'))" by (simp only: mset_filter assms)
  then show ?thesis by (simp only: size_mset promotions_def)
qed

lemma promotions_announced:
  assumes "list_all2 announces ts new"
  shows "promotions r p new = length (filter (\<lambda>t. request_resource t = ResourceId r \<and> request_partition t = PartitionId p \<and>
    request_target t = State ''LEADER'') ts)"
  using assms by (induction rule: list_all2_induct)
    (auto simp: promotions_def announces_def ResourceId.expand PartitionId.expand State.expand)

lemma sorted_queue_id: "distinct (map replica_key q) \<Longrightarrow> dedup (sort_by le q) = sort_by le q"
  by (rule distinct_dedup_id) (simp add: distinct_map)

text \<open>What a cycle publishes: the retained messages and new ones that announce dispatched
  transitions to live sessions.\<close>

lemma outputs_queue:
  assumes out: "compute_outputs_with_pending_policy dec ops snap pending mode = Some (Inr (view, next))"
    and d: "distinct (map replica_key pending)"
  obtains configs actual plans inputs limits result new ts where
    "instance_configs dec snap = Inr configs" "active_current_state snap configs (live_of snap) = Some actual"
    "resource_plans dec ops snap configs (live_of snap) = Some (Inr plans)"
    "map_run (\<lambda>plan. resource_transition_input plan actual (live_of snap) (reserved snap actual plans mode pending) leader_standby) plans = Some (Inr inputs)"
    "compute_intermediate_and_throttle inputs (live_of snap) (reserved snap actual plans mode pending) limits leader_standby = Inr result"
    "view = ExternalView_from_current_states actual"
    "mset next = mset (retain_pending pending snap actual plans (mode = SessionReplacement) @ new)"
    "distinct (map replica_key next)" "\<forall>m \<in> set new. for_live_session snap m"
    "mset ts \<subseteq># mset (dispatchable_transitions result)" "list_all2 announces ts new"
proof -
  obtain configs actual plans inputs limits result where
    *: "instance_configs dec snap = Inr configs" "active_current_state snap configs (live_of snap) = Some actual"
      "resource_plans dec ops snap configs (live_of snap) = Some (Inr plans)"
      "map_run (\<lambda>plan. resource_transition_input plan actual (live_of snap) (reserved snap actual plans mode pending) leader_standby) plans = Some (Inr inputs)"
      "compute_intermediate_and_throttle inputs (live_of snap) (reserved snap actual plans mode pending) limits leader_standby = Inr result"
      "view = ExternalView_from_current_states actual" and
    nx: "next = dedup (sort_by (\<lambda>a b. pub_key a \<le> pub_key b) (fold (publish_transition snap pending)
          (List.enumerate 0 (dispatchable_transitions result)) (retain_pending pending snap actual plans (mode = SessionReplacement))))"
    using out unfolding outputs_Inr by blast
  let ?q = "retain_pending pending snap actual plans (mode = SessionReplacement)"
  have "distinct (map replica_key ?q)" unfolding retain_pending_def by (rule distinct_map_filter[OF d])
  from publish_fold[OF this, of snap pending "List.enumerate 0 (dispatchable_transitions result)"] obtain new ts where
    new: "fold (publish_transition snap pending) (List.enumerate 0 (dispatchable_transitions result)) ?q = ?q @ new"
      "distinct (map replica_key (?q @ new))" "\<forall>m \<in> set new. for_live_session snap m"
      "mset ts \<subseteq># mset (dispatchable_transitions result)" "list_all2 announces ts new"
    by auto
  have next': "next = sort_by (\<lambda>a b. pub_key a \<le> pub_key b) (?q @ new)" unfolding nx new(1) by (rule sorted_queue_id[OF new(2)])
  then have m: "mset next = mset (?q @ new)" by simp
  then have dn: "distinct (map replica_key next)" using new(2) by (metis mset_eq_imp_distinct_iff mset_map)
  show ?thesis by (rule that[OF * m dn new(3-5)])
qed

definition queue_ok :: "PublishedTransition list \<Rightarrow> bool" where
  "queue_ok q \<longleftrightarrow> distinct (map replica_key q) \<and> (\<forall>m \<in> set q. pub_from m \<noteq> [] \<and> pub_to m \<noteq> []) \<and> (\<forall>r p. promotions r p q \<le> 1)"

lemma retained_promotion_reserved:
  assumes plans: "distinct (map plan_resource plans)"
    and m: "m \<in> set (retain_pending pending snap actual plans (mode = SessionReplacement))" "pub_to m = ''LEADER''" "pub_from m \<noteq> []"
  shows "\<exists>t \<in> set (reserved snap actual plans mode pending). op_resource t = ResourceId (pub_resource m) \<and>
    op_partition t = PartitionId (pub_partition m) \<and> op_target t = State ''LEADER''"
proof -
  have r: "retains snap actual plans (mode = SessionReplacement) m" using m(1) by (simp add: retain_pending_def)
  show ?thesis
  proof (rule retainsD[OF r])
    fix live plan
    assume names: "pub_instance m \<noteq> []" "pub_resource m \<noteq> []" "pub_partition m \<noteq> []"
      and plan: "plan \<in> set plans" "plan_resource plan = ResourceId (pub_resource m)"
      and strict: "mode = SessionReplacement \<Longrightarrow> preferred (plan_ideal plan) (PartitionId (pub_partition m)) (InstanceId (pub_instance m)) \<noteq>
        (pub_to m = ''OFFLINE'' \<or> pub_to m = ''DROPPED'')"
    define t where "t = \<lparr>op_resource = ResourceId (pub_resource m), op_partition = PartitionId (pub_partition m),
      op_instance = InstanceId (pub_instance m), op_source = State (pub_from m), op_target = State (pub_to m)\<rparr>"
    have "to_operational_pending m = Some t" using names m(2,3) by (simp add: to_operational_Some t_def)
    moreover have "belongs_to_plan plans mode t"
      using strict plan m(2) by (cases "mode = SessionReplacement")
        (auto simp: belongs_to_plan_def list_ex_iff t_def preferred_def split: option.splits intro!: bexI[of _ plan])
    ultimately show ?thesis using m(1,2) by (intro bexI[of _ t]) (auto simp: operational_mem t_def)
  qed
qed

lemma retained_live:
  assumes "m \<in> set (retain_pending pending snap actual plans strict)"
  shows "m \<in> set pending" and "for_live_session snap m"
proof -
  have r: "retains snap actual plans strict m" and "m \<in> set pending" using assms by (auto simp: retain_pending_def)
  then show "m \<in> set pending" by simp
  show "for_live_session snap m" by (rule retainsD[OF r]) (auto simp: for_live_session_def)
qed

lemma announced:
  assumes "list_all2 announces ts new" and "mset ts \<subseteq># mset D" and "m \<in> set new"
  obtains t where "t \<in> set D" "announces t m"
proof -
  from assms(1,3) obtain t where "t \<in> set ts" "announces t m" by (metis list_all2_conv_all_nth in_set_conv_nth)
  then show ?thesis using that assms(2) by (metis mset_subset_eqD set_mset_mset)
qed

lemma dispatched_states:
  assumes plans: "resource_plans dec ops snap configs live = Some (Inr plans)"
    and inputs: "map_run (\<lambda>plan. resource_transition_input plan actual live operational leader_standby) plans = Some (Inr inputs)"
    and throttle: "compute_intermediate_and_throttle inputs live operational limits leader_standby = Inr result"
    and t: "t \<in> set (dispatchable_transitions result)"
  shows "State_as_str (request_source t) \<noteq> []" and "State_as_str (request_target t) \<noteq> []"
proof -
  have "filter (\<lambda>x. request_resource x = request_resource t \<and> x = t) (dispatchable_transitions result) \<noteq> []"
    using t by (auto simp: filter_empty_conv)
  from dispatch_by_resource[OF plans inputs throttle this] this obtain plan input where
    p: "plan \<in> set plans" "planned_from actual live operational plan input"
    and "filter (\<lambda>x. x = t) (input_selected_transitions input) \<noteq> []" by fastforce
  then have sel: "t \<in> set (input_selected_transitions input)" by (auto simp: filter_empty_conv)
  from p(2) obtain planning best candidates selected where
    n: "normalize_current (bt_get_or CurrentState_default actual (plan_resource plan)) (plan_ideal plan) live leader_standby = Some planning" and
    b: "compute_semi_auto_best_possible_state (plan_ideal plan) planning live leader_standby = Inr best" and
    c: "generate_transitions (plan_resource plan) planning best leader_standby = Some (Inr candidates)" and
    s: "select_transitions (plan_resource plan) (plan_ideal plan) planning live candidates
       (pending_for_resource (plan_resource plan) operational) leader_standby = Inr selected" and
    i: "input = planned_input plan planning best selected"
    unfolding planned_from_def by blast
  have "t \<in> set candidates" using sel select_subset[OF s] by (metis i planned_input_def mset_subset_eqD set_mset_mset ResourceTransitionInput.select_convs(7))
  from planned_candidates(5)[OF _ n b c this] resource_plans_ok(2)[OF plans] p(1)
  have "request_source t \<in> set (states_by_priority leader_standby) \<and> request_target t \<in> set (states_by_priority leader_standby)" by blast
  then show "State_as_str (request_source t) \<noteq> []" "State_as_str (request_target t) \<noteq> []"
    by (auto simp: leader_standby_states)
qed

lemma new_promotions_le:
  assumes "list_all2 announces ts new" and "mset ts \<subseteq># mset D"
  shows "promotions r p new \<le> length (filter (\<lambda>t. request_resource t = ResourceId r \<and> request_partition t = PartitionId p \<and>
    request_target t = State ''LEADER'') D)"
  using size_mset_mono[OF multiset_filter_mono[OF assms(2)]]
  by (simp add: promotions_announced[OF assms(1)] flip: mset_filter)

lemma promotions_append: "promotions r p (a @ b) = promotions r p a + promotions r p b"
  by (simp add: promotions_def)

lemma promotions_filter_le: "promotions r p (filter P q) \<le> promotions r p q"
  by (induction q) (auto simp: promotions_def)

section \<open>A small cluster\<close>

text \<open>Two live instances: \<open>a\<close> still serves partition \<open>old\<close>, \<open>b\<close> leads partition \<open>p\<close>, and the
  placement of the resource is now only \<open>p\<close> on \<open>a\<close>.\<close>

definition demo_decoders :: decoders where
  "demo_decoders =
     \<lparr>decode_instance_configs = (\<lambda>_. Inr [\<lparr>config_name = ''a'', config_zone = ''z''\<rparr>, \<lparr>config_name = ''b'', config_zone = ''z''\<rparr>]),
       decode_resource = (\<lambda>_. Inr \<lparr>record_name = ''db'', record_state_model = ''LeaderStandby'',
         record_placement = \<lparr>placement_kind = ''SEMI_AUTO'', placement_replicas = 1,
           placement_preference_lists = bt_collect [(''p'', [''a''])], placement_partitions = [], placement_topology = None\<rparr>\<rparr>),
       decode_throttles = (\<lambda>_. Inr []), decode_pending = (\<lambda>_. Inr [])\<rparr>"

definition demo_snapshot :: "string \<Rightarrow> CoordinationSnapshot" where
  "demo_snapshot state =
     \<lparr>snapshot_revision = Revision 7, authoritative_revision = Revision 7,
       snapshot_metadata = bt_collect
         [(INSTANCE_CONFIGS_KEY, \<lparr>entry_value = Some ''configs'', entry_revision = Revision 3\<rparr>),
          (RESOURCE_PREFIX @ ''db'', \<lparr>entry_value = Some ''db'', entry_revision = Revision 4\<rparr>)],
       snapshot_participants =
         \<lparr>snapshot_live_instances = bt_collect
            [(InstanceId ''a'', \<lparr>live_instance_id = InstanceId ''a'', live_session_id = SessionId 1\<rparr>),
             (InstanceId ''b'', \<lparr>live_instance_id = InstanceId ''b'', live_session_id = SessionId 2\<rparr>)],
          snapshot_active_current_state = bt_collect
            [(InstanceId ''a'', \<lparr>active_session_id = SessionId 1, active_resources = bt_collect
              [(ResourceId ''db'', CurrentState_build (put_state (PartitionId ''old'') (InstanceId ''a'') (State state) ReplicaStates_default))]\<rparr>),
             (InstanceId ''b'', \<lparr>active_session_id = SessionId 2, active_resources = bt_collect
              [(ResourceId ''db'', CurrentState_build (put_state (PartitionId ''p'') (InstanceId ''b'') (State ''LEADER'') ReplicaStates_default))]\<rparr>)]\<rparr>,
       controller_election = \<lparr>election_active = None, election_candidates = bt_empty\<rparr>\<rparr>"

definition demo_message :: "string \<Rightarrow> PublishedTransition" where
  "demo_message p = \<lparr>pub_resource = ''db'', pub_partition = p, pub_instance = ''a'', pub_target_session = 1,
     pub_from = ''STANDBY'', pub_to = ''LEADER'', pub_message_type = ''STATE_TRANSITION'', pub_message_id = ''m10:5:0''\<rparr>"

text \<open>With the promotion of \<open>p\<close> on \<open>a\<close> pending, the cycle keeps it and starts draining the
  replicas outside the placement.\<close>

lemma demo_run: "case compute_outputs_with_pending_policy demo_decoders demo_ops (demo_snapshot ''LEADER'') [demo_message ''p''] Normal of
  Some (Inr (view, next)) \<Rightarrow> ExternalView_state view (ResourceId ''db'') (PartitionId ''p'') (InstanceId ''b'') = Some (State ''LEADER'') \<and>
    set (filter (\<lambda>m. pub_to m = ''LEADER'') next) = {demo_message ''p''} \<and> map (\<lambda>m. (pub_partition m, pub_to m)) next = [(''old'', ''STANDBY''), (''p'', ''LEADER''), (''p'', ''STANDBY'')] | _ \<Rightarrow> False"
  by code_simp

lemma demo_cycle:
  obtains view "next" where
    "compute_outputs_with_pending_policy demo_decoders demo_ops (demo_snapshot ''LEADER'') [demo_message ''p''] Normal = Some (Inr (view, next))"
    "ExternalView_state view (ResourceId ''db'') (PartitionId ''p'') (InstanceId ''b'') = Some (State ''LEADER'')"
    "demo_message ''p'' \<in> set next" "length next = 3"
proof -
  obtain view "next" where out: "compute_outputs_with_pending_policy demo_decoders demo_ops (demo_snapshot ''LEADER'') [demo_message ''p''] Normal = Some (Inr (view, next))"
    and v: "ExternalView_state view (ResourceId ''db'') (PartitionId ''p'') (InstanceId ''b'') = Some (State ''LEADER'')"
    and m: "set (filter (\<lambda>m. pub_to m = ''LEADER'') next) = {demo_message ''p''}"
    and n: "map (\<lambda>m. (pub_partition m, pub_to m)) next = [(''old'', ''STANDBY''), (''p'', ''LEADER''), (''p'', ''STANDBY'')]"
    using demo_run by (auto split: option.splits sum.splits prod.splits)
  have "demo_message ''p'' \<in> set next" using m by (metis filter_is_subset insertI1 subsetD)
  moreover have "length next = 3" using arg_cong[OF n, of length] by simp
  ultimately show ?thesis using out v by (intro that)
qed

lemma demo_queue_ok: "queue_ok [demo_message p]"
  by (simp add: queue_ok_def promotions_def demo_message_def)

section \<open>Properties\<close>

text \<open>C1: The queue invariant. If the queue read back holds at most one message per replica and
  at most one promotion to leader per partition, then so does the queue the controller
  publishes, in every reconcile mode, and every published message targets the live session of
  its instance.\<close>

theorem queue_invariant:
  assumes ok: "queue_ok pending"
    and out: "compute_outputs_with_pending_policy dec ops snap pending mode = Some (Inr (view, next))"
  shows "queue_ok next \<and> (\<forall>m \<in> set next. for_live_session snap m)"
proof -
  have d: "distinct (map replica_key pending)" using ok by (simp add: queue_ok_def)
  show ?thesis
  proof (rule outputs_queue[OF out d])
    fix configs actual plans inputs limits result new ts
    let ?res = "reserved snap actual plans mode pending" and ?kept = "retain_pending pending snap actual plans (mode = SessionReplacement)"
    assume actual: "active_current_state snap configs (live_of snap) = Some actual"
      and plans: "resource_plans dec ops snap configs (live_of snap) = Some (Inr plans)"
      and inputs: "map_run (\<lambda>plan. resource_transition_input plan actual (live_of snap) ?res leader_standby) plans = Some (Inr inputs)"
      and throttle: "compute_intermediate_and_throttle inputs (live_of snap) ?res limits leader_standby = Inr result"
      and m: "mset next = mset (?kept @ new)" "distinct (map replica_key next)" "\<forall>m \<in> set new. for_live_session snap m"
      and ts: "mset ts \<subseteq># mset (dispatchable_transitions result)" "list_all2 announces ts new"
    have set: "set next = set ?kept \<union> set new" using m(1) by (metis set_append set_mset_mset)
    have live: "\<forall>m \<in> set next. for_live_session snap m" using set m(3) retained_live by blast
    have states: "pub_from x \<noteq> [] \<and> pub_to x \<noteq> []" if "x \<in> set next" for x
    proof (cases "x \<in> set ?kept")
      case True
      then show ?thesis using retained_live(1) ok by (auto simp: queue_ok_def)
    next
      case False
      with that set obtain t where "t \<in> set (dispatchable_transitions result)" "announces t x"
        using announced[OF ts(2,1)] by blast
      then show ?thesis using dispatched_states[OF plans inputs throttle] by (auto simp: announces_def)
    qed
    have "promotions r p next \<le> 1" for r p
    proof (cases "promotions r p ?kept = 0")
      case True
      then show ?thesis
        using new_promotions_le[OF ts(2,1), of r p] dispatched_promotions(1)[OF plans inputs throttle, of "ResourceId r" "PartitionId p"]
        by (simp add: promotions_mset[OF m(1)] promotions_append)
    next
      case False
      then obtain x where x: "x \<in> set ?kept" "pub_resource x = r" "pub_partition x = p" "pub_to x = ''LEADER''"
        by (auto simp: promotions_def filter_empty_conv)
      then have "pub_from x \<noteq> []" using retained_live(1) ok by (auto simp: queue_ok_def)
      from retained_promotion_reserved[OF resource_plans_ok(1)[OF plans] x(1,4) this] x obtain t where
        "t \<in> set ?res" "op_resource t = ResourceId r" "op_partition t = PartitionId p" "op_target t = State ''LEADER''" by blast
      from dispatched_promotions(2)[OF plans inputs throttle this] have "promotions r p new = 0"
        using new_promotions_le[OF ts(2,1), of r p] by simp
      moreover have "promotions r p ?kept \<le> 1"
        using promotions_filter_le[of r p _ pending] ok by (metis retain_pending_def queue_ok_def order_trans)
      ultimately show ?thesis by (simp add: promotions_mset[OF m(1)] promotions_append)
    qed
    then show ?thesis using m(2) states live by (simp add: queue_ok_def)
  qed
qed

theorem queue_invariant_witness:
  "\<exists>view next. compute_outputs_with_pending_policy demo_decoders demo_ops (demo_snapshot ''LEADER'') [demo_message ''p''] Normal = Some (Inr (view, next)) \<and>
     length next = 3 \<and> queue_ok next \<and> (\<forall>m \<in> set next. for_live_session (demo_snapshot ''LEADER'') m)"
proof -
  obtain view "next" where out: "compute_outputs_with_pending_policy demo_decoders demo_ops (demo_snapshot ''LEADER'') [demo_message ''p''] Normal = Some (Inr (view, next))"
    and n: "length next = 3" by (rule demo_cycle)
  from queue_invariant[OF demo_queue_ok out] have "queue_ok next" "\<forall>m \<in> set next. for_live_session (demo_snapshot ''LEADER'') m" by auto
  then show ?thesis using out n by blast
qed

text \<open>C2: No second leader. While the external view of a cycle shows a leader for a partition,
  the controller adds no promotion for that partition: a promotion in the published queue was
  already pending.\<close>

theorem no_second_leader:
  assumes d: "distinct (map replica_key pending)"
    and out: "compute_outputs_with_pending_policy dec ops snap pending mode = Some (Inr (view, next))"
    and m: "m \<in> set next" "pub_to m = ''LEADER''"
    and leader: "ExternalView_state view (ResourceId (pub_resource m)) (PartitionId (pub_partition m)) i = Some (State ''LEADER'')"
  shows "m \<in> set pending"
proof (rule outputs_queue[OF out d])
  fix configs actual plans inputs limits result new ts
  let ?res = "reserved snap actual plans mode pending" and ?kept = "retain_pending pending snap actual plans (mode = SessionReplacement)"
  assume actual: "active_current_state snap configs (live_of snap) = Some actual"
    and plans: "resource_plans dec ops snap configs (live_of snap) = Some (Inr plans)"
    and inputs: "map_run (\<lambda>plan. resource_transition_input plan actual (live_of snap) ?res leader_standby) plans = Some (Inr inputs)"
    and throttle: "compute_intermediate_and_throttle inputs (live_of snap) ?res limits leader_standby = Inr result"
    and view: "view = ExternalView_from_current_states actual" and mset: "mset next = mset (?kept @ new)"
    and ts: "mset ts \<subseteq># mset (dispatchable_transitions result)" "list_all2 announces ts new"
  have a: "actual_state actual (ResourceId (pub_resource m)) (PartitionId (pub_partition m)) i = Some (State ''LEADER'')"
    using leader by (simp add: view ExternalView_state_current actual_state_def split: option.splits)
  with actual_state_admitted[OF actual a] dispatched_promotions(3)[OF plans inputs throttle a]
  have none: "filter (\<lambda>t. request_resource t = ResourceId (pub_resource m) \<and> request_partition t = PartitionId (pub_partition m) \<and>
      request_target t = State ''LEADER'') (dispatchable_transitions result) = []" by blast
  have "m \<in> set ?kept \<or> m \<in> set new" using m(1) mset by (metis Un_iff set_append set_mset_mset)
  then show "m \<in> set pending"
  proof
    assume "m \<in> set new"
    then have "0 < promotions (pub_resource m) (pub_partition m) new"
      using m(2) by (auto simp: promotions_def filter_empty_conv)
    then show ?thesis using new_promotions_le[OF ts(2,1), of "pub_resource m" "pub_partition m"] none by simp
  qed (rule retained_live)
qed

theorem no_second_leader_witness:
  "\<exists>view next. compute_outputs_with_pending_policy demo_decoders demo_ops (demo_snapshot ''LEADER'') [demo_message ''p''] Normal = Some (Inr (view, next)) \<and>
     ExternalView_state view (ResourceId ''db'') (PartitionId ''p'') (InstanceId ''b'') = Some (State ''LEADER'') \<and>
     demo_message ''p'' \<in> set next \<and> demo_message ''p'' \<in> set [demo_message ''p'']"
proof -
  obtain view "next" where out: "compute_outputs_with_pending_policy demo_decoders demo_ops (demo_snapshot ''LEADER'') [demo_message ''p''] Normal = Some (Inr (view, next))"
    and v: "ExternalView_state view (ResourceId ''db'') (PartitionId ''p'') (InstanceId ''b'') = Some (State ''LEADER'')"
    and m: "demo_message ''p'' \<in> set next" by (rule demo_cycle)
  have "demo_message ''p'' \<in> set [demo_message ''p'']"
    by (rule no_second_leader[OF _ out m, where i = "InstanceId ''b''"]) (use v in \<open>simp_all add: demo_message_def\<close>)
  with out v m show ?thesis by blast
qed

text \<open>What the selection and throttling stages accept of a queue, written over the planning
  state the cycle computes.\<close>

lemma map_run_None: "map_run f xs = None \<Longrightarrow> \<exists>x \<in> set xs. f x = None"
  by (induction xs) (auto simp: bind_run_def split: option.splits sum.splits)

lemma bind_run_None: "bind_run r f = None \<longleftrightarrow> r = None \<or> (\<exists>x. r = Some (Inr x) \<and> f x = None)"
  by (auto simp: bind_run_def split: option.splits sum.splits)

lemma outputs_return:
  assumes "resource_plans dec ops snap configs (live_of snap) \<noteq> None" and "instance_configs dec snap = Inr configs"
  shows "compute_outputs_with_pending_policy dec ops snap pending mode \<noteq> None"
proof -
  obtain actual where actual: "active_current_state snap configs (live_of snap) = Some actual"
    using active_current_state_Some by blast
  obtain r where r: "resource_plans dec ops snap configs (live_of snap) = Some r" using assms(1) by blast
  show ?thesis
  proof (cases r)
    case (Inr plans)
    have "resource_transition_input plan actual (live_of snap) operational leader_standby \<noteq> None" if "plan \<in> set plans" for plan operational
    proof -
      have "ideal_wf (plan_ideal plan)" "\<not> bt_is_empty (preference_lists (plan_ideal plan))"
        using resource_plans_ok[OF r[unfolded Inr]] that by auto
      then show ?thesis
        by (rule transition_input_run[where actual = actual and live = "live_of snap"]) (auto split: sum.splits)
    qed
    then have "map_run (\<lambda>plan. resource_transition_input plan actual (live_of snap) operational leader_standby) plans \<noteq> None" for operational
      using map_run_None by blast
    then show ?thesis
      by (simp add: compute_outputs_with_pending_policy_def assms(2) actual r Inr Let_def bind_run_None)
  qed (simp add: compute_outputs_with_pending_policy_def assms(2) actual r Let_def)
qed

text \<open>C12: A planning cycle accepts its inputs exactly when every retained message is accountable.
  With decodable configurations, a well-formed queue and returning placement searches, the
  cycle neither panics nor diverges, the stages never reject each other's results, and the
  only failure left is a retained message for a partition that is no longer placed and whose
  transition is not a step toward \<open>DROPPED\<close>.\<close>

theorem planning_accepts:
  assumes configs: "instance_configs dec snap = Inr configs" and actual: "active_current_state snap configs (live_of snap) = Some actual"
    and plans: "resource_plans dec ops snap configs (live_of snap) = Some (Inr plans)"
    and limits: "mode = Startup \<or> throttles dec snap = Inr limits" and ok: "queue_ok pending"
  shows "compute_outputs_with_pending_policy dec ops snap pending mode \<noteq> None \<and>
    ((\<exists>out. compute_outputs_with_pending_policy dec ops snap pending mode = Some (Inr out)) \<longleftrightarrow>
     (\<forall>t \<in> set (reserved snap actual plans mode pending). accountable plans t))"
proof -
  have l: "(if mode = Startup then Inr [] else throttles dec snap) = Inr (if mode = Startup then [] else limits)" using limits by auto
  have "distinct (map replica_key (retain_pending pending snap actual plans (mode = SessionReplacement)))"
    unfolding retain_pending_def using ok by (intro distinct_map_filter) (simp add: queue_ok_def)
  from operational_distinct[OF this, of plans mode] show ?thesis
    using outputs_accepts[OF configs actual plans l, of pending] outputs_return[of dec ops snap configs pending mode, OF _ configs] plans by simp
qed

lemma demo_reads:
  "instance_configs demo_decoders (demo_snapshot s) =
     Inr (bt_collect [(InstanceId ''a'', ''z''), (InstanceId ''b'', ''z'')])"
  "throttles demo_decoders (demo_snapshot s) = Inr []"
  by code_simp+

lemma demo_plans: "case resource_plans demo_decoders demo_ops (demo_snapshot s)
    (bt_collect [(InstanceId ''a'', ''z''), (InstanceId ''b'', ''z'')]) (live_of (demo_snapshot s)) of
  Some (Inr plans) \<Rightarrow> list_all (\<lambda>plan. plan_resource plan = ResourceId ''db'' \<and>
    preference_list (plan_ideal plan) (PartitionId ''old'') = None) plans \<and> plans \<noteq> [] | _ \<Rightarrow> False"
  by code_simp

lemma demo_planned:
  obtains configs actual plans where "instance_configs demo_decoders (demo_snapshot s) = Inr configs"
    "active_current_state (demo_snapshot s) configs (live_of (demo_snapshot s)) = Some actual"
    "resource_plans demo_decoders demo_ops (demo_snapshot s) configs (live_of (demo_snapshot s)) = Some (Inr plans)"
    "\<exists>plan \<in> set plans. plan_resource plan = ResourceId ''db'' \<and> preference_list (plan_ideal plan) (PartitionId ''old'') = None"
proof -
  let ?configs = "bt_collect [(InstanceId ''a'', ''z''), (InstanceId ''b'', ''z'')]"
  obtain actual where "active_current_state (demo_snapshot s) ?configs (live_of (demo_snapshot s)) = Some actual"
    using active_current_state_Some by blast
  moreover obtain plans where "resource_plans demo_decoders demo_ops (demo_snapshot s) ?configs (live_of (demo_snapshot s)) = Some (Inr plans)"
    "list_all (\<lambda>plan. plan_resource plan = ResourceId ''db'' \<and> preference_list (plan_ideal plan) (PartitionId ''old'') = None) plans" "plans \<noteq> []"
    using demo_plans[of s] by (auto split: option.splits sum.splits)
  moreover from this(2,3) have "\<exists>plan \<in> set plans. plan_resource plan = ResourceId ''db'' \<and> preference_list (plan_ideal plan) (PartitionId ''old'') = None"
    by (cases plans) auto
  ultimately show ?thesis using that[OF demo_reads(1)] by blast
qed

theorem planning_accepts_witness:
  "\<exists>configs actual plans. instance_configs demo_decoders (demo_snapshot ''LEADER'') = Inr configs \<and>
     active_current_state (demo_snapshot ''LEADER'') configs (live_of (demo_snapshot ''LEADER'')) = Some actual \<and>
     resource_plans demo_decoders demo_ops (demo_snapshot ''LEADER'') configs (live_of (demo_snapshot ''LEADER'')) = Some (Inr plans) \<and>
     (\<forall>t \<in> set (reserved (demo_snapshot ''LEADER'') actual plans Normal [demo_message ''p'']). accountable plans t)"
proof -
  obtain configs actual plans where *: "instance_configs demo_decoders (demo_snapshot ''LEADER'') = Inr configs"
    "active_current_state (demo_snapshot ''LEADER'') configs (live_of (demo_snapshot ''LEADER'')) = Some actual"
    "resource_plans demo_decoders demo_ops (demo_snapshot ''LEADER'') configs (live_of (demo_snapshot ''LEADER'')) = Some (Inr plans)"
    by (rule demo_planned)
  have "\<exists>out. compute_outputs_with_pending_policy demo_decoders demo_ops (demo_snapshot ''LEADER'') [demo_message ''p''] Normal = Some (Inr out)"
    by (rule demo_cycle) blast
  with planning_accepts[OF * disjI2[OF demo_reads(2)] demo_queue_ok] * show ?thesis by blast
qed

text \<open>C13: A partition removed from a placement while a promotion for it is pending stops planning:
  as long as the replica still reports \<open>STANDBY\<close>, the message is retained, the selection
  stage does not know the partition, and every normal or startup cycle ends in an error.\<close>

theorem removed_partition_stops_planning:
  assumes configs: "instance_configs dec snap = Inr configs" and actual: "active_current_state snap configs (live_of snap) = Some actual"
    and plans: "resource_plans dec ops snap configs (live_of snap) = Some (Inr plans)"
    and limits: "mode = Startup \<or> throttles dec snap = Inr limits" and mode: "mode \<noteq> SessionReplacement"
    and m: "m \<in> set pending" "for_live_session snap m" "pub_from m = ''STANDBY''" "pub_to m = ''LEADER''"
      "pub_resource m \<noteq> []" "pub_partition m \<noteq> []" "pub_instance m \<noteq> []"
    and plan: "plan \<in> set plans" "plan_resource plan = ResourceId (pub_resource m)"
    and removed: "preference_list (plan_ideal plan) (PartitionId (pub_partition m)) = None"
    and standby: "actual_state actual (ResourceId (pub_resource m)) (PartitionId (pub_partition m)) (InstanceId (pub_instance m)) = Some (State ''STANDBY'')"
  shows "\<exists>e. compute_outputs_with_pending_policy dec ops snap pending mode = Some (Inl e)"
proof -
  let ?t = "\<lparr>op_resource = ResourceId (pub_resource m), op_partition = PartitionId (pub_partition m),
    op_instance = InstanceId (pub_instance m), op_source = State ''STANDBY'', op_target = State ''LEADER''\<rparr>"
  have l: "(if mode = Startup then Inr [] else throttles dec snap) = Inr (if mode = Startup then [] else limits)" using limits by auto
  obtain c where c: "bt_get actual (ResourceId (pub_resource m)) = Some c"
      "CurrentState_state c (PartitionId (pub_partition m)) (InstanceId (pub_instance m)) = Some (State ''STANDBY'')"
    using standby by (auto simp: actual_state_def bind_eq_Some_conv)
  then have e: "bt_contains (CurrentState_entries c) (PartitionId (pub_partition m))"
    by (auto simp: CurrentState_state_def CurrentState_entries_def ReplicaStates_get_def bt_contains_def split: option.splits)
  obtain x where f: "find (\<lambda>x. ResourceId_as_str (plan_resource x) = pub_resource m) plans = Some x"
    using plan by (cases "find (\<lambda>x. ResourceId_as_str (plan_resource x) = pub_resource m) plans") (auto simp: find_None_iff)
  obtain live where live: "bt_get (participants_live snap) (InstanceId (pub_instance m)) = Some live"
      "SessionId_wire_value (live_session_id live) = pub_target_session m"
    using m(2) by (auto simp: for_live_session_def)
  have new: "InstanceId_new (pub_instance m) = Inr (InstanceId (pub_instance m))"
    "ResourceId_new (pub_resource m) = Inr (ResourceId (pub_resource m))"
    "PartitionId_new (pub_partition m) = Inr (PartitionId (pub_partition m))" using m(5-7) by simp_all
  have "retains snap actual plans False m"
    unfolding retains_def Let_def new by (simp add: c m(3) e f live)
  then have "?t \<in> set (reserved snap actual plans mode pending)"
    using m mode by (auto simp: operational_mem belongs_to_plan_def retain_pending_def to_operational_Some intro!: bexI[of _ m])
  moreover have "\<not> accountable plans ?t"
  proof
    assume "accountable plans ?t"
    then obtain x where x: "x \<in> set plans" "plan_resource x = ResourceId (pub_resource m)"
      "preference_list (plan_ideal x) (PartitionId (pub_partition m)) \<noteq> None \<or>
       next_state_toward leader_standby (State ''STANDBY'') (State ''DROPPED'') = Some (State ''LEADER'')"
      unfolding accountable_def by auto
    have "x = plan" using plan_unique[OF resource_plans_ok(1)[OF plans] x(1) plan(1)] x(2) plan(2) by simp
    then show False using x(3) removed by simp
  qed
  ultimately have no: "\<nexists>out. compute_outputs_with_pending_policy dec ops snap pending mode = Some (Inr out)"
    unfolding outputs_accepts[OF configs actual plans l] by blast
  obtain r where r: "compute_outputs_with_pending_policy dec ops snap pending mode = Some r"
    using outputs_return[of dec ops snap configs pending mode, OF _ configs] plans by auto
  show ?thesis using no unfolding r by (cases r) blast+
qed

lemma demo_standby:
  assumes "active_current_state (demo_snapshot s) (bt_collect [(InstanceId ''a'', ''z''), (InstanceId ''b'', ''z'')]) (live_of (demo_snapshot s)) = Some actual"
  shows "actual_state actual (ResourceId ''db'') (PartitionId ''old'') (InstanceId ''a'') = Some (State s)"
proof -
  have "map_option (\<lambda>actual. actual_state actual (ResourceId ''db'') (PartitionId ''old'') (InstanceId ''a''))
     (active_current_state (demo_snapshot s) (bt_collect [(InstanceId ''a'', ''z''), (InstanceId ''b'', ''z'')]) (live_of (demo_snapshot s))) = Some (Some (State s))"
    by code_simp
  then show ?thesis by (simp add: assms)
qed

theorem removed_partition_stops_planning_witness:
  "\<exists>e. compute_outputs_with_pending_policy demo_decoders demo_ops (demo_snapshot ''STANDBY'') [demo_message ''old''] Normal = Some (Inl e)"
proof (rule demo_planned[of "''STANDBY''"])
  fix configs actual plans
  assume *: "instance_configs demo_decoders (demo_snapshot ''STANDBY'') = Inr configs"
    "active_current_state (demo_snapshot ''STANDBY'') configs (live_of (demo_snapshot ''STANDBY'')) = Some actual"
    "resource_plans demo_decoders demo_ops (demo_snapshot ''STANDBY'') configs (live_of (demo_snapshot ''STANDBY'')) = Some (Inr plans)"
    and "\<exists>plan \<in> set plans. plan_resource plan = ResourceId ''db'' \<and> preference_list (plan_ideal plan) (PartitionId ''old'') = None"
  then obtain plan where plan: "plan \<in> set plans" "plan_resource plan = ResourceId ''db''" "preference_list (plan_ideal plan) (PartitionId ''old'') = None" by blast
  have st: "actual_state actual (ResourceId ''db'') (PartitionId ''old'') (InstanceId ''a'') = Some (State ''STANDBY'')"
    using *(1,2) demo_standby by (simp add: demo_reads(1))
  have "for_live_session (demo_snapshot ''STANDBY'') (demo_message ''old'')"
    by (simp add: for_live_session_def demo_message_def demo_snapshot_def bt_get_collect SessionId_wire_value_def)
  then show ?thesis
    using removed_partition_stops_planning[OF * disjI2[OF demo_reads(2)] _ _ _ _ _ _ _ _ plan(1), of Normal "demo_message ''old''" "[demo_message ''old'']"]
      plan st by (simp add: demo_message_def)
qed

end
