(* ===== verification/Coordination_Laws.thy ===== *)
theory Coordination_Laws
  imports Coordination
begin

text \<open>
  Laws of the key layout: segments and numbers survive the round trip through the store, keys
  of different records are different, and a namespace snapshot shows exactly the records of
  live sessions.
\<close>

section \<open>Segments\<close>

lemma hex_roundtrip: "d < 16 \<Longrightarrow> hex_value (hex_digit d) = Some d"
  by (auto simp: hex_value_def hex_digit_def of_char_of Let_def)

lemma hex_digit_code: "d < 16 \<Longrightarrow> of_char (hex_digit d) < (128 :: nat) \<and> hex_digit d \<noteq> CHR ''+'' \<and> hex_digit d \<noteq> CHR ''/''"
  by (auto simp: hex_digit_def of_char_of take_bit_eq_mod split: if_splits
      dest!: arg_cong[of _ _ "of_char :: char \<Rightarrow> nat"])

lemma nibbles: "of_char c div 16 < (16 :: nat)" "of_char c mod 16 < (16 :: nat)"
proof -
  have "of_char c < (256 :: nat)" by simp
  then show "of_char c div 16 < (16 :: nat)" by linarith
  show "of_char c mod 16 < (16 :: nat)" by simp
qed

lemma radix_roundtrip:
  "byte_from_radix_16 (hex_digit (of_char c div 16)) (hex_digit (of_char c mod 16)) = Some c"
  using nibbles[of c] hex_digit_code[OF nibbles(1), of c] by (simp add: byte_from_radix_16_def hex_roundtrip)

lemma ascii_pair: "of_char a < (128 :: nat) \<Longrightarrow> of_char b < (128 :: nat) \<Longrightarrow> valid_utf8 [a, b]"
  by (simp add: in_range_def)

lemma decode_pairs_encode: "decode_pairs (encode_segment s) = Inr s"
proof (induction s)
  case (Cons c s)
  have "valid_utf8 [hex_digit (of_char c div 16), hex_digit (of_char c mod 16)]"
    using hex_digit_code[OF nibbles(1)] hex_digit_code[OF nibbles(2)] by (intro ascii_pair) blast+
  then show ?case using Cons by (simp add: encode_segment_def radix_roundtrip del: valid_utf8.simps)
qed (simp add: encode_segment_def)

lemma length_encode_segment: "length (encode_segment s) = 2 * length s"
  by (induction s) (simp_all add: encode_segment_def)

lemma decode_encode: "decode_segment (encode_segment s) = (if valid_utf8 s then Inr s else Inl InvalidKey)"
  by (simp add: decode_segment_def length_encode_segment decode_pairs_encode)

lemma encode_segment_inject [simp]: "encode_segment s = encode_segment t \<longleftrightarrow> s = t"
  by (metis decode_pairs_encode sum.inject(2))

lemma encode_segment_chars: "c \<in> set (encode_segment s) \<Longrightarrow> of_char c < (128 :: nat) \<and> c \<noteq> CHR ''/''"
  using hex_digit_code[OF nibbles(1)] hex_digit_code[OF nibbles(2)] by (auto simp: encode_segment_def)

lemma valid_utf8_ascii: "(\<And>c. c \<in> set s \<Longrightarrow> of_char c < (128 :: nat)) \<Longrightarrow> valid_utf8 s"
proof (induction s)
  case (Cons c s)
  then have "in_range 0 127 c" by (fastforce simp: in_range_def)
  then show ?case using Cons by simp
qed simp

lemma valid_utf8_ascii_append: "(\<And>c. c \<in> set s \<Longrightarrow> of_char c < (128 :: nat)) \<Longrightarrow> valid_utf8 (s @ t) = valid_utf8 t"
proof (induction s)
  case (Cons c s)
  then have "in_range 0 127 c" by (fastforce simp: in_range_def)
  then show ?case using Cons by simp
qed simp

section \<open>Numbers\<close>

lemma digit_chars: "c \<in> set (show_nat n) \<Longrightarrow> \<exists>d < 10. c = char_of_digit d"
proof (induction n rule: show_nat.induct)
  case (1 n)
  then show ?case by (subst (asm) (2) show_nat.simps) (auto split: if_splits intro: exI[of _ "n mod 10"])
qed

lemma show_nat_chars: "c \<in> set (show_nat n) \<Longrightarrow> of_char c < (128 :: nat) \<and> c \<noteq> CHR ''/'' \<and> c \<noteq> CHR ''+'' \<and> c \<noteq> CHR ''-''"
  by (auto dest!: digit_chars simp: char_of_digit_def of_char_of dest!: arg_cong[of _ _ "of_char :: char \<Rightarrow> nat"])

lemma parse_i64_show:
  assumes "0 \<le> v" "v < 2 ^ 63"
  shows "parse_i64 (show_int v) = Some v"
proof -
  obtain c cs where s: "show_nat (nat v) = c # cs" by (cases "show_nat (nat v)") auto
  then have "c \<noteq> CHR ''+''" "c \<noteq> CHR ''-''" using show_nat_chars[of c "nat v"] by auto
  then show ?thesis using assms s parse_digits_show[of "nat v"] by (simp add: parse_i64_def show_int_def)
qed

lemma parse_session_text: "0 < SessionId_sequence s \<Longrightarrow> parse_session (session_text s) = Inr s"
proof -
  assume pos: "0 < SessionId_sequence s"
  have "unat (SessionId_sequence s) < 2 ^ 64" using unsigned_less[of "SessionId_sequence s", where ?'a = nat] by simp
  then have "parse_unsigned 64 (session_text s) = Some (unat (SessionId_sequence s))"
    unfolding session_text_def by (rule parse_unsigned_show)
  moreover have "valid_utf8 (session_text s)"
    unfolding session_text_def by (rule valid_utf8_ascii) (use show_nat_chars in blast)
  moreover have "unat (SessionId_sequence s) > 0" using pos by (simp add: unat_gt_0)
  ultimately show ?thesis by (cases s) (simp add: parse_session_def parse_sequence_def)
qed

lemma session_text_inject [simp]: "session_text s = session_text t \<longleftrightarrow> s = t"
  by (cases s; cases t) (simp add: session_text_def word_unat_eq_iff)

section \<open>Splitting\<close>

lemma split_on_ne [simp]: "split_on sep s \<noteq> []"
  by (cases s) (auto split: list.splits)

lemma split_on_plain: "sep \<notin> set s \<Longrightarrow> split_on sep s = [s]"
  by (induction s) auto

lemma split_on_append: "sep \<notin> set s \<Longrightarrow> split_on sep (s @ sep # rest) = s # split_on sep rest"
  by (induction s) auto

lemma join_split: "concat (map (\<lambda>p. sep # p) (split_on sep s)) = sep # s"
  by (induction s) (auto split: list.splits)

lemma split_inject: "split_on sep s = split_on sep t \<longleftrightarrow> s = t"
  by (metis join_split list.inject)

lemma strip_prefix_append [simp]: "strip_prefix pre (pre @ rest) = Some rest"
  by (simp add: strip_prefix_Some)

section \<open>Keys\<close>

lemma namespaced_inject [simp]: "namespaced_key b x = namespaced_key b y \<longleftrightarrow> x = y"
  by (simp add: namespaced_key_def)

text \<open>The slash-separated parts of every kind of key.\<close>

lemma live_parts: "split_on CHR ''/'' (''live/'' @ encode_segment i) = [''live'', encode_segment i]"
proof -
  have "CHR ''/'' \<notin> set (encode_segment i)" using encode_segment_chars by blast
  then show ?thesis by (simp add: split_on_plain)
qed

lemma current_state_parts:
  "split_on CHR ''/'' (''current-state/'' @ encode_segment i @ ''/'' @ session_text s @ ''/'' @ encode_segment r @ ''/'' @ encode_segment p) =
     [''current-state'', encode_segment i, session_text s, encode_segment r, encode_segment p]"
proof -
  have "CHR ''/'' \<notin> set (encode_segment x)" for x using encode_segment_chars by blast
  moreover have "CHR ''/'' \<notin> set (session_text s)" using show_nat_chars by (auto simp: session_text_def)
  ultimately show ?thesis by (simp add: split_on_append split_on_plain)
qed

lemma current_state_key_inject:
  "current_state_key b i s r p = current_state_key b i' s' r' p' \<longleftrightarrow> i = i' \<and> s = s' \<and> r = r' \<and> p = p'"
proof
  assume "current_state_key b i s r p = current_state_key b i' s' r' p'"
  then have "split_on CHR ''/'' (''current-state/'' @ encode_segment (InstanceId_as_str i) @ ''/'' @ session_text s @ ''/'' @
      encode_segment (ResourceId_as_str r) @ ''/'' @ encode_segment (PartitionId_as_str p)) =
    split_on CHR ''/'' (''current-state/'' @ encode_segment (InstanceId_as_str i') @ ''/'' @ session_text s' @ ''/'' @
      encode_segment (ResourceId_as_str r') @ ''/'' @ encode_segment (PartitionId_as_str p'))"
    unfolding current_state_key_def namespaced_inject by (rule arg_cong)
  then show "i = i' \<and> s = s' \<and> r = r' \<and> p = p'"
    unfolding current_state_parts by (simp add: InstanceId.expand ResourceId.expand PartitionId.expand)
qed simp

lemma live_key_inject [simp]: "live_key b i = live_key b j \<longleftrightarrow> i = j"
  by (auto simp: live_key_def InstanceId.expand)

lemma metadata_key_inject [simp]: "metadata_key b k = metadata_key b l \<longleftrightarrow> k = l"
  by (simp add: metadata_key_def)

section \<open>Participant snapshots\<close>

definition value_at :: "KeyValue list \<Rightarrow> string \<Rightarrow> string option" where
  "value_at kvs key = map_option kv_value (find (\<lambda>kv. kv_key kv = key) (rev kvs))"

lemma value_at_snoc: "value_at (kvs @ [kv]) key = (if kv_key kv = key then Some (kv_value kv) else value_at kvs key)"
  by (simp add: value_at_def)

text \<open>The keys the backend writes: live and current-state records carry encoded segments.\<close>

definition canonical_key :: "EtcdCoordination \<Rightarrow> string \<Rightarrow> bool" where
  "canonical_key b key \<longleftrightarrow> (\<forall>relative. strip_prefix (namespace_prefix b @ ''/'') key = Some relative \<longrightarrow>
     (case split_on CHR ''/'' relative of
        [a, i] \<Rightarrow> a = ''live'' \<longrightarrow> (\<exists>n. i = encode_segment n)
      | [a, i, s, r, p] \<Rightarrow> a = ''current-state'' \<longrightarrow>
          (\<exists>i' s' r' p'. i = encode_segment i' \<and> s = session_text s' \<and> r = encode_segment r' \<and> p = encode_segment p')
      | _ \<Rightarrow> True))"

definition recorded :: "state_records \<Rightarrow> InstanceId \<Rightarrow> SessionId \<Rightarrow> ResourceId \<Rightarrow> PartitionId \<Rightarrow> State option" where
  "recorded records i s r p = Option.bind (bt_get records (i, s)) (\<lambda>m. Option.bind (bt_get m r) (\<lambda>ps. bt_get ps p))"

lemma recorded_entry:
  "recorded (bt_entry bt_empty (bt_entry bt_empty (bt_insert p st) r) (i, s) records) i' s' r' p' =
     (if i' = i \<and> s' = s \<and> r' = r \<and> p' = p then Some st else recorded records i' s' r' p')"
  by (auto simp: recorded_def bt_get_or_def split: option.splits)

lemma live_key_parts: "key = live_key b i \<longleftrightarrow> (\<exists>rel. key = namespace_prefix b @ ''/'' @ rel \<and> split_on CHR ''/'' rel = [''live'', encode_segment (InstanceId_as_str i)])"
  unfolding live_key_def namespaced_key_def live_parts[symmetric] split_inject by simp

lemma state_key_parts: "key = current_state_key b i s r p \<longleftrightarrow> (\<exists>rel. key = namespace_prefix b @ ''/'' @ rel \<and>
    split_on CHR ''/'' rel = [''current-state'', encode_segment (InstanceId_as_str i), session_text s,
      encode_segment (ResourceId_as_str r), encode_segment (PartitionId_as_str p)])"
  unfolding current_state_key_def namespaced_key_def current_state_parts[symmetric] split_inject by simp

lemma parse_session_canonical: "parse_session (session_text s) = Inr s' \<Longrightarrow> s' = s"
proof (cases "0 < SessionId_sequence s")
  case False
  assume *: "parse_session (session_text s) = Inr s'"
  have "unat (SessionId_sequence s) = 0" using False by (simp add: word_gt_0)
  then have "session_text s = ''0''" by (simp add: session_text_def show_nat.simps char_of_digit_def) code_simp
  moreover have "parse_session ''0'' = Inl InvalidSession" by code_simp
  ultimately show ?thesis using * by simp
qed (simp add: parse_session_text)

lemma read_record_step:
  assumes "read_participant_record b kv (live, records) = Inr (live', records')" and "canonical_key b (kv_key kv)"
  shows "bt_get live' i = (if kv_key kv = live_key b i then ok (parse_session (kv_value kv)) else bt_get live i)"
    and "recorded records' i s r p = (if kv_key kv = current_state_key b i s r p then Some (State (kv_value kv)) else recorded records i s r p)"
proof -
  obtain relative where rel: "kv_key kv = namespace_prefix b @ ''/'' @ relative"
    using assms(1) by (auto simp: read_participant_record_def bind_result_Inr parse_relative_key_def ok_or_def strip_prefix_Some
        split: if_splits option.splits)
  let ?parts = "split_on CHR ''/'' relative"
  have rel': "strip_prefix (namespace_prefix b @ ''/'') (kv_key kv) = Some relative" by (simp add: rel strip_prefix_Some)
  have live_iff: "kv_key kv = live_key b i \<longleftrightarrow> ?parts = [''live'', encode_segment (InstanceId_as_str i)]" for i
    unfolding live_key_parts by (simp add: rel)
  have state_iff: "kv_key kv = current_state_key b i s r p \<longleftrightarrow> ?parts = [''current-state'', encode_segment (InstanceId_as_str i), session_text s,
      encode_segment (ResourceId_as_str r), encode_segment (PartitionId_as_str p)]" for i s r p
    unfolding state_key_parts by (simp add: rel)
  have step: "read_participant_record b kv (live, records) =
      (case ?parts of
       [a, i] \<Rightarrow> if a = ''live'' then bind_result (read_live_record i kv live) (\<lambda>live. Inr (live, records)) else Inr (live, records)
     | [a, i, s, r, p] \<Rightarrow>
         if a = ''current-state'' then bind_result (read_state_record i s r p kv records) (\<lambda>records. Inr (live, records)) else Inr (live, records)
     | _ \<Rightarrow> Inr (live, records))"
  proof -
    have "valid_utf8 (kv_key kv)"
      using assms(1) by (auto simp: read_participant_record_def bind_result_Inr parse_relative_key_def split: if_splits)
    then show ?thesis unfolding read_participant_record_def parse_relative_key_def rel' fst_conv snd_conv by simp
  qed
  consider (live) n where "?parts = [''live'', encode_segment n]"
    | (state) i s r p where "?parts = [''current-state'', encode_segment i, session_text s, encode_segment r, encode_segment p]"
    | (other) "\<And>i. ?parts \<noteq> [''live'', i]" "\<And>i s r p. ?parts \<noteq> [''current-state'', i, s, r, p]"
    using assms(2) rel' unfolding canonical_key_def by (fastforce split: list.splits)
  then have "(\<forall>i. bt_get live' i = (if kv_key kv = live_key b i then ok (parse_session (kv_value kv)) else bt_get live i)) \<and>
    (\<forall>i s r p. recorded records' i s r p = (if kv_key kv = current_state_key b i s r p then Some (State (kv_value kv)) else recorded records i s r p))"
  proof cases
    case live
    then show ?thesis using assms(1) unfolding step live_iff state_iff live
      by (auto simp: read_live_record_def bind_result_Inr decode_encode InstanceId_new_def validate_def split: if_splits)
  next
    case state
    then show ?thesis using assms(1) unfolding step live_iff state_iff state
      by (auto simp: read_state_record_def bind_result_Inr decode_encode InstanceId_new_def ResourceId_new_def PartitionId_new_def State_new_def
          validate_def recorded_entry InstanceId.expand ResourceId.expand PartitionId.expand split: if_splits dest!: parse_session_canonical)
  next
    case other
    then have "read_participant_record b kv (live, records) = Inr (live, records)" unfolding step by (auto split: list.splits)
    then show ?thesis using assms(1) other by (auto simp: live_iff state_iff)
  qed
  then show "bt_get live' i = (if kv_key kv = live_key b i then ok (parse_session (kv_value kv)) else bt_get live i)"
    and "recorded records' i s r p = (if kv_key kv = current_state_key b i s r p then Some (State (kv_value kv)) else recorded records i s r p)"
    by blast+
qed

text \<open>The records read from a range response are lookups in it.\<close>

lemma read_records:
  assumes "try_fold (read_participant_record b) kvs (bt_empty, bt_empty) = Inr (live, records)"
    and "\<forall>kv \<in> set kvs. canonical_key b (kv_key kv)"
  shows "bt_get live i = Option.bind (value_at kvs (live_key b i)) (\<lambda>v. ok (parse_session v))"
    and "recorded records i s r p = map_option State (value_at kvs (current_state_key b i s r p))"
proof -
  have "bt_get live i = Option.bind (value_at kvs (live_key b i)) (\<lambda>v. ok (parse_session v)) \<and>
      recorded records i s r p = map_option State (value_at kvs (current_state_key b i s r p))"
    using assms
  proof (induction kvs arbitrary: live records rule: rev_induct)
    case Nil
    then show ?case by (simp add: value_at_def recorded_def)
  next
    case (snoc kv kvs)
    from snoc.prems(1) obtain live0 records0 where
      0: "try_fold (read_participant_record b) kvs (bt_empty, bt_empty) = Inr (live0, records0)"
      "read_participant_record b kv (live0, records0) = Inr (live, records)"
      by (auto simp: try_fold_append bind_result_Inr)
    have "canonical_key b (kv_key kv)" using snoc.prems(2) by simp
    note step = read_record_step[OF 0(2) this]
    show ?case using snoc.IH[OF 0(1)] snoc.prems(2) by (simp add: step value_at_snoc)
  qed
  then show "bt_get live i = Option.bind (value_at kvs (live_key b i)) (\<lambda>v. ok (parse_session v))"
    and "recorded records i s r p = map_option State (value_at kvs (current_state_key b i s r p))" by blast+
qed

lemma build_partition_states_Inr:
  "\<exists>c. build_partition_states i partitions = Inr c \<and> (\<forall>p j. CurrentState_state c p j = (if j = i then bt_get partitions p else None))"
proof -
  let ?xs = "entries partitions"
  let ?rs = "fold (\<lambda>x. put_state (fst x) i (snd x)) ?xs ReplicaStates_default"
  have d: "distinct (map (\<lambda>x. (fst x, i)) ?xs)"
    using ascending_distinct[OF ascending_entries[of partitions]] by (auto simp: distinct_map inj_on_def)
  have "try_fold (\<lambda>(p, state) builder. map_err (\<lambda>_. InvalidKey) (set_state p i state builder)) ?xs ReplicaStates_default = Inr ?rs"
    unfolding case_prod_beta' by (rule try_set_states[OF d]) simp
  then have "build_partition_states i partitions = Inr (CurrentState_build ?rs)" by (simp add: build_partition_states_def)
  moreover have "ReplicaStates_get ?rs p j = (if j = i then bt_get partitions p else None)" for p j
  proof (cases "j = i \<and> bt_get partitions p \<noteq> None")
    case True
    then obtain st where "(p, st) \<in> set ?xs" by (auto simp: bt_entries_iff)
    from get_fold_put[OF d this, of snd] this show ?thesis using True by (simp add: bt_entries_iff)
  next
    case False
    then show ?thesis by (subst get_fold_put_other) (auto simp: bt_entries_iff)
  qed
  ultimately show ?thesis by simp
qed

lemma bind_map_option: "Option.bind (map_option f x) g = Option.bind x (\<lambda>y. g (f y))"
  by (cases x) auto

lemma bind_None [simp]: "Option.bind x (\<lambda>_. None) = None"
  by (cases x) auto

lemma map_result_total:
  assumes "\<And>x. x \<in> set xs \<Longrightarrow> f x = Inr (g x)"
  shows "map_result f xs = Inr (map g xs)"
  using assms by (simp add: map_result_Inr list_all2_map2 list_all2_same)

definition built :: "InstanceId \<Rightarrow> (PartitionId, State) btree \<Rightarrow> CurrentState" where
  "built i partitions = projr (build_partition_states i partitions)"

lemma built:
  "build_partition_states i partitions = Inr (built i partitions)"
  "CurrentState_state (built i partitions) p j = (if j = i then bt_get partitions p else None)"
  using build_partition_states_Inr[of i partitions] by (auto simp: built_def)

definition participant_of :: "state_records \<Rightarrow> InstanceId \<Rightarrow> SessionId \<Rightarrow> ActiveCurrentState" where
  "participant_of records i s = \<lparr>active_session_id = s,
     active_resources = bt_map (\<lambda>_. built i) (case bt_get records (i, s) of None \<Rightarrow> bt_empty | Some resources \<Rightarrow> resources)\<rparr>"

lemma active_participant_eq:
  "active_participant records (i, s) snap =
     Inr \<lparr>snapshot_live_instances = bt_insert i \<lparr>live_instance_id = i, live_session_id = s\<rparr> (snapshot_live_instances snap),
          snapshot_active_current_state = bt_insert i (participant_of records i s) (snapshot_active_current_state snap)\<rparr>"
proof -
  have "map_result (\<lambda>(r, partitions). bind_result (build_partition_states i partitions) (\<lambda>c. Inr (r, c))) xs =
      Inr (map (\<lambda>(r, partitions). (r, built i partitions)) xs)" for xs :: "(ResourceId \<times> (PartitionId, State) btree) list"
    by (rule map_result_total) (auto simp: built)
  moreover have "bt_collect (map (\<lambda>(r, partitions). (r, built i partitions)) (entries m)) = bt_map (\<lambda>_. built i) m"
    for m :: "(ResourceId, (PartitionId, State) btree) btree"
    using bt_collect_entries[of "bt_map (\<lambda>_. built i) m"] by (simp add: bt_map.rep_eq)
  ultimately show ?thesis by (simp add: active_participant_def participant_of_def)
qed

lemma active_participants:
  "distinct (map fst xs) \<Longrightarrow> \<exists>snap'. try_fold (active_participant records) xs snap = Inr snap' \<and>
     (\<forall>i. bt_get (snapshot_live_instances snap') i = (case map_of xs i of None \<Rightarrow> bt_get (snapshot_live_instances snap) i
        | Some s \<Rightarrow> Some \<lparr>live_instance_id = i, live_session_id = s\<rparr>)) \<and>
     (\<forall>i. bt_get (snapshot_active_current_state snap') i = (case map_of xs i of None \<Rightarrow> bt_get (snapshot_active_current_state snap) i
        | Some s \<Rightarrow> Some (participant_of records i s)))"
proof (induction xs arbitrary: snap)
  case (Cons x xs)
  obtain i s where x: "x = (i, s)" by force
  have none: "map_of xs i = None" using Cons.prems by (simp add: x map_of_eq_None_iff)
  obtain snap' where *: "try_fold (active_participant records) xs (projr (active_participant records (i, s) snap)) = Inr snap'"
     "\<And>j. bt_get (snapshot_live_instances snap') j = (case map_of xs j of
        None \<Rightarrow> bt_get (snapshot_live_instances (projr (active_participant records (i, s) snap))) j
      | Some s \<Rightarrow> Some \<lparr>live_instance_id = j, live_session_id = s\<rparr>)"
     "\<And>j. bt_get (snapshot_active_current_state snap') j = (case map_of xs j of
        None \<Rightarrow> bt_get (snapshot_active_current_state (projr (active_participant records (i, s) snap))) j
      | Some s \<Rightarrow> Some (participant_of records j s))"
    using Cons.IH[of "projr (active_participant records (i, s) snap)"] Cons.prems by auto
  show ?case
    by (rule exI[of _ snap']) (use * none in \<open>simp add: x active_participant_eq split: option.split\<close>)
qed simp

text \<open>What a namespace snapshot says of the participants, as lookups in the records it was
  taken from.\<close>

lemma participant_snapshot_lookup:
  assumes "participant_snapshot_from_kvs b kvs = Inr snap" and "\<forall>kv \<in> set kvs. canonical_key b (kv_key kv)"
  shows "snapshot_session snap i = Option.bind (value_at kvs (live_key b i)) (\<lambda>v. ok (parse_session v))"
    and "map_option live_session_id (bt_get (snapshot_live_instances snap) i) = snapshot_session snap i"
    and "snapshot_state snap i r p j = (if j = i then Option.bind (snapshot_session snap i)
      (\<lambda>s. map_option State (value_at kvs (current_state_key b i s r p))) else None)"
proof -
  obtain live records where lr: "try_fold (read_participant_record b) kvs (bt_empty, bt_empty) = Inr (live, records)"
    and s: "try_fold (active_participant records) (entries live)
       \<lparr>snapshot_live_instances = bt_empty, snapshot_active_current_state = bt_empty\<rparr> = Inr snap"
    using assms(1) by (auto simp: participant_snapshot_from_kvs_def bind_result_Inr)
  note r = read_records[OF lr assms(2)]
  have a: "bt_get (snapshot_live_instances snap) i = map_option (\<lambda>s. \<lparr>live_instance_id = i, live_session_id = s\<rparr>) (bt_get live i)"
    "bt_get (snapshot_active_current_state snap) i = map_option (participant_of records i) (bt_get live i)" for i
    using active_participants[OF ascending_distinct[OF ascending_entries[of live]], of records
        "\<lparr>snapshot_live_instances = bt_empty, snapshot_active_current_state = bt_empty\<rparr>"] s
    by (auto simp: bt_get_entries split: option.splits)
  show ss: "snapshot_session snap i = Option.bind (value_at kvs (live_key b i)) (\<lambda>v. ok (parse_session v))"
    unfolding r(1)[symmetric] by (cases "bt_get live i") (simp_all add: snapshot_session_def a participant_of_def)
  then show "map_option live_session_id (bt_get (snapshot_live_instances snap) i) = snapshot_session snap i"
    unfolding r(1)[symmetric] by (cases "bt_get live i") (simp_all add: a)
  show "snapshot_state snap i r p j = (if j = i then Option.bind (snapshot_session snap i)
      (\<lambda>s. map_option State (value_at kvs (current_state_key b i s r p))) else None)"
    unfolding ss r(1)[symmetric] r(2)[symmetric]
    by (cases "bt_get live i") (auto simp: snapshot_state_def a participant_of_def built recorded_def bind_map_option split: option.splits)
qed

text \<open>A name survives the round trip through a key: the segment written for a string decodes
  to that string, and the segments of the decimal session number and of the revision counter
  parse back to the number.\<close>

lemma segment_roundtrip:
  assumes "valid_utf8 s" and "0 < SessionId_sequence session" and "0 \<le> v" "v < 2 ^ 63"
  shows "decode_segment (encode_segment s) = Inr s \<and> parse_session (session_text session) = Inr session \<and>
    parse_i64 (show_int v) = Some v"
  using assms by (simp add: decode_encode parse_session_text parse_i64_show)

text \<open>A namespace snapshot implements the participant view it stands for: the live session of
  an instance is the one its live record names, and the state of a replica is the record kept
  under the instance's live session. Records of any other session of that instance, and
  records of instances that are not live, do not reach the snapshot.\<close>

lemma participant_snapshot_exact:
  assumes "participant_snapshot_from_kvs b kvs = Inr snap" and "\<forall>kv \<in> set kvs. canonical_key b (kv_key kv)"
  shows "snapshot_session snap i = Option.bind (value_at kvs (live_key b i)) (\<lambda>v. ok (parse_session v)) \<and>
    map_option live_session_id (bt_get (snapshot_live_instances snap) i) = snapshot_session snap i \<and>
    snapshot_state snap i r p j = (if j = i then Option.bind (snapshot_session snap i)
      (\<lambda>s. map_option State (value_at kvs (current_state_key b i s r p))) else None)"
  using participant_snapshot_lookup[OF assms] by blast

definition demo_backend :: EtcdCoordination where
  "demo_backend = \<lparr>namespace_prefix = ''/clusters/c'', namespace_cluster = ''c''\<rparr>"

definition demo_kv :: "string \<Rightarrow> string \<Rightarrow> KeyValue" where
  "demo_kv key v = \<lparr>kv_key = key, kv_value = v, kv_create_revision = 3, kv_mod_revision = 3, kv_version = 1, kv_lease = 0\<rparr>"

text \<open>Instance \<open>a\<close> is live under session 2; its record of session 1 is stale.\<close>

definition demo_kvs :: "KeyValue list" where
  "demo_kvs = (let a = InstanceId ''a''; r = ResourceId ''db''; p = PartitionId ''p0'' in
     [demo_kv (current_state_key demo_backend a (SessionId 1) r p) ''LEADER'',
      demo_kv (current_state_key demo_backend a (SessionId 2) r p) ''STANDBY'',
      demo_kv (live_key demo_backend a) ''2''])"

lemma demo_kvs_canonical: "\<forall>kv \<in> set demo_kvs. canonical_key demo_backend (kv_key kv)"
proof -
  have l: "canonical_key demo_backend (live_key demo_backend i)" for i
    by (auto simp: canonical_key_def live_key_def namespaced_key_def strip_prefix_Some live_parts simp flip: append_Cons)
  have c: "canonical_key demo_backend (current_state_key demo_backend i s r p)" for i s r p
    by (auto simp: canonical_key_def current_state_key_def namespaced_key_def strip_prefix_Some current_state_parts simp flip: append_Cons)
  show ?thesis using l c by (simp add: demo_kvs_def demo_kv_def Let_def)
qed

end
