(* ===== verification/Watch.thy ===== *)
theory Watch
  imports Coordination_Laws
begin

text \<open>
  Resumable watches (\<^verbatim>\<open>src/coordination/etcd/watch.rs\<close>): the cursor that filters replayed
  events, event decoding, and the subscription with its stream. A stream is the request it was
  opened with; its messages are an input of \<open>next_event\<close>, whose result \<open>None\<close> is a call that
  still waits for one.
\<close>

section \<open>Cursor\<close>

record WatchCursor =
  start_revision :: Revision
  last_event_revision :: "Revision option"
  processed_keys :: "string bset"

definition WatchCursor_new :: "Revision \<Rightarrow> WatchCursor" where
  "WatchCursor_new start = \<lparr>start_revision = start, last_event_revision = None, processed_keys = bt_empty\<rparr>"

definition accept :: "Revision \<Rightarrow> string \<Rightarrow> WatchCursor \<Rightarrow> bool \<times> WatchCursor" where
  "accept revision key c =
     (if revision < start_revision c
         \<or> (case last_event_revision c of None \<Rightarrow> False | Some previous \<Rightarrow> revision < previous)
         \<or> (last_event_revision c = Some revision \<and> bt_contains (processed_keys c) key)
      then (False, c)
      else
        (let c = (if last_event_revision c \<noteq> Some revision
                  then c\<lparr>processed_keys := bt_empty, last_event_revision := Some revision\<rparr> else c)
         in (True, c\<lparr>processed_keys := bs_insert key (processed_keys c)\<rparr>)))"

definition resume_revision :: "WatchCursor \<Rightarrow> Revision" where
  "resume_revision c = (case last_event_revision c of Some revision \<Rightarrow> revision | None \<Rightarrow> start_revision c)"

definition reset_after_recovery :: "Revision \<Rightarrow> WatchCursor \<Rightarrow> CoordinationError + Revision \<times> WatchCursor" where
  "reset_after_recovery snapshot c =
     bind_result (Revision_next snapshot) (\<lambda>start.
     Inr (start, \<lparr>start_revision = start, last_event_revision = None, processed_keys = bt_empty\<rparr>))"

section \<open>Events\<close>

datatype WatchEventKind = PutEvent | DeleteEvent

record WatchEvent =
  event_revision :: Revision
  event_key :: string
  event_value :: "string option"
  event_kind :: WatchEventKind

definition is_lease_backed_delete :: "WatchEvent \<Rightarrow> bool" where
  "is_lease_backed_delete event =
     (event_kind event = DeleteEvent \<and> (starts_with ''live/'' (event_key event) \<or> starts_with ''current-state/'' (event_key event)))"

datatype WatchError = WatchCoordination CoordinationError | Disconnected | Compacted Revision

definition WatchError_fmt :: "WatchError \<Rightarrow> string" where
  "WatchError_fmt e = (case e of
     WatchCoordination err \<Rightarrow> CoordinationError_fmt err
   | Disconnected \<Rightarrow> ''watch stream disconnected''
   | Compacted revision \<Rightarrow> ''watch history compacted at revision '' @ show_int (revision_value revision))"

definition is_transient_watch :: "WatchError \<Rightarrow> bool" where
  "is_transient_watch e = (case e of
     Disconnected \<Rightarrow> True | WatchCoordination err \<Rightarrow> is_transient err | Compacted _ \<Rightarrow> False)"

text \<open>A raw event of the etcd client: its type and its record, if it has one.\<close>

record RawEvent =
  raw_kind :: WatchEventKind
  raw_kv :: "KeyValue option"

record WatchResponse =
  compact_revision :: int
  response_events :: "RawEvent list"

section \<open>Subscriptions\<close>

datatype WatchTarget = KeyWatch (target_key: string) (target_start: int) | PrefixWatch (target_key: string) (target_start: int)

record WatchSubscription =
  watch_key :: string
  watch_prefix :: bool
  watch_cursor :: WatchCursor
  watch_stream :: "WatchTarget option"
  pending_events :: "WatchEvent list"

definition open_watch :: "EtcdCoordination \<Rightarrow> string \<Rightarrow> Revision \<Rightarrow> WatchTarget" where
  "open_watch b key start = KeyWatch (namespaced_key b (''metadata/'' @ encode_segment key)) (revision_value start)"

definition open_namespace_watch :: "EtcdCoordination \<Rightarrow> Revision \<Rightarrow> WatchTarget" where
  "open_namespace_watch b start = PrefixWatch (namespaced_key b '''') (revision_value start)"

definition watch_metadata :: "EtcdCoordination \<Rightarrow> string \<Rightarrow> Revision \<Rightarrow> WatchSubscription" where
  "watch_metadata b key start =
     \<lparr>watch_key = key, watch_prefix = False, watch_cursor = WatchCursor_new start,
      watch_stream = Some (open_watch b key start), pending_events = []\<rparr>"

definition watch_namespace :: "EtcdCoordination \<Rightarrow> Revision \<Rightarrow> WatchSubscription" where
  "watch_namespace b start =
     \<lparr>watch_key = [], watch_prefix = True, watch_cursor = WatchCursor_new start,
      watch_stream = Some (open_namespace_watch b start), pending_events = []\<rparr>"

definition decode_event :: "EtcdCoordination \<Rightarrow> WatchSubscription \<Rightarrow> RawEvent \<Rightarrow> WatchError + WatchEvent option" where
  "decode_event b sub event =
     (case raw_kv event of
        None \<Rightarrow> Inr None
      | Some kv \<Rightarrow>
          map_err WatchCoordination
            (bind_result (Revision_new (kv_mod_revision kv)) (\<lambda>revision.
             bind_result (parse_relative_key b (kv_key kv)) (\<lambda>relative.
             bind_result (if watch_prefix sub then Inr relative
               else bind_result (ok_or (strip_prefix ''metadata/'' relative) InvalidKey) decode_segment) (\<lambda>key.
             bind_result (case raw_kind event of
                 PutEvent \<Rightarrow> if valid_utf8 (kv_value kv) then Inr (Some (kv_value kv)) else Inl InvalidStoreValue
               | DeleteEvent \<Rightarrow> Inr None) (\<lambda>val.
             Inr (Some \<lparr>event_revision = revision, event_key = key, event_value = val, event_kind = raw_kind event\<rparr>)))))))"

text \<open>The inner loop of \<open>next\<close>: events decoded before an error stay queued.\<close>

fun push_events :: "EtcdCoordination \<Rightarrow> RawEvent list \<Rightarrow> WatchSubscription \<Rightarrow> WatchError option \<times> WatchSubscription" where
  "push_events b [] sub = (None, sub)"
| "push_events b (event # events) sub =
     (case decode_event b sub event of
        Inl e \<Rightarrow> (Some e, sub)
      | Inr None \<Rightarrow> push_events b events sub
      | Inr (Some decoded) \<Rightarrow>
          (case accept (event_revision decoded) (event_key decoded) (watch_cursor sub) of
             (False, c) \<Rightarrow> push_events b events (sub\<lparr>watch_cursor := c\<rparr>)
           | (True, c) \<Rightarrow> push_events b events (sub\<lparr>watch_cursor := c, pending_events := pending_events sub @ [decoded]\<rparr>)))"

text \<open>\<open>WatchSubscription::next\<close> on the messages still to arrive: an error, the end of the stream
  or a response each.\<close>

fun next_event ::
    "EtcdCoordination \<Rightarrow> (string + WatchResponse option) list \<Rightarrow> WatchSubscription \<Rightarrow>
     (WatchError + WatchEvent) option \<times> WatchSubscription \<times> (string + WatchResponse option) list" where
  "next_event b messages sub =
     (case pending_events sub of
        event # rest \<Rightarrow> (Some (Inr event), sub\<lparr>pending_events := rest\<rparr>, messages)
      | [] \<Rightarrow>
          (if watch_stream sub = None then (Some (Inl Disconnected), sub, messages)
           else case messages of
             [] \<Rightarrow> (None, sub, [])
           | Inl e # messages \<Rightarrow> (Some (Inl (WatchCoordination (EtcdError e))), sub, messages)
           | Inr None # messages \<Rightarrow> (Some (Inl Disconnected), sub, messages)
           | Inr (Some response) # messages \<Rightarrow>
               (if compact_revision response > 0
                then (Some (bind_result (map_err WatchCoordination (Revision_new (compact_revision response))) (\<lambda>r. Inl (Compacted r))), sub, messages)
                else (case push_events b (response_events response) sub of
                    (Some e, sub) \<Rightarrow> (Some (Inl e), sub, messages)
                  | (None, sub) \<Rightarrow>
                      (case pending_events sub of
                         event # rest \<Rightarrow> (Some (Inr event), sub\<lparr>pending_events := rest\<rparr>, messages)
                       | [] \<Rightarrow> next_event b messages sub)))))"

definition watch_disconnect :: "WatchSubscription \<Rightarrow> WatchSubscription" where
  "watch_disconnect sub = sub\<lparr>watch_stream := None\<rparr>"

text \<open>\<open>resume\<close>, when etcd accepts the watch request.\<close>

definition resume :: "EtcdCoordination \<Rightarrow> WatchSubscription \<Rightarrow> WatchSubscription" where
  "resume b sub = sub\<lparr>watch_stream := Some (open_watch b (watch_key sub) (resume_revision (watch_cursor sub)))\<rparr>"

text \<open>\<open>resume_until_available\<close> retries transient errors; \<open>outcomes\<close> are the results of the
  watch requests, \<open>None\<close> a request that was accepted.\<close>

fun resume_until_available :: "EtcdCoordination \<Rightarrow> WatchError option list \<Rightarrow> WatchSubscription \<Rightarrow> (WatchError + WatchSubscription) option" where
  "resume_until_available b [] sub = None"
| "resume_until_available b (None # outcomes) sub = Some (Inr (resume b sub))"
| "resume_until_available b (Some e # outcomes) sub =
     (if is_transient_watch e then resume_until_available b outcomes sub else Some (Inl e))"

datatype WatchRecovery = RecoveredMetadata "MetadataEntry option" | RecoveredNamespace CoordinationSnapshot

text \<open>\<open>recover_compaction\<close> on the range response that rebuilds the state.\<close>

definition recover_compaction ::
    "EtcdCoordination \<Rightarrow> int option \<times> KeyValue list \<Rightarrow> WatchSubscription \<Rightarrow> WatchError + WatchRecovery \<times> WatchSubscription" where
  "recover_compaction b response sub =
     map_err WatchCoordination
       (bind_result (revision_from_header (fst response)) (\<lambda>revision.
        if watch_prefix sub then
          bind_result (controller_snapshot_from_kvs b revision (snd response)) (\<lambda>snapshot.
          bind_result (reset_after_recovery (snapshot_revision snapshot) (watch_cursor sub)) (\<lambda>(start, c).
          Inr (RecoveredNamespace snapshot,
            sub\<lparr>watch_cursor := c, pending_events := [], watch_stream := Some (open_namespace_watch b start)\<rparr>)))
        else
          bind_result (case snd response of [] \<Rightarrow> Inr None | kv # _ \<Rightarrow> bind_result (metadata_entry_of kv) (\<lambda>e. Inr (Some e))) (\<lambda>entry.
          bind_result (reset_after_recovery revision (watch_cursor sub)) (\<lambda>(start, c).
          Inr (RecoveredMetadata entry,
            sub\<lparr>watch_cursor := c, pending_events := [], watch_stream := Some (open_watch b (watch_key sub) start)\<rparr>)))))"

end
