(* ===== verification/Watch_Laws.thy ===== *)
theory Watch_Laws
  imports Watch
begin

text \<open>
  What a watch delivers over its whole life: calls of \<open>next\<close>, errors, disconnections and
  resumptions, against streams that send the store's events as etcd does. A watch on one key
  delivers every event exactly once, however often it is resumed; a watch on a namespace does so
  until it is resumed for the first time, and is blind to the namespace afterwards.
\<close>

section \<open>Streams\<close>

text \<open>The keys a watch request covers, and the events of the store's history that it asks for.\<close>

definition covers :: "WatchTarget \<Rightarrow> string \<Rightarrow> bool" where
  "covers t key = (case t of KeyWatch k _ \<Rightarrow> key = k | PrefixWatch k _ \<Rightarrow> starts_with k key)"

definition served :: "WatchTarget \<Rightarrow> RawEvent list \<Rightarrow> RawEvent list" where
  "served t log = filter (\<lambda>e. case raw_kv e of None \<Rightarrow> False | Some kv \<Rightarrow> covers t (kv_key kv) \<and> target_start t \<le> kv_mod_revision kv) log"

text \<open>The events in the messages of a stream. Errors, its end and compaction notices carry none.\<close>

type_synonym messages = "(string + WatchResponse option) list"

definition sent :: "messages \<Rightarrow> RawEvent list" where
  "sent ms = concat (map (\<lambda>m. case m of Inr (Some r) \<Rightarrow> if compact_revision r > 0 then [] else response_events r | _ \<Rightarrow> []) ms)"

lemma sent_simps [simp]:
  "sent [] = []" "sent (Inl e # ms) = sent ms" "sent (Inr None # ms) = sent ms"
  "sent (Inr (Some r) # ms) = (if compact_revision r > 0 then [] else response_events r) @ sent ms"
  by (simp_all add: sent_def)

text \<open>The life of a subscription: a history of the store, the number of resumptions, the events that
  \<open>next\<close> returned, the subscription, the messages still to arrive on its stream, and the events
  that the stream has not sent. A stream sends what its request asks for, in order, in any
  portions; it may fail, end or fall silent anywhere. The calls are in any order: a failed or
  disconnected watch may be read again or resumed, and so may a healthy one.\<close>

inductive watch_history :: "EtcdCoordination \<Rightarrow> RawEvent list \<Rightarrow> WatchSubscription \<Rightarrow> nat \<Rightarrow> WatchEvent list \<Rightarrow> WatchSubscription \<Rightarrow> messages \<Rightarrow> RawEvent list \<Rightarrow> bool"
  for b :: EtcdCoordination and log :: "RawEvent list" and first :: WatchSubscription where
  opened: "watch_stream first = Some t \<Longrightarrow> served t log = sent ms @ unsent \<Longrightarrow> watch_history b log first 0 [] first ms unsent"
| returned: "watch_history b log first n seen sub ms unsent \<Longrightarrow> next_event b ms sub = (Some (Inr event), sub', ms') \<Longrightarrow>
    watch_history b log first n (seen @ [event]) sub' ms' unsent"
| failed: "watch_history b log first n seen sub ms unsent \<Longrightarrow> next_event b ms sub = (Some (Inl err), sub', ms') \<Longrightarrow>
    watch_history b log first n seen sub' ms' unsent"
| waiting: "watch_history b log first n seen sub ms unsent \<Longrightarrow> next_event b ms sub = (None, sub', ms') \<Longrightarrow>
    watch_history b log first n seen sub' ms' unsent"
| disconnected: "watch_history b log first n seen sub ms unsent \<Longrightarrow> watch_history b log first n seen (watch_disconnect sub) ms unsent"
| resumed: "watch_history b log first n seen sub ms unsent \<Longrightarrow> watch_stream (resume b sub) = Some t \<Longrightarrow> served t log = sent ms' @ unsent' \<Longrightarrow>
    watch_history b log first (Suc n) seen (resume b sub) ms' unsent'"

section \<open>Decoding\<close>

definition decoded :: "EtcdCoordination \<Rightarrow> WatchSubscription \<Rightarrow> RawEvent list \<Rightarrow> WatchEvent list" where
  "decoded b sub events = List.map_filter (\<lambda>e. Option.bind (ok (decode_event b sub e)) (\<lambda>x. x)) events"

definition readable :: "EtcdCoordination \<Rightarrow> WatchSubscription \<Rightarrow> RawEvent list \<Rightarrow> bool" where
  "readable b sub events \<longleftrightarrow> list_all (\<lambda>e. case decode_event b sub e of Inr (Some _) \<Rightarrow> True | _ \<Rightarrow> False) events"

text \<open>The events that a subscription asks for when it is opened.\<close>

definition expected :: "EtcdCoordination \<Rightarrow> WatchSubscription \<Rightarrow> RawEvent list \<Rightarrow> WatchEvent list" where
  "expected b first log = (case watch_stream first of None \<Rightarrow> [] | Some t \<Rightarrow> decoded b first (served t log))"

lemma decode_event_cong: "watch_prefix sub = watch_prefix sub' \<Longrightarrow> decode_event b sub e = decode_event b sub' e"
  by (simp only: decode_event_def)

lemma decoded_cong: "watch_prefix sub = watch_prefix sub' \<Longrightarrow> decoded b sub events = decoded b sub' events"
  unfolding decoded_def by (simp add: decode_event_cong[of sub sub'])

lemma readable_cong: "watch_prefix sub = watch_prefix sub' \<Longrightarrow> readable b sub events = readable b sub' events"
  unfolding readable_def by (simp add: decode_event_cong[of sub sub'])

lemma decoded_simps [simp]: "decoded b sub [] = []" "decoded b sub (e1 @ e2) = decoded b sub e1 @ decoded b sub e2"
  by (simp_all add: decoded_def map_filter_def)

lemma decoded_Cons: "decode_event b sub e = Inr (Some d) \<Longrightarrow> decoded b sub (e # events) = d # decoded b sub events"
  by (simp add: decoded_def map_filter_simps ok_def)

lemma readable_simps [simp]: "readable b sub []" "readable b sub (e1 @ e2) \<longleftrightarrow> readable b sub e1 \<and> readable b sub e2"
  by (simp_all add: readable_def)

lemma readable_Cons: "readable b sub (e # events) \<longleftrightarrow> (\<exists>d. decode_event b sub e = Inr (Some d)) \<and> readable b sub events"
  by (auto simp: readable_def split: sum.splits option.splits)

lemma readable_served: "readable b sub (served t log) \<Longrightarrow> set (served t' log) \<subseteq> set (served t log) \<Longrightarrow> readable b sub (served t' log)"
  by (auto simp: readable_def list_all_iff)

lemma decode_revision: "decode_event b sub e = Inr (Some d) \<Longrightarrow> \<exists>kv. raw_kv e = Some kv \<and> revision_value (event_revision d) = kv_mod_revision kv"
  by (auto simp: decode_event_def map_err_Inr bind_result_Inr Revision_new_def split: option.splits if_splits)

section \<open>Exactly-once delivery\<close>

text \<open>The cursor after it let through exactly the events \<open>P\<close>.\<close>

abbreviation stamp :: "WatchEvent \<Rightarrow> Revision \<times> string" where
  "stamp e \<equiv> (event_revision e, event_key e)"

definition delivered :: "Revision \<Rightarrow> WatchEvent list \<Rightarrow> WatchCursor \<Rightarrow> bool" where
  "delivered start P c \<longleftrightarrow> start_revision c = start \<and>
     (if P = [] then last_event_revision c = None
      else last_event_revision c = Some (event_revision (last P)) \<and>
        (\<forall>k. bt_contains (processed_keys c) k \<longleftrightarrow> (event_revision (last P), k) \<in> stamp ` set P))"

lemma delivered_new: "delivered start [] (WatchCursor_new start)"
  by (simp add: delivered_def WatchCursor_new_def)

lemma accept_replayed:
  assumes "delivered start P c" and "e \<in> set P" and "event_revision e = event_revision (last P)"
  shows "accept (event_revision e) (event_key e) c = (False, c)"
proof -
  have "P \<noteq> []" using assms(2) by auto
  moreover have "(event_revision (last P), event_key e) \<in> stamp ` set P" unfolding assms(3)[symmetric] using assms(2) by blast
  ultimately show ?thesis using assms(1,3) by (simp add: delivered_def accept_def)
qed

lemma sorted_last: "sorted (map f xs) \<Longrightarrow> x \<in> set xs \<Longrightarrow> f x \<le> f (last xs)"
  by (induction xs rule: rev_induct) (auto simp: sorted_append)

lemma accept_new:
  assumes d: "delivered start P c" and s: "sorted (map event_revision (P @ [e]))" and e: "stamp e \<notin> stamp ` set P" "start \<le> event_revision e"
  shows "\<exists>c'. accept (event_revision e) (event_key e) c = (True, c') \<and> delivered start (P @ [e]) c'"
proof -
  have le: "event_revision x \<le> event_revision e" if "x \<in> set P" for x using s that by (auto simp: sorted_append)
  show ?thesis
  proof (cases "P = []")
    case True
    then show ?thesis using d e by (auto simp: delivered_def accept_def Let_def prod_eq_iff)
  next
    case False
    then have last: "event_revision (last P) \<le> event_revision e" using le by simp
    show ?thesis
    proof (cases "event_revision (last P) = event_revision e")
      case True
      have "\<not> bt_contains (processed_keys c) (event_key e)" using d False True e(1) by (simp add: delivered_def)
      then show ?thesis using d False True e(2) last by (auto simp: delivered_def accept_def Let_def)
    next
      case neq: False
      have "(event_revision e, k) \<notin> stamp ` set P" for k
      proof
        assume "(event_revision e, k) \<in> stamp ` set P"
        then have "event_revision e \<le> event_revision (last P)" using sorted_last[of event_revision P] s by (auto simp: sorted_append)
        then show False using neq last by simp
      qed
      then show ?thesis using d False neq e(2) last by (auto simp: delivered_def accept_def Let_def)
    qed
  qed
qed

text \<open>A watch is on course when it has let through the first part \<open>P\<close> of the expected events and what
  is still to come replays some of the last of them and then has all the rest.\<close>

definition on_course :: "Revision \<Rightarrow> WatchEvent list \<Rightarrow> WatchEvent list \<Rightarrow> WatchCursor \<Rightarrow> WatchEvent list \<Rightarrow> bool" where
  "on_course start all P c todo \<longleftrightarrow> delivered start P c \<and>
     (\<exists>D N. all = P @ N \<and> todo = D @ N \<and> (\<forall>e \<in> set D. e \<in> set P \<and> event_revision e = event_revision (last P)))"

text \<open>What etcd guarantees of the events: they come in revision order from the start on, and one
  revision touches a key once.\<close>

definition orderly :: "Revision \<Rightarrow> WatchEvent list \<Rightarrow> bool" where
  "orderly start all \<longleftrightarrow> sorted (map event_revision all) \<and> distinct (map stamp all) \<and> list_all (\<lambda>e. start \<le> event_revision e) all"

lemma on_course_step:
  assumes "orderly start all" and "on_course start all P c (e # todo)"
  shows "accept (event_revision e) (event_key e) c = (False, c) \<and> on_course start all P c todo \<or>
    (\<exists>c'. accept (event_revision e) (event_key e) c = (True, c') \<and> on_course start all (P @ [e]) c' todo)"
proof -
  from assms(2) obtain D N where d: "delivered start P c" and DN: "all = P @ N" "e # todo = D @ N"
      "\<forall>e \<in> set D. e \<in> set P \<and> event_revision e = event_revision (last P)" unfolding on_course_def by blast
  show ?thesis
  proof (cases D)
    case (Cons e' D')
    then have e: "e' = e" and todo: "todo = D' @ N" using DN(2) by simp_all
    have "e \<in> set P" "event_revision e = event_revision (last P)" "\<forall>e \<in> set D'. e \<in> set P \<and> event_revision e = event_revision (last P)"
      using DN(3) unfolding Cons e by simp_all
    then show ?thesis using accept_replayed[OF d, of e] DN(1) d todo unfolding on_course_def by blast
  next
    case Nil
    then have N: "N = e # todo" using DN(2) by simp
    have "sorted (map event_revision (P @ [e]))" "stamp e \<notin> stamp ` set P" "start \<le> event_revision e"
      using assms(1) by (auto simp: orderly_def DN(1) N sorted_append)
    from accept_new[OF d this] obtain c' where c': "accept (event_revision e) (event_key e) c = (True, c')" "delivered start (P @ [e]) c'" by blast
    have "on_course start all (P @ [e]) c' todo" unfolding on_course_def
      by (intro conjI exI[of _ "[]"] exI[of _ todo]) (simp_all add: c'(2) DN(1) N)
    then show ?thesis using c'(1) by blast
  qed
qed

lemma push_on_course:
  assumes "orderly start all" and "readable b sub events" and "on_course start all (seen @ pending_events sub) (watch_cursor sub) (decoded b sub events @ todo)"
  shows "\<exists>sub'. push_events b events sub = (None, sub') \<and> on_course start all (seen @ pending_events sub') (watch_cursor sub') todo \<and>
    watch_key sub' = watch_key sub \<and> watch_prefix sub' = watch_prefix sub"
  using assms(2,3)
proof (induction events arbitrary: sub)
  case (Cons event events)
  then obtain d where d: "decode_event b sub event = Inr (Some d)" and r: "readable b sub events" by (auto simp: readable_Cons)
  have course: "on_course start all (seen @ pending_events sub) (watch_cursor sub) (d # decoded b sub events @ todo)"
    using Cons.prems(2) by (simp add: decoded_Cons[OF d])
  from on_course_step[OF assms(1) course] show ?case
  proof (elim disjE exE conjE, goal_cases)
    case 1
    then show ?case using Cons.IH[of sub] r d by simp
  next
    case (2 c)
    let ?sub = "sub\<lparr>watch_cursor := c, pending_events := pending_events sub @ [d]\<rparr>"
    have "readable b ?sub events" "decoded b ?sub events = decoded b sub events"
      using r readable_cong[of ?sub sub b events] decoded_cong[of ?sub sub b events] by simp_all
    then show ?case using Cons.IH[of ?sub] 2 d by simp
  qed
qed simp

text \<open>One call of \<open>next\<close>.\<close>

definition tracking :: "EtcdCoordination \<Rightarrow> WatchSubscription \<Rightarrow> Revision \<Rightarrow> WatchEvent list \<Rightarrow> WatchEvent list \<Rightarrow> WatchSubscription \<Rightarrow> messages \<Rightarrow> RawEvent list \<Rightarrow> bool" where
  "tracking b first start all seen sub ms unsent \<longleftrightarrow> watch_key sub = watch_key first \<and> watch_prefix sub = watch_prefix first \<and>
     readable b first (sent ms @ unsent) \<and> on_course start all (seen @ pending_events sub) (watch_cursor sub) (decoded b first (sent ms @ unsent))"

lemma next_event_tracks:
  assumes "orderly start all"
  shows "tracking b first start all seen sub ms unsent \<Longrightarrow> next_event b ms sub = (r, sub', ms') \<Longrightarrow>
    tracking b first start all (seen @ (case r of Some (Inr event) \<Rightarrow> [event] | _ \<Rightarrow> [])) sub' ms' unsent"
proof (induction b ms sub rule: next_event.induct)
  case (1 b ms sub)
  note prems = 1(2,3)
  show ?case
  proof (cases "pending_events sub")
    case (Cons event rest)
    then have "r = Some (Inr event)" "sub' = sub\<lparr>pending_events := rest\<rparr>" "ms' = ms" using prems(2) by simp_all
    then show ?thesis using prems(1) Cons by (simp add: tracking_def)
  next
    case Nil
    show ?thesis
    proof (cases "watch_stream sub = None \<or> ms = []")
      case True
      then have "sub' = sub \<and> ms' = ms \<and> r \<in> {None, Some (Inl Disconnected)}" using prems(2) Nil by (auto split: if_splits)
      then show ?thesis using prems(1) by auto
    next
      case False
      then obtain message rest where ms: "ms = message # rest" and stream: "watch_stream sub \<noteq> None" by (cases ms) auto
      show ?thesis
      proof (cases "\<exists>response. message = Inr (Some response) \<and> \<not> compact_revision response > 0")
        case False
        then have "sub' = sub" "ms' = rest" "\<exists>err. r = Some (Inl err)" "sent ms = sent rest"
          using prems(2) Nil stream by (cases message; auto simp: ms bind_result_def map_err_def split: option.splits sum.splits if_splits)+
        then show ?thesis using prems(1) by (auto simp: tracking_def)
      next
        case True
        then obtain response where response: "message = Inr (Some response)" "\<not> compact_revision response > 0" by blast
        have pre: "watch_prefix sub = watch_prefix first" using prems(1) by (simp add: tracking_def)
        have sent: "sent ms = response_events response @ sent rest" by (simp add: ms response)
        have "readable b sub (response_events response)"
          "on_course start all (seen @ pending_events sub) (watch_cursor sub) (decoded b sub (response_events response) @ decoded b first (sent rest @ unsent))"
          using prems(1) readable_cong[OF pre] decoded_cong[OF pre] by (simp_all add: tracking_def sent)
        from push_on_course[OF assms this] obtain sub1 where push: "push_events b (response_events response) sub = (None, sub1)"
            "on_course start all (seen @ pending_events sub1) (watch_cursor sub1) (decoded b first (sent rest @ unsent))"
            "watch_key sub1 = watch_key sub" "watch_prefix sub1 = watch_prefix sub" by blast
        have t: "tracking b first start all seen sub1 rest unsent" using prems(1) push(2-4) by (simp add: tracking_def sent)
        have step: "next_event b ms sub = (case pending_events sub1 of event # queue \<Rightarrow> (Some (Inr event), sub1\<lparr>pending_events := queue\<rparr>, rest) | [] \<Rightarrow> next_event b rest sub1)"
          using Nil stream response push(1) by (auto simp: ms)
        show ?thesis
        proof (cases "pending_events sub1")
          case Nil2: Nil
          then have go: "next_event b rest sub1 = (r, sub', ms')" using step prems(2) by simp
          show ?thesis by (rule 1(1)[OF Nil stream ms response(1) refl response(2) push(1)[symmetric] refl Nil2 t go])
        next
          case (Cons event queue)
          then have "r = Some (Inr event)" "sub' = sub1\<lparr>pending_events := queue\<rparr>" "ms' = rest" using step prems(2) by simp_all
          then show ?thesis using t Cons by (simp add: tracking_def)
        qed
      qed
    qed
  qed
qed

text \<open>Resuming: the stream replays the last revision and goes on.\<close>

lemma replay_on_course:
  assumes "orderly start all" and "on_course start all P c todo"
  shows "on_course start all P c (filter (\<lambda>e. resume_revision c \<le> event_revision e) all)"
proof -
  from assms(2) obtain N where d: "delivered start P c" and L: "all = P @ N" unfolding on_course_def by blast
  show ?thesis
  proof (cases "P = []")
    case True
    then have "filter (\<lambda>e. resume_revision c \<le> event_revision e) all = all"
      using d assms(1) by (auto simp: delivered_def resume_revision_def orderly_def list_all_iff intro!: filter_True)
    then show ?thesis using d L True by (auto simp: on_course_def)
  next
    case False
    then have r: "resume_revision c = event_revision (last P)" using d by (simp add: delivered_def resume_revision_def)
    have s: "sorted (map event_revision (P @ N))" using assms(1) unfolding orderly_def L by blast
    have "filter (\<lambda>e. event_revision (last P) \<le> event_revision e) N = N"
      using s False by (intro filter_True) (auto simp: sorted_append)
    moreover have "event_revision e = event_revision (last P)" if "e \<in> set P" "event_revision (last P) \<le> event_revision e" for e
      using sorted_last[of event_revision P e] s that by (auto simp: sorted_append)
    ultimately show ?thesis unfolding on_course_def r using d L
      by (intro conjI exI[of _ "filter (\<lambda>e. event_revision (last P) \<le> event_revision e) P"] exI[of _ N]) auto
  qed
qed

lemma resume_revision_start: "delivered start P c \<Longrightarrow> \<forall>e \<in> set P. start \<le> event_revision e \<Longrightarrow> start \<le> resume_revision c"
  by (cases "P = []") (auto simp: delivered_def resume_revision_def)

lemma decoded_later:
  "s \<le> r \<Longrightarrow> decoded b sub (served (KeyWatch k r) log) = filter (\<lambda>e. Revision r \<le> event_revision e) (decoded b sub (served (KeyWatch k s) log))"
proof (induction log)
  case (Cons e log)
  show ?case
  proof (cases "\<exists>d. decode_event b sub e = Inr (Some d)")
    case True
    then obtain d kv where d: "decode_event b sub e = Inr (Some d)" "raw_kv e = Some kv" "revision_value (event_revision d) = kv_mod_revision kv"
      using decode_revision by blast
    have "Revision r \<le> event_revision d \<longleftrightarrow> r \<le> kv_mod_revision kv" by (simp add: less_eq_Revision_def d(3))
    then show ?thesis using Cons d(2) by (auto simp: served_def covers_def decoded_Cons[OF d(1)])
  next
    case False
    then have "Option.bind (ok (decode_event b sub e)) (\<lambda>x. x) = None" by (cases "decode_event b sub e") (auto simp: ok_def)
    then have "decoded b sub (e # es) = decoded b sub es" for es by (simp add: decoded_def map_filter_simps)
    then show ?thesis using Cons by (simp add: served_def split: option.splits)
  qed
qed (simp add: served_def)

lemma served_later: "s \<le> r \<Longrightarrow> set (served (KeyWatch k r) log) \<subseteq> set (served (KeyWatch k s) log)"
  by (auto simp: served_def covers_def split: option.splits)

text \<open>A subscription as it is opened: on one key, or on the namespace and never resumed.\<close>

definition sound_watch :: "EtcdCoordination \<Rightarrow> Revision \<Rightarrow> WatchSubscription \<Rightarrow> nat \<Rightarrow> bool" where
  "sound_watch b start first n \<longleftrightarrow> (\<exists>key. first = watch_metadata b key start) \<or> first = watch_namespace b start \<and> n = 0"

lemma history_tracks:
  assumes "watch_history b log first n seen sub ms unsent" and "sound_watch b start first n"
    and "orderly start (expected b first log)" and "readable b first (served (the (watch_stream first)) log)"
  shows "tracking b first start (expected b first log) seen sub ms unsent"
  using assms(1,2)
proof (induction rule: watch_history.induct)
  case (opened t ms unsent)
  then have "expected b first log = decoded b first (sent ms @ unsent)" "readable b first (sent ms @ unsent)" using assms(4) by (simp_all add: expected_def)
  moreover have "watch_cursor first = WatchCursor_new start" "pending_events first = []"
    using opened.prems by (auto simp: sound_watch_def watch_metadata_def watch_namespace_def)
  ultimately show ?case using delivered_new by (auto simp: tracking_def on_course_def)
next
  case (returned n seen sub ms unsent event sub' ms')
  then show ?case using next_event_tracks[OF assms(3) returned.IH[OF returned.prems] returned.hyps(2)] by simp
next
  case (failed n seen sub ms unsent err sub' ms')
  then show ?case using next_event_tracks[OF assms(3) failed.IH[OF failed.prems] failed.hyps(2)] by simp
next
  case (waiting n seen sub ms unsent sub' ms')
  then show ?case using next_event_tracks[OF assms(3) waiting.IH[OF waiting.prems] waiting.hyps(2)] by simp
next
  case (disconnected n seen sub ms unsent)
  then show ?case by (simp add: tracking_def watch_disconnect_def)
next
  case (resumed n seen sub ms unsent t ms' unsent')
  then obtain key where first: "first = watch_metadata b key start" by (auto simp: sound_watch_def)
  then have "sound_watch b start first n" by (auto simp: sound_watch_def)
  note tr = resumed.IH[OF this]
  from tr have course: "on_course start (expected b first log) (seen @ pending_events sub) (watch_cursor sub) (decoded b first (sent ms @ unsent))"
    and key: "watch_key sub = key" by (simp_all add: tracking_def first watch_metadata_def)
  let ?r = "resume_revision (watch_cursor sub)" and ?k = "namespaced_key b (''metadata/'' @ encode_segment key)"
  have t: "t = KeyWatch ?k (revision_value ?r)" using resumed.hyps(2) by (simp add: resume_def open_watch_def key)
  have t0: "watch_stream first = Some (KeyWatch ?k (revision_value start))" by (simp add: first watch_metadata_def open_watch_def)
  have ge: "\<forall>e \<in> set (seen @ pending_events sub). start \<le> event_revision e"
    using assms(3) course by (auto simp: on_course_def orderly_def list_all_iff)
  have le: "revision_value start \<le> revision_value ?r"
    using course resume_revision_start[OF _ ge] by (simp add: on_course_def less_eq_Revision_def)
  have "decoded b first (sent ms' @ unsent') = filter (\<lambda>e. ?r \<le> event_revision e) (expected b first log)"
    unfolding resumed.hyps(3)[symmetric] t using decoded_later[OF le] by (simp add: expected_def t0)
  then have "on_course start (expected b first log) (seen @ pending_events sub) (watch_cursor sub) (decoded b first (sent ms' @ unsent'))"
    using replay_on_course[OF assms(3) course] by simp
  moreover have "readable b first (sent ms' @ unsent')"
    unfolding resumed.hyps(3)[symmetric] t using assms(4) served_later[OF le] readable_served by (simp add: t0)
  ultimately show ?case using tr by (simp add: tracking_def resume_def)
qed

text \<open>C32: Exactly-once delivery. Whatever a watch on a metadata key goes through - reads, errors, broken
  and silent streams, disconnections, any number of resumptions that replay events - the events
  returned, followed by the queued ones, are a gap-free first part of the store's events of that
  key from the start revision on: none is lost, repeated or reordered; and when its stream has
  nothing more to send, they are all of them. The same holds for a namespace watch as long as it
  is not resumed. (The events are well formed, come in revision order, and one revision touches a
  key once.)\<close>

theorem watch_exactly_once:
  assumes "watch_history b log first n seen sub ms unsent" and "sound_watch b start first n"
    and "orderly start (expected b first log)" and "readable b first (served (the (watch_stream first)) log)"
  shows "\<exists>rest. expected b first log = seen @ pending_events sub @ rest \<and> (sent ms @ unsent = [] \<longrightarrow> rest = [])"
  using history_tracks[OF assms] by (auto simp: tracking_def on_course_def)

section \<open>Resuming a namespace watch\<close>

text \<open>A subscription whose flag says namespace and whose stream is that of one key, which no record of
  the namespace uses.\<close>

definition blind :: "EtcdCoordination \<Rightarrow> WatchSubscription \<Rightarrow> bool" where
  "blind b sub \<longleftrightarrow> watch_prefix sub \<and> watch_key sub = []"

definition only_events :: "WatchEvent list \<Rightarrow> bool" where
  "only_events = list_all (\<lambda>e. event_key e = ''metadata/'')"

definition all_at :: "string \<Rightarrow> RawEvent list \<Rightarrow> bool" where
  "all_at k = list_all (\<lambda>e. \<forall>kv. raw_kv e = Some kv \<longrightarrow> kv_key kv = k)"

lemma only_events_append: "only_events (xs @ ys) \<longleftrightarrow> only_events xs \<and> only_events ys"
  by (simp add: only_events_def)

lemma decode_blind:
  assumes "decode_event b sub e = Inr (Some d)" and "watch_prefix sub" and "raw_kv e = Some kv" and "kv_key kv = namespaced_key b relative"
  shows "event_key d = relative"
proof -
  have "strip_prefix (namespace_prefix b @ ''/'') (namespaced_key b relative) = Some relative"
    using strip_prefix_append[of "namespace_prefix b @ ''/''" relative] by (simp add: namespaced_key_def)
  then show ?thesis using assms by (auto simp: decode_event_def bind_result_Inr parse_relative_key_def ok_or_def split: if_splits)
qed

lemma push_blind:
  assumes "all_at (namespaced_key b ''metadata/'') events" and "blind b sub"
  shows "push_events b events sub = (r, sub') \<Longrightarrow> \<exists>new. pending_events sub' = pending_events sub @ new \<and> only_events new \<and> blind b sub'"
  using assms
proof (induction events arbitrary: sub)
  case (Cons event events)
  have at: "all_at (namespaced_key b ''metadata/'') events" "\<forall>kv. raw_kv event = Some kv \<longrightarrow> kv_key kv = namespaced_key b ''metadata/''"
    using Cons.prems(2) by (simp_all add: all_at_def)
  show ?case
  proof (cases "decode_event b sub event")
    case (Inl err)
    then show ?thesis using Cons.prems by (auto simp: only_events_def)
  next
    case (Inr decoded)
    show ?thesis
    proof (cases decoded)
      case None
      then show ?thesis using Cons Inr at by simp
    next
      case (Some d)
      then obtain kv where "raw_kv event = Some kv" using Inr decode_revision by blast
      then have d: "event_key d = ''metadata/''" using decode_blind[of b sub event d kv "''metadata/''"] Inr Some at Cons.prems(3) by (simp add: blind_def)
      obtain a c where acc: "accept (event_revision d) (event_key d) (watch_cursor sub) = (a, c)" by force
      show ?thesis
      proof (cases a)
        case False
        then show ?thesis using Cons.IH[of "sub\<lparr>watch_cursor := c\<rparr>"] Cons.prems(1,3) Inr Some acc at by (simp add: blind_def)
      next
        case True
        then obtain new where "pending_events sub' = (pending_events sub @ [d]) @ new" "only_events new" "blind b sub'"
          using Cons.IH[of "sub\<lparr>watch_cursor := c, pending_events := pending_events sub @ [d]\<rparr>"] Cons.prems(1,3) Inr Some acc at by (auto simp: blind_def)
        then show ?thesis using d by (intro exI[of _ "d # new"]) (simp add: only_events_def)
      qed
    qed
  qed
qed (auto simp: only_events_def)

lemma next_event_blind:
  assumes "all_at (namespaced_key b ''metadata/'') (sent ms)" and "blind b sub" and "next_event b ms sub = (r, sub', ms')"
  shows "blind b sub' \<and> all_at (namespaced_key b ''metadata/'') (sent ms') \<and>
    (\<exists>new. (case r of Some (Inr event) \<Rightarrow> [event] | _ \<Rightarrow> []) @ pending_events sub' = pending_events sub @ new \<and> only_events new)"
  using assms
proof (induction b ms sub rule: next_event.induct)
  case (1 b ms sub)
  note prems = 1(2-4)
  have all_at_append: "all_at k (xs @ ys) \<longleftrightarrow> all_at k xs \<and> all_at k ys" for k xs ys by (simp add: all_at_def)
  show ?case
  proof (cases "pending_events sub")
    case (Cons event rest)
    then have "r = Some (Inr event)" "sub' = sub\<lparr>pending_events := rest\<rparr>" "ms' = ms" using prems(3) by simp_all
    then show ?thesis using prems(1,2) Cons by (simp add: blind_def only_events_def)
  next
    case Nil
    show ?thesis
    proof (cases "watch_stream sub = None \<or> ms = []")
      case True
      then have "sub' = sub \<and> ms' = ms \<and> r \<in> {None, Some (Inl Disconnected)}" using prems(3) Nil by (auto split: if_splits)
      then show ?thesis using prems(1,2) Nil by (auto simp: only_events_def)
    next
      case False
      then obtain message rest where ms: "ms = message # rest" and stream: "watch_stream sub \<noteq> None" by (cases ms) auto
      show ?thesis
      proof (cases "\<exists>response. message = Inr (Some response) \<and> \<not> compact_revision response > 0")
        case False
        then have "sub' = sub" "ms' = rest" "\<exists>err. r = Some (Inl err)" "sent ms = sent rest"
          using prems(3) Nil stream by (cases message; auto simp: ms bind_result_def map_err_def split: option.splits sum.splits if_splits)+
        then show ?thesis using prems(1,2) Nil by (auto simp: only_events_def)
      next
        case True
        then obtain response where response: "message = Inr (Some response)" "\<not> compact_revision response > 0" by blast
        obtain err sub1 where push: "push_events b (response_events response) sub = (err, sub1)" by force
        have at: "all_at (namespaced_key b ''metadata/'') (response_events response)" "all_at (namespaced_key b ''metadata/'') (sent rest)"
          using prems(1) response by (simp_all add: ms all_at_append)
        from push_blind[OF at(1) prems(2) push] Nil have b1: "only_events (pending_events sub1)" "blind b sub1" by auto
        show ?thesis
        proof (cases "\<exists>e. err = Some e")
          case True
          then have "sub' = sub1" "ms' = rest" "\<exists>e. r = Some (Inl e)" using prems(3) Nil stream response push by (auto simp: ms)
          then show ?thesis using b1 at(2) Nil by auto
        next
          case False
          then have none: "push_events b (response_events response) sub = (None, sub1)" using push by (cases err) auto
          have step: "next_event b ms sub = (case pending_events sub1 of event # queue \<Rightarrow> (Some (Inr event), sub1\<lparr>pending_events := queue\<rparr>, rest) | [] \<Rightarrow> next_event b rest sub1)"
            using Nil stream response none by (auto simp: ms)
          show ?thesis
          proof (cases "pending_events sub1")
            case Nil2: Nil
            then have go: "next_event b rest sub1 = (r, sub', ms')" using step prems(3) by simp
            from 1(1)[OF Nil stream ms response(1) refl response(2) none[symmetric] refl Nil2 at(2) b1(2) go] show ?thesis by (simp add: Nil Nil2)
          next
            case (Cons event queue)
            then have "r = Some (Inr event)" "sub' = sub1\<lparr>pending_events := queue\<rparr>" "ms' = rest" using step prems(3) by simp_all
            then show ?thesis using b1 at(2) Cons Nil by (simp add: blind_def)
          qed
        qed
      qed
    qed
  qed
qed

lemma served_blind: "blind b sub \<Longrightarrow> watch_stream (resume b sub) = Some t \<Longrightarrow> all_at (namespaced_key b ''metadata/'') (served t log)"
  by (auto simp: resume_def open_watch_def blind_def all_at_def served_def covers_def encode_segment_def list_all_iff split: option.splits)

lemma blind_history:
  assumes "watch_history b log (resume b sub) n later sub' ms unsent" and "blind b sub"
  shows "blind b sub' \<and> all_at (namespaced_key b ''metadata/'') (sent ms) \<and> (\<exists>new. later @ pending_events sub' = pending_events sub @ new \<and> only_events new)"
  using assms
proof (induction rule: watch_history.induct)
  case (opened t ms unsent)
  then have "all_at (namespaced_key b ''metadata/'') (served t log)" using served_blind by blast
  then show ?case using opened by (auto simp: all_at_def resume_def blind_def only_events_def)
next
  case (returned n seen sub1 ms unsent event sub2 ms')
  then obtain new where *: "blind b sub1" "all_at (namespaced_key b ''metadata/'') (sent ms)" "seen @ pending_events sub1 = pending_events sub @ new" "only_events new" by blast
  from next_event_blind[OF *(2,1) returned.hyps(2)] obtain new' where "blind b sub2" "all_at (namespaced_key b ''metadata/'') (sent ms')"
    "event # pending_events sub2 = pending_events sub1 @ new'" "only_events new'" by auto
  moreover from this(3) *(3) have "(seen @ [event]) @ pending_events sub2 = pending_events sub @ (new @ new')" by (metis append.assoc append_Cons append_Nil)
  ultimately show ?case using *(4) by (metis only_events_append)
next
  case (failed n seen sub1 ms unsent err sub2 ms')
  then obtain new where *: "blind b sub1" "all_at (namespaced_key b ''metadata/'') (sent ms)" "seen @ pending_events sub1 = pending_events sub @ new" "only_events new" by blast
  from next_event_blind[OF *(2,1) failed.hyps(2)] obtain new' where "blind b sub2" "all_at (namespaced_key b ''metadata/'') (sent ms')"
    "pending_events sub2 = pending_events sub1 @ new'" "only_events new'" by auto
  moreover from this(3) *(3) have "seen @ pending_events sub2 = pending_events sub @ (new @ new')" by (metis append.assoc)
  ultimately show ?case using *(4) by (metis only_events_append)
next
  case (waiting n seen sub1 ms unsent sub2 ms')
  then obtain new where *: "blind b sub1" "all_at (namespaced_key b ''metadata/'') (sent ms)" "seen @ pending_events sub1 = pending_events sub @ new" "only_events new" by blast
  from next_event_blind[OF *(2,1) waiting.hyps(2)] obtain new' where "blind b sub2" "all_at (namespaced_key b ''metadata/'') (sent ms')"
    "pending_events sub2 = pending_events sub1 @ new'" "only_events new'" by auto
  moreover from this(3) *(3) have "seen @ pending_events sub2 = pending_events sub @ (new @ new')" by (metis append.assoc)
  ultimately show ?case using *(4) by (metis only_events_append)
next
  case (disconnected n seen sub1 ms unsent)
  then show ?case by (simp add: watch_disconnect_def blind_def)
next
  case (resumed n seen sub1 ms unsent t ms' unsent')
  then have "all_at (namespaced_key b ''metadata/'') (served t log)" using served_blind by blast
  then show ?case using resumed by (auto simp: all_at_def resume_def blind_def)
qed

lemma push_events_flags: "push_events b events sub = (r, sub') \<Longrightarrow> watch_prefix sub' = watch_prefix sub \<and> watch_key sub' = watch_key sub"
  by (induction b events sub rule: push_events.induct) (auto split: sum.splits option.splits prod.splits bool.splits)

lemma next_event_flags: "next_event b ms sub = (r, sub', ms') \<Longrightarrow> watch_prefix sub' = watch_prefix sub \<and> watch_key sub' = watch_key sub"
proof (induction b ms sub rule: next_event.induct)
  case (1 b ms sub)
  show ?case
  proof (cases "pending_events sub = [] \<and> watch_stream sub \<noteq> None \<and> (\<exists>response rest. ms = Inr (Some response) # rest \<and> \<not> compact_revision response > 0)")
    case False
    then show ?thesis using 1(2) by (auto split: list.split_asm if_split_asm sum.split_asm option.split_asm)
  next
    case True
    then obtain response rest where ms: "ms = Inr (Some response) # rest" and response: "\<not> compact_revision response > 0"
      and nil: "pending_events sub = []" and stream: "watch_stream sub \<noteq> None" by blast
    obtain err sub1 where push: "push_events b (response_events response) sub = (err, sub1)" by force
    note flags = push_events_flags[OF push]
    have step: "next_event b ms sub = (case err of Some e \<Rightarrow> (Some (Inl e), sub1, rest) | None \<Rightarrow>
        (case pending_events sub1 of event # queue \<Rightarrow> (Some (Inr event), sub1\<lparr>pending_events := queue\<rparr>, rest) | [] \<Rightarrow> next_event b rest sub1))"
      using nil stream response push by (auto simp: ms split: option.splits)
    show ?thesis
    proof (cases "err = None \<and> pending_events sub1 = []")
      case True
      then have go: "next_event b rest sub1 = (r, sub', ms')" using step 1(2) by simp
      from True have none: "err = None" and empty: "pending_events sub1 = []" by simp_all
      from 1(1)[OF nil stream ms refl refl response push[symmetric] none empty go] show ?thesis using flags by simp
    next
      case False
      then show ?thesis using step 1(2) flags by (auto split: option.splits list.splits)
    qed
  qed
qed

lemma history_flags: "watch_history b log first n seen sub ms unsent \<Longrightarrow> watch_prefix sub = watch_prefix first \<and> watch_key sub = watch_key first"
  by (induction rule: watch_history.induct) (auto simp: watch_disconnect_def resume_def simp del: next_event.simps dest!: next_event_flags)

text \<open>C33: A resumed namespace watch has lost its namespace. A namespace watch is opened on every key of
  the namespace. Once it has been resumed, after whatever it went through before, it returns the
  events that were queued already, and after them nothing but events of the one key
  \<^verbatim>\<open>metadata/\<close>, however often it is read, fails or is resumed again: no other change of the
  namespace reaches it any more.\<close>

theorem resumed_watch_coverage:
  assumes "watch_history b log (watch_namespace b start) n seen sub ms unsent"
    and "watch_history b log (resume b sub) m later sub' ms' unsent'"
  shows "(\<forall>relative. covers (the (watch_stream (watch_namespace b start))) (namespaced_key b relative)) \<and>
    (\<exists>new. later @ pending_events sub' = pending_events sub @ new \<and> list_all (\<lambda>e. event_key e = ''metadata/'') new)"
proof -
  have "blind b sub" using history_flags[OF assms(1)] by (simp add: blind_def watch_namespace_def)
  from blind_history[OF assms(2) this] have "\<exists>new. later @ pending_events sub' = pending_events sub @ new \<and> list_all (\<lambda>e. event_key e = ''metadata/'') new"
    by (auto simp: only_events_def)
  moreover have "covers (the (watch_stream (watch_namespace b start))) (namespaced_key b relative)" for relative
    by (auto simp: watch_namespace_def open_namespace_watch_def covers_def namespaced_key_def starts_with_def)
  ultimately show ?thesis by blast
qed

section \<open>Compaction\<close>

text \<open>Recovery from compaction starts a new watch of the same kind, right after the snapshot.\<close>

lemma recovery_opens:
  assumes "recover_compaction b response sub = Inr (state, sub')"
  shows "\<exists>start. sub' = (if watch_prefix sub then sub\<lparr>watch_cursor := WatchCursor_new start, pending_events := [], watch_stream := Some (open_namespace_watch b start)\<rparr>
      else watch_metadata b (watch_key sub) start)"
proof (cases sub)
  case (fields key prefix cursor stream pending)
  then show ?thesis using assms
    by (auto simp: recover_compaction_def bind_result_Inr reset_after_recovery_def WatchCursor_new_def watch_metadata_def split: if_splits)
qed

section \<open>Examples\<close>

definition change :: "string \<Rightarrow> int \<Rightarrow> RawEvent" where
  "change key revision = \<lparr>raw_kind = PutEvent, raw_kv = Some \<lparr>kv_key = namespaced_key demo_backend key, kv_value = ''v'',
     kv_create_revision = 1, kv_mod_revision = revision, kv_version = 1, kv_lease = 0\<rparr>\<rparr>"

definition response_of :: "RawEvent list \<Rightarrow> string + WatchResponse option" where
  "response_of events = Inr (Some \<lparr>compact_revision = 0, response_events = events\<rparr>)"

definition seen_change :: "string \<Rightarrow> int \<Rightarrow> WatchEvent" where
  "seen_change key revision = \<lparr>event_revision = Revision revision, event_key = key, event_value = Some ''v'', event_kind = PutEvent\<rparr>"

text \<open>Two changes of a key and one of a live record; the stream breaks after the first change, which
  the resumed stream replays.\<close>

definition x_key :: string where
  "x_key = ''metadata/'' @ encode_segment ''x''"

definition small_log :: "RawEvent list" where
  "small_log = [change x_key 3, change x_key 5, change ''live/a'' 6, change x_key 7]"

definition key_watch :: WatchSubscription where
  "key_watch = watch_metadata demo_backend ''x'' (Revision 4)"

definition key_watch_read :: WatchSubscription where
  "key_watch_read = fst (snd (next_event demo_backend [response_of [change x_key 5], Inr None] key_watch))"

definition key_watch_resumed :: WatchSubscription where
  "key_watch_resumed = fst (snd (next_event demo_backend [response_of [change x_key 5, change x_key 7]] (resume demo_backend key_watch_read)))"

lemma next_event_parts: "fst (next_event b ms sub) = r \<Longrightarrow> snd (snd (next_event b ms sub)) = ms' \<Longrightarrow> next_event b ms sub = (r, fst (snd (next_event b ms sub)), ms')"
  by (metis prod.collapse)

lemma key_watch_history:
  "watch_history demo_backend small_log key_watch 1 [seen_change ''x'' 5, seen_change ''x'' 7] key_watch_resumed [] []"
proof -
  have open1: "watch_stream key_watch = Some (KeyWatch (namespaced_key demo_backend x_key) 4)" "served (KeyWatch (namespaced_key demo_backend x_key) 4) small_log = sent [response_of [change x_key 5], Inr None] @ [change x_key 7]"
    by code_simp+
  have read1: "next_event demo_backend [response_of [change x_key 5], Inr None] key_watch = (Some (Inr (seen_change ''x'' 5)), key_watch_read, [Inr None])"
    unfolding key_watch_read_def by (rule next_event_parts) code_simp+
  have broken: "next_event demo_backend [Inr None] key_watch_read = (Some (Inl Disconnected), key_watch_read, [])"
  proof -
    have "pending_events key_watch_read = [] \<and> watch_stream key_watch_read \<noteq> None" by code_simp
    then show ?thesis by auto
  qed
  have open2: "watch_stream (resume demo_backend key_watch_read) = Some (KeyWatch (namespaced_key demo_backend x_key) 5)"
    "served (KeyWatch (namespaced_key demo_backend x_key) 5) small_log = sent [response_of [change x_key 5, change x_key 7]] @ []" by code_simp+
  have read2: "next_event demo_backend [response_of [change x_key 5, change x_key 7]] (resume demo_backend key_watch_read) = (Some (Inr (seen_change ''x'' 7)), key_watch_resumed, [])"
    unfolding key_watch_resumed_def by (rule next_event_parts) code_simp+
  from returned[OF resumed[OF failed[OF returned[OF opened[OF open1] read1] broken] open2] read2] show ?thesis by simp
qed

theorem watch_exactly_once_witness:
  "watch_history demo_backend small_log key_watch 1 [seen_change ''x'' 5, seen_change ''x'' 7] key_watch_resumed [] [] \<and>
   expected demo_backend key_watch small_log = [seen_change ''x'' 5, seen_change ''x'' 7] @ pending_events key_watch_resumed"
proof -
  have "sound_watch demo_backend (Revision 4) key_watch 1" by (auto simp: sound_watch_def key_watch_def)
  moreover have "orderly (Revision 4) (expected demo_backend key_watch small_log)" by code_simp
  moreover have "readable demo_backend key_watch (served (the (watch_stream key_watch)) small_log)" by code_simp
  ultimately show ?thesis using watch_exactly_once[OF key_watch_history] key_watch_history by fastforce
qed

text \<open>The stream of a namespace watch ends before the live record changes; the resumed watch never
  returns the change.\<close>

definition namespace_watch :: WatchSubscription where
  "namespace_watch = watch_namespace demo_backend (Revision 6)"

theorem resumed_watch_coverage_witness:
  "watch_history demo_backend small_log namespace_watch 0 [] namespace_watch [] [change ''live/a'' 6, change x_key 7] \<and>
   watch_history demo_backend small_log (resume demo_backend namespace_watch) 0 [] (resume demo_backend namespace_watch) [] [] \<and>
   seen_change ''live/a'' 6 \<in> set (expected demo_backend namespace_watch small_log) \<and>
   seen_change ''live/a'' 6 \<notin> {event. \<exists>m later sub ms unsent. watch_history demo_backend small_log (resume demo_backend namespace_watch) m later sub ms unsent \<and> event \<in> set later}"
proof -
  have open1: "watch_stream namespace_watch = Some (PrefixWatch (namespaced_key demo_backend '''') 6)" "served (PrefixWatch (namespaced_key demo_backend '''') 6) small_log = sent [Inr None] @ [change ''live/a'' 6, change x_key 7]"
    by code_simp+
  have "pending_events namespace_watch = [] \<and> watch_stream namespace_watch \<noteq> None" by code_simp
  then have ended: "next_event demo_backend [Inr None] namespace_watch = (Some (Inl Disconnected), namespace_watch, [])" by auto
  note h = failed[OF opened[OF open1] ended]
  have open2: "watch_stream (resume demo_backend namespace_watch) = Some (KeyWatch (namespaced_key demo_backend ''metadata/'') 6)" "served (KeyWatch (namespaced_key demo_backend ''metadata/'') 6) small_log = sent [] @ []" by code_simp+
  have "seen_change ''live/a'' 6 \<notin> set later" if "watch_history demo_backend small_log (resume demo_backend namespace_watch) m later sub ms unsent" for m later sub ms unsent
  proof -
    from resumed_watch_coverage[OF h[unfolded namespace_watch_def] that[unfolded namespace_watch_def]] obtain new where
      "later @ pending_events sub = new" "list_all (\<lambda>e. event_key e = ''metadata/'') new" by (auto simp: watch_namespace_def)
    then have "\<forall>e \<in> set later. event_key e = ''metadata/''" by (auto simp: list_all_iff)
    moreover have "event_key (seen_change ''live/a'' 6) \<noteq> ''metadata/''" by (simp add: seen_change_def)
    ultimately show ?thesis by blast
  qed
  moreover have "seen_change ''live/a'' 6 \<in> set (expected demo_backend namespace_watch small_log)" by code_simp
  ultimately show ?thesis using h opened[OF open2] by blast
qed

end
