(* ===== verification/Etcd_Client.thy ===== *)
theory Etcd_Client
  imports Watch
begin

text \<open>
  Programs that talk to etcd. An asynchronous function of the backend is a value of type
  \<open>client\<close>: it returns, or it sends one request and continues with the response. Between any two
  requests other clients and lease expiry may change the store, and every request may fail with
  a client error; a transaction whose response is lost may or may not have been applied.
  etcd itself is a parameter: a record of the requests the code uses with a contract that states
  their documented behaviour. Errors of the etcd client carry their message.
\<close>

section \<open>Requests\<close>

text \<open>All comparisons of the code use \<open>CompareOp::Equal\<close>.\<close>

datatype Compare =
    CompareValue string string
  | CompareLease string int
  | CompareVersion string int
  | CompareModRevision string int
  | CompareCreateRevision string int

datatype TxnOp = PutOp (op_key: string) string "int option" | DeleteOp (op_key: string)

datatype 'a client =
    Return 'a
  | GetKey string "string + int option \<times> KeyValue option \<Rightarrow> 'a client"
  | GetPrefix string "string + int option \<times> KeyValue list \<Rightarrow> 'a client"
  | Commit "Compare list" "TxnOp list" "string + int option \<times> bool \<Rightarrow> 'a client"
  | GrantLease int "string + int \<Rightarrow> 'a client"
  | RevokeLease int "string + unit \<Rightarrow> 'a client"

type_synonym 'a action = "(CoordinationError + 'a) client"

primrec bind_client :: "'a client \<Rightarrow> ('a \<Rightarrow> 'b client) \<Rightarrow> 'b client" where
  "bind_client (Return x) g = g x"
| "bind_client (GetKey k f) g = GetKey k (\<lambda>r. bind_client (f r) g)"
| "bind_client (GetPrefix k f) g = GetPrefix k (\<lambda>r. bind_client (f r) g)"
| "bind_client (Commit cs ops f) g = Commit cs ops (\<lambda>r. bind_client (f r) g)"
| "bind_client (GrantLease t f) g = GrantLease t (\<lambda>r. bind_client (f r) g)"
| "bind_client (RevokeLease l f) g = RevokeLease l (\<lambda>r. bind_client (f r) g)"

text \<open>\<open>.await?\<close>: an error ends the function.\<close>

definition bind_action :: "'a action \<Rightarrow> ('a \<Rightarrow> 'b action) \<Rightarrow> 'b action" where
  "bind_action p f = bind_client p (\<lambda>r. case r of Inl e \<Rightarrow> Return (Inl e) | Inr x \<Rightarrow> f x)"

definition get_key :: "string \<Rightarrow> (int option \<times> KeyValue option) action" where
  "get_key k = GetKey k (\<lambda>r. Return (map_err EtcdError r))"

definition get_prefix :: "string \<Rightarrow> (int option \<times> KeyValue list) action" where
  "get_prefix k = GetPrefix k (\<lambda>r. Return (map_err EtcdError r))"

definition commit :: "Compare list \<Rightarrow> TxnOp list \<Rightarrow> (int option \<times> bool) action" where
  "commit cs ops = Commit cs ops (\<lambda>r. Return (map_err EtcdError r))"

definition grant_lease :: "int \<Rightarrow> int action" where
  "grant_lease ttl = GrantLease ttl (\<lambda>r. Return (map_err EtcdError r))"

definition revoke_lease :: "int \<Rightarrow> unit action" where
  "revoke_lease l = RevokeLease l (\<lambda>r. Return (map_err EtcdError r))"

section \<open>The store\<close>

record 's etcd =
  etcd_get :: "'s \<Rightarrow> string \<Rightarrow> KeyValue option"
  etcd_range :: "'s \<Rightarrow> string \<Rightarrow> KeyValue list"
  etcd_revision :: "'s \<Rightarrow> int"
  etcd_txn :: "'s \<Rightarrow> Compare list \<Rightarrow> TxnOp list \<Rightarrow> bool \<times> 's"
  etcd_grant :: "'s \<Rightarrow> int \<Rightarrow> int \<times> 's"
  etcd_revoke :: "'s \<Rightarrow> int \<Rightarrow> 's"
  etcd_other :: "'s \<Rightarrow> 's \<Rightarrow> bool"

text \<open>A missing key has version, revisions and lease 0, and no value.\<close>

definition compare_holds :: "(string \<Rightarrow> KeyValue option) \<Rightarrow> Compare \<Rightarrow> bool" where
  "compare_holds get c = (case c of
     CompareValue k v \<Rightarrow> (case get k of None \<Rightarrow> False | Some kv \<Rightarrow> kv_value kv = v)
   | CompareLease k l \<Rightarrow> (case get k of None \<Rightarrow> l = 0 | Some kv \<Rightarrow> kv_lease kv = l)
   | CompareVersion k v \<Rightarrow> (case get k of None \<Rightarrow> v = 0 | Some kv \<Rightarrow> kv_version kv = v)
   | CompareModRevision k r \<Rightarrow> (case get k of None \<Rightarrow> r = 0 | Some kv \<Rightarrow> kv_mod_revision kv = r)
   | CompareCreateRevision k r \<Rightarrow> (case get k of None \<Rightarrow> r = 0 | Some kv \<Rightarrow> kv_create_revision kv = r))"

text \<open>The record a key has after the operations of a transaction at the given revision.\<close>

definition written :: "int \<Rightarrow> TxnOp list \<Rightarrow> (string \<Rightarrow> KeyValue option) \<Rightarrow> string \<Rightarrow> KeyValue option" where
  "written revision ops get k =
     (case find (\<lambda>op. op_key op = k) ops of
        None \<Rightarrow> get k
      | Some (DeleteOp _) \<Rightarrow> None
      | Some (PutOp _ v lease) \<Rightarrow>
          Some \<lparr>kv_key = k, kv_value = v,
            kv_create_revision = (case get k of None \<Rightarrow> revision | Some kv \<Rightarrow> kv_create_revision kv),
            kv_mod_revision = revision,
            kv_version = (case get k of None \<Rightarrow> 1 | Some kv \<Rightarrow> kv_version kv + 1),
            kv_lease = (case lease of None \<Rightarrow> 0 | Some l \<Rightarrow> l)\<rparr>)"

definition is_put :: "TxnOp \<Rightarrow> bool" where
  "is_put op = (case op of PutOp _ _ _ \<Rightarrow> True | DeleteOp _ \<Rightarrow> False)"

text \<open>What the code relies on. A transaction that puts a key twice has no effect; it is answered like one
  whose comparisons fail. A transaction takes effect when it is sent or not at all, also when its
  response is lost. A record is stamped with the revision of its last write, so a record no newer
  than an earlier store was already in that store.\<close>

definition newer :: "'s etcd \<Rightarrow> 's \<Rightarrow> 's \<Rightarrow> bool" where
  "newer e s s' \<longleftrightarrow> etcd_revision e s \<le> etcd_revision e s' \<and>
     (\<forall>k kv. etcd_get e s' k = Some kv \<longrightarrow> kv_mod_revision kv \<le> etcd_revision e s \<longrightarrow> etcd_get e s k = Some kv)"

definition etcd_contract :: "'s etcd \<Rightarrow> bool" where
  "etcd_contract e \<longleftrightarrow>
     (\<forall>s cs ops. distinct (map op_key ops) \<longrightarrow>
        (if \<forall>c \<in> set cs. compare_holds (etcd_get e s) c
         then \<exists>s'. etcd_txn e s cs ops = (True, s') \<and> etcd_get e s' = written (etcd_revision e s + 1) ops (etcd_get e s) \<and>
           etcd_revision e s' \<in> {etcd_revision e s, etcd_revision e s + 1} \<and>
           (list_ex is_put ops \<longrightarrow> etcd_revision e s' = etcd_revision e s + 1)
         else etcd_txn e s cs ops = (False, s))) \<and>
     (\<forall>s cs ops. \<not> distinct (map op_key (filter is_put ops)) \<longrightarrow> etcd_txn e s cs ops = (False, s)) \<and>
     (\<forall>s k kv. etcd_get e s k = Some kv \<longrightarrow> kv_key kv = k \<and> 0 < kv_mod_revision kv \<and> kv_mod_revision kv \<le> etcd_revision e s \<and> 0 < kv_version kv) \<and>
     (\<forall>s. 0 < etcd_revision e s) \<and>
     (\<forall>s p. distinct (map kv_key (etcd_range e s p)) \<and>
        set (etcd_range e s p) = {kv. \<exists>k. etcd_get e s k = Some kv \<and> starts_with p k}) \<and>
     (\<forall>s ttl. newer e s (snd (etcd_grant e s ttl)) \<and> fst (etcd_grant e s ttl) \<noteq> 0) \<and>
     (\<forall>s l. newer e s (etcd_revoke e s l)) \<and>
     (\<forall>s s'. etcd_other e s s' \<longrightarrow> newer e s s')"

section \<open>Runs\<close>

text \<open>The responses a request may get in a store, and the store after it. A response header
  carries the revision of the store, or is missing.\<close>

definition header :: "'s etcd \<Rightarrow> 's \<Rightarrow> int option \<Rightarrow> bool" where
  "header e s h \<longleftrightarrow> h = None \<or> h = Some (etcd_revision e s)"

definition got :: "'s etcd \<Rightarrow> 's \<Rightarrow> string \<Rightarrow> string + int option \<times> KeyValue option \<Rightarrow> bool" where
  "got e s k r \<longleftrightarrow> (case r of Inl _ \<Rightarrow> True | Inr (h, kv) \<Rightarrow> header e s h \<and> kv = etcd_get e s k)"

definition ranged :: "'s etcd \<Rightarrow> 's \<Rightarrow> string \<Rightarrow> string + int option \<times> KeyValue list \<Rightarrow> bool" where
  "ranged e s k r \<longleftrightarrow> (case r of Inl _ \<Rightarrow> True | Inr (h, kvs) \<Rightarrow> header e s h \<and> kvs = etcd_range e s k)"

definition committed :: "'s etcd \<Rightarrow> 's \<Rightarrow> Compare list \<Rightarrow> TxnOp list \<Rightarrow> string + int option \<times> bool \<Rightarrow>
    ('s \<times> TxnOp list \<times> 's) list \<Rightarrow> 's \<Rightarrow> bool" where
  "committed e s cs ops r applied t \<longleftrightarrow>
     (\<exists>succeeded. etcd_txn e s cs ops = (succeeded, t) \<and> applied = (if succeeded then [(s, ops, t)] else []) \<and>
        (case r of Inl _ \<Rightarrow> True | Inr (h, b) \<Rightarrow> header e t h \<and> b = succeeded)) \<or>
     (applied = [] \<and> t = s \<and> (case r of Inl _ \<Rightarrow> True | Inr _ \<Rightarrow> False))"

definition granted :: "'s etcd \<Rightarrow> 's \<Rightarrow> int \<Rightarrow> string + int \<Rightarrow> 's \<Rightarrow> bool" where
  "granted e s ttl r t \<longleftrightarrow> (case r of Inl _ \<Rightarrow> t = s \<or> t = snd (etcd_grant e s ttl) | Inr l \<Rightarrow> etcd_grant e s ttl = (l, t))"

definition revoked :: "'s etcd \<Rightarrow> 's \<Rightarrow> int \<Rightarrow> string + unit \<Rightarrow> 's \<Rightarrow> bool" where
  "revoked e s l r t \<longleftrightarrow> (case r of Inl _ \<Rightarrow> t = s \<or> t = etcd_revoke e s l | Inr _ \<Rightarrow> t = etcd_revoke e s l)"

text \<open>A run from a store to a store with a result, and the transactions of the program that were
  applied on the way, each with the store before and after it.\<close>

inductive runs :: "'s etcd \<Rightarrow> 's \<Rightarrow> 'a client \<Rightarrow> ('s \<times> TxnOp list \<times> 's) list \<Rightarrow> 's \<Rightarrow> 'a \<Rightarrow> bool"
  for e :: "'s etcd" where
  run_return: "runs e s (Return x) [] s x"
| run_other: "etcd_other e s t \<Longrightarrow> runs e t p log s' x \<Longrightarrow> runs e s p log s' x"
| run_get: "got e s k r \<Longrightarrow> runs e s (f r) log s' x \<Longrightarrow> runs e s (GetKey k f) log s' x"
| run_range: "ranged e s k r \<Longrightarrow> runs e s (f r) log s' x \<Longrightarrow> runs e s (GetPrefix k f) log s' x"
| run_commit: "committed e s cs ops r applied t \<Longrightarrow> runs e t (f r) log s' x \<Longrightarrow> runs e s (Commit cs ops f) (applied @ log) s' x"
| run_grant: "granted e s ttl r t \<Longrightarrow> runs e t (f r) log s' x \<Longrightarrow> runs e s (GrantLease ttl f) log s' x"
| run_revoke: "revoked e s l r t \<Longrightarrow> runs e t (f r) log s' x \<Longrightarrow> runs e s (RevokeLease l f) log s' x"

text \<open>What other clients and lease expiry do between two requests.\<close>

abbreviation others :: "'s etcd \<Rightarrow> 's \<Rightarrow> 's \<Rightarrow> bool" where
  "others e \<equiv> (etcd_other e)\<^sup>*\<^sup>*"

lemma run_others: "others e s t \<Longrightarrow> runs e t p log s' x \<Longrightarrow> runs e s p log s' x"
  by (induction rule: converse_rtranclp_induct) (auto intro: run_other)

inductive_cases runs_cases: "runs e s p log s' x"

text \<open>Inversion of a run, one rule for every kind of program.\<close>

lemma runs_Return: "runs e s (Return x) log s' y \<longleftrightarrow> others e s s' \<and> log = [] \<and> y = x"
proof
  show "runs e s (Return x) log s' y \<Longrightarrow> others e s s' \<and> log = [] \<and> y = x"
    by (induction s "Return x :: 'b client" log s' y rule: runs.induct) (auto intro: converse_rtranclp_into_rtranclp)
  show "others e s s' \<and> log = [] \<and> y = x \<Longrightarrow> runs e s (Return x) log s' y"
    by (auto intro: run_others run_return)
qed

lemma runs_GetKey: "runs e s (GetKey k f) log s' y \<longleftrightarrow> (\<exists>t r. others e s t \<and> got e t k r \<and> runs e t (f r) log s' y)"
proof
  show "runs e s (GetKey k f) log s' y \<Longrightarrow> \<exists>t r. others e s t \<and> got e t k r \<and> runs e t (f r) log s' y"
    by (induction s "GetKey k f" log s' y rule: runs.induct) (blast intro: converse_rtranclp_into_rtranclp)+
qed (blast intro: run_others run_get)

lemma runs_GetPrefix: "runs e s (GetPrefix k f) log s' y \<longleftrightarrow> (\<exists>t r. others e s t \<and> ranged e t k r \<and> runs e t (f r) log s' y)"
proof
  show "runs e s (GetPrefix k f) log s' y \<Longrightarrow> \<exists>t r. others e s t \<and> ranged e t k r \<and> runs e t (f r) log s' y"
    by (induction s "GetPrefix k f" log s' y rule: runs.induct) (blast intro: converse_rtranclp_into_rtranclp)+
qed (blast intro: run_others run_range)

lemma runs_Commit: "runs e s (Commit cs ops f) log s' y \<longleftrightarrow>
    (\<exists>t r applied u log'. others e s t \<and> committed e t cs ops r applied u \<and> runs e u (f r) log' s' y \<and> log = applied @ log')"
proof
  show "runs e s (Commit cs ops f) log s' y \<Longrightarrow>
      \<exists>t r applied u log'. others e s t \<and> committed e t cs ops r applied u \<and> runs e u (f r) log' s' y \<and> log = applied @ log'"
    by (induction s "Commit cs ops f" log s' y rule: runs.induct) (blast intro: converse_rtranclp_into_rtranclp)+
qed (blast intro: run_others run_commit)

lemma runs_GrantLease: "runs e s (GrantLease ttl f) log s' y \<longleftrightarrow> (\<exists>t r u. others e s t \<and> granted e t ttl r u \<and> runs e u (f r) log s' y)"
proof
  show "runs e s (GrantLease ttl f) log s' y \<Longrightarrow> \<exists>t r u. others e s t \<and> granted e t ttl r u \<and> runs e u (f r) log s' y"
    by (induction s "GrantLease ttl f" log s' y rule: runs.induct) (blast intro: converse_rtranclp_into_rtranclp)+
qed (blast intro: run_others run_grant)

lemma runs_RevokeLease: "runs e s (RevokeLease l f) log s' y \<longleftrightarrow> (\<exists>t r u. others e s t \<and> revoked e t l r u \<and> runs e u (f r) log s' y)"
proof
  show "runs e s (RevokeLease l f) log s' y \<Longrightarrow> \<exists>t r u. others e s t \<and> revoked e t l r u \<and> runs e u (f r) log s' y"
    by (induction s "RevokeLease l f" log s' y rule: runs.induct) (blast intro: converse_rtranclp_into_rtranclp)+
qed (blast intro: run_others run_revoke)

lemmas runs_request = runs_GetKey runs_GetPrefix runs_Commit runs_GrantLease runs_RevokeLease

text \<open>Sequencing.\<close>

lemma runs_bind_client:
  "runs e s (bind_client p g) log s' y \<longleftrightarrow>
     (\<exists>l1 t x l2. runs e s p l1 t x \<and> runs e t (g x) l2 s' y \<and> log = l1 @ l2)"
proof (induction p arbitrary: s log)
  case (Return x)
  show ?case unfolding bind_client.simps runs_Return by (auto intro: run_others)
next
  case (GetKey k f)
  show ?case unfolding bind_client.simps runs_GetKey using GetKey[OF rangeI] by blast
next
  case (GetPrefix k f)
  show ?case unfolding bind_client.simps runs_GetPrefix using GetPrefix[OF rangeI] by blast
next
  case (Commit cs ops f)
  show ?case unfolding bind_client.simps runs_Commit
  proof (intro iffI; elim exE conjE)
    fix t r applied u log'
    assume "others e s t" "committed e t cs ops r applied u" "runs e u (bind_client (f r) g) log' s' y" "log = applied @ log'"
    moreover from this obtain l1 v x l2 where "runs e u (f r) l1 v x" "runs e v (g x) l2 s' y" "log' = l1 @ l2"
      using Commit[OF rangeI] by blast
    ultimately show "\<exists>l1 ta x l2. (\<exists>t r applied u log'. others e s t \<and> committed e t cs ops r applied u \<and> runs e u (f r) log' ta x \<and> l1 = applied @ log') \<and>
        runs e ta (g x) l2 s' y \<and> log = l1 @ l2" by (metis append.assoc)
  next
    fix l1 t x l2 ta r applied u log'
    assume "runs e t (g x) l2 s' y" "log = l1 @ l2" "others e s ta" "committed e ta cs ops r applied u" "runs e u (f r) log' t x" "l1 = applied @ log'"
    moreover from this have "runs e u (bind_client (f r) g) (log' @ l2) s' y" using Commit[OF rangeI] by blast
    ultimately show "\<exists>t r applied u log'. others e s t \<and> committed e t cs ops r applied u \<and> runs e u (bind_client (f r) g) log' s' y \<and> log = applied @ log'"
      by (metis append.assoc)
  qed
next
  case (GrantLease ttl f)
  show ?case unfolding bind_client.simps runs_GrantLease using GrantLease[OF rangeI] by blast
next
  case (RevokeLease l f)
  show ?case unfolding bind_client.simps runs_RevokeLease using RevokeLease[OF rangeI] by blast
qed

lemma runs_bind_action:
  "runs e s (bind_action p f) log s' y \<longleftrightarrow>
     (\<exists>err t. runs e s p log t (Inl err) \<and> others e t s' \<and> y = Inl err) \<or>
     (\<exists>l1 t x l2. runs e s p l1 t (Inr x) \<and> runs e t (f x) l2 s' y \<and> log = l1 @ l2)"
proof -
  have "runs e s (bind_action p f) log s' y \<longleftrightarrow>
      (\<exists>l1 t x l2. runs e s p l1 t x \<and> runs e t (case x of Inl err \<Rightarrow> Return (Inl err) | Inr z \<Rightarrow> f z) l2 s' y \<and> log = l1 @ l2)"
    unfolding bind_action_def runs_bind_client ..
  also have "\<dots> \<longleftrightarrow> (\<exists>l1 t err l2. runs e s p l1 t (Inl err) \<and> runs e t (Return (Inl err)) l2 s' y \<and> log = l1 @ l2) \<or>
      (\<exists>l1 t x l2. runs e s p l1 t (Inr x) \<and> runs e t (f x) l2 s' y \<and> log = l1 @ l2)"
    by (simp add: split_sum_ex ex_disj_distrib)
  finally show ?thesis unfolding runs_Return by auto
qed

text \<open>The primitive requests.\<close>

lemma runs_get_key: "runs e s (get_key k) log s' y \<longleftrightarrow> (\<exists>t r. others e s t \<and> got e t k r \<and> others e t s' \<and> log = [] \<and> map_err EtcdError r = y)"
  by (auto simp: get_key_def runs_GetKey runs_Return)

lemma runs_get_prefix: "runs e s (get_prefix k) log s' y \<longleftrightarrow> (\<exists>t r. others e s t \<and> ranged e t k r \<and> others e t s' \<and> log = [] \<and> map_err EtcdError r = y)"
  by (auto simp: get_prefix_def runs_GetPrefix runs_Return)

lemma runs_commit: "runs e s (commit cs ops) log s' y \<longleftrightarrow> (\<exists>t r u. others e s t \<and> committed e t cs ops r log u \<and> others e u s' \<and> map_err EtcdError r = y)"
  by (auto simp: commit_def runs_Commit runs_Return)

lemma runs_grant_lease: "runs e s (grant_lease ttl) log s' y \<longleftrightarrow> (\<exists>t r u. others e s t \<and> granted e t ttl r u \<and> others e u s' \<and> log = [] \<and> map_err EtcdError r = y)"
  by (auto simp: grant_lease_def runs_GrantLease runs_Return)

lemma runs_revoke_lease: "runs e s (revoke_lease l) log s' y \<longleftrightarrow> (\<exists>t r u. others e s t \<and> revoked e t l r u \<and> others e u s' \<and> log = [] \<and> map_err EtcdError r = y)"
  by (auto simp: revoke_lease_def runs_RevokeLease runs_Return)

section \<open>Consequences of the contract\<close>

lemma newer_refl: "newer e s s"
  by (simp add: newer_def)

lemma newer_trans: "newer e s t \<Longrightarrow> newer e t u \<Longrightarrow> newer e s u"
  by (auto simp: newer_def)

lemma contract_txn:
  assumes "etcd_contract e" and "distinct (map op_key ops)" and "etcd_txn e s cs ops = (b, t)"
  shows "b \<longleftrightarrow> (\<forall>c \<in> set cs. compare_holds (etcd_get e s) c)"
    and "\<not> b \<Longrightarrow> t = s"
    and "b \<Longrightarrow> etcd_get e t = written (etcd_revision e s + 1) ops (etcd_get e s)"
    and "b \<Longrightarrow> etcd_revision e t \<in> {etcd_revision e s, etcd_revision e s + 1}"
    and "b \<Longrightarrow> list_ex is_put ops \<Longrightarrow> etcd_revision e t = etcd_revision e s + 1"
proof -
  have "if \<forall>c \<in> set cs. compare_holds (etcd_get e s) c
     then \<exists>s'. etcd_txn e s cs ops = (True, s') \<and> etcd_get e s' = written (etcd_revision e s + 1) ops (etcd_get e s) \<and>
       etcd_revision e s' \<in> {etcd_revision e s, etcd_revision e s + 1} \<and>
       (list_ex is_put ops \<longrightarrow> etcd_revision e s' = etcd_revision e s + 1)
     else etcd_txn e s cs ops = (False, s)"
    using assms(1,2) unfolding etcd_contract_def by blast
  then show "b \<longleftrightarrow> (\<forall>c \<in> set cs. compare_holds (etcd_get e s) c)"
    and "\<not> b \<Longrightarrow> t = s"
    and "b \<Longrightarrow> etcd_get e t = written (etcd_revision e s + 1) ops (etcd_get e s)"
    and "b \<Longrightarrow> etcd_revision e t \<in> {etcd_revision e s, etcd_revision e s + 1}"
    and "b \<Longrightarrow> list_ex is_put ops \<Longrightarrow> etcd_revision e t = etcd_revision e s + 1"
    unfolding assms(3) by (auto split: if_splits)
qed

lemma contract_duplicate:
  assumes "etcd_contract e" and "etcd_txn e s cs ops = (True, t)"
  shows "distinct (map op_key (filter is_put ops))"
  using assms unfolding etcd_contract_def by (metis fst_conv)

lemma contract_get:
  assumes "etcd_contract e" and "etcd_get e s k = Some kv"
  shows "kv_key kv = k" and "0 < kv_mod_revision kv" and "kv_mod_revision kv \<le> etcd_revision e s" and "0 < kv_version kv"
  using assms unfolding etcd_contract_def by blast+

lemma contract_revision: "etcd_contract e \<Longrightarrow> 0 < etcd_revision e s"
  unfolding etcd_contract_def by blast

lemma contract_range:
  assumes "etcd_contract e"
  shows "distinct (map kv_key (etcd_range e s p))" and "set (etcd_range e s p) = {kv. \<exists>k. etcd_get e s k = Some kv \<and> starts_with p k}"
  using assms unfolding etcd_contract_def by blast+

lemma others_newer:
  assumes "etcd_contract e" and "others e s t"
  shows "newer e s t"
  using assms(2)
proof (induction rule: rtranclp_induct)
  case (step t u)
  have "newer e t u" using assms(1) step.hyps(2) unfolding etcd_contract_def by blast
  with step.IH show ?case by (rule newer_trans)
qed (rule newer_refl)

lemma txn_newer:
  assumes "etcd_contract e" and "distinct (map op_key ops)" and "etcd_txn e s cs ops = (b, t)"
  shows "newer e s t"
proof (cases b)
  case True
  have "etcd_get e s k = Some kv" if "etcd_get e t k = Some kv" "kv_mod_revision kv \<le> etcd_revision e s" for k kv
    using that unfolding contract_txn(3)[OF assms True] by (auto simp: written_def split: option.splits TxnOp.splits)
  then show ?thesis using contract_txn(4)[OF assms True] by (auto simp: newer_def)
qed (use contract_txn(2)[OF assms] newer_refl in metis)

text \<open>A key whose record did not change its modification revision did not change at all.\<close>

lemma same_revision:
  assumes "etcd_contract e" and "newer e s t" and "etcd_get e s k = Some a" and "etcd_get e t k = Some b" and "kv_mod_revision b = kv_mod_revision a"
  shows "b = a"
  using assms contract_get(3)[OF assms(1,3)] by (metis newer_def option.inject)

section \<open>Reasoning about runs\<close>

lemma bind_action_simps [simp]:
  "bind_action (Return (Inl err)) f = Return (Inl err)" "bind_action (Return (Inr x)) f = f x"
  by (simp_all add: bind_action_def)

text \<open>All transactions a program may send satisfy \<open>P\<close>, whatever it is answered.\<close>

primrec all_commits :: "(Compare list \<Rightarrow> TxnOp list \<Rightarrow> bool) \<Rightarrow> 'a client \<Rightarrow> bool" where
  "all_commits P (Return x) = True"
| "all_commits P (GetKey k f) = (\<forall>r. all_commits P (f r))"
| "all_commits P (GetPrefix k f) = (\<forall>r. all_commits P (f r))"
| "all_commits P (Commit cs ops f) = (P cs ops \<and> (\<forall>r. all_commits P (f r)))"
| "all_commits P (GrantLease t f) = (\<forall>r. all_commits P (f r))"
| "all_commits P (RevokeLease l f) = (\<forall>r. all_commits P (f r))"

named_theorems commits \<open>introduction rules for the transactions of a program\<close>

lemma all_commits_bind_client: "all_commits P p \<Longrightarrow> (\<And>x. all_commits P (g x)) \<Longrightarrow> all_commits P (bind_client p g)"
  by (induction p) auto

lemma all_commits_bind [commits]: "all_commits P p \<Longrightarrow> (\<And>x. all_commits P (f x)) \<Longrightarrow> all_commits P (bind_action p f)"
  unfolding bind_action_def by (rule all_commits_bind_client) (auto split: sum.splits)

lemma all_commits_requests [simp]:
  "all_commits P (get_key k)" "all_commits P (get_prefix k)" "all_commits P (commit cs ops) \<longleftrightarrow> P cs ops"
  "all_commits P (grant_lease t)" "all_commits P (revoke_lease l)"
  by (auto simp: get_key_def get_prefix_def commit_def grant_lease_def revoke_lease_def)

lemma all_commits_mono: "all_commits P p \<Longrightarrow> (\<And>cs ops. P cs ops \<Longrightarrow> Q cs ops) \<Longrightarrow> all_commits Q p"
  by (induction p) auto

text \<open>Every applied transaction is one the program may send, with its comparisons true.\<close>

lemma runs_log:
  assumes "runs e s p log s' x" and "all_commits P p" and "(t, ops, u) \<in> set log"
  shows "\<exists>cs. P cs ops \<and> etcd_txn e t cs ops = (True, u)"
  using assms
proof (induction rule: runs.induct)
  case (run_commit s cs ops' r es w f log s' x)
  then show ?case by (auto simp: committed_def split: if_splits)
qed auto

lemma silent_log:
  assumes "runs e s p log s' x" and "all_commits (\<lambda>_ _. False) p"
  shows "log = []"
proof (rule ccontr)
  assume "log \<noteq> []"
  then obtain t ops u where "(t, ops, u) \<in> set log" by (metis list.set_intros(1) neq_Nil_conv prod_cases3)
  from runs_log[OF assms this] show False by blast
qed

text \<open>The store only moves forward along a run.\<close>

definition well_formed_txn :: "Compare list \<Rightarrow> TxnOp list \<Rightarrow> bool" where
  "well_formed_txn cs ops \<longleftrightarrow> distinct (map op_key ops)"

lemma runs_newer:
  assumes "runs e s p log s' x" and "etcd_contract e" and "all_commits well_formed_txn p"
  shows "newer e s s'"
  using assms
proof (induction rule: runs.induct)
  case (run_other s t p log s' x)
  have "newer e s t" using run_other.prems(1) run_other.hyps(1) unfolding etcd_contract_def by blast
  then show ?case using run_other.IH[OF run_other.prems] by (rule newer_trans)
next
  case (run_commit s cs ops r es t f log s' x)
  then have "newer e s t" using txn_newer[of e ops s cs] newer_refl by (auto simp: committed_def well_formed_txn_def)
  then show ?case using run_commit.IH run_commit.prems by (auto intro: newer_trans)
next
  case (run_grant s ttl r t f log s' x)
  have "newer e s (snd (etcd_grant e s ttl))" using run_grant.prems(1) unfolding etcd_contract_def by blast
  then have "newer e s t" using run_grant.hyps(1) newer_refl by (auto simp: granted_def split: sum.splits)
  then show ?case using run_grant.IH run_grant.prems by (auto intro: newer_trans)
next
  case (run_revoke s l r t f log s' x)
  have "newer e s (etcd_revoke e s l)" using run_revoke.prems(1) unfolding etcd_contract_def by blast
  then have "newer e s t" using run_revoke.hyps(1) newer_refl by (auto simp: revoked_def split: sum.splits)
  then show ?case using run_revoke.IH run_revoke.prems by (auto intro: newer_trans)
qed (auto simp: newer_refl)

lemma map_err_Inl: "map_err f r = Inl err \<longleftrightarrow> (\<exists>x. r = Inl x \<and> err = f x)"
  by (cases r) auto

text \<open>One request, then the rest.\<close>

lemma run_get_then:
  assumes "runs e s (bind_action (get_key k) f) log s' y" and "etcd_contract e"
  obtains (error) msg where "y = Inl (EtcdError msg)" "log = []"
  | (response) t u h where "newer e s t" "newer e t u" "header e t h" "runs e u (f (h, etcd_get e t k)) log s' y"
proof -
  consider err t where "runs e s (get_key k) log t (Inl err)" "y = Inl err"
    | l1 t x l2 where "runs e s (get_key k) l1 t (Inr x)" "runs e t (f x) l2 s' y" "log = l1 @ l2"
    using assms(1) unfolding runs_bind_action by blast
  then show ?thesis
  proof cases
    case 1
    then show ?thesis using error by (auto simp: runs_get_key map_err_Inl)
  next
    case 2
    then obtain w where "others e s w" "got e w k (Inr x)" "others e w t" "l1 = []" by (auto simp: runs_get_key)
    then show ?thesis using response[of w t "fst x"] 2 others_newer[OF assms(2)] by (cases x) (auto simp: got_def)
  qed
qed

lemma run_range_then:
  assumes "runs e s (bind_action (get_prefix k) f) log s' y" and "etcd_contract e"
  obtains (error) msg where "y = Inl (EtcdError msg)" "log = []"
  | (response) t u h where "newer e s t" "newer e t u" "header e t h" "runs e u (f (h, etcd_range e t k)) log s' y"
proof -
  consider err t where "runs e s (get_prefix k) log t (Inl err)" "y = Inl err"
    | l1 t x l2 where "runs e s (get_prefix k) l1 t (Inr x)" "runs e t (f x) l2 s' y" "log = l1 @ l2"
    using assms(1) unfolding runs_bind_action by blast
  then show ?thesis
  proof cases
    case 1
    then show ?thesis using error by (auto simp: runs_get_prefix map_err_Inl)
  next
    case 2
    then obtain w where "others e s w" "ranged e w k (Inr x)" "others e w t" "l1 = []" by (auto simp: runs_get_prefix)
    then show ?thesis using response[of w t "fst x"] 2 others_newer[OF assms(2)] by (cases x) (auto simp: ranged_def)
  qed
qed

lemma run_commit_then:
  assumes "runs e s (bind_action (commit cs ops) f) log s' y" and "etcd_contract e" and "distinct (map op_key ops)"
  obtains (error) msg where "y = Inl (EtcdError msg)" "log = []"
  | (lost) msg t u where "y = Inl (EtcdError msg)" "newer e s t" "etcd_txn e t cs ops = (True, u)" "log = [(t, ops, u)]"
  | (failed) t u h where "newer e s t" "\<not> (\<forall>c \<in> set cs. compare_holds (etcd_get e t) c)" "newer e t u" "header e t h" "runs e u (f (h, False)) log s' y"
  | (applied) t u w h log' where "newer e s t" "etcd_txn e t cs ops = (True, u)" "newer e u w" "header e u h"
      "runs e w (f (h, True)) log' s' y" "log = (t, ops, u) # log'"
proof -
  consider err t where "runs e s (commit cs ops) log t (Inl err)" "y = Inl err"
    | l1 t x l2 where "runs e s (commit cs ops) l1 t (Inr x)" "runs e t (f x) l2 s' y" "log = l1 @ l2"
    using assms(1) unfolding runs_bind_action by blast
  then show ?thesis
  proof cases
    case 1
    then obtain w msg u where w: "others e s w" "committed e w cs ops (Inl msg) log u" "err = EtcdError msg"
      by (auto simp: runs_commit map_err_Inl)
    have "newer e s w" by (rule others_newer[OF assms(2) w(1)])
    then show ?thesis using error[of msg] lost[of msg w u] w(2,3) 1(2) by (auto simp: committed_def split: if_splits)
  next
    case 2
    then obtain w u h b where w: "others e s w" "committed e w cs ops (Inr (h, b)) l1 u" "others e u t" "x = (h, b)"
      by (cases x) (auto simp: runs_commit)
    then have txn: "etcd_txn e w cs ops = (b, u)" "l1 = (if b then [(w, ops, u)] else [])" "header e u h" by (auto simp: committed_def)
    show ?thesis
    proof (cases b)
      case True
      then show ?thesis using applied[of w u t h l2] txn w 2 others_newer[OF assms(2)] by simp
    next
      case False
      have "\<not> (\<forall>c \<in> set cs. compare_holds (etcd_get e w) c)" "u = w"
        using contract_txn(1,2)[OF assms(2,3) txn(1)] False by simp_all
      moreover have "log = l2" "runs e t (f (h, False)) l2 s' y" using False txn(2) w(4) 2(2,3) by simp_all
      ultimately show ?thesis using failed[of w t h] txn(3) others_newer[OF assms(2) w(1)] others_newer[OF assms(2) w(3)] by simp
    qed
  qed
qed

text \<open>A part that sends no transaction, then the rest.\<close>

lemma run_silent_then:
  assumes "runs e s (bind_action p f) log s' y" and "etcd_contract e" and "all_commits (\<lambda>_ _. False) p"
  obtains (error) err t where "runs e s p [] t (Inl err)" "y = Inl err" "log = []"
  | (result) t x where "runs e s p [] t (Inr x)" "newer e s t" "runs e t (f x) log s' y"
proof -
  have n: "newer e s t" if "runs e s p l t x" for l t x
    by (rule runs_newer[OF that assms(2)]) (rule all_commits_mono[OF assms(3)], simp)
  show ?thesis using assms(1) error result silent_log[OF _ assms(3)] n unfolding runs_bind_action by (metis append_Nil)
qed

end
