(* ===== verification/Etcd_Reference.thy ===== *)
theory Etcd_Reference
  imports Etcd_Client
begin

text \<open>
  A small in-memory store that satisfies the etcd contract: records in an ordered map and a
  revision counter. It shows that the contract can hold and runs the examples.
\<close>

type_synonym mem_store = "(string, KeyValue) btree \<times> nat"

definition mem_valid :: "nat \<Rightarrow> string \<times> KeyValue \<Rightarrow> bool" where
  "mem_valid now e = (kv_key (snd e) = fst e \<and> 0 < kv_mod_revision (snd e) \<and> kv_mod_revision (snd e) \<le> int (Suc now) \<and> 0 < kv_version (snd e))"

definition mem_records :: "mem_store \<Rightarrow> (string, KeyValue) btree" where
  "mem_records s = bt_collect (filter (mem_valid (snd s)) (entries (fst s)))"

definition mem_apply :: "int \<Rightarrow> (string, KeyValue) btree \<Rightarrow> TxnOp \<Rightarrow> (string, KeyValue) btree \<Rightarrow> (string, KeyValue) btree" where
  "mem_apply now m op m' = (case op of
     DeleteOp k \<Rightarrow> bt_remove k m'
   | PutOp k v lease \<Rightarrow> bt_insert k (the (written now [op] (bt_get m) k)) m')"

definition mem_txn :: "mem_store \<Rightarrow> Compare list \<Rightarrow> TxnOp list \<Rightarrow> bool \<times> mem_store" where
  "mem_txn s cs ops =
     (if distinct (map op_key (filter is_put ops)) \<and> list_all (compare_holds (bt_get (mem_records s))) cs
      then (True, (fold (mem_apply (int (Suc (snd s)) + 1) (mem_records s)) ops (mem_records s), if ops = [] then snd s else snd s + 1))
      else (False, s))"

abbreviation mem_range :: "mem_store \<Rightarrow> string \<Rightarrow> KeyValue list" where
  "mem_range s p \<equiv> filter (\<lambda>kv. starts_with p (kv_key kv)) (bt_values (mem_records s))"

abbreviation mem_revoke :: "mem_store \<Rightarrow> int \<Rightarrow> mem_store" where
  "mem_revoke s l \<equiv> (bt_collect (filter (\<lambda>e. kv_lease (snd e) \<noteq> l) (entries (fst s))), snd s)"

definition mem_etcd :: "mem_store etcd" where
  "mem_etcd =
     \<lparr>etcd_get = (\<lambda>s. bt_get (mem_records s)),
      etcd_range = mem_range,
      etcd_revision = (\<lambda>s. int (Suc (snd s))),
      etcd_txn = mem_txn,
      etcd_grant = (\<lambda>s ttl. (1, s)),
      etcd_revoke = mem_revoke,
      etcd_other = (\<lambda>s s'. snd s \<le> snd s' \<and> (\<forall>k kv. bt_get (mem_records s') k = Some kv \<longrightarrow>
         kv_mod_revision kv \<le> int (Suc (snd s)) \<longrightarrow> bt_get (mem_records s) k = Some kv))\<rparr>"

lemma bt_get_filtered:
  "bt_get (bt_collect (filter P (entries m))) k = (case bt_get m k of None \<Rightarrow> None | Some v \<Rightarrow> if P (k, v) then Some v else None)"
proof -
  have d: "distinct (map fst (filter P (entries m)))" by (rule distinct_map_filter) (simp add: ascending_distinct)
  have "bt_get (bt_collect (filter P (entries m))) k = Some v \<longleftrightarrow> bt_get m k = Some v \<and> P (k, v)" for v
    unfolding bt_get_collect_distinct[OF d] map_of_eq_Some_iff[OF d] by (auto simp: bt_entries_iff)
  then show ?thesis by (intro option_eqI) (auto split: option.splits)
qed

lemma mem_get: "bt_get (mem_records s) k = Some kv \<longleftrightarrow> bt_get (fst s) k = Some kv \<and> mem_valid (snd s) (k, kv)"
  by (auto simp: mem_records_def bt_get_filtered split: option.splits)

lemma mem_apply_fold:
  assumes "distinct (map op_key ops)"
  shows "bt_get (fold (mem_apply now m) ops m') k =
    (case find (\<lambda>op. op_key op = k) ops of None \<Rightarrow> bt_get m' k | Some op \<Rightarrow> written now [op] (bt_get m) k)"
  using assms
proof (induction ops arbitrary: m')
  case (Cons op ops)
  have "find (\<lambda>op'. op_key op' = op_key op) ops = None" using Cons.prems by (fastforce simp: find_None_iff image_iff)
  then show ?case using Cons by (auto simp: mem_apply_def written_def split: TxnOp.splits option.splits)
qed simp

lemma written_find: "written now ops get k = (case find (\<lambda>op. op_key op = k) ops of None \<Rightarrow> get k | Some op \<Rightarrow> written now [op] get k)"
proof (cases "find (\<lambda>op. op_key op = k) ops")
  case (Some op)
  then have "op_key op = k" by (auto simp: find_Some_iff)
  then show ?thesis by (simp add: written_def Some)
qed (simp add: written_def)

lemma mem_txn_get:
  assumes "distinct (map op_key ops)" and "mem_txn s cs ops = (True, s')"
  shows "bt_get (mem_records s') = written (int (Suc (snd s)) + 1) ops (bt_get (mem_records s))"
proof
  fix k
  have s': "fst s' = fold (mem_apply (int (Suc (snd s)) + 1) (mem_records s)) ops (mem_records s)" "snd s' = (if ops = [] then snd s else snd s + 1)"
    using assms(2) by (auto simp: mem_txn_def split: if_splits)
  have g: "bt_get (fst s') k = written (int (Suc (snd s)) + 1) ops (bt_get (mem_records s)) k"
    unfolding s'(1) mem_apply_fold[OF assms(1)] written_find[of _ ops] ..
  have "mem_valid (snd s') (k, kv)" if w: "written (int (Suc (snd s)) + 1) ops (bt_get (mem_records s)) k = Some kv" for kv
  proof (cases "find (\<lambda>op. op_key op = k) ops")
    case None
    then have "mem_valid (snd s) (k, kv)" using w by (simp add: written_def mem_get)
    then show ?thesis by (simp add: mem_valid_def s'(2))
  next
    case (Some op)
    then have "ops \<noteq> []" by auto
    have "0 < kv_version old" if "bt_get (mem_records s) k = Some old" for old using that by (simp add: mem_get mem_valid_def)
    then show ?thesis using w Some \<open>ops \<noteq> []\<close> by (auto simp: written_def mem_valid_def s'(2) split: TxnOp.splits option.splits)
  qed
  then show "bt_get (mem_records s') k = written (int (Suc (snd s)) + 1) ops (bt_get (mem_records s)) k"
    by (cases "written (int (Suc (snd s)) + 1) ops (bt_get (mem_records s)) k") (auto simp: mem_get g mem_records_def bt_get_filtered)
qed

lemma mem_contract: "etcd_contract mem_etcd"
proof -
  have txn: "if \<forall>c \<in> set cs. compare_holds (etcd_get mem_etcd s) c
       then \<exists>s'. etcd_txn mem_etcd s cs ops = (True, s') \<and> etcd_get mem_etcd s' = written (etcd_revision mem_etcd s + 1) ops (etcd_get mem_etcd s) \<and>
         etcd_revision mem_etcd s' \<in> {etcd_revision mem_etcd s, etcd_revision mem_etcd s + 1} \<and>
         (list_ex is_put ops \<longrightarrow> etcd_revision mem_etcd s' = etcd_revision mem_etcd s + 1)
       else etcd_txn mem_etcd s cs ops = (False, s)"
    if "distinct (map op_key ops)" for s cs ops
  proof (cases "\<forall>c \<in> set cs. compare_holds (bt_get (mem_records s)) c")
    case True
    have d: "distinct (map op_key (filter is_put ops))" using that by (rule distinct_map_filter)
    obtain s' where s': "mem_txn s cs ops = (True, s')" using True d by (simp add: mem_txn_def list_all_iff)
    then have "snd s' = (if ops = [] then snd s else snd s + 1)" using True d by (auto simp: mem_txn_def list_all_iff)
    then show ?thesis using True s' mem_txn_get[OF that s'] by (simp add: mem_etcd_def)
  qed (auto simp: mem_etcd_def mem_txn_def list_all_iff)
  have range: "distinct (map kv_key (etcd_range mem_etcd s p))" "set (etcd_range mem_etcd s p) = {kv. \<exists>k. etcd_get mem_etcd s k = Some kv \<and> starts_with p k}" for s p
  proof -
    have k: "kv_key kv = k" if "bt_get (mem_records s) k = Some kv" for k kv using that by (simp add: mem_get mem_valid_def)
    have "map kv_key (bt_values (mem_records s)) = bt_keys (mem_records s)"
      using k by (auto simp: bt_values_def bt_keys_def bt_entries_iff)
    then have "distinct (map kv_key (bt_values (mem_records s)))" by simp
    then show "distinct (map kv_key (etcd_range mem_etcd s p))" by (simp add: mem_etcd_def distinct_map_filter)
    show "set (etcd_range mem_etcd s p) = {kv. \<exists>k. etcd_get mem_etcd s k = Some kv \<and> starts_with p k}"
      using k by (auto simp: mem_etcd_def bt_values_iff)
  qed
  have get: "kv_key kv = k \<and> 0 < kv_mod_revision kv \<and> kv_mod_revision kv \<le> etcd_revision mem_etcd s \<and> 0 < kv_version kv"
    if "etcd_get mem_etcd s k = Some kv" for s k kv using that by (simp add: mem_etcd_def mem_get mem_valid_def)
  have grant: "newer mem_etcd s (snd (etcd_grant mem_etcd s ttl)) \<and> fst (etcd_grant mem_etcd s ttl) \<noteq> 0" for s ttl
    by (simp add: mem_etcd_def newer_def)
  have revoke: "newer mem_etcd s (etcd_revoke mem_etcd s l)" for s l
    by (auto simp: mem_etcd_def newer_def mem_get bt_get_filtered split: option.splits if_splits)
  have other: "newer mem_etcd s s'" if "etcd_other mem_etcd s s'" for s s'
    using that by (simp add: mem_etcd_def newer_def)
  have pos: "0 < etcd_revision mem_etcd s" for s by (simp add: mem_etcd_def)
  have dup: "etcd_txn mem_etcd s cs ops = (False, s)" if "\<not> distinct (map op_key (filter is_put ops))" for s cs ops
    using that by (simp add: mem_etcd_def mem_txn_def)
  show ?thesis unfolding etcd_contract_def
    by (intro conjI allI impI) (erule txn dup other | rule pos range revoke | simp add: get grant)+
qed

text \<open>The reference store with fewer interferences.\<close>

definition mem_with :: "(mem_store \<Rightarrow> mem_store \<Rightarrow> bool) \<Rightarrow> mem_store etcd" where
  "mem_with R = mem_etcd\<lparr>etcd_other := \<lambda>s s'. etcd_other mem_etcd s s' \<and> R s s'\<rparr>"

lemma mem_with_simps [simp]:
  "etcd_get (mem_with R) = etcd_get mem_etcd" "etcd_range (mem_with R) = etcd_range mem_etcd" "etcd_revision (mem_with R) = etcd_revision mem_etcd"
  "etcd_txn (mem_with R) = etcd_txn mem_etcd" "etcd_grant (mem_with R) = etcd_grant mem_etcd" "etcd_revoke (mem_with R) = etcd_revoke mem_etcd"
  by (simp_all add: mem_with_def)

lemma mem_with_newer [simp]: "newer (mem_with R) = newer mem_etcd"
  by (intro ext) (simp add: newer_def)

lemma mem_with_contract: "etcd_contract (mem_with R)"
proof -
  have "\<forall>s s'. etcd_other (mem_with R) s s' \<longrightarrow> newer mem_etcd s s'"
    using mem_contract unfolding etcd_contract_def mem_with_def by simp
  with mem_contract show ?thesis unfolding etcd_contract_def mem_with_simps mem_with_newer by (elim conjE) (intro conjI; assumption)
qed

text \<open>Running a program in the reference store, without interference or failures.\<close>

primrec mem_run :: "'a client \<Rightarrow> mem_store \<Rightarrow> (mem_store \<times> TxnOp list \<times> mem_store) list \<times> mem_store \<times> 'a" where
  "mem_run (Return x) s = ([], s, x)"
| "mem_run (GetKey k f) s = mem_run (f (Inr (Some (int (Suc (snd s))), bt_get (mem_records s) k))) s"
| "mem_run (GetPrefix k f) s = mem_run (f (Inr (Some (int (Suc (snd s))), mem_range s k))) s"
| "mem_run (Commit cs ops f) s = (case mem_txn s cs ops of (b, t) \<Rightarrow>
     case mem_run (f (Inr (Some (int (Suc (snd t))), b))) t of (log, s', x) \<Rightarrow> ((if b then [(s, ops, t)] else []) @ log, s', x))"
| "mem_run (GrantLease ttl f) s = mem_run (f (Inr 1)) s"
| "mem_run (RevokeLease l f) s = mem_run (f (Inr ())) (mem_revoke s l)"

lemma mem_run_runs: "mem_run p s = (log, s', x) \<Longrightarrow> runs (mem_with R) s p log s' x"
proof (induction p arbitrary: s log)
  case (Return x)
  then show ?case by (auto intro: run_return)
next
  case (GetKey k f)
  have "got (mem_with R) s k (Inr (Some (int (Suc (snd s))), bt_get (mem_records s) k))" by (simp add: got_def header_def) (simp add: mem_etcd_def)
  then show ?case by (rule run_get) (rule GetKey.IH[OF rangeI], use GetKey.prems in simp)
next
  case (GetPrefix k f)
  have "ranged (mem_with R) s k (Inr (Some (int (Suc (snd s))), mem_range s k))" by (simp add: ranged_def header_def mem_etcd_def)
  then show ?case by (rule run_range) (rule GetPrefix.IH[OF rangeI], use GetPrefix.prems in simp)
next
  case (Commit cs ops f)
  obtain b t where t: "mem_txn s cs ops = (b, t)" by (meson surj_pair)
  obtain l where l: "mem_run (f (Inr (Some (int (Suc (snd t))), b))) t = (l, s', x)" "log = (if b then [(s, ops, t)] else []) @ l"
    using Commit.prems by (auto simp: t split: prod.splits)
  have "committed (mem_with R) s cs ops (Inr (Some (int (Suc (snd t))), b)) (if b then [(s, ops, t)] else []) t"
    using t by (simp add: committed_def header_def) (simp add: mem_etcd_def)
  then show ?case unfolding l(2) using Commit.IH[OF rangeI l(1)] by (rule run_commit)
next
  case (GrantLease ttl f)
  have "granted (mem_with R) s ttl (Inr 1) s" by (simp add: granted_def mem_etcd_def)
  then show ?case by (rule run_grant) (rule GrantLease.IH[OF rangeI], use GrantLease.prems in simp)
next
  case (RevokeLease l f)
  have "revoked (mem_with R) s l (Inr ()) (mem_revoke s l)" by (simp add: revoked_def mem_etcd_def)
  then show ?case by (rule run_revoke) (rule RevokeLease.IH[OF rangeI], use RevokeLease.prems in simp)
qed

lemma mem_run_mem: "mem_run p s = (log, s', x) \<Longrightarrow> runs mem_etcd s p log s' x"
  using mem_run_runs[of p s log s' x "\<lambda>_ _. True"] by (simp add: mem_with_def)

text \<open>A store with the given records, written one after the other.\<close>

definition mem_put :: "string \<times> string \<times> int \<Rightarrow> mem_store \<Rightarrow> mem_store" where
  "mem_put r s = snd (mem_txn s [] [PutOp (fst r) (fst (snd r)) (Some (snd (snd r)))])"

definition mem_of :: "(string \<times> string \<times> int) list \<Rightarrow> mem_store" where
  "mem_of records = fold mem_put records (bt_empty, 0)"

end
