(* ===== verification/Etcd_Metadata.thy ===== *)
theory Etcd_Metadata
  imports Etcd_Reference
begin

text \<open>
  Metadata operations of the etcd backend (\<^verbatim>\<open>src/coordination/etcd/metadata.rs\<close>) and the
  snapshots and wrappers of \<^verbatim>\<open>src/coordination/etcd/mod.rs\<close> that use them: reads, guarded
  writes, the authoritative-input marker, and the fenced publication of controller outputs.
  A plain put is a transaction without comparisons. Retry loops recurse on the number of
  attempts left.
\<close>

record CasResult =
  cas_applied :: bool
  cas_revision :: Revision

text \<open>Authority of a controller; its shared loss flag is a signal of the election.\<close>

record ControllerAuthority =
  authority_namespace :: string
  authority_controller :: string
  authority_lease :: int

record ControllerCommitFence =
  fence_namespace :: string
  fence_controller :: string
  fence_lease :: int
  fence_revision :: Revision
  fence_sessions :: "(InstanceId, SessionId) btree"

definition commit_fence :: "ControllerAuthority \<Rightarrow> Revision \<Rightarrow> (InstanceId, SessionId) btree \<Rightarrow> ControllerCommitFence" where
  "commit_fence authority observed sessions =
     \<lparr>fence_namespace = authority_namespace authority, fence_controller = authority_controller authority,
      fence_lease = authority_lease authority, fence_revision = observed, fence_sessions = sessions\<rparr>"

section \<open>Reading\<close>

definition raw_snapshot :: "string \<Rightarrow> (Revision \<times> KeyValue option) action" where
  "raw_snapshot key = bind_action (get_key key) (\<lambda>(h, kv).
     bind_action (Return (revision_from_header h)) (\<lambda>revision. Return (Inr (revision, kv))))"

definition raw_snapshot_prefix :: "string \<Rightarrow> (Revision \<times> KeyValue list) action" where
  "raw_snapshot_prefix key = bind_action (get_prefix key) (\<lambda>(h, kvs).
     bind_action (Return (revision_from_header h)) (\<lambda>revision. Return (Inr (revision, kvs))))"

definition metadata_snapshot :: "EtcdCoordination \<Rightarrow> string \<Rightarrow> (Revision \<times> KeyValue option) action" where
  "metadata_snapshot b key = raw_snapshot (metadata_key b key)"

definition metadata_get :: "EtcdCoordination \<Rightarrow> string \<Rightarrow> MetadataEntry option action" where
  "metadata_get b key = bind_action (raw_snapshot (metadata_key b key)) (\<lambda>(_, kv).
     case kv of None \<Rightarrow> Return (Inr None)
     | Some kv \<Rightarrow> bind_action (Return (metadata_entry_of kv)) (\<lambda>entry. Return (Inr (Some entry))))"

definition controller_snapshot :: "EtcdCoordination \<Rightarrow> CoordinationSnapshot action" where
  "controller_snapshot b = bind_action (raw_snapshot_prefix (namespaced_key b '''')) (\<lambda>(revision, kvs).
     Return (controller_snapshot_from_kvs b revision kvs))"

definition participant_snapshot :: "EtcdCoordination \<Rightarrow> ParticipantSessionSnapshot action" where
  "participant_snapshot b = bind_action (raw_snapshot_prefix (namespaced_key b '''')) (\<lambda>(_, kvs).
     Return (participant_snapshot_from_kvs b kvs))"

text \<open>A watch starts right after the revision of the snapshot taken before it.\<close>

definition snapshot_and_watch_metadata :: "EtcdCoordination \<Rightarrow> string \<Rightarrow> (MetadataEntry \<times> WatchSubscription) action" where
  "snapshot_and_watch_metadata b key = bind_action (metadata_snapshot b key) (\<lambda>(revision, kv).
     bind_action (Return (metadata_entry_from_snapshot revision (case kv of None \<Rightarrow> [] | Some kv \<Rightarrow> [kv]))) (\<lambda>entry.
     bind_action (Return (Revision_next revision)) (\<lambda>start. Return (Inr (entry, watch_metadata b key start)))))"

definition snapshot_and_watch_namespace :: "EtcdCoordination \<Rightarrow> (CoordinationSnapshot \<times> WatchSubscription) action" where
  "snapshot_and_watch_namespace b = bind_action (controller_snapshot b) (\<lambda>snapshot.
     bind_action (Return (Revision_next (snapshot_revision snapshot))) (\<lambda>start.
       Return (Inr (snapshot, watch_namespace b start))))"

definition snapshot_and_watch_namespace_from_authoritative ::
    "EtcdCoordination \<Rightarrow> (CoordinationSnapshot \<times> WatchSubscription) action" where
  "snapshot_and_watch_namespace_from_authoritative b = bind_action (controller_snapshot b) (\<lambda>snapshot.
     bind_action (Return (Revision_next (authoritative_revision snapshot))) (\<lambda>start.
       Return (Inr (snapshot, watch_namespace b start))))"

section \<open>Writing\<close>

definition authoritative_input_marker_operation :: "EtcdCoordination \<Rightarrow> TxnOp" where
  "authoritative_input_marker_operation b = PutOp (metadata_key b AUTHORITATIVE_INPUT_MARKER) ''1'' None"

definition with_input_marker :: "EtcdCoordination \<Rightarrow> string \<Rightarrow> TxnOp \<Rightarrow> TxnOp list" where
  "with_input_marker b key op = op # (if is_authoritative_metadata_key key then [authoritative_input_marker_operation b] else [])"

definition metadata_put :: "EtcdCoordination \<Rightarrow> string \<Rightarrow> string \<Rightarrow> int option \<Rightarrow> Revision action" where
  "metadata_put b key v lease =
     bind_action (commit [] (with_input_marker b key (PutOp (metadata_key b key) v lease))) (\<lambda>(h, _).
       Return (revision_from_header h))"

definition cas_result :: "int option \<times> bool \<Rightarrow> CoordinationError + CasResult" where
  "cas_result r = bind_result (revision_from_header (fst r)) (\<lambda>revision.
     Inr \<lparr>cas_applied = snd r, cas_revision = revision\<rparr>)"

definition compare_and_put :: "EtcdCoordination \<Rightarrow> string \<Rightarrow> Revision \<Rightarrow> string \<Rightarrow> CasResult action" where
  "compare_and_put b key expected v =
     bind_action (commit [CompareModRevision (metadata_key b key) (revision_value expected)]
       (with_input_marker b key (PutOp (metadata_key b key) v None))) (\<lambda>r. Return (cas_result r))"

definition compare_and_put_if_live_absent ::
    "EtcdCoordination \<Rightarrow> string \<Rightarrow> Revision \<Rightarrow> InstanceId \<Rightarrow> string \<Rightarrow> CasResult action" where
  "compare_and_put_if_live_absent b key expected i v =
     bind_action (commit [CompareModRevision (metadata_key b key) (revision_value expected), CompareVersion (live_key b i) 0]
       (with_input_marker b key (PutOp (metadata_key b key) v None))) (\<lambda>r. Return (cas_result r))"

definition compare_and_delete :: "EtcdCoordination \<Rightarrow> string \<Rightarrow> Revision \<Rightarrow> CasResult action" where
  "compare_and_delete b key expected =
     bind_action (commit [CompareModRevision (metadata_key b key) (revision_value expected)]
       (with_input_marker b key (DeleteOp (metadata_key b key)))) (\<lambda>r. Return (cas_result r))"

definition compare_and_put_absent :: "EtcdCoordination \<Rightarrow> string \<Rightarrow> string \<Rightarrow> bool action" where
  "compare_and_put_absent b key v =
     bind_action (commit [CompareVersion (metadata_key b key) 0]
       (with_input_marker b key (PutOp (metadata_key b key) v None))) (\<lambda>r. Return (Inr (snd r)))"

definition initialize_authoritative_input_marker :: "EtcdCoordination \<Rightarrow> unit action" where
  "initialize_authoritative_input_marker b =
     bind_action (compare_and_put_absent b AUTHORITATIVE_INPUT_MARKER ''1'') (\<lambda>_. Return (Inr ()))"

definition MAX_QUEUE_CAS_RETRIES :: nat where
  "MAX_QUEUE_CAS_RETRIES = 256"

fun advance_loop :: "nat \<Rightarrow> EtcdCoordination \<Rightarrow> string \<Rightarrow> Revision \<Rightarrow> Revision action" where
  "advance_loop 0 b key revision = Return (Inl Contention)"
| "advance_loop (Suc n) b key revision =
     bind_action (metadata_get b key) (\<lambda>entry. case entry of
       None \<Rightarrow> bind_action (compare_and_put_absent b key (show_int (revision_value revision))) (\<lambda>done_now.
         if done_now then Return (Inr revision) else advance_loop n b key revision)
     | Some entry \<Rightarrow>
         bind_action (Return (ok_or (entry_value entry) InvalidStoreValue)) (\<lambda>text.
         bind_action (Return (ok_or (parse_i64 text) InvalidStoreValue)) (\<lambda>current.
         bind_action (Return (Revision_new current)) (\<lambda>current.
         if revision \<le> current then Return (Inr current)
         else bind_action (compare_and_put b key (entry_revision entry) (show_int (revision_value revision))) (\<lambda>r.
           if cas_applied r then Return (Inr revision) else advance_loop n b key revision)))))"

definition advance_metadata_revision :: "EtcdCoordination \<Rightarrow> string \<Rightarrow> Revision \<Rightarrow> Revision action" where
  "advance_metadata_revision b key revision = advance_loop MAX_QUEUE_CAS_RETRIES b key revision"

section \<open>Fenced controller writes\<close>

definition processed_revision_of :: "KeyValue \<Rightarrow> CoordinationError + Revision" where
  "processed_revision_of kv =
     (if \<not> valid_utf8 (kv_value kv) then Inl InvalidStoreValue
      else bind_result (ok_or (parse_i64 (kv_value kv)) InvalidStoreValue) Revision_new)"

definition pending_revision_compare :: "string \<Rightarrow> Revision option \<Rightarrow> Compare" where
  "pending_revision_compare key revision = (case revision of
     Some r \<Rightarrow> CompareModRevision key (revision_value r) | None \<Rightarrow> CompareVersion key 0)"

definition pending_revision_changed :: "string \<Rightarrow> Revision option \<Rightarrow> bool action" where
  "pending_revision_changed key expected = bind_action (get_key key) (\<lambda>(_, current).
     Return (Inr (case (expected, current) of
       (Some r, Some kv) \<Rightarrow> kv_mod_revision kv \<noteq> revision_value r
     | (None, None) \<Rightarrow> False
     | _ \<Rightarrow> True)))"

definition authority_matches :: "string \<Rightarrow> string \<Rightarrow> int \<Rightarrow> bool action" where
  "authority_matches key controller lease = bind_action (get_key key) (\<lambda>(_, current).
     Return (Inr (case current of None \<Rightarrow> False | Some kv \<Rightarrow> kv_value kv = controller \<and> kv_lease kv = lease)))"

fun live_sessions_changed :: "EtcdCoordination \<Rightarrow> (InstanceId \<times> SessionId) list \<Rightarrow> bool action" where
  "live_sessions_changed b [] = Return (Inr False)"
| "live_sessions_changed b ((i, session) # rest) = bind_action (get_key (live_key b i)) (\<lambda>(_, live).
     case live of None \<Rightarrow> Return (Inr True)
     | Some kv \<Rightarrow> if kv_value kv \<noteq> session_text session then Return (Inr True) else live_sessions_changed b rest)"

definition input_fence_changed :: "EtcdCoordination \<Rightarrow> ControllerCommitFence \<Rightarrow> bool action" where
  "input_fence_changed b fence =
     bind_action (get_key (metadata_key b AUTHORITATIVE_INPUT_MARKER)) (\<lambda>(_, marker).
       case marker of None \<Rightarrow> Return (Inr True)
       | Some kv \<Rightarrow> if kv_mod_revision kv \<noteq> revision_value (fence_revision fence) then Return (Inr True)
                    else live_sessions_changed b (entries (fence_sessions fence)))"

definition processed_key :: "EtcdCoordination \<Rightarrow> string" where
  "processed_key b = metadata_key b ''controller/output/processed-revision''"

definition publish_operations :: "EtcdCoordination \<Rightarrow> ControllerCommitFence \<Rightarrow> string \<Rightarrow> string \<Rightarrow> TxnOp list" where
  "publish_operations b fence external_view pending_transitions =
     [PutOp (metadata_key b ''controller/output/external-view'') external_view None,
      PutOp (metadata_key b ''controller/output/pending-transitions'') pending_transitions None,
      PutOp (processed_key b) (show_int (revision_value (fence_revision fence))) None]"

definition publish_compares :: "EtcdCoordination \<Rightarrow> ControllerCommitFence \<Rightarrow> KeyValue option \<Rightarrow> Revision option \<Rightarrow> Compare list" where
  "publish_compares b fence current pending_revision =
     [CompareValue (controller_active_key b) (fence_controller fence),
      CompareLease (controller_active_key b) (fence_lease fence),
      (case current of Some kv \<Rightarrow> CompareModRevision (processed_key b) (kv_mod_revision kv)
       | None \<Rightarrow> CompareVersion (processed_key b) 0),
      pending_revision_compare (metadata_key b ''controller/output/pending-transitions'') pending_revision,
      CompareModRevision (metadata_key b AUTHORITATIVE_INPUT_MARKER) (revision_value (fence_revision fence))] @
     map (\<lambda>(i, session). CompareValue (live_key b i) (session_text session)) (entries (fence_sessions fence))"

text \<open>Whether another controller has already published for a later input revision.\<close>

definition overtaken :: "ControllerCommitFence \<Rightarrow> KeyValue option \<Rightarrow> CoordinationError + bool" where
  "overtaken fence current = (case current of None \<Rightarrow> Inr False
     | Some kv \<Rightarrow> bind_result (processed_revision_of kv) (\<lambda>r. Inr (fence_revision fence < r)))"

text \<open>After a refused transaction: the error to report, or \<open>Ok\<close> to try again.\<close>

definition publish_refused :: "EtcdCoordination \<Rightarrow> ControllerCommitFence \<Rightarrow> Revision option \<Rightarrow> unit action" where
  "publish_refused b fence pending_revision =
     bind_action (authority_matches (controller_active_key b) (fence_controller fence) (fence_lease fence)) (\<lambda>current.
     if \<not> current then Return (Inl StaleController)
     else bind_action (pending_revision_changed (metadata_key b ''controller/output/pending-transitions'') pending_revision) (\<lambda>changed.
     bind_action (if changed then Return (Inr True) else input_fence_changed b fence) (\<lambda>changed.
     if changed then Return (Inl StaleRevision)
     else bind_action (get_key (processed_key b)) (\<lambda>(_, latest).
     bind_action (Return (overtaken fence latest)) (\<lambda>stale.
     if stale then Return (Inl StaleRevision) else Return (Inr ()))))))"

fun publish_loop :: "nat \<Rightarrow> EtcdCoordination \<Rightarrow> ControllerCommitFence \<Rightarrow> TxnOp list \<Rightarrow> Revision option \<Rightarrow> Revision action" where
  "publish_loop 0 b fence ops pending_revision = Return (Inl Contention)"
| "publish_loop (Suc n) b fence ops pending_revision =
     bind_action (get_key (processed_key b)) (\<lambda>(_, current).
     bind_action (Return (overtaken fence current)) (\<lambda>stale.
     if stale then Return (Inl StaleRevision)
     else bind_action (commit (publish_compares b fence current pending_revision) ops) (\<lambda>(h, succeeded).
     if succeeded then Return (revision_from_header h)
     else bind_action (publish_refused b fence pending_revision) (\<lambda>_. publish_loop n b fence ops pending_revision))))"

definition publish_controller_outputs_with_fence ::
    "EtcdCoordination \<Rightarrow> ControllerCommitFence \<Rightarrow> string \<Rightarrow> string \<Rightarrow> Revision option \<Rightarrow> Revision action" where
  "publish_controller_outputs_with_fence b fence external_view pending_transitions pending_revision =
     (if fence_namespace fence \<noteq> namespace_prefix b then Return (Inl StaleController)
      else publish_loop 32 b fence (publish_operations b fence external_view pending_transitions) pending_revision)"

definition publish_controller_outputs ::
    "EtcdCoordination \<Rightarrow> ControllerAuthority \<Rightarrow> string \<Rightarrow> string \<Rightarrow> Revision \<Rightarrow> Revision option \<Rightarrow> Revision action" where
  "publish_controller_outputs b authority external_view pending_transitions processed pending_revision =
     bind_action (controller_snapshot b) (\<lambda>snapshot.
     if processed \<noteq> authoritative_revision snapshot then Return (Inl StaleRevision)
     else publish_controller_outputs_with_fence b
       (commit_fence authority (authoritative_revision snapshot)
          (bt_map (\<lambda>_ live. live_session_id live) (snapshot_live_instances (snapshot_participants snapshot))))
       external_view pending_transitions pending_revision)"

fun lease_expiry_loop :: "nat \<Rightarrow> EtcdCoordination \<Rightarrow> ControllerAuthority \<Rightarrow> Revision \<Rightarrow> Revision action" where
  "lease_expiry_loop 0 b authority event = Return (Inl Contention)"
| "lease_expiry_loop (Suc n) b authority event =
     bind_action (get_key (metadata_key b AUTHORITATIVE_INPUT_MARKER)) (\<lambda>(_, marker).
     bind_action (Return (case marker of None \<Rightarrow> Inr None
         | Some kv \<Rightarrow> bind_result (Revision_new (kv_mod_revision kv)) (\<lambda>r. Inr (if event \<le> r then Some r else None)))) (\<lambda>recorded.
     case recorded of Some r \<Rightarrow> Return (Inr r)
     | None \<Rightarrow>
       bind_action (commit
         [CompareValue (controller_active_key b) (authority_controller authority),
          CompareLease (controller_active_key b) (authority_lease authority),
          (let current = (case marker of None \<Rightarrow> 0 | Some kv \<Rightarrow> kv_mod_revision kv)
           in if current = 0 then CompareVersion (metadata_key b AUTHORITATIVE_INPUT_MARKER) 0
              else CompareModRevision (metadata_key b AUTHORITATIVE_INPUT_MARKER) current)]
         [authoritative_input_marker_operation b]) (\<lambda>(h, succeeded).
       if succeeded then Return (revision_from_header h)
       else bind_action (authority_matches (controller_active_key b) (authority_controller authority) (authority_lease authority)) (\<lambda>current.
         if \<not> current then Return (Inl StaleController) else lease_expiry_loop n b authority event))))"

definition record_lease_expiry :: "EtcdCoordination \<Rightarrow> ControllerAuthority \<Rightarrow> Revision \<Rightarrow> Revision action" where
  "record_lease_expiry b authority event =
     (if authority_namespace authority \<noteq> namespace_prefix b then Return (Inl StaleController)
      else lease_expiry_loop 32 b authority event)"

definition put_controller_owned :: "EtcdCoordination \<Rightarrow> ControllerAuthority \<Rightarrow> string \<Rightarrow> string \<Rightarrow> Revision action" where
  "put_controller_owned b authority key v =
     (if authority_namespace authority \<noteq> namespace_prefix b then Return (Inl StaleController)
      else bind_action (commit
        [CompareValue (controller_active_key b) (authority_controller authority),
         CompareLease (controller_active_key b) (authority_lease authority)]
        (with_input_marker b key (PutOp (metadata_key b key) v None))) (\<lambda>(h, succeeded).
        if \<not> succeeded then Return (Inl StaleController) else Return (revision_from_header h)))"

end
