(* ===== verification/Etcd_Publish.thy ===== *)
theory Etcd_Publish
  imports Etcd_Metadata
begin

text \<open>
  What fences a controller: the conditions under which a transaction of a controller can take
  effect, over arbitrary interference, client errors and lost responses.
\<close>

section \<open>Comparisons\<close>

lemma compare_simps:
  "compare_holds get (CompareValue k v) \<longleftrightarrow> (\<exists>kv. get k = Some kv \<and> kv_value kv = v)"
  "compare_holds get (CompareLease k l) \<longleftrightarrow> (case get k of None \<Rightarrow> l = 0 | Some kv \<Rightarrow> kv_lease kv = l)"
  "compare_holds get (CompareVersion k n) \<longleftrightarrow> (case get k of None \<Rightarrow> n = 0 | Some kv \<Rightarrow> kv_version kv = n)"
  "compare_holds get (CompareModRevision k r) \<longleftrightarrow> (case get k of None \<Rightarrow> r = 0 | Some kv \<Rightarrow> kv_mod_revision kv = r)"
  by (auto simp: compare_holds_def split: option.splits)

lemma version_zero:
  assumes "etcd_contract e"
  shows "compare_holds (etcd_get e s) (CompareVersion k 0) \<longleftrightarrow> etcd_get e s k = None"
  using contract_get(4)[OF assms, of s k] by (auto simp: compare_simps split: option.splits)

lemma Revision_new_Inr: "Revision_new n = Inr r \<longleftrightarrow> 0 < n \<and> r = Revision n"
  by (auto simp: Revision_new_def)

section \<open>The transactions of a controller\<close>

text \<open>The active controller record names this controller and its lease.\<close>

definition has_authority :: "'s etcd \<Rightarrow> EtcdCoordination \<Rightarrow> string \<Rightarrow> int \<Rightarrow> 's \<Rightarrow> bool" where
  "has_authority e b controller lease s \<longleftrightarrow>
     (\<exists>kv. etcd_get e s (controller_active_key b) = Some kv \<and> kv_value kv = controller \<and> kv_lease kv = lease)"

text \<open>The inputs and outputs are still those the plan was made from.\<close>

definition fence_holds :: "'s etcd \<Rightarrow> EtcdCoordination \<Rightarrow> ControllerCommitFence \<Rightarrow> Revision option \<Rightarrow> 's \<Rightarrow> bool" where
  "fence_holds e b fence pending_revision s \<longleftrightarrow>
     has_authority e b (fence_controller fence) (fence_lease fence) s \<and>
     (\<exists>kv. etcd_get e s (metadata_key b AUTHORITATIVE_INPUT_MARKER) = Some kv \<and> kv_mod_revision kv = revision_value (fence_revision fence)) \<and>
     (\<forall>i session. bt_get (fence_sessions fence) i = Some session \<longrightarrow>
        (\<exists>kv. etcd_get e s (live_key b i) = Some kv \<and> kv_value kv = session_text session)) \<and>
     map_option kv_mod_revision (etcd_get e s (metadata_key b PENDING_TRANSITIONS_KEY)) = map_option revision_value pending_revision"

text \<open>No output for a later input has been published.\<close>

definition not_overtaken :: "'s etcd \<Rightarrow> EtcdCoordination \<Rightarrow> Revision \<Rightarrow> 's \<Rightarrow> bool" where
  "not_overtaken e b revision s \<longleftrightarrow>
     (case etcd_get e s (processed_key b) of None \<Rightarrow> True
      | Some kv \<Rightarrow> \<exists>r. processed_revision_of kv = Inr r \<and> r \<le> revision)"

definition published :: "'s etcd \<Rightarrow> EtcdCoordination \<Rightarrow> Revision \<Rightarrow> string \<Rightarrow> string \<Rightarrow> 's \<Rightarrow> bool" where
  "published e b revision external_view pending_transitions s \<longleftrightarrow>
     map_option kv_value (etcd_get e s (metadata_key b ''controller/output/external-view'')) = Some external_view \<and>
     map_option kv_value (etcd_get e s (metadata_key b PENDING_TRANSITIONS_KEY)) = Some pending_transitions \<and>
     map_option kv_value (etcd_get e s (processed_key b)) = Some (show_int (revision_value revision))"

lemma publish_ops_distinct: "distinct (map op_key (publish_operations b fence ev pt))"
  by (simp add: publish_operations_def processed_key_def)

lemma publish_compares_hold:
  assumes "etcd_contract e" and "0 < revision_value (fence_revision fence)"
    and "\<forall>r. pending_revision = Some r \<longrightarrow> 0 < revision_value r"
    and "\<forall>c \<in> set (publish_compares b fence current pending_revision). compare_holds (etcd_get e t) c"
  shows "fence_holds e b fence pending_revision t"
    and "map_option kv_mod_revision (etcd_get e t (processed_key b)) = map_option kv_mod_revision current \<or>
      (current \<noteq> None \<and> kv_mod_revision (the current) = 0)"
proof -
  have c: "compare_holds (etcd_get e t) (CompareValue (controller_active_key b) (fence_controller fence))"
    "compare_holds (etcd_get e t) (CompareLease (controller_active_key b) (fence_lease fence))"
    "compare_holds (etcd_get e t) (case current of Some kv \<Rightarrow> CompareModRevision (processed_key b) (kv_mod_revision kv) | None \<Rightarrow> CompareVersion (processed_key b) 0)"
    "compare_holds (etcd_get e t) (pending_revision_compare (metadata_key b PENDING_TRANSITIONS_KEY) pending_revision)"
    "compare_holds (etcd_get e t) (CompareModRevision (metadata_key b AUTHORITATIVE_INPUT_MARKER) (revision_value (fence_revision fence)))"
    and live: "\<forall>(i, session) \<in> set (entries (fence_sessions fence)). compare_holds (etcd_get e t) (CompareValue (live_key b i) (session_text session))"
    using assms(4) by (auto simp: publish_compares_def PENDING_TRANSITIONS_KEY_def)
  have "has_authority e b (fence_controller fence) (fence_lease fence) t"
    using c(1,2) by (auto simp: has_authority_def compare_simps split: option.splits)
  moreover have "\<exists>kv. etcd_get e t (metadata_key b AUTHORITATIVE_INPUT_MARKER) = Some kv \<and> kv_mod_revision kv = revision_value (fence_revision fence)"
    using c(5) assms(2) by (auto simp: compare_simps split: option.splits)
  moreover have "\<exists>kv. etcd_get e t (live_key b i) = Some kv \<and> kv_value kv = session_text session"
    if "bt_get (fence_sessions fence) i = Some session" for i session
  proof -
    have "(i, session) \<in> set (entries (fence_sessions fence))" using that by (simp add: bt_entries_iff)
    then show ?thesis using live by (auto simp: compare_simps)
  qed
  moreover have "map_option kv_mod_revision (etcd_get e t (metadata_key b PENDING_TRANSITIONS_KEY)) = map_option revision_value pending_revision"
    using c(4) assms(3) version_zero[OF assms(1)]
    by (cases pending_revision) (auto simp: pending_revision_compare_def compare_simps(4) split: option.splits)
  ultimately show "fence_holds e b fence pending_revision t" by (auto simp: fence_holds_def)
  show "map_option kv_mod_revision (etcd_get e t (processed_key b)) = map_option kv_mod_revision current \<or>
      (current \<noteq> None \<and> kv_mod_revision (the current) = 0)"
    using c(3) version_zero[OF assms(1)] by (cases current) (auto simp: compare_simps(4) split: option.splits)
qed

lemma silent_checks [simp]:
  "all_commits P (authority_matches k c l)" "all_commits P (pending_revision_changed k r)" "all_commits P (live_sessions_changed b xs)"
  "all_commits P (input_fence_changed b fence)" "all_commits P (publish_refused b fence pending_revision)"
proof -
  show l: "all_commits P (live_sessions_changed b xs)" for xs
    by (induction xs) (auto intro!: all_commits_bind split: option.splits)
  show c: "all_commits P (authority_matches k c l)" "all_commits P (pending_revision_changed k r)" "all_commits P (input_fence_changed b fence)" for k c l r
    using l by (auto simp: authority_matches_def pending_revision_changed_def input_fence_changed_def intro!: all_commits_bind split: option.splits)
  from c show "all_commits P (publish_refused b fence pending_revision)"
    by (auto simp: publish_refused_def intro!: all_commits_bind split: option.splits)
qed

text \<open>What a publication did: at most one transaction took effect, when the fence held and nothing
  newer was published; it wrote the outputs and nothing else, and the result reports it.\<close>

definition publication :: "'s etcd \<Rightarrow> EtcdCoordination \<Rightarrow> ControllerCommitFence \<Rightarrow> string \<Rightarrow> string \<Rightarrow> Revision option \<Rightarrow>
    's \<Rightarrow> 's \<Rightarrow> bool" where
  "publication e b fence external_view pending_transitions pending_revision t u \<longleftrightarrow>
     fence_holds e b fence pending_revision t \<and> not_overtaken e b (fence_revision fence) t \<and>
     published e b (fence_revision fence) external_view pending_transitions u \<and>
     (\<forall>k. k \<notin> {metadata_key b ''controller/output/external-view'', metadata_key b PENDING_TRANSITIONS_KEY, processed_key b} \<longrightarrow>
        etcd_get e u k = etcd_get e t k)"

definition reported :: "'s etcd \<Rightarrow> ('s \<times> TxnOp list \<times> 's) list \<Rightarrow> CoordinationError + Revision \<Rightarrow> bool" where
  "reported e log y \<longleftrightarrow> length log \<le> 1 \<and>
     (case y of Inr r \<Rightarrow> \<exists>t ops u. log = [(t, ops, u)] \<and> revision_value r = etcd_revision e u
      | Inl err \<Rightarrow> log = [] \<or> is_transient err \<or> err = MissingRevision)"

lemma publication_applied:
  assumes "etcd_contract e" and "0 < revision_value (fence_revision fence)" and "\<forall>r. pending_revision = Some r \<longrightarrow> 0 < revision_value r"
    and "etcd_txn e t (publish_compares b fence (etcd_get e s (processed_key b)) pending_revision) (publish_operations b fence ev pt) = (True, u)"
    and "overtaken fence (etcd_get e s (processed_key b)) = Inr False" and "newer e s t"
  shows "publication e b fence ev pt pending_revision t u"
proof -
  note txn = contract_txn[OF assms(1) publish_ops_distinct assms(4)]
  have cs: "\<forall>c \<in> set (publish_compares b fence (etcd_get e s (processed_key b)) pending_revision). compare_holds (etcd_get e t) c"
    using txn(1) by simp
  have get: "etcd_get e u = written (etcd_revision e t + 1) (publish_operations b fence ev pt) (etcd_get e t)" using txn(3) by simp
  have "etcd_get e t (processed_key b) = etcd_get e s (processed_key b)"
  proof (cases "etcd_get e s (processed_key b)")
    case None
    then show ?thesis using publish_compares_hold(2)[OF assms(1-3) cs] by simp
  next
    case (Some kv)
    then obtain kv' where "etcd_get e t (processed_key b) = Some kv'" "kv_mod_revision kv' = kv_mod_revision kv"
      using publish_compares_hold(2)[OF assms(1-3) cs] contract_get(2)[OF assms(1) Some] by auto
    with same_revision[OF assms(1,6) Some] Some show ?thesis by simp
  qed
  then have "not_overtaken e b (fence_revision fence) t"
    using assms(5) by (auto simp: not_overtaken_def overtaken_def bind_result_Inr not_less split: option.splits)
  moreover have "published e b (fence_revision fence) ev pt u"
    by (simp add: published_def get written_def publish_operations_def processed_key_def PENDING_TRANSITIONS_KEY_def)
  moreover have "etcd_get e u k = etcd_get e t k"
    if "k \<notin> {metadata_key b ''controller/output/external-view'', metadata_key b PENDING_TRANSITIONS_KEY, processed_key b}" for k
    using that by (auto simp: get written_def publish_operations_def PENDING_TRANSITIONS_KEY_def)
  ultimately show ?thesis using publish_compares_hold(1)[OF assms(1-3) cs] by (simp add: publication_def)
qed

lemma silent_step:
  assumes "runs e s (bind_action p f) log s' y" and "etcd_contract e" and "all_commits (\<lambda>_ _. False) p"
    and "\<And>err. Q [] (Inl err)" and "\<And>t x. newer e s t \<Longrightarrow> runs e t (f x) log s' y \<Longrightarrow> Q log y"
  shows "Q log y"
  using assms(1-3) by (rule run_silent_then) (use assms(4,5) in auto)

lemma reported_Inl [simp]: "reported e [] (Inl err)"
  by (simp add: reported_def)

lemma reported_header:
  assumes "header e u h" and "0 < etcd_revision e u"
  shows "reported e [(t, ops, u)] (revision_from_header h)"
  using assms by (auto simp: reported_def header_def revision_from_header_def Revision_new_def)

definition publishes :: "'s etcd \<Rightarrow> EtcdCoordination \<Rightarrow> ControllerCommitFence \<Rightarrow> string \<Rightarrow> string \<Rightarrow> Revision option \<Rightarrow>
    ('s \<times> TxnOp list \<times> 's) list \<Rightarrow> CoordinationError + Revision \<Rightarrow> bool" where
  "publishes e b fence ev pt pending_revision log y \<longleftrightarrow>
     (\<forall>(t, ops, u) \<in> set log. publication e b fence ev pt pending_revision t u) \<and> reported e log y"

lemma publishes_Inl [simp]: "publishes e b fence ev pt pending_revision [] (Inl err)"
  by (simp add: publishes_def)

lemma publish_loop_runs:
  assumes "etcd_contract e" and "0 < revision_value (fence_revision fence)" and "\<forall>r. pending_revision = Some r \<longrightarrow> 0 < revision_value r"
    and "runs e s (publish_loop n b fence (publish_operations b fence ev pt) pending_revision) log s' y"
  shows "publishes e b fence ev pt pending_revision log y"
  using assms(4)
proof (induction n arbitrary: s)
  case 0
  then show ?case by (simp add: runs_Return)
next
  case (Suc n)
  let ?Q = "publishes e b fence ev pt pending_revision"
  note runs = Suc.prems[unfolded publish_loop.simps(2)]
  have pub: "publication e b fence ev pt pending_revision t u"
    if "etcd_txn e t (publish_compares b fence (etcd_get e w (processed_key b)) pending_revision) (publish_operations b fence ev pt) = (True, u)"
      "overtaken fence (etcd_get e w (processed_key b)) = Inr False" "newer e w t" for w t u
    by (rule publication_applied[OF assms(1-3) that])
  from runs assms(1) show ?case
  proof (cases rule: run_get_then)
    case (response w v h)
    show ?thesis
    proof (cases "overtaken fence (etcd_get e w (processed_key b)) = Inr False")
      case False
      then show ?thesis using response(4) by (cases "overtaken fence (etcd_get e w (processed_key b))") (auto simp: runs_Return)
    next
      case True
      have "runs e v (bind_action (commit (publish_compares b fence (etcd_get e w (processed_key b)) pending_revision) (publish_operations b fence ev pt))
          (\<lambda>(h, succeeded). if succeeded then Return (revision_from_header h)
             else bind_action (publish_refused b fence pending_revision) (\<lambda>_. publish_loop n b fence (publish_operations b fence ev pt) pending_revision))) log s' y"
        using response(4) True by simp
      then show ?thesis using assms(1) publish_ops_distinct
      proof (cases rule: run_commit_then)
        case (lost msg t u)
        then show ?thesis using pub[OF lost(3) True newer_trans[OF response(2) lost(2)]]
          by (simp add: publishes_def reported_def is_transient_def)
      next
        case (failed t u h')
        have "runs e u (bind_action (publish_refused b fence pending_revision) (\<lambda>_. publish_loop n b fence (publish_operations b fence ev pt) pending_revision)) log s' y"
          using failed(5) by simp
        then show ?thesis by (rule silent_step[OF _ assms(1)]) (simp_all add: Suc.IH)
      next
        case (applied t u x h' log')
        note p = pub[OF applied(2) True newer_trans[OF response(2) applied(1)]]
        have "0 < etcd_revision e t" using p contract_get(2,3)[OF assms(1)]
          by (fastforce simp: publication_def fence_holds_def)
        then have "0 < etcd_revision e u" using contract_txn(4)[OF assms(1) publish_ops_distinct applied(2)] by auto
        then show ?thesis using p applied(5,6) reported_header[OF applied(4)] by (simp add: publishes_def runs_Return)
      qed simp
    qed
  qed simp
qed

section \<open>Authoritative inputs\<close>

definition is_input_key :: "EtcdCoordination \<Rightarrow> string \<Rightarrow> bool" where
  "is_input_key b k = (case strip_prefix (namespace_prefix b @ ''/'') k of None \<Rightarrow> False
     | Some relative \<Rightarrow> is_authoritative_key relative
         (case strip_prefix ''metadata/'' relative of None \<Rightarrow> None | Some encoded \<Rightarrow> ok (decode_segment encoded)))"

text \<open>The discipline of every writer: a change of an input also stamps the input marker, except
  that the expiry of a lease may remove the live record of an instance.\<close>

definition input_step :: "'s etcd \<Rightarrow> EtcdCoordination \<Rightarrow> 's \<Rightarrow> 's \<Rightarrow> bool" where
  "input_step e b s s' \<longleftrightarrow> (\<forall>k. is_input_key b k \<and> etcd_get e s' k \<noteq> etcd_get e s k \<longrightarrow>
     (\<exists>kv. etcd_get e s' (metadata_key b AUTHORITATIVE_INPUT_MARKER) = Some kv \<and> etcd_revision e s < kv_mod_revision kv) \<or>
     (\<exists>i. k = live_key b i) \<and> etcd_get e s' k = None)"

lemma inputs_stable:
  assumes "etcd_contract e" and "\<forall>s s'. etcd_other e s s' \<longrightarrow> input_step e b s s'" and "others e s t"
    and "etcd_get e t (metadata_key b AUTHORITATIVE_INPUT_MARKER) = Some kv" and "kv_mod_revision kv \<le> etcd_revision e s"
    and "is_input_key b k"
  shows "etcd_get e t k = etcd_get e s k \<or> (\<exists>i. k = live_key b i) \<and> etcd_get e t k = None"
  using assms(3,5)
proof (induction rule: converse_rtranclp_induct)
  case (step s v)
  have n: "newer e s v" using assms(1) step.hyps(1) unfolding etcd_contract_def by blast
  then have le: "kv_mod_revision kv \<le> etcd_revision e v" using step.prems by (simp add: newer_def)
  then have "etcd_get e v (metadata_key b AUTHORITATIVE_INPUT_MARKER) = Some kv"
    using others_newer[OF assms(1) step.hyps(2)] assms(4) by (simp add: newer_def)
  then have "etcd_get e v k = etcd_get e s k \<or> (\<exists>i. k = live_key b i) \<and> etcd_get e v k = None"
    using assms(2,6) step.hyps(1) step.prems unfolding input_step_def by (metis leD option.inject)
  then show ?case using step.IH[OF le] by metis
qed simp

text \<open>A program that neither grants nor revokes leases changes the store by transactions only.\<close>

primrec no_leases :: "'a client \<Rightarrow> bool" where
  "no_leases (Return x) = True"
| "no_leases (GetKey k f) = (\<forall>r. no_leases (f r))"
| "no_leases (GetPrefix k f) = (\<forall>r. no_leases (f r))"
| "no_leases (Commit cs ops f) = (\<forall>r. no_leases (f r))"
| "no_leases (GrantLease t f) = False"
| "no_leases (RevokeLease l f) = False"

lemma no_leases_bind_client: "no_leases p \<Longrightarrow> (\<And>x. no_leases (g x)) \<Longrightarrow> no_leases (bind_client p g)"
  by (induction p) auto

lemma no_leases_bind: "no_leases p \<Longrightarrow> (\<And>x. no_leases (f x)) \<Longrightarrow> no_leases (bind_action p f)"
  unfolding bind_action_def by (rule no_leases_bind_client) (auto split: sum.splits)

lemma no_leases_requests [simp]: "no_leases (get_key k)" "no_leases (get_prefix k)" "no_leases (commit cs ops)"
  by (simp_all add: get_key_def get_prefix_def commit_def)

lemma first_commit:
  assumes "runs e s p log s' y" and "etcd_contract e" and "all_commits well_formed_txn p" and "no_leases p" and "log = (t, ops, u) # rest"
  shows "others e s t"
  using assms
proof (induction rule: runs.induct)
  case (run_other s v p log s' x)
  then show ?case by (auto intro: converse_rtranclp_into_rtranclp)
next
  case (run_commit s cs ops' r es v f log s' x)
  show ?case
  proof (cases es)
    case Nil
    then have "v = s" using run_commit.hyps(1) contract_txn(2)[OF run_commit.prems(1), of ops' s cs] run_commit.prems(2)
      by (auto simp: committed_def well_formed_txn_def split: if_splits)
    then show ?thesis using run_commit.IH run_commit.prems Nil by auto
  next
    case (Cons x xs)
    then have "t = s" using run_commit.hyps(1) run_commit.prems(4) by (auto simp: committed_def split: if_splits)
    then show ?thesis by simp
  qed
qed auto

lemma publish_no_leases: "no_leases (publish_loop n b fence ops pending_revision)"
proof -
  have l: "no_leases (live_sessions_changed b xs)" for xs
    by (induction xs) (auto intro!: no_leases_bind split: option.splits)
  have "no_leases (publish_refused b fence pending_revision)"
    by (auto simp: publish_refused_def authority_matches_def pending_revision_changed_def input_fence_changed_def l
        intro!: no_leases_bind split: option.splits)
  then show ?thesis by (induction n) (auto intro!: no_leases_bind)
qed

lemma publish_commits: "(\<And>cs. P cs ops) \<Longrightarrow> all_commits P (publish_loop n b fence ops pending_revision)"
  by (induction n) (auto intro!: all_commits_bind)

section \<open>Snapshots\<close>

lemma authoritative_revision_bound:
  assumes "authoritative_revision_of b revision kvs = Inr r" and "0 < revision_value revision" and "revision_value revision \<le> n"
    and "\<forall>kv \<in> set kvs. kv_mod_revision kv \<le> n"
  shows "0 < revision_value r \<and> revision_value r \<le> n"
proof -
  from assms(1)[unfolded authoritative_revision_of_def bind_result_Inr] obtain acc where
    f: "try_fold (\<lambda>kv revision.
       bind_result (parse_relative_key b (kv_key kv)) (\<lambda>relative.
       let metadata = (case strip_prefix ''metadata/'' relative of None \<Rightarrow> None
             | Some encoded \<Rightarrow> ok (decode_segment encoded))
       in if is_authoritative_key relative metadata
          then bind_result (Revision_new (kv_mod_revision kv)) (\<lambda>current.
            Inr (Some (case revision of None \<Rightarrow> current | Some previous \<Rightarrow> max previous current)))
          else Inr revision)) kvs None = Inr acc" and r: "r = (case acc of None \<Rightarrow> revision | Some r \<Rightarrow> r)" by auto
  have "case acc of None \<Rightarrow> True | Some r \<Rightarrow> 0 < revision_value r \<and> revision_value r \<le> n"
    by (rule try_fold_invariant[OF f]) (use assms(4) in \<open>auto simp: bind_result_Inr Let_def Revision_new_Inr max_def split: if_splits option.splits\<close>)
  then show ?thesis using assms(2,3) r by (auto split: option.splits)
qed

lemma live_grows:
  assumes "bt_get (fst st) i \<noteq> None" and "read_participant_record b kv st = Inr st'"
  shows "bt_get (fst st') i \<noteq> None"
proof -
  obtain rel where rel: "parse_relative_key b (kv_key kv) = Inr rel" using assms(2) by (auto simp: read_participant_record_def bind_result_Inr)
  note step = assms(2)[unfolded read_participant_record_def rel bind_result_simps]
  show ?thesis
  proof (cases "\<exists>x. split_on CHR ''/'' rel = [''live'', x]")
    case True
    then show ?thesis using step assms(1) by (auto simp: read_live_record_def bind_result_Inr)
  next
    case False
    then have "fst st' = fst st" using step by (simp add: bind_result_Inr split: list.split_asm if_split_asm) auto
    then show ?thesis using assms(1) by simp
  qed
qed

lemma live_recorded:
  assumes "try_fold (read_participant_record b) kvs (bt_empty, bt_empty) = Inr (live, records)" and "kv \<in> set kvs" and "kv_key kv = live_key b i"
  shows "bt_get live i \<noteq> None"
proof -
  obtain xs ys where kvs: "kvs = xs @ kv # ys" using assms(2) by (meson split_list)
  then obtain st st' where st: "read_participant_record b kv st = Inr st'" "try_fold (read_participant_record b) ys st' = Inr (live, records)"
    using assms(1) by (auto simp: try_fold_append bind_result_Inr)
  have parts: "parse_relative_key b (kv_key kv) = Inr rel \<Longrightarrow> split_on CHR ''/'' rel = [''live'', encode_segment (InstanceId_as_str i)]" for rel
    using assms(3) unfolding live_key_parts by (auto simp: parse_relative_key_def ok_or_def strip_prefix_Some split: if_splits option.splits)
  have "bt_get (fst st') i \<noteq> None"
    using st(1) by (auto simp: read_participant_record_def bind_result_Inr read_live_record_def decode_encode dest!: parts split: if_splits)
  then have "bt_get (fst (live, records)) i \<noteq> None"
    by (rule try_fold_invariant[OF st(2)])
      (rule live_grows)
  then show ?thesis by simp
qed

lemma snapshot_lists_live:
  assumes "participant_snapshot_from_kvs b kvs = Inr snap" and "kv \<in> set kvs" and "kv_key kv = live_key b i"
  shows "bt_get (snapshot_live_instances snap) i \<noteq> None"
proof -
  obtain live records where lr: "try_fold (read_participant_record b) kvs (bt_empty, bt_empty) = Inr (live, records)"
    and s: "try_fold (active_participant records) (entries live)
       \<lparr>snapshot_live_instances = bt_empty, snapshot_active_current_state = bt_empty\<rparr> = Inr snap"
    using assms(1) by (auto simp: participant_snapshot_from_kvs_def bind_result_Inr)
  have "bt_get (snapshot_live_instances snap) i = map_option (\<lambda>s. \<lparr>live_instance_id = i, live_session_id = s\<rparr>) (bt_get live i)"
    using active_participants[OF ascending_distinct[OF ascending_entries[of live]], of records
        "\<lparr>snapshot_live_instances = bt_empty, snapshot_active_current_state = bt_empty\<rparr>"] s
    by (auto simp: bt_get_entries split: option.splits)
  then show ?thesis using live_recorded[OF lr assms(2,3)] by simp
qed

lemma runs_bind_pure:
  "runs e s (bind_action (Return r) f) log s' y \<longleftrightarrow> (case r of Inl err \<Rightarrow> others e s s' \<and> log = [] \<and> y = Inl err | Inr x \<Rightarrow> runs e s (f x) log s' y)"
  by (cases r) (auto simp: runs_Return)

lemma revision_from_header_Inr: "revision_from_header h = Inr r \<longleftrightarrow> (\<exists>n > 0. h = Some n \<and> r = Revision n)"
  by (auto simp: revision_from_header_def Revision_new_def split: option.splits)

lemma run_bind_Inr:
  assumes "runs e s (bind_action p f) log s' (Inr y)"
  obtains l1 t x l2 where "runs e s p l1 t (Inr x)" "runs e t (f x) l2 s' (Inr y)" "log = l1 @ l2"
  using assms unfolding runs_bind_action by blast

lemma raw_snapshot_prefix_run:
  assumes "runs e s (raw_snapshot_prefix k) log s' (Inr x)"
  obtains w where "others e s w" "others e w s'" "log = []" "0 < etcd_revision e w" "x = (Revision (etcd_revision e w), etcd_range e w k)"
proof -
  from assms obtain l1 t r l2 where g: "runs e s (get_prefix k) l1 t (Inr r)" "log = l1 @ l2"
    "runs e t (bind_action (Return (revision_from_header (fst r))) (\<lambda>revision. Return (Inr (revision, snd r)))) l2 s' (Inr x)"
    unfolding raw_snapshot_prefix_def case_prod_beta by (rule run_bind_Inr)
  from g(1) obtain w where w: "others e s w" "ranged e w k (Inr r)" "others e w t" "l1 = []" by (auto simp: runs_get_prefix)
  from g(3) obtain n where "0 < n" "fst r = Some n" "x = (Revision n, snd r)" "others e t s'" "l2 = []"
    by (auto simp: runs_bind_pure runs_Return revision_from_header_Inr split: sum.splits)
  with w g(2) show ?thesis using that[of w] rtranclp_trans[OF w(3), of s'] by (auto simp: ranged_def header_def)
qed

lemma controller_snapshot_run:
  assumes "runs e s (controller_snapshot b) log s' (Inr snap)"
  obtains w where "others e s w" "others e w s'" "log = []" "0 < etcd_revision e w"
    "controller_snapshot_from_kvs b (Revision (etcd_revision e w)) (etcd_range e w (namespaced_key b '''')) = Inr snap"
proof -
  from assms obtain l1 t x l2 where g: "runs e s (raw_snapshot_prefix (namespaced_key b '''')) l1 t (Inr x)" "log = l1 @ l2"
    "runs e t (Return (controller_snapshot_from_kvs b (fst x) (snd x))) l2 s' (Inr snap)"
    unfolding controller_snapshot_def case_prod_beta by (rule run_bind_Inr)
  from g(1) show ?thesis
  proof (cases rule: raw_snapshot_prefix_run)
    case (1 w)
    then show ?thesis using that[of w] g(2,3) by (auto simp: runs_Return intro: rtranclp_trans)
  qed
qed

section \<open>Properties\<close>

lemma controller_snapshot_parts:
  assumes "controller_snapshot_from_kvs b revision kvs = Inr snap"
  shows "participant_snapshot_from_kvs b kvs = Inr (snapshot_participants snap)"
    and "authoritative_revision_of b revision kvs = Inr (authoritative_revision snap)"
  using assms by (auto simp: controller_snapshot_from_kvs_def bind_result_Inr)

lemma publish_runs:
  assumes "etcd_contract e" and "0 < revision_value (fence_revision fence)" and "\<forall>r. pending_revision = Some r \<longrightarrow> 0 < revision_value r"
    and "runs e s (publish_controller_outputs_with_fence b fence ev pt pending_revision) log s' y"
  shows "publishes e b fence ev pt pending_revision log y"
proof (cases "fence_namespace fence = namespace_prefix b")
  case True
  then show ?thesis using publish_loop_runs[OF assms(1-3), of s 32 b ev pt log s' y] assms(4) by (simp add: publish_controller_outputs_with_fence_def)
qed (use assms(4) in \<open>simp add: publish_controller_outputs_with_fence_def runs_Return\<close>)

text \<open>C4: Publishing controller outputs is fenced. However other clients interfere and wherever
  requests fail or responses get lost, at most one publication takes effect. It takes effect only
  while this controller holds the active lease, the input marker has the observed revision, every
  observed session is still live and the queue is the one the plan was made from, it never
  replaces the output for a later input, and it changes the outputs and nothing else. A returned
  revision is the revision of that publication; when the call fails with anything but a lost
  response, nothing was published.\<close>

theorem publish_fenced:
  assumes "etcd_contract e" and "0 < revision_value (fence_revision fence)" and "\<forall>r. pending_revision = Some r \<longrightarrow> 0 < revision_value r"
    and "runs e s (publish_controller_outputs_with_fence b fence external_view pending_transitions pending_revision) log s' y"
  shows "(\<forall>(t, ops, u) \<in> set log. publication e b fence external_view pending_transitions pending_revision t u) \<and> reported e log y"
  using publish_runs[OF assms] by (simp add: publishes_def)

text \<open>C5: Outputs are never published for outdated inputs. When every other writer stamps the
  input marker with its changes, lease expiry of live records apart, then at the moment a
  publication takes effect every authoritative input record is the one in the snapshot that the
  publication was checked against, and that snapshot has the processed revision.\<close>

theorem published_inputs_current:
  assumes "etcd_contract e" and "\<forall>s s'. etcd_other e s s' \<longrightarrow> input_step e b s s'" and "\<forall>r. pending_revision = Some r \<longrightarrow> 0 < revision_value r"
    and "runs e s (publish_controller_outputs b authority external_view pending_transitions processed pending_revision) log s' y"
    and "(t, ops, u) \<in> set log"
  shows "\<exists>w snap. others e s w \<and> others e w t \<and> processed = authoritative_revision snap \<and>
    controller_snapshot_from_kvs b (Revision (etcd_revision e w)) (etcd_range e w (namespaced_key b '''')) = Inr snap \<and>
    (\<forall>k. is_input_key b k \<longrightarrow> etcd_get e t k = etcd_get e w k)"
proof -
  let ?fence = "\<lambda>snap. commit_fence authority (authoritative_revision snap)
            (bt_map (\<lambda>_ live. live_session_id live) (snapshot_live_instances (snapshot_participants snap)))"
  let ?ops = "\<lambda>snap. publish_operations b (?fence snap) external_view pending_transitions"
  have silent: "all_commits (\<lambda>_ _. False) (controller_snapshot b)"
    by (auto simp: controller_snapshot_def raw_snapshot_prefix_def intro!: all_commits_bind split: sum.splits)
  from assms(4)[unfolded publish_controller_outputs_def] assms(1) silent
  obtain v snap where g: "runs e s (controller_snapshot b) [] v (Inr snap)"
    "runs e v (if processed \<noteq> authoritative_revision snap then Return (Inl StaleRevision)
       else publish_controller_outputs_with_fence b (?fence snap) external_view pending_transitions pending_revision) log s' y"
    by (cases rule: run_silent_then) (use assms(5) in auto)
  then have p: "processed = authoritative_revision snap"
    and loop: "runs e v (publish_loop 32 b (?fence snap) (?ops snap) pending_revision) log s' y"
    using assms(5) by (auto simp: publish_controller_outputs_with_fence_def runs_Return split: if_splits)
  from g(1) obtain w where w: "others e s w" "others e w v" "0 < etcd_revision e w"
    and snap: "controller_snapshot_from_kvs b (Revision (etcd_revision e w)) (etcd_range e w (namespaced_key b '''')) = Inr snap"
    by (rule controller_snapshot_run)
  note range = contract_range(2)[OF assms(1), of w "namespaced_key b ''''"]
  have bound: "0 < revision_value (authoritative_revision snap)" "revision_value (authoritative_revision snap) \<le> etcd_revision e w"
    using authoritative_revision_bound[OF controller_snapshot_parts(2)[OF snap], of "etcd_revision e w"] w(3) contract_get(3)[OF assms(1)]
    by (auto simp: range)
  have spec: "publishes e b (?fence snap) external_view pending_transitions pending_revision log y"
    by (rule publish_loop_runs[OF assms(1) _ assms(3) loop]) (simp add: commit_fence_def bound)
  then have "log = [(t, ops, u)]" using assms(5) by (cases log) (auto simp: publishes_def reported_def)
  moreover have "all_commits well_formed_txn (publish_loop 32 b (?fence snap) (?ops snap) pending_revision)"
    by (rule publish_commits) (simp add: well_formed_txn_def publish_ops_distinct)
  ultimately have t: "others e w t" using first_commit[OF loop assms(1) _ publish_no_leases] rtranclp_trans[OF w(2)] by blast
  from spec assms(5) have fence: "fence_holds e b (?fence snap) pending_revision t" by (auto simp: publishes_def publication_def)
  then obtain kv where kv: "etcd_get e t (metadata_key b AUTHORITATIVE_INPUT_MARKER) = Some kv" "kv_mod_revision kv \<le> etcd_revision e w"
    using bound(2) by (auto simp: fence_holds_def commit_fence_def)
  have "etcd_get e t k = etcd_get e w k" if k: "is_input_key b k" for k
  proof (rule disjE[OF inputs_stable[OF assms(1,2) t kv k]])
    assume *: "(\<exists>i. k = live_key b i) \<and> etcd_get e t k = None"
    then obtain i where i: "k = live_key b i" by blast
    have "etcd_get e w k = None"
    proof (rule ccontr)
      assume "etcd_get e w k \<noteq> None"
      then obtain r where r: "etcd_get e w k = Some r" by blast
      then have "r \<in> set (etcd_range e w (namespaced_key b ''''))" "kv_key r = live_key b i"
        using contract_get(1)[OF assms(1)] unfolding range i by (auto simp: live_key_def namespaced_key_def starts_with_def)
      then have "bt_get (fence_sessions (?fence snap)) i \<noteq> None"
        using snapshot_lists_live[OF controller_snapshot_parts(1)[OF snap]] by (simp add: commit_fence_def)
      then have "etcd_get e t (live_key b i) \<noteq> None" using fence unfolding fence_holds_def by blast
      then show False using * i by simp
    qed
    then show ?thesis using * by simp
  qed simp
  then show ?thesis using w(1) t p snap by blast
qed

section \<open>Examples\<close>

text \<open>Controller \<open>c1\<close> is active under lease 7 and one instance is live.\<close>

definition demo_store :: mem_store where
  "demo_store = mem_of
     [(controller_active_key demo_backend, ''c1'', 7), (live_key demo_backend (InstanceId ''a''), ''1'', 5),
      (metadata_key demo_backend AUTHORITATIVE_INPUT_MARKER, ''1'', 0)]"

definition demo_authority :: ControllerAuthority where
  "demo_authority = \<lparr>authority_namespace = namespace_prefix demo_backend, authority_controller = ''c1'', authority_lease = 7\<rparr>"

definition demo_fence :: ControllerCommitFence where
  "demo_fence = commit_fence demo_authority (Revision 4) (bt_collect [(InstanceId ''a'', SessionId 1)])"

theorem publish_fenced_witness:
  "\<exists>t u. publication (mem_with (\<lambda>_ _. True)) demo_backend demo_fence ''view'' ''queue'' None t u \<and> etcd_revision mem_etcd u = 5"
proof -
  let ?run = "mem_run (publish_controller_outputs_with_fence demo_backend demo_fence ''view'' ''queue'' None) demo_store"
  have y: "snd (snd ?run) = Inr (Revision 5)" by code_simp
  have pos: "0 < revision_value (fence_revision demo_fence)" by code_simp
  have "runs (mem_with (\<lambda>_ _. True)) demo_store (publish_controller_outputs_with_fence demo_backend demo_fence ''view'' ''queue'' None)
      (fst ?run) (fst (snd ?run)) (snd (snd ?run))"
    by (rule mem_run_runs) simp
  from publish_fenced[OF mem_with_contract pos _ this] obtain t ops u where "fst ?run = [(t, ops, u)]" "5 = etcd_revision mem_etcd u"
    "\<forall>(t, ops, u) \<in> set (fst ?run). publication (mem_with (\<lambda>_ _. True)) demo_backend demo_fence ''view'' ''queue'' None t u"
    by (auto simp: reported_def y)
  then show ?thesis by (intro exI[of _ t] exI[of _ u]) simp
qed

theorem published_inputs_current_witness:
  "\<exists>w t snap. Revision 4 = authoritative_revision snap \<and>
     controller_snapshot_from_kvs demo_backend (Revision (etcd_revision mem_etcd w)) (etcd_range mem_etcd w (namespaced_key demo_backend '''')) = Inr snap \<and>
     (\<forall>k. is_input_key demo_backend k \<longrightarrow> etcd_get mem_etcd t k = etcd_get mem_etcd w k)"
proof -
  let ?e = "mem_with (input_step mem_etcd demo_backend)"
  let ?run = "mem_run (publish_controller_outputs demo_backend demo_authority ''view'' ''queue'' (Revision 4) None) demo_store"
  have "length (fst ?run) = 1" by code_simp
  then obtain t ops u where log: "(t, ops, u) \<in> set (fst ?run)" by (cases "fst ?run") auto
  have "\<forall>s s'. etcd_other ?e s s' \<longrightarrow> input_step ?e demo_backend s s'" by (simp add: input_step_def) (simp add: mem_with_def input_step_def)
  moreover have "runs ?e demo_store (publish_controller_outputs demo_backend demo_authority ''view'' ''queue'' (Revision 4) None)
      (fst ?run) (fst (snd ?run)) (snd (snd ?run))"
    by (rule mem_run_runs) simp
  ultimately have "\<exists>w snap. others ?e demo_store w \<and> others ?e w t \<and> Revision 4 = authoritative_revision snap \<and>
      controller_snapshot_from_kvs demo_backend (Revision (etcd_revision ?e w)) (etcd_range ?e w (namespaced_key demo_backend '''')) = Inr snap \<and>
      (\<forall>k. is_input_key demo_backend k \<longrightarrow> etcd_get ?e t k = etcd_get ?e w k)"
    by (intro published_inputs_current[OF mem_with_contract _ _ _ log]) simp_all
  then show ?thesis unfolding mem_with_simps by blast
qed

end
