(* ===== verification/Etcd_Queue.thy ===== *)
theory Etcd_Queue
  imports Etcd_Publish
begin

text \<open>
  The shared transition queue (\<^verbatim>\<open>src/coordination/etcd/mod.rs\<close>): injection, the claim before an
  application callback runs, the session-fenced completion, and removal. The queue is one
  metadata value in the wire format of \<^verbatim>\<open>serde_json\<close>, which is a parameter.
\<close>

record message_codec =
  decode_messages :: "string \<Rightarrow> TransitionMessage list option"
  encode_messages :: "TransitionMessage list \<Rightarrow> string option"

text \<open>What is written reads back.\<close>

definition faithful_codec :: "message_codec \<Rightarrow> bool" where
  "faithful_codec codec \<longleftrightarrow> (\<forall>ms v. encode_messages codec ms = Some v \<longrightarrow> decode_messages codec v = Some ms)"

datatype CompletionResult = CompletionApplied Revision | CompletionSessionLost | AlreadyCompleted

datatype TransitionClaim = Claimed Revision | ClaimSessionLost | Withdrawn

record ParticipantCompletionFence =
  completion_instance :: InstanceId
  completion_session :: SessionId
  completion_queue_revision :: Revision
  completion_message_id :: string

definition parse_pending_messages :: "message_codec \<Rightarrow> string option \<Rightarrow> CoordinationError + TransitionMessage list" where
  "parse_pending_messages codec v =
     bind_result (case v of None \<Rightarrow> Inr [] | Some v \<Rightarrow> ok_or (decode_messages codec v) InvalidStoreValue) (\<lambda>messages.
     if list_ex (\<lambda>m. message_id m = []) messages then Inl InvalidStoreValue else Inr messages)"

definition to_queue_value :: "message_codec \<Rightarrow> TransitionMessage list \<Rightarrow> CoordinationError + string" where
  "to_queue_value codec messages = ok_or (encode_messages codec messages) InvalidStoreValue"

definition live_session :: "EtcdCoordination \<Rightarrow> InstanceId \<Rightarrow> SessionId option action" where
  "live_session b i = bind_action (get_key (live_key b i)) (\<lambda>(_, kv).
     case kv of None \<Rightarrow> Return (Inr None)
     | Some kv \<Rightarrow> bind_action (Return (map_err (\<lambda>_. InvalidSession) (parse_session (kv_value kv)))) (\<lambda>s. Return (Inr (Some s))))"

definition snapshot_and_watch_pending_transitions ::
    "message_codec \<Rightarrow> EtcdCoordination \<Rightarrow> (TransitionMessage list \<times> Revision \<times> WatchSubscription) action" where
  "snapshot_and_watch_pending_transitions codec b =
     bind_action (snapshot_and_watch_metadata b PENDING_TRANSITIONS_KEY) (\<lambda>(entry, watch).
     bind_action (Return (parse_pending_messages codec (entry_value entry))) (\<lambda>messages.
       Return (Inr (messages, entry_revision entry, watch))))"

section \<open>Injection\<close>

fun inject_loop :: "nat \<Rightarrow> message_codec \<Rightarrow> EtcdCoordination \<Rightarrow> TransitionMessage \<Rightarrow> Revision action" where
  "inject_loop 0 codec b message = Return (Inl Contention)"
| "inject_loop (Suc n) codec b message =
     bind_action (metadata_get b PENDING_TRANSITIONS_KEY) (\<lambda>entry.
     bind_action (case entry of
         Some entry \<Rightarrow> bind_action (Return (parse_pending_messages codec (entry_value entry))) (\<lambda>messages.
           Return (Inr (entry_revision entry, messages, True)))
       | None \<Rightarrow> bind_action (controller_snapshot b) (\<lambda>snapshot. Return (Inr (snapshot_revision snapshot, [], False)))) (\<lambda>(expected, messages, exists).
     if list_ex (\<lambda>candidate. message_id candidate = message_id message) messages
     then Return (Inl (DuplicateMessage (message_id message)))
     else bind_action (Return (to_queue_value codec (messages @ [message]))) (\<lambda>v.
     bind_action (if exists
         then bind_action (compare_and_put b PENDING_TRANSITIONS_KEY expected v) (\<lambda>r. Return (Inr (cas_applied r)))
         else compare_and_put_absent b PENDING_TRANSITIONS_KEY v) (\<lambda>applied.
     if applied then bind_action (metadata_get b PENDING_TRANSITIONS_KEY) (\<lambda>entry.
       Return (ok_or (map_option entry_revision entry) MissingRevision))
     else inject_loop n codec b message))))"

definition inject_pending_transition :: "message_codec \<Rightarrow> EtcdCoordination \<Rightarrow> TransitionMessage \<Rightarrow> Revision action" where
  "inject_pending_transition codec b message =
     (if message_id message = [] then Return (Inl InvalidStoreValue) else inject_loop MAX_QUEUE_CAS_RETRIES codec b message)"

section \<open>Claim\<close>

definition claim_compares :: "EtcdCoordination \<Rightarrow> InstanceId \<Rightarrow> SessionId \<Rightarrow> Revision \<Rightarrow> string \<Rightarrow> Compare list" where
  "claim_compares b i session revision v =
     [CompareValue (live_key b i) (session_text session),
      CompareModRevision (metadata_key b PENDING_TRANSITIONS_KEY) (revision_value revision),
      CompareValue (metadata_key b PENDING_TRANSITIONS_KEY) v]"

fun claim_loop :: "nat \<Rightarrow> message_codec \<Rightarrow> EtcdCoordination \<Rightarrow> InstanceId \<Rightarrow> SessionId \<Rightarrow> TransitionMessage \<Rightarrow> TransitionClaim action" where
  "claim_loop 0 codec b i session message = Return (Inl Contention)"
| "claim_loop (Suc n) codec b i session message =
     bind_action (metadata_get b PENDING_TRANSITIONS_KEY) (\<lambda>entry. case entry of
       None \<Rightarrow> Return (Inr Withdrawn)
     | Some entry \<Rightarrow>
         bind_action (Return (parse_pending_messages codec (entry_value entry))) (\<lambda>messages.
         if message \<notin> set messages then Return (Inr Withdrawn)
         else bind_action (Return (ok_or (entry_value entry) InvalidStoreValue)) (\<lambda>v.
         bind_action (commit (claim_compares b i session (entry_revision entry) v) []) (\<lambda>(h, succeeded).
         if succeeded then Return (Inr (Claimed (entry_revision entry)))
         else bind_action (live_session b i) (\<lambda>live.
           if live \<noteq> Some session then Return (Inr ClaimSessionLost) else claim_loop n codec b i session message)))))"

definition claim_pending_transition ::
    "message_codec \<Rightarrow> EtcdCoordination \<Rightarrow> InstanceId \<Rightarrow> SessionId \<Rightarrow> TransitionMessage \<Rightarrow> TransitionClaim action" where
  "claim_pending_transition codec b i session message = claim_loop MAX_QUEUE_CAS_RETRIES codec b i session message"

section \<open>Completion\<close>

definition completion_operations ::
    "EtcdCoordination \<Rightarrow> ParticipantCompletionFence \<Rightarrow> ResourceId \<Rightarrow> PartitionId \<Rightarrow> State option \<Rightarrow> string \<Rightarrow> TxnOp list" where
  "completion_operations b fence r p resulting_state v =
     [(let key = current_state_key b (completion_instance fence) (completion_session fence) r p
       in case resulting_state of Some state \<Rightarrow> PutOp key (State_as_str state) None | None \<Rightarrow> DeleteOp key),
      PutOp (metadata_key b PENDING_TRANSITIONS_KEY) v None,
      authoritative_input_marker_operation b]"

definition completion_compares :: "EtcdCoordination \<Rightarrow> ParticipantCompletionFence \<Rightarrow> Compare list" where
  "completion_compares b fence =
     [CompareValue (live_key b (completion_instance fence)) (session_text (completion_session fence)),
      CompareModRevision (metadata_key b PENDING_TRANSITIONS_KEY) (revision_value (completion_queue_revision fence))]"

text \<open>After the session was lost: the message goes, the state does not.\<close>

definition clean_up_lost_session :: "message_codec \<Rightarrow> EtcdCoordination \<Rightarrow> ParticipantCompletionFence \<Rightarrow> CompletionResult action" where
  "clean_up_lost_session codec b fence =
     bind_action (metadata_get b PENDING_TRANSITIONS_KEY) (\<lambda>entry. case entry of
       None \<Rightarrow> Return (Inr CompletionSessionLost)
     | Some entry \<Rightarrow>
         bind_action (Return (parse_pending_messages codec (entry_value entry))) (\<lambda>current.
         let retained = filter (\<lambda>candidate. message_id candidate \<noteq> completion_message_id fence) current
         in if length retained = length current then Return (Inr AlreadyCompleted)
            else if entry_revision entry \<noteq> completion_queue_revision fence then Return (Inr CompletionSessionLost)
            else bind_action (Return (to_queue_value codec retained)) (\<lambda>v.
              bind_action (compare_and_put b PENDING_TRANSITIONS_KEY (completion_queue_revision fence) v) (\<lambda>_.
                Return (Inr CompletionSessionLost)))))"

definition complete_pending_transition_with_fence ::
    "message_codec \<Rightarrow> EtcdCoordination \<Rightarrow> ParticipantCompletionFence \<Rightarrow> TransitionMessage \<Rightarrow> State option \<Rightarrow> CompletionResult action" where
  "complete_pending_transition_with_fence codec b fence message resulting_state =
     bind_action (Return (map_err (\<lambda>_. InvalidKey) (ResourceId_new (message_resource message)))) (\<lambda>r.
     bind_action (Return (map_err (\<lambda>_. InvalidKey) (PartitionId_new (message_partition message)))) (\<lambda>p.
     bind_action (metadata_get b PENDING_TRANSITIONS_KEY) (\<lambda>entry. case entry of
       None \<Rightarrow> Return (Inr AlreadyCompleted)
     | Some entry \<Rightarrow>
         bind_action (Return (parse_pending_messages codec (entry_value entry))) (\<lambda>messages.
         case position (\<lambda>candidate. message_id candidate = completion_message_id fence) messages of
           None \<Rightarrow> Return (Inr AlreadyCompleted)
         | Some index \<Rightarrow>
             if messages ! index \<noteq> message then Return (Inr AlreadyCompleted)
             else if entry_revision entry \<noteq> completion_queue_revision fence then Return (Inl StaleRevision)
             else bind_action (Return (to_queue_value codec (take index messages @ drop (Suc index) messages))) (\<lambda>v.
             bind_action (commit (completion_compares b fence) (completion_operations b fence r p resulting_state v)) (\<lambda>(h, succeeded).
             if succeeded then bind_action (Return (revision_from_header h)) (\<lambda>revision. Return (Inr (CompletionApplied revision)))
             else bind_action (live_session b (completion_instance fence)) (\<lambda>live.
             if live = Some (completion_session fence) then Return (Inl StaleRevision)
             else clean_up_lost_session codec b fence)))))))"

definition complete_pending_transition ::
    "message_codec \<Rightarrow> EtcdCoordination \<Rightarrow> InstanceId \<Rightarrow> SessionId \<Rightarrow> Revision \<Rightarrow> TransitionMessage \<Rightarrow> State option \<Rightarrow> CompletionResult action" where
  "complete_pending_transition codec b i session expected message resulting_state =
     complete_pending_transition_with_fence codec b
       \<lparr>completion_instance = i, completion_session = session, completion_queue_revision = expected,
        completion_message_id = message_id message\<rparr> message resulting_state"

section \<open>Removal\<close>

definition remove_pending_transition :: "message_codec \<Rightarrow> EtcdCoordination \<Rightarrow> Revision \<Rightarrow> string \<Rightarrow> bool action" where
  "remove_pending_transition codec b expected mid =
     bind_action (metadata_get b PENDING_TRANSITIONS_KEY) (\<lambda>entry. case entry of
       None \<Rightarrow> Return (Inr False)
     | Some entry \<Rightarrow>
         bind_action (Return (parse_pending_messages codec (entry_value entry))) (\<lambda>messages.
         let retained = filter (\<lambda>m. message_id m \<noteq> mid) messages
         in if length retained = length messages then Return (Inr False)
            else if entry_revision entry \<noteq> expected then Return (Inl StaleRevision)
            else bind_action (Return (to_queue_value codec retained)) (\<lambda>v.
              bind_action (compare_and_put b PENDING_TRANSITIONS_KEY expected v) (\<lambda>r.
                if cas_applied r then Return (Inr True) else Return (Inl StaleRevision)))))"

fun remove_resource_loop :: "nat \<Rightarrow> message_codec \<Rightarrow> EtcdCoordination \<Rightarrow> ResourceId \<Rightarrow> unit action" where
  "remove_resource_loop 0 codec b r = Return (Inl Contention)"
| "remove_resource_loop (Suc n) codec b r =
     bind_action (metadata_get b PENDING_TRANSITIONS_KEY) (\<lambda>entry. case entry of
       None \<Rightarrow> Return (Inr ())
     | Some entry \<Rightarrow>
         bind_action (Return (parse_pending_messages codec (entry_value entry))) (\<lambda>messages.
         let retained = filter (\<lambda>m. message_resource m \<noteq> ResourceId_as_str r) messages
         in if length retained = length messages then Return (Inr ())
            else bind_action (Return (to_queue_value codec retained)) (\<lambda>v.
              bind_action (compare_and_put b PENDING_TRANSITIONS_KEY (entry_revision entry) v) (\<lambda>res.
                if cas_applied res then Return (Inr ()) else remove_resource_loop n codec b r))))"

definition remove_pending_transitions_for_resource :: "message_codec \<Rightarrow> EtcdCoordination \<Rightarrow> ResourceId \<Rightarrow> unit action" where
  "remove_pending_transitions_for_resource codec b r = remove_resource_loop MAX_QUEUE_CAS_RETRIES codec b r"

end
