(* ===== verification/Etcd_Sessions.thy ===== *)
theory Etcd_Sessions
  imports Etcd_Queue
begin

text \<open>
  Participant sessions in etcd (\<^verbatim>\<open>src/coordination/etcd/session.rs\<close>): allocation of session
  numbers, registration with carried-over states, publication and revocation, and the
  administrative injection and removal of state records. Lease keepalive is not modelled.
\<close>

definition MAX_CAS_RETRIES :: nat where
  "MAX_CAS_RETRIES = 32"

definition CURRENT_STATE_DELETE_BATCH :: nat where
  "CURRENT_STATE_DELETE_BATCH = 100"

section \<open>Options and sessions\<close>

text \<open>A duration is a number of seconds and of nanoseconds below one second.\<close>

record RegistrationOptions =
  lease_ttl :: "nat \<times> nat"
  default_initial_state :: State
  resource_initial_states :: "(ResourceId, State) btree"

definition RegistrationOptions_new :: "nat \<times> nat \<Rightarrow> CoordinationError + RegistrationOptions" where
  "RegistrationOptions_new ttl =
     (if ttl = (0, 0) \<or> fst ttl = 0 \<or> fst ttl > 2 ^ 63 - 1 then Inl InvalidLeaseTtl
      else Inr \<lparr>lease_ttl = ttl, default_initial_state = State ''OFFLINE'', resource_initial_states = bt_empty\<rparr>)"

definition with_default_initial_state :: "State \<Rightarrow> RegistrationOptions \<Rightarrow> RegistrationOptions" where
  "with_default_initial_state state options = options\<lparr>default_initial_state := state\<rparr>"

definition with_resource_initial_state :: "ResourceId \<Rightarrow> State \<Rightarrow> RegistrationOptions \<Rightarrow> RegistrationOptions" where
  "with_resource_initial_state r state options =
     options\<lparr>resource_initial_states := bt_insert r state (resource_initial_states options)\<rparr>"

definition ttl_seconds :: "RegistrationOptions \<Rightarrow> int" where
  "ttl_seconds options = int (fst (lease_ttl options))"

definition registration_initial_state :: "RegistrationOptions \<Rightarrow> ResourceId \<Rightarrow> State" where
  "registration_initial_state options r =
     (case bt_get (resource_initial_states options) r of Some s \<Rightarrow> s | None \<Rightarrow> default_initial_state options)"

record EtcdParticipantSession =
  registered_instance :: InstanceId
  registered_session :: SessionId
  registered_lease :: int
  registration_revision :: Revision

section \<open>Publication\<close>

definition state_operations :: "EtcdCoordination \<Rightarrow> InstanceId \<Rightarrow> SessionId \<Rightarrow> ResourceId \<Rightarrow> (PartitionId, State) btree \<Rightarrow> TxnOp list" where
  "state_operations b i session r states =
     map (\<lambda>(p, state). PutOp (current_state_key b i session r p) (State_as_str state) None) (entries states)
     @ [authoritative_input_marker_operation b]"

definition etcd_publish_current_state ::
    "EtcdCoordination \<Rightarrow> InstanceId \<Rightarrow> SessionId \<Rightarrow> ResourceId \<Rightarrow> (PartitionId, State) btree \<Rightarrow> Revision action" where
  "etcd_publish_current_state b i session r states =
     bind_action (commit [CompareValue (live_key b i) (session_text session)] (state_operations b i session r states)) (\<lambda>(h, succeeded).
       if \<not> succeeded then Return (Inl (StaleSession i)) else Return (revision_from_header h))"

definition is_current :: "EtcdCoordination \<Rightarrow> EtcdParticipantSession \<Rightarrow> bool action" where
  "is_current b session = bind_action (live_session b (registered_instance session)) (\<lambda>live.
     Return (Inr (live = Some (registered_session session))))"

definition revoke_session :: "EtcdParticipantSession \<Rightarrow> unit action" where
  "revoke_session session = revoke_lease (registered_lease session)"

definition etcd_inject_session_current_state ::
    "EtcdCoordination \<Rightarrow> InstanceId \<Rightarrow> SessionId \<Rightarrow> ResourceId \<Rightarrow> (PartitionId, State) btree \<Rightarrow> unit action" where
  "etcd_inject_session_current_state b i session r states =
     bind_action (get_key (session_key b i session)) (\<lambda>(_, marker).
       if Option.is_none marker then Return (Inl (UnknownStoreSession session))
       else bind_action (commit [] (state_operations b i session r states)) (\<lambda>_. Return (Inr ())))"

section \<open>Registration\<close>

fun allocate_loop :: "nat \<Rightarrow> EtcdCoordination \<Rightarrow> SessionId action" where
  "allocate_loop 0 b = Return (Inl Contention)"
| "allocate_loop (Suc n) b =
     (let key = namespaced_key b INTERNAL_SESSION_SEQUENCE
      in bind_action (get_key key) (\<lambda>(_, kv).
         bind_action (Return (case kv of
             Some kv \<Rightarrow> bind_result (parse_sequence (kv_value kv)) (\<lambda>v. Inr (v, Some (kv_mod_revision kv)))
           | None \<Rightarrow> Inr (0, None))) (\<lambda>(old_value, old_revision).
         if old_value = - 1 then Return (Inl InvalidSession)
         else bind_action (commit
             [case old_revision of Some revision \<Rightarrow> CompareModRevision key revision | None \<Rightarrow> CompareVersion key 0]
             [PutOp key (session_text (SessionId (old_value + 1))) None]) (\<lambda>(h, succeeded).
           if succeeded then Return (Inr (SessionId (old_value + 1))) else allocate_loop n b))))"

definition etcd_allocate_session :: "EtcdCoordination \<Rightarrow> SessionId action" where
  "etcd_allocate_session b = allocate_loop MAX_CAS_RETRIES b"

definition session_of_key :: "KeyValue \<Rightarrow> SessionId option" where
  "session_of_key kv =
     (if valid_utf8 (kv_key kv) then ok (parse_session (last (split_on CHR ''/'' (kv_key kv)))) else None)"

definition latest_session :: "EtcdCoordination \<Rightarrow> InstanceId \<Rightarrow> SessionId option action" where
  "latest_session b i = bind_action (raw_snapshot_prefix (session_prefix b i)) (\<lambda>(_, kvs).
     Return (Inr (case List.map_filter session_of_key kvs of [] \<Rightarrow> None | s # ss \<Rightarrow> Some (fold max ss s))))"

definition carried_record ::
    "EtcdCoordination \<Rightarrow> InstanceId \<Rightarrow> SessionId \<Rightarrow> RegistrationOptions \<Rightarrow> KeyValue \<Rightarrow> CoordinationError + (string \<times> State)" where
  "carried_record b i new_session options kv =
     bind_result (parse_relative_key b (kv_key kv)) (\<lambda>relative.
     bind_result (ok_or (case drop 3 (split_on CHR ''/'' relative) of r # _ \<Rightarrow> Some r | [] \<Rightarrow> None) InvalidKey) (\<lambda>encoded.
     bind_result (bind_result (decode_segment encoded) (\<lambda>name. map_err (\<lambda>_. InvalidKey) (ResourceId_new name))) (\<lambda>r.
     bind_result (ok_or (case drop 4 (split_on CHR ''/'' relative) of p # _ \<Rightarrow> Some p | [] \<Rightarrow> None) InvalidKey) (\<lambda>encoded.
     bind_result (bind_result (decode_segment encoded) (\<lambda>name. map_err (\<lambda>_. InvalidKey) (PartitionId_new name))) (\<lambda>p.
     Inr (current_state_key b i new_session r p, registration_initial_state options r))))))"

definition carried_state ::
    "EtcdCoordination \<Rightarrow> InstanceId \<Rightarrow> SessionId option \<Rightarrow> SessionId \<Rightarrow> RegistrationOptions \<Rightarrow> (string \<times> State) list action" where
  "carried_state b i previous_session new_session options = (case previous_session of
     None \<Rightarrow> Return (Inr [])
   | Some previous \<Rightarrow> bind_action (raw_snapshot_prefix (current_state_session_prefix b i previous)) (\<lambda>(_, kvs).
       Return (map_result (carried_record b i new_session options) kvs)))"

definition register_operations :: "EtcdCoordination \<Rightarrow> InstanceId \<Rightarrow> SessionId \<Rightarrow> int \<Rightarrow> (string \<times> State) list \<Rightarrow> TxnOp list" where
  "register_operations b i session lease records =
     [PutOp (live_key b i) (session_text session) (Some lease), PutOp (session_key b i session) ''active'' None]
     @ map (\<lambda>(key, state). PutOp key (State_as_str state) None) records @ [authoritative_input_marker_operation b]"

definition commit_registration :: "EtcdCoordination \<Rightarrow> InstanceId \<Rightarrow> SessionId \<Rightarrow> int \<Rightarrow> (string \<times> State) list \<Rightarrow> EtcdParticipantSession action" where
  "commit_registration b i session lease records =
     bind_action (commit [CompareVersion (live_key b i) 0] (register_operations b i session lease records)) (\<lambda>(h, succeeded).
     if \<not> succeeded then bind_action (revoke_lease lease) (\<lambda>_. Return (Inl RegistrationLost))
     else bind_action (Return (revision_from_header h)) (\<lambda>revision.
       Return (Inr \<lparr>registered_instance = i, registered_session = session, registered_lease = lease, registration_revision = revision\<rparr>)))"

definition register :: "EtcdCoordination \<Rightarrow> InstanceId \<Rightarrow> RegistrationOptions \<Rightarrow> EtcdParticipantSession action" where
  "register b i options =
     bind_action (latest_session b i) (\<lambda>previous.
     bind_action (etcd_allocate_session b) (\<lambda>session.
     bind_action (carried_state b i previous session options) (\<lambda>records.
     bind_action (grant_lease (ttl_seconds options)) (\<lambda>lease.
       commit_registration b i session lease records))))"

section \<open>Revocation and removal\<close>

definition revoke_live :: "EtcdCoordination \<Rightarrow> InstanceId \<Rightarrow> SessionId \<Rightarrow> Revision action" where
  "revoke_live b i session =
     bind_action (get_key (live_key b i)) (\<lambda>(_, kv). case kv of
       None \<Rightarrow> Return (Inl (StaleSession i))
     | Some kv \<Rightarrow>
         bind_action (Return (parse_session (kv_value kv))) (\<lambda>live.
         if live \<noteq> session then Return (Inl (StaleSession i))
         else bind_action (commit [CompareValue (live_key b i) (session_text session)]
             [DeleteOp (live_key b i), authoritative_input_marker_operation b]) (\<lambda>(h, succeeded).
           if \<not> succeeded then Return (Inl (StaleSession i))
           else bind_action (if kv_lease kv \<noteq> 0 then revoke_lease (kv_lease kv) else Return (Inr ())) (\<lambda>_.
             Return (revision_from_header h)))))"

fun chunks :: "nat \<Rightarrow> 'a list \<Rightarrow> 'a list list" where
  "chunks n [] = []"
| "chunks n (x # xs) = (x # take (n - 1) xs) # chunks n (drop (n - 1) xs)"

definition resource_state_key :: "EtcdCoordination \<Rightarrow> ResourceId \<Rightarrow> KeyValue \<Rightarrow> string option" where
  "resource_state_key b r kv =
     Option.bind (ok (parse_relative_key b (kv_key kv))) (\<lambda>relative.
       case split_on CHR ''/'' relative of
         [a, _, _, encoded, _] \<Rightarrow>
           if a = ''current-state''
           then Option.bind (ok (decode_segment encoded)) (\<lambda>name. if name = ResourceId_as_str r then Some (kv_key kv) else None)
           else None
       | _ \<Rightarrow> None)"

fun delete_batches :: "EtcdCoordination \<Rightarrow> string list list \<Rightarrow> Revision option \<Rightarrow> Revision option action" where
  "delete_batches b [] revision = Return (Inr revision)"
| "delete_batches b (chunk # rest) revision =
     (if chunk = [] then delete_batches b rest revision
      else bind_action (commit [] (map DeleteOp chunk @ [authoritative_input_marker_operation b])) (\<lambda>(h, _).
        bind_action (Return (revision_from_header h)) (\<lambda>r. delete_batches b rest (Some r))))"

definition remove_current_states_for_resource :: "EtcdCoordination \<Rightarrow> ResourceId \<Rightarrow> Revision action" where
  "remove_current_states_for_resource b r =
     bind_action (raw_snapshot_prefix (namespaced_key b ''current-state/'')) (\<lambda>(snapshot_revision, kvs).
     bind_action (delete_batches b (chunks CURRENT_STATE_DELETE_BATCH (List.map_filter (resource_state_key b r) kvs)) None) (\<lambda>revision.
       Return (Inr (case revision of None \<Rightarrow> snapshot_revision | Some revision \<Rightarrow> revision))))"

definition etcd_current_state :: "EtcdCoordination \<Rightarrow> InstanceId \<Rightarrow> SessionId \<Rightarrow> ResourceId \<Rightarrow> PartitionId \<Rightarrow> State option action" where
  "etcd_current_state b i session r p =
     bind_action (raw_snapshot (current_state_key b i session r p)) (\<lambda>(_, kv). case kv of
       None \<Rightarrow> Return (Inr None)
     | Some kv \<Rightarrow>
         if valid_utf8 (kv_value kv)
         then Return (bind_result (map_err (\<lambda>_. InvalidStoreValue) (State_new (kv_value kv))) (\<lambda>s. Inr (Some s)))
         else Return (Inl InvalidStoreValue))"

end
