(* ===== verification/Election.thy ===== *)
theory Election
  imports Etcd_Sessions
begin

text \<open>
  Controller election (\<^verbatim>\<open>src/election.rs\<close>): configuration, the campaign for the active
  controller record, its release, and the keepalive loop that detects a lost lease. The campaign
  runs over a list of signals, one for every pass of its loops: whether the loss flag is set,
  whether the shutdown future completes before the request does, and which branch a wait takes.
  A campaign whose signals are used up is still waiting.
\<close>

section \<open>Configuration\<close>

record ControllerElectionConfig =
  election_cluster :: string
  election_controller_id :: string
  lease_ttl_ms :: u64

datatype ElectionError =
    ElectionCoordination CoordinationError
  | ClusterMismatch
  | InvalidControllerId
  | InvalidElectionTtl
  | ElectionLeaseExpired

definition is_transient_election :: "ElectionError \<Rightarrow> bool" where
  "is_transient_election e = (case e of ElectionCoordination error \<Rightarrow> is_transient error | _ \<Rightarrow> False)"

definition ElectionError_fmt :: "ElectionError \<Rightarrow> string" where
  "ElectionError_fmt e = (case e of
     ElectionCoordination error \<Rightarrow> CoordinationError_fmt error
   | ClusterMismatch \<Rightarrow> ''election cluster does not match coordination''
   | InvalidControllerId \<Rightarrow> ''controller id must not be empty''
   | InvalidElectionTtl \<Rightarrow> ''controller lease TTL must be at least one second''
   | ElectionLeaseExpired \<Rightarrow> ''controller election lease expired'')"

definition lease_seconds :: "u64 \<Rightarrow> ElectionError + int" where
  "lease_seconds ttl_ms =
     (if ttl_ms > - 1 - 999 then Inl InvalidElectionTtl
      else let seconds = (ttl_ms + 999) div 1000
           in if seconds = 0 \<or> seconds > 2 ^ 63 - 1 then Inl InvalidElectionTtl else Inr (uint seconds))"

definition validate_config :: "EtcdCoordination \<Rightarrow> ControllerElectionConfig \<Rightarrow> ElectionError + unit" where
  "validate_config b config =
     (if election_cluster config \<noteq> namespace_cluster b then Inl ClusterMismatch
      else if blank (election_controller_id config) \<or> contains_nul (election_controller_id config) then Inl InvalidControllerId
      else bind_result (lease_seconds (lease_ttl_ms config)) (\<lambda>_. Inr ()))"

section \<open>Campaign\<close>

datatype wake = WakeShutdown | WakeLost | WakeElapsed

record campaign_signal =
  lost_flag :: bool
  shutdown_first :: bool
  request_in_flight :: bool
  wake :: wake

datatype campaign_phase = Granting | Registering int | Campaigning int

text \<open>\<open>None\<close>: still waiting.\<close>

type_synonym campaign = "(ElectionError + ControllerAuthority option) option client"

abbreviation stopped :: campaign where
  "stopped \<equiv> Return (Some (Inr None))"

text \<open>\<open>let _ = revoke(lease).await; return Ok(None)\<close> and \<open>revoke(lease).await?; return Ok(None)\<close>.\<close>

definition give_up :: "int \<Rightarrow> campaign" where
  "give_up lease = RevokeLease lease (\<lambda>_. stopped)"

definition give_up_checked :: "int \<Rightarrow> campaign" where
  "give_up_checked lease = RevokeLease lease (\<lambda>r. case r of
     Inl msg \<Rightarrow> Return (Some (Inl (ElectionCoordination (EtcdError msg)))) | Inr _ \<Rightarrow> stopped)"

definition wait_campaigning :: "campaign \<Rightarrow> campaign_signal \<Rightarrow> campaign \<Rightarrow> campaign" where
  "wait_campaigning shutdown signal continue = (case wake signal of
     WakeShutdown \<Rightarrow> shutdown
   | WakeLost \<Rightarrow> Return (Some (Inl ElectionLeaseExpired))
   | WakeElapsed \<Rightarrow> continue)"

definition registration_txn :: "EtcdCoordination \<Rightarrow> ControllerElectionConfig \<Rightarrow> int \<Rightarrow> (string + int option \<times> bool \<Rightarrow> 'a client) \<Rightarrow> 'a client" where
  "registration_txn b config lease =
     (let key = controller_candidate_key b (election_controller_id config)
      in Commit [CompareVersion key 0] [PutOp key (election_controller_id config) (Some lease)])"

definition candidate_prefix :: "EtcdCoordination \<Rightarrow> string" where
  "candidate_prefix b = namespaced_key b ''controller/election/candidates/''"

definition campaign_compares :: "EtcdCoordination \<Rightarrow> ControllerElectionConfig \<Rightarrow> int \<Rightarrow> KeyValue \<Rightarrow> Compare list" where
  "campaign_compares b config lease candidate =
     (let key = controller_candidate_key b (election_controller_id config)
      in [CompareVersion (controller_active_key b) 0, CompareCreateRevision key (kv_create_revision candidate), CompareLease key lease])"

definition predecessors :: "KeyValue \<Rightarrow> KeyValue list \<Rightarrow> KeyValue list" where
  "predecessors candidate kvs = filter (\<lambda>other. kv_create_revision other < kv_create_revision candidate) kvs"

fun acquire_from :: "EtcdCoordination \<Rightarrow> ControllerElectionConfig \<Rightarrow> campaign_phase \<Rightarrow> campaign_signal list \<Rightarrow> campaign" where
  "acquire_from b config p [] = Return None"
| "acquire_from b config Granting (signal # signals) =
     (case lease_seconds (lease_ttl_ms config) of Inl err \<Rightarrow> Return (Some (Inl err))
      | Inr seconds \<Rightarrow>
          if shutdown_first signal then
            (if request_in_flight signal then GrantLease seconds (\<lambda>_. stopped) else stopped)
          else GrantLease seconds (\<lambda>r. case r of
            Inl _ \<Rightarrow> if wake signal = WakeShutdown then stopped else acquire_from b config Granting signals
          | Inr lease \<Rightarrow> acquire_from b config (Registering lease) signals))"
| "acquire_from b config (Registering lease) (signal # signals) =
     (if shutdown_first signal then
        (if request_in_flight signal then registration_txn b config lease (\<lambda>_. give_up lease) else give_up lease)
      else registration_txn b config lease (\<lambda>r. case r of
        Inl _ \<Rightarrow> if wake signal = WakeShutdown then give_up lease else acquire_from b config (Registering lease) signals
      | Inr (h, succeeded) \<Rightarrow>
          if succeeded then acquire_from b config (Campaigning lease) signals
          else RevokeLease lease (\<lambda>_.
            if wake signal = WakeShutdown then stopped else acquire_from b config Granting signals)))"
| "acquire_from b config (Campaigning lease) (signal # signals) =
     (if lost_flag signal then Return (Some (Inl ElectionLeaseExpired))
      else GetPrefix (candidate_prefix b) (\<lambda>r. case r of
        Inl _ \<Rightarrow> wait_campaigning (give_up lease) signal (acquire_from b config (Campaigning lease) signals)
      | Inr (h, kvs) \<Rightarrow>
         (case find (\<lambda>kv. kv_key kv = controller_candidate_key b (election_controller_id config)) kvs of
            None \<Rightarrow> Return (Some (Inl ElectionLeaseExpired))
          | Some candidate \<Rightarrow>
              if predecessors candidate kvs \<noteq> []
              then wait_campaigning (give_up_checked lease) signal (acquire_from b config (Campaigning lease) signals)
              else Commit (campaign_compares b config lease candidate)
                [PutOp (controller_active_key b) (election_controller_id config) (Some lease)] (\<lambda>r. case r of
                  Inl _ \<Rightarrow> wait_campaigning (give_up lease) signal (acquire_from b config (Campaigning lease) signals)
                | Inr (h, succeeded) \<Rightarrow>
                    if succeeded
                    then Return (Some (Inr (Some \<lparr>authority_namespace = namespace_prefix b,
                      authority_controller = election_controller_id config, authority_lease = lease\<rparr>)))
                    else wait_campaigning (give_up_checked lease) signal (acquire_from b config (Campaigning lease) signals)))))"

definition acquire_until :: "EtcdCoordination \<Rightarrow> ControllerElectionConfig \<Rightarrow> campaign_signal list \<Rightarrow> campaign" where
  "acquire_until b config signals = acquire_from b config Granting signals"

section \<open>Release\<close>

definition RELINQUISH_CONFIRM_ATTEMPTS :: nat where
  "RELINQUISH_CONFIRM_ATTEMPTS = 200"

definition delete_owned_election_key :: "ControllerAuthority \<Rightarrow> string \<Rightarrow> unit action" where
  "delete_owned_election_key authority key =
     bind_action (commit [CompareLease key (authority_lease authority)] [DeleteOp key]) (\<lambda>_. Return (Inr ()))"

fun confirm_released :: "nat \<Rightarrow> EtcdCoordination \<Rightarrow> ControllerAuthority \<Rightarrow> unit action" where
  "confirm_released 0 b authority = Return (Inl Contention)"
| "confirm_released (Suc n) b authority =
     bind_action (get_key (controller_candidate_key b (authority_controller authority))) (\<lambda>(_, candidate).
     bind_action (get_key (controller_active_key b)) (\<lambda>(_, active).
     if list_ex (\<lambda>kv. case kv of None \<Rightarrow> False | Some kv \<Rightarrow> kv_lease kv = authority_lease authority) [candidate, active]
     then confirm_released n b authority else Return (Inr ())))"

definition relinquish :: "EtcdCoordination \<Rightarrow> ControllerAuthority \<Rightarrow> unit action" where
  "relinquish b authority =
     bind_client (delete_owned_election_key authority (controller_candidate_key b (authority_controller authority))) (\<lambda>_.
     bind_client (delete_owned_election_key authority (controller_active_key b)) (\<lambda>_.
     bind_action (revoke_lease (authority_lease authority)) (\<lambda>_.
       confirm_released RELINQUISH_CONFIRM_ATTEMPTS b authority)))"

section \<open>Keepalive\<close>

text \<open>Times are in nanoseconds. An attempt is answered by a remaining lease time, by the end of
  the stream, by an error or by its timeout.\<close>

datatype keepalive_answer = KeepaliveTtl int | KeepaliveNone | KeepaliveError | KeepaliveTimeout

definition keepalive_interval :: "nat \<Rightarrow> nat" where
  "keepalive_interval ttl = max (min (ttl div 3) 1000000000) 100000000"

text \<open>One pass: the time at which it starts after the last sleep, its answer and the time of the
  answer. It returns the time of the last successful keepalive and the next sleep, or \<open>None\<close> when
  the lease is declared lost.\<close>

definition keepalive_pass :: "nat \<Rightarrow> nat \<Rightarrow> nat \<times> keepalive_answer \<times> nat \<Rightarrow> (nat \<times> nat) option" where
  "keepalive_pass ttl last_keepalive x = (case x of (start, answer, answered) \<Rightarrow>
     if ttl \<le> start - last_keepalive then None
     else case answer of
       KeepaliveTtl remaining \<Rightarrow> if remaining > 0 then Some (answered, keepalive_interval ttl) else None
     | _ \<Rightarrow> if answered - last_keepalive < ttl then Some (last_keepalive, 100000000) else None)"

end
