(* ===== verification/Etcd_Trace.thy ===== *)
theory Etcd_Trace
  imports Etcd_Queue
begin

text \<open>
  What a program saw and did on the way. A run of \<open>Etcd_Client\<close> keeps the applied transactions; a
  trace keeps them in one sequence with the stores in which requests were answered, so that a
  result can be tied to a moment of the run: the store a read saw, and what was written before and
  after it. Properties of results on traces are proved by weakest preconditions over programs.
\<close>

section \<open>Traces\<close>

text \<open>\<open>Saw t\<close>: a read was answered in the store \<open>t\<close>, or a transaction whose comparisons failed there.
  \<open>Did t ops u\<close>: a transaction was applied, whatever the response. Requests without an answer and
  without an effect leave no event, nor do leases.\<close>

datatype 's event = Saw 's | Did 's "TxnOp list" 's

definition saw :: "'s \<Rightarrow> string + 'a \<Rightarrow> 's event list" where
  "saw t r = (case r of Inl _ \<Rightarrow> [] | Inr _ \<Rightarrow> [Saw t])"

definition tried :: "'s \<Rightarrow> string + 'a \<Rightarrow> ('s \<times> TxnOp list \<times> 's) list \<Rightarrow> 's event list" where
  "tried t r log = (if log = [] then saw t r else map (\<lambda>(s, ops, u). Did s ops u) log)"

inductive traced :: "'s etcd \<Rightarrow> 's \<Rightarrow> 'a client \<Rightarrow> 's event list \<Rightarrow> 's \<Rightarrow> 'a \<Rightarrow> bool"
  for e :: "'s etcd" where
  trace_return: "traced e s (Return x) [] s x"
| trace_other: "etcd_other e s t \<Longrightarrow> traced e t p tr s' x \<Longrightarrow> traced e s p tr s' x"
| trace_get: "got e s k r \<Longrightarrow> traced e s (f r) tr s' x \<Longrightarrow> traced e s (GetKey k f) (saw s r @ tr) s' x"
| trace_range: "ranged e s k r \<Longrightarrow> traced e s (f r) tr s' x \<Longrightarrow> traced e s (GetPrefix k f) (saw s r @ tr) s' x"
| trace_commit: "committed e s cs ops r log t \<Longrightarrow> traced e t (f r) tr s' x \<Longrightarrow> traced e s (Commit cs ops f) (tried s r log @ tr) s' x"
| trace_grant: "granted e s ttl r t \<Longrightarrow> traced e t (f r) tr s' x \<Longrightarrow> traced e s (GrantLease ttl f) tr s' x"
| trace_revoke: "revoked e s l r t \<Longrightarrow> traced e t (f r) tr s' x \<Longrightarrow> traced e s (RevokeLease l f) tr s' x"

text \<open>The applied transactions of a trace, as the log of a run has them.\<close>

fun applied :: "'s event list \<Rightarrow> ('s \<times> TxnOp list \<times> 's) list" where
  "applied [] = []"
| "applied (Saw t # tr) = applied tr"
| "applied (Did t ops u # tr) = (t, ops, u) # applied tr"

lemma applied_append [simp]: "applied (tr @ tr') = applied tr @ applied tr'"
  by (induction tr rule: applied.induct) auto

lemma applied_saw [simp]: "applied (saw t r) = []"
  by (simp add: saw_def split: sum.splits)

lemma applied_did: "applied (map (\<lambda>(s, ops, u). Did s ops u) log) = log"
  by (induction log) auto

lemma applied_tried [simp]: "applied (tried t r log) = log"
  by (simp add: tried_def applied_did)

lemma applied_iff: "(t, ops, u) \<in> set (applied tr) \<longleftrightarrow> Did t ops u \<in> set tr"
  by (induction tr rule: applied.induct) auto

text \<open>Traces and runs are the same behaviours.\<close>

lemma traced_runs: "traced e s p tr s' x \<Longrightarrow> runs e s p (applied tr) s' x"
  by (induction rule: traced.induct) (auto intro: runs.intros)

lemma runs_traced: "runs e s p log s' x \<Longrightarrow> \<exists>tr. traced e s p tr s' x \<and> applied tr = log"
proof (induction rule: runs.induct)
  case (run_return s x)
  then show ?case by (intro exI[of _ "[]"]) (simp add: trace_return)
next
  case (run_other s t p log s' x)
  then show ?case by (auto intro: trace_other)
next
  case (run_get s k r f log s' x)
  then obtain tr where "traced e s (f r) tr s' x" "applied tr = log" by blast
  then show ?case using trace_get[OF run_get.hyps(1), of f] by (intro exI[of _ "saw s r @ tr"]) simp
next
  case (run_range s k r f log s' x)
  then obtain tr where "traced e s (f r) tr s' x" "applied tr = log" by blast
  then show ?case using trace_range[OF run_range.hyps(1), of f] by (intro exI[of _ "saw s r @ tr"]) simp
next
  case (run_commit s cs ops r l t f log s' x)
  then obtain tr where "traced e t (f r) tr s' x" "applied tr = log" by blast
  then show ?case using trace_commit[OF run_commit.hyps(1), of f] by (intro exI[of _ "tried s r l @ tr"]) simp
next
  case (run_grant s ttl r t f log s' x)
  then show ?case by (auto intro: trace_grant)
next
  case (run_revoke s l r t f log s' x)
  then show ?case by (auto intro: trace_revoke)
qed

text \<open>Inversion of a trace, and sequencing.\<close>

lemma traced_others: "others e s t \<Longrightarrow> traced e t p tr s' x \<Longrightarrow> traced e s p tr s' x"
  by (induction rule: converse_rtranclp_induct) (auto intro: trace_other)

lemma traced_Return: "traced e s (Return x) tr s' y \<Longrightarrow> others e s s' \<and> tr = [] \<and> y = x"
  by (induction s "Return x :: 'b client" tr s' y rule: traced.induct) (auto intro: converse_rtranclp_into_rtranclp)

lemma traced_GetKey: "traced e s (GetKey k f) tr s' y \<Longrightarrow> \<exists>t r tr'. others e s t \<and> got e t k r \<and> traced e t (f r) tr' s' y \<and> tr = saw t r @ tr'"
  by (induction s "GetKey k f" tr s' y rule: traced.induct) (blast intro: converse_rtranclp_into_rtranclp)+

lemma traced_GetPrefix: "traced e s (GetPrefix k f) tr s' y \<Longrightarrow> \<exists>t r tr'. others e s t \<and> ranged e t k r \<and> traced e t (f r) tr' s' y \<and> tr = saw t r @ tr'"
  by (induction s "GetPrefix k f" tr s' y rule: traced.induct) (blast intro: converse_rtranclp_into_rtranclp)+

lemma traced_Commit: "traced e s (Commit cs ops f) tr s' y \<Longrightarrow>
    \<exists>t r log u tr'. others e s t \<and> committed e t cs ops r log u \<and> traced e u (f r) tr' s' y \<and> tr = tried t r log @ tr'"
  by (induction s "Commit cs ops f" tr s' y rule: traced.induct) (blast intro: converse_rtranclp_into_rtranclp)+

lemma traced_GrantLease: "traced e s (GrantLease ttl f) tr s' y \<Longrightarrow> \<exists>t r u. others e s t \<and> granted e t ttl r u \<and> traced e u (f r) tr s' y"
  by (induction s "GrantLease ttl f" tr s' y rule: traced.induct) (blast intro: converse_rtranclp_into_rtranclp)+

lemma traced_RevokeLease: "traced e s (RevokeLease l f) tr s' y \<Longrightarrow> \<exists>t r u. others e s t \<and> revoked e t l r u \<and> traced e u (f r) tr s' y"
  by (induction s "RevokeLease l f" tr s' y rule: traced.induct) (blast intro: converse_rtranclp_into_rtranclp)+

lemma traced_bind_client:
  "traced e s (bind_client p g) tr s' y \<Longrightarrow> \<exists>tr1 t x tr2. traced e s p tr1 t x \<and> traced e t (g x) tr2 s' y \<and> tr = tr1 @ tr2"
proof (induction p arbitrary: s tr)
  case (Return x)
  then show ?case using trace_return by fastforce
next
  case (GetKey k f)
  then obtain t r tr' where t: "others e s t" "got e t k r" "traced e t (bind_client (f r) g) tr' s' y" "tr = saw t r @ tr'"
    using traced_GetKey by (metis bind_client.simps(2))
  from GetKey.IH[OF rangeI t(3)] obtain tr1 u x tr2 where "traced e t (f r) tr1 u x" "traced e u (g x) tr2 s' y" "tr' = tr1 @ tr2" by blast
  then show ?case using traced_others[OF t(1) trace_get[OF t(2), of f]] t(4) by (metis append_assoc)
next
  case (GetPrefix k f)
  then obtain t r tr' where t: "others e s t" "ranged e t k r" "traced e t (bind_client (f r) g) tr' s' y" "tr = saw t r @ tr'"
    using traced_GetPrefix by (metis bind_client.simps(3))
  from GetPrefix.IH[OF rangeI t(3)] obtain tr1 u x tr2 where "traced e t (f r) tr1 u x" "traced e u (g x) tr2 s' y" "tr' = tr1 @ tr2" by blast
  then show ?case using traced_others[OF t(1) trace_range[OF t(2), of f]] t(4) by (metis append_assoc)
next
  case (Commit cs ops f)
  then obtain t r log u tr' where t: "others e s t" "committed e t cs ops r log u" "traced e u (bind_client (f r) g) tr' s' y" "tr = tried t r log @ tr'"
    using traced_Commit by (metis bind_client.simps(4))
  from Commit.IH[OF rangeI t(3)] obtain tr1 v x tr2 where "traced e u (f r) tr1 v x" "traced e v (g x) tr2 s' y" "tr' = tr1 @ tr2" by blast
  then show ?case using traced_others[OF t(1) trace_commit[OF t(2), of f]] t(4) by (metis append_assoc)
next
  case (GrantLease ttl f)
  then obtain t r u where t: "others e s t" "granted e t ttl r u" "traced e u (bind_client (f r) g) tr s' y"
    using traced_GrantLease by (metis bind_client.simps(5))
  from GrantLease.IH[OF rangeI t(3)] show ?case using traced_others[OF t(1) trace_grant[OF t(2), of f]] by blast
next
  case (RevokeLease l f)
  then obtain t r u where t: "others e s t" "revoked e t l r u" "traced e u (bind_client (f r) g) tr s' y"
    using traced_RevokeLease by (metis bind_client.simps(6))
  from RevokeLease.IH[OF rangeI t(3)] show ?case using traced_others[OF t(1) trace_revoke[OF t(2), of f]] by blast
qed

text \<open>Every applied transaction satisfies \<open>P\<close> of the events before it and its two stores.\<close>

fun each_write :: "('s event list \<Rightarrow> 's \<Rightarrow> 's \<Rightarrow> bool) \<Rightarrow> 's event list \<Rightarrow> 's event list \<Rightarrow> bool" where
  "each_write P before [] = True"
| "each_write P before (Saw t # tr) = each_write P (before @ [Saw t]) tr"
| "each_write P before (Did t ops u # tr) = (P before t u \<and> each_write P (before @ [Did t ops u]) tr)"

lemma each_write_append: "each_write P before (tr @ tr') \<longleftrightarrow> each_write P before tr \<and> each_write P (before @ tr) tr'"
  by (induction P before tr rule: each_write.induct) auto

lemma each_write_after: "each_write P before tr \<Longrightarrow> (\<And>before t u. P before t u \<Longrightarrow> P' (first @ before) t u) \<Longrightarrow> each_write P' (first @ before) tr"
  by (induction P before tr rule: each_write.induct) (auto simp flip: append_assoc)

lemma each_write_all: "\<forall>(t, ops, u) \<in> set (applied tr). \<forall>before. P before t u \<Longrightarrow> each_write P before tr"
  by (induction P before tr rule: each_write.induct) auto

lemma mem_traced:
  obtains tr where "traced mem_etcd s p tr (fst (snd (mem_run p s))) (snd (snd (mem_run p s)))" "applied tr = fst (mem_run p s)"
proof -
  have "runs mem_etcd s p (fst (mem_run p s)) (fst (snd (mem_run p s))) (snd (snd (mem_run p s)))" by (rule mem_run_mem) simp
  from runs_traced[OF this] that show ?thesis by blast
qed

section \<open>Weakest preconditions\<close>

text \<open>Continued from the events \<open>tr\<close>, the program satisfies \<open>Q\<close> of all its events and its result,
  whatever the stores in which its requests are served.\<close>

primrec ensures :: "'s etcd \<Rightarrow> ('s event list \<Rightarrow> 'a \<Rightarrow> bool) \<Rightarrow> 'a client \<Rightarrow> 's event list \<Rightarrow> bool" where
  "ensures e Q (Return x) = (\<lambda>tr. Q tr x)"
| "ensures e Q (GetKey k f) = (\<lambda>tr. \<forall>t r. got e t k r \<longrightarrow> ensures e Q (f r) (tr @ saw t r))"
| "ensures e Q (GetPrefix k f) = (\<lambda>tr. \<forall>t r. ranged e t k r \<longrightarrow> ensures e Q (f r) (tr @ saw t r))"
| "ensures e Q (Commit cs ops f) = (\<lambda>tr. \<forall>t r log u. committed e t cs ops r log u \<longrightarrow> ensures e Q (f r) (tr @ tried t r log))"
| "ensures e Q (GrantLease ttl f) = (\<lambda>tr. \<forall>r. ensures e Q (f r) tr)"
| "ensures e Q (RevokeLease l f) = (\<lambda>tr. \<forall>r. ensures e Q (f r) tr)"

lemma ensures_continued: "traced e s p tr s' x \<Longrightarrow> ensures e Q p before \<Longrightarrow> Q (before @ tr) x"
  by (induction arbitrary: before rule: traced.induct) (fastforce simp flip: append_assoc)+

lemma ensures_sound: "traced e s p tr s' x \<Longrightarrow> ensures e Q p [] \<Longrightarrow> Q tr x"
  using ensures_continued[of e s p tr s' x Q "[]"] by simp

lemma ensures_mono: "ensures e Q p tr \<Longrightarrow> (\<And>tr x. Q tr x \<Longrightarrow> Q' tr x) \<Longrightarrow> ensures e Q' p tr"
  by (induction p arbitrary: tr) auto

lemma ensures_bind_client: "ensures e Q (bind_client p g) tr \<longleftrightarrow> ensures e (\<lambda>tr x. ensures e Q (g x) tr) p tr"
  by (induction p arbitrary: tr) auto

lemma ensures_bind_action:
  "ensures e Q (bind_action p f) tr \<longleftrightarrow> ensures e (\<lambda>tr y. case y of Inl err \<Rightarrow> Q tr (Inl err) | Inr x \<Rightarrow> ensures e Q (f x) tr) p tr"
proof -
  have "(\<lambda>tr x. ensures e Q (case x of Inl err \<Rightarrow> Return (Inl err) | Inr x \<Rightarrow> f x) tr) =
      (\<lambda>tr y. case y of Inl err \<Rightarrow> Q tr (Inl err) | Inr x \<Rightarrow> ensures e Q (f x) tr)"
    by (auto simp: fun_eq_iff split: sum.splits)
  then show ?thesis by (simp add: bind_action_def ensures_bind_client)
qed

lemma ensures_conj: "ensures e Q p tr \<Longrightarrow> ensures e Q' p tr \<Longrightarrow> ensures e (\<lambda>tr x. Q tr x \<and> Q' tr x) p tr"
  by (induction p arbitrary: tr) auto

text \<open>The events before a program stay, and the program adds its own.\<close>

lemma ensures_frame: "ensures e Q p tr \<Longrightarrow> ensures e (\<lambda>tr' x. \<exists>rest. tr' = before @ rest \<and> Q rest x) p (before @ tr)"
  by (induction p arbitrary: tr) auto

lemma ensures_frame_Nil: "ensures e Q p [] \<Longrightarrow> ensures e (\<lambda>tr' x. \<exists>rest. tr' = before @ rest \<and> Q rest x) p before"
  using ensures_frame[of e Q p "[]" before] by simp

lemma ensures_True: "ensures e (\<lambda>_ _. True) p tr"
  by (induction p arbitrary: tr) auto

lemma ensures_commits:
  assumes "all_commits P p" and "list_all (\<lambda>(t, ops, u). \<exists>cs. P cs ops) (applied tr)"
  shows "ensures e (\<lambda>tr _. list_all (\<lambda>(t, ops, u). \<exists>cs. P cs ops) (applied tr)) p tr"
  using assms
proof (induction p arbitrary: tr)
  case (Commit cs ops f)
  have "list_all (\<lambda>(t, ops, u). \<exists>cs. P cs ops) (applied (tr @ tried t r log))" if "committed e t cs ops r log u" for t r log u
    using that Commit.prems by (auto simp: committed_def split: if_splits)
  then show ?case unfolding ensures.simps using Commit.prems(1) by (intro allI impI Commit.IH[OF rangeI]) simp_all
qed auto

text \<open>The primitive requests.\<close>

lemma ensures_get_key:
  "ensures e Q (get_key k) tr \<longleftrightarrow> (\<forall>msg. Q tr (Inl (EtcdError msg))) \<and> (\<forall>t h. header e t h \<longrightarrow> Q (tr @ [Saw t]) (Inr (h, etcd_get e t k)))"
  by (auto simp: get_key_def got_def saw_def split: sum.splits)

lemma ensures_get_prefix:
  "ensures e Q (get_prefix k) tr \<longleftrightarrow> (\<forall>msg. Q tr (Inl (EtcdError msg))) \<and> (\<forall>t h. header e t h \<longrightarrow> Q (tr @ [Saw t]) (Inr (h, etcd_range e t k)))"
  by (auto simp: get_prefix_def ranged_def saw_def split: sum.splits)

lemma committed_intros:
  "committed e t cs ops (Inl msg) [] t"
  "etcd_txn e t cs ops = (True, u) \<Longrightarrow> committed e t cs ops (Inl msg) [(t, ops, u)] u"
  "etcd_txn e t cs ops = (False, u) \<Longrightarrow> header e u h \<Longrightarrow> committed e t cs ops (Inr (h, False)) [] u"
  "etcd_txn e t cs ops = (True, u) \<Longrightarrow> header e u h \<Longrightarrow> committed e t cs ops (Inr (h, True)) [(t, ops, u)] u"
  unfolding committed_def by (simp_all, blast+)

lemma ensures_commit:
  "ensures e Q (commit cs ops) tr \<longleftrightarrow> (\<forall>msg. Q tr (Inl (EtcdError msg))) \<and>
     (\<forall>msg t u. etcd_txn e t cs ops = (True, u) \<longrightarrow> Q (tr @ [Did t ops u]) (Inl (EtcdError msg))) \<and>
     (\<forall>h t u. etcd_txn e t cs ops = (False, u) \<longrightarrow> header e u h \<longrightarrow> Q (tr @ [Saw t]) (Inr (h, False))) \<and>
     (\<forall>h t u. etcd_txn e t cs ops = (True, u) \<longrightarrow> header e u h \<longrightarrow> Q (tr @ [Did t ops u]) (Inr (h, True)))"
  (is "?lhs \<longleftrightarrow> ?rhs")
proof
  assume ensured: ?lhs
  have step: "Q (tr @ tried t r log) (map_err EtcdError r)" if "committed e t cs ops r log u" for t r log u
    using ensured that by (auto simp: commit_def)
  have "Q tr (Inl (EtcdError msg))" for msg
    using step[OF committed_intros(1)] by (simp add: tried_def saw_def)
  moreover have "Q (tr @ [Did t ops u]) (Inl (EtcdError msg))" if "etcd_txn e t cs ops = (True, u)" for msg t u
    using step[OF committed_intros(2)[OF that]] by (simp add: tried_def)
  moreover have "Q (tr @ [Saw t]) (Inr (h, False))" if "etcd_txn e t cs ops = (False, u)" "header e u h" for h t u
    using step[OF committed_intros(3)[OF that]] by (simp add: tried_def saw_def)
  moreover have "Q (tr @ [Did t ops u]) (Inr (h, True))" if "etcd_txn e t cs ops = (True, u)" "header e u h" for h t u
    using step[OF committed_intros(4)[OF that]] by (simp add: tried_def)
  ultimately show ?rhs by blast
next
  assume ?rhs
  then show ?lhs by (auto simp: commit_def committed_def tried_def saw_def split: sum.splits if_splits)
qed

lemmas ensures_requests = ensures_get_key ensures_get_prefix ensures_commit ensures_bind_action

section \<open>Operations of the backend\<close>

text \<open>Rules for postconditions that hold of every error.\<close>

lemma ensures_metadata_get:
  assumes "\<And>tr err. Q tr (Inl err)" and "\<And>t. etcd_get e t (metadata_key b key) = None \<Longrightarrow> Q (tr @ [Saw t]) (Inr None)"
    and "\<And>t kv. etcd_get e t (metadata_key b key) = Some kv \<Longrightarrow>
      Q (tr @ [Saw t]) (Inr (Some \<lparr>entry_value = Some (kv_value kv), entry_revision = Revision (kv_mod_revision kv)\<rparr>))"
  shows "ensures e Q (metadata_get b key) tr"
  using assms
  by (auto simp: metadata_get_def raw_snapshot_def ensures_requests metadata_entry_of_def bind_result_def Revision_new_def split: sum.splits option.splits if_splits)

lemma ensures_cas:
  assumes "\<And>tr err. Q tr (Inl err)"
    and "\<And>t r. \<not> cas_applied r \<Longrightarrow> Q (tr @ [Saw t]) (Inr r)"
    and "\<And>t u r. etcd_txn e t cs ops = (True, u) \<Longrightarrow> cas_applied r \<Longrightarrow> Q (tr @ [Did t ops u]) (Inr r)"
  shows "ensures e Q (bind_action (commit cs ops) (\<lambda>r. Return (cas_result r))) tr"
  using assms by (auto simp: ensures_requests cas_result_def bind_result_def split: sum.splits)

end
