(* ===== verification/Etcd_Queue_Laws.thy ===== *)
theory Etcd_Queue_Laws
  imports Etcd_Trace
begin

text \<open>
  The transition queue under concurrency: a claim has a linearization point at which the message
  is queued and the session live, a completion takes effect only for the live session, and a
  session that was lost never publishes a state.
\<close>

section \<open>Runs of metadata operations\<close>

lemma run_pure_then:
  assumes "runs e s (bind_action (Return r) f) log s' y"
  obtains (error) err where "r = Inl err" "y = Inl err" "log = []" | (result) x where "r = Inr x" "runs e s (f x) log s' y"
  using assms by (cases r) (auto simp: runs_Return)

lemma bind_client_assoc: "bind_client (bind_client p f) g = bind_client p (\<lambda>x. bind_client (f x) g)"
  by (induction p) auto

lemma bind_action_assoc: "bind_action (bind_action p f) g = bind_action p (\<lambda>x. bind_action (f x) g)"
  unfolding bind_action_def bind_client_assoc by (rule arg_cong[where f = "bind_client p"]) (auto split: sum.splits)

lemma run_metadata_get_then:
  assumes "runs e s (bind_action (metadata_get b key) f) log s' y" and "etcd_contract e"
  obtains (error) err where "y = Inl err" "log = []"
  | (absent) t u where "newer e s t" "newer e t u" "etcd_get e t (metadata_key b key) = None" "runs e u (f None) log s' y"
  | (present) t u kv where "newer e s t" "newer e t u" "etcd_get e t (metadata_key b key) = Some kv"
      "runs e u (f (Some \<lparr>entry_value = Some (kv_value kv), entry_revision = Revision (kv_mod_revision kv)\<rparr>)) log s' y"
proof -
  from assms(1)[unfolded metadata_get_def raw_snapshot_def bind_action_assoc] assms(2) show ?thesis
  proof (cases rule: run_get_then)
    case (response t u h)
    show ?thesis
    proof (cases "etcd_get e t (metadata_key b key)")
      case None
      with response absent[of t u] error show ?thesis by (cases "revision_from_header h") (auto simp: runs_Return)
    next
      case (Some kv)
      with response present[of t u kv] error show ?thesis
        by (cases "revision_from_header h"; cases "metadata_entry_of kv") (auto simp: runs_Return metadata_entry_of_def bind_result_Inr Revision_new_Inr split: if_splits)
    qed
  qed (use error in auto)
qed

text \<open>A guarded write, then the rest. The last case is a write whose response has no header.\<close>

lemma run_cas_then:
  assumes "runs e s (bind_action (bind_action (commit cs ops) (\<lambda>r. Return (cas_result r))) f) log s' y"
    and "etcd_contract e" and "distinct (map op_key ops)"
  obtains (error) err where "y = Inl err" "log = []"
  | (lost) msg t u where "y = Inl (EtcdError msg)" "newer e s t" "etcd_txn e t cs ops = (True, u)" "log = [(t, ops, u)]"
  | (failed) u r where "newer e s u" "\<not> cas_applied r" "runs e u (f r) log s' y"
  | (applied) t u w r log' where "newer e s t" "etcd_txn e t cs ops = (True, u)" "newer e u w" "cas_applied r"
      "revision_value (cas_revision r) = etcd_revision e u" "runs e w (f r) log' s' y" "log = (t, ops, u) # log'"
  | (unknown) t u where "newer e s t" "etcd_txn e t cs ops = (True, u)" "log = [(t, ops, u)]" "y = Inl MissingRevision"
proof -
  from assms(1)[unfolded bind_action_assoc] assms(2,3) show ?thesis
  proof (cases rule: run_commit_then)
    case (failed t u h)
    show ?thesis
    proof (cases "cas_result (h, False)")
      case (Inl a)
      then show ?thesis using failed(5) error by (simp add: runs_Return)
    next
      case (Inr r)
      then have "\<not> cas_applied r" by (auto simp: cas_result_def bind_result_Inr)
      then show ?thesis using failed(5) Inr that(3) newer_trans[OF failed(1,3)] by simp
    qed
  next
    case (applied t u w h log')
    show ?thesis
    proof (cases "cas_result (h, True)")
      case (Inl a)
      then have "a = MissingRevision"
        using applied(4) contract_revision[OF assms(2), of u] by (auto simp: cas_result_def bind_result_Inl revision_from_header_def header_def Revision_new_def split: if_splits option.splits)
      then show ?thesis using applied Inl that(5) by (simp add: runs_Return)
    next
      case (Inr r)
      then have "cas_applied r" "revision_value (cas_revision r) = etcd_revision e u"
        using applied(4) by (auto simp: cas_result_def bind_result_Inr revision_from_header_Inr header_def)
      then show ?thesis using applied(1,2,3,5,6) Inr that(4) by simp
    qed
  qed (use error lost in auto)
qed

section \<open>Completion\<close>

text \<open>The queue of a store.\<close>

definition queue_at :: "'s etcd \<Rightarrow> message_codec \<Rightarrow> EtcdCoordination \<Rightarrow> 's \<Rightarrow> CoordinationError + TransitionMessage list" where
  "queue_at e codec b s = parse_pending_messages codec (map_option kv_value (etcd_get e s (metadata_key b PENDING_TRANSITIONS_KEY)))"

definition is_live :: "'s etcd \<Rightarrow> EtcdCoordination \<Rightarrow> InstanceId \<Rightarrow> SessionId \<Rightarrow> 's \<Rightarrow> bool" where
  "is_live e b i session s \<longleftrightarrow> map_option kv_value (etcd_get e s (live_key b i)) = Some (session_text session)"

text \<open>The message leaves the queue and its state is published, for the live session.\<close>

definition completion :: "'s etcd \<Rightarrow> message_codec \<Rightarrow> EtcdCoordination \<Rightarrow> ParticipantCompletionFence \<Rightarrow> TransitionMessage \<Rightarrow> State option \<Rightarrow>
    's \<Rightarrow> 's \<Rightarrow> bool" where
  "completion e codec b fence message resulting_state t u \<longleftrightarrow>
     is_live e b (completion_instance fence) (completion_session fence) t \<and>
     (\<exists>ms1 ms2. queue_at e codec b t = Inr (ms1 @ message # ms2) \<and> queue_at e codec b u = Inr (ms1 @ ms2) \<and>
        (\<forall>m \<in> set ms1. message_id m \<noteq> completion_message_id fence)) \<and>
     (let key = current_state_key b (completion_instance fence) (completion_session fence)
            (ResourceId (message_resource message)) (PartitionId (message_partition message))
      in map_option kv_value (etcd_get e u key) = map_option State_as_str resulting_state \<and>
         (\<forall>k. k \<notin> {key, metadata_key b PENDING_TRANSITIONS_KEY, metadata_key b AUTHORITATIVE_INPUT_MARKER} \<longrightarrow> etcd_get e u k = etcd_get e t k))"

text \<open>The message leaves the queue and nothing else changes.\<close>

definition message_removed :: "'s etcd \<Rightarrow> message_codec \<Rightarrow> EtcdCoordination \<Rightarrow> string \<Rightarrow> 's \<Rightarrow> 's \<Rightarrow> bool" where
  "message_removed e codec b mid t u \<longleftrightarrow>
     (\<exists>ms. queue_at e codec b t = Inr ms \<and> queue_at e codec b u = Inr (filter (\<lambda>m. message_id m \<noteq> mid) ms)) \<and>
     (\<forall>k. k \<noteq> metadata_key b PENDING_TRANSITIONS_KEY \<longrightarrow> etcd_get e u k = etcd_get e t k)"

definition completes :: "'s etcd \<Rightarrow> message_codec \<Rightarrow> EtcdCoordination \<Rightarrow> ParticipantCompletionFence \<Rightarrow> TransitionMessage \<Rightarrow> State option \<Rightarrow>
    ('s \<times> TxnOp list \<times> 's) list \<Rightarrow> CoordinationError + CompletionResult \<Rightarrow> bool" where
  "completes e codec b fence message resulting_state log y \<longleftrightarrow> length log \<le> 1 \<and>
     (\<forall>(t, ops, u) \<in> set log. completion e codec b fence message resulting_state t u \<or> message_removed e codec b (completion_message_id fence) t u) \<and>
     (case y of
        Inr (CompletionApplied r) \<Rightarrow> \<exists>t ops u. log = [(t, ops, u)] \<and> completion e codec b fence message resulting_state t u \<and> revision_value r = etcd_revision e u
      | Inr CompletionSessionLost \<Rightarrow> \<forall>(t, ops, u) \<in> set log. message_removed e codec b (completion_message_id fence) t u
      | Inr AlreadyCompleted \<Rightarrow> log = []
      | Inl err \<Rightarrow> log = [] \<or> is_transient err \<or> err = MissingRevision)"

lemma completes_silent [simp]:
  "completes e codec b fence message st [] (Inl err)" "completes e codec b fence message st [] (Inr AlreadyCompleted)"
  "completes e codec b fence message st [] (Inr CompletionSessionLost)"
  by (simp_all add: completes_def)

lemma pending_not_authoritative [simp]: "\<not> is_authoritative_metadata_key PENDING_TRANSITIONS_KEY"
  by (simp add: is_authoritative_metadata_key_def PENDING_TRANSITIONS_KEY_def starts_with_def AUTHORITATIVE_INPUT_MARKER_def)

lemma pending_not_marker [simp]: "PENDING_TRANSITIONS_KEY \<noteq> AUTHORITATIVE_INPUT_MARKER" "AUTHORITATIVE_INPUT_MARKER \<noteq> PENDING_TRANSITIONS_KEY"
  by (simp_all add: PENDING_TRANSITIONS_KEY_def AUTHORITATIVE_INPUT_MARKER_def)

lemma state_key_not_metadata [simp]:
  "current_state_key b i s r p \<noteq> metadata_key b key" "metadata_key b key \<noteq> current_state_key b i s r p"
  "live_key b i \<noteq> metadata_key b key" "metadata_key b key \<noteq> live_key b i"
  by (simp_all add: current_state_key_def metadata_key_def live_key_def namespaced_key_def)

text \<open>The queue read earlier is the queue at a write that compared its revision.\<close>

lemma record_unchanged:
  assumes "etcd_contract e" and "newer e s t" and "etcd_get e s k = Some kv"
    and "compare_holds (etcd_get e t) (CompareModRevision k (kv_mod_revision kv))"
  shows "etcd_get e t k = Some kv"
  using assms(4) contract_get(2)[OF assms(1,3)] same_revision[OF assms(1-3)] by (auto simp: compare_simps split: option.splits)

lemma parse_written:
  assumes "faithful_codec codec" and "to_queue_value codec ms = Inr v" and "\<forall>m \<in> set ms. message_id m \<noteq> []"
  shows "parse_pending_messages codec (Some v) = Inr ms"
  using assms by (auto simp: faithful_codec_def to_queue_value_def ok_or_def parse_pending_messages_def list_ex_iff split: option.splits)

lemma parsed_ids: "parse_pending_messages codec v = Inr ms \<Longrightarrow> m \<in> set ms \<Longrightarrow> message_id m \<noteq> []"
  by (auto simp: parse_pending_messages_def bind_result_Inr list_ex_iff split: if_splits)

lemma completion_ops_distinct: "distinct (map op_key (completion_operations b fence r p st v))"
  by (simp add: completion_operations_def authoritative_input_marker_operation_def Let_def split: option.splits)

lemma completion_applied:
  assumes "etcd_contract e" and "faithful_codec codec" and "newer e w t"
    and "etcd_get e w (metadata_key b PENDING_TRANSITIONS_KEY) = Some kv" and "completion_queue_revision fence = Revision (kv_mod_revision kv)"
    and "parse_pending_messages codec (Some (kv_value kv)) = Inr messages"
    and "position (\<lambda>m. message_id m = completion_message_id fence) messages = Some index" and "messages ! index = message"
    and "to_queue_value codec (take index messages @ drop (Suc index) messages) = Inr v"
    and "etcd_txn e t (completion_compares b fence) (completion_operations b fence (ResourceId (message_resource message))
      (PartitionId (message_partition message)) st v) = (True, u)"
  shows "completion e codec b fence message st t u" and "0 < etcd_revision e u"
proof -
  note txn = contract_txn[OF assms(1) completion_ops_distinct assms(10)]
  have cs: "compare_holds (etcd_get e t) (CompareModRevision (metadata_key b PENDING_TRANSITIONS_KEY) (kv_mod_revision kv))"
    "compare_holds (etcd_get e t) (CompareValue (live_key b (completion_instance fence)) (session_text (completion_session fence)))"
    using txn(1) assms(5) by (simp_all add: completion_compares_def)
  have t: "etcd_get e t (metadata_key b PENDING_TRANSITIONS_KEY) = Some kv" by (rule record_unchanged[OF assms(1,3,4) cs(1)])
  have get: "etcd_get e u = written (etcd_revision e t + 1) (completion_operations b fence (ResourceId (message_resource message))
      (PartitionId (message_partition message)) st v) (etcd_get e t)" using txn(3) by simp
  have split: "messages = take index messages @ message # drop (Suc index) messages" and first: "\<forall>m \<in> set (take index messages). message_id m \<noteq> completion_message_id fence"
    using position_Some[OF assms(7)] assms(8) by (auto simp: id_take_nth_drop in_set_conv_nth)
  have "queue_at e codec b u = Inr (take index messages @ drop (Suc index) messages)"
  proof -
    have "\<forall>m \<in> set (take index messages @ drop (Suc index) messages). message_id m \<noteq> []"
      using parsed_ids[OF assms(6)] by (auto dest: in_set_takeD in_set_dropD)
    note parse_written[OF assms(2,9) this]
    moreover have "map_option kv_value (etcd_get e u (metadata_key b PENDING_TRANSITIONS_KEY)) = Some v"
      by (simp add: get written_def completion_operations_def Let_def split: option.splits)
    ultimately show ?thesis by (auto simp: queue_at_def)
  qed
  moreover have "queue_at e codec b t = Inr (take index messages @ message # drop (Suc index) messages)"
    using assms(6) split by (simp add: queue_at_def t)
  moreover have "is_live e b (completion_instance fence) (completion_session fence) t"
    using cs(2) by (auto simp: is_live_def compare_simps)
  moreover have "map_option kv_value (etcd_get e u (current_state_key b (completion_instance fence) (completion_session fence)
      (ResourceId (message_resource message)) (PartitionId (message_partition message)))) = map_option State_as_str st"
    by (simp add: get written_def completion_operations_def Let_def split: option.splits)
  moreover have "etcd_get e u k = etcd_get e t k"
    if "k \<notin> {current_state_key b (completion_instance fence) (completion_session fence) (ResourceId (message_resource message))
      (PartitionId (message_partition message)), metadata_key b PENDING_TRANSITIONS_KEY, metadata_key b AUTHORITATIVE_INPUT_MARKER}" for k
    using that by (auto simp: get written_def completion_operations_def authoritative_input_marker_operation_def Let_def split: option.splits)
  ultimately show "completion e codec b fence message st t u" unfolding completion_def Let_def using first by blast
  show "0 < etcd_revision e u" using txn(4) contract_get(2,3)[OF assms(1) t] by auto
qed

lemma removal_applied:
  assumes "etcd_contract e" and "faithful_codec codec" and "newer e w t"
    and "etcd_get e w (metadata_key b PENDING_TRANSITIONS_KEY) = Some kv"
    and "parse_pending_messages codec (Some (kv_value kv)) = Inr messages"
    and "to_queue_value codec (filter (\<lambda>m. message_id m \<noteq> mid) messages) = Inr v"
    and "etcd_txn e t [CompareModRevision (metadata_key b PENDING_TRANSITIONS_KEY) (kv_mod_revision kv)]
      [PutOp (metadata_key b PENDING_TRANSITIONS_KEY) v None] = (True, u)"
  shows "message_removed e codec b mid t u"
proof -
  have d: "distinct (map op_key [PutOp (metadata_key b PENDING_TRANSITIONS_KEY) v None])" by simp
  note txn = contract_txn[OF assms(1) d assms(7)]
  have t: "etcd_get e t (metadata_key b PENDING_TRANSITIONS_KEY) = Some kv" by (rule record_unchanged[OF assms(1,3,4)]) (use txn(1) in simp)
  have get: "etcd_get e u = written (etcd_revision e t + 1) [PutOp (metadata_key b PENDING_TRANSITIONS_KEY) v None] (etcd_get e t)" using txn(3) by simp
  have "parse_pending_messages codec (Some v) = Inr (filter (\<lambda>m. message_id m \<noteq> mid) messages)"
    by (rule parse_written[OF assms(2,6)]) (use parsed_ids[OF assms(5)] in auto)
  then show ?thesis using assms(5) by (simp add: message_removed_def queue_at_def t get written_def)
qed

lemma clean_up_runs:
  assumes "etcd_contract e" and "faithful_codec codec" and "runs e s (clean_up_lost_session codec b fence) log s' y"
  shows "completes e codec b fence message st log y"
  using assms(3)[unfolded clean_up_lost_session_def] assms(1)
proof (cases rule: run_metadata_get_then)
  case (absent t u)
  then show ?thesis by (simp add: runs_Return)
next
  case (present w v kv)
  show ?thesis
  proof (cases "parse_pending_messages codec (Some (kv_value kv))")
    case (Inl err)
    then show ?thesis using present(4) by (simp add: runs_Return)
  next
    case (Inr messages)
    let ?retained = "filter (\<lambda>m. message_id m \<noteq> completion_message_id fence) messages"
    consider (none) "length ?retained = length messages" | (moved) "Revision (kv_mod_revision kv) \<noteq> completion_queue_revision fence"
      | (guarded) "length ?retained \<noteq> length messages" "completion_queue_revision fence = Revision (kv_mod_revision kv)" by fastforce
    then show ?thesis
    proof cases
      case guarded
      then have run: "runs e v (bind_action (Return (to_queue_value codec ?retained)) (\<lambda>v.
          bind_action (compare_and_put b PENDING_TRANSITIONS_KEY (completion_queue_revision fence) v) (\<lambda>_. Return (Inr CompletionSessionLost)))) log s' y"
        using present(4) Inr by (simp add: Let_def)
      show ?thesis
      proof (cases "to_queue_value codec ?retained")
        case (Inl err)
        then show ?thesis using run by (simp add: runs_Return)
      next
        case val: (Inr val)
        have clean: "message_removed e codec b (completion_message_id fence) t u" if "newer e v t" "etcd_txn e t [CompareModRevision (metadata_key b PENDING_TRANSITIONS_KEY) (kv_mod_revision kv)]
            [PutOp (metadata_key b PENDING_TRANSITIONS_KEY) val None] = (True, u)" for t u
          by (rule removal_applied[OF assms(1,2) newer_trans[OF present(2) that(1)] present(3) Inr val that(2)])
        have d: "distinct (map op_key [PutOp (metadata_key b PENDING_TRANSITIONS_KEY) val None])" by simp
        from run val have "runs e v (bind_action (bind_action (commit [CompareModRevision (metadata_key b PENDING_TRANSITIONS_KEY) (kv_mod_revision kv)]
            [PutOp (metadata_key b PENDING_TRANSITIONS_KEY) val None]) (\<lambda>r. Return (cas_result r))) (\<lambda>_. Return (Inr CompletionSessionLost))) log s' y"
          by (simp add: guarded(2) compare_and_put_def with_input_marker_def)
        from this assms(1) d show ?thesis
        proof (cases rule: run_cas_then)
          case (lost msg t u)
          then show ?thesis using clean by (simp add: completes_def is_transient_def)
        next
          case (failed u r)
          then show ?thesis by (simp add: runs_Return)
        next
          case (applied t u x r log')
          then show ?thesis using clean by (simp add: completes_def runs_Return)
        next
          case (unknown t u)
          then show ?thesis using clean by (simp add: completes_def)
        qed simp
      qed
    qed (use present(4) Inr in \<open>simp_all add: Let_def runs_Return split: if_splits\<close>)
  qed
qed simp

lemma removal_runs:
  assumes "etcd_contract e" and "faithful_codec codec" and "runs e s (remove_pending_transition codec b expected mid) log s' y"
  shows "length log \<le> 1 \<and> (\<forall>(t, ops, u) \<in> set log. message_removed e codec b mid t u) \<and> (y = Inl StaleRevision \<longrightarrow> log = [])"
  using assms(3)[unfolded remove_pending_transition_def] assms(1)
proof (cases rule: run_metadata_get_then)
  case (absent t u)
  then show ?thesis by (simp add: runs_Return)
next
  case (present w v kv)
  show ?thesis
  proof (cases "parse_pending_messages codec (Some (kv_value kv))")
    case (Inl err)
    then show ?thesis using present(4) by (simp add: runs_Return)
  next
    case (Inr messages)
    let ?retained = "filter (\<lambda>m. message_id m \<noteq> mid) messages"
    consider (none) "length ?retained = length messages" | (moved) "Revision (kv_mod_revision kv) \<noteq> expected"
      | (guarded) val where "length ?retained \<noteq> length messages" "expected = Revision (kv_mod_revision kv)" "to_queue_value codec ?retained = Inr val"
      | (unwritable) err where "length ?retained \<noteq> length messages" "expected = Revision (kv_mod_revision kv)" "to_queue_value codec ?retained = Inl err"
      by (cases "to_queue_value codec ?retained") fastforce+
    then show ?thesis
    proof cases
      case guarded
      have clean: "message_removed e codec b mid t u" if "newer e v t" "etcd_txn e t [CompareModRevision (metadata_key b PENDING_TRANSITIONS_KEY) (kv_mod_revision kv)]
          [PutOp (metadata_key b PENDING_TRANSITIONS_KEY) val None] = (True, u)" for t u
        by (rule removal_applied[OF assms(1,2) newer_trans[OF present(2) that(1)] present(3) Inr guarded(3) that(2)])
      have d: "distinct (map op_key [PutOp (metadata_key b PENDING_TRANSITIONS_KEY) val None])" by simp
      from present(4) Inr guarded have "runs e v (bind_action (bind_action (commit [CompareModRevision (metadata_key b PENDING_TRANSITIONS_KEY) (kv_mod_revision kv)]
          [PutOp (metadata_key b PENDING_TRANSITIONS_KEY) val None]) (\<lambda>r. Return (cas_result r)))
          (\<lambda>r. if cas_applied r then Return (Inr True) else Return (Inl StaleRevision))) log s' y"
        by (simp add: Let_def compare_and_put_def with_input_marker_def)
      from this assms(1) d show ?thesis by (cases rule: run_cas_then) (use clean in \<open>auto simp: runs_Return\<close>)
    qed (use present(4) Inr in \<open>simp_all add: Let_def runs_Return split: if_splits\<close>)
  qed
qed simp

lemma live_session_silent [simp]: "all_commits P (live_session b i)"
  by (auto simp: live_session_def intro!: all_commits_bind split: option.splits sum.splits)

lemma completion_commit_runs:
  assumes "etcd_contract e" and "faithful_codec codec"
    and "\<And>t u. newer e v t \<Longrightarrow> etcd_txn e t (completion_compares b fence) (completion_operations b fence r p st val) = (True, u) \<Longrightarrow>
      completion e codec b fence message st t u \<and> 0 < etcd_revision e u"
    and "runs e v (bind_action (commit (completion_compares b fence) (completion_operations b fence r p st val)) (\<lambda>(h, succeeded).
       if succeeded then bind_action (Return (revision_from_header h)) (\<lambda>revision. Return (Inr (CompletionApplied revision)))
       else bind_action (live_session b (completion_instance fence)) (\<lambda>live.
         if live = Some (completion_session fence) then Return (Inl StaleRevision) else clean_up_lost_session codec b fence))) log s' y"
  shows "completes e codec b fence message st log y"
  using assms(4,1) completion_ops_distinct
proof (cases rule: run_commit_then)
  case (lost msg t u)
  then show ?thesis using assms(3)[OF lost(2,3)] by (simp add: completes_def is_transient_def)
next
  case (failed t u h)
  have "runs e u (bind_action (live_session b (completion_instance fence)) (\<lambda>live.
      if live = Some (completion_session fence) then Return (Inl StaleRevision) else clean_up_lost_session codec b fence)) log s' y"
    using failed(5) by simp
  then show ?thesis by (rule silent_step[OF _ assms(1)]) (auto simp: runs_Return clean_up_runs[OF assms(1,2)] split: if_splits)
next
  case (applied t u x h log')
  note c = assms(3)[OF applied(1,2)]
  show ?thesis
  proof (cases "revision_from_header h")
    case (Inl err)
    then have "err = MissingRevision" using applied(4) c by (auto simp: revision_from_header_def header_def Revision_new_def split: option.splits if_splits)
    then show ?thesis using applied(5,6) Inl c by (simp add: completes_def runs_Return)
  next
    case (Inr revision)
    then have "revision_value revision = etcd_revision e u" using applied(4) by (auto simp: revision_from_header_Inr header_def)
    then show ?thesis using applied(5,6) Inr c by (simp add: completes_def runs_Return)
  qed
qed simp

lemma completion_runs:
  assumes "etcd_contract e" and "faithful_codec codec"
    and "runs e s (complete_pending_transition_with_fence codec b fence message resulting_state) log s' y"
  shows "completes e codec b fence message resulting_state log y"
proof -
  let ?r = "ResourceId (message_resource message)" and ?p = "PartitionId (message_partition message)"
  let ?first = "position (\<lambda>candidate. message_id candidate = completion_message_id fence)"
  show ?thesis
  proof (cases "message_resource message = [] \<or> message_partition message = []")
    case True
    then show ?thesis using assms(3)
      by (cases "message_resource message = []") (auto simp: complete_pending_transition_with_fence_def runs_Return ResourceId_new_def PartitionId_new_def validate_def)
  next
    case False
    then have new: "ResourceId_new (message_resource message) = Inr ?r" "PartitionId_new (message_partition message) = Inr ?p" by simp_all
    from assms(3)[unfolded complete_pending_transition_with_fence_def new map_err_simps bind_action_simps] assms(1) show ?thesis
    proof (cases rule: run_metadata_get_then)
      case (present w v kv)
      note run = present(4)[unfolded option.case MetadataEntry.simps]
      show ?thesis
      proof (cases "parse_pending_messages codec (Some (kv_value kv))")
        case (Inr messages)
        consider (none) "?first messages = None" | (other) index where "?first messages = Some index" "messages ! index \<noteq> message \<or> Revision (kv_mod_revision kv) \<noteq> completion_queue_revision fence"
          | (guarded) index where "?first messages = Some index" "messages ! index = message" "completion_queue_revision fence = Revision (kv_mod_revision kv)" by fastforce
        then show ?thesis
        proof cases
          case guarded
          show ?thesis
          proof (cases "to_queue_value codec (take index messages @ drop (Suc index) messages)")
            case val: (Inr val)
            note c = completion_applied[OF assms(1,2) newer_trans[OF present(2)] present(3) guarded(3) Inr guarded(1,2) val]
            show ?thesis by (rule completion_commit_runs[OF assms(1,2), of v b fence ?r ?p resulting_state val]) (use c run Inr guarded val in \<open>simp_all\<close>)
          qed (use run Inr guarded in \<open>simp add: runs_Return\<close>)
        qed (use run Inr in \<open>auto simp: runs_Return split: if_splits\<close>)
      qed (use run in \<open>simp add: runs_Return\<close>)
    qed (simp_all add: runs_Return)
  qed
qed

text \<open>C7: Completing a transition is fenced by the session. Under any interference and any lost
  response at most one transaction of a completion takes effect. A state is published, and the
  message removed with it, only while the participant's session is live and the message is in the
  queue; a completion that reports a lost session has published no state and has at most removed
  the message; one that reports the message as already completed, or a stale revision, has changed
  nothing.\<close>

theorem completion_fenced:
  assumes "etcd_contract e" and "faithful_codec codec"
    and "runs e s (complete_pending_transition_with_fence codec b fence message resulting_state) log s' y"
  shows "completes e codec b fence message resulting_state log y"
  using assms by (rule completion_runs)

section \<open>Claims\<close>

definition queued :: "'s etcd \<Rightarrow> message_codec \<Rightarrow> EtcdCoordination \<Rightarrow> TransitionMessage \<Rightarrow> 's \<Rightarrow> bool" where
  "queued e codec b message s \<longleftrightarrow> (\<exists>ms. queue_at e codec b s = Inr ms \<and> message \<in> set ms)"

text \<open>What the answer to a claim says of the stores that the claim saw.\<close>

definition claim_outcome :: "'s etcd \<Rightarrow> message_codec \<Rightarrow> EtcdCoordination \<Rightarrow> InstanceId \<Rightarrow> SessionId \<Rightarrow> TransitionMessage \<Rightarrow>
    's event list \<Rightarrow> CoordinationError + TransitionClaim \<Rightarrow> bool" where
  "claim_outcome e codec b i session message tr y \<longleftrightarrow> (case y of
     Inr (Claimed r) \<Rightarrow> \<exists>t u. Did t [] u \<in> set tr \<and> is_live e b i session t \<and> queued e codec b message t \<and>
       map_option kv_mod_revision (etcd_get e t (metadata_key b PENDING_TRANSITIONS_KEY)) = Some (revision_value r)
   | Inr ClaimSessionLost \<Rightarrow> \<exists>t. Saw t \<in> set tr \<and> \<not> is_live e b i session t
   | Inr Withdrawn \<Rightarrow> \<exists>t. Saw t \<in> set tr \<and> \<not> queued e codec b message t
   | Inl _ \<Rightarrow> True)"

lemma claim_outcome_simps [simp]:
  "claim_outcome e codec b i session message tr (Inl err)"
  "\<not> is_live e b i session t \<Longrightarrow> claim_outcome e codec b i session message (tr @ [Saw t]) (Inr ClaimSessionLost)"
  "\<not> queued e codec b message t \<Longrightarrow> claim_outcome e codec b i session message (tr @ [Saw t]) (Inr Withdrawn)"
  by (auto simp: claim_outcome_def)

lemma ensures_live_session:
  assumes "\<And>tr err. Q tr (Inl err)"
    and "\<And>t live. (live \<noteq> Some session \<Longrightarrow> \<not> is_live e b i session t) \<Longrightarrow> Q (tr @ [Saw t]) (Inr live)"
  shows "ensures e Q (live_session b i) tr"
proof -
  have "Q (tr @ [Saw t]) (Inr None)" if "etcd_get e t (live_key b i) = None" for t
    using assms(2)[of None t] that by (simp add: is_live_def)
  moreover have "Q (tr @ [Saw t]) (Inr (Some live))" if "etcd_get e t (live_key b i) = Some kv" "parse_session (kv_value kv) = Inr live" for t kv live
  proof (rule assms(2))
    show "Some live \<noteq> Some session \<Longrightarrow> \<not> is_live e b i session t" using that parse_session_canonical by (auto simp: is_live_def)
  qed
  ultimately show ?thesis using assms(1)
    by (auto simp: live_session_def ensures_requests split: option.splits sum.splits)
qed

lemma claim_commit_live:
  assumes "etcd_contract e" and "etcd_txn e t (claim_compares b i session (Revision r) v) [] = (True, u)"
    and "parse_pending_messages codec (Some v) = Inr messages" and "message \<in> set messages"
    and "Did t [] u \<in> set tr"
  shows "claim_outcome e codec b i session message tr (Inr (Claimed (Revision r)))"
proof -
  have "\<forall>c \<in> set (claim_compares b i session (Revision r) v). compare_holds (etcd_get e t) c"
    using contract_txn(1)[OF assms(1) _ assms(2)] by simp
  then obtain kv where "etcd_get e t (metadata_key b PENDING_TRANSITIONS_KEY) = Some kv" "kv_value kv = v" "kv_mod_revision kv = r"
      "is_live e b i session t"
    by (auto simp: claim_compares_def compare_holds_def is_live_def split: option.splits)
  then show ?thesis using assms(3-5) by (fastforce simp: claim_outcome_def queued_def queue_at_def)
qed

lemma claim_loop_ensures:
  assumes "etcd_contract e"
  shows "ensures e (claim_outcome e codec b i session message) (claim_loop n codec b i session message) tr"
proof (induction n arbitrary: tr)
  case (Suc n)
  let ?key = "metadata_key b PENDING_TRANSITIONS_KEY"
  have withdrawn: "\<not> queued e codec b message t" if "etcd_get e t ?key = None" for t
    using that by (auto simp: queued_def queue_at_def parse_pending_messages_def bind_result_Inr)
  have gone: "\<not> queued e codec b message t" if "etcd_get e t ?key = Some kv" "parse_pending_messages codec (Some (kv_value kv)) = Inr messages" "message \<notin> set messages" for t kv messages
    using that by (auto simp: queued_def queue_at_def)
  have live: "ensures e (claim_outcome e codec b i session message) (bind_action (live_session b i) (\<lambda>live.
      if live \<noteq> Some session then Return (Inr ClaimSessionLost) else claim_loop n codec b i session message)) tr" for tr
    unfolding ensures_bind_action by (rule ensures_live_session[where session = session]) (use Suc.IH in auto)
  show ?case unfolding claim_loop.simps ensures_bind_action[of _ _ "metadata_get _ _"]
  proof (rule ensures_metadata_get)
    fix t kv assume t: "etcd_get e t ?key = Some kv"
    show "case Inr (Some \<lparr>entry_value = Some (kv_value kv), entry_revision = Revision (kv_mod_revision kv)\<rparr>) of Inl err \<Rightarrow> claim_outcome e codec b i session message (tr @ [Saw t]) (Inl err)
      | Inr entry \<Rightarrow> ensures e (claim_outcome e codec b i session message) (case entry of None \<Rightarrow> Return (Inr Withdrawn)
     | Some entry \<Rightarrow>
         bind_action (Return (parse_pending_messages codec (entry_value entry))) (\<lambda>messages.
         if message \<notin> set messages then Return (Inr Withdrawn)
         else bind_action (Return (ok_or (entry_value entry) InvalidStoreValue)) (\<lambda>v.
         bind_action (commit (claim_compares b i session (entry_revision entry) v) []) (\<lambda>(h, succeeded).
         if succeeded then Return (Inr (Claimed (entry_revision entry)))
         else bind_action (live_session b i) (\<lambda>live.
           if live \<noteq> Some session then Return (Inr ClaimSessionLost) else claim_loop n codec b i session message))))) (tr @ [Saw t])"
      using gone[OF t] live claim_commit_live[OF assms]
      by (cases "parse_pending_messages codec (Some (kv_value kv))") (auto simp: ensures_bind_action[of _ _ "commit _ _"] ensures_commit)
  qed (use withdrawn in simp_all)
qed simp

lemma claim_silent: "all_commits (\<lambda>_ ops. ops = []) (claim_loop n codec b i session message)"
  by (induction n) (auto simp: metadata_get_def raw_snapshot_def intro!: all_commits_bind split: option.splits)

text \<open>C8: A claim has a linearization point. When the claim of a message succeeds, the run applied an
  empty transaction, and in the store it was applied to the message was in the queue at the
  returned revision and the session was the live one of the instance; when the claim reports a lost
  session or a withdrawn message, the run was answered from a store in which the session was not
  live, or the message not queued. A claim never changes the store.\<close>

theorem claim_linearizes:
  assumes "etcd_contract e" and "traced e s (claim_pending_transition codec b i session message) tr s' y"
  shows "claim_outcome e codec b i session message tr y \<and> (\<forall>(t, ops, u) \<in> set (applied tr). etcd_get e u = etcd_get e t)"
proof -
  have "etcd_get e u = etcd_get e t" if log: "(t, ops, u) \<in> set (applied tr)" for t ops u
  proof -
    from runs_log[OF traced_runs[OF assms(2), unfolded claim_pending_transition_def] claim_silent log] obtain cs where "ops = []" "etcd_txn e t cs ops = (True, u)" by blast
    then show ?thesis using contract_txn(3)[OF assms(1), of ops t cs] by (simp add: written_def fun_eq_iff)
  qed
  moreover have "claim_outcome e codec b i session message tr y"
    using assms(2) claim_loop_ensures[OF assms(1)] unfolding claim_pending_transition_def by (rule ensures_sound)
  ultimately show ?thesis by auto
qed

section \<open>Examples\<close>

definition demo_transition :: TransitionMessage where
  "demo_transition = \<lparr>message_id = ''m'', message_resource = ''db'', message_partition = ''p'', message_instance = ''a'', target_session = 1,
     message_from = ''OFFLINE'', message_to = ''STANDBY'', message_type = ''STATE_TRANSITION''\<rparr>"

definition demo_codec :: message_codec where
  "demo_codec =
     \<lparr>decode_messages = (\<lambda>v. if v = ''[]'' then Some [] else if v = ''[m]'' then Some [demo_transition] else None),
      encode_messages = (\<lambda>ms. if ms = [] then Some ''[]'' else if ms = [demo_transition] then Some ''[m]'' else None)\<rparr>"

lemma demo_codec_faithful: "faithful_codec demo_codec"
  by (simp add: faithful_codec_def demo_codec_def)

definition demo_queue_store :: mem_store where
  "demo_queue_store = mem_of [(live_key demo_backend (InstanceId ''a''), ''1'', 5), (metadata_key demo_backend PENDING_TRANSITIONS_KEY, ''[m]'', 0)]"

definition demo_completion :: ParticipantCompletionFence where
  "demo_completion = \<lparr>completion_instance = InstanceId ''a'', completion_session = SessionId 1, completion_queue_revision = Revision 3, completion_message_id = ''m''\<rparr>"

theorem completion_fenced_witness:
  "\<exists>t u. completion mem_etcd demo_codec demo_backend demo_completion demo_transition (Some (State ''STANDBY'')) t u \<and> etcd_revision mem_etcd u = 4"
proof -
  let ?p = "complete_pending_transition_with_fence demo_codec demo_backend demo_completion demo_transition (Some (State ''STANDBY''))"
  let ?run = "mem_run ?p demo_queue_store"
  have y: "snd (snd ?run) = Inr (CompletionApplied (Revision 4))" by code_simp
  have "runs mem_etcd demo_queue_store ?p (fst ?run) (fst (snd ?run)) (snd (snd ?run))" by (rule mem_run_mem) simp
  from completion_fenced[OF mem_contract demo_codec_faithful this] show ?thesis unfolding completes_def y by auto
qed

theorem claim_linearizes_witness:
  "\<exists>tr t u. traced mem_etcd demo_queue_store (claim_pending_transition demo_codec demo_backend (InstanceId ''a'') (SessionId 1) demo_transition) tr demo_queue_store (Inr (Claimed (Revision 3))) \<and>
     Did t [] u \<in> set tr \<and> is_live mem_etcd demo_backend (InstanceId ''a'') (SessionId 1) t \<and> queued mem_etcd demo_codec demo_backend demo_transition t"
proof -
  let ?p = "claim_pending_transition demo_codec demo_backend (InstanceId ''a'') (SessionId 1) demo_transition"
  let ?run = "mem_run ?p demo_queue_store"
  have y: "snd ?run = (demo_queue_store, Inr (Claimed (Revision 3)))" by code_simp
  obtain tr where tr: "traced mem_etcd demo_queue_store ?p tr demo_queue_store (Inr (Claimed (Revision 3)))"
    by (rule mem_traced[of demo_queue_store ?p, unfolded y fst_conv snd_conv])
  from claim_linearizes[OF mem_contract this] obtain t u where "Did t [] u \<in> set tr" "is_live mem_etcd demo_backend (InstanceId ''a'') (SessionId 1) t"
      "queued mem_etcd demo_codec demo_backend demo_transition t"
    unfolding claim_outcome_def by auto
  with tr show ?thesis by blast
qed

end
