(* ===== verification/Election_Laws.thy ===== *)
theory Election_Laws
  imports Election Etcd_Queue_Laws
begin

text \<open>
  Election: only a controller that installed its lease in the empty active record becomes a
  leader, a leader never removes another leader's records, and a campaign whose winning
  transaction loses its response blocks itself.
\<close>

section \<open>Lease times\<close>

text \<open>The lease time in seconds is the configured time in milliseconds rounded up; it is
  rejected exactly when it is zero or when rounding up would overflow 64 bits.\<close>

lemma lease_seconds_exact:
  "lease_seconds ttl =
     (if ttl = 0 \<or> 2 ^ 64 - 1000 < uint ttl then Inl InvalidElectionTtl else Inr ((uint ttl + 999) div 1000))"
proof -
  have u: "uint ttl < 2 ^ 64" "0 \<le> uint ttl" using uint_lt2p[of ttl] by simp_all
  have g: "- 1 - 999 < ttl \<longleftrightarrow> 2 ^ 64 - 1000 < uint ttl" by (simp add: word_less_def)
  show ?thesis
  proof (cases "2 ^ 64 - 1000 < uint ttl")
    case False
    have "uint (ttl + 999) = (uint ttl + 999) mod 2 ^ 64" by (simp add: uint_word_ariths)
    also have "\<dots> = uint ttl + 999" using u False by (intro mod_pos_pos_trivial) simp_all
    finally have d: "uint ((ttl + 999) div 1000) = (uint ttl + 999) div 1000" by (simp add: uint_div)
    have "(uint ttl + 999) div 1000 = 0 \<longleftrightarrow> uint ttl = 0" 
      using u(2) pos_imp_zdiv_pos_iff[of 1000 "uint ttl + 999"] pos_imp_zdiv_nonneg_iff[of 1000 "uint ttl + 999"] by linarith
    then have z: "(ttl + 999) div 1000 = 0 \<longleftrightarrow> ttl = 0" using d by (simp add: uint_0_iff flip: uint_0_iff[of "(ttl + 999) div 1000"])
    have "\<not> 2 ^ 63 - 1 < (ttl + 999) div 1000" using u False by (simp add: word_less_def d)
    then show ?thesis using False g z d by (simp add: lease_seconds_def Let_def)
  qed (use g in \<open>simp add: lease_seconds_def\<close>)
qed

section \<open>Campaigns\<close>

lemma active_not_candidate [simp]:
  "controller_active_key b \<noteq> controller_candidate_key b c" "controller_candidate_key b c \<noteq> controller_active_key b"
  by (simp_all add: controller_active_key_def controller_candidate_key_def namespaced_key_def)

text \<open>The transaction that installs a leader.\<close>

definition installs :: "'s etcd \<Rightarrow> EtcdCoordination \<Rightarrow> ControllerElectionConfig \<Rightarrow> ControllerAuthority \<Rightarrow> 's \<Rightarrow> TxnOp list \<Rightarrow> 's \<Rightarrow> bool" where
  "installs e b config authority t ops u \<longleftrightarrow> authority_namespace authority = namespace_prefix b \<and>
     authority_controller authority = election_controller_id config \<and>
     ops = [PutOp (controller_active_key b) (election_controller_id config) (Some (authority_lease authority))] \<and>
     (\<exists>candidate. etcd_txn e t (campaign_compares b config (authority_lease authority) candidate) ops = (True, u))"

lemma runs_cases_sum:
  "runs e s (case r of Inl x \<Rightarrow> f x | Inr y \<Rightarrow> g y) log s' z \<longleftrightarrow>
     (\<exists>x. r = Inl x \<and> runs e s (f x) log s' z) \<or> (\<exists>y. r = Inr y \<and> runs e s (g y) log s' z)"
  by (cases r) auto

lemma runs_cases_option:
  "runs e s (case r of None \<Rightarrow> f | Some y \<Rightarrow> g y) log s' z \<longleftrightarrow> r = None \<and> runs e s f log s' z \<or> (\<exists>y. r = Some y \<and> runs e s (g y) log s' z)"
  by (cases r) auto

lemma runs_cases_if: "runs e s (if c then p else q) log s' z \<longleftrightarrow> (c \<and> runs e s p log s' z) \<or> (\<not> c \<and> runs e s q log s' z)"
  by simp

lemmas runs_step = runs_Return runs_request runs_cases_sum runs_cases_option runs_cases_if

lemma wait_campaigning_leader:
  assumes "runs e s (wait_campaigning shutdown signal continue) log s' (Some (Inr (Some authority)))" and "shutdown \<in> {give_up lease, give_up_checked lease}"
  shows "runs e s continue log s' (Some (Inr (Some authority)))"
  using assms by (auto simp: wait_campaigning_def give_up_def give_up_checked_def runs_step split: wake.splits)

lemma run_commit_elim:
  assumes "runs e s (Commit cs ops f) log s' y"
  obtains t r l1 u l2 where "committed e t cs ops r l1 u" "runs e u (f r) l2 s' y" "log = l1 @ l2"
  using assms unfolding runs_Commit by (elim exE conjE)

lemma campaign_commit_leader:
  assumes "runs e u (Commit (campaign_compares b config lease candidate)
      [PutOp (controller_active_key b) (election_controller_id config) (Some lease)] (\<lambda>r. case r of
        Inl _ \<Rightarrow> wait_campaigning (give_up lease) signal continue
      | Inr (h, succeeded) \<Rightarrow> if succeeded
          then Return (Some (Inr (Some \<lparr>authority_namespace = namespace_prefix b,
            authority_controller = election_controller_id config, authority_lease = lease\<rparr>)))
          else wait_campaigning (give_up_checked lease) signal continue)) log s' (Some (Inr (Some authority)))"
    and "\<And>u shutdown log2. runs e u (wait_campaigning shutdown signal continue) log2 s' (Some (Inr (Some authority))) \<Longrightarrow>
      shutdown \<in> {give_up lease, give_up_checked lease} \<Longrightarrow> \<exists>t ops u. (t, ops, u) \<in> set log2 \<and> installs e b config authority t ops u"
  shows "\<exists>t ops u. (t, ops, u) \<in> set log \<and> installs e b config authority t ops u"
  using assms(1)
proof (rule run_commit_elim)
  fix t r l1 v l2
  assume c: "committed e t (campaign_compares b config lease candidate) [PutOp (controller_active_key b) (election_controller_id config) (Some lease)] r l1 v"
    "runs e v (case r of Inl _ \<Rightarrow> wait_campaigning (give_up lease) signal continue | Inr (h, succeeded) \<Rightarrow> if succeeded
          then Return (Some (Inr (Some \<lparr>authority_namespace = namespace_prefix b,
            authority_controller = election_controller_id config, authority_lease = lease\<rparr>)))
          else wait_campaigning (give_up_checked lease) signal continue) l2 s' (Some (Inr (Some authority)))" "log = l1 @ l2"
  show ?thesis
  proof (cases "\<exists>h. r = Inr (h, True)")
    case True
    then show ?thesis using c by (auto simp: runs_Return committed_def installs_def)
  next
    case False
    then have "\<exists>t ops u. (t, ops, u) \<in> set l2 \<and> installs e b config authority t ops u" using c(2) assms(2)[of v _ l2] by (auto split: sum.splits)
    then show ?thesis unfolding c(3) by auto
  qed
qed

text \<open>A leader is returned right after the transaction that installed it.\<close>

lemma acquire_runs:
  assumes "runs e s (acquire_from b config p signals) log s' (Some (Inr (Some authority)))"
  shows "\<exists>t ops u. (t, ops, u) \<in> set log \<and> installs e b config authority t ops u"
  using assms
proof (induction signals arbitrary: p s log)
  case Nil
  then show ?case by (simp add: runs_Return)
next
  case (Cons signal signals)
  let ?leader = "Some (Inr (Some authority))"
  let ?goal = "\<lambda>log. \<exists>t ops u. (t, ops, u) \<in> set log \<and> installs e b config authority t ops u"
  show ?case
  proof (cases p)
    case Granting
    then show ?thesis using Cons.prems by (simp only: acquire_from.simps runs_step) (auto dest: Cons.IH)
  next
    case (Registering lease)
    have "\<not> shutdown_first signal" using Cons.prems unfolding Registering by (auto simp: registration_txn_def give_up_def Let_def runs_step split: if_splits)
    with Cons.prems have "runs e s (registration_txn b config lease (\<lambda>r. case r of
        Inl _ \<Rightarrow> if wake signal = WakeShutdown then give_up lease else acquire_from b config (Registering lease) signals
      | Inr (h, succeeded) \<Rightarrow> if succeeded then acquire_from b config (Campaigning lease) signals
          else RevokeLease lease (\<lambda>_. if wake signal = WakeShutdown then stopped else acquire_from b config Granting signals))) log s' ?leader"
      unfolding Registering by simp
    then show ?thesis unfolding registration_txn_def Let_def
      by (rule run_commit_elim) (simp only: runs_step case_prod_beta give_up_def; auto dest!: Cons.IH; blast)
  next
    case (Campaigning lease)
    let ?wait = "\<lambda>shutdown. wait_campaigning shutdown signal (acquire_from b config (Campaigning lease) signals)"
    have waits: "?goal log2" if "runs e u (?wait shutdown) log2 s' ?leader" "shutdown \<in> {give_up lease, give_up_checked lease}" for u shutdown log2
      by (rule Cons.IH[OF wait_campaigning_leader[OF that]])
    note commits = campaign_commit_leader[OF _ waits]
    show ?thesis using Cons.prems unfolding Campaigning
      by (simp only: acquire_from.simps runs_cases_if runs_GetPrefix runs_cases_sum runs_cases_option case_prod_beta) (auto simp: runs_Return intro: waits commits)
  qed
qed

section \<open>Blocked campaigns\<close>

lemma committed_refused:
  assumes "etcd_contract e" and "distinct (map op_key ops)" and "committed e t cs ops r l1 v" and "c \<in> set cs" and "\<not> compare_holds (etcd_get e t) c"
  shows "l1 = [] \<and> v = t \<and> (\<forall>h. r \<noteq> Inr (h, True))"
proof -
  have "b \<Longrightarrow> False" "\<not> b \<Longrightarrow> w = t" if "etcd_txn e t cs ops = (b, w)" for b w
    using contract_txn(1,2)[OF assms(1,2) that] assms(4,5) by blast+
  then show ?thesis using assms(3) by (auto simp: committed_def split: if_splits sum.splits)
qed

text \<open>While the active record stays as it is, a campaign sends no transaction that applies.\<close>

lemma runs_wait_blocked:
  assumes "runs e s (wait_campaigning shutdown signal continue) log s' y" and "shutdown \<in> {give_up lease, give_up_checked lease}"
  obtains "log = []" "\<And>authority. y \<noteq> Some (Inr (Some authority))" | "runs e s continue log s' y"
  using assms by (auto simp: wait_campaigning_def give_up_def give_up_checked_def runs_step split: wake.splits)

lemma blocked_campaign:
  assumes "etcd_contract e" and "\<forall>s s'. etcd_other e s s' \<longrightarrow> etcd_get e s' (controller_active_key b) = etcd_get e s (controller_active_key b)"
    and "etcd_get e s (controller_active_key b) \<noteq> None" and "runs e s (acquire_from b config (Campaigning lease) signals) log s' y"
  shows "log = [] \<and> (\<forall>authority. y \<noteq> Some (Inr (Some authority)))"
  using assms(3,4)
proof (induction signals arbitrary: s log)
  case Nil
  then show ?case by (simp add: runs_Return)
next
  case (Cons signal signals)
  have keep: "etcd_get e t (controller_active_key b) \<noteq> None" if "others e s t" "etcd_get e s (controller_active_key b) \<noteq> None" for s t
    using that by (induction rule: rtranclp_induct) (use assms(2) in auto)
  let ?wait = "\<lambda>shutdown. wait_campaigning shutdown signal (acquire_from b config (Campaigning lease) signals)"
  have waits: "log = [] \<and> (\<forall>authority. y \<noteq> Some (Inr (Some authority)))"
    if "runs e u (?wait shutdown) log s' y" "shutdown \<in> {give_up lease, give_up_checked lease}" "etcd_get e u (controller_active_key b) \<noteq> None" for u shutdown log
    using that(1,2) by (rule runs_wait_blocked) (use Cons.IH[OF that(3)] in auto)
  have commits: "log = [] \<and> (\<forall>authority. y \<noteq> Some (Inr (Some authority)))"
    if "runs e u (Commit (campaign_compares b config lease candidate)
          [PutOp (controller_active_key b) (election_controller_id config) (Some lease)] (\<lambda>r. case r of
            Inl _ \<Rightarrow> ?wait (give_up lease)
          | Inr (h, succeeded) \<Rightarrow> if succeeded
              then Return (Some (Inr (Some \<lparr>authority_namespace = namespace_prefix b,
                authority_controller = election_controller_id config, authority_lease = lease\<rparr>)))
              else ?wait (give_up_checked lease))) log s' y" "etcd_get e u (controller_active_key b) \<noteq> None" for u candidate log
  proof -
    from that(1)[unfolded runs_Commit] obtain t r l1 v l2 where c: "others e u t"
      "committed e t (campaign_compares b config lease candidate) [PutOp (controller_active_key b) (election_controller_id config) (Some lease)] r l1 v"
      "runs e v (case r of Inl _ \<Rightarrow> ?wait (give_up lease) | Inr (h, succeeded) \<Rightarrow> if succeeded
          then Return (Some (Inr (Some \<lparr>authority_namespace = namespace_prefix b,
            authority_controller = election_controller_id config, authority_lease = lease\<rparr>)))
          else ?wait (give_up_checked lease)) l2 s' y" "log = l1 @ l2" by (elim exE conjE)
    have active: "etcd_get e t (controller_active_key b) \<noteq> None" by (rule keep[OF c(1) that(2)])
    have "l1 = [] \<and> v = t \<and> (\<forall>h. r \<noteq> Inr (h, True))"
      by (rule committed_refused[OF assms(1) _ c(2), of "CompareVersion (controller_active_key b) 0"])
        (use active in \<open>simp_all add: campaign_compares_def Let_def version_zero[OF assms(1)]\<close>)
    then show ?thesis using c(3,4) active waits[of t "give_up lease" l2] waits[of t "give_up_checked lease" l2] by (auto split: sum.splits)
  qed
  show ?case using Cons.prems
    by (simp only: acquire_from.simps runs_cases_if runs_GetPrefix runs_cases_sum runs_cases_option case_prod_beta)
      (elim disjE exE conjE; (erule waits, simp, rule keep, assumption, rule Cons.prems(1) | erule commits, rule keep, assumption, rule Cons.prems(1) | simp add: runs_Return))
qed

section \<open>Properties\<close>

lemma acquire_commits:
  "all_commits (\<lambda>cs ops. distinct (map op_key ops) \<and> (\<forall>op \<in> set ops. op_key op = controller_active_key b \<longrightarrow> CompareVersion (controller_active_key b) 0 \<in> set cs))
     (acquire_from b config p signals)"
  by (induction b config p signals rule: acquire_from.induct)
    (auto simp: registration_txn_def give_up_def give_up_checked_def wait_campaigning_def campaign_compares_def Let_def split: sum.splits wake.splits option.splits)

text \<open>C10: Leadership is exclusive. A campaign never overwrites an active controller record: it
  writes that record only when there is none. A leader is returned only after a transaction of
  this campaign that found no active record and put the leader's own identity and lease into it,
  so that every fenced write of another controller fails from then on, as long as the record
  stands.\<close>

theorem election_exclusive:
  assumes "etcd_contract e" and "runs e s (acquire_until b config signals) log s' y"
  shows "(\<forall>(t, ops, u) \<in> set log. (\<forall>op \<in> set ops. op_key op = controller_active_key b \<longrightarrow> etcd_get e t (controller_active_key b) = None)) \<and>
    (\<forall>authority. y = Some (Inr (Some authority)) \<longrightarrow> (\<exists>t ops u. (t, ops, u) \<in> set log \<and>
       etcd_get e t (controller_active_key b) = None \<and> authority_namespace authority = namespace_prefix b \<and>
       has_authority e b (authority_controller authority) (authority_lease authority) u \<and>
       (\<forall>c l. has_authority e b c l u \<longrightarrow> c = authority_controller authority \<and> l = authority_lease authority)))"
proof (intro conjI allI impI)
  note run = assms(2)[unfolded acquire_until_def]
  have empty: "etcd_get e t (controller_active_key b) = None"
    if "etcd_txn e t cs ops = (True, u)" "CompareVersion (controller_active_key b) 0 \<in> set cs" "distinct (map op_key ops)" for t cs ops u
    using contract_txn(1)[OF assms(1) that(3,1)] that(2) version_zero[OF assms(1)] by blast
  show "\<forall>(t, ops, u) \<in> set log. \<forall>op \<in> set ops. op_key op = controller_active_key b \<longrightarrow> etcd_get e t (controller_active_key b) = None"
    using runs_log[OF run acquire_commits] empty by blast
  fix authority
  assume "y = Some (Inr (Some authority))"
  with run acquire_runs[of e s b config Granting signals log s' authority]
  obtain t ops u where i: "(t, ops, u) \<in> set log" "installs e b config authority t ops u" by auto
  show "\<exists>t ops u. (t, ops, u) \<in> set log \<and> etcd_get e t (controller_active_key b) = None \<and> authority_namespace authority = namespace_prefix b \<and>
       has_authority e b (authority_controller authority) (authority_lease authority) u \<and>
       (\<forall>c l. has_authority e b c l u \<longrightarrow> c = authority_controller authority \<and> l = authority_lease authority)"
  proof (intro exI conjI)
    from i(2) obtain candidate where ops: "ops = [PutOp (controller_active_key b) (election_controller_id config) (Some (authority_lease authority))]"
      and txn: "etcd_txn e t (campaign_compares b config (authority_lease authority) candidate) ops = (True, u)"
      and a: "authority_namespace authority = namespace_prefix b" "authority_controller authority = election_controller_id config" by (auto simp: installs_def)
    have d: "distinct (map op_key ops)" by (simp add: ops)
    have get: "etcd_get e u = written (etcd_revision e t + 1) ops (etcd_get e t)" using contract_txn(3)[OF assms(1) d txn] by simp
    show "(t, ops, u) \<in> set log" "authority_namespace authority = namespace_prefix b" by (fact i(1) a(1))+
    show "etcd_get e t (controller_active_key b) = None" by (rule empty[OF txn _ d]) (simp add: campaign_compares_def Let_def)
    show "has_authority e b (authority_controller authority) (authority_lease authority) u"
      "\<forall>c l. has_authority e b c l u \<longrightarrow> c = authority_controller authority \<and> l = authority_lease authority"
      by (simp_all add: has_authority_def get written_def ops a(2))
  qed
qed

text \<open>C18: A campaign blocks itself when the response to its winning transaction is lost. The
  transaction installed this controller in the active record under its own lease, but the campaign
  only retries while it finds no active record; as long as nobody else changes the record, no
  further pass applies a transaction or returns leadership, for any sequence of signals.\<close>

theorem lost_response_blocks_campaign:
  assumes "etcd_contract e" and "\<forall>s s'. etcd_other e s s' \<longrightarrow> etcd_get e s' (controller_active_key b) = etcd_get e s (controller_active_key b)"
    and "etcd_txn e t (campaign_compares b config lease candidate)
      [PutOp (controller_active_key b) (election_controller_id config) (Some lease)] = (True, u)"
    and "runs e u (acquire_from b config (Campaigning lease) signals) log s' y"
  shows "has_authority e b (election_controller_id config) lease u \<and> log = [] \<and> (\<forall>authority. y \<noteq> Some (Inr (Some authority)))"
proof -
  have d: "distinct (map op_key [PutOp (controller_active_key b) (election_controller_id config) (Some lease)])" by simp
  have "has_authority e b (election_controller_id config) lease u"
    using contract_txn(3)[OF assms(1) d assms(3)] by (simp add: has_authority_def written_def)
  then show ?thesis using blocked_campaign[OF assms(1,2) _ assms(4)] by (auto simp: has_authority_def)
qed

section \<open>Release\<close>

lemma delete_owned_commits:
  "all_commits (\<lambda>cs ops. ops = [DeleteOp key] \<and> cs = [CompareLease key (authority_lease authority)]) (delete_owned_election_key authority key)"
  by (auto simp: delete_owned_election_key_def intro!: all_commits_bind)

lemma confirm_silent [simp]: "all_commits P (confirm_released n b authority)"
  by (induction n) (auto intro!: all_commits_bind)

definition election_keys :: "EtcdCoordination \<Rightarrow> ControllerAuthority \<Rightarrow> string set" where
  "election_keys b authority = {controller_candidate_key b (authority_controller authority), controller_active_key b}"

lemma relinquish_commits:
  "all_commits (\<lambda>cs ops. \<exists>key \<in> election_keys b authority. ops = [DeleteOp key] \<and> cs = [CompareLease key (authority_lease authority)])
     (relinquish b authority)"
proof -
  have d: "all_commits (\<lambda>cs ops. \<exists>key \<in> election_keys b authority. ops = [DeleteOp key] \<and> cs = [CompareLease key (authority_lease authority)])
      (delete_owned_election_key authority key)" if "key \<in> election_keys b authority" for key
    by (rule all_commits_mono[OF delete_owned_commits]) (use that in blast)
  show ?thesis unfolding relinquish_def
    by (intro all_commits_bind_client all_commits_bind d) (simp_all add: election_keys_def)
qed

text \<open>The record of a key does not belong to the lease.\<close>

definition released :: "'s etcd \<Rightarrow> ControllerAuthority \<Rightarrow> string \<Rightarrow> 's \<Rightarrow> bool" where
  "released e authority key s \<longleftrightarrow> (\<forall>kv. etcd_get e s key = Some kv \<longrightarrow> kv_lease kv \<noteq> authority_lease authority)"

lemma confirm_runs:
  assumes "etcd_contract e" and "runs e s (confirm_released n b authority) log s' (Inr ())"
  shows "\<exists>t1 t2. newer e s t1 \<and> newer e t1 t2 \<and> released e authority (controller_candidate_key b (authority_controller authority)) t1 \<and>
    released e authority (controller_active_key b) t2"
  using assms(2)
proof (induction n arbitrary: s log)
  case (Suc n)
  from Suc.prems[unfolded confirm_released.simps] assms(1) show ?case
  proof (cases rule: run_get_then)
    case (response t u h)
    note outer = response
    from response(4)[unfolded prod.case] assms(1) show ?thesis
    proof (cases rule: run_get_then)
      case (response t2 u2 h2)
      show ?thesis
      proof (cases "runs e u2 (confirm_released n b authority) log s' (Inr ())")
        case True
        then show ?thesis using Suc.IH[OF True] newer_trans[OF newer_trans[OF outer(1,2)] newer_trans[OF response(1,2)]] by (meson newer_trans)
      next
        case False
        then have "released e authority (controller_candidate_key b (authority_controller authority)) t" "released e authority (controller_active_key b) t2"
          using response(4) by (auto simp: released_def runs_Return split: if_splits option.splits)
        then show ?thesis using outer(1) newer_trans[OF outer(2) response(1)] by blast
      qed
    qed simp
  qed simp
qed (simp add: runs_Return)

text \<open>A leadership handle gives up only what it owns. Relinquishing deletes election records
  only while they carry the handle's own lease, so that a deposed controller never removes the
  record of its successor; when it reports success, the candidate record and the active record
  were each seen without that lease.\<close>

lemma relinquish_only_own:
  assumes "etcd_contract e" and "authority_lease authority \<noteq> 0" and "runs e s (relinquish b authority) log s' y"
  shows "(\<forall>(t, ops, u) \<in> set log. \<exists>key kv. ops = [DeleteOp key] \<and> key \<in> election_keys b authority \<and>
      etcd_get e t key = Some kv \<and> kv_lease kv = authority_lease authority) \<and>
    (y = Inr () \<longrightarrow> (\<exists>t1 t2. newer e t1 t2 \<and> released e authority (controller_candidate_key b (authority_controller authority)) t1 \<and>
      released e authority (controller_active_key b) t2))"
proof
  have own: "\<exists>kv. etcd_get e t key = Some kv \<and> kv_lease kv = authority_lease authority"
    if "etcd_txn e t [CompareLease key (authority_lease authority)] [DeleteOp key] = (True, u)" for t key u
    using contract_txn(1)[OF assms(1) _ that] assms(2) by (auto simp: compare_simps split: option.splits)
  have "\<exists>key kv. ops = [DeleteOp key] \<and> key \<in> election_keys b authority \<and> etcd_get e t key = Some kv \<and> kv_lease kv = authority_lease authority"
    if log: "(t, ops, u) \<in> set log" for t ops u
  proof -
    from runs_log[OF assms(3) relinquish_commits log] obtain key where "key \<in> election_keys b authority" "ops = [DeleteOp key]"
      "etcd_txn e t [CompareLease key (authority_lease authority)] [DeleteOp key] = (True, u)" by auto
    with own[of t key u] show ?thesis by blast
  qed
  then show "\<forall>(t, ops, u) \<in> set log. \<exists>key kv. ops = [DeleteOp key] \<and> key \<in> election_keys b authority \<and>
      etcd_get e t key = Some kv \<and> kv_lease kv = authority_lease authority" by auto
  have "runs e s (relinquish b authority) log s' (Inr ()) \<Longrightarrow> \<exists>t l. runs e t (confirm_released RELINQUISH_CONFIRM_ATTEMPTS b authority) l s' (Inr ())"
    unfolding relinquish_def runs_bind_client by (elim exE conjE run_bind_Inr) blast
  then show "y = Inr () \<longrightarrow> (\<exists>t1 t2. newer e t1 t2 \<and> released e authority (controller_candidate_key b (authority_controller authority)) t1 \<and>
      released e authority (controller_active_key b) t2)"
    using assms(3) confirm_runs[OF assms(1)] by blast
qed

section \<open>Examples\<close>

definition demo_election :: ControllerElectionConfig where
  "demo_election = \<lparr>election_cluster = ''c'', election_controller_id = ''c1'', lease_ttl_ms = 1500\<rparr>"

definition demo_signal :: campaign_signal where
  "demo_signal = \<lparr>lost_flag = False, shutdown_first = False, request_in_flight = False, wake = WakeElapsed\<rparr>"

theorem election_exclusive_witness:
  "\<exists>t u. etcd_get mem_etcd t (controller_active_key demo_backend) = None \<and> has_authority mem_etcd demo_backend ''c1'' 1 u"
proof -
  let ?p = "acquire_until demo_backend demo_election [demo_signal, demo_signal, demo_signal]"
  let ?run = "mem_run ?p (mem_of [])"
  have seconds: "lease_seconds (lease_ttl_ms demo_election) = Inr 2" by (simp add: lease_seconds_def demo_election_def)
  have start: "?run = mem_run (acquire_from demo_backend demo_election (Registering 1) [demo_signal, demo_signal]) (mem_of [])"
    by (simp add: acquire_until_def seconds) (simp add: demo_signal_def)
  have y: "snd (snd ?run) = Some (Inr (Some \<lparr>authority_namespace = ''/clusters/c'', authority_controller = ''c1'', authority_lease = 1\<rparr>))" unfolding start by code_simp
  have "runs mem_etcd (mem_of []) ?p (fst ?run) (fst (snd ?run)) (snd (snd ?run))" by (rule mem_run_mem) simp
  note e = conjunct2[OF election_exclusive[OF mem_contract this], rule_format, OF y]
  from e obtain t u where "etcd_get mem_etcd t (controller_active_key demo_backend) = None" "has_authority mem_etcd demo_backend
      (authority_controller \<lparr>authority_namespace = ''/clusters/c'', authority_controller = ''c1'', authority_lease = 1\<rparr>)
      (authority_lease \<lparr>authority_namespace = ''/clusters/c'', authority_controller = ''c1'', authority_lease = 1\<rparr>) u" by (elim exE conjE)
  then show ?thesis by (intro exI[of _ t] exI[of _ u]) simp
qed

definition demo_candidate_store :: mem_store where
  "demo_candidate_store = mem_of [(controller_candidate_key demo_backend ''c1'', ''c1'', 1)]"

definition demo_candidate :: KeyValue where
  "demo_candidate = \<lparr>kv_key = controller_candidate_key demo_backend ''c1'', kv_value = ''c1'', kv_create_revision = 2, kv_mod_revision = 2, kv_version = 1, kv_lease = 1\<rparr>"

theorem lost_response_blocks_campaign_witness:
  "\<exists>u s' y. has_authority mem_etcd demo_backend ''c1'' 1 u \<and>
     runs mem_etcd u (acquire_from demo_backend demo_election (Campaigning 1) [demo_signal, demo_signal]) [] s' y \<and> (\<forall>authority. y \<noteq> Some (Inr (Some authority)))"
proof -
  let ?e = "mem_with (\<lambda>s s'. etcd_get mem_etcd s' (controller_active_key demo_backend) = etcd_get mem_etcd s (controller_active_key demo_backend))"
  let ?txn = "mem_txn demo_candidate_store (campaign_compares demo_backend demo_election 1 demo_candidate)
      [PutOp (controller_active_key demo_backend) (election_controller_id demo_election) (Some 1)]"
  let ?p = "acquire_from demo_backend demo_election (Campaigning 1) [demo_signal, demo_signal]"
  let ?run = "mem_run ?p (snd ?txn)"
  have "fst ?txn" by code_simp
  then have t: "etcd_txn ?e demo_candidate_store (campaign_compares demo_backend demo_election 1 demo_candidate)
      [PutOp (controller_active_key demo_backend) (election_controller_id demo_election) (Some 1)] = (True, snd ?txn)"
    by (simp add: mem_etcd_def prod_eq_iff)
  have o: "\<forall>s s'. etcd_other ?e s s' \<longrightarrow> etcd_get ?e s' (controller_active_key demo_backend) = etcd_get ?e s (controller_active_key demo_backend)"
    by (simp add: mem_with_def)
  have "runs ?e (snd ?txn) ?p (fst ?run) (fst (snd ?run)) (snd (snd ?run))" by (rule mem_run_runs) simp
  from lost_response_blocks_campaign[OF mem_with_contract o t this]
  have *: "has_authority mem_etcd demo_backend ''c1'' 1 (snd ?txn)" "fst ?run = []" "\<forall>authority. snd (snd ?run) \<noteq> Some (Inr (Some authority))"
    by (simp_all add: has_authority_def demo_election_def)
  have "runs mem_etcd (snd ?txn) ?p (fst ?run) (fst (snd ?run)) (snd (snd ?run))" by (rule mem_run_mem) simp
  with * show ?thesis by (intro exI[of _ "snd ?txn"] exI[of _ "fst (snd ?run)"] exI[of _ "snd (snd ?run)"]) simp
qed

end
