(* ===== verification/Etcd_Sessions_Laws.thy ===== *)
theory Etcd_Sessions_Laws
  imports Election_Laws
begin

text \<open>
  Sessions in etcd: session numbers are issued once, a registration starts a fresh incarnation
  with initial states only, and only the live session publishes.
\<close>

section \<open>Between transactions\<close>

lemma after_commits:
  assumes "runs e s p log s' y" and "etcd_contract e" and "all_commits well_formed_txn p" and "no_leases p"
  shows "others e (if log = [] then s else snd (snd (last log))) s'"
  using assms
proof (induction rule: runs.induct)
  case (run_other s v p log s' x)
  then show ?case by (auto intro: converse_rtranclp_into_rtranclp split: if_splits)
next
  case (run_commit s cs ops r es v f log s' x)
  have v: "v = (if es = [] then s else snd (snd (last es)))"
    using run_commit.hyps(1) contract_txn(2)[OF run_commit.prems(1), of ops s cs] run_commit.prems(2)
    by (auto simp: committed_def well_formed_txn_def split: if_splits)
  have "others e (if log = [] then v else snd (snd (last log))) s'" using run_commit.IH run_commit.prems by auto
  then show ?case using v by (auto split: if_splits)
qed auto

section \<open>Session numbers\<close>

definition sequence_at :: "'s etcd \<Rightarrow> EtcdCoordination \<Rightarrow> 's \<Rightarrow> CoordinationError + u64" where
  "sequence_at e b s = (case etcd_get e s (namespaced_key b INTERNAL_SESSION_SEQUENCE) of None \<Rightarrow> Inr 0 | Some kv \<Rightarrow> parse_sequence (kv_value kv))"

definition sequence_grows :: "'s etcd \<Rightarrow> EtcdCoordination \<Rightarrow> 's \<Rightarrow> 's \<Rightarrow> bool" where
  "sequence_grows e b s s' \<longleftrightarrow> (\<forall>v. sequence_at e b s = Inr v \<longrightarrow> (\<exists>v'. sequence_at e b s' = Inr v' \<and> v \<le> v'))"

lemma others_grow:
  assumes "\<forall>s s'. etcd_other e s s' \<longrightarrow> sequence_grows e b s s'" and "others e s s'"
  shows "sequence_grows e b s s'"
  using assms(2)
proof (induction rule: rtranclp_induct)
  case (step t u)
  then show ?case using assms(1) unfolding sequence_grows_def by (meson order_trans)
qed (simp add: sequence_grows_def)

lemma parse_sequence_text: "0 < v \<Longrightarrow> parse_sequence (session_text (SessionId v)) = Inr v"
  using parse_session_text[of "SessionId v"] by (auto simp: parse_session_def bind_result_Inr)

lemma successor_positive:
  fixes v :: u64
  assumes "v \<noteq> - 1"
  shows "0 < v + 1" and "v < v + 1"
proof -
  have "uint v \<noteq> 2 ^ 64 - 1"
  proof
    assume "uint v = 2 ^ 64 - 1"
    then have "v = word_of_int (2 ^ 64 - 1)" by (metis word_of_int_uint)
    then show False using assms by simp
  qed
  then have "uint v < 2 ^ 64 - 1" using uint_lt2p[of v] by simp
  then have "uint (v + 1) = uint v + 1" by (simp add: uint_word_ariths)
  then show "0 < v + 1" "v < v + 1" by (simp_all add: word_less_def)
qed

definition issues :: "'s etcd \<Rightarrow> EtcdCoordination \<Rightarrow> SessionId \<Rightarrow> 's \<Rightarrow> 's \<Rightarrow> bool" where
  "issues e b session t u \<longleftrightarrow> (\<exists>v. sequence_at e b t = Inr v \<and> v \<noteq> - 1 \<and> session = SessionId (v + 1) \<and> sequence_at e b u = Inr (v + 1))"

lemma allocate_issues:
  assumes "etcd_contract e" and "newer e s t"
    and "(case etcd_get e s (namespaced_key b INTERNAL_SESSION_SEQUENCE) of
        Some kv \<Rightarrow> bind_result (parse_sequence (kv_value kv)) (\<lambda>v. Inr (v, Some (kv_mod_revision kv))) | None \<Rightarrow> Inr (0, None)) = Inr (v, r)"
    and "v \<noteq> - 1"
    and "etcd_txn e t [case r of Some revision \<Rightarrow> CompareModRevision (namespaced_key b INTERNAL_SESSION_SEQUENCE) revision
        | None \<Rightarrow> CompareVersion (namespaced_key b INTERNAL_SESSION_SEQUENCE) 0]
      [PutOp (namespaced_key b INTERNAL_SESSION_SEQUENCE) (session_text (SessionId (v + 1))) None] = (True, u)"
  shows "issues e b (SessionId (v + 1)) t u"
proof -
  let ?k = "namespaced_key b INTERNAL_SESSION_SEQUENCE"
  let ?ops = "[PutOp ?k (session_text (SessionId (v + 1))) None]"
  have d: "distinct (map op_key ?ops)" by simp
  have "sequence_at e b t = Inr v"
  proof (cases "etcd_get e s ?k")
    case None
    then have "v = 0" "etcd_get e t ?k = None" using assms(3) contract_txn(1)[OF assms(1) d assms(5)] version_zero[OF assms(1)] by auto
    then show ?thesis by (simp add: sequence_at_def)
  next
    case (Some kv)
    then have v: "parse_sequence (kv_value kv) = Inr v" "r = Some (kv_mod_revision kv)" using assms(3) by (auto simp: bind_result_Inr)
    have "etcd_get e t ?k = Some kv"
      by (rule record_unchanged[OF assms(1,2) Some]) (use contract_txn(1)[OF assms(1) d assms(5)] v(2) in simp)
    then show ?thesis using v(1) by (simp add: sequence_at_def)
  qed
  moreover have "sequence_at e b u = Inr (v + 1)"
    using contract_txn(3)[OF assms(1) d assms(5)] parse_sequence_text[OF successor_positive(1)[OF assms(4)]]
    by (simp add: sequence_at_def written_def)
  ultimately show ?thesis using assms(4) by (auto simp: issues_def)
qed

text \<open>The result of an allocation and the transactions it applied.\<close>

definition allocated :: "'s etcd \<Rightarrow> EtcdCoordination \<Rightarrow> ('s \<times> TxnOp list \<times> 's) list \<Rightarrow> CoordinationError + SessionId \<Rightarrow> bool" where
  "allocated e b log y \<longleftrightarrow> (\<forall>(t, ops, u) \<in> set log. \<exists>session. issues e b session t u) \<and>
     (\<forall>session. y = Inr session \<longrightarrow> (\<exists>t ops u. log = [(t, ops, u)] \<and> issues e b session t u))"

lemma allocated_Inl [simp]: "allocated e b [] (Inl err)"
  by (simp add: allocated_def)

lemma allocate_loop_runs:
  assumes "etcd_contract e" and "runs e s (allocate_loop n b) log s' y"
  shows "allocated e b log y"
  using assms(2)
proof (induction n arbitrary: s)
  case 0
  then show ?case by (simp add: runs_Return)
next
  case (Suc n)
  let ?k = "namespaced_key b INTERNAL_SESSION_SEQUENCE"
  from Suc.prems[unfolded allocate_loop.simps Let_def] assms(1) show ?case
  proof (cases rule: run_get_then)
    case (response w v h)
    from response(4)[unfolded prod.case] show ?thesis
    proof (cases rule: run_pure_then)
      case (result x)
      obtain old r where x: "x = (old, r)" by (cases x)
      show ?thesis
      proof (cases "old = - 1")
        case False
        let ?cs = "[case r of Some revision \<Rightarrow> CompareModRevision ?k revision | None \<Rightarrow> CompareVersion ?k 0]"
        let ?ops = "[PutOp ?k (session_text (SessionId (old + 1))) None]"
        have d: "distinct (map op_key ?ops)" by simp
        have i: "issues e b (SessionId (old + 1)) t u" if "newer e v t" "etcd_txn e t ?cs ?ops = (True, u)" for t u
          by (rule allocate_issues[OF assms(1) newer_trans[OF response(2) that(1)] result(1)[unfolded x] False that(2)])
        have "runs e v (bind_action (commit ?cs ?ops) (\<lambda>(h, succeeded). if succeeded then Return (Inr (SessionId (old + 1))) else allocate_loop n b)) log s' y"
          using result(2) False by (simp add: x)
        from this assms(1) d show ?thesis
        proof (cases rule: run_commit_then)
          case (lost msg t u)
          then show ?thesis using i by (auto simp: allocated_def)
        next
          case (failed t u h)
          then show ?thesis using Suc.IH by simp
        next
          case (applied t u z h log')
          then show ?thesis using i by (auto simp: allocated_def runs_Return)
        qed simp
      qed (use result(2) x in \<open>simp add: runs_Return\<close>)
    qed simp
  qed simp
qed

lemma allocate_commits: "all_commits well_formed_txn (allocate_loop n b)" and allocate_no_leases: "no_leases (allocate_loop n b)"
proof -
  show "all_commits well_formed_txn (allocate_loop n b)"
    by (induction n) (auto simp: well_formed_txn_def Let_def intro!: all_commits_bind)
  show "no_leases (allocate_loop n b)"
    by (induction n) (auto simp: Let_def intro!: no_leases_bind)
qed

text \<open>C24: Session numbers are issued once. When no other client lowers the session sequence, an
  allocation that returns a session applied exactly one transaction, which advanced the sequence
  by one to the returned number without wrapping around: the number is above every number issued
  before the call, and at the end of the call the sequence has reached it, so that no later
  allocation returns it again.\<close>

theorem session_allocated_once:
  assumes "etcd_contract e" and "\<forall>s s'. etcd_other e s s' \<longrightarrow> sequence_grows e b s s'"
    and "runs e s (etcd_allocate_session b) log s' (Inr session)" and "sequence_at e b s = Inr v"
  shows "(\<exists>t ops u. log = [(t, ops, u)] \<and> issues e b session t u) \<and> v < SessionId_sequence session \<and>
    (\<exists>v'. sequence_at e b s' = Inr v' \<and> SessionId_sequence session \<le> v')"
proof -
  note run = assms(3)[unfolded etcd_allocate_session_def]
  obtain t ops u where log: "log = [(t, ops, u)]" and i: "issues e b session t u"
    using allocate_loop_runs[OF assms(1) run] by (auto simp: allocated_def)
  then obtain w where w: "sequence_at e b t = Inr w" "w \<noteq> - 1" "session = SessionId (w + 1)" "sequence_at e b u = Inr (w + 1)" by (auto simp: issues_def)
  have "others e s t" by (rule first_commit[OF run assms(1) allocate_commits allocate_no_leases log])
  then have "v \<le> w" using others_grow[OF assms(2)] assms(4) w(1) by (fastforce simp: sequence_grows_def)
  then have "v < SessionId_sequence session" using successor_positive(2)[OF w(2)] w(3) by simp
  moreover have "others e u s'" using after_commits[OF run assms(1) allocate_commits allocate_no_leases] by (simp add: log)
  then have "\<exists>v'. sequence_at e b s' = Inr v' \<and> w + 1 \<le> v'" using others_grow[OF assms(2)] w(4) by (auto simp: sequence_grows_def)
  ultimately show ?thesis using log i w(3) by simp
qed

section \<open>Registration\<close>

text \<open>The transaction that starts an incarnation.\<close>

definition registers :: "'s etcd \<Rightarrow> EtcdCoordination \<Rightarrow> InstanceId \<Rightarrow> RegistrationOptions \<Rightarrow> SessionId \<Rightarrow> int \<Rightarrow> 's \<Rightarrow> 's \<Rightarrow> bool" where
  "registers e b i options session lease t u \<longleftrightarrow>
     etcd_get e t (live_key b i) = None \<and>
     (\<exists>kv. etcd_get e u (live_key b i) = Some kv \<and> kv_value kv = session_text session \<and> kv_lease kv = lease) \<and>
     (\<forall>j r p. etcd_get e u (current_state_key b j session r p) \<noteq> etcd_get e t (current_state_key b j session r p) \<longrightarrow>
        j = i \<and> map_option kv_value (etcd_get e u (current_state_key b j session r p)) = Some (State_as_str (registration_initial_state options r)))"

lemma other_keys [simp]:
  "live_key b i \<noteq> session_key b j s" "session_key b j s \<noteq> live_key b i" "live_key b i \<noteq> current_state_key b j s r p" "current_state_key b j s r p \<noteq> live_key b i"
  "session_key b i s \<noteq> current_state_key b j s' r p" "current_state_key b j s' r p \<noteq> session_key b i s" "session_key b i s \<noteq> metadata_key b k" "metadata_key b k \<noteq> session_key b i s"
  by (simp_all add: live_key_def session_key_def current_state_key_def metadata_key_def namespaced_key_def)

lemma carried_keys:
  assumes "map_result (carried_record b i session options) kvs = Inr records" and "(key, state) \<in> set records"
  shows "\<exists>r p. key = current_state_key b i session r p \<and> state = registration_initial_state options r"
proof -
  from assms(1) have "list_all2 (\<lambda>kv x. carried_record b i session options kv = Inr x) kvs records" by (simp add: map_result_Inr)
  with assms(2) obtain kv where "carried_record b i session options kv = Inr (key, state)" by (auto simp: list_all2_conv_all_nth in_set_conv_nth)
  then show ?thesis by (auto simp: carried_record_def bind_result_Inr)
qed

lemma registration_applied:
  assumes "etcd_contract e" and "\<And>key state. (key, state) \<in> set records \<Longrightarrow> \<exists>r p. key = current_state_key b i session r p \<and> state = registration_initial_state options r"
    and "etcd_txn e t [CompareVersion (live_key b i) 0] (register_operations b i session lease records) = (True, u)"
  shows "registers e b i options session lease t u"
proof -
  let ?ops = "register_operations b i session lease records"
  have "filter is_put ?ops = ?ops"
    by (auto simp: register_operations_def is_put_def authoritative_input_marker_operation_def intro!: filter_True)
  then have d: "distinct (map op_key ?ops)" using contract_duplicate[OF assms(1,3)] by simp
  have get: "etcd_get e u = written (etcd_revision e t + 1) ?ops (etcd_get e t)" using contract_txn(3)[OF assms(1) d assms(3)] by simp
  have "etcd_get e t (live_key b i) = None" using contract_txn(1)[OF assms(1) d assms(3)] version_zero[OF assms(1)] by simp
  moreover have "\<exists>kv. etcd_get e u (live_key b i) = Some kv \<and> kv_value kv = session_text session \<and> kv_lease kv = lease"
    by (simp add: get written_def register_operations_def)
  moreover have "j = i \<and> map_option kv_value (etcd_get e u (current_state_key b j session r p)) = Some (State_as_str (registration_initial_state options r))"
    if changed: "etcd_get e u (current_state_key b j session r p) \<noteq> etcd_get e t (current_state_key b j session r p)" for j r p
  proof -
    let ?k = "current_state_key b j session r p"
    obtain op where op: "find (\<lambda>op. op_key op = ?k) ?ops = Some op"
      using changed by (cases "find (\<lambda>op. op_key op = ?k) ?ops") (simp_all add: get written_def)
    then have "op \<in> set ?ops" "op_key op = ?k" by (auto simp: find_Some_iff)
    then obtain key state where rec: "(key, state) \<in> set records" "op = PutOp key (State_as_str state) None" "key = ?k"
      by (auto simp: register_operations_def authoritative_input_marker_operation_def)
    from assms(2)[OF rec(1)] rec(3) have "j = i" "state = registration_initial_state options r" by (auto simp: current_state_key_inject)
    then show ?thesis using op rec(2) by (simp add: get written_def)
  qed
  ultimately show ?thesis by (simp add: registers_def)
qed

lemma run_bind_Inr_pair:
  assumes "runs e s (bind_action p f) log s' (Inr y)" and "all_commits (\<lambda>_ _. False) p"
  obtains t x where "runs e s p [] t (Inr x)" "runs e t (f x) log s' (Inr y)"
proof (rule run_bind_Inr[OF assms(1)])
  fix l1 t x l2
  assume "runs e s p l1 t (Inr x)" "runs e t (f x) l2 s' (Inr y)" "log = l1 @ l2"
  then show ?thesis using silent_log[OF _ assms(2)] that by fastforce
qed

lemma registration_silent [simp]:
  "all_commits P (latest_session b i)" "all_commits P (carried_state b i prev session options)" "all_commits P (raw_snapshot_prefix k)"
proof -
  show r: "all_commits P (raw_snapshot_prefix k)" for k
    by (auto simp: raw_snapshot_prefix_def intro!: all_commits_bind)
  show "all_commits P (latest_session b i)" "all_commits P (carried_state b i prev session options)"
    using r by (auto simp: latest_session_def carried_state_def intro!: all_commits_bind split: option.splits)
qed

lemma carried_state_records:
  assumes "runs e s (carried_state b i prev session options) log s' (Inr records)" and "(key, state) \<in> set records"
  shows "\<exists>r p. key = current_state_key b i session r p \<and> state = registration_initial_state options r"
proof (cases prev)
  case (Some previous)
  from assms(1)[unfolded carried_state_def Some option.case] obtain kvs where "map_result (carried_record b i session options) kvs = Inr records"
    by (rule run_bind_Inr) (auto simp: runs_Return)
  then show ?thesis using assms(2) by (rule carried_keys)
qed (use assms in \<open>simp add: carried_state_def runs_Return\<close>)

lemma commit_registration_runs:
  assumes "etcd_contract e" and "runs e s (commit_registration b i session lease records) log s' (Inr reg)"
    and "\<And>key state. (key, state) \<in> set records \<Longrightarrow> \<exists>r p. key = current_state_key b i session r p \<and> state = registration_initial_state options r"
  shows "\<exists>t ops u. log = [(t, ops, u)] \<and> newer e s t \<and> registers e b i options session lease t u \<and> registered_instance reg = i \<and>
    registered_session reg = session \<and> registered_lease reg = lease \<and> revision_value (registration_revision reg) = etcd_revision e u"
  using assms(2)[unfolded commit_registration_def]
proof (rule run_bind_Inr)
  fix l1 t x l2
  assume c: "runs e s (commit [CompareVersion (live_key b i) 0] (register_operations b i session lease records)) l1 t (Inr x)" "log = l1 @ l2"
    "runs e t (case x of (h, succeeded) \<Rightarrow> if \<not> succeeded then bind_action (revoke_lease lease) (\<lambda>_. Return (Inl RegistrationLost))
     else bind_action (Return (revision_from_header h)) (\<lambda>revision. Return (Inr \<lparr>registered_instance = i, registered_session = session,
       registered_lease = lease, registration_revision = revision\<rparr>))) l2 s' (Inr reg)"
  obtain h succeeded where x: "x = (h, succeeded)" by (cases x)
  have succeeded using c(3) by (auto simp: x runs_bind_action runs_Return split: if_splits)
  with c(1) x obtain w u where w: "others e s w" "etcd_txn e w [CompareVersion (live_key b i) 0] (register_operations b i session lease records) = (True, u)"
    "header e u h" "l1 = [(w, register_operations b i session lease records, u)]"
    by (auto simp: runs_commit committed_def)
  have "l2 = [] \<and> reg = \<lparr>registered_instance = i, registered_session = session, registered_lease = lease, registration_revision = Revision (etcd_revision e u)\<rparr>"
    using c(3) w(3) \<open>succeeded\<close> by (auto simp: x runs_bind_pure runs_Return revision_from_header_Inr header_def split: sum.splits)
  then show ?thesis using c(2) w others_newer[OF assms(1) w(1)] registration_applied[OF assms(1,3) w(2)] by auto
qed

lemma register_runs:
  assumes "etcd_contract e" and "runs e s (register b i options) log s' (Inr reg)"
  shows "\<exists>t1 o1 u1 t2 o2 u2. log = [(t1, o1, u1), (t2, o2, u2)] \<and> issues e b (registered_session reg) t1 u1 \<and>
    registers e b i options (registered_session reg) (registered_lease reg) t2 u2 \<and> registered_instance reg = i \<and>
    revision_value (registration_revision reg) = etcd_revision e u2"
proof -
  from assms(2)[unfolded register_def] obtain prev s1 where "runs e s1 (bind_action (etcd_allocate_session b) (\<lambda>session.
     bind_action (carried_state b i prev session options) (\<lambda>records.
     bind_action (grant_lease (ttl_seconds options)) (\<lambda>lease. commit_registration b i session lease records)))) log s' (Inr reg)"
    by (rule run_bind_Inr_pair) simp
  then obtain l1 s2 session l2 where a: "runs e s1 (etcd_allocate_session b) l1 s2 (Inr session)" "log = l1 @ l2"
    and r: "runs e s2 (bind_action (carried_state b i prev session options) (\<lambda>records.
     bind_action (grant_lease (ttl_seconds options)) (\<lambda>lease. commit_registration b i session lease records))) l2 s' (Inr reg)"
    by (rule run_bind_Inr)
  from r obtain s3 records where c: "runs e s2 (carried_state b i prev session options) [] s3 (Inr records)"
    and r': "runs e s3 (bind_action (grant_lease (ttl_seconds options)) (\<lambda>lease. commit_registration b i session lease records)) l2 s' (Inr reg)"
    by (rule run_bind_Inr_pair) simp
  from r' obtain s4 lease where "runs e s4 (commit_registration b i session lease records) l2 s' (Inr reg)" by (rule run_bind_Inr_pair) simp
  from commit_registration_runs[OF assms(1) this carried_state_records[OF c]] a(2)
    allocate_loop_runs[OF assms(1) a(1)[unfolded etcd_allocate_session_def]] show ?thesis by (auto simp: allocated_def)
qed

lemma register_puts [simp]: "list_all is_put (register_operations b i session lease records)"
  by (auto simp: list_all_iff register_operations_def is_put_def authoritative_input_marker_operation_def)

lemma register_commits:
  "all_commits (\<lambda>cs ops. (\<exists>op \<in> set ops. op_key op = live_key b i) \<longrightarrow> CompareVersion (live_key b i) 0 \<in> set cs \<and> list_all is_put ops) (register b i options)"
proof -
  have "namespaced_key b INTERNAL_SESSION_SEQUENCE \<noteq> live_key b i" by (simp add: live_key_def INTERNAL_SESSION_SEQUENCE_def)
  then have a: "all_commits (\<lambda>cs ops. (\<exists>op \<in> set ops. op_key op = live_key b i) \<longrightarrow> CompareVersion (live_key b i) 0 \<in> set cs \<and> list_all is_put ops) (allocate_loop n b)" for n
    by (induction n) (auto simp: Let_def intro!: all_commits_bind)
  show ?thesis unfolding register_def etcd_allocate_session_def commit_registration_def
    by (auto intro!: all_commits_bind a)
qed

text \<open>C15: Registration starts a fresh incarnation and never replaces a live one. Whatever happens
  to its requests, it writes the live record of an instance only when there is none. When it
  succeeds, it applied exactly two transactions: one issued the next session number, the other
  put the live record with that number under the granted lease and wrote, under the new session,
  initial states only, so that no state of an earlier incarnation is carried over.\<close>

theorem registration_starts_incarnation:
  assumes "etcd_contract e" and "runs e s (register b i options) log s' y"
  shows "(\<forall>(t, ops, u) \<in> set log. (\<exists>op \<in> set ops. op_key op = live_key b i) \<longrightarrow> etcd_get e t (live_key b i) = None) \<and>
    (\<forall>reg. y = Inr reg \<longrightarrow> (\<exists>t1 o1 u1 t2 o2 u2. log = [(t1, o1, u1), (t2, o2, u2)] \<and> issues e b (registered_session reg) t1 u1 \<and>
       registers e b i options (registered_session reg) (registered_lease reg) t2 u2 \<and> registered_instance reg = i \<and>
       revision_value (registration_revision reg) = etcd_revision e u2))"
proof (intro conjI allI impI)
  have "etcd_get e t (live_key b i) = None" if "etcd_txn e t cs ops = (True, u)" "CompareVersion (live_key b i) 0 \<in> set cs" "list_all is_put ops" for t cs ops u
  proof -
    have "filter is_put ops = ops" using that(3) by (simp add: list_all_iff)
    then have d: "distinct (map op_key ops)" using contract_duplicate[OF assms(1) that(1)] by simp
    show ?thesis using contract_txn(1)[OF assms(1) d that(1)] that(2) version_zero[OF assms(1)] by blast
  qed
  then show "\<forall>(t, ops, u) \<in> set log. (\<exists>op \<in> set ops. op_key op = live_key b i) \<longrightarrow> etcd_get e t (live_key b i) = None"
    using runs_log[OF assms(2) register_commits] by blast
qed (use register_runs[OF assms(1)] assms(2) in blast)

section \<open>Publication\<close>

definition publishes_states :: "'s etcd \<Rightarrow> EtcdCoordination \<Rightarrow> InstanceId \<Rightarrow> SessionId \<Rightarrow> ResourceId \<Rightarrow> (PartitionId, State) btree \<Rightarrow> 's \<Rightarrow> 's \<Rightarrow> bool" where
  "publishes_states e b i session r states t u \<longleftrightarrow> is_live e b i session t \<and>
     (\<forall>p state. bt_get states p = Some state \<longrightarrow> map_option kv_value (etcd_get e u (current_state_key b i session r p)) = Some (State_as_str state)) \<and>
     (\<forall>k. k \<noteq> metadata_key b AUTHORITATIVE_INPUT_MARKER \<longrightarrow> (\<forall>p \<in> set (bt_keys states). k \<noteq> current_state_key b i session r p) \<longrightarrow>
        etcd_get e u k = etcd_get e t k)"

lemma state_ops_distinct: "distinct (map op_key (state_operations b i session r states))"
proof -
  have "map op_key (state_operations b i session r states) = map (current_state_key b i session r) (bt_keys states) @ [metadata_key b AUTHORITATIVE_INPUT_MARKER]"
    by (simp add: state_operations_def authoritative_input_marker_operation_def bt_keys_def case_prod_beta)
  then show ?thesis by (auto simp: distinct_map inj_on_def current_state_key_inject)
qed

lemma written_find_put:
  assumes "distinct (map op_key ops)" and "PutOp k v lease \<in> set ops"
  shows "find (\<lambda>op. op_key op = k) ops = Some (PutOp k v lease)"
proof -
  obtain op where f: "find (\<lambda>op. op_key op = k) ops = Some op" using assms(2) by (cases "find (\<lambda>op. op_key op = k) ops") (auto simp: find_None_iff)
  then have "op \<in> set ops" "op_key op = k" by (auto simp: find_Some_iff)
  then have "op = PutOp k v lease" using assms by (metis TxnOp.sel(1) distinct_map inj_onD)
  with f show ?thesis by simp
qed

lemma written_put:
  assumes "distinct (map op_key ops)" and "PutOp k v lease \<in> set ops"
  shows "map_option kv_value (written n ops get k) = Some v" and "map_option kv_mod_revision (written n ops get k) = Some n"
  using written_find_put[OF assms] by (simp_all add: written_def)

lemma written_other: "k \<notin> op_key ` set ops \<Longrightarrow> written n ops get k = get k"
  by (cases "find (\<lambda>op. op_key op = k) ops") (auto simp: written_def find_Some_iff)

lemma states_published:
  assumes "etcd_contract e" and "etcd_txn e t [CompareValue (live_key b i) (session_text session)] (state_operations b i session r states) = (True, u)"
  shows "publishes_states e b i session r states t u"
proof -
  note txn = contract_txn[OF assms(1) state_ops_distinct assms(2)]
  have "is_live e b i session t" using txn(1) by (simp add: is_live_def compare_simps)
  moreover have "map_option kv_value (etcd_get e u (current_state_key b i session r p)) = Some (State_as_str state)" if "bt_get states p = Some state" for p state
  proof -
    have "PutOp (current_state_key b i session r p) (State_as_str state) None \<in> set (state_operations b i session r states)"
      using that by (force simp: state_operations_def bt_entries_iff)
    then show ?thesis using txn(3) written_put(1)[OF state_ops_distinct] by simp
  qed
  moreover have "etcd_get e u k = etcd_get e t k"
    if "k \<noteq> metadata_key b AUTHORITATIVE_INPUT_MARKER" "\<forall>p \<in> set (bt_keys states). k \<noteq> current_state_key b i session r p" for k
  proof -
    have "k \<notin> op_key ` set (state_operations b i session r states)"
      using that by (auto simp: state_operations_def authoritative_input_marker_operation_def bt_keys_def)
    then show ?thesis using txn(3) written_other by simp
  qed
  ultimately show ?thesis unfolding publishes_states_def by blast
qed

text \<open>Publishing current states is fenced by the session. A publication takes effect only while
  the session is the live one of the instance, writes exactly the given states of that session,
  and reports the revision of its transaction; a publication refused as stale changed nothing and
  met a moment at which the session was not live.\<close>

lemma state_publication_fenced:
  assumes "etcd_contract e" and "runs e s (etcd_publish_current_state b i session r states) log s' y"
  shows "(\<forall>(t, ops, u) \<in> set log. publishes_states e b i session r states t u) \<and> reported e log y \<and>
    (y = Inl (StaleSession i) \<longrightarrow> (\<exists>t. newer e s t \<and> \<not> is_live e b i session t))"
  using assms(2)[unfolded etcd_publish_current_state_def] assms(1) state_ops_distinct
proof (cases rule: run_commit_then)
  case (lost msg t u)
  then show ?thesis using states_published[OF assms(1) lost(3)] by (simp add: reported_def is_transient_def)
next
  case (failed t u h)
  have "\<not> is_live e b i session t" using failed(2) by (auto simp: is_live_def compare_simps)
  then show ?thesis using failed(1,5) by (auto simp: runs_Return)
next
  case (applied t u w h log')
  have y: "log' = []" "y = revision_from_header h" using applied(5) by (simp_all add: runs_Return)
  have "y \<noteq> Inl (StaleSession i)" unfolding y by (auto simp: revision_from_header_def Revision_new_def split: option.splits)
  then show ?thesis using applied(6) y states_published[OF assms(1) applied(2)] reported_header[OF applied(4) contract_revision[OF assms(1)]] by simp
qed simp

section \<open>Examples\<close>

text \<open>Instance \<open>a\<close> was last registered under session 1 and held a leader replica.\<close>

definition demo_restart_store :: mem_store where
  "demo_restart_store = mem_of
     [(namespaced_key demo_backend INTERNAL_SESSION_SEQUENCE, ''1'', 0), (session_key demo_backend (InstanceId ''a'') (SessionId 1), ''active'', 0),
      (current_state_key demo_backend (InstanceId ''a'') (SessionId 1) (ResourceId ''r'') (PartitionId ''p''), ''LEADER'', 0)]"

definition demo_options :: RegistrationOptions where
  "demo_options = \<lparr>lease_ttl = (5, 0), default_initial_state = State ''OFFLINE'', resource_initial_states = bt_empty\<rparr>"

theorem session_allocated_once_witness:
  "\<exists>t u s' v'. issues mem_etcd demo_backend (SessionId 1) t u \<and> sequence_at mem_etcd demo_backend s' = Inr v' \<and> 1 \<le> v'"
proof -
  let ?e = "mem_with (sequence_grows mem_etcd demo_backend)"
  let ?run = "mem_run (etcd_allocate_session demo_backend) (mem_of [])"
  have y: "snd (snd ?run) = Inr (SessionId 1)" by code_simp
  have v: "sequence_at ?e demo_backend (mem_of []) = Inr 0" unfolding sequence_at_def mem_with_simps by (simp add: mem_etcd_def mem_of_def mem_records_def bt_collect_def)
  have o: "\<forall>s s'. etcd_other ?e s s' \<longrightarrow> sequence_grows ?e demo_backend s s'"
    by (simp add: sequence_grows_def sequence_at_def) (simp add: mem_with_def sequence_grows_def sequence_at_def)
  have "runs ?e (mem_of []) (etcd_allocate_session demo_backend) (fst ?run) (fst (snd ?run)) (Inr (SessionId 1))"
    by (rule mem_run_runs) (simp add: prod_eq_iff y)
  from session_allocated_once[OF mem_with_contract o this v]
  obtain t u v' where "issues ?e demo_backend (SessionId 1) t u" "sequence_at ?e demo_backend (fst (snd ?run)) = Inr v'" "SessionId_sequence (SessionId 1) \<le> v'"
    by (elim exE conjE)
  then show ?thesis by (intro exI[of _ t] exI[of _ u] exI[of _ "fst (snd ?run)"] exI[of _ v']) (simp add: issues_def sequence_at_def)
qed

theorem registration_starts_incarnation_witness:
  "\<exists>t u. registers mem_etcd demo_backend (InstanceId ''a'') demo_options (SessionId 2) 1 t u"
proof -
  let ?p = "register demo_backend (InstanceId ''a'') demo_options"
  let ?run = "mem_run ?p demo_restart_store"
  let ?reg = "\<lparr>registered_instance = InstanceId ''a'', registered_session = SessionId 2, registered_lease = 1, registration_revision = Revision 6\<rparr>"
  have y: "snd (snd ?run) = Inr ?reg" by code_simp
  have "runs mem_etcd demo_restart_store ?p (fst ?run) (fst (snd ?run)) (snd (snd ?run))" by (rule mem_run_mem) simp
  from conjunct2[OF registration_starts_incarnation[OF mem_contract this], rule_format, OF y] show ?thesis
    by (elim exE conjE) (rule exI, rule exI, simp)
qed

end
