(* ===== verification/Etcd_Discipline.thy ===== *)
theory Etcd_Discipline
  imports Etcd_Sessions_Laws
begin

text \<open>
  The discipline that the fence of the controller relies on: every operation of the backend that
  changes an authoritative input stamps the input marker in the same transaction.
\<close>

section \<open>Input keys\<close>

lemma input_key_namespaced:
  "is_input_key b (namespaced_key b relative) =
     is_authoritative_key relative (case strip_prefix ''metadata/'' relative of None \<Rightarrow> None | Some encoded \<Rightarrow> ok (decode_segment encoded))"
  by (simp add: is_input_key_def namespaced_key_def strip_prefix_Some[of "namespace_prefix b @ ''/''", THEN iffD2])

lemma input_key_metadata:
  assumes "valid_utf8 key"
  shows "is_input_key b (metadata_key b key) \<longleftrightarrow> key = AUTHORITATIVE_INPUT_MARKER \<or> is_authoritative_metadata_key key"
proof -
  have "strip_prefix ''metadata/'' (''metadata/'' @ encode_segment key) = Some (encode_segment key)" by (rule strip_prefix_append)
  moreover have "ok (decode_segment (encode_segment key)) = Some key" using assms by (simp add: decode_encode ok_def)
  ultimately show ?thesis unfolding metadata_key_def input_key_namespaced
    by (auto simp: is_authoritative_key_def is_authoritative_metadata_key_def Let_def starts_with_def INTERNAL_SESSION_SEQUENCE_def AUTHORITATIVE_INPUT_MARKER_def)
qed

lemma not_input_keys [simp]:
  "\<not> is_input_key b (namespaced_key b INTERNAL_SESSION_SEQUENCE)" "\<not> is_input_key b (controller_active_key b)"
  "\<not> is_input_key b (controller_candidate_key b c)"
  by (simp_all add: controller_active_key_def controller_candidate_key_def input_key_namespaced is_authoritative_key_def Let_def starts_with_def)

lemma output_not_input [simp]:
  "\<not> is_input_key b (metadata_key b ''controller/output/external-view'')" "\<not> is_input_key b (metadata_key b PENDING_TRANSITIONS_KEY)"
  "\<not> is_input_key b (processed_key b)"
proof -
  have v: "valid_utf8 ''controller/output/external-view''" "valid_utf8 PENDING_TRANSITIONS_KEY" "valid_utf8 ''controller/output/processed-revision''" by code_simp+
  show "\<not> is_input_key b (metadata_key b ''controller/output/external-view'')" "\<not> is_input_key b (metadata_key b PENDING_TRANSITIONS_KEY)"
    "\<not> is_input_key b (processed_key b)"
    unfolding processed_key_def using v[THEN input_key_metadata, of b]
    by (simp_all add: is_authoritative_metadata_key_def starts_with_def AUTHORITATIVE_INPUT_MARKER_def PENDING_TRANSITIONS_KEY_def)
qed

section \<open>Proper transactions\<close>

definition proper :: "EtcdCoordination \<Rightarrow> Compare list \<Rightarrow> TxnOp list \<Rightarrow> bool" where
  "proper b cs ops \<longleftrightarrow> (distinct (map op_key ops) \<or> list_all is_put ops) \<and>
     (authoritative_input_marker_operation b \<in> set ops \<or> (\<forall>op \<in> set ops. \<not> is_input_key b (op_key op)))"

text \<open>A transaction that changes any input, by a write or a deletion, stamps the marker with its own
  revision. Unlike \<open>input_step\<close>, which describes what happens to the store around the program, this
  makes no exception for live records.\<close>

definition stamped_step :: "'s etcd \<Rightarrow> EtcdCoordination \<Rightarrow> 's \<Rightarrow> 's \<Rightarrow> bool" where
  "stamped_step e b t u \<longleftrightarrow> (\<forall>k. is_input_key b k \<and> etcd_get e u k \<noteq> etcd_get e t k \<longrightarrow>
     map_option kv_mod_revision (etcd_get e u (metadata_key b AUTHORITATIVE_INPUT_MARKER)) = Some (etcd_revision e t + 1))"

lemma stamped_input_step: "stamped_step e b t u \<Longrightarrow> input_step e b t u"
  unfolding stamped_step_def input_step_def by fastforce

lemma proper_stamped_step:
  assumes "etcd_contract e" and "proper b cs ops" and "etcd_txn e t cs ops = (True, u)"
  shows "stamped_step e b t u"
proof -
  have d: "distinct (map op_key ops)"
    using assms(2) contract_duplicate[OF assms(1,3)] by (auto simp: proper_def list_all_iff)
  have get: "etcd_get e u = written (etcd_revision e t + 1) ops (etcd_get e t)" using contract_txn(3)[OF assms(1) d assms(3)] by simp
  show ?thesis
  proof (cases "authoritative_input_marker_operation b \<in> set ops")
    case True
    have "map_option kv_mod_revision (etcd_get e u (metadata_key b AUTHORITATIVE_INPUT_MARKER)) = Some (etcd_revision e t + 1)"
      using written_put(2)[OF d True[unfolded authoritative_input_marker_operation_def]] by (simp add: get)
    then show ?thesis by (auto simp: stamped_step_def)
  next
    case False
    then have "etcd_get e u k = etcd_get e t k" if "is_input_key b k" for k
      using that assms(2) by (auto simp: get proper_def intro!: written_other)
    then show ?thesis by (auto simp: stamped_step_def)
  qed
qed

definition stamps_inputs :: "'s etcd \<Rightarrow> EtcdCoordination \<Rightarrow> 'a client \<Rightarrow> bool" where
  "stamps_inputs e b p \<longleftrightarrow> (\<forall>s log s' y. runs e s p log s' y \<longrightarrow> (\<forall>(t, ops, u) \<in> set log. stamped_step e b t u))"

lemma stampsI: "etcd_contract e \<Longrightarrow> all_commits (proper b) p \<Longrightarrow> stamps_inputs e b p"
  unfolding stamps_inputs_def by (auto dest!: runs_log[of e _ p _ _ _ "proper b"] intro: proper_stamped_step)

lemma marker_proper:
  assumes "distinct (map op_key (ops @ [authoritative_input_marker_operation b])) \<or> list_all is_put (ops @ [authoritative_input_marker_operation b])"
  shows "proper b cs (ops @ [authoritative_input_marker_operation b])"
  using assms by (simp add: proper_def)

lemma proper_nil [simp]: "proper b cs []"
  by (simp add: proper_def)

lemma proper_quiet: "\<not> is_input_key b (op_key op) \<Longrightarrow> proper b cs [op]"
  by (simp add: proper_def)

lemma proper_metadata:
  assumes "valid_utf8 key" and "op_key op = metadata_key b key" and "key = AUTHORITATIVE_INPUT_MARKER \<Longrightarrow> op = authoritative_input_marker_operation b"
  shows "proper b cs (with_input_marker b key op)"
proof (cases "is_authoritative_metadata_key key")
  case True
  then have "key \<noteq> AUTHORITATIVE_INPUT_MARKER" by (simp add: is_authoritative_metadata_key_def)
  then show ?thesis using True assms(2) by (simp add: with_input_marker_def proper_def authoritative_input_marker_operation_def)
next
  case False
  then show ?thesis using assms input_key_metadata[OF assms(1)] by (auto simp: with_input_marker_def proper_def)
qed

section \<open>The operations of the backend\<close>

lemma reads_proper [simp]:
  "all_commits P (raw_snapshot k)" "all_commits P (metadata_get b key)" "all_commits P (controller_snapshot b)"
  by (auto simp: raw_snapshot_def metadata_get_def controller_snapshot_def intro!: all_commits_bind split: option.splits)

lemma metadata_proper:
  assumes "valid_utf8 key" and "key \<noteq> AUTHORITATIVE_INPUT_MARKER"
  shows "all_commits (proper b) (metadata_put b key v lease)" and "all_commits (proper b) (compare_and_put b key expected v)"
    and "all_commits (proper b) (compare_and_put_if_live_absent b key expected i v)"
    and "all_commits (proper b) (compare_and_delete b key expected)" and "all_commits (proper b) (compare_and_put_absent b key v)"
    and "all_commits (proper b) (put_controller_owned b authority key v)"
  using assms
  by (auto simp: metadata_put_def compare_and_put_def compare_and_put_if_live_absent_def compare_and_delete_def compare_and_put_absent_def
      put_controller_owned_def intro!: all_commits_bind proper_metadata)

lemma initialize_proper: "all_commits (proper b) (initialize_authoritative_input_marker b)"
proof -
  have "valid_utf8 AUTHORITATIVE_INPUT_MARKER" by code_simp
  then show ?thesis
    by (auto simp: initialize_authoritative_input_marker_def compare_and_put_absent_def authoritative_input_marker_operation_def
        intro!: all_commits_bind proper_metadata)
qed

lemma advance_proper:
  assumes "valid_utf8 key" and "key \<noteq> AUTHORITATIVE_INPUT_MARKER"
  shows "all_commits (proper b) (advance_metadata_revision b key revision)"
proof -
  have "all_commits (proper b) (advance_loop n b key revision)" for n
    by (induction n) (auto intro!: all_commits_bind metadata_proper[OF assms] split: option.splits)
  then show ?thesis by (simp add: advance_metadata_revision_def)
qed

lemma publish_proper: "all_commits (proper b) (publish_controller_outputs_with_fence b fence ev pt r)"
proof -
  have "proper b cs (publish_operations b fence ev pt)" for cs
    using publish_ops_distinct[of b fence ev pt] output_not_input[of b] by (simp add: proper_def publish_operations_def PENDING_TRANSITIONS_KEY_def)
  then show ?thesis by (auto simp: publish_controller_outputs_with_fence_def intro: publish_commits)
qed

lemma lease_expiry_proper: "all_commits (proper b) (record_lease_expiry b authority event)"
proof -
  have "all_commits (proper b) (lease_expiry_loop n b authority event)" for n
    by (induction n) (auto simp: proper_def intro!: all_commits_bind split: option.splits)
  then show ?thesis by (simp add: record_lease_expiry_def)
qed

lemma queue_valid: "valid_utf8 PENDING_TRANSITIONS_KEY" "PENDING_TRANSITIONS_KEY \<noteq> AUTHORITATIVE_INPUT_MARKER"
proof -
  show "valid_utf8 PENDING_TRANSITIONS_KEY" by code_simp
qed simp

lemma queue_proper:
  "all_commits (proper b) (inject_pending_transition codec b message)" "all_commits (proper b) (claim_pending_transition codec b i session message)"
  "all_commits (proper b) (remove_pending_transition codec b expected mid)" "all_commits (proper b) (remove_pending_transitions_for_resource codec b r)"
  "all_commits (proper b) (complete_pending_transition_with_fence codec b fence message st)"
proof -
  note m = metadata_proper[OF queue_valid]
  have i: "all_commits (proper b) (inject_loop n codec b message)" for n
    by (induction n) (auto intro!: all_commits_bind m split: option.splits)
  have c: "all_commits (proper b) (claim_loop n codec b i session message)" for n
    by (rule all_commits_mono[OF claim_silent]) simp
  have r: "all_commits (proper b) (remove_resource_loop n codec b r)" for n
    by (induction n) (auto simp: Let_def intro!: all_commits_bind m split: option.splits)
  show "all_commits (proper b) (inject_pending_transition codec b message)" "all_commits (proper b) (claim_pending_transition codec b i session message)"
    "all_commits (proper b) (remove_pending_transitions_for_resource codec b r)"
    using i c r by (simp_all add: inject_pending_transition_def claim_pending_transition_def remove_pending_transitions_for_resource_def)
  show "all_commits (proper b) (remove_pending_transition codec b expected mid)"
    by (auto simp: remove_pending_transition_def Let_def intro!: all_commits_bind m split: option.splits)
  have "all_commits (proper b) (clean_up_lost_session codec b fence)"
    by (auto simp: clean_up_lost_session_def Let_def intro!: all_commits_bind m split: option.splits)
  moreover have "proper b cs (completion_operations b fence r p st v)" for cs r p v
    using completion_ops_distinct[of b fence r p st v] by (simp add: proper_def completion_operations_def)
  ultimately show "all_commits (proper b) (complete_pending_transition_with_fence codec b fence message st)"
    by (auto simp: complete_pending_transition_with_fence_def intro!: all_commits_bind split: option.splits)
qed

lemma session_proper:
  "all_commits (proper b) (etcd_publish_current_state b i session r states)" "all_commits (proper b) (etcd_inject_session_current_state b i session r states)"
  "all_commits (proper b) (register b i options)" "all_commits (proper b) (revoke_live b i session)"
proof -
  have s: "proper b cs (state_operations b i session r states)" for cs
    using state_ops_distinct[of b i session r states] by (simp add: proper_def state_operations_def)
  then show "all_commits (proper b) (etcd_publish_current_state b i session r states)" "all_commits (proper b) (etcd_inject_session_current_state b i session r states)"
    by (auto simp: etcd_publish_current_state_def etcd_inject_session_current_state_def intro!: all_commits_bind)
  have a: "all_commits (proper b) (allocate_loop n b)" for n
    by (induction n) (auto simp: Let_def intro!: all_commits_bind proper_quiet)
  have r: "proper b cs (register_operations b i session lease records)" for cs session lease records
    using register_puts[of b i session lease records] unfolding proper_def by (auto simp: register_operations_def)
  show "all_commits (proper b) (register b i options)"
    unfolding register_def etcd_allocate_session_def commit_registration_def by (auto intro!: all_commits_bind a r)
  show "all_commits (proper b) (revoke_live b i session)"
    by (auto simp: revoke_live_def proper_def authoritative_input_marker_operation_def intro!: all_commits_bind split: option.splits)
qed

lemma election_records_proper [simp]: "proper b cs [PutOp (controller_active_key b) v l]" "proper b cs [PutOp (controller_candidate_key b c) v l]"
  by (simp_all add: proper_quiet)

lemma election_proper: "all_commits (proper b) (acquire_until b config signals)" "all_commits (proper b) (relinquish b authority)"
proof -
  have "all_commits (proper b) (acquire_from b config p signals)" for p
    by (induction b config p signals rule: acquire_from.induct)
      (auto simp: registration_txn_def give_up_def give_up_checked_def wait_campaigning_def Let_def split: sum.splits wake.splits option.splits)
  then show "all_commits (proper b) (acquire_until b config signals)" by (simp add: acquire_until_def)
  show "all_commits (proper b) (relinquish b authority)"
    by (rule all_commits_mono[OF relinquish_commits]) (auto simp: election_keys_def intro!: proper_quiet)
qed

text \<open>Batched deletion: the keys of a range response are distinct, so those of a batch are.\<close>

lemma chunks_distinct: "distinct xs \<Longrightarrow> chunk \<in> set (chunks n xs) \<Longrightarrow> distinct chunk \<and> set chunk \<subseteq> set xs"
proof (induction n xs rule: chunks.induct)
  case (2 n x xs)
  have d: "distinct (drop (n - 1) xs)" "distinct (x # take (n - 1) xs)"
    using 2(2) in_set_takeD[of x "n - 1" xs] by (simp_all only: distinct.simps distinct_drop distinct_take) blast
  show ?case
  proof (cases "chunk = x # take (n - 1) xs")
    case True
    then show ?thesis using d(2) set_take_subset[of "n - 1" xs] by auto
  next
    case False
    then have "chunk \<in> set (chunks n (drop (n - 1) xs))" using 2(3) by simp
    from 2(1)[OF d(1) this] show ?thesis using set_drop_subset[of "n - 1" xs] by auto
  qed
qed simp

lemma delete_batches_proper:
  assumes "\<forall>chunk \<in> set batches. distinct chunk \<and> metadata_key b AUTHORITATIVE_INPUT_MARKER \<notin> set chunk"
  shows "all_commits (proper b) (delete_batches b batches revision)"
  using assms
proof (induction batches arbitrary: revision)
  case (Cons chunk rest)
  then have rest: "all_commits (proper b) (delete_batches b rest r)" for r by simp
  have "distinct chunk" "metadata_key b AUTHORITATIVE_INPUT_MARKER \<notin> set chunk" using Cons.prems by auto
  then have "distinct (map op_key (map DeleteOp chunk @ [authoritative_input_marker_operation b]))"
    by (simp add: authoritative_input_marker_operation_def comp_def)
  then have "proper b cs (map DeleteOp chunk @ [authoritative_input_marker_operation b])" for cs by (intro marker_proper disjI1)
  then show ?case using rest by (auto intro!: all_commits_bind)
qed simp

lemma resource_state_key_Some: "resource_state_key b r kv = Some key \<Longrightarrow> key = kv_key kv \<and> key \<noteq> metadata_key b AUTHORITATIVE_INPUT_MARKER"
proof -
  assume *: "resource_state_key b r kv = Some key"
  then obtain relative where rel: "parse_relative_key b (kv_key kv) = Inr relative" by (auto simp: resource_state_key_def ok_Some bind_eq_Some_conv)
  have ok: "ok (Inr relative) = Some relative" by (simp add: ok_def)
  have k: "key = kv_key kv" and p: "\<exists>x y z w. split_on CHR ''/'' relative = [''current-state'', x, y, z, w]"
    using *[unfolded resource_state_key_def rel ok bind.bind_lunit] by (simp_all add: bind_eq_Some_conv split: list.split_asm if_split_asm)
  have "relative \<noteq> ''metadata/'' @ encode_segment AUTHORITATIVE_INPUT_MARKER" using p by auto
  then show ?thesis using rel k by (auto simp: parse_relative_key_def ok_or_def strip_prefix_Some metadata_key_def namespaced_key_def split: if_splits option.splits)
qed

lemma removal_stamps:
  assumes "etcd_contract e"
  shows "stamps_inputs e b (remove_current_states_for_resource b r)"
  unfolding stamps_inputs_def
proof (intro allI impI)
  fix s log s' y
  assume "runs e s (remove_current_states_for_resource b r) log s' y"
  from this[unfolded remove_current_states_for_resource_def raw_snapshot_prefix_def bind_action_assoc] assms
  show "\<forall>(t, ops, u) \<in> set log. stamped_step e b t u"
  proof (cases rule: run_range_then)
    case (response t u h)
    let ?keys = "List.map_filter (resource_state_key b r) (etcd_range e t (namespaced_key b ''current-state/''))"
    have "distinct (map id ?keys)" by (rule distinct_map_filter_key[OF contract_range(1)[OF assms]]) (simp add: resource_state_key_Some)
    then have "distinct ?keys" by simp
    moreover have "metadata_key b AUTHORITATIVE_INPUT_MARKER \<notin> set ?keys" using resource_state_key_Some by (fastforce simp: set_map_filter)
    ultimately have "\<forall>chunk \<in> set (chunks CURRENT_STATE_DELETE_BATCH ?keys). distinct chunk \<and> metadata_key b AUTHORITATIVE_INPUT_MARKER \<notin> set chunk"
      using chunks_distinct by blast
    note p = delete_batches_proper[OF this]
    show ?thesis
    proof (cases "revision_from_header h")
      case (Inr revision)
      then have "runs e u (bind_action (delete_batches b (chunks CURRENT_STATE_DELETE_BATCH ?keys) None) (\<lambda>r.
          Return (Inr (case r of None \<Rightarrow> revision | Some r \<Rightarrow> r)))) log s' y" using response(4) by simp
      moreover have "all_commits (proper b) (bind_action (delete_batches b (chunks CURRENT_STATE_DELETE_BATCH ?keys) None) (\<lambda>r.
          Return (Inr (case r of None \<Rightarrow> revision | Some r \<Rightarrow> r))) :: Revision action)" using p by (auto intro!: all_commits_bind)
      ultimately show ?thesis using stampsI[OF assms] unfolding stamps_inputs_def by blast
    qed (use response(4) in \<open>simp add: runs_Return\<close>)
  qed simp
qed

text \<open>C9: Every change of an authoritative input is stamped. Whatever an operation of the backend
  is asked to do and however its requests end, each transaction it applies either leaves all
  authoritative inputs alone, live records included, or stamps the input marker with its own
  revision. This is the behaviour of other clients that the fence of controller publications
  relies on; only the expiry of a lease, which is no operation of the backend, escapes it.\<close>

theorem inputs_always_stamped:
  assumes "etcd_contract e" and "valid_utf8 key" and "key \<noteq> AUTHORITATIVE_INPUT_MARKER"
  shows "stamps_inputs e b (metadata_put b key v lease) \<and> stamps_inputs e b (compare_and_put b key expected v) \<and>
    stamps_inputs e b (compare_and_put_if_live_absent b key expected i v) \<and> stamps_inputs e b (compare_and_delete b key expected) \<and>
    stamps_inputs e b (compare_and_put_absent b key v) \<and> stamps_inputs e b (put_controller_owned b authority key v) \<and>
    stamps_inputs e b (advance_metadata_revision b key revision) \<and> stamps_inputs e b (initialize_authoritative_input_marker b) \<and>
    stamps_inputs e b (publish_controller_outputs_with_fence b fence external_view pending_transitions pending_revision) \<and>
    stamps_inputs e b (record_lease_expiry b authority event) \<and> stamps_inputs e b (inject_pending_transition codec b message) \<and>
    stamps_inputs e b (claim_pending_transition codec b i session message) \<and> stamps_inputs e b (remove_pending_transition codec b expected mid) \<and>
    stamps_inputs e b (remove_pending_transitions_for_resource codec b r) \<and>
    stamps_inputs e b (complete_pending_transition_with_fence codec b completion_fence message resulting_state) \<and>
    stamps_inputs e b (etcd_publish_current_state b i session r states) \<and> stamps_inputs e b (etcd_inject_session_current_state b i session r states) \<and>
    stamps_inputs e b (register b i options) \<and> stamps_inputs e b (revoke_live b i session) \<and> stamps_inputs e b (remove_current_states_for_resource b r) \<and>
    stamps_inputs e b (acquire_until b config signals) \<and> stamps_inputs e b (relinquish b authority)"
  by (intro conjI removal_stamps stampsI assms(1) metadata_proper[OF assms(2,3)] advance_proper[OF assms(2,3)] initialize_proper publish_proper
      lease_expiry_proper queue_proper session_proper election_proper)

text \<open>A revocation deletes the live record of its instance and stamps the marker.\<close>

definition live_store :: mem_store where
  "live_store = mem_of [(live_key demo_backend (InstanceId ''a''), ''1'', 5)]"

theorem inputs_always_stamped_witness:
  "\<exists>t ops u. fst (mem_run (revoke_live demo_backend (InstanceId ''a'') (SessionId 1)) live_store) = [(t, ops, u)] \<and>
     etcd_get mem_etcd t (live_key demo_backend (InstanceId ''a'')) \<noteq> etcd_get mem_etcd u (live_key demo_backend (InstanceId ''a'')) \<and> stamped_step mem_etcd demo_backend t u"
proof -
  let ?p = "revoke_live demo_backend (InstanceId ''a'') (SessionId 1)" and ?k = "live_key demo_backend (InstanceId ''a'')"
  let ?run = "mem_run ?p live_store"
  have key: "valid_utf8 ''config/instances''" "''config/instances'' \<noteq> AUTHORITATIVE_INPUT_MARKER" by code_simp+
  have one: "map (\<lambda>(t, ops, u). (etcd_get mem_etcd t ?k = None, etcd_get mem_etcd u ?k = None)) (fst ?run) = [(False, True)]"
    unfolding mem_etcd_def etcd.simps by code_simp
  then obtain t ops u where log: "fst ?run = [(t, ops, u)]" by (cases "fst ?run"; cases "hd (fst ?run)") auto
  have "runs mem_etcd live_store ?p [(t, ops, u)] (fst (snd ?run)) (snd (snd ?run))" unfolding log[symmetric] by (rule mem_run_mem) simp
  moreover have "stamps_inputs mem_etcd demo_backend ?p"
    using inputs_always_stamped[OF mem_contract key, where b = demo_backend and i = "InstanceId ''a''" and session = "SessionId 1"] by metis
  ultimately have "stamped_step mem_etcd demo_backend t u" unfolding stamps_inputs_def by fastforce
  then show ?thesis using one log by auto
qed

end
