(* ===== verification/Controller_Loop.thy ===== *)
theory Controller_Loop
  imports Controller_Runtime Etcd_Metadata Election
begin

text \<open>
  The running controller: one reconciliation against the store (\<open>reconcile\<close>), the watch-driven loop
  of a leader (\<open>run_as_leader_until\<close>, both \<^verbatim>\<open>src/controller/runtime.rs\<close>) and the process that
  campaigns, leads and releases (\<^verbatim>\<open>src/runtime.rs\<close>). The reconciliation is a program over etcd; its
  loop recurses on a number of rounds, and running out of them is \<open>None\<close>, as is planning code that
  does not return. The loops above it consume the outcomes of their waits and operations as lists,
  and \<open>None\<close> means that they are still running. Failpoints are off, as in every build without the
  test feature. The serialization by \<^verbatim>\<open>serde_json\<close> is a parameter.
\<close>

section \<open>Errors\<close>

text \<open>The runtime error keeps a message and whether it is transient. Here it keeps its origin:
  planning, serialization, the application's callback, coordination or a watch.\<close>

datatype LeaderError =
    PlanFailed ControllerRuntimeError
  | OutputFailed string
  | ReadyFailed string
  | LeaderCoordination CoordinationError
  | LeaderWatch WatchError

definition LeaderError_is_transient :: "LeaderError \<Rightarrow> bool" where
  "LeaderError_is_transient err = (case err of
     LeaderCoordination e \<Rightarrow> is_transient e
   | LeaderWatch (WatchCoordination e) \<Rightarrow> is_transient e
   | LeaderWatch Disconnected \<Rightarrow> True
   | _ \<Rightarrow> False)"

text \<open>The code compares messages. The messages of planning and serialization errors are never the
  two texts compared with.\<close>

definition is_leadership_loss :: "LeaderError \<Rightarrow> bool" where
  "is_leadership_loss err = (case err of
     LeaderCoordination e \<Rightarrow> CoordinationError_fmt e \<in> {CoordinationError_fmt StaleController, CoordinationError_fmt StaleRevision}
   | _ \<Rightarrow> False)"

section \<open>Reconciliation\<close>

record output_codec =
  encode_view :: "(string, (string, (string, string) btree) btree) btree \<Rightarrow> string + string"
  encode_queue :: "PublishedTransition list \<Rightarrow> string + string"

text \<open>The external view, the queue as text and the queue.\<close>

definition plan_outputs ::
    "decoders \<Rightarrow> 'f float_ops \<Rightarrow> output_codec \<Rightarrow> ReconcileMode \<Rightarrow> CoordinationSnapshot \<Rightarrow> PublishedTransition list \<Rightarrow>
     (LeaderError + string \<times> string \<times> PublishedTransition list) option" where
  "plan_outputs dec ops codec mode snap pending =
     map_option (\<lambda>r. bind_result (map_err PlanFailed r) (\<lambda>(view, next_pending).
       bind_result (map_err OutputFailed (encode_view codec (external_view_output view))) (\<lambda>external_json.
       bind_result (map_err OutputFailed (encode_queue codec next_pending)) (\<lambda>pending_json.
       Inr (external_json, pending_json, next_pending)))))
     (compute_outputs_with_pending_policy dec ops snap pending mode)"

definition output_fence :: "ControllerAuthority \<Rightarrow> CoordinationSnapshot \<Rightarrow> ControllerCommitFence" where
  "output_fence authority snap = commit_fence authority (authoritative_revision snap) (live_sessions snap)"

definition planned_queue_revision :: "CoordinationSnapshot \<Rightarrow> Revision option" where
  "planned_queue_revision snap = map_option entry_revision (bt_get (snapshot_metadata snap) PENDING_OUTPUT_KEY)"

text \<open>The queue in memory is returned on every path, since an error leaves it as it is.\<close>

type_synonym reconciled = "((LeaderError + unit) \<times> PublishedTransition list) option"

text \<open>Reading a snapshot, with the error path of \<open>.await?\<close>.\<close>

definition with_snapshot :: "EtcdCoordination \<Rightarrow> PublishedTransition list \<Rightarrow> (CoordinationSnapshot \<Rightarrow> reconciled client) \<Rightarrow> reconciled client" where
  "with_snapshot b pending f = bind_client (controller_snapshot b) (\<lambda>r. case r of
     Inl err \<Rightarrow> Return (Some (Inl (LeaderCoordination err), pending)) | Inr current \<Rightarrow> f current)"

fun reconcile_rounds ::
    "nat \<Rightarrow> (CoordinationSnapshot \<Rightarrow> PublishedTransition list \<Rightarrow> (LeaderError + string \<times> string \<times> PublishedTransition list) option) \<Rightarrow>
     decoders \<Rightarrow> EtcdCoordination \<Rightarrow> ControllerAuthority \<Rightarrow> CoordinationSnapshot \<Rightarrow> PublishedTransition list \<Rightarrow> reconciled client" where
  "reconcile_rounds 0 plan dec b authority snap pending = Return None"
| "reconcile_rounds (Suc n) plan dec b authority snap pending =
     (let again = (\<lambda>current. case read_pending dec current of
            Inl err \<Rightarrow> Return (Some (Inl (PlanFailed err), pending))
          | Inr queue \<Rightarrow> reconcile_rounds n plan dec b authority current queue)
      in case plan snap pending of
        None \<Rightarrow> Return None
      | Some (Inl err) \<Rightarrow> Return (Some (Inl err, pending))
      | Some (Inr (external_json, pending_json, next_pending)) \<Rightarrow>
          with_snapshot b pending (\<lambda>current.
          if authoritative_revision snap < authoritative_revision current then again current
          else if outputs_match snap external_json pending_json then Return (Some (Inr (), next_pending))
          else bind_client (publish_controller_outputs_with_fence b (output_fence authority snap) external_json pending_json (planned_queue_revision snap)) (\<lambda>r. case r of
            Inl StaleRevision \<Rightarrow> with_snapshot b pending again
          | Inl err \<Rightarrow> Return (Some (Inl (LeaderCoordination err), pending))
          | Inr _ \<Rightarrow> with_snapshot b pending (\<lambda>current.
              if authoritative_revision snap < authoritative_revision current then again current
              else Return (Some (Inr (), next_pending))))))"

definition reconcile ::
    "nat \<Rightarrow> decoders \<Rightarrow> 'f float_ops \<Rightarrow> output_codec \<Rightarrow> EtcdCoordination \<Rightarrow> ControllerAuthority \<Rightarrow> ReconcileMode \<Rightarrow>
     CoordinationSnapshot \<Rightarrow> PublishedTransition list \<Rightarrow> reconciled client" where
  "reconcile n dec ops codec b authority mode snap pending = reconcile_rounds n (plan_outputs dec ops codec mode) dec b authority snap pending"

text \<open>What the code does with the state before it reconciles: the raised snapshot, the queue in the
  store and the mode.\<close>

definition prepare_state :: "decoders \<Rightarrow> CoordinationSnapshot \<Rightarrow> ControllerState \<Rightarrow> ControllerRuntimeError + CoordinationSnapshot \<times> ControllerState" where
  "prepare_state dec snap st =
     (let st = observe_input_revision (authoritative_revision snap) st;
          snap = with_authoritative_revision (controller_revision st) snap
      in bind_result (read_pending dec snap) (\<lambda>pending. Inr (snap, st\<lparr>controller_pending := pending\<rparr>)))"

definition reconcile_current_snapshot ::
    "nat \<Rightarrow> decoders \<Rightarrow> 'f float_ops \<Rightarrow> output_codec \<Rightarrow> EtcdCoordination \<Rightarrow> ControllerAuthority \<Rightarrow> CoordinationSnapshot \<Rightarrow> ControllerState \<Rightarrow>
     ((LeaderError + unit) \<times> ControllerState) option client" where
  "reconcile_current_snapshot n dec ops codec b authority snap st =
     (case prepare_state dec snap st of
        Inl err \<Rightarrow> Return (Some (Inl (PlanFailed err), observe_input_revision (authoritative_revision snap) st))
      | Inr (snap, st) \<Rightarrow>
          bind_client (reconcile n dec ops codec b authority (mode_for st snap) snap (controller_pending st)) (\<lambda>r.
          Return (map_option (\<lambda>(r, pending).
            let st = st\<lparr>controller_pending := pending\<rparr>
            in (r, case r of Inl _ \<Rightarrow> st | Inr _ \<Rightarrow> remember_sessions snap st)) r)))"

section \<open>Which keys wake the controller\<close>

definition is_controller_input :: "string \<Rightarrow> bool" where
  "is_controller_input key =
     (if starts_with ''live/'' key \<or> starts_with ''current-state/'' key then True
      else case strip_prefix ''metadata/'' key of
        None \<Rightarrow> False
      | Some encoded \<Rightarrow> (case decode_segment encoded of
          Inl _ \<Rightarrow> True
        | Inr decoded \<Rightarrow> \<not> starts_with ''controller/output/'' decoded \<and> decoded \<noteq> ''internal/session-sequence''))"

section \<open>Waiting as a leader\<close>

datatype LeaderWaitError = WaitShutdown | WaitLeadershipLost | WaitCoordinationFailed CoordinationError

text \<open>Which of the three futures of \<open>wait_for_leader_retry\<close> completes.\<close>

datatype leader_wait = LeaderStopped | LeaderDeposed | LeaderRested

definition wait_for_leader_retry :: "leader_wait \<Rightarrow> LeaderWaitError + unit" where
  "wait_for_leader_retry w = (case w of LeaderStopped \<Rightarrow> Inl WaitShutdown | LeaderDeposed \<Rightarrow> Inl WaitLeadershipLost | LeaderRested \<Rightarrow> Inr ())"

text \<open>One turn of \<open>retry_coordination\<close>: a signal came first, or the operation ended; after a
  transient error the turn goes on with a wait.\<close>

datatype 'a attempt = AttemptInterrupted LeaderWaitError | Attempt "CoordinationError + 'a" leader_wait

fun retry_coordination :: "'a attempt list \<Rightarrow> (LeaderWaitError + 'a) option" where
  "retry_coordination [] = None"
| "retry_coordination (AttemptInterrupted err # as) = Some (Inl err)"
| "retry_coordination (Attempt (Inr x) w # as) = Some (Inr x)"
| "retry_coordination (Attempt (Inl err) w # as) =
     (if err = StaleController then Some (Inl WaitLeadershipLost)
      else if is_transient err then (case wait_for_leader_retry w of Inl err \<Rightarrow> Some (Inl err) | Inr _ \<Rightarrow> retry_coordination as)
      else Some (Inl (WaitCoordinationFailed err)))"

datatype LeaderRunResult = LeadershipLost | LeaderShutdown

definition leader_stop :: "LeaderWaitError \<Rightarrow> LeaderError + LeaderRunResult" where
  "leader_stop err = (case err of
     WaitShutdown \<Rightarrow> Inr LeaderShutdown | WaitLeadershipLost \<Rightarrow> Inr LeadershipLost | WaitCoordinationFailed err \<Rightarrow> Inl (LeaderCoordination err))"

text \<open>The loop around a reconciliation: its outcomes in turn, each with the wait that follows a
  transient error. The outcome is the state after success, or how the leader ends.\<close>

fun settle_reconcile :: "((LeaderError + unit) \<times> 'st \<times> leader_wait) list \<Rightarrow> ((LeaderError + LeaderRunResult) + 'st) option" where
  "settle_reconcile [] = None"
| "settle_reconcile ((r, st, w) # rest) = (case r of
     Inr _ \<Rightarrow> Some (Inr st)
   | Inl err \<Rightarrow>
       if is_leadership_loss err then Some (Inl (Inr LeadershipLost))
       else if LeaderError_is_transient err then
         (case wait_for_leader_retry w of Inl err \<Rightarrow> Some (Inl (leader_stop err)) | Inr _ \<Rightarrow> settle_reconcile rest)
       else Some (Inl (Inl err)))"

section \<open>The leader loop\<close>

text \<open>What the leader wakes up to, with the outcomes of the operations it then starts. A
  reconciliation is given by the function from the snapshot and the state to its outcomes.\<close>

type_synonym reconciliation = "CoordinationSnapshot \<Rightarrow> ControllerState \<Rightarrow> ((LeaderError + unit) \<times> ControllerState \<times> leader_wait) list"

datatype leader_event =
    LeaderSignal LeaderRunResult
  | LeaderPoll "CoordinationSnapshot attempt list" reconciliation
  | LeaderWatched WatchEvent "Revision attempt list" "CoordinationSnapshot attempt list" reconciliation
  | LeaderWatchFailed WatchError "CoordinationSnapshot attempt list" reconciliation "LeaderRunResult + (WatchError + unit)"

text \<open>After a lost connection the watch is resumed, unless a signal comes first.\<close>

definition resume_turn :: "LeaderRunResult + (WatchError + unit) \<Rightarrow> (LeaderError + LeaderRunResult) + unit" where
  "resume_turn resumed = (case resumed of
     Inl result \<Rightarrow> Inl (Inr result) | Inr (Inl err) \<Rightarrow> Inl (Inl (LeaderWatch err)) | Inr (Inr _) \<Rightarrow> Inr ())"

text \<open>Read a snapshot, raise the state to it if asked to, and reconcile.\<close>

definition refresh ::
    "(CoordinationSnapshot \<Rightarrow> ControllerState \<Rightarrow> ControllerState) \<Rightarrow> CoordinationSnapshot attempt list \<Rightarrow> reconciliation \<Rightarrow> ControllerState \<Rightarrow>
     ((LeaderError + LeaderRunResult) + CoordinationSnapshot \<times> ControllerState) option" where
  "refresh raise reads reconciles st = (case retry_coordination reads of
     None \<Rightarrow> None
   | Some (Inl err) \<Rightarrow> Some (Inl (leader_stop err))
   | Some (Inr snap) \<Rightarrow> map_option (\<lambda>r. case r of Inl stop \<Rightarrow> Inl stop | Inr st \<Rightarrow> Inr (snap, st)) (settle_reconcile (reconciles snap (raise snap st))))"

text \<open>One event: the end of the run, or the snapshot reconciled for it, if any, and the new state.\<close>

definition leader_turn :: "leader_event \<Rightarrow> ControllerState \<Rightarrow> ((LeaderError + LeaderRunResult) + CoordinationSnapshot option \<times> ControllerState) option" where
  "leader_turn event st =
     (let done_with = map_option (\<lambda>r. case r of Inl stop \<Rightarrow> Inl stop | Inr (snap, st) \<Rightarrow> Inr (Some snap, st))
      in case event of
        LeaderSignal result \<Rightarrow> Some (Inl (Inr result))
      | LeaderPoll reads reconciles \<Rightarrow> done_with (refresh (\<lambda>_ st. st) reads reconciles st)
      | LeaderWatched watched expiry reads reconciles \<Rightarrow>
          if \<not> is_controller_input (event_key watched) then Some (Inr (None, st))
          else (case (if is_lease_backed_delete watched then retry_coordination expiry else Some (Inr (event_revision watched))) of
            None \<Rightarrow> None
          | Some (Inl err) \<Rightarrow> Some (Inl (leader_stop err))
          | Some (Inr _) \<Rightarrow> done_with (refresh (\<lambda>_ st. st) reads reconciles (observe_input_revision (event_revision watched) st)))
      | LeaderWatchFailed err reads reconciles resumed \<Rightarrow> (case err of
          Compacted _ \<Rightarrow> done_with (refresh (\<lambda>snap. observe_input_revision (snapshot_revision snap)) reads reconciles st)
        | Disconnected \<Rightarrow> Some (bind_result (resume_turn resumed) (\<lambda>_. Inr (None, st)))
        | WatchCoordination (EtcdError _) \<Rightarrow> Some (bind_result (resume_turn resumed) (\<lambda>_. Inr (None, st)))
        | _ \<Rightarrow> Some (Inl (Inl (LeaderWatch err)))))"

text \<open>The loop over the events so far: how it ended, or the state it is in.\<close>

fun leader_loop :: "leader_event list \<Rightarrow> ControllerState \<Rightarrow> ((LeaderError + LeaderRunResult) + ControllerState) option" where
  "leader_loop [] st = Some (Inr st)"
| "leader_loop (event # events) st = (case leader_turn event st of
     None \<Rightarrow> None
   | Some (Inl stop) \<Rightarrow> Some (Inl stop)
   | Some (Inr (_, st)) \<Rightarrow> leader_loop events st)"

text \<open>The start: a first snapshot, a reconciliation in startup mode, the callback of the
  application, then the loop. The callback is invoked at most once per process.\<close>

definition run_as_leader_until ::
    "decoders \<Rightarrow> CoordinationSnapshot attempt list \<Rightarrow> reconciliation \<Rightarrow> string option \<Rightarrow> leader_event list \<Rightarrow>
     ((LeaderError + LeaderRunResult) + ControllerState) option" where
  "run_as_leader_until dec reads startup ready events = (case retry_coordination reads of
     None \<Rightarrow> None
   | Some (Inl err) \<Rightarrow> Some (Inl (leader_stop err))
   | Some (Inr snap) \<Rightarrow> (case ControllerState_from_snapshot dec snap of
       Inl err \<Rightarrow> Some (Inl (Inl (PlanFailed err)))
     | Inr st \<Rightarrow> (case settle_reconcile (startup (with_authoritative_revision (controller_revision st) snap) st) of
         None \<Rightarrow> None
       | Some (Inl stop) \<Rightarrow> Some (Inl stop)
       | Some (Inr st) \<Rightarrow> (case ready of Some message \<Rightarrow> Some (Inl (Inl (ReadyFailed message))) | None \<Rightarrow> leader_loop events st))))"

section \<open>The controller process\<close>

datatype RuntimeEvent =
    AuthorityAcquired string
  | AuthorityLost string
  | LeaseRecovery string
  | LeaseReregistered string u64
  | CoordinationRetry string
  | PublicationRejected string
  | FatalRuntimeError string string
  | GracefulShutdown string

text \<open>One term of office: the outcome of the campaign, how the leader ended, and the outcome of
  releasing the leadership, if it comes to that. Errors are their messages.\<close>

record office_term =
  term_election :: "string + unit"
  term_campaign :: "ElectionError + bool"
  term_leading :: "string + LeaderRunResult"
  term_release :: "string + unit"

text \<open>The events emitted and whether the leadership was released, in order, and the result.\<close>

datatype office_action = Emitted RuntimeEvent | Released

fun controller_run_until :: "string \<Rightarrow> (ElectionError \<Rightarrow> string) \<Rightarrow> office_term list \<Rightarrow> office_action list \<times> (string + unit) option" where
  "controller_run_until identity message [] = ([], None)"
| "controller_run_until identity message (t # ts) = (case term_election t of
     Inl err \<Rightarrow> ([], Some (Inl err))
   | Inr _ \<Rightarrow> (case term_campaign t of
       Inr False \<Rightarrow> ([Emitted (GracefulShutdown identity)], Some (Inr ()))
     | Inl ElectionLeaseExpired \<Rightarrow> controller_run_until identity message ts
     | Inl err \<Rightarrow> ([Emitted (FatalRuntimeError identity (message err))], Some (Inl (message err)))
     | Inr True \<Rightarrow> (case term_leading t of
         Inl err \<Rightarrow> ([Emitted (AuthorityAcquired identity), Emitted (FatalRuntimeError identity err), Released], Some (Inl err))
       | Inr LeaderShutdown \<Rightarrow> (case term_release t of
           Inl err \<Rightarrow> ([Emitted (AuthorityAcquired identity), Released], Some (Inl err))
         | Inr _ \<Rightarrow> ([Emitted (AuthorityAcquired identity), Released, Emitted (GracefulShutdown identity)], Some (Inr ())))
       | Inr LeadershipLost \<Rightarrow> (case controller_run_until identity message ts of
           (actions, result) \<Rightarrow> (Emitted (AuthorityAcquired identity) # Emitted (AuthorityLost identity) # actions, result)))))"

end
