(* ===== verification/Participant.thy ===== *)
theory Participant
  imports Etcd_Sessions Completion
begin

text \<open>
  Execution of transition messages by a participant (\<^verbatim>\<open>src/participant.rs\<close>): the values handed to
  the application, the dispatch to resource handlers, the checks and the claim before a callback,
  the fenced completion after it, and the removal of messages that are not executed. The
  application's handlers are parameters. The callback itself sends no requests; other clients may
  act on the store while it runs. Failpoints, which are compiled out of a release, are left out.
\<close>

section \<open>Errors\<close>

datatype ParticipantRuntimeError =
    ParticipantCoordination CoordinationError
  | ParticipantWatch WatchError
  | ParticipantIo string
  | InvalidMessage
  | HandlerJoin string
  | WorkerJoin string
  | ProgressContention

definition ParticipantRuntimeError_fmt :: "ParticipantRuntimeError \<Rightarrow> string" where
  "ParticipantRuntimeError_fmt e = (case e of
     ParticipantCoordination err \<Rightarrow> CoordinationError_fmt err
   | ParticipantWatch err \<Rightarrow> WatchError_fmt err
   | ParticipantIo err \<Rightarrow> err
   | InvalidMessage \<Rightarrow> ''invalid participant transition message''
   | HandlerJoin err \<Rightarrow> ''transition handler task failed: '' @ err
   | WorkerJoin err \<Rightarrow> ''participant worker task failed: '' @ err
   | ProgressContention \<Rightarrow> ''participant progress contention exceeded retry bound'')"

datatype ParticipantErrorSource = SourceCoordination CoordinationError | SourceWatch WatchError

definition ParticipantRuntimeError_source :: "ParticipantRuntimeError \<Rightarrow> ParticipantErrorSource option" where
  "ParticipantRuntimeError_source e = (case e of
     ParticipantCoordination err \<Rightarrow> Some (SourceCoordination err)
   | ParticipantWatch err \<Rightarrow> Some (SourceWatch err)
   | _ \<Rightarrow> None)"

section \<open>Transitions as the application sees them\<close>

datatype TransitionAttemptId = TransitionAttemptId (TransitionAttemptId_as_str: string)

record TransitionExecution =
  execution_resource :: ResourceId
  execution_partition :: PartitionId
  execution_source :: State
  execution_target :: State
  execution_transition_id :: string

record ResourceTransition =
  transition_partition :: PartitionId
  resource_transition_source :: ResourceState
  resource_transition_target :: ResourceState
  transition_attempt_id :: TransitionAttemptId

definition message_resource_id :: "TransitionMessage \<Rightarrow> ParticipantRuntimeError + ResourceId" where
  "message_resource_id message = map_err (\<lambda>_. InvalidMessage) (ResourceId_new (message_resource message))"

definition message_partition_id :: "TransitionMessage \<Rightarrow> ParticipantRuntimeError + PartitionId" where
  "message_partition_id message = map_err (\<lambda>_. InvalidMessage) (PartitionId_new (message_partition message))"

definition TransitionExecution_new :: "TransitionMessage \<Rightarrow> ParticipantRuntimeError + TransitionExecution" where
  "TransitionExecution_new message =
     bind_result (map_err (\<lambda>_. InvalidMessage) (ResourceId_new (message_resource message))) (\<lambda>r.
     bind_result (map_err (\<lambda>_. InvalidMessage) (PartitionId_new (message_partition message))) (\<lambda>p.
     bind_result (map_err (\<lambda>_. InvalidMessage) (State_new (message_from message))) (\<lambda>source.
     bind_result (map_err (\<lambda>_. InvalidMessage) (State_new (message_to message))) (\<lambda>target.
     Inr \<lparr>execution_resource = r, execution_partition = p, execution_source = source, execution_target = target,
          execution_transition_id = message_id message\<rparr>))))"

definition from_execution :: "TransitionExecution \<Rightarrow> ResourceTransition" where
  "from_execution execution =
     \<lparr>transition_partition = execution_partition execution,
      resource_transition_source = ResourceState_from_state (execution_source execution),
      resource_transition_target = ResourceState_from_state (execution_target execution),
      transition_attempt_id = TransitionAttemptId (execution_transition_id execution)\<rparr>"

section \<open>Handlers\<close>

datatype TransitionHandlerError = TransitionHandlerError string

definition TransitionHandlerError_cancelled :: TransitionHandlerError where
  "TransitionHandlerError_cancelled = TransitionHandlerError ''transition cancelled''"

datatype HandlerInvocationError = HandlerApplication | HandlerJoinError string

type_synonym erased_handler = "TransitionExecution \<Rightarrow> HandlerInvocationError + unit"

text \<open>A blocking callback returns a result, or panics with a message.\<close>

type_synonym blocking_handler = "TransitionExecution \<Rightarrow> string + (TransitionHandlerError + unit)"

definition SyncHandlerAdapter_transition :: "blocking_handler \<Rightarrow> erased_handler" where
  "SyncHandlerAdapter_transition handle execution =
     bind_result (map_err HandlerJoinError (handle execution)) (\<lambda>r. map_err (\<lambda>_. HandlerApplication) r)"

definition ScopedTransitionHandler_handle :: "(ResourceId, blocking_handler) btree \<Rightarrow> blocking_handler" where
  "ScopedTransitionHandler_handle handlers execution =
     (case bt_get handlers (execution_resource execution) of
        None \<Rightarrow> Inr (Inl (TransitionHandlerError
          (''no transition handler is registered for resource '' @ ResourceId_as_str (execution_resource execution))))
      | Some handler \<Rightarrow> handler execution)"

definition AsyncScopedResourceHandler_transition ::
    "(ResourceId, ResourceTransition \<Rightarrow> TransitionHandlerError + unit) btree \<Rightarrow> erased_handler" where
  "AsyncScopedResourceHandler_transition handlers execution =
     (case bt_get handlers (execution_resource execution) of
        None \<Rightarrow> Inl HandlerApplication
      | Some handler \<Rightarrow> map_err (\<lambda>_. HandlerApplication) (handler (from_execution execution)))"

section \<open>Queue values\<close>

definition parse_queue_value :: "message_codec \<Rightarrow> string \<Rightarrow> ParticipantRuntimeError + TransitionMessage list" where
  "parse_queue_value codec v =
     bind_result (ok_or (decode_messages codec v) InvalidMessage) (\<lambda>messages.
     if list_ex (\<lambda>m. message_id m = []) messages then Inl InvalidMessage else Inr messages)"

definition parse_event_messages :: "message_codec \<Rightarrow> WatchEvent \<Rightarrow> ParticipantRuntimeError + TransitionMessage list" where
  "parse_event_messages codec event = (case event_kind event of
     DeleteEvent \<Rightarrow> Inr []
   | PutEvent \<Rightarrow> bind_result (ok_or (event_value event) InvalidMessage) (parse_queue_value codec))"

definition processed_revision_key :: "InstanceId \<Rightarrow> string" where
  "processed_revision_key i = ''participant/'' @ InstanceId_as_str i @ ''/processed-revision''"


section \<open>Executing a message\<close>

type_synonym 'a prun = "(ParticipantRuntimeError + 'a) client"

definition bind_prun :: "'a prun \<Rightarrow> ('a \<Rightarrow> 'b prun) \<Rightarrow> 'b prun" where
  "bind_prun p f = bind_client p (\<lambda>r. case r of Inl err \<Rightarrow> Return (Inl err) | Inr x \<Rightarrow> f x)"

text \<open>Errors of the backend are wrapped by \<open>From\<close>.\<close>

definition coordination :: "'a action \<Rightarrow> 'a prun" where
  "coordination p = bind_client p (\<lambda>r. Return (map_err ParticipantCoordination r))"

definition MAX_COMPLETION_FENCE_RETRIES :: nat where
  "MAX_COMPLETION_FENCE_RETRIES = 256"

definition MAX_CLEANUP_RETRIES :: nat where
  "MAX_CLEANUP_RETRIES = 256"

text \<open>Removal of a message that is not executed. A stale revision is read again.\<close>

fun cleanup_loop :: "nat \<Rightarrow> message_codec \<Rightarrow> EtcdCoordination \<Rightarrow> Revision \<Rightarrow> TransitionMessage \<Rightarrow> unit prun" where
  "cleanup_loop 0 codec b expected message = Return (Inl (ParticipantCoordination Contention))"
| "cleanup_loop (Suc n) codec b expected message =
     bind_client (remove_pending_transition codec b expected (message_id message)) (\<lambda>r. case r of
       Inr _ \<Rightarrow> Return (Inr ())
     | Inl StaleRevision \<Rightarrow> bind_prun (coordination (metadata_get b PENDING_TRANSITIONS_KEY)) (\<lambda>entry. case entry of
         None \<Rightarrow> Return (Inr ())
       | Some entry \<Rightarrow> cleanup_loop n codec b (entry_revision entry) message)
     | Inl err \<Rightarrow> Return (Inl (ParticipantCoordination err)))"

definition participant_cleanup :: "message_codec \<Rightarrow> EtcdCoordination \<Rightarrow> Revision \<Rightarrow> TransitionMessage \<Rightarrow> unit prun" where
  "participant_cleanup codec b queue_revision message = cleanup_loop MAX_CLEANUP_RETRIES codec b queue_revision message"

text \<open>Everything before the callback: a result without a callback, or the execution to hand to
  the application with the claimed queue revision.\<close>

datatype Delivery = Settled CompletionResult | Deliver TransitionExecution Revision

definition settle :: "message_codec \<Rightarrow> EtcdCoordination \<Rightarrow> Revision \<Rightarrow> TransitionMessage \<Rightarrow> CompletionResult \<Rightarrow> Delivery prun" where
  "settle codec b queue_revision message result =
     bind_prun (participant_cleanup codec b queue_revision message) (\<lambda>_. Return (Inr (Settled result)))"

definition deliver_message ::
    "message_codec \<Rightarrow> EtcdCoordination \<Rightarrow> InstanceId \<Rightarrow> SessionId \<Rightarrow> StateModelDefinition \<Rightarrow> TransitionMessage \<Rightarrow> Revision \<Rightarrow> Delivery prun" where
  "deliver_message codec b i session model message queue_revision =
     bind_prun (Return (message_resource_id message)) (\<lambda>r.
     bind_prun (Return (message_partition_id message)) (\<lambda>p.
     bind_prun (coordination (etcd_current_state b i session r p)) (\<lambda>reported_state.
     let current = (case reported_state of Some state \<Rightarrow> state | None \<Rightarrow> model_initial_state model)
     in if message_type message \<noteq> ''STATE_TRANSITION'' \<or> target_session message \<noteq> SessionId_wire_value session
        then settle codec b queue_revision message AlreadyCompleted
        else
     bind_prun (Return (map_err (\<lambda>_. InvalidMessage) (State_new (message_from message)))) (\<lambda>source.
     bind_prun (Return (map_err (\<lambda>_. InvalidMessage) (State_new (message_to message)))) (\<lambda>target.
     if current = target \<or> current \<noteq> source \<or> next_state_toward model current target \<noteq> Some target
     then settle codec b queue_revision message AlreadyCompleted
     else
     bind_prun (Return (TransitionExecution_new message)) (\<lambda>execution.
     bind_prun (coordination (claim_pending_transition codec b i session message)) (\<lambda>claim. case claim of
       Claimed revision \<Rightarrow> Return (Inr (Deliver execution revision))
     | ClaimSessionLost \<Rightarrow> settle codec b queue_revision message CompletionSessionLost
     | Withdrawn \<Rightarrow> Return (Inr (Settled AlreadyCompleted)))))))))"

text \<open>Everything after the callback.\<close>

definition resulting_state_of :: "State \<Rightarrow> HandlerInvocationError + unit \<Rightarrow> ParticipantRuntimeError + State option" where
  "resulting_state_of target outcome = (case outcome of
     Inr _ \<Rightarrow> if is_dropped target then Inr None else Inr (Some target)
   | Inl HandlerApplication \<Rightarrow> Inr (Some (State ''ERROR''))
   | Inl (HandlerJoinError err) \<Rightarrow> Inl (HandlerJoin err))"

fun complete_retrying ::
    "nat \<Rightarrow> message_codec \<Rightarrow> EtcdCoordination \<Rightarrow> InstanceId \<Rightarrow> SessionId \<Rightarrow> TransitionMessage \<Rightarrow> State option \<Rightarrow> Revision \<Rightarrow> CompletionResult prun" where
  "complete_retrying 0 codec b i session message resulting_state revision = Return (Inl (ParticipantCoordination Contention))"
| "complete_retrying (Suc n) codec b i session message resulting_state revision =
     bind_client (complete_pending_transition_with_fence codec b
         \<lparr>completion_instance = i, completion_session = session, completion_queue_revision = revision,
          completion_message_id = message_id message\<rparr> message resulting_state) (\<lambda>r. case r of
       Inr result \<Rightarrow> Return (Inr result)
     | Inl StaleRevision \<Rightarrow> bind_prun (coordination (metadata_get b PENDING_TRANSITIONS_KEY)) (\<lambda>entry. case entry of
         None \<Rightarrow> Return (Inr AlreadyCompleted)
       | Some entry \<Rightarrow> complete_retrying n codec b i session message resulting_state (entry_revision entry))
     | Inl err \<Rightarrow> Return (Inl (ParticipantCoordination err)))"

text \<open>The result, and the execution that was handed to the application, if any.\<close>

definition execute_message ::
    "message_codec \<Rightarrow> EtcdCoordination \<Rightarrow> InstanceId \<Rightarrow> SessionId \<Rightarrow> StateModelDefinition \<Rightarrow> erased_handler \<Rightarrow> TransitionMessage \<Rightarrow> Revision \<Rightarrow>
     (TransitionExecution option \<times> (ParticipantRuntimeError + CompletionResult)) client" where
  "execute_message codec b i session model handler message queue_revision =
     bind_client (deliver_message codec b i session model message queue_revision) (\<lambda>r. case r of
       Inl err \<Rightarrow> Return (None, Inl err)
     | Inr (Settled result) \<Rightarrow> Return (None, Inr result)
     | Inr (Deliver execution revision) \<Rightarrow>
         bind_client (bind_prun (Return (resulting_state_of (execution_target execution) (handler execution))) (\<lambda>resulting_state.
           complete_retrying MAX_COMPLETION_FENCE_RETRIES codec b i session message resulting_state revision)) (\<lambda>y.
         Return (Some execution, y)))"

end
