(* ===== verification/Controller_Loop_Laws.thy ===== *)
theory Controller_Loop_Laws
  imports Controller_Loop Etcd_Sessions_Laws Participant
begin

text \<open>
  The running controller publishes nothing but fenced plans, does not report success before a read
  has confirmed the inputs it planned from, and accounts for every input event it is woken by.
\<close>

section \<open>Snapshots of the store\<close>

definition snapshot_at :: "'s etcd \<Rightarrow> EtcdCoordination \<Rightarrow> 's \<Rightarrow> CoordinationError + CoordinationSnapshot" where
  "snapshot_at e b w = controller_snapshot_from_kvs b (Revision (etcd_revision e w)) (etcd_range e w (namespaced_key b ''''))"

text \<open>Revisions are positive, as \<open>Revision::new\<close> ensures.\<close>

definition snapshot_valid :: "CoordinationSnapshot \<Rightarrow> bool" where
  "snapshot_valid snap \<longleftrightarrow> 0 < revision_value (authoritative_revision snap) \<and> (\<forall>r. planned_queue_revision snap = Some r \<longrightarrow> 0 < revision_value r)"

lemma metadata_revisions:
  assumes "metadata_from_snapshot b kvs = Inr m" and "bt_get m k = Some entry"
  shows "0 < revision_value (entry_revision entry)"
proof -
  have "\<forall>k entry. bt_get m k = Some entry \<longrightarrow> 0 < revision_value (entry_revision entry)"
    by (rule try_fold_invariant[OF assms(1)[unfolded metadata_from_snapshot_def]])
      (auto simp: bind_result_Inr metadata_entry_of_def Revision_new_Inr split: if_splits option.splits)
  then show ?thesis using assms(2) by blast
qed

lemma snapshot_at_valid:
  assumes "etcd_contract e" and "snapshot_at e b w = Inr snap"
  shows "snapshot_valid snap"
proof -
  note snap = assms(2)[unfolded snapshot_at_def]
  have "0 < revision_value (authoritative_revision snap)"
    using authoritative_revision_bound[OF controller_snapshot_parts(2)[OF snap], of "etcd_revision e w"] contract_revision[OF assms(1), of w]
      contract_get(3)[OF assms(1)] by (auto simp: contract_range(2)[OF assms(1)])
  moreover have "0 < revision_value r" if "planned_queue_revision snap = Some r" for r
  proof -
    from snap have "metadata_from_snapshot b (etcd_range e w (namespaced_key b '''')) = Inr (snapshot_metadata snap)"
      by (auto simp: controller_snapshot_from_kvs_def bind_result_Inr)
    then show ?thesis using metadata_revisions that by (auto simp: planned_queue_revision_def)
  qed
  ultimately show ?thesis by (auto simp: snapshot_valid_def)
qed

lemma controller_snapshot_silent [simp]: "all_commits P (controller_snapshot b)"
  by (auto simp: controller_snapshot_def raw_snapshot_prefix_def intro!: all_commits_bind split: sum.splits)

lemma snapshot_ensures: "ensures e (\<lambda>tr y. \<forall>current. y = Inr current \<longrightarrow> (\<exists>w. tr = [Saw w] \<and> snapshot_at e b w = Inr current)) (controller_snapshot b) []"
  by (auto simp: controller_snapshot_def raw_snapshot_prefix_def ensures_requests snapshot_at_def header_def revision_from_header_def Revision_new_def
      split: sum.splits option.splits if_splits)

lemma trace_snapshot_then:
  assumes "traced e s (with_snapshot b pending f) tr s' y"
  obtains (error) err where "y = Some (Inl (LeaderCoordination err), pending)" "applied tr = []"
  | (read) w t current tr' where "snapshot_at e b w = Inr current" "traced e t (f current) tr' s' y" "tr = Saw w # tr'"
proof -
  from assms obtain tr1 t r tr2 where r: "traced e s (controller_snapshot b) tr1 t r" "tr = tr1 @ tr2"
    "traced e t (case r of Inl err \<Rightarrow> Return (Some (Inl (LeaderCoordination err), pending)) | Inr current \<Rightarrow> f current) tr2 s' y"
    using traced_bind_client unfolding with_snapshot_def by metis
  show ?thesis
  proof (cases r)
    case (Inl err)
    have "applied tr1 = []" using silent_log[OF traced_runs[OF r(1)]] by simp
    then show ?thesis using r Inl error traced_Return by fastforce
  next
    case (Inr current)
    then obtain w where "tr1 = [Saw w]" "snapshot_at e b w = Inr current" using ensures_sound[OF r(1) snapshot_ensures] by blast
    then show ?thesis using read[of w current t tr2] r(2,3) Inr by simp
  qed
qed

section \<open>Rounds of reconciliation\<close>

type_synonym planner = "CoordinationSnapshot \<Rightarrow> PublishedTransition list \<Rightarrow> (LeaderError + string \<times> string \<times> PublishedTransition list) option"

text \<open>A plan made from the given snapshot, or from one that the trace saw, with its own queue.\<close>

definition planned_from ::
    "'s etcd \<Rightarrow> EtcdCoordination \<Rightarrow> decoders \<Rightarrow> CoordinationSnapshot \<Rightarrow> PublishedTransition list \<Rightarrow> 's event list \<Rightarrow> CoordinationSnapshot \<Rightarrow> PublishedTransition list \<Rightarrow> bool" where
  "planned_from e b dec snap pending tr snap' pending' \<longleftrightarrow>
     snap' = snap \<and> pending' = pending \<or> (\<exists>w. Saw w \<in> set tr \<and> snapshot_at e b w = Inr snap' \<and> read_pending dec snap' = Inr pending')"

definition published_plan ::
    "'s etcd \<Rightarrow> EtcdCoordination \<Rightarrow> ControllerAuthority \<Rightarrow> planner \<Rightarrow>
     CoordinationSnapshot \<Rightarrow> PublishedTransition list \<Rightarrow> 's \<Rightarrow> 's \<Rightarrow> bool" where
  "published_plan e b authority plan snap pending t u \<longleftrightarrow>
     (\<exists>view queue next_pending. plan snap pending = Some (Inr (view, queue, next_pending)) \<and>
        publication e b (output_fence authority snap) view queue (planned_queue_revision snap) t u)"

text \<open>On success the queue is the one planned from a snapshot whose inputs the last read confirmed;
  the outputs in that snapshot were up to date already or were published by the last transaction,
  before that read.\<close>

definition confirmed_plan ::
    "'s etcd \<Rightarrow> EtcdCoordination \<Rightarrow> ControllerAuthority \<Rightarrow> planner \<Rightarrow>
     CoordinationSnapshot \<Rightarrow> PublishedTransition list \<Rightarrow> PublishedTransition list \<Rightarrow> 's event list \<Rightarrow> bool" where
  "confirmed_plan e b authority plan snap pending next_pending tr \<longleftrightarrow>
     (\<exists>view queue before w current. plan snap pending = Some (Inr (view, queue, next_pending)) \<and> tr = before @ [Saw w] \<and> snapshot_at e b w = Inr current \<and>
        authoritative_revision current \<le> authoritative_revision snap \<and>
        (outputs_match snap view queue \<or>
         (\<exists>log t ops u. applied before = log @ [(t, ops, u)] \<and> publication e b (output_fence authority snap) view queue (planned_queue_revision snap) t u)))"

definition reconciles ::
    "'s etcd \<Rightarrow> EtcdCoordination \<Rightarrow> decoders \<Rightarrow> ControllerAuthority \<Rightarrow> planner \<Rightarrow>
     CoordinationSnapshot \<Rightarrow> PublishedTransition list \<Rightarrow> 's event list \<Rightarrow> reconciled \<Rightarrow> bool" where
  "reconciles e b dec authority plan snap pending tr y \<longleftrightarrow>
     each_write (\<lambda>before t u. \<exists>snap' pending'. planned_from e b dec snap pending before snap' pending' \<and> published_plan e b authority plan snap' pending' t u) [] tr \<and>
     (\<forall>next_pending. y = Some (Inr (), next_pending) \<longrightarrow> (\<exists>snap' pending'. planned_from e b dec snap pending tr snap' pending' \<and>
        confirmed_plan e b authority plan snap' pending' next_pending tr))"

lemma planned_from_self: "planned_from e b dec snap pending tr snap pending"
  by (simp add: planned_from_def)

text \<open>The writes of one round.\<close>

definition round_writes :: "'s etcd \<Rightarrow> EtcdCoordination \<Rightarrow> ControllerAuthority \<Rightarrow> planner \<Rightarrow> CoordinationSnapshot \<Rightarrow> PublishedTransition list \<Rightarrow> 's event list \<Rightarrow> bool" where
  "round_writes e b authority plan snap pending tr \<longleftrightarrow> (\<forall>(t, ops, u) \<in> set (applied tr). published_plan e b authority plan snap pending t u)"

lemma round_writes_each:
  "round_writes e b authority plan snap pending tr \<Longrightarrow>
     each_write (\<lambda>before t u. \<exists>snap' pending'. planned_from e b dec snap pending before snap' pending' \<and> published_plan e b authority plan snap' pending' t u) before tr"
  by (rule each_write_all) (fastforce simp: round_writes_def planned_from_def)

lemma reconciles_failed:
  "round_writes e b authority plan snap pending tr \<Longrightarrow> y = None \<or> (\<exists>err p. y = Some (Inl err, p)) \<Longrightarrow> reconciles e b dec authority plan snap pending tr y"
  unfolding reconciles_def by (auto intro: round_writes_each)

lemma reconciles_confirmed:
  "confirmed_plan e b authority plan snap pending next_pending tr \<Longrightarrow> round_writes e b authority plan snap pending tr \<Longrightarrow>
     reconciles e b dec authority plan snap pending tr (Some (Inr (), next_pending))"
  unfolding reconciles_def using planned_from_self[of e b dec snap pending tr] by (auto intro: round_writes_each)

lemma round_writes_silent [simp]: "applied tr = [] \<Longrightarrow> round_writes e b authority plan snap pending tr"
  by (simp add: round_writes_def)

lemma confirmed_plan_later: "confirmed_plan e b authority plan snap pending next_pending tr \<Longrightarrow> confirmed_plan e b authority plan snap pending next_pending (first @ tr)"
  unfolding confirmed_plan_def by (metis append_assoc applied_append)

text \<open>Another round from a snapshot read in this one.\<close>

lemma reconciles_again:
  assumes "reconciles e b dec authority plan current queue tr y" and "Saw w \<in> set first" and "snapshot_at e b w = Inr current"
    and "read_pending dec current = Inr queue" and "round_writes e b authority plan snap pending first"
  shows "reconciles e b dec authority plan snap pending (first @ tr) y"
proof -
  have later: "planned_from e b dec snap pending (first @ before) snap' pending'" if "planned_from e b dec current queue before snap' pending'" for before snap' pending'
    using that assms(2-4) by (auto simp: planned_from_def)
  let ?P = "\<lambda>snap pending before t u. \<exists>snap' pending'. planned_from e b dec snap pending before snap' pending' \<and> published_plan e b authority plan snap' pending' t u"
  have "each_write (?P snap pending) (first @ []) tr"
  proof (rule each_write_after)
    show "each_write (?P current queue) [] tr" using assms(1) by (simp add: reconciles_def)
  qed (use later in blast)
  then have "each_write (?P snap pending) [] (first @ tr)" using round_writes_each[OF assms(5)] by (simp add: each_write_append)
  moreover have "\<exists>snap' pending'. planned_from e b dec snap pending (first @ tr) snap' pending' \<and> confirmed_plan e b authority plan snap' pending' next_pending (first @ tr)"
    if "y = Some (Inr (), next_pending)" for next_pending
  proof -
    from that assms(1) obtain snap' pending' where "planned_from e b dec current queue tr snap' pending'" "confirmed_plan e b authority plan snap' pending' next_pending tr"
      unfolding reconciles_def by blast
    then show ?thesis by (intro exI conjI) (rule later, assumption, rule confirmed_plan_later)
  qed
  ultimately show ?thesis unfolding reconciles_def by blast
qed

lemma read_pending_again:
  assumes "traced e t (case read_pending dec current of Inl err \<Rightarrow> Return (Some (Inl (PlanFailed err), pending)) | Inr queue \<Rightarrow> rest queue) tr s' y"
    and "\<And>queue. read_pending dec current = Inr queue \<Longrightarrow> traced e t (rest queue) tr s' y \<Longrightarrow> reconciles e b dec authority plan current queue tr y"
    and "Saw w \<in> set first" and "snapshot_at e b w = Inr current" and "round_writes e b authority plan snap pending first"
  shows "reconciles e b dec authority plan snap pending (first @ tr) y"
proof (cases "read_pending dec current")
  case (Inl err)
  then have "tr = [] \<and> y = Some (Inl (PlanFailed err), pending)" using assms(1) traced_Return by fastforce
  then show ?thesis using assms(5) by (auto intro: reconciles_failed)
next
  case (Inr queue)
  then show ?thesis using assms(1) by (intro reconciles_again[OF assms(2)[OF Inr] assms(3,4) Inr assms(5)]) simp
qed

text \<open>The publication of one round.\<close>

lemma publish_round:
  assumes "etcd_contract e" and "snapshot_valid snap" and plan: "plan snap pending = Some (Inr (view, queue, next_pending))"
    and "traced e t (publish_controller_outputs_with_fence b (output_fence authority snap) view queue (planned_queue_revision snap)) tr t2 r"
  shows "round_writes e b authority plan snap pending tr"
    and "r = Inr revision \<Longrightarrow> \<exists>log t ops u. applied tr = log @ [(t, ops, u)] \<and> publication e b (output_fence authority snap) view queue (planned_queue_revision snap) t u"
proof -
  have p: "publishes e b (output_fence authority snap) view queue (planned_queue_revision snap) (applied tr) r"
    using assms(2) by (intro publish_runs[OF assms(1) _ _ traced_runs[OF assms(4)]]) (auto simp: snapshot_valid_def output_fence_def commit_fence_def)
  show "round_writes e b authority plan snap pending tr"
    using p plan unfolding publishes_def published_plan_def round_writes_def by blast
  assume "r = Inr revision"
  then obtain t' ops u where "applied tr = [(t', ops, u)]" using p by (auto simp: publishes_def reported_def)
  then show "\<exists>log t ops u. applied tr = log @ [(t, ops, u)] \<and> publication e b (output_fence authority snap) view queue (planned_queue_revision snap) t u"
    using p by (auto simp: publishes_def)
qed

text \<open>What follows the publication: a confirming read, or another round.\<close>

lemma after_publication:
  assumes "etcd_contract e" and "snapshot_valid snap" and "plan snap pending = Some (Inr (view, queue, next_pending))"
    and "traced e t (publish_controller_outputs_with_fence b (output_fence authority snap) view queue (planned_queue_revision snap)) tr1 t2 r"
    and "\<And>t current tr w first. traced e t (again current) tr s' y \<Longrightarrow> Saw w \<in> set first \<Longrightarrow> snapshot_at e b w = Inr current \<Longrightarrow>
      round_writes e b authority plan snap pending first \<Longrightarrow> reconciles e b dec authority plan snap pending (first @ tr) y"
    and "traced e t2 (case r of Inl StaleRevision \<Rightarrow> with_snapshot b pending again | Inl err \<Rightarrow> Return (Some (Inl (LeaderCoordination err), pending))
          | Inr _ \<Rightarrow> with_snapshot b pending (\<lambda>current. if authoritative_revision snap < authoritative_revision current then again current
              else Return (Some (Inr (), next_pending)))) tr2 s' y"
    and "applied first = []"
  shows "reconciles e b dec authority plan snap pending (first @ tr1 @ tr2) y"
proof -
  let ?confirm = "\<lambda>current. if authoritative_revision snap < authoritative_revision current then again current else Return (Some (Inr (), next_pending))"
  note p = publish_round[where plan = plan, OF assms(1-4)]
  have writes: "round_writes e b authority plan snap pending (first @ tr1 @ tr)" if "applied tr = []" for tr
    using p(1) assms(7) that by (simp add: round_writes_def)
  have again: "reconciles e b dec authority plan snap pending (first @ tr1 @ Saw w # tr) y" if "traced e t (again current) tr s' y" "snapshot_at e b w = Inr current" for t current w tr
    using assms(5)[OF that(1), of w "first @ tr1 @ [Saw w]"] that(2) writes by simp
  show ?thesis
  proof (cases r)
    case (Inl err)
    show ?thesis
    proof (cases "err = StaleRevision")
      case True
      then have "traced e t2 (with_snapshot b pending again) tr2 s' y" using assms(6) Inl by simp
      then show ?thesis
        by (cases rule: trace_snapshot_then) (use writes again in \<open>auto intro: reconciles_failed\<close>)
    next
      case False
      then have "traced e t2 (Return (Some (Inl (LeaderCoordination err), pending))) tr2 s' y" using assms(6) Inl by (cases err) simp_all
      then show ?thesis using writes[of "[]"] traced_Return by (fastforce intro: reconciles_failed)
    qed
  next
    case (Inr rev')
    then have "traced e t2 (with_snapshot b pending ?confirm) tr2 s' y" using assms(6) by simp
    then show ?thesis
    proof (cases rule: trace_snapshot_then)
      case (error err)
      then show ?thesis using writes by (auto intro: reconciles_failed)
    next
      case (read w' t' current' tr')
      show ?thesis
      proof (cases "authoritative_revision snap < authoritative_revision current'")
        case True
        then show ?thesis using again read by simp
      next
        case False
        then have "traced e t' (Return (Some (Inr (), next_pending))) tr' s' y" using read(2) by simp
        from traced_Return[OF this] have y: "tr' = []" "y = Some (Inr (), next_pending)" by simp_all
        have "confirmed_plan e b authority plan snap pending next_pending ((first @ tr1) @ [Saw w'])"
          unfolding confirmed_plan_def using p(2)[OF Inr] assms(3,7) read(1) False
          by (intro exI[of _ view] exI[of _ queue] exI[of _ "first @ tr1"] exI[of _ w'] exI[of _ current']) simp
        then show ?thesis using y read(3) writes[of "[Saw w']"] by (auto intro: reconciles_confirmed)
      qed
    qed
  qed
qed

lemma reconcile_rounds_traced:
  assumes "etcd_contract e" and "snapshot_valid snap" and "traced e s (reconcile_rounds n plan dec b authority snap pending) tr s' y"
  shows "reconciles e b dec authority plan snap pending tr y"
  using assms(2,3)
proof (induction n arbitrary: snap pending s tr)
  case 0
  then show ?case using traced_Return by (fastforce intro: reconciles_failed)
next
  case (Suc n)
  let ?again = "\<lambda>current. case read_pending dec current of
            Inl err \<Rightarrow> Return (Some (Inl (PlanFailed err), pending))
          | Inr queue \<Rightarrow> reconcile_rounds n plan dec b authority current queue"
  have again: "reconciles e b dec authority plan snap pending (first @ tr) y"
    if "traced e t (?again current) tr s' y" "Saw w \<in> set first" "snapshot_at e b w = Inr current" "round_writes e b authority plan snap pending first" for t current tr w first
    by (rule read_pending_again[OF that(1) Suc.IH[OF snapshot_at_valid[OF assms(1) that(3)]] that(2-4)])
  show ?case
  proof (cases "plan snap pending")
    case None
    then have "traced e s (Return None) tr s' y" using Suc.prems(2) by simp
    then show ?thesis using traced_Return by (fastforce intro: reconciles_failed)
  next
    case (Some r)
    show ?thesis
    proof (cases r)
      case (Inl err)
      then have "traced e s (Return (Some (Inl err, pending))) tr s' y" using Suc.prems(2) Some by simp
      then show ?thesis using traced_Return by (fastforce intro: reconciles_failed)
    next
      case (Inr outputs)
      obtain view queue next_pending where out: "outputs = (view, queue, next_pending)" by (cases outputs)
      have plan: "plan snap pending = Some (Inr (view, queue, next_pending))" by (simp add: Some Inr out)
      let ?publish = "publish_controller_outputs_with_fence b (output_fence authority snap) view queue (planned_queue_revision snap)"
      let ?confirm = "\<lambda>current. if authoritative_revision snap < authoritative_revision current then ?again current else Return (Some (Inr (), next_pending))"
      let ?after = "\<lambda>r. case r of Inl StaleRevision \<Rightarrow> with_snapshot b pending ?again | Inl err \<Rightarrow> Return (Some (Inl (LeaderCoordination err), pending))
          | Inr _ \<Rightarrow> with_snapshot b pending ?confirm"
      have "traced e s (with_snapshot b pending (\<lambda>current. if authoritative_revision snap < authoritative_revision current then ?again current
          else if outputs_match snap view queue then Return (Some (Inr (), next_pending)) else bind_client ?publish ?after)) tr s' y"
        using Suc.prems(2) by (simp only: reconcile_rounds.simps Let_def plan option.case sum.case prod.case)
      then show ?thesis
      proof (cases rule: trace_snapshot_then)
        case (error err)
        then show ?thesis by (auto intro: reconciles_failed)
      next
        case (read w t current tr')
        consider (newer) "authoritative_revision snap < authoritative_revision current"
          | (same) "authoritative_revision current \<le> authoritative_revision snap" "outputs_match snap view queue"
          | (publish) "authoritative_revision current \<le> authoritative_revision snap" "\<not> outputs_match snap view queue" by force
        then show ?thesis
        proof cases
          case newer
          then show ?thesis using again[of t current tr' w "[Saw w]"] read by simp
        next
          case same
          then have "traced e t (Return (Some (Inr (), next_pending))) tr' s' y" using read(2) by (simp add: leD)
          from traced_Return[OF this] have "tr' = []" "y = Some (Inr (), next_pending)" by simp_all
          moreover have "confirmed_plan e b authority plan snap pending next_pending ([] @ [Saw w])"
            unfolding confirmed_plan_def using same plan read(1) by blast
          ultimately show ?thesis using read(3) by (auto intro: reconciles_confirmed)
        next
          case publish
          then have "traced e t (bind_client ?publish ?after) tr' s' y" using read(2) by (simp add: leD)
          from traced_bind_client[OF this] obtain tr1 t2 r tr2 where pub: "traced e t ?publish tr1 t2 r" "traced e t2 (?after r) tr2 s' y" "tr' = tr1 @ tr2" by blast
          have "reconciles e b dec authority plan snap pending ([Saw w] @ tr1 @ tr2) y" by (rule after_publication[OF assms(1) Suc.prems(1) plan pub(1) again pub(2)]) simp_all
          then show ?thesis by (simp add: read(3) pub(3))
        qed
      qed
    qed
  qed
qed

text \<open>C6: The controller publishes nothing but fenced plans. Every transaction that a reconciliation
  applies is a fenced publication of the outputs planned from one snapshot, with that snapshot's
  input revision, live sessions and queue revision as its fence; the snapshot is the given one or
  was read earlier in the same run together with the queue planned from. The reconciliation
  succeeds only if the last thing it did was a read that showed no input newer than the plan's
  snapshot, and the outputs were in the store already or were published by its last transaction
  before that read.\<close>

theorem reconcile_publishes_plans:
  assumes "etcd_contract e" and "snapshot_valid snap" and "traced e s (reconcile n dec ops codec b authority mode snap pending) tr s' y"
  shows "reconciles e b dec authority (plan_outputs dec ops codec mode) snap pending tr y"
  by (rule reconcile_rounds_traced[OF assms(1,2) assms(3)[unfolded reconcile_def]])

definition quiet_decoders :: decoders where
  "quiet_decoders = \<lparr>decode_instance_configs = \<lambda>_. Inr [], decode_resource = \<lambda>_. Inl ''none'', decode_throttles = \<lambda>_. Inr [], decode_pending = \<lambda>_. Inr []\<rparr>"

definition quiet_codec :: output_codec where
  "quiet_codec = \<lparr>encode_view = \<lambda>_. Inr ''{}'', encode_queue = \<lambda>_. Inr ''[]''\<rparr>"

definition quiet_snapshot :: CoordinationSnapshot where
  "quiet_snapshot = \<lparr>snapshot_revision = Revision 4, authoritative_revision = Revision 4, snapshot_metadata = bt_empty,
     snapshot_participants = \<lparr>snapshot_live_instances = bt_empty, snapshot_active_current_state = bt_empty\<rparr>,
     controller_election = \<lparr>election_active = None, election_candidates = bt_empty\<rparr>\<rparr>"

theorem reconcile_publishes_plans_witness:
  "\<exists>tr s' next_pending snap pending. traced mem_etcd demo_store (reconcile 1 quiet_decoders demo_ops quiet_codec demo_backend demo_authority Normal quiet_snapshot []) tr s' (Some (Inr (), next_pending)) \<and>
     length (applied tr) = 1 \<and> confirmed_plan mem_etcd demo_backend demo_authority (plan_outputs quiet_decoders demo_ops quiet_codec Normal) snap pending next_pending tr"
proof -
  let ?p = "reconcile 1 quiet_decoders demo_ops quiet_codec demo_backend demo_authority Normal quiet_snapshot []"
  let ?run = "mem_run ?p demo_store"
  have v: "snapshot_valid quiet_snapshot" by (simp add: snapshot_valid_def quiet_snapshot_def planned_queue_revision_def)
  have one: "length (fst ?run) = 1" by code_simp
  have y: "snd (snd ?run) = Some (Inr (), [])" by code_simp
  obtain tr where tr: "traced mem_etcd demo_store ?p tr (fst (snd ?run)) (Some (Inr (), []))" "applied tr = fst ?run"
    by (rule mem_traced[of demo_store ?p, unfolded y])
  from reconcile_publishes_plans[OF mem_contract v tr(1)] obtain snap pending where
    "confirmed_plan mem_etcd demo_backend demo_authority (plan_outputs quiet_decoders demo_ops quiet_codec Normal) snap pending [] tr" unfolding reconciles_def by blast
  then show ?thesis using tr one by metis
qed

section \<open>Accounting for inputs\<close>

text \<open>An outcome of \<open>reconcile_current_snapshot\<close> on some store.\<close>

definition genuine_outcome ::
    "'s etcd \<Rightarrow> nat \<Rightarrow> decoders \<Rightarrow> 'f float_ops \<Rightarrow> output_codec \<Rightarrow> EtcdCoordination \<Rightarrow> ControllerAuthority \<Rightarrow> CoordinationSnapshot \<Rightarrow> ControllerState \<Rightarrow>
     LeaderError + unit \<Rightarrow> ControllerState \<Rightarrow> bool" where
  "genuine_outcome e n dec ops codec b authority snap st r st' \<longleftrightarrow>
     (\<exists>s log s'. runs e s (reconcile_current_snapshot n dec ops codec b authority snap st) log s' (Some (r, st')))"

text \<open>Each retry starts from the state the previous attempt left.\<close>

fun outcomes_chain :: "(ControllerState \<Rightarrow> LeaderError + unit \<Rightarrow> ControllerState \<Rightarrow> bool) \<Rightarrow> ControllerState \<Rightarrow> ((LeaderError + unit) \<times> ControllerState \<times> leader_wait) list \<Rightarrow> bool" where
  "outcomes_chain Q st [] = True"
| "outcomes_chain Q st ((r, st', w) # rest) = (Q st r st' \<and> outcomes_chain Q st' rest)"

definition event_genuine :: "(CoordinationSnapshot \<Rightarrow> ControllerState \<Rightarrow> LeaderError + unit \<Rightarrow> ControllerState \<Rightarrow> bool) \<Rightarrow> leader_event \<Rightarrow> bool" where
  "event_genuine Q event \<longleftrightarrow> (case event of
     LeaderPoll reads f \<Rightarrow> \<forall>snap st. outcomes_chain (Q snap) st (f snap st)
   | LeaderWatched watched expiry reads f \<Rightarrow> \<forall>snap st. outcomes_chain (Q snap) st (f snap st)
   | LeaderWatchFailed err reads f resumed \<Rightarrow> \<forall>snap st. outcomes_chain (Q snap) st (f snap st)
   | _ \<Rightarrow> True)"

lemma outcome_revision:
  assumes "genuine_outcome e n dec ops codec b authority snap st r st'"
  shows "controller_revision st' = max (controller_revision st) (authoritative_revision snap)"
proof -
  from assms obtain s log s' where "runs e s (reconcile_current_snapshot n dec ops codec b authority snap st) log s' (Some (r, st'))"
    unfolding genuine_outcome_def by blast
  then show ?thesis
    by (auto simp: reconcile_current_snapshot_def prepare_state_def observe_input_revision_def remember_sessions_def Let_def runs_bind_client runs_Return
        bind_result_def dest!: map_option_eq_Some[THEN iffD1, OF sym] split: sum.splits)
qed

lemma settled_revision:
  assumes "\<forall>st r st'. Q st r st' \<longrightarrow> controller_revision st' = max (controller_revision st) (authoritative_revision snap)"
    and "outcomes_chain Q st outcomes" and "settle_reconcile outcomes = Some (Inr st')"
  shows "controller_revision st' = max (controller_revision st) (authoritative_revision snap)"
  using assms(2,3)
proof (induction outcomes arbitrary: st)
  case (Cons x xs)
  obtain r t w where x: "x = (r, t, w)" by (cases x)
  have t: "controller_revision t = max (controller_revision st) (authoritative_revision snap)" using Cons.prems(1) assms(1) unfolding x outcomes_chain.simps by blast
  then show ?case using Cons.IH[of t] Cons.prems by (auto simp: x max.left_commute max_def split: sum.splits if_splits)
qed simp

text \<open>The outcomes begin with transient failures and then a success that leaves the state \<open>st'\<close>.\<close>

definition succeeded :: "((LeaderError + unit) \<times> ControllerState \<times> leader_wait) list \<Rightarrow> ControllerState \<Rightarrow> bool" where
  "succeeded outcomes st' \<longleftrightarrow> (\<exists>failed w rest. outcomes = failed @ (Inr (), st', w) # rest \<and>
     list_all (\<lambda>(r, st, w). \<exists>err. r = Inl err \<and> LeaderError_is_transient err \<and> \<not> is_leadership_loss err) failed)"

lemma settled_succeeded: "settle_reconcile outcomes = Some (Inr st') \<Longrightarrow> succeeded outcomes st'"
proof (induction outcomes)
  case (Cons x xs)
  obtain r t w where x: "x = (r, t, w)" by (cases x)
  show ?case
  proof (cases r)
    case (Inr u)
    then show ?thesis using Cons.prems unfolding succeeded_def x by (intro exI[of _ "[]"]) simp
  next
    case (Inl err)
    then have err: "\<not> is_leadership_loss err" "LeaderError_is_transient err" "settle_reconcile xs = Some (Inr st')"
      using Cons.prems by (auto simp: x split: if_splits sum.splits)
    from Cons.IH[OF err(3)] obtain failed v rest where "xs = failed @ (Inr (), st', v) # rest"
      "list_all (\<lambda>(r, st, w). \<exists>err. r = Inl err \<and> LeaderError_is_transient err \<and> \<not> is_leadership_loss err) failed" unfolding succeeded_def by blast
    then show ?thesis using err Inl unfolding succeeded_def x by (intro exI[of _ "(Inl err, t, w) # failed"]) simp
  qed
qed simp

lemma refresh_revision:
  assumes "\<forall>snap st r st'. Q snap st r st' \<longrightarrow> controller_revision st' = max (controller_revision st) (authoritative_revision snap)"
    and "\<forall>snap st. outcomes_chain (Q snap) st (f snap st)" and "refresh raise reads f st = Some (Inr (snap, st'))"
  shows "retry_coordination reads = Some (Inr snap) \<and> controller_revision st' = max (controller_revision (raise snap st)) (authoritative_revision snap) \<and>
    succeeded (f snap (raise snap st)) st'"
proof -
  from assms(3) have read: "retry_coordination reads = Some (Inr snap)" "map_option (\<lambda>r. case r of Inl stop \<Rightarrow> Inl stop | Inr st \<Rightarrow> Inr (snap, st)) (settle_reconcile (f snap (raise snap st))) = Some (Inr (snap, st'))"
    unfolding refresh_def by (auto simp del: map_option_eq_Some split: option.splits sum.split_asm)
  then have "settle_reconcile (f snap (raise snap st)) = Some (Inr st')"
    by (cases "settle_reconcile (f snap (raise snap st))"; cases "the (settle_reconcile (f snap (raise snap st)))") auto
  then show ?thesis using read(1) settled_revision[of "Q snap" snap] settled_succeeded assms(1,2) by blast
qed

lemma done_with_Inr:
  "map_option (\<lambda>r. case r of Inl stop \<Rightarrow> Inl stop | Inr (snap, st) \<Rightarrow> Inr (Some snap, st)) r = Some (Inr (x, st')) \<longleftrightarrow> (\<exists>snap. x = Some snap \<and> r = Some (Inr (snap, st')))"
proof (cases r)
  case (Some z)
  then show ?thesis by (cases z) auto
qed simp

text \<open>What an event asks of the state that the loop goes on with.\<close>

definition accounted :: "leader_event \<Rightarrow> ControllerState \<Rightarrow> bool" where
  "accounted event st \<longleftrightarrow> (case event of
     LeaderWatched watched expiry reads f \<Rightarrow>
       \<not> is_controller_input (event_key watched) \<or>
       event_revision watched \<le> controller_revision st \<and>
       (\<exists>snap. retry_coordination reads = Some (Inr snap) \<and> authoritative_revision snap \<le> controller_revision st) \<and>
       (\<not> is_lease_backed_delete watched \<or> (\<exists>r. retry_coordination expiry = Some (Inr r)))
   | LeaderPoll reads f \<Rightarrow> \<exists>snap. retry_coordination reads = Some (Inr snap) \<and> authoritative_revision snap \<le> controller_revision st
   | LeaderWatchFailed (Compacted _) reads f resumed \<Rightarrow> \<exists>snap. retry_coordination reads = Some (Inr snap) \<and> authoritative_revision snap \<le> controller_revision st \<and> snapshot_revision snap \<le> controller_revision st
   | LeaderWatchFailed err reads f resumed \<Rightarrow> is_transient_watch err \<and> resumed = Inr (Inr ())
   | _ \<Rightarrow> False)"

lemma accounted_later: "accounted event st \<Longrightarrow> controller_revision st \<le> controller_revision st' \<Longrightarrow> accounted event st'"
  by (auto simp: accounted_def intro: order.trans split: leader_event.splits WatchError.splits)

text \<open>How the turn of an event got from one state to the next: by a successful reconciliation of the
  snapshot that was read for it, unless the event asks for none.\<close>

definition turn_settled :: "leader_event \<Rightarrow> ControllerState \<Rightarrow> ControllerState \<Rightarrow> bool" where
  "turn_settled event st t \<longleftrightarrow> (case event of
     LeaderWatched watched expiry reads f \<Rightarrow>
       if is_controller_input (event_key watched)
       then \<exists>snap. retry_coordination reads = Some (Inr snap) \<and> succeeded (f snap (observe_input_revision (event_revision watched) st)) t
       else t = st
   | LeaderPoll reads f \<Rightarrow> \<exists>snap. retry_coordination reads = Some (Inr snap) \<and> succeeded (f snap st) t
   | LeaderWatchFailed (Compacted _) reads f resumed \<Rightarrow>
       \<exists>snap. retry_coordination reads = Some (Inr snap) \<and> succeeded (f snap (observe_input_revision (snapshot_revision snap) st)) t
   | LeaderWatchFailed err reads f resumed \<Rightarrow> t = st
   | LeaderSignal result \<Rightarrow> False)"

fun turns_settled :: "leader_event list \<Rightarrow> ControllerState \<Rightarrow> ControllerState \<Rightarrow> bool" where
  "turns_settled [] st st' = (st' = st)"
| "turns_settled (event # events) st st' = (\<exists>t. turn_settled event st t \<and> turns_settled events t st')"

lemma leader_turn_accounts:
  assumes "\<forall>snap st r st'. Q snap st r st' \<longrightarrow> controller_revision st' = max (controller_revision st) (authoritative_revision snap)"
    and "event_genuine Q event" and "leader_turn event st = Some (Inr (reconciled_for, st'))"
  shows "controller_revision st \<le> controller_revision st' \<and> accounted event st' \<and> turn_settled event st st'"
proof (cases event)
  case (LeaderPoll reads f)
  then obtain snap where "refresh (\<lambda>_ st. st) reads f st = Some (Inr (snap, st'))" using assms(3)
    by (auto simp only: leader_turn_def Let_def leader_event.case done_with_Inr)
  then show ?thesis using refresh_revision[where Q = Q and f = f and raise = "\<lambda>_ st. st", OF assms(1)] assms(2) by (auto simp: LeaderPoll event_genuine_def accounted_def turn_settled_def le_max_iff_disj)
next
  case (LeaderWatched watched expiry reads f)
  show ?thesis
  proof (cases "is_controller_input (event_key watched)")
    case False
    then show ?thesis using assms(3) by (simp add: LeaderWatched leader_turn_def accounted_def turn_settled_def)
  next
    case True
    then obtain snap where r: "refresh (\<lambda>_ st. st) reads f (observe_input_revision (event_revision watched) st) = Some (Inr (snap, st'))"
      and "is_lease_backed_delete watched \<Longrightarrow> \<exists>r. retry_coordination expiry = Some (Inr r)"
      using assms(3) by (simp only: LeaderWatched leader_turn_def Let_def leader_event.case done_with_Inr not_True_eq_False if_False)
        (auto simp: done_with_Inr simp del: map_option_eq_Some split: option.split_asm sum.split_asm if_split_asm)
    then show ?thesis using True refresh_revision[where Q = Q, OF assms(1) _ r] assms(2)
      by (auto simp: LeaderWatched event_genuine_def accounted_def turn_settled_def le_max_iff_disj observe_input_revision_def)
  qed
next
  case (LeaderWatchFailed err reads f resumed)
  show ?thesis
  proof (cases err)
    case (Compacted r)
    then obtain snap where "refresh (\<lambda>snap. observe_input_revision (snapshot_revision snap)) reads f st = Some (Inr (snap, st'))" using assms(3) LeaderWatchFailed
      by (auto simp only: leader_turn_def Let_def leader_event.case WatchError.case done_with_Inr)
    then show ?thesis using refresh_revision[where Q = Q and f = f and raise = "\<lambda>snap. observe_input_revision (snapshot_revision snap)", OF assms(1)] assms(2)
      by (auto simp: LeaderWatchFailed Compacted event_genuine_def accounted_def turn_settled_def le_max_iff_disj observe_input_revision_def)
  qed (use assms(3) LeaderWatchFailed in \<open>auto simp: leader_turn_def accounted_def turn_settled_def resume_turn_def is_transient_watch_def is_transient_def bind_result_def
      split: sum.splits CoordinationError.splits\<close>)
qed (use assms(3) in \<open>auto simp: leader_turn_def accounted_def turn_settled_def split: sum.splits\<close>)

text \<open>C14: No input is missed. As long as a leader goes on, every event of an input key that it was given
  has raised the revision it plans at, and was followed by the reading of a snapshot and, after
  transient failures at most, by a reconciliation of that snapshot that succeeded and left the
  state the loop went on with; when a live or state record was deleted by lease expiry, the expiry
  was recorded first. So have a poll and a compacted watch. The revision it plans at never
  decreases.\<close>

theorem leader_accounts_for_inputs:
  assumes "list_all (event_genuine (genuine_outcome e n dec ops codec b authority)) events" and "leader_loop events st = Some (Inr st')"
  shows "controller_revision st \<le> controller_revision st' \<and> list_all (\<lambda>event. accounted event st') events \<and> turns_settled events st st'"
  using assms
proof (induction events arbitrary: st)
  case (Cons event events)
  then obtain r t where t: "leader_turn event st = Some (Inr (r, t))" "leader_loop events t = Some (Inr st')"
    by (auto split: option.splits sum.splits)
  have "controller_revision st \<le> controller_revision t \<and> accounted event t \<and> turn_settled event st t"
    by (rule leader_turn_accounts[where Q = "genuine_outcome e n dec ops codec b authority", OF _ _ t(1)]) (use Cons.prems outcome_revision in \<open>simp_all, blast?\<close>)
  then show ?case using Cons.IH[OF _ t(2)] Cons.prems accounted_later[of event t st'] by auto
qed simp

text \<open>The expiry of a live record at revision 3, recorded and followed by a reconciliation.\<close>

definition idle_state :: "int \<Rightarrow> ControllerState" where
  "idle_state n = \<lparr>controller_pending = [], controller_sessions = bt_empty, controller_revision = Revision n\<rparr>"

definition quiet_reconciliation :: reconciliation where
  "quiet_reconciliation snap st = (if snap = quiet_snapshot \<and> st = idle_state 3 then [(Inr (), idle_state 4, LeaderRested)] else [])"

definition quiet_expiry :: leader_event where
  "quiet_expiry = LeaderWatched \<lparr>event_revision = Revision 3, event_key = ''live/a'', event_value = None, event_kind = DeleteEvent\<rparr>
     [Attempt (Inr (Revision 4)) LeaderRested] [Attempt (Inl (EtcdError ''timeout'')) LeaderRested, Attempt (Inr quiet_snapshot) LeaderRested] quiet_reconciliation"

theorem leader_accounts_for_inputs_witness:
  "leader_loop [quiet_expiry] (idle_state 2) = Some (Inr (idle_state 4)) \<and> accounted quiet_expiry (idle_state 4) \<and> turns_settled [quiet_expiry] (idle_state 2) (idle_state 4)"
proof -
  let ?p = "reconcile_current_snapshot 1 quiet_decoders demo_ops quiet_codec demo_backend demo_authority quiet_snapshot (idle_state 3)"
  let ?run = "mem_run ?p demo_store"
  have y: "snd (snd ?run) = Some (Inr (), idle_state 4)" by code_simp
  have "runs mem_etcd demo_store ?p (fst ?run) (fst (snd ?run)) (snd (snd ?run))" by (rule mem_run_mem) simp
  then have "genuine_outcome mem_etcd 1 quiet_decoders demo_ops quiet_codec demo_backend demo_authority quiet_snapshot (idle_state 3) (Inr ()) (idle_state 4)"
    unfolding genuine_outcome_def y by blast
  then have g: "list_all (event_genuine (genuine_outcome mem_etcd 1 quiet_decoders demo_ops quiet_codec demo_backend demo_authority)) [quiet_expiry]"
    by (simp add: event_genuine_def quiet_expiry_def quiet_reconciliation_def)
  have run: "leader_loop [quiet_expiry] (idle_state 2) = Some (Inr (idle_state 4))"
    by (simp add: quiet_expiry_def leader_turn_def is_controller_input_def starts_with_def is_lease_backed_delete_def refresh_def is_transient_def
        wait_for_leader_retry_def quiet_reconciliation_def observe_input_revision_def idle_state_def max_def less_eq_Revision_def)
  then show ?thesis using leader_accounts_for_inputs[OF g run] by (simp del: turns_settled.simps)
qed

section \<open>Progress records\<close>

text \<open>The key of a participant's progress in the watched namespace.\<close>

definition progress_event_key :: "InstanceId \<Rightarrow> string" where
  "progress_event_key i = ''metadata/'' @ encode_segment (processed_revision_key i)"

text \<open>C19: Progress records defeat publication. The record in which a participant reports its progress is
  not an input, so that its write does not move the input marker, but its event wakes the leader
  and raises the revision the leader plans at. Until the next input, every publication from a
  snapshot raised to that revision is refused, whatever the plan.\<close>

theorem progress_defeats_publication:
  assumes "etcd_contract e" and "valid_utf8 (processed_revision_key i)" and "event_key watched = progress_event_key i"
    and "controller_revision (observe_input_revision (event_revision watched) st) \<le> authoritative_revision snap"
    and "0 < revision_value (event_revision watched)" and "\<forall>r. planned_queue_revision snap = Some r \<longrightarrow> 0 < revision_value r"
    and "\<forall>t kv. others e s t \<longrightarrow> etcd_get e t (metadata_key b AUTHORITATIVE_INPUT_MARKER) = Some kv \<longrightarrow> kv_mod_revision kv < revision_value (event_revision watched)"
    and "runs e s (publish_controller_outputs_with_fence b (output_fence authority snap) view queue (planned_queue_revision snap)) log s' y"
  shows "is_controller_input (event_key watched) \<and> \<not> is_authoritative_metadata_key (processed_revision_key i) \<and> log = []"
proof -
  let ?publish = "publish_controller_outputs_with_fence b (output_fence authority snap) view queue (planned_queue_revision snap)"
  have le: "revision_value (event_revision watched) \<le> revision_value (authoritative_revision snap)"
    using assms(4) by (simp add: observe_input_revision_def less_eq_Revision_def max_def split: if_splits)
  have p: "publishes e b (output_fence authority snap) view queue (planned_queue_revision snap) log y"
    using assms(5,6) le by (intro publish_runs[OF assms(1) _ _ assms(8)]) (auto simp: output_fence_def commit_fence_def)
  have c: "all_commits well_formed_txn ?publish" "no_leases ?publish"
    by (simp_all add: publish_controller_outputs_with_fence_def publish_no_leases publish_commits well_formed_txn_def publish_ops_distinct)
  have "log = []"
  proof (cases log)
    case (Cons x rest)
    obtain t ops u where x: "x = (t, ops, u)" by (cases x)
    from p have "fence_holds e b (output_fence authority snap) (planned_queue_revision snap) t" by (simp add: Cons x publishes_def publication_def)
    then obtain kv where kv: "etcd_get e t (metadata_key b AUTHORITATIVE_INPUT_MARKER) = Some kv" "kv_mod_revision kv = revision_value (authoritative_revision snap)"
      by (auto simp: fence_holds_def output_fence_def commit_fence_def)
    have "others e s t" by (rule first_commit[OF assms(8,1) c Cons[unfolded x]])
    then show ?thesis using assms(7) kv le by fastforce
  qed simp
  moreover have "is_controller_input (event_key watched)"
  proof -
    have key: "strip_prefix ''metadata/'' (progress_event_key i) = Some (encode_segment (processed_revision_key i))"
      unfolding progress_event_key_def by (rule strip_prefix_append)
    have "decode_segment (encode_segment (processed_revision_key i)) = Inr (processed_revision_key i)" using assms(2) by (simp add: decode_encode)
    then show ?thesis unfolding is_controller_input_def assms(3) key option.case by (simp add: processed_revision_key_def starts_with_def)
  qed
  moreover have "\<not> is_authoritative_metadata_key (processed_revision_key i)"
    by (simp add: is_authoritative_metadata_key_def processed_revision_key_def starts_with_def ends_with_def)
  ultimately show ?thesis by blast
qed

definition raised_snapshot :: CoordinationSnapshot where
  "raised_snapshot = with_authoritative_revision (Revision 9) quiet_snapshot"

theorem progress_defeats_publication_witness:
  "is_controller_input (progress_event_key (InstanceId ''a'')) \<and>
   fst (mem_run (publish_controller_outputs_with_fence demo_backend (output_fence demo_authority raised_snapshot) ''{}'' ''[]'' None) demo_store) = []"
proof -
  let ?e = "mem_with (\<lambda>_ _. False)"
  let ?p = "publish_controller_outputs_with_fence demo_backend (output_fence demo_authority raised_snapshot) ''{}'' ''[]'' (planned_queue_revision raised_snapshot)"
  let ?event = "\<lparr>event_revision = Revision 9, event_key = progress_event_key (InstanceId ''a''), event_value = Some ''4'', event_kind = PutEvent\<rparr>"
  have queue: "planned_queue_revision raised_snapshot = None" by code_simp
  have utf8: "valid_utf8 (processed_revision_key (InstanceId ''a''))" by code_simp
  have raised: "controller_revision (observe_input_revision (event_revision ?event) (idle_state 4)) \<le> authoritative_revision raised_snapshot" by code_simp
  have four: "map_option kv_mod_revision (bt_get (mem_records demo_store) (metadata_key demo_backend AUTHORITATIVE_INPUT_MARKER)) = Some 4" by code_simp
  have only: "others ?e demo_store t \<Longrightarrow> t = demo_store" for t by (induction rule: rtranclp_induct) (simp_all add: mem_with_def)
  have marker: "\<forall>t kv. others ?e demo_store t \<longrightarrow> etcd_get ?e t (metadata_key demo_backend AUTHORITATIVE_INPUT_MARKER) = Some kv \<longrightarrow> kv_mod_revision kv < revision_value (event_revision ?event)"
    using four by (auto dest!: only simp del: split_paired_All) (simp add: mem_etcd_def)
  have run: "runs ?e demo_store ?p (fst (mem_run ?p demo_store)) (fst (snd (mem_run ?p demo_store))) (snd (snd (mem_run ?p demo_store)))"
    by (rule mem_run_runs) simp
  from progress_defeats_publication[OF mem_with_contract utf8 _ raised _ _ marker run] show ?thesis by (simp add: queue)
qed

section \<open>Terms of office\<close>

definition occurrences :: "'a \<Rightarrow> 'a list \<Rightarrow> nat" where
  "occurrences x xs = length (filter (\<lambda>y. y = x) xs)"

text \<open>When the controller process ends, each leadership it acquired was lost or released.\<close>

lemma leadership_settled:
  "controller_run_until identity message terms = (actions, Some result) \<Longrightarrow>
     occurrences (Emitted (AuthorityAcquired identity)) actions = occurrences (Emitted (AuthorityLost identity)) actions + occurrences Released actions"
  by (induction identity message terms arbitrary: actions rule: controller_run_until.induct)
    (auto simp: occurrences_def split: sum.splits bool.splits ElectionError.splits LeaderRunResult.splits prod.splits)

end
