(* ===== verification/Participant_Laws.thy ===== *)
theory Participant_Laws
  imports Participant Etcd_Queue_Laws
begin

text \<open>
  What executing one message does under interference: the callback runs only for a message that
  is queued, addressed to the live session and a legal step from the reported state, and at most
  one transaction changes the store, either the completion with the state the callback earned or
  the removal of the message.
\<close>

section \<open>Runs of participant programs\<close>

lemma runs_coordination: "runs e s (coordination p) log s' y \<longleftrightarrow> (\<exists>t x. runs e s p log t x \<and> others e t s' \<and> y = map_err ParticipantCoordination x)"
  by (auto simp: coordination_def runs_bind_client runs_Return)

lemma run_prun_then:
  assumes "runs e s (bind_prun p f) log s' y"
  obtains (error) err t where "runs e s p log t (Inl err)" "y = Inl err"
  | (result) l1 t x l2 where "runs e s p l1 t (Inr x)" "runs e t (f x) l2 s' y" "log = l1 @ l2"
proof -
  from assms obtain l1 t x l2 where *: "runs e s p l1 t x" "runs e t (case x of Inl err \<Rightarrow> Return (Inl err) | Inr x \<Rightarrow> f x) l2 s' y" "log = l1 @ l2"
    unfolding bind_prun_def runs_bind_client by blast
  show ?thesis
  proof (cases x)
    case (Inl err)
    then show ?thesis using * error[of t err] by (simp add: runs_Return)
  next
    case (Inr z)
    then show ?thesis using * result by simp
  qed
qed

lemma run_pure_prun_then:
  assumes "runs e s (bind_prun (Return r) f) log s' y"
  obtains (error) err where "r = Inl err" "y = Inl err" "log = []" | (result) x where "r = Inr x" "runs e s (f x) log s' y"
  using assms by (cases r) (auto simp: bind_prun_def runs_Return)

lemma all_commits_prun:
  "all_commits P p \<Longrightarrow> (\<And>x. all_commits P (f x)) \<Longrightarrow> all_commits P (bind_prun p f)"
  "all_commits P q \<Longrightarrow> all_commits P (coordination q)"
  by (auto simp: bind_prun_def coordination_def intro!: all_commits_bind_client split: sum.splits)

text \<open>A backend operation that sends no transaction, then the rest.\<close>

lemma run_silent_prun_then:
  assumes "runs e s (bind_prun (coordination p) f) log s' y" and "etcd_contract e" and "all_commits (\<lambda>_ _. False) p"
  obtains (error) err where "y = Inl (ParticipantCoordination err)" "log = []"
  | (result) t u x where "runs e s p [] t (Inr x)" "newer e s t" "newer e t u" "runs e u (f x) log s' y"
  using assms(1)
proof (cases rule: run_prun_then)
  case (error err t)
  then show ?thesis using that(1) silent_log[OF _ assms(3)] unfolding runs_coordination by (metis Inl_Inr_False map_err_Inl obj_sumE sum.inject(1) map_err_simps)
next
  case (result l1 t x l2)
  then obtain u z where *: "runs e s p l1 u z" "others e u t" "Inr x = map_err ParticipantCoordination z" unfolding runs_coordination by blast
  then have "z = Inr x" by (cases z) auto
  moreover have "l1 = []" by (rule silent_log[OF *(1) assms(3)])
  moreover have "newer e s u" by (rule runs_newer[OF *(1) assms(2) all_commits_mono[OF assms(3)]]) simp
  ultimately show ?thesis using *(1) result(2,3) others_newer[OF assms(2) *(2)] that(2)[of u x t] by simp
qed

lemma metadata_get_silent [simp]: "all_commits P (metadata_get b key)"
  by (auto simp: metadata_get_def raw_snapshot_def intro!: all_commits_bind split: option.splits)

lemma current_state_silent [simp]: "all_commits P (etcd_current_state b i session r p)"
  by (auto simp: etcd_current_state_def raw_snapshot_def intro!: all_commits_bind split: option.splits)

section \<open>Removal of unexecuted messages\<close>

lemma cleanup_loop_runs:
  assumes "etcd_contract e" and "faithful_codec codec" and "runs e s (cleanup_loop n codec b expected message) log s' y"
  shows "length log \<le> 1 \<and> (\<forall>(t, ops, u) \<in> set log. message_removed e codec b (message_id message) t u)"
  using assms(3)
proof (induction n arbitrary: s expected log)
  case 0
  then show ?case by (simp add: runs_Return)
next
  case (Suc n)
  let ?next = "bind_prun (coordination (metadata_get b PENDING_TRANSITIONS_KEY)) (\<lambda>entry. case entry of
         None \<Rightarrow> Return (Inr ()) | Some entry \<Rightarrow> cleanup_loop n codec b (entry_revision entry) message)"
  from Suc.prems obtain l1 t x l2 where x: "runs e s (remove_pending_transition codec b expected (message_id message)) l1 t x"
      "runs e t (case x of Inr _ \<Rightarrow> Return (Inr ()) | Inl StaleRevision \<Rightarrow> ?next | Inl err \<Rightarrow> Return (Inl (ParticipantCoordination err))) l2 s' y"
      "log = l1 @ l2"
    unfolding cleanup_loop.simps runs_bind_client by blast
  note r = removal_runs[OF assms(1,2) x(1)]
  show ?case
  proof (cases "x = Inl StaleRevision")
    case True
    with x r have "runs e t ?next log s' y" by simp
    from this assms(1) metadata_get_silent show ?thesis
    proof (cases rule: run_silent_prun_then)
      case (result v u entry)
      then show ?thesis using Suc.IH by (cases entry) (auto simp: runs_Return)
    qed simp
  next
    case False
    then have "l2 = []" using x(2) by (cases x) (auto simp: runs_Return split: CoordinationError.splits)
    then show ?thesis using r x(3) by simp
  qed
qed

section \<open>Delivery\<close>

text \<open>The state a participant takes its replica to be in.\<close>

definition replica_state_at :: "'s etcd \<Rightarrow> EtcdCoordination \<Rightarrow> InstanceId \<Rightarrow> SessionId \<Rightarrow> StateModelDefinition \<Rightarrow> TransitionMessage \<Rightarrow> 's \<Rightarrow> State" where
  "replica_state_at e b i session model message s =
     (case etcd_get e s (current_state_key b i session (ResourceId (message_resource message)) (PartitionId (message_partition message))) of
        None \<Rightarrow> model_initial_state model | Some kv \<Rightarrow> State (kv_value kv))"

text \<open>The message is a single legal step from the state in which the replica was seen, addressed to
  the session; later in the trace a transaction was applied in a store in which the message is
  queued and the session is live.\<close>

definition justified :: "'s etcd \<Rightarrow> message_codec \<Rightarrow> EtcdCoordination \<Rightarrow> InstanceId \<Rightarrow> SessionId \<Rightarrow> StateModelDefinition \<Rightarrow> TransitionMessage \<Rightarrow> 's event list \<Rightarrow> bool" where
  "justified e codec b i session model message tr \<longleftrightarrow>
     message_type message = ''STATE_TRANSITION'' \<and> target_session message = SessionId_wire_value session \<and>
     State (message_from message) \<noteq> State (message_to message) \<and>
     next_state_toward model (State (message_from message)) (State (message_to message)) = Some (State (message_to message)) \<and>
     (\<exists>w t u rest. tr = Saw w # rest \<and> replica_state_at e b i session model message w = State (message_from message) \<and>
        Did t [] u \<in> set rest \<and> is_live e b i session t \<and> queued e codec b message t)"

definition execution_of :: "TransitionMessage \<Rightarrow> TransitionExecution" where
  "execution_of message = \<lparr>execution_resource = ResourceId (message_resource message), execution_partition = PartitionId (message_partition message),
     execution_source = State (message_from message), execution_target = State (message_to message), execution_transition_id = message_id message\<rparr>"

definition unchanged :: "'s etcd \<Rightarrow> 's \<Rightarrow> 's \<Rightarrow> bool" where
  "unchanged e t u \<longleftrightarrow> etcd_get e u = etcd_get e t"

text \<open>The transactions that write.\<close>

abbreviation writes :: "('s \<times> TxnOp list \<times> 's) list \<Rightarrow> ('s \<times> TxnOp list \<times> 's) list" where
  "writes log \<equiv> filter (\<lambda>(t, ops, u). ops \<noteq> []) log"

definition delivers :: "'s etcd \<Rightarrow> message_codec \<Rightarrow> EtcdCoordination \<Rightarrow> TransitionMessage \<Rightarrow>
    ('s \<times> TxnOp list \<times> 's) list \<Rightarrow> ParticipantRuntimeError + Delivery \<Rightarrow> bool" where
  "delivers e codec b message log y \<longleftrightarrow> length (writes log) \<le> 1 \<and>
     (\<forall>(t, ops, u) \<in> set log. ops = [] \<and> unchanged e t u \<or> message_removed e codec b (message_id message) t u) \<and>
     (\<forall>ex r. y = Inr (Deliver ex r) \<longrightarrow> ex = execution_of message \<and> (\<forall>(t, ops, u) \<in> set log. ops = [] \<and> unchanged e t u)) \<and>
     (\<forall>r. y \<noteq> Inr (Settled (CompletionApplied r)))"

lemma delivers_silent [simp]:
  "delivers e codec b message [] (Inl err)" "delivers e codec b message [] (Inr (Settled AlreadyCompleted))"
  by (simp_all add: delivers_def)

lemma delivers_unchanged:
  assumes "\<forall>(t, ops, u) \<in> set log. ops = [] \<and> unchanged e t u"
    and "\<And>ex r. y = Inr (Deliver ex r) \<Longrightarrow> ex = execution_of message"
    and "\<And>r. y \<noteq> Inr (Settled (CompletionApplied r))"
  shows "delivers e codec b message log y"
proof -
  have "writes log = []" using assms(1) by (auto simp: filter_empty_conv)
  then show ?thesis using assms unfolding delivers_def by auto
qed

lemma settle_runs:
  assumes "etcd_contract e" and "faithful_codec codec" and "runs e s (settle codec b queue_revision message result) log s' y" and "\<forall>r. result \<noteq> CompletionApplied r"
    and "\<forall>(t, ops, u) \<in> set claims. ops = [] \<and> unchanged e t u"
  shows "delivers e codec b message (claims @ log) y"
proof -
  from assms(3)[unfolded settle_def] have "y = Inr (Settled result) \<or> (\<exists>err. y = Inl err)" "\<exists>t x. runs e s (participant_cleanup codec b queue_revision message) log t x"
    by (cases rule: run_prun_then; auto simp: runs_Return)+
  then obtain t x where run: "runs e s (participant_cleanup codec b queue_revision message) log t x" and y: "y = Inr (Settled result) \<or> (\<exists>err. y = Inl err)" by blast
  note c = cleanup_loop_runs[OF assms(1,2) run[unfolded participant_cleanup_def]]
  have "writes claims = []" using assms(5) by (auto simp: filter_empty_conv)
  then have "length (writes (claims @ log)) \<le> 1" using c by (auto intro: order.trans[OF length_filter_le])
  moreover have "\<forall>(t, ops, u) \<in> set (claims @ log). ops = [] \<and> unchanged e t u \<or> message_removed e codec b (message_id message) t u"
    using c assms(5) by auto
  ultimately show ?thesis using y assms(4) unfolding delivers_def by auto
qed

lemma claim_log_silent:
  assumes "etcd_contract e" and "runs e s (claim_pending_transition codec b i session message) log s' y"
  shows "\<forall>(t, ops, u) \<in> set log. ops = [] \<and> unchanged e t u"
proof -
  have "ops = [] \<and> unchanged e t u" if log: "(t, ops, u) \<in> set log" for t ops u
  proof -
    from runs_log[OF assms(2)[unfolded claim_pending_transition_def] claim_silent log] obtain cs where "ops = []" "etcd_txn e t cs ops = (True, u)" by blast
    then show ?thesis using contract_txn(3)[OF assms(1), of ops t cs] by (simp add: written_def fun_eq_iff unchanged_def)
  qed
  then show ?thesis by auto
qed

text \<open>Claim, then deliver.\<close>

definition claim_step :: "message_codec \<Rightarrow> EtcdCoordination \<Rightarrow> InstanceId \<Rightarrow> SessionId \<Rightarrow> TransitionMessage \<Rightarrow> Revision \<Rightarrow> Delivery prun" where
  "claim_step codec b i session message queue_revision =
     bind_prun (coordination (claim_pending_transition codec b i session message)) (\<lambda>claim. case claim of
       Claimed revision \<Rightarrow> Return (Inr (Deliver (execution_of message) revision))
     | ClaimSessionLost \<Rightarrow> settle codec b queue_revision message CompletionSessionLost
     | Withdrawn \<Rightarrow> Return (Inr (Settled AlreadyCompleted)))"

lemma claim_step_runs:
  assumes "etcd_contract e" and "faithful_codec codec" and "runs e s (claim_step codec b i session message queue_revision) log s' y"
  shows "delivers e codec b message log y"
  using assms(3)[unfolded claim_step_def]
proof (cases rule: run_prun_then)
  case (error err t)
  then obtain u z where "runs e s (claim_pending_transition codec b i session message) log u z" unfolding runs_coordination by blast
  then show ?thesis using error(2) by (intro delivers_unchanged claim_log_silent[OF assms(1)]) auto
next
  case (result l1 t x l2)
  then obtain u z where z: "runs e s (claim_pending_transition codec b i session message) l1 u z"
    unfolding runs_coordination by blast
  note silent = claim_log_silent[OF assms(1) z(1)]
  show ?thesis
  proof (cases x)
    case ClaimSessionLost
    then show ?thesis unfolding result(3) using result(2) silent by (intro settle_runs[OF assms(1,2)]) auto
  qed (use result(2,3) silent in \<open>auto simp: runs_Return intro!: delivers_unchanged\<close>)
qed

text \<open>Everything before the callback, by the state \<open>x\<close> that was read: it fails or settles the message
  without a callback, or the message is a legal step and is claimed.\<close>

definition legal_step :: "SessionId \<Rightarrow> StateModelDefinition \<Rightarrow> TransitionMessage \<Rightarrow> State option \<Rightarrow> bool" where
  "legal_step session model message x \<longleftrightarrow>
     message_type message = ''STATE_TRANSITION'' \<and> target_session message = SessionId_wire_value session \<and>
     message_from message \<noteq> [] \<and> message_to message \<noteq> [] \<and> State (message_from message) \<noteq> State (message_to message) \<and>
     next_state_toward model (State (message_from message)) (State (message_to message)) = Some (State (message_to message)) \<and>
     (case x of Some state \<Rightarrow> state | None \<Rightarrow> model_initial_state model) = State (message_from message)"

lemma pure_prun [simp]: "bind_prun (Return (Inr x)) f = f x" "bind_prun (Return (Inl err)) f = Return (Inl err)"
  by (simp_all add: bind_prun_def)

lemma deliver_message_cases:
  obtains (invalid) err where "deliver_message codec b i session model message queue_revision = Return (Inl err)"
  | (valid) f where "deliver_message codec b i session model message queue_revision =
      bind_prun (coordination (etcd_current_state b i session (ResourceId (message_resource message)) (PartitionId (message_partition message)))) f"
    "\<And>x. legal_step session model message x \<Longrightarrow> f x = claim_step codec b i session message queue_revision"
    "\<And>x. \<not> legal_step session model message x \<Longrightarrow> f x = settle codec b queue_revision message AlreadyCompleted \<or> (\<exists>err. f x = Return (Inl err))"
proof (cases "message_resource message = [] \<or> message_partition message = []")
  case True
  then show ?thesis
    by (cases "message_resource message = []") (auto simp: deliver_message_def message_resource_id_def message_partition_id_def
      ResourceId_new_def PartitionId_new_def validate_def intro: invalid)
next
  case False
  let ?r = "ResourceId (message_resource message)" and ?p = "PartitionId (message_partition message)"
  let ?f = "\<lambda>reported_state.
     let current = (case reported_state of Some state \<Rightarrow> state | None \<Rightarrow> model_initial_state model)
     in if message_type message \<noteq> ''STATE_TRANSITION'' \<or> target_session message \<noteq> SessionId_wire_value session
        then settle codec b queue_revision message AlreadyCompleted
        else
     bind_prun (Return (map_err (\<lambda>_. InvalidMessage) (State_new (message_from message)))) (\<lambda>source.
     bind_prun (Return (map_err (\<lambda>_. InvalidMessage) (State_new (message_to message)))) (\<lambda>target.
     if current = target \<or> current \<noteq> source \<or> next_state_toward model current target \<noteq> Some target
     then settle codec b queue_revision message AlreadyCompleted
     else
     bind_prun (Return (TransitionExecution_new message)) (\<lambda>execution.
     bind_prun (coordination (claim_pending_transition codec b i session message)) (\<lambda>claim. case claim of
       Claimed revision \<Rightarrow> Return (Inr (Deliver execution revision))
     | ClaimSessionLost \<Rightarrow> settle codec b queue_revision message CompletionSessionLost
     | Withdrawn \<Rightarrow> Return (Inr (Settled AlreadyCompleted))))))"
  have new: "message_resource_id message = Inr ?r" "message_partition_id message = Inr ?p"
    using False by (simp_all add: message_resource_id_def message_partition_id_def)
  have execution: "TransitionExecution_new message = Inr (execution_of message)" if "message_from message \<noteq> []" "message_to message \<noteq> []"
    using that False by (auto simp: TransitionExecution_new_def execution_of_def State_new_def ResourceId_new_def PartitionId_new_def validate_def)
  show ?thesis
    by (rule valid[of ?f]) (use execution in \<open>auto simp: deliver_message_def new Let_def legal_step_def claim_step_def State_new_def split: if_splits\<close>)
qed

lemma deliver_message_runs:
  assumes "etcd_contract e" and "faithful_codec codec" and "runs e s (deliver_message codec b i session model message queue_revision) log s' y"
  shows "delivers e codec b message log y"
proof (cases rule: deliver_message_cases[of codec b i session model message queue_revision])
  case (invalid err)
  then show ?thesis using assms(3) by (simp add: runs_Return)
next
  case (valid f)
  from assms(3)[unfolded valid(1)] assms(1) current_state_silent show ?thesis
  proof (cases rule: run_silent_prun_then)
    case (result t u x)
    then show ?thesis using valid(2,3)[of x] claim_step_runs[OF assms(1,2)] settle_runs[OF assms(1,2), where claims = "[]"]
      by (cases "legal_step session model message x") (auto simp: runs_Return)
  qed simp
qed

text \<open>What was seen and done before the callback.\<close>

lemma ensures_bind_prun:
  "ensures e Q (bind_prun p f) tr \<longleftrightarrow> ensures e (\<lambda>tr y. case y of Inl err \<Rightarrow> Q tr (Inl err) | Inr x \<Rightarrow> ensures e Q (f x) tr) p tr"
proof -
  have "(\<lambda>tr x. ensures e Q (case x of Inl err \<Rightarrow> Return (Inl err) | Inr x \<Rightarrow> f x) tr) =
      (\<lambda>tr y. case y of Inl err \<Rightarrow> Q tr (Inl err) | Inr x \<Rightarrow> ensures e Q (f x) tr)"
    by (auto simp: fun_eq_iff split: sum.splits)
  then show ?thesis by (simp add: bind_prun_def ensures_bind_client)
qed

lemma ensures_coordination: "ensures e Q (coordination p) tr \<longleftrightarrow> ensures e (\<lambda>tr y. Q tr (map_err ParticipantCoordination y)) p tr"
  by (simp add: coordination_def ensures_bind_client)

lemma ensures_current_state:
  assumes "\<And>tr err. Q tr (Inl err)" and "\<And>t. Q (tr @ [Saw t]) (Inr (map_option (\<lambda>kv. State (kv_value kv)) (etcd_get e t (current_state_key b i session r p))))"
  shows "ensures e Q (etcd_current_state b i session r p) tr"
proof -
  have "Q (tr @ [Saw t]) (Inr None)" if "etcd_get e t (current_state_key b i session r p) = None" for t using assms(2)[of t] that by simp
  moreover have "Q (tr @ [Saw t]) (Inr (Some (State (kv_value kv))))" if "etcd_get e t (current_state_key b i session r p) = Some kv" for t kv using assms(2)[of t] that by simp
  ultimately show ?thesis using assms(1)
    by (auto simp: etcd_current_state_def raw_snapshot_def ensures_requests State_new_def split: sum.splits option.splits)
qed

definition delivered_with :: "('s event list \<Rightarrow> bool) \<Rightarrow> 's event list \<Rightarrow> ParticipantRuntimeError + Delivery \<Rightarrow> bool" where
  "delivered_with P tr y \<longleftrightarrow> (\<forall>ex r. y = Inr (Deliver ex r) \<longrightarrow> P tr)"

lemma delivered_with_simps [simp]: "delivered_with P tr (Inl err)" "delivered_with P tr (Inr (Settled result))" "delivered_with P tr (Inr (Deliver ex r)) \<longleftrightarrow> P tr"
  by (simp_all add: delivered_with_def)

lemma settle_ensures: "ensures e (delivered_with P) (settle codec b queue_revision message result) tr"
  unfolding settle_def ensures_bind_prun by (rule ensures_mono[OF ensures_True]) (simp split: sum.splits)

lemma claim_step_ensures:
  assumes "etcd_contract e"
  shows "ensures e (delivered_with (\<lambda>tr. \<exists>t u rest. tr = before @ rest \<and> Did t [] u \<in> set rest \<and> is_live e b i session t \<and> queued e codec b message t \<and> writes (applied rest) = []))
    (claim_step codec b i session message queue_revision) before"
proof -
  have "ensures e (\<lambda>tr _. list_all (\<lambda>(t, ops, u). ops = []) (applied tr)) (claim_pending_transition codec b i session message) []"
    using ensures_commits[OF claim_silent, of "[]"] by (simp add: claim_pending_transition_def)
  from ensures_frame_Nil[OF ensures_conj[OF claim_loop_ensures[OF assms] this[unfolded claim_pending_transition_def]], of before]
  show ?thesis unfolding claim_step_def ensures_bind_prun ensures_coordination claim_pending_transition_def
  proof (rule ensures_mono, goal_cases)
    case (1 tr y)
    then obtain rest where rest: "tr = before @ rest" "claim_outcome e codec b i session message rest y" "list_all (\<lambda>(t, ops, u). ops = []) (applied rest)" by blast
    have "writes (applied rest) = []" using rest(3) by (auto simp: filter_empty_conv list_all_iff)
    then show ?case using rest(1,2) settle_ensures by (cases y) (auto simp: claim_outcome_def split: TransitionClaim.splits)
  qed
qed

lemma deliver_message_ensures:
  assumes "etcd_contract e"
  shows "ensures e (delivered_with (\<lambda>tr. justified e codec b i session model message tr \<and> writes (applied tr) = [])) (deliver_message codec b i session model message queue_revision) []"
proof (cases rule: deliver_message_cases[of codec b i session model message queue_revision])
  case (valid f)
  let ?Q = "delivered_with (\<lambda>tr. justified e codec b i session model message tr \<and> writes (applied tr) = [])"
  let ?state = "\<lambda>t. map_option (\<lambda>kv. State (kv_value kv)) (etcd_get e t (current_state_key b i session (ResourceId (message_resource message)) (PartitionId (message_partition message))))"
  have "ensures e ?Q (f (?state t)) [Saw t]" for t
  proof (cases "legal_step session model message (?state t)")
    case True
    have "replica_state_at e b i session model message t = State (message_from message)"
      using True by (simp add: legal_step_def replica_state_at_def split: option.splits)
    then show ?thesis unfolding valid(2)[OF True] using True
      by (intro ensures_mono[OF claim_step_ensures[OF assms]]) (auto simp: delivered_with_def justified_def legal_step_def)
  next
    case False
    then show ?thesis using valid(3)[OF False] settle_ensures by auto
  qed
  then show ?thesis unfolding valid(1) ensures_bind_prun ensures_coordination by (intro ensures_current_state) simp_all
qed simp

section \<open>Completion\<close>

text \<open>The state of the replica is published and its message removed, for the live session.\<close>

definition execution_published :: "'s etcd \<Rightarrow> message_codec \<Rightarrow> EtcdCoordination \<Rightarrow> InstanceId \<Rightarrow> SessionId \<Rightarrow> TransitionMessage \<Rightarrow> State option \<Rightarrow> 's \<Rightarrow> 's \<Rightarrow> bool" where
  "execution_published e codec b i session message st t u \<longleftrightarrow>
     (\<exists>r. completion e codec b \<lparr>completion_instance = i, completion_session = session, completion_queue_revision = r,
        completion_message_id = message_id message\<rparr> message st t u)"

lemma complete_retrying_runs:
  assumes "etcd_contract e" and "faithful_codec codec" and "runs e s (complete_retrying n codec b i session message st revision) log s' y"
  shows "length log \<le> 1 \<and> (\<forall>(t, ops, u) \<in> set log. execution_published e codec b i session message st t u \<or> message_removed e codec b (message_id message) t u) \<and>
    (\<forall>r. y = Inr (CompletionApplied r) \<longrightarrow> (\<exists>t ops u. log = [(t, ops, u)] \<and> execution_published e codec b i session message st t u \<and> revision_value r = etcd_revision e u))"
  using assms(3)
proof (induction n arbitrary: s revision log)
  case 0
  then show ?case by (simp add: runs_Return)
next
  case (Suc n)
  let ?fence = "\<lparr>completion_instance = i, completion_session = session, completion_queue_revision = revision, completion_message_id = message_id message\<rparr>"
  let ?next = "bind_prun (coordination (metadata_get b PENDING_TRANSITIONS_KEY)) (\<lambda>entry. case entry of
         None \<Rightarrow> Return (Inr AlreadyCompleted) | Some entry \<Rightarrow> complete_retrying n codec b i session message st (entry_revision entry))"
  from Suc.prems obtain l1 t x l2 where x: "runs e s (complete_pending_transition_with_fence codec b ?fence message st) l1 t x"
      "runs e t (case x of Inr result \<Rightarrow> Return (Inr result) | Inl StaleRevision \<Rightarrow> ?next | Inl err \<Rightarrow> Return (Inl (ParticipantCoordination err))) l2 s' y"
      "log = l1 @ l2"
    unfolding complete_retrying.simps runs_bind_client by blast
  note c = completion_runs[OF assms(1,2) x(1), unfolded completes_def]
  show ?case
  proof (cases "x = Inl StaleRevision")
    case True
    then have "l1 = []" using c by (auto simp: is_transient_def)
    with True x have "runs e t ?next log s' y" by simp
    from this assms(1) metadata_get_silent show ?thesis
    proof (cases rule: run_silent_prun_then)
      case (result v u entry)
      then show ?thesis using Suc.IH by (cases entry) (auto simp: runs_Return)
    qed simp
  next
    case False
    then have "l2 = []" "y = map_err ParticipantCoordination x" using x(2) by (cases x; auto simp: runs_Return split: CoordinationError.splits)+
    then show ?thesis using c x(3) unfolding execution_published_def by (cases x) fastforce+
  qed
qed

section \<open>Execution\<close>

lemma execution_delivered:
  assumes "etcd_contract e" and "traced e s (execute_message codec b i session model handler message queue_revision) tr s' (called, y)" and "called = Some ex"
  shows "\<exists>before after. tr = before @ after \<and> justified e codec b i session model message before \<and> writes (applied before) = []"
proof -
  let ?P = "\<lambda>tr. justified e codec b i session model message tr \<and> writes (applied tr) = []"
  have "ensures e (\<lambda>tr (called, y). \<forall>ex. called = Some ex \<longrightarrow> (\<exists>before after. tr = before @ after \<and> ?P before)) (execute_message codec b i session model handler message queue_revision) []"
    unfolding execute_message_def ensures_bind_client
  proof (rule ensures_mono[OF deliver_message_ensures[OF assms(1)]], goal_cases)
    case (1 tr x)
    show ?case
    proof (cases "\<exists>ex r. x = Inr (Deliver ex r)")
      case True
      then have "?P tr" using 1 by (auto simp: delivered_with_def)
      then show ?thesis using True by (auto simp: ensures_bind_client intro!: ensures_mono[OF ensures_frame_Nil[OF ensures_True, where before = tr]])
    qed (auto split: sum.splits Delivery.splits)
  qed
  from ensures_sound[OF assms(2) this] assms(3) show ?thesis by simp
qed

lemma execution_runs:
  assumes "etcd_contract e" and "faithful_codec codec"
    and "runs e s (execute_message codec b i session model handler message queue_revision) log s' (called, y)"
  shows "(\<forall>ex. called = Some ex \<longrightarrow> ex = execution_of message) \<and>
    length (writes log) \<le> 1 \<and>
    (\<forall>(t, ops, u) \<in> set log. unchanged e t u \<or> message_removed e codec b (message_id message) t u \<or>
       (\<exists>ex st. called = Some ex \<and> resulting_state_of (execution_target ex) (handler ex) = Inr st \<and>
          execution_published e codec b i session message st t u)) \<and>
    (\<forall>r. y = Inr (CompletionApplied r) \<longrightarrow> (\<exists>ex st t ops u. called = Some ex \<and> resulting_state_of (execution_target ex) (handler ex) = Inr st \<and>
       (t, ops, u) \<in> set log \<and> execution_published e codec b i session message st t u \<and> revision_value r = etcd_revision e u))"
proof -
  let ?finish = "\<lambda>ex revision. bind_prun (Return (resulting_state_of (execution_target ex) (handler ex))) (\<lambda>st.
    complete_retrying MAX_COMPLETION_FENCE_RETRIES codec b i session message st revision)"
  from assms(3) obtain l1 t x l2 where x: "runs e s (deliver_message codec b i session model message queue_revision) l1 t x" "log = l1 @ l2"
      "runs e t (case x of Inl err \<Rightarrow> Return (None, Inl err) | Inr (Settled result) \<Rightarrow> Return (None, Inr result)
        | Inr (Deliver ex revision) \<Rightarrow> bind_client (?finish ex revision) (\<lambda>y. Return (Some ex, y))) l2 s' (called, y)"
    unfolding execute_message_def runs_bind_client by blast
  note d = deliver_message_runs[OF assms(1,2) x(1), unfolded delivers_def]
  show ?thesis
  proof (cases "\<exists>ex revision. x = Inr (Deliver ex revision)")
    case False
    then have "l2 = []" "called = None" "\<forall>r. y \<noteq> Inr (CompletionApplied r)"
      using x(3) d by (auto simp: runs_Return split: sum.splits Delivery.splits)
    then show ?thesis using d x(2) by auto
  next
    case True
    then obtain ex revision where deliver: "x = Inr (Deliver ex revision)" by blast
    with d have ex: "ex = execution_of message" and l1: "\<forall>(t, ops, u) \<in> set l1. ops = [] \<and> unchanged e t u" by simp_all
    have w: "writes l1 = []" using l1 by (auto simp: filter_empty_conv)
    from x(3) deliver obtain u where run: "runs e t (?finish ex revision) l2 u y" and called: "called = Some ex" by (auto simp: runs_bind_client runs_Return)
    from run show ?thesis
    proof (cases rule: run_pure_prun_then)
      case (error err)
      then show ?thesis using ex l1 w called x(2) by auto
    next
      case (result st)
      note c = complete_retrying_runs[OF assms(1,2) result(2)]
      have "length (writes l2) \<le> 1" using c by (auto intro: order.trans[OF length_filter_le])
      then show ?thesis using ex l1 w called x(2) result(1) c by fastforce
    qed
  qed
qed

section \<open>Properties\<close>

text \<open>C3: Executing a message is safe. Under any interference, lost responses and any behaviour of
  the application, the callback runs only after a first part of the run that justifies it and
  changes nothing: the run was first answered from a store in which the message is a single legal
  step from the state of its replica, addressed to this session, and then applied the claim in a
  store in which the message was queued and the session live. At most one transaction changes
  the store: it removes the message, or it removes it and publishes the state that the callback
  earned, the target after success, nothing after a drop, \<open>ERROR\<close> after a failure, again only while
  the session is live. Without a callback no state is published, and a reported completion is that
  publication.\<close>

theorem execution_safe:
  assumes "etcd_contract e" and "faithful_codec codec"
    and "traced e s (execute_message codec b i session model handler message queue_revision) tr s' (called, y)"
  shows "(\<forall>ex. called = Some ex \<longrightarrow> ex = execution_of message \<and>
      (\<exists>before after. tr = before @ after \<and> justified e codec b i session model message before \<and> writes (applied before) = [])) \<and>
    length (writes (applied tr)) \<le> 1 \<and>
    (\<forall>(t, ops, u) \<in> set (applied tr). unchanged e t u \<or> message_removed e codec b (message_id message) t u \<or>
       (\<exists>ex st. called = Some ex \<and> resulting_state_of (execution_target ex) (handler ex) = Inr st \<and>
          execution_published e codec b i session message st t u)) \<and>
    (\<forall>r. y = Inr (CompletionApplied r) \<longrightarrow> (\<exists>ex st t ops u. called = Some ex \<and> resulting_state_of (execution_target ex) (handler ex) = Inr st \<and>
       (t, ops, u) \<in> set (applied tr) \<and> execution_published e codec b i session message st t u \<and> revision_value r = etcd_revision e u))"
  using execution_runs[OF assms(1,2) traced_runs[OF assms(3)]] execution_delivered[OF assms(1,3)] by simp

text \<open>Without interference, one part after the other.\<close>

lemma mem_run_bind:
  "mem_run (bind_client p g) s = (case mem_run p s of (l1, t, x) \<Rightarrow> case mem_run (g x) t of (l2, u, y) \<Rightarrow> (l1 @ l2, u, y))"
  by (induction p arbitrary: s) (auto split: prod.splits)

lemma demo_reads_state:
  "mem_run (etcd_current_state demo_backend (InstanceId ''a'') (SessionId 1) (ResourceId ''db'') (PartitionId ''p'')) demo_queue_store = ([], demo_queue_store, Inr None)"
  by code_simp

lemma demo_claims:
  "snd (mem_run (claim_pending_transition demo_codec demo_backend (InstanceId ''a'') (SessionId 1) demo_transition) demo_queue_store) = (demo_queue_store, Inr (Claimed (Revision 3)))"
  by code_simp

lemma demo_execution_completes:
  "snd (snd (mem_run (complete_pending_transition_with_fence demo_codec demo_backend demo_completion demo_transition (Some (State ''STANDBY''))) demo_queue_store)) =
     Inr (CompletionApplied (Revision 4))"
  by code_simp

lemma demo_step: "model_initial_state leader_standby = State ''OFFLINE'' \<and> next_state_toward leader_standby (State ''OFFLINE'') (State ''STANDBY'') = Some (State ''STANDBY'')"
  by code_simp

lemma demo_delivers:
  "snd (mem_run (deliver_message demo_codec demo_backend (InstanceId ''a'') (SessionId 1) leader_standby demo_transition (Revision 3)) demo_queue_store) =
     (demo_queue_store, Inr (Deliver (execution_of demo_transition) (Revision 3)))"
proof -
  have m: "message_resource_id demo_transition = Inr (ResourceId ''db'')" "message_partition_id demo_transition = Inr (PartitionId ''p'')"
    "TransitionExecution_new demo_transition = Inr (execution_of demo_transition)"
    "message_type demo_transition = ''STATE_TRANSITION''" "target_session demo_transition = SessionId_wire_value (SessionId 1)"
    "State_new (message_from demo_transition) = Inr (State ''OFFLINE'')" "State_new (message_to demo_transition) = Inr (State ''STANDBY'')" by code_simp+
  show ?thesis unfolding deliver_message_def m
    by (simp add: bind_prun_def coordination_def mem_run_bind demo_reads_state demo_step prod.case_eq_if demo_claims)
qed

lemma demo_execution:
  "snd (snd (mem_run (execute_message demo_codec demo_backend (InstanceId ''a'') (SessionId 1) leader_standby (\<lambda>_. Inr ()) demo_transition (Revision 3)) demo_queue_store)) =
     (Some (execution_of demo_transition), Inr (CompletionApplied (Revision 4)))"
proof -
  have st: "resulting_state_of (execution_target (execution_of demo_transition)) (Inr ()) = Inr (Some (State ''STANDBY''))" by code_simp
  have fence: "\<lparr>completion_instance = InstanceId ''a'', completion_session = SessionId 1, completion_queue_revision = Revision 3, completion_message_id = message_id demo_transition\<rparr> = demo_completion"
    by (simp add: demo_completion_def demo_transition_def)
  have n: "MAX_COMPLETION_FENCE_RETRIES = Suc 255" by (simp add: MAX_COMPLETION_FENCE_RETRIES_def)
  show ?thesis unfolding execute_message_def n complete_retrying.simps
    by (simp add: bind_prun_def mem_run_bind prod.case_eq_if demo_delivers st fence demo_execution_completes)
qed

theorem execution_safe_witness:
  "\<exists>tr s' before after t ops u.
     traced mem_etcd demo_queue_store (execute_message demo_codec demo_backend (InstanceId ''a'') (SessionId 1) leader_standby (\<lambda>_. Inr ()) demo_transition (Revision 3)) tr s'
       (Some (execution_of demo_transition), Inr (CompletionApplied (Revision 4))) \<and>
     tr = before @ after \<and> justified mem_etcd demo_codec demo_backend (InstanceId ''a'') (SessionId 1) leader_standby demo_transition before \<and>
     Did t ops u \<in> set tr \<and> execution_published mem_etcd demo_codec demo_backend (InstanceId ''a'') (SessionId 1) demo_transition (Some (State ''STANDBY'')) t u"
proof -
  let ?p = "execute_message demo_codec demo_backend (InstanceId ''a'') (SessionId 1) leader_standby (\<lambda>_. Inr ()) demo_transition (Revision 3)"
  have st: "resulting_state_of (execution_target (execution_of demo_transition)) (Inr ()) = Inr (Some (State ''STANDBY''))" by code_simp
  obtain tr where tr: "traced mem_etcd demo_queue_store ?p tr (fst (snd (mem_run ?p demo_queue_store))) (Some (execution_of demo_transition), Inr (CompletionApplied (Revision 4)))"
    by (rule mem_traced[of demo_queue_store ?p, unfolded demo_execution])
  note safe = execution_safe[OF mem_contract demo_codec_faithful tr]
  then obtain before after where split: "tr = before @ after" "justified mem_etcd demo_codec demo_backend (InstanceId ''a'') (SessionId 1) leader_standby demo_transition before" by blast
  from safe obtain t ops u where "Did t ops u \<in> set tr" "execution_published mem_etcd demo_codec demo_backend (InstanceId ''a'') (SessionId 1) demo_transition (Some (State ''STANDBY'')) t u"
    by (auto simp: st applied_iff simp del: split_paired_Ex)
  with tr split show ?thesis by blast
qed

end
