(* ===== verification/Participant_Runtime.thy ===== *)
theory Participant_Runtime
  imports Participant
begin

text \<open>
  The participant process (\<^verbatim>\<open>src/participant.rs\<close>): scheduling of queue messages onto workers, the
  epilogue of a worker, keepalive with its deadline, registration, and the event loop of
  \<open>run_until\<close> as a step relation in which the workers interleave with the loop. What the store
  answers is left open in the steps; the requests themselves are in \<open>Participant\<close>.
\<close>

section \<open>Configuration\<close>

text \<open>Durations are in nanoseconds.\<close>

definition KEEPALIVE_PERIOD :: nat where
  "KEEPALIVE_PERIOD = 250000000"

text \<open>The \<open>state_model\<close> field of a resource's metadata document, read by \<^verbatim>\<open>serde_json\<close>.\<close>

definition state_model_for ::
    "(string \<Rightarrow> string option) \<Rightarrow> EtcdCoordination \<Rightarrow> StateModelDefinition option \<Rightarrow> string \<Rightarrow> StateModelDefinition prun" where
  "state_model_for decode b configured resource = (case configured of
     Some model \<Rightarrow> Return (Inr model)
   | None \<Rightarrow> bind_prun (coordination (metadata_get b (''controller/resources/'' @ resource))) (\<lambda>entry.
       bind_prun (Return (ok_or entry InvalidMessage)) (\<lambda>entry.
       bind_prun (Return (ok_or (decode (case entry_value entry of Some v \<Rightarrow> v | None \<Rightarrow> '''')) InvalidMessage)) (\<lambda>state_model.
       if state_model \<noteq> ''LeaderStandby'' then Return (Inl InvalidMessage) else Return (Inr leader_standby)))))"

section \<open>Scheduling\<close>

definition execution_key :: "TransitionMessage \<Rightarrow> string" where
  "execution_key message = message_resource message @ ''/'' @ message_partition message"

text \<open>One pass over the queue under the lock: the keys in flight, the observed identifiers and the
  messages to start.\<close>

fun scan_messages :: "InstanceId \<Rightarrow> TransitionMessage list \<Rightarrow> (string, string) btree \<Rightarrow>
    (string, string) btree \<times> string list \<times> (TransitionMessage \<times> string) list" where
  "scan_messages i [] guard = (guard, [], [])"
| "scan_messages i (message # messages) guard =
     (if message_instance message \<noteq> InstanceId_as_str i \<or> message_id message = [] then scan_messages i messages guard
      else let key = execution_key message
      in case bt_get guard key of
           Some existing \<Rightarrow>
             (case scan_messages i messages guard of (g, observed, scheduled) \<Rightarrow>
                (g, (if existing = message_id message then message_id message # observed else observed), scheduled))
         | None \<Rightarrow>
             (case scan_messages i messages (bt_insert key (message_id message) guard) of (g, observed, scheduled) \<Rightarrow>
                (g, message_id message # observed, (message, key) # scheduled)))"

section \<open>Workers\<close>

text \<open>A worker executes its message, advances the completion frontier, records the processed
  revision if the frontier moved, releases its key, and is joined.\<close>

datatype worker_phase =
    Executing
  | Recording Revision
  | Releasing "ParticipantRuntimeError + unit"
  | Ended "ParticipantRuntimeError + unit"

record worker =
  worker_message :: TransitionMessage
  worker_key :: string
  worker_session :: SessionId
  worker_revision :: Revision
  worker_phase :: worker_phase

text \<open>After \<open>execute_message\<close>: every completed result counts for the frontier.\<close>

definition after_execution :: "ParticipantRuntimeError + CompletionResult \<Rightarrow> worker \<Rightarrow> CompletionState \<Rightarrow> worker \<times> CompletionState" where
  "after_execution result w st = (case result of
     Inl err \<Rightarrow> (w\<lparr>worker_phase := Releasing (Inl err)\<rparr>, st)
   | Inr _ \<Rightarrow> (case complete (message_id (worker_message w)) st of
       (None, st') \<Rightarrow> (w\<lparr>worker_phase := Releasing (Inr ())\<rparr>, st')
     | (Some processed, st') \<Rightarrow> (w\<lparr>worker_phase := Recording processed\<rparr>, st')))"

definition after_recording :: "CoordinationError + Revision \<Rightarrow> worker \<Rightarrow> worker" where
  "after_recording result w = w\<lparr>worker_phase := Releasing (map_err ParticipantCoordination (map_sum id (\<lambda>_. ()) result))\<rparr>"

definition release_key :: "worker \<Rightarrow> (string, string) btree \<Rightarrow> (string, string) btree" where
  "release_key w guard =
     (if bt_get guard (worker_key w) = Some (message_id (worker_message w)) then bt_remove (worker_key w) guard else guard)"

text \<open>A joined task returned, or panicked or was aborted.\<close>

definition handle_worker_result :: "(string + (ParticipantRuntimeError + unit)) option \<Rightarrow> ParticipantRuntimeError + unit" where
  "handle_worker_result joined = (case joined of
     None \<Rightarrow> Inr ()
   | Some (Inr (Inr _)) \<Rightarrow> Inr ()
   | Some (Inr (Inl err)) \<Rightarrow> Inl err
   | Some (Inl msg) \<Rightarrow> Inl (WorkerJoin msg))"

section \<open>Keepalive and registration\<close>

datatype KeepaliveOutcome = Healthy | Expired | ShutdownRequested

text \<open>One pass of the loop: the time since the last keepalive at its start, what the requests
  answer, the time since the last keepalive when a retry is decided, and whether the wait before
  the next pass ends by the shutdown.\<close>

record keepalive_attempt =
  attempt_start :: nat
  first_current :: "CoordinationError + bool"
  keep_answer :: "CoordinationError + unit"
  second_current :: "CoordinationError + bool"
  attempt_retry :: nat
  attempt_shutdown :: bool

text \<open>\<open>None\<close>: still in the loop.\<close>

fun keep_alive_until_available :: "nat \<Rightarrow> keepalive_attempt list \<Rightarrow> (ParticipantRuntimeError + KeepaliveOutcome) option" where
  "keep_alive_until_available ttl [] = None"
| "keep_alive_until_available ttl (a # attempts) =
     (let retry = (if ttl - attempt_retry a = 0 then Some (Inr Expired)
                   else if attempt_shutdown a then Some (Inr ShutdownRequested) else keep_alive_until_available ttl attempts)
      in if ttl \<le> attempt_start a then Some (Inr Expired)
         else case first_current a of
           Inr False \<Rightarrow> Some (Inr Expired)
         | Inl (EtcdError _) \<Rightarrow> retry
         | Inl err \<Rightarrow> Some (Inl (ParticipantCoordination err))
         | Inr True \<Rightarrow>
             (case keep_answer a of
                Inr _ \<Rightarrow>
                  (case second_current a of
                     Inr True \<Rightarrow> Some (Inr Healthy)
                   | Inr False \<Rightarrow> Some (Inr Expired)
                   | Inl (EtcdError _) \<Rightarrow> retry
                   | Inl err \<Rightarrow> Some (Inl (ParticipantCoordination err)))
              | Inl (EtcdError _) \<Rightarrow> retry
              | Inl LeaseExpired \<Rightarrow> Some (Inr Expired)
              | Inl err \<Rightarrow> Some (Inl (ParticipantCoordination err))))"

text \<open>Registration waits for the live record of an earlier incarnation to go. Every pass that
  does not register ends with the shutdown (\<open>True\<close>) or with the sleep. \<open>None\<close>: still waiting.\<close>

fun register_session_until :: "EtcdCoordination \<Rightarrow> InstanceId \<Rightarrow> RegistrationOptions \<Rightarrow> bool list \<Rightarrow>
    (ParticipantRuntimeError + EtcdParticipantSession option) option client" where
  "register_session_until b i options [] = Return None"
| "register_session_until b i options (shutdown # signals) =
     (let wait = (if shutdown then Return (Some (Inr None)) else register_session_until b i options signals)
      in bind_client (live_session b i) (\<lambda>r. case r of
           Inl err \<Rightarrow> Return (Some (Inl (ParticipantCoordination err)))
         | Inr (Some _) \<Rightarrow> wait
         | Inr None \<Rightarrow> bind_client (register b i options) (\<lambda>r. case r of
             Inr session \<Rightarrow> Return (Some (Inr (Some session)))
           | Inl RegistrationLost \<Rightarrow> wait
           | Inl err \<Rightarrow> Return (Some (Inl (ParticipantCoordination err))))))"

section \<open>The event loop\<close>

text \<open>Where the loop is: waiting for an event, between the scan of a queue and the start of its
  workers, draining, re-registering after a lost lease, or returned. Returning drops the worker
  set, which aborts what is left in it.\<close>

datatype loop_phase =
    Serving
  | Observing "string list" "(TransitionMessage \<times> string) list"
  | Spawning "(TransitionMessage \<times> string) list"
  | DrainingWithSession
  | DrainingWithoutSession
  | Reconnecting
  | Requeueing
  | Exited "ParticipantRuntimeError + unit"

record participant =
  in_flight :: "(string, string) btree"
  frontier_state :: CompletionState
  workers :: "worker list"
  cancelled :: bool
  loop_session :: EtcdParticipantSession
  queue_messages :: "TransitionMessage list"
  queue_revision :: Revision
  loop_phase :: loop_phase

definition receive_queue :: "InstanceId \<Rightarrow> TransitionMessage list \<Rightarrow> Revision \<Rightarrow> participant \<Rightarrow> participant" where
  "receive_queue i messages revision st =
     (case scan_messages i messages (in_flight st) of (guard, observed, scheduled) \<Rightarrow>
        st\<lparr>in_flight := guard, queue_messages := messages, queue_revision := revision, loop_phase := Observing observed scheduled\<rparr>)"

definition observe_scheduled :: "string list \<Rightarrow> (TransitionMessage \<times> string) list \<Rightarrow> participant \<Rightarrow> participant" where
  "observe_scheduled observed scheduled st =
     st\<lparr>frontier_state := frontier_observe (queue_revision st) observed (frontier_state st), loop_phase := Spawning scheduled\<rparr>"

definition spawn_worker :: "TransitionMessage \<times> string \<Rightarrow> (TransitionMessage \<times> string) list \<Rightarrow> participant \<Rightarrow> participant" where
  "spawn_worker x rest st =
     st\<lparr>workers := workers st @ [\<lparr>worker_message = fst x, worker_key = snd x, worker_session = registered_session (loop_session st),
          worker_revision = queue_revision st, worker_phase = Executing\<rparr>], loop_phase := Spawning rest\<rparr>"

definition exit_with :: "ParticipantRuntimeError + unit \<Rightarrow> participant \<Rightarrow> participant" where
  "exit_with result st = st\<lparr>workers := [], loop_phase := Exited result\<rparr>"

definition start_drain :: "loop_phase \<Rightarrow> participant \<Rightarrow> participant" where
  "start_drain drain st = st\<lparr>cancelled := True, loop_phase := drain\<rparr>"

definition adopt_session :: "EtcdParticipantSession \<Rightarrow> participant \<Rightarrow> participant" where
  "adopt_session session st = st\<lparr>cancelled := False, loop_session := session, loop_phase := Requeueing\<rparr>"

definition set_worker :: "nat \<Rightarrow> worker \<Rightarrow> participant \<Rightarrow> participant" where
  "set_worker k w st = st\<lparr>workers := (workers st)[k := w]\<rparr>"

definition drop_worker :: "nat \<Rightarrow> participant \<Rightarrow> participant" where
  "drop_worker k st = st\<lparr>workers := take k (workers st) @ drop (Suc k) (workers st)\<rparr>"

definition joins :: "loop_phase \<Rightarrow> bool" where
  "joins current \<longleftrightarrow> current \<in> {Serving, DrainingWithSession, DrainingWithoutSession}"

definition participant_start :: "InstanceId \<Rightarrow> EtcdParticipantSession \<Rightarrow> TransitionMessage list \<Rightarrow> Revision \<Rightarrow> participant" where
  "participant_start i session messages revision =
     receive_queue i messages revision \<lparr>in_flight = bt_empty, frontier_state = CompletionState_new, workers = [], cancelled = False,
       loop_session = session, queue_messages = [], queue_revision = revision, loop_phase = Serving\<rparr>"

inductive participant_step :: "InstanceId \<Rightarrow> participant \<Rightarrow> participant \<Rightarrow> bool" for i :: InstanceId where
  queue_event: "loop_phase st = Serving \<Longrightarrow> participant_step i st (receive_queue i messages revision st)"
| serving_error: "loop_phase st = Serving \<Longrightarrow> participant_step i st (exit_with (Inl err) st)"
| observe_step: "loop_phase st = Observing observed scheduled \<Longrightarrow> participant_step i st (observe_scheduled observed scheduled st)"
| spawn_step: "loop_phase st = Spawning (x # rest) \<Longrightarrow> participant_step i st (spawn_worker x rest st)"
| spawn_error: "loop_phase st = Spawning (x # rest) \<Longrightarrow> participant_step i st (exit_with (Inl err) st)"
| spawn_done: "loop_phase st = Spawning [] \<Longrightarrow> participant_step i st (st\<lparr>loop_phase := Serving\<rparr>)"
| shutdown_step: "loop_phase st = Serving \<Longrightarrow> participant_step i st (start_drain DrainingWithSession st)"
| expired_step: "loop_phase st = Serving \<Longrightarrow> participant_step i st (start_drain DrainingWithoutSession st)"
| drain_error: "loop_phase st = DrainingWithSession \<Longrightarrow> participant_step i st (exit_with (Inl (ParticipantCoordination err)) st)"
| drained_exit: "loop_phase st = DrainingWithSession \<Longrightarrow> workers st = [] \<Longrightarrow> participant_step i st (exit_with (Inr ()) st)"
| drained_reconnect: "loop_phase st = DrainingWithoutSession \<Longrightarrow> workers st = [] \<Longrightarrow> participant_step i st (st\<lparr>loop_phase := Reconnecting\<rparr>)"
| reconnect_step: "loop_phase st = Reconnecting \<Longrightarrow> participant_step i st (adopt_session session st)"
| requeue_step: "loop_phase st = Requeueing \<Longrightarrow> participant_step i st (receive_queue i messages revision st)"
| recovery_ends: "loop_phase st \<in> {Reconnecting, Requeueing} \<Longrightarrow> participant_step i st (exit_with result st)"
| execution_step: "\<not> (\<exists>r. loop_phase st = Exited r) \<Longrightarrow> k < length (workers st) \<Longrightarrow> worker_phase (workers st ! k) = Executing \<Longrightarrow>
    after_execution result (workers st ! k) (frontier_state st) = (w, fs) \<Longrightarrow> participant_step i st (set_worker k w (st\<lparr>frontier_state := fs\<rparr>))"
| recording_step: "\<not> (\<exists>r. loop_phase st = Exited r) \<Longrightarrow> k < length (workers st) \<Longrightarrow> worker_phase (workers st ! k) = Recording processed \<Longrightarrow>
    participant_step i st (set_worker k (after_recording answer (workers st ! k)) st)"
| release_step: "\<not> (\<exists>r. loop_phase st = Exited r) \<Longrightarrow> k < length (workers st) \<Longrightarrow> worker_phase (workers st ! k) = Releasing result \<Longrightarrow>
    participant_step i st (set_worker k ((workers st ! k)\<lparr>worker_phase := Ended result\<rparr>) (st\<lparr>in_flight := release_key (workers st ! k) (in_flight st)\<rparr>))"
| join_rescan: "loop_phase st = Serving \<Longrightarrow> k < length (workers st) \<Longrightarrow> worker_phase (workers st ! k) = Ended result \<Longrightarrow>
    handle_worker_result (Some (Inr result)) = Inr () \<Longrightarrow>
    participant_step i st (receive_queue i (queue_messages st) (queue_revision st) (drop_worker k st))"
| join_drain: "loop_phase st \<in> {DrainingWithSession, DrainingWithoutSession} \<Longrightarrow> k < length (workers st) \<Longrightarrow> worker_phase (workers st ! k) = Ended result \<Longrightarrow>
    handle_worker_result (Some (Inr result)) = Inr () \<Longrightarrow> participant_step i st (drop_worker k st)"
| join_error: "joins (loop_phase st) \<Longrightarrow> k < length (workers st) \<Longrightarrow> worker_phase (workers st ! k) = Ended result \<Longrightarrow>
    handle_worker_result (Some (Inr result)) = Inl err \<Longrightarrow> participant_step i st (exit_with (Inl err) st)"
| join_panic: "joins (loop_phase st) \<Longrightarrow> k < length (workers st) \<Longrightarrow> worker_phase (workers st ! k) = Executing \<Longrightarrow>
    handle_worker_result (Some (Inl panic)) = Inl err \<Longrightarrow> participant_step i st (exit_with (Inl err) st)"

inductive participant_reachable :: "InstanceId \<Rightarrow> participant \<Rightarrow> bool" for i :: InstanceId where
  start: "participant_reachable i (participant_start i session messages revision)"
| advance: "participant_reachable i st \<Longrightarrow> participant_step i st st' \<Longrightarrow> participant_reachable i st'"

end
