(* ===== verification/Participant_Runtime_Laws.thy ===== *)
theory Participant_Runtime_Laws
  imports Participant_Runtime
begin

text \<open>
  Invariants of the participant process over all interleavings of its loop and its workers, and
  the deadline of the keepalive loop.
\<close>

section \<open>Scheduling\<close>

definition addressed :: "InstanceId \<Rightarrow> TransitionMessage \<Rightarrow> bool" where
  "addressed i m \<longleftrightarrow> message_instance m = InstanceId_as_str i \<and> message_id m \<noteq> []"

text \<open>What a scan does: it claims the free keys, one message each, and leaves no addressed message
  without a claimed key.\<close>

definition scanned :: "InstanceId \<Rightarrow> TransitionMessage list \<Rightarrow> (string, string) btree \<Rightarrow> (string, string) btree \<Rightarrow> (TransitionMessage \<times> string) list \<Rightarrow> bool" where
  "scanned i ms g g' scheduled \<longleftrightarrow> distinct (map snd scheduled) \<and>
     (\<forall>(m, k) \<in> set scheduled. addressed i m \<and> k = execution_key m \<and> bt_get g k = None) \<and>
     (\<forall>k v. bt_get g' k = Some v \<longleftrightarrow> bt_get g k = Some v \<or> (\<exists>m. (m, k) \<in> set scheduled \<and> v = message_id m)) \<and>
     (\<forall>m \<in> set ms. addressed i m \<longrightarrow> bt_get g' (execution_key m) \<noteq> None)"

lemma scanned_claim:
  assumes "scanned i ms (bt_insert (execution_key m) (message_id m) g) g' scheduled" and "addressed i m" and "bt_get g (execution_key m) = None"
  shows "scanned i (m # ms) g g' ((m, execution_key m) # scheduled)"
proof -
  note a = assms(1)[unfolded scanned_def]
  have new: "bt_get (bt_insert (execution_key m) (message_id m) g) k = (if k = execution_key m then Some (message_id m) else bt_get g k)" for k by simp
  have free: "execution_key m \<notin> snd ` set scheduled" using a by (auto simp: new split: if_splits)
  have get: "bt_get g' k = Some v \<longleftrightarrow> bt_get g k = Some v \<or> (\<exists>x. (x, k) \<in> set ((m, execution_key m) # scheduled) \<and> v = message_id x)" for k v
    using a assms(3) free by (auto simp: new split: if_splits)
  then have "bt_get g' (execution_key m) = Some (message_id m)" by auto
  then have attended: "\<forall>x \<in> set (m # ms). addressed i x \<longrightarrow> bt_get g' (execution_key x) \<noteq> None"
    using conjunct2[OF conjunct2[OF conjunct2[OF a]]] by (simp del: not_None_eq)
  have "\<forall>(x, k) \<in> set scheduled. addressed i x \<and> k = execution_key x \<and> bt_get g k = None" using a by (auto simp: new split: if_splits)
  then have claims: "\<forall>(x, k) \<in> set ((m, execution_key m) # scheduled). addressed i x \<and> k = execution_key x \<and> bt_get g k = None"
    using assms(2,3) by simp
  have "distinct (map snd ((m, execution_key m) # scheduled))" using a free by simp
  then show ?thesis unfolding scanned_def by (intro conjI allI claims get attended)
qed

lemma scanned_keep:
  assumes "scanned i ms g g' scheduled" and "\<not> addressed i m \<or> bt_get g (execution_key m) \<noteq> None"
  shows "scanned i (m # ms) g g' scheduled"
  using assms unfolding scanned_def by fastforce

lemma scan_messages_scanned: "scan_messages i ms g = (g', observed, scheduled) \<Longrightarrow> scanned i ms g g' scheduled"
proof (induction i ms g arbitrary: g' observed scheduled rule: scan_messages.induct)
  case (1 i g)
  then show ?case by (simp add: scanned_def)
next
  case (2 i m ms g)
  show ?case
  proof (cases "addressed i m")
    case False
    then show ?thesis using 2 by (intro scanned_keep) (auto simp: addressed_def)
  next
    case True
    then have go: "\<not> (message_instance m \<noteq> InstanceId_as_str i \<or> message_id m = [])" by (simp add: addressed_def)
    show ?thesis
    proof (cases "bt_get g (execution_key m)")
      case None
      then show ?thesis using "2.prems" "2.IH"(2)[OF go refl None] go True
        by (auto simp: Let_def split: prod.splits intro!: scanned_claim)
    next
      case (Some existing)
      then show ?thesis using "2.prems" "2.IH"(3)[OF go refl Some] go
        by (auto simp: Let_def split: prod.splits intro!: scanned_keep)
    qed
  qed
qed

section \<open>The invariant\<close>

text \<open>The replica keys that are taken, with the message that holds each: messages about to be
  started, and workers that have not released their key.\<close>

fun scheduled_of :: "loop_phase \<Rightarrow> (TransitionMessage \<times> string) list" where
  "scheduled_of (Observing observed scheduled) = scheduled"
| "scheduled_of (Spawning scheduled) = scheduled"
| "scheduled_of _ = []"

definition holds_key :: "worker \<Rightarrow> bool" where
  "holds_key w \<longleftrightarrow> (case worker_phase w of Ended _ \<Rightarrow> False | _ \<Rightarrow> True)"

definition claim_of :: "worker \<Rightarrow> string \<times> string" where
  "claim_of w = (worker_key w, message_id (worker_message w))"

definition claims :: "participant \<Rightarrow> (string \<times> string) list" where
  "claims st = map (\<lambda>(m, k). (k, message_id m)) (scheduled_of (loop_phase st)) @ map claim_of (filter holds_key (workers st))"

definition attends :: "loop_phase \<Rightarrow> bool" where
  "attends current \<longleftrightarrow> (case current of Serving \<Rightarrow> True | Observing _ _ \<Rightarrow> True | Spawning _ \<Rightarrow> True | _ \<Rightarrow> False)"

definition participant_ok :: "InstanceId \<Rightarrow> participant \<Rightarrow> bool" where
  "participant_ok i st \<longleftrightarrow> (case loop_phase st of Exited _ \<Rightarrow> workers st = [] | _ \<Rightarrow>
     distinct (map fst (claims st)) \<and>
     (\<forall>k v. bt_get (in_flight st) k = Some v \<longleftrightarrow> (k, v) \<in> set (claims st)) \<and>
     (\<forall>(m, k) \<in> set (scheduled_of (loop_phase st)). addressed i m \<and> k = execution_key m) \<and>
     (\<forall>w \<in> set (workers st). addressed i (worker_message w) \<and> worker_key w = execution_key (worker_message w) \<and>
        worker_session w = registered_session (loop_session st)) \<and>
     (loop_phase st \<in> {Reconnecting, Requeueing} \<longrightarrow> workers st = []) \<and>
     (attends (loop_phase st) \<longrightarrow> (\<forall>m \<in> set (queue_messages st). addressed i m \<longrightarrow>
        execution_key m \<in> snd ` set (scheduled_of (loop_phase st)) \<union> worker_key ` set (workers st))))"

lemma exit_ok [simp]: "participant_ok i (exit_with r st)"
  by (simp add: participant_ok_def exit_with_def)

lemma receive_queue_ok:
  assumes "distinct (map worker_key (filter holds_key (workers st)))"
    and "\<forall>k v. bt_get (in_flight st) k = Some v \<longleftrightarrow> (k, v) \<in> set (map claim_of (filter holds_key (workers st)))"
    and "\<forall>w \<in> set (workers st). addressed i (worker_message w) \<and> worker_key w = execution_key (worker_message w) \<and>
      worker_session w = registered_session (loop_session st)"
  shows "participant_ok i (receive_queue i messages revision st)"
proof -
  obtain g observed scheduled where scan: "scan_messages i messages (in_flight st) = (g, observed, scheduled)" by (metis prod_cases3)
  note s = scan_messages_scanned[OF scan, unfolded scanned_def]
  let ?held = "filter holds_key (workers st)"
  have m: "map (\<lambda>x. fst (case x of (m, k) \<Rightarrow> (k, message_id m))) scheduled = map snd scheduled" by (simp add: case_prod_beta)
  have "worker_key w \<noteq> snd x" if "w \<in> set ?held" "x \<in> set scheduled" for w x
  proof
    assume "worker_key w = snd x"
    then have "bt_get (in_flight st) (snd x) = Some (message_id (worker_message w))" using assms(2) that(1) by (force simp: claim_of_def)
    then show False using s that(2) by force
  qed
  then have "worker_key ` set ?held \<inter> snd ` set scheduled = {}" by blast
  then have d: "distinct (map fst (map (\<lambda>(m, k). (k, message_id m)) scheduled @ map claim_of ?held))"
    using s assms(1) by (simp add: m claim_of_def comp_def) blast
  have sched: "(k, v) \<in> set (map (\<lambda>(m, k). (k, message_id m)) scheduled) \<longleftrightarrow> (\<exists>m. (m, k) \<in> set scheduled \<and> v = message_id m)" for k v by force
  have c: "bt_get g k = Some v \<longleftrightarrow> (k, v) \<in> set (map (\<lambda>(m, k). (k, message_id m)) scheduled @ map claim_of ?held)" for k v
    unfolding set_append Un_iff sched using s assms(2) by (simp add: disj_commute)
  have "execution_key m \<in> snd ` set scheduled \<union> worker_key ` set (workers st)" if m: "m \<in> set messages" "addressed i m" for m
  proof -
    obtain v where "bt_get g (execution_key m) = Some v" using conjunct2[OF conjunct2[OF conjunct2[OF s]]] m by blast
    then show ?thesis unfolding c set_append Un_iff sched by (force simp: claim_of_def)
  qed
  then show ?thesis using d c s assms(3) by (auto simp: participant_ok_def receive_queue_def scan claims_def attends_def)
qed

lemma participant_okD:
  assumes "participant_ok i st" and "\<not> (\<exists>r. loop_phase st = Exited r)"
  shows "distinct (map fst (claims st))" "\<And>k v. bt_get (in_flight st) k = Some v \<longleftrightarrow> (k, v) \<in> set (claims st)"
    "\<And>m k. (m, k) \<in> set (scheduled_of (loop_phase st)) \<Longrightarrow> addressed i m \<and> k = execution_key m"
    "\<And>w. w \<in> set (workers st) \<Longrightarrow> addressed i (worker_message w) \<and> worker_key w = execution_key (worker_message w) \<and> worker_session w = registered_session (loop_session st)"
    "loop_phase st \<in> {Reconnecting, Requeueing} \<Longrightarrow> workers st = []"
    "\<And>m. attends (loop_phase st) \<Longrightarrow> m \<in> set (queue_messages st) \<Longrightarrow> addressed i m \<Longrightarrow>
       execution_key m \<in> snd ` set (scheduled_of (loop_phase st)) \<union> worker_key ` set (workers st)"
  using assms unfolding participant_ok_def by (cases "loop_phase st"; auto)+

lemma participant_okI:
  assumes "distinct (map fst (claims st))" "\<And>k v. bt_get (in_flight st) k = Some v \<longleftrightarrow> (k, v) \<in> set (claims st)"
    "\<And>m k. (m, k) \<in> set (scheduled_of (loop_phase st)) \<Longrightarrow> addressed i m \<and> k = execution_key m"
    "\<And>w. w \<in> set (workers st) \<Longrightarrow> addressed i (worker_message w) \<and> worker_key w = execution_key (worker_message w) \<and> worker_session w = registered_session (loop_session st)"
    "loop_phase st \<in> {Reconnecting, Requeueing} \<Longrightarrow> workers st = []"
    "\<And>m. attends (loop_phase st) \<Longrightarrow> m \<in> set (queue_messages st) \<Longrightarrow> addressed i m \<Longrightarrow>
       execution_key m \<in> snd ` set (scheduled_of (loop_phase st)) \<union> worker_key ` set (workers st)"
    "\<not> (\<exists>r. loop_phase st = Exited r)"
  shows "participant_ok i st"
proof -
  have "participant_ok i st \<longleftrightarrow> distinct (map fst (claims st)) \<and>
     (\<forall>k v. bt_get (in_flight st) k = Some v \<longleftrightarrow> (k, v) \<in> set (claims st)) \<and>
     (\<forall>(m, k) \<in> set (scheduled_of (loop_phase st)). addressed i m \<and> k = execution_key m) \<and>
     (\<forall>w \<in> set (workers st). addressed i (worker_message w) \<and> worker_key w = execution_key (worker_message w) \<and>
        worker_session w = registered_session (loop_session st)) \<and>
     (loop_phase st \<in> {Reconnecting, Requeueing} \<longrightarrow> workers st = []) \<and>
     (attends (loop_phase st) \<longrightarrow> (\<forall>m \<in> set (queue_messages st). addressed i m \<longrightarrow>
        execution_key m \<in> snd ` set (scheduled_of (loop_phase st)) \<union> worker_key ` set (workers st)))"
    using assms(7) unfolding participant_ok_def by (cases "loop_phase st"; simp only: loop_phase.case) blast
  then show ?thesis using assms(1-6) by blast
qed

text \<open>A worker that moves on within the phases in which it holds its key changes nothing that the
  invariant sees.\<close>

lemma held_update:
  assumes "k < length ws" and "claim_of w = claim_of (ws ! k)" and "holds_key (ws ! k)" and "holds_key w"
  shows "map claim_of (filter holds_key (ws[k := w])) = map claim_of (filter holds_key ws)"
proof -
  have ws: "ws = take k ws @ ws ! k # drop (Suc k) ws" using assms(1) by (rule id_take_nth_drop)
  have "ws[k := w] = take k ws @ w # drop (Suc k) ws" using assms(1) by (rule upd_conv_take_nth_drop)
  moreover have "filter holds_key ws = filter holds_key (take k ws) @ ws ! k # filter holds_key (drop (Suc k) ws)" by (subst ws) (simp add: assms(3))
  ultimately show ?thesis using assms(2,4) by simp
qed

lemma set_worker_ok:
  assumes "participant_ok i st" and "k < length (workers st)" and "worker_message w = worker_message (workers st ! k)" "worker_key w = worker_key (workers st ! k)"
      "worker_session w = worker_session (workers st ! k)"
    and "holds_key (workers st ! k)" "holds_key w" and "\<not> (\<exists>r. loop_phase st = Exited r)"
  shows "participant_ok i (set_worker k w (st\<lparr>frontier_state := fs\<rparr>))"
proof -
  note ok = participant_okD[OF assms(1,8)]
  let ?w = "workers st ! k" and ?st = "set_worker k w (st\<lparr>frontier_state := fs\<rparr>)"
  have w: "?w \<in> set (workers st)" using assms(2) by simp
  have same: "claims ?st = claims st" using assms by (simp add: claims_def set_worker_def held_update claim_of_def)
  have mem: "x \<in> set (workers ?st) \<Longrightarrow> x = w \<or> x \<in> set (workers st)" for x
    using set_update_subset_insert[of "workers st" k w] by (auto simp: set_worker_def)
  have "map worker_key (workers ?st) = map worker_key (workers st)" using assms(2,4) by (simp add: set_worker_def map_update list_update_same_conv)
  then have keys: "worker_key ` set (workers ?st) = worker_key ` set (workers st)" by (metis list.set_map)
  have rest: "in_flight ?st = in_flight st" "loop_phase ?st = loop_phase st" "queue_messages ?st = queue_messages st" "loop_session ?st = loop_session st"
    by (simp_all add: set_worker_def)
  have "workers ?st = [] \<longleftrightarrow> workers st = []" by (simp add: set_worker_def)
  moreover have "addressed i (worker_message x) \<and> worker_key x = execution_key (worker_message x) \<and> worker_session x = registered_session (loop_session st)"
    if "x \<in> set (workers ?st)" for x using mem[OF that] ok(4)[OF w] ok(4)[of x] assms(3-5) by auto
  ultimately show ?thesis using ok(1-3,5,6) assms(8) by (intro participant_okI; (unfold rest same keys)?) blast+
qed

lemma released_claims:
  assumes "participant_ok i st" and "\<not> (\<exists>r. loop_phase st = Exited r)" and "k < length (workers st)" and "holds_key (workers st ! k)"
  shows "bt_get (in_flight st) (worker_key (workers st ! k)) = Some (message_id (worker_message (workers st ! k)))"
    and "worker_key (workers st ! k) \<notin> fst ` (set (map (\<lambda>(m, k). (k, message_id m)) (scheduled_of (loop_phase st))) \<union>
       set (map claim_of (filter holds_key (take k (workers st) @ drop (Suc k) (workers st)))))"
    and "set (claims st) = insert (claim_of (workers st ! k)) (set (map (\<lambda>(m, k). (k, message_id m)) (scheduled_of (loop_phase st))) \<union>
       set (map claim_of (filter holds_key (take k (workers st) @ drop (Suc k) (workers st)))))"
proof -
  note ok = participant_okD[OF assms(1,2)]
  have ws: "workers st = take k (workers st) @ workers st ! k # drop (Suc k) (workers st)" using assms(3) by (rule id_take_nth_drop)
  have f: "filter holds_key (workers st) = filter holds_key (take k (workers st)) @ workers st ! k # filter holds_key (drop (Suc k) (workers st))"
    by (subst ws) (simp add: assms(4))
  show "set (claims st) = insert (claim_of (workers st ! k)) (set (map (\<lambda>(m, k). (k, message_id m)) (scheduled_of (loop_phase st))) \<union>
       set (map claim_of (filter holds_key (take k (workers st) @ drop (Suc k) (workers st)))))"
    unfolding claims_def f by auto
  then show "bt_get (in_flight st) (worker_key (workers st ! k)) = Some (message_id (worker_message (workers st ! k)))"
    unfolding ok(2) by (simp add: claim_of_def)
  show "worker_key (workers st ! k) \<notin> fst ` (set (map (\<lambda>(m, k). (k, message_id m)) (scheduled_of (loop_phase st))) \<union>
       set (map claim_of (filter holds_key (take k (workers st) @ drop (Suc k) (workers st)))))"
    using ok(1) unfolding claims_def f by (auto simp: claim_of_def image_iff)
qed

lemma release_ok:
  assumes "participant_ok i st" and "\<not> (\<exists>r. loop_phase st = Exited r)" and "k < length (workers st)" and "worker_phase (workers st ! k) = Releasing result"
  shows "participant_ok i (set_worker k ((workers st ! k)\<lparr>worker_phase := Ended result\<rparr>) (st\<lparr>in_flight := release_key (workers st ! k) (in_flight st)\<rparr>))"
    (is "participant_ok i ?st")
proof -
  have h: "holds_key (workers st ! k)" using assms(4) by (simp add: holds_key_def)
  note ok = participant_okD[OF assms(1,2)] and rel = released_claims[OF assms(1-3) h]
  let ?w = "(workers st ! k)\<lparr>worker_phase := Ended result\<rparr>" and ?others = "take k (workers st) @ drop (Suc k) (workers st)"
  have ws: "workers ?st = take k (workers st) @ ?w # drop (Suc k) (workers st)" using assms(3) by (simp add: set_worker_def upd_conv_take_nth_drop)
  have "\<not> holds_key ?w" by (simp add: holds_key_def)
  then have f: "filter holds_key (workers ?st) = filter holds_key ?others" by (simp add: ws)
  have rest: "loop_phase ?st = loop_phase st" "queue_messages ?st = queue_messages st" "loop_session ?st = loop_session st" by (simp_all add: set_worker_def)
  have c: "claims ?st = map (\<lambda>(m, k). (k, message_id m)) (scheduled_of (loop_phase st)) @ map claim_of (filter holds_key ?others)"
    by (simp add: claims_def f rest)
  have "filter holds_key (workers st) = filter holds_key (take k (workers st)) @ workers st ! k # filter holds_key (drop (Suc k) (workers st))"
    by (subst id_take_nth_drop[OF assms(3)]) (simp add: h)
  then have d: "distinct (map fst (claims ?st))" using ok(1) unfolding c by (simp add: claims_def)
  have in_flight: "in_flight ?st = bt_remove (worker_key (workers st ! k)) (in_flight st)" using rel(1) by (simp add: set_worker_def release_key_def)
  have free: "worker_key (workers st ! k) \<notin> fst ` set (claims ?st)" and old: "set (claims st) = insert (claim_of (workers st ! k)) (set (claims ?st))"
    using rel(2,3) unfolding c by simp_all
  have taken: "bt_get (in_flight ?st) key = Some v \<longleftrightarrow> (key, v) \<in> set (claims ?st)" for key v
    using free ok(2)[of key v] unfolding in_flight old by (cases "key = worker_key (workers st ! k)") (auto simp: claim_of_def intro: rev_image_eqI)
  have "map worker_key (workers ?st) = map worker_key (workers st)" unfolding ws by (subst (3) id_take_nth_drop[OF assms(3)]) simp
  then have keys: "worker_key ` set (workers ?st) = worker_key ` set (workers st)" by (metis list.set_map)
  have members: "addressed i (worker_message x) \<and> worker_key x = execution_key (worker_message x) \<and> worker_session x = registered_session (loop_session st)"
    if "x \<in> set (workers ?st)" for x
    using that ok(4)[OF nth_mem[OF assms(3)]] ok(4)[of x] unfolding ws by (auto dest: in_set_takeD in_set_dropD)
  have empty: "workers ?st = []" if "loop_phase st \<in> {Reconnecting, Requeueing}" using ok(5)[OF that] by (simp add: set_worker_def)
  show ?thesis
    by (rule participant_okI; (unfold rest keys)?) (rule d, rule taken, erule ok(3), erule members, erule empty, erule (2) ok(6), rule assms(2))
qed

lemma join_held:
  assumes "k < length (workers st)" and "worker_phase (workers st ! k) = Ended result"
  shows "filter holds_key (workers (drop_worker k st)) = filter holds_key (workers st)" and "set (workers (drop_worker k st)) \<subseteq> set (workers st)"
proof -
  have "filter holds_key (workers st) = filter holds_key (take k (workers st) @ workers st ! k # drop (Suc k) (workers st))"
    using id_take_nth_drop[OF assms(1)] by simp
  then show "filter holds_key (workers (drop_worker k st)) = filter holds_key (workers st)" using assms(2) by (simp add: drop_worker_def holds_key_def)
qed (auto simp: drop_worker_def dest: in_set_takeD in_set_dropD)

lemma join_rescan_ok:
  assumes "participant_ok i st" and "loop_phase st = Serving" and "k < length (workers st)" and "worker_phase (workers st ! k) = Ended result"
  shows "participant_ok i (receive_queue i messages revision (drop_worker k st))"
proof (rule receive_queue_ok)
  have serving: "\<not> (\<exists>r. loop_phase st = Exited r)" using assms(2) by simp
  note ok = participant_okD[OF assms(1) serving] and j = join_held[OF assms(3,4)]
  have c: "claims st = map claim_of (filter holds_key (workers st))" by (simp add: claims_def assms(2))
  show "distinct (map worker_key (filter holds_key (workers (drop_worker k st))))" using ok(1) by (simp add: c j(1) claim_of_def comp_def)
  have "in_flight (drop_worker k st) = in_flight st" "loop_session (drop_worker k st) = loop_session st" by (simp_all add: drop_worker_def)
  then show "\<forall>k' v. bt_get (in_flight (drop_worker k st)) k' = Some v \<longleftrightarrow> (k', v) \<in> set (map claim_of (filter holds_key (workers (drop_worker k st))))"
    "\<forall>w \<in> set (workers (drop_worker k st)). addressed i (worker_message w) \<and> worker_key w = execution_key (worker_message w) \<and>
      worker_session w = registered_session (loop_session (drop_worker k st))"
    using ok(2,4) j by (auto simp: c)
qed

lemma join_drain_ok:
  assumes "participant_ok i st" and "loop_phase st \<in> {DrainingWithSession, DrainingWithoutSession}" and "k < length (workers st)" and "worker_phase (workers st ! k) = Ended result"
  shows "participant_ok i (drop_worker k st)"
proof -
  have draining: "\<not> (\<exists>r. loop_phase st = Exited r)" using assms(2) by auto
  note ok = participant_okD[OF assms(1) draining] and j = join_held[OF assms(3,4)]
  have rest: "in_flight (drop_worker k st) = in_flight st" "loop_session (drop_worker k st) = loop_session st" "loop_phase (drop_worker k st) = loop_phase st"
    by (simp_all add: drop_worker_def)
  have "claims (drop_worker k st) = claims st" by (simp add: claims_def rest j(1))
  then show ?thesis using ok(1-4) j(2) assms(2) draining by (intro participant_okI; (unfold rest)?) (auto simp: attends_def)
qed

lemma serving_receive_ok:
  assumes "participant_ok i st" and "scheduled_of (loop_phase st) = []" and "\<not> (\<exists>r. loop_phase st = Exited r)"
  shows "participant_ok i (receive_queue i messages revision st)"
proof (rule receive_queue_ok)
  note ok = participant_okD[OF assms(1,3)]
  have c: "claims st = map claim_of (filter holds_key (workers st))" by (simp add: claims_def assms(2))
  show "distinct (map worker_key (filter holds_key (workers st)))" using ok(1) by (simp add: c claim_of_def comp_def)
  show "\<forall>k v. bt_get (in_flight st) k = Some v \<longleftrightarrow> (k, v) \<in> set (map claim_of (filter holds_key (workers st)))" using ok(2) by (simp add: c)
qed (use participant_okD(4)[OF assms(1,3)] in blast)

lemma spawn_ok:
  assumes "participant_ok i st" and "loop_phase st = Spawning (x # rest)"
  shows "participant_ok i (spawn_worker x rest st)"
proof -
  have spawning: "\<not> (\<exists>r. loop_phase st = Exited r)" using assms(2) by simp
  note ok = participant_okD[OF assms(1) spawning, unfolded assms(2) scheduled_of.simps]
  have fields: "in_flight (spawn_worker x rest st) = in_flight st" "loop_session (spawn_worker x rest st) = loop_session st"
    "queue_messages (spawn_worker x rest st) = queue_messages st" "loop_phase (spawn_worker x rest st) = Spawning rest"
    by (simp_all add: spawn_worker_def)
  have c: "claims (spawn_worker x rest st) = map (\<lambda>(m, k). (k, message_id m)) rest @ map claim_of (filter holds_key (workers st)) @ [(snd x, message_id (fst x))]"
    by (simp add: claims_def spawn_worker_def holds_key_def claim_of_def)
  have c0: "claims st = (snd x, message_id (fst x)) # map (\<lambda>(m, k). (k, message_id m)) rest @ map claim_of (filter holds_key (workers st))"
    by (cases x) (simp add: claims_def assms(2))
  have d: "distinct (map fst (claims (spawn_worker x rest st)))" using ok(1) unfolding c c0 by auto
  have s: "set (claims (spawn_worker x rest st)) = set (claims st)" unfolding c c0 by auto
  have w: "w \<in> set (workers (spawn_worker x rest st)) \<longleftrightarrow> w \<in> set (workers st) \<or>
      w = \<lparr>worker_message = fst x, worker_key = snd x, worker_session = registered_session (loop_session st), worker_revision = queue_revision st, worker_phase = Executing\<rparr>" for w
    by (auto simp: spawn_worker_def)
  show ?thesis
  proof (rule participant_okI; (unfold fields scheduled_of.simps)?)
    fix m assume m: "m \<in> set (queue_messages st)" "addressed i m"
    then show "execution_key m \<in> snd ` set rest \<union> worker_key ` set (workers (spawn_worker x rest st))"
      using ok(6)[OF _ m] by (auto simp: attends_def spawn_worker_def)
  qed (use d s ok(2,3,4) ok(3)[of "fst x" "snd x"] w in \<open>auto simp: s\<close>)
qed

lemma phase_only_ok:
  assumes "participant_ok i st" and "\<not> (\<exists>r. loop_phase st = Exited r)" and "scheduled_of next = scheduled_of (loop_phase st)" and "attends next \<longrightarrow> attends (loop_phase st)"
    and "next \<in> {Reconnecting, Requeueing} \<Longrightarrow> workers st = []" and "\<not> (\<exists>r. next = Exited r)" and "session = loop_session st \<or> workers st = []"
  shows "participant_ok i (st\<lparr>frontier_state := fs, cancelled := c, loop_session := session, loop_phase := next\<rparr>)"
proof -
  note ok = participant_okD[OF assms(1,2)]
  let ?st = "st\<lparr>frontier_state := fs, cancelled := c, loop_session := session, loop_phase := next\<rparr>"
  have rest: "loop_phase ?st = next" "queue_messages ?st = queue_messages st" "workers ?st = workers st" "in_flight ?st = in_flight st" "loop_session ?st = session" by simp_all
  have same: "claims ?st = claims st" by (simp add: claims_def assms(3))
  show ?thesis
    by (rule participant_okI; (unfold rest same assms(3))?) (use ok assms(4-7) in \<open>auto\<close>)
qed

lemma participant_start_ok: "participant_ok i (participant_start i session messages revision)"
  unfolding participant_start_def by (rule receive_queue_ok) simp_all

lemma participant_step_ok: "participant_step i st st' \<Longrightarrow> participant_ok i st \<Longrightarrow> participant_ok i st'"
proof (induction rule: participant_step.induct)
  case (execution_step st k result w fs)
  then have "worker_message w = worker_message (workers st ! k)" "worker_key w = worker_key (workers st ! k)" "worker_session w = worker_session (workers st ! k)"
      "holds_key (workers st ! k)" "holds_key w"
    by (auto simp: after_execution_def holds_key_def split: sum.splits prod.splits option.splits)
  then show ?case using execution_step by (intro set_worker_ok) auto
next
  case (recording_step st k processed answer)
  have "participant_ok i (set_worker k (after_recording answer (workers st ! k)) (st\<lparr>frontier_state := frontier_state st\<rparr>))"
    using recording_step by (intro set_worker_ok) (auto simp: after_recording_def holds_key_def)
  then show ?case by simp
next
  case (observe_step st observed scheduled)
  then show ?case using phase_only_ok[of i st "Spawning scheduled" "loop_session st" "cancelled st" "frontier_observe (queue_revision st) observed (frontier_state st)"]
    by (simp add: observe_scheduled_def attends_def)
next
  case (spawn_done st)
  then show ?case using phase_only_ok[of i st Serving "loop_session st" "cancelled st" "frontier_state st"] by (simp add: attends_def)
next
  case (shutdown_step st)
  then show ?case using phase_only_ok[of i st DrainingWithSession "loop_session st" True "frontier_state st"] by (simp add: start_drain_def attends_def)
next
  case (expired_step st)
  then show ?case using phase_only_ok[of i st DrainingWithoutSession "loop_session st" True "frontier_state st"] by (simp add: start_drain_def attends_def)
next
  case (drained_reconnect st)
  then show ?case using phase_only_ok[of i st Reconnecting "loop_session st" "cancelled st" "frontier_state st"] by (simp add: attends_def)
next
  case (reconnect_step st session)
  have "workers st = []" using participant_okD(5)[OF reconnect_step.prems] reconnect_step.hyps by auto
  then show ?case using reconnect_step phase_only_ok[of i st Requeueing session False "frontier_state st"] by (simp add: adopt_session_def attends_def)
qed (auto intro: serving_receive_ok spawn_ok release_ok join_rescan_ok join_drain_ok)

interpretation event_loop: invariant_system "participant_start i session messages revision" "participant_step i" "participant_ok i"
  for i session messages revision
  by unfold_locales (auto intro: participant_start_ok participant_step_ok)

lemma participant_reachable_steps:
  "participant_reachable i st \<Longrightarrow> \<exists>session messages revision. (participant_step i)\<^sup>*\<^sup>* (participant_start i session messages revision) st"
  by (induction rule: participant_reachable.induct) (blast intro: rtranclp.rtrancl_into_rtrancl)+

lemma participant_reachable_ok: "participant_reachable i st \<Longrightarrow> participant_ok i st"
  using participant_reachable_steps event_loop.reachable_inv by blast

section \<open>The keepalive deadline\<close>

text \<open>Time passes within a pass, and the wait before the next pass lasts its full time.\<close>

fun well_timed :: "nat \<Rightarrow> keepalive_attempt list \<Rightarrow> bool" where
  "well_timed ttl [] = True"
| "well_timed ttl [a] = (attempt_start a \<le> attempt_retry a)"
| "well_timed ttl (a # b # attempts) =
     (attempt_start a \<le> attempt_retry a \<and> attempt_retry a + min KEEPALIVE_PERIOD (ttl - attempt_retry a) \<le> attempt_start b \<and> well_timed ttl (b # attempts))"

lemma keepalive_step_decides:
  "keep_alive_until_available ttl (a # attempts) = None \<Longrightarrow> attempt_start a < ttl \<and> attempt_retry a < ttl \<and> keep_alive_until_available ttl attempts = None"
  by (auto simp: Let_def split: if_splits sum.splits bool.splits CoordinationError.splits)

lemma keepalive_undecided:
  assumes "well_timed ttl (a # attempts)" and "keep_alive_until_available ttl (a # attempts) = None"
  shows "attempt_start a + length attempts * KEEPALIVE_PERIOD < ttl"
  using assms
proof (induction attempts arbitrary: a)
  case Nil
  then show ?case using keepalive_step_decides[of ttl a "[]"] by simp
next
  case (Cons b attempts)
  from keepalive_step_decides[OF Cons.prems(2)] have now: "attempt_retry a < ttl" "keep_alive_until_available ttl (b # attempts) = None" by blast+
  have "attempt_start b + length attempts * KEEPALIVE_PERIOD < ttl" using Cons.IH[OF _ now(2)] Cons.prems(1) by simp
  moreover have "attempt_start a \<le> attempt_retry a" "attempt_retry a + min KEEPALIVE_PERIOD (ttl - attempt_retry a) \<le> attempt_start b" using Cons.prems(1) by simp_all
  ultimately show ?case using now(1) by (auto simp: min_def split: if_splits)
qed

lemma keepalive_healthy:
  "keep_alive_until_available ttl attempts = Some (Inr Healthy) \<Longrightarrow>
     \<exists>a \<in> set attempts. attempt_start a < ttl \<and> first_current a = Inr True \<and> (\<exists>u. keep_answer a = Inr u) \<and> second_current a = Inr True"
proof (induction ttl attempts rule: keep_alive_until_available.induct)
  case (2 ttl a attempts)
  show ?case
  proof (cases "attempt_start a < ttl \<and> first_current a = Inr True \<and> (\<exists>u. keep_answer a = Inr u) \<and> second_current a = Inr True")
    case False
    then have "keep_alive_until_available ttl attempts = Some (Inr Healthy)" "ttl - attempt_retry a \<noteq> 0" "\<not> attempt_shutdown a" using "2.prems"
      by (auto simp: Let_def split: if_splits sum.splits bool.splits CoordinationError.splits)
    then show ?thesis using "2.IH" by auto
  qed auto
qed simp

section \<open>Properties\<close>

text \<open>C11: Workers of a participant exclude each other. In every reachable state of the process, for
  any interleaving of queue events, lease losses, shutdown and worker progress, at most one worker
  per replica key is before its release, so no two callbacks of a replica overlap. Every worker
  belongs to the current session, and the session is replaced, or the process ends without an
  error, only when no worker is left.\<close>

theorem participant_workers_exclusive:
  assumes "participant_reachable i st"
  shows "distinct (map worker_key (filter holds_key (workers st))) \<and>
    (\<forall>w \<in> set (workers st). worker_key w = execution_key (worker_message w) \<and> message_instance (worker_message w) = InstanceId_as_str i \<and>
       worker_session w = registered_session (loop_session st)) \<and>
    (\<forall>st'. participant_step i st st' \<longrightarrow> loop_session st' \<noteq> loop_session st \<or> loop_phase st' = Exited (Inr ()) \<longrightarrow> workers st = [])"
proof (cases "\<exists>r. loop_phase st = Exited r")
  case True
  then show ?thesis using participant_reachable_ok[OF assms] by (auto simp: participant_ok_def)
next
  case False
  note ok = participant_okD[OF participant_reachable_ok[OF assms] False]
  have "workers st = []" if step: "participant_step i st st'" and moved: "loop_session st' \<noteq> loop_session st \<or> loop_phase st' = Exited (Inr ())" for st'
    using step
  proof cases
    case (recovery_ends result)
    then show ?thesis using ok(5) by blast
  next
    case (reconnect_step session)
    then show ?thesis using ok(5) by blast
  qed (use moved False in \<open>auto simp: receive_queue_def exit_with_def observe_scheduled_def spawn_worker_def start_drain_def set_worker_def drop_worker_def split: prod.splits\<close>)
  moreover have "distinct (map worker_key (filter holds_key (workers st)))" using ok(1) by (simp add: claims_def claim_of_def comp_def)
  ultimately show ?thesis using ok(4) by (auto simp: addressed_def)
qed

text \<open>C17: No message waits for another event. Whenever the loop is ready to serve, every message
  addressed to the instance in the latest queue image has a worker on its replica key, its own or
  one it has to wait for, whose end makes the loop read the image again.\<close>

theorem queued_messages_attended:
  assumes "participant_reachable i st" and "loop_phase st = Serving" and "m \<in> set (queue_messages st)"
    and "message_instance m = InstanceId_as_str i" and "message_id m \<noteq> []"
  shows "\<exists>w \<in> set (workers st). worker_key w = execution_key m"
  using participant_okD(6)[OF participant_reachable_ok[OF assms(1)], of m] assms(2-5) by (auto simp: attends_def addressed_def)

text \<open>C23: The keepalive loop decides before its deadline. With its waits between passes it cannot go
  on for longer than the lease lasts: as many passes as periods fit into the lease, and one more,
  always end with an answer. It answers that the session is healthy only after a pass within the
  lease in which the session was the live one before and after a successful keepalive.\<close>

theorem keepalive_decides:
  assumes "well_timed ttl attempts" and "ttl \<le> (length attempts - 1) * KEEPALIVE_PERIOD" and "attempts \<noteq> []"
  shows "\<exists>y. keep_alive_until_available ttl attempts = Some y \<and> (y = Inr Healthy \<longrightarrow>
    (\<exists>a \<in> set attempts. attempt_start a < ttl \<and> first_current a = Inr True \<and> (\<exists>u. keep_answer a = Inr u) \<and> second_current a = Inr True))"
proof -
  obtain a rest where a: "attempts = a # rest" using assms(3) by (cases attempts) simp_all
  have "keep_alive_until_available ttl attempts \<noteq> None" using keepalive_undecided[of ttl a rest] assms(1,2) unfolding a by fastforce
  then show ?thesis using keepalive_healthy[of ttl attempts] by auto
qed

section \<open>Examples\<close>

text \<open>Three messages for two partitions: two workers run, the third message waits for the first.\<close>

definition demo_message_of :: "string \<Rightarrow> string \<Rightarrow> TransitionMessage" where
  "demo_message_of mid p = \<lparr>message_id = mid, message_resource = ''db'', message_partition = p, message_instance = ''a'', target_session = 1,
     message_from = ''OFFLINE'', message_to = ''STANDBY'', message_type = ''STATE_TRANSITION''\<rparr>"

definition demo_session :: EtcdParticipantSession where
  "demo_session = \<lparr>registered_instance = InstanceId ''a'', registered_session = SessionId 1, registered_lease = 5, registration_revision = Revision 1\<rparr>"

definition demo_started :: participant where
  "demo_started = participant_start (InstanceId ''a'') demo_session [demo_message_of ''m1'' ''p'', demo_message_of ''m2'' ''q'', demo_message_of ''m3'' ''p''] (Revision 3)"

definition demo_scheduled :: "(TransitionMessage \<times> string) list" where
  "demo_scheduled = [(demo_message_of ''m1'' ''p'', ''db/p''), (demo_message_of ''m2'' ''q'', ''db/q'')]"

definition demo_serving :: participant where
  "demo_serving = (spawn_worker (demo_message_of ''m2'' ''q'', ''db/q'') [] (spawn_worker (demo_message_of ''m1'' ''p'', ''db/p'') (tl demo_scheduled)
     (observe_scheduled [''m1'', ''m2''] demo_scheduled demo_started)))\<lparr>loop_phase := Serving\<rparr>"

lemma demo_started_phase: "loop_phase demo_started = Observing [''m1'', ''m2''] demo_scheduled"
  by code_simp

lemma demo_serving_reachable: "participant_reachable (InstanceId ''a'') demo_serving"
proof -
  let ?i = "InstanceId ''a''" and ?o = "observe_scheduled [''m1'', ''m2''] demo_scheduled demo_started"
  let ?one = "spawn_worker (demo_message_of ''m1'' ''p'', ''db/p'') (tl demo_scheduled) ?o" and ?two = "spawn_worker (demo_message_of ''m2'' ''q'', ''db/q'') []"
  have "participant_reachable ?i demo_started" unfolding demo_started_def by (rule participant_reachable.start)
  then have "participant_reachable ?i ?o" by (rule participant_reachable.advance) (rule observe_step[OF demo_started_phase])
  then have "participant_reachable ?i ?one" by (rule participant_reachable.advance) (rule spawn_step, simp add: observe_scheduled_def demo_scheduled_def)
  then have "participant_reachable ?i (?two ?one)" by (rule participant_reachable.advance) (rule spawn_step, simp add: spawn_worker_def demo_scheduled_def)
  then show ?thesis unfolding demo_serving_def by (rule participant_reachable.advance) (rule spawn_done, simp add: spawn_worker_def)
qed

lemma demo_serving_workers: "map worker_key (workers demo_serving) = [''db/p'', ''db/q'']" "loop_phase demo_serving = Serving"
    "queue_messages demo_serving = [demo_message_of ''m1'' ''p'', demo_message_of ''m2'' ''q'', demo_message_of ''m3'' ''p'']"
  by code_simp+

theorem participant_workers_exclusive_witness:
  "participant_reachable (InstanceId ''a'') demo_serving \<and> length (workers demo_serving) = 2 \<and> distinct (map worker_key (filter holds_key (workers demo_serving)))"
  using participant_workers_exclusive[OF demo_serving_reachable] demo_serving_reachable arg_cong[OF demo_serving_workers(1), of length] by simp

theorem queued_messages_attended_witness: "\<exists>w \<in> set (workers demo_serving). worker_key w = ''db/p''"
proof -
  have "\<exists>w \<in> set (workers demo_serving). worker_key w = execution_key (demo_message_of ''m3'' ''p'')"
    by (rule queued_messages_attended[OF demo_serving_reachable demo_serving_workers(2)]) (simp_all add: demo_serving_workers demo_message_of_def)
  then show ?thesis by (simp add: execution_key_def demo_message_of_def)
qed

definition demo_attempt :: "nat \<Rightarrow> keepalive_attempt" where
  "demo_attempt t = \<lparr>attempt_start = t, first_current = Inl (EtcdError ''unavailable''), keep_answer = Inr (), second_current = Inr True, attempt_retry = t, attempt_shutdown = False\<rparr>"

theorem keepalive_decides_witness:
  "\<exists>y. keep_alive_until_available 500000000 [demo_attempt 0, demo_attempt 250000000, demo_attempt 500000000] = Some y"
proof -
  let ?attempts = "[demo_attempt 0, demo_attempt 250000000, demo_attempt 500000000]"
  have "well_timed 500000000 ?attempts" "500000000 \<le> (length ?attempts - 1) * KEEPALIVE_PERIOD" "?attempts \<noteq> []"
    by (simp_all add: demo_attempt_def KEEPALIVE_PERIOD_def)
  from keepalive_decides[OF this] show ?thesis by blast
qed

end
