(* ===== verification/Participant_Process.thy ===== *)
theory Participant_Process
  imports Participant_Runtime_Laws Controller_Loop
begin

text \<open>
  The frame of a participant process (\<open>run_until\<close> of \<^verbatim>\<open>src/participant.rs\<close>): registration, the event
  loop of \<open>Participant_Runtime\<close>, the revocation of the last session and the event that reports how
  the process ended; and the registration after a lost lease. The event loop enters as the
  function from the first session to the last one and the loop's result.
\<close>

section \<open>Registration after a lost lease\<close>

text \<open>Without a shutdown signal every pass ends with the sleep.\<close>

definition register_session :: "EtcdCoordination \<Rightarrow> InstanceId \<Rightarrow> RegistrationOptions \<Rightarrow> nat \<Rightarrow>
    (ParticipantRuntimeError + EtcdParticipantSession) option client" where
  "register_session b i options passes =
     bind_client (register_session_until b i options (replicate passes False))
       (\<lambda>r. Return (map_option (\<lambda>r. bind_result r (\<lambda>session. ok_or session InvalidMessage)) r))"

definition reconnect :: "EtcdCoordination \<Rightarrow> InstanceId \<Rightarrow> nat \<times> nat \<Rightarrow> nat \<Rightarrow>
    (ParticipantRuntimeError + EtcdParticipantSession) option client" where
  "reconnect b i ttl passes = (case RegistrationOptions_new ttl of
     Inl err \<Rightarrow> Return (Some (Inl (ParticipantCoordination err)))
   | Inr options \<Rightarrow> register_session b i options passes)"

section \<open>The whole run\<close>

definition finish_run :: "InstanceId \<Rightarrow> ParticipantRuntimeError + unit \<Rightarrow> CoordinationError + unit \<Rightarrow> RuntimeEvent \<times> (ParticipantRuntimeError + unit)" where
  "finish_run i run_result revocation = (case (run_result, map_err ParticipantCoordination revocation) of
     (Inl err, _) \<Rightarrow> (FatalRuntimeError (InstanceId_as_str i) (ParticipantRuntimeError_fmt err), Inl err)
   | (Inr _, Inl err) \<Rightarrow> (FatalRuntimeError (InstanceId_as_str i) (ParticipantRuntimeError_fmt err), Inl err)
   | (Inr _, Inr _) \<Rightarrow> (GracefulShutdown (InstanceId_as_str i), Inr ()))"

definition participant_run_until :: "EtcdCoordination \<Rightarrow> InstanceId \<Rightarrow> nat \<times> nat \<Rightarrow> bool list \<Rightarrow>
    (EtcdParticipantSession \<Rightarrow> EtcdParticipantSession \<times> (ParticipantRuntimeError + unit)) \<Rightarrow>
    (RuntimeEvent list \<times> (ParticipantRuntimeError + unit)) option client" where
  "participant_run_until b i ttl signals serve = (case RegistrationOptions_new ttl of
     Inl err \<Rightarrow> Return (Some ([], Inl (ParticipantCoordination err)))
   | Inr options \<Rightarrow> bind_client (register_session_until b i options signals) (\<lambda>r. case r of
       None \<Rightarrow> Return None
     | Some (Inl err) \<Rightarrow> Return (Some ([], Inl err))
     | Some (Inr None) \<Rightarrow> Return (Some ([GracefulShutdown (InstanceId_as_str i)], Inr ()))
     | Some (Inr (Some session)) \<Rightarrow> (case serve session of (session, run_result) \<Rightarrow>
         bind_client (revoke_session session) (\<lambda>revocation.
         case finish_run i run_result revocation of (event, result) \<Rightarrow> Return (Some ([event], result))))))"

section \<open>Laws\<close>

text \<open>The last session is revoked however the loop ended, and a graceful end is reported exactly
  when the run succeeds, which takes a loop that returned normally and a successful revocation.\<close>

lemma finish_run_graceful: "(\<exists>x. snd (finish_run i run_result revocation) = Inr x) \<longleftrightarrow> fst (finish_run i run_result revocation) = GracefulShutdown (InstanceId_as_str i)"
  by (cases run_result; cases revocation) (auto simp: finish_run_def map_err_def)

lemma participant_run_cases:
  assumes "runs e s (participant_run_until b i ttl signals serve) log s' (Some (events, result))"
  obtains (refused) err where "events = []" "result = Inl err"
  | (unregistered) options t where "RegistrationOptions_new ttl = Inr options" "runs e s (register_session_until b i options signals) log t (Some (Inr None))"
      "events = [GracefulShutdown (InstanceId_as_str i)]" "result = Inr ()"
  | (served) options l1 t session l2 u revocation where "RegistrationOptions_new ttl = Inr options"
      "runs e s (register_session_until b i options signals) l1 t (Some (Inr (Some session)))" "log = l1 @ l2"
      "runs e t (revoke_session (fst (serve session))) l2 u revocation"
      "events = [fst (finish_run i (snd (serve session)) revocation)]" "result = snd (finish_run i (snd (serve session)) revocation)"
proof (cases "RegistrationOptions_new ttl")
  case (Inl err)
  then show ?thesis using assms refused by (simp add: participant_run_until_def runs_Return)
next
  case (Inr options)
  then obtain l1 t r l2 where r: "runs e s (register_session_until b i options signals) l1 t r" "log = l1 @ l2"
    and rest: "runs e t (case r of None \<Rightarrow> Return None | Some (Inl err) \<Rightarrow> Return (Some ([], Inl err))
      | Some (Inr None) \<Rightarrow> Return (Some ([GracefulShutdown (InstanceId_as_str i)], Inr ()))
      | Some (Inr (Some session)) \<Rightarrow> bind_client (revoke_session (fst (serve session))) (\<lambda>revocation.
          Return (Some ([fst (finish_run i (snd (serve session)) revocation)], snd (finish_run i (snd (serve session)) revocation))))) l2 s' (Some (events, result))"
    using assms unfolding participant_run_until_def split_beta by (auto simp: runs_bind_client)
  consider "r = None" | err where "r = Some (Inl err)" | "r = Some (Inr None)" | session where "r = Some (Inr (Some session))"
    by (metis old.sum.exhaust not_Some_eq)
  then show ?thesis
  proof cases
    case (4 session)
    then show ?thesis using rest r Inr by (auto simp: runs_bind_client runs_Return intro: served)
  qed (use rest r Inr in \<open>auto simp: runs_Return intro: refused unregistered\<close>)
qed

lemma participant_run_reports:
  assumes "runs e s (participant_run_until b i ttl signals serve) log s' (Some (events, result))"
  shows "(\<exists>x. result = Inr x) \<longleftrightarrow> events = [GracefulShutdown (InstanceId_as_str i)]"
  using assms
proof (cases rule: participant_run_cases)
  case (served options l1 t session l2 u revocation)
  then show ?thesis using finish_run_graceful by simp
qed auto

text \<open>A loop that returned normally has no worker left, so that nothing of this process can write
  after the revocation.\<close>

lemma exited_without_workers:
  assumes "participant_reachable i st" and "loop_phase st = Exited result"
  shows "workers st = []"
  using participant_reachable_ok[OF assms(1)] assms(2) by (auto simp: participant_ok_def)

end
