(* ===== verification/Cancellation_Signal.thy ===== *)
theory Cancellation_Signal
  imports Prelude
begin

text \<open>
  The one-shot signals of the library: \<open>CancellationToken\<close> of \<^verbatim>\<open>src/participant.rs\<close> and the loss
  signal of \<open>Leadership\<close> in \<^verbatim>\<open>src/election.rs\<close>. Both set an atomic flag and then call
  \<open>notify_waiters\<close>; a waiter reads the flag and, if it is not set, creates a \<open>Notified\<close> future and
  awaits it. A \<open>Notified\<close> future completes at the first \<open>notify_waiters\<close> after its creation, which
  is modelled by the number of calls so far. Any number of tasks signal and wait concurrently.
\<close>

datatype cancel_phase = CancelCalled | CancelSwapped | CancelReturned

datatype wait_phase = WaitCalled | WaitChecked | WaitNotified nat | WaitReturned

record token =
  token_cancelled :: bool
  notify_calls :: nat
  cancellers :: "cancel_phase list"
  waiters :: "wait_phase list"

definition token_start :: "nat \<Rightarrow> nat \<Rightarrow> token" where
  "token_start c w = \<lparr>token_cancelled = False, notify_calls = 0, cancellers = replicate c CancelCalled, waiters = replicate w WaitCalled\<rparr>"

text \<open>\<open>if !self.cancelled.swap(true) { self.notify.notify_waiters(); }\<close>\<close>

definition cancel_swap :: "nat \<Rightarrow> token \<Rightarrow> token" where
  "cancel_swap k t = t\<lparr>token_cancelled := True, cancellers := (cancellers t)[k := if token_cancelled t then CancelReturned else CancelSwapped]\<rparr>"

definition cancel_notify :: "nat \<Rightarrow> token \<Rightarrow> token" where
  "cancel_notify k t = t\<lparr>notify_calls := Suc (notify_calls t), cancellers := (cancellers t)[k := CancelReturned]\<rparr>"

text \<open>\<open>if self.is_cancelled() { return; } self.notify.notified().await;\<close>\<close>

definition wait_check :: "nat \<Rightarrow> token \<Rightarrow> token" where
  "wait_check k t = t\<lparr>waiters := (waiters t)[k := if token_cancelled t then WaitReturned else WaitChecked]\<rparr>"

definition wait_create :: "nat \<Rightarrow> token \<Rightarrow> token" where
  "wait_create k t = t\<lparr>waiters := (waiters t)[k := WaitNotified (notify_calls t)]\<rparr>"

definition wait_wake :: "nat \<Rightarrow> token \<Rightarrow> token" where
  "wait_wake k t = t\<lparr>waiters := (waiters t)[k := WaitReturned]\<rparr>"

inductive token_step :: "token \<Rightarrow> token \<Rightarrow> bool" where
  swaps: "k < length (cancellers t) \<Longrightarrow> cancellers t ! k = CancelCalled \<Longrightarrow> token_step t (cancel_swap k t)"
| notifies: "k < length (cancellers t) \<Longrightarrow> cancellers t ! k = CancelSwapped \<Longrightarrow> token_step t (cancel_notify k t)"
| checks: "k < length (waiters t) \<Longrightarrow> waiters t ! k = WaitCalled \<Longrightarrow> token_step t (wait_check k t)"
| creates: "k < length (waiters t) \<Longrightarrow> waiters t ! k = WaitChecked \<Longrightarrow> token_step t (wait_create k t)"
| wakes: "k < length (waiters t) \<Longrightarrow> waiters t ! k = WaitNotified n \<Longrightarrow> n < notify_calls t \<Longrightarrow> token_step t (wait_wake k t)"

abbreviation token_steps :: "token \<Rightarrow> token \<Rightarrow> bool" where
  "token_steps \<equiv> token_step\<^sup>*\<^sup>*"

section \<open>One notification\<close>

definition swapped :: "token \<Rightarrow> nat" where
  "swapped t = length (filter (\<lambda>p. p = CancelSwapped) (cancellers t))"

definition token_ok :: "token \<Rightarrow> bool" where
  "token_ok t \<longleftrightarrow> notify_calls t + swapped t = (if token_cancelled t then 1 else 0) \<and>
     (\<forall>p \<in> set (waiters t). (p = WaitReturned \<longrightarrow> token_cancelled t) \<and> (\<forall>n. p = WaitNotified n \<longrightarrow> n \<le> notify_calls t))"

lemma swapped_update:
  assumes "k < length (cancellers t)"
  shows "length (filter (\<lambda>p. p = CancelSwapped) ((cancellers t)[k := p])) + (if cancellers t ! k = CancelSwapped then 1 else 0) =
    swapped t + (if p = CancelSwapped then 1 else 0)"
proof -
  let ?l = "take k (cancellers t)" and ?r = "drop (Suc k) (cancellers t)"
  have old: "cancellers t = ?l @ cancellers t ! k # ?r" using assms by (rule id_take_nth_drop)
  have "swapped t = length (filter (\<lambda>p. p = CancelSwapped) (?l @ cancellers t ! k # ?r))" unfolding swapped_def using old by simp
  moreover have "(cancellers t)[k := p] = ?l @ p # ?r" using assms by (rule upd_conv_take_nth_drop)
  ultimately show ?thesis by simp
qed

lemma token_step_ok: "token_step t t' \<Longrightarrow> token_ok t \<Longrightarrow> token_ok t'"
proof (induction rule: token_step.induct)
  case (swaps k t)
  then show ?case using swapped_update[of k t "if token_cancelled t then CancelReturned else CancelSwapped"]
    by (auto simp: token_ok_def cancel_swap_def swapped_def split: if_splits)
next
  case (notifies k t)
  then show ?case using swapped_update[of k t CancelReturned] by (auto simp: token_ok_def cancel_notify_def swapped_def le_SucI split: if_splits)
next
  case (checks k t)
  then show ?case using set_update_subset_insert[of "waiters t" k]
    by (fastforce simp: token_ok_def wait_check_def swapped_def)
next
  case (creates k t)
  then show ?case using set_update_subset_insert[of "waiters t" k "WaitNotified (notify_calls t)"]
    by (fastforce simp: token_ok_def wait_create_def swapped_def)
next
  case (wakes k t n)
  then have "token_cancelled t" by (auto simp: token_ok_def split: if_splits)
  then show ?case using wakes set_update_subset_insert[of "waiters t" k WaitReturned]
    by (fastforce simp: token_ok_def wait_wake_def swapped_def)
qed

lemma token_start_ok: "token_ok (token_start c w)"
  by (auto simp: token_ok_def token_start_def swapped_def)

interpretation signal: invariant_system "token_start c w" token_step token_ok for c w
  by unfold_locales (auto intro: token_start_ok token_step_ok)

text \<open>After the only notification, a future created too late stays incomplete.\<close>

lemma late_waiter_step:
  assumes "token_step t t'" and "token_ok t" and "notify_calls t = 1" and "waiters t ! k = WaitNotified 1"
  shows "notify_calls t' = 1 \<and> waiters t' ! k = WaitNotified 1"
  using assms(1)
proof cases
  case (notifies j)
  then have "0 < swapped t" by (auto simp: swapped_def filter_empty_conv dest: nth_mem)
  then show ?thesis using assms(2,3) by (auto simp: token_ok_def split: if_splits)
qed (use assms in \<open>auto simp: cancel_swap_def wait_check_def wait_create_def wait_wake_def nth_list_update\<close>)

lemma late_waiter_stays:
  assumes "token_steps t t'" and "token_ok t" and "notify_calls t = 1" and "waiters t ! k = WaitNotified 1"
  shows "waiters t' ! k = WaitNotified 1"
  using signal.steps_keep[where P = "\<lambda>t. notify_calls t = 1 \<and> waiters t ! k = WaitNotified 1", OF assms(1,2)] assms(3,4) late_waiter_step by blast

section \<open>Properties\<close>

text \<open>C22: When a wait for cancellation ends. In every reachable state, a wait has returned only if
  cancellation was requested; when the notification has been sent, a wait whose future was created
  before it can return, and one whose future was created after it never returns, whatever any task
  does later. Such a late wait is reachable: the flag is read before the future is created, and the
  signal may fall between the two.\<close>

theorem cancellation_wait:
  "(\<forall>c w t k. token_steps (token_start c w) t \<longrightarrow> k < length (waiters t) \<longrightarrow>
     (waiters t ! k = WaitReturned \<longrightarrow> token_cancelled t) \<and>
     (notify_calls t > 0 \<longrightarrow> waiters t ! k = WaitNotified 0 \<longrightarrow> (\<exists>t'. token_step t t' \<and> waiters t' ! k = WaitReturned)) \<and>
     (\<forall>n t'. n > 0 \<longrightarrow> waiters t ! k = WaitNotified n \<longrightarrow> token_steps t t' \<longrightarrow> waiters t' ! k = WaitNotified n)) \<and>
   (\<exists>t. token_steps (token_start 1 1) t \<and> token_cancelled t \<and> cancellers t = [CancelReturned] \<and> waiters t = [WaitNotified 1])"
proof (intro conjI allI impI)
  fix c w t k assume t: "token_steps (token_start c w) t" and k: "k < length (waiters t)"
  note ok = signal.reachable_inv[OF t]
  show "waiters t ! k = WaitReturned \<Longrightarrow> token_cancelled t" using ok k by (metis nth_mem token_ok_def)
  show "notify_calls t > 0 \<Longrightarrow> waiters t ! k = WaitNotified 0 \<Longrightarrow> \<exists>t'. token_step t t' \<and> waiters t' ! k = WaitReturned"
    using k wakes[of k t 0] by (intro exI[of _ "wait_wake k t"]) (simp add: wait_wake_def)
  fix n t' assume n: "n > 0" "waiters t ! k = WaitNotified n" and later: "token_steps t t'"
  have "n \<le> notify_calls t" using ok k n(2) by (metis nth_mem token_ok_def)
  then have "notify_calls t = 1" "n = 1" using ok n(1) by (auto simp: token_ok_def split: if_splits)
  then show "waiters t' ! k = WaitNotified n" using late_waiter_stays[OF later ok] n(2) by simp
next
  let ?a = "wait_check 0 (token_start 1 1)" and ?late = "\<lambda>t. wait_create 0 (cancel_notify 0 (cancel_swap 0 t))"
  have "token_step (token_start 1 1) ?a" by (rule checks) (simp_all add: token_start_def)
  moreover have "token_step ?a (cancel_swap 0 ?a)" by (rule swaps) (simp_all add: token_start_def wait_check_def)
  moreover have "token_step (cancel_swap 0 ?a) (cancel_notify 0 (cancel_swap 0 ?a))" by (rule notifies) (simp_all add: token_start_def wait_check_def cancel_swap_def)
  moreover have "token_step (cancel_notify 0 (cancel_swap 0 ?a)) (?late ?a)" by (rule creates) (simp_all add: token_start_def wait_check_def cancel_swap_def cancel_notify_def)
  ultimately have "token_steps (token_start 1 1) (?late ?a)" by (meson converse_rtranclp_into_rtranclp rtranclp.rtrancl_refl)
  then show "\<exists>t. token_steps (token_start 1 1) t \<and> token_cancelled t \<and> cancellers t = [CancelReturned] \<and> waiters t = [WaitNotified 1]"
    by (intro exI[of _ "?late ?a"]) (simp add: token_start_def wait_check_def cancel_swap_def cancel_notify_def wait_create_def)
qed

theorem cancellation_wait_witness:
  "\<exists>t. token_steps (token_start 1 1) t \<and> token_cancelled t \<and> {t'. token_steps t t'} \<subseteq> {t'. waiters t' ! 0 = WaitNotified 1}"
proof -
  obtain t where t: "token_steps (token_start 1 1) t" "token_cancelled t" "waiters t = [WaitNotified 1]" using cancellation_wait by blast
  then have "waiters t' ! 0 = WaitNotified 1" if "token_steps t t'" for t'
    using that conjunct1[OF cancellation_wait, rule_format, of 1 1 t 0] by simp
  then show ?thesis using t by blast
qed

end
