(* ===== verification/Cluster_Config.thy ===== *)
theory Cluster_Config
  imports Coordination
begin

text \<open>
  Connection settings (\<open>EtcdConnectionOptions\<close> of \<^verbatim>\<open>src/coordination/etcd/mod.rs\<close>) and the application
  configuration of \<^verbatim>\<open>src/cluster.rs\<close>: the builders, their validation, the conversion to the options
  of the etcd client and the loading from environment variables. The environment and the file
  system are parameters; the options of the client are a record of the settings handed to it.
\<close>

section \<open>Connection options\<close>

text \<open>Durations are in nanoseconds; byte vectors are strings.\<close>

record EtcdConnectionOptions =
  username :: "string option"
  password :: "string option"
  ca_certificate :: "string option"
  client_certificate :: "string option"
  client_key :: "string option"
  tls_domain_name :: "string option"
  connect_timeout :: "nat option"
  request_timeout :: "nat option"
  keep_alive_interval :: "nat option"
  keep_alive_timeout :: "nat option"
  keep_alive_while_idle :: bool

definition EtcdConnectionOptions_new :: EtcdConnectionOptions where
  "EtcdConnectionOptions_new = \<lparr>username = None, password = None, ca_certificate = None, client_certificate = None, client_key = None,
     tls_domain_name = None, connect_timeout = None, request_timeout = None, keep_alive_interval = None, keep_alive_timeout = None,
     keep_alive_while_idle = True\<rparr>"

definition with_user :: "string \<Rightarrow> string \<Rightarrow> EtcdConnectionOptions \<Rightarrow> EtcdConnectionOptions" where
  "with_user name secret options = options\<lparr>username := Some name, password := Some secret\<rparr>"

definition with_ca_certificate :: "string \<Rightarrow> EtcdConnectionOptions \<Rightarrow> EtcdConnectionOptions" where
  "with_ca_certificate pem options = options\<lparr>ca_certificate := Some pem\<rparr>"

definition with_client_identity :: "string \<Rightarrow> string \<Rightarrow> EtcdConnectionOptions \<Rightarrow> EtcdConnectionOptions" where
  "with_client_identity certificate_pem key_pem options = options\<lparr>client_certificate := Some certificate_pem, client_key := Some key_pem\<rparr>"

definition with_tls_domain_name :: "string \<Rightarrow> EtcdConnectionOptions \<Rightarrow> EtcdConnectionOptions" where
  "with_tls_domain_name name options = options\<lparr>tls_domain_name := Some name\<rparr>"

definition with_connect_timeout :: "nat \<Rightarrow> EtcdConnectionOptions \<Rightarrow> EtcdConnectionOptions" where
  "with_connect_timeout timeout options = options\<lparr>connect_timeout := Some timeout\<rparr>"

definition with_request_timeout :: "nat \<Rightarrow> EtcdConnectionOptions \<Rightarrow> EtcdConnectionOptions" where
  "with_request_timeout timeout options = options\<lparr>request_timeout := Some timeout\<rparr>"

definition with_keep_alive :: "nat \<Rightarrow> nat \<Rightarrow> EtcdConnectionOptions \<Rightarrow> EtcdConnectionOptions" where
  "with_keep_alive interval timeout options = options\<lparr>keep_alive_interval := Some interval, keep_alive_timeout := Some timeout\<rparr>"

definition with_keep_alive_while_idle :: "bool \<Rightarrow> EtcdConnectionOptions \<Rightarrow> EtcdConnectionOptions" where
  "with_keep_alive_while_idle enabled options = options\<lparr>keep_alive_while_idle := enabled\<rparr>"

definition tls_enabled :: "EtcdConnectionOptions \<Rightarrow> bool" where
  "tls_enabled options \<longleftrightarrow> ca_certificate options \<noteq> None \<or> client_certificate options \<noteq> None \<or> client_key options \<noteq> None \<or> tls_domain_name options \<noteq> None"

text \<open>The first timeout that is zero.\<close>

definition check_timeouts :: "(string \<times> nat option) list \<Rightarrow> string + unit" where
  "check_timeouts timeouts = (case find (\<lambda>(name, timeout). timeout = Some 0) timeouts of
     Some (name, _) \<Rightarrow> Inl (''etcd '' @ name @ '' timeout must be positive'') | None \<Rightarrow> Inr ())"

definition EtcdConnectionOptions_validate :: "EtcdConnectionOptions \<Rightarrow> string + unit" where
  "EtcdConnectionOptions_validate options =
     (if (username options \<noteq> None) \<noteq> (password options \<noteq> None) then Inl ''etcd username and password must be configured together''
      else if (client_certificate options \<noteq> None) \<noteq> (client_key options \<noteq> None) then Inl ''etcd client certificate and key must be configured together''
      else if tls_enabled options \<and> ca_certificate options = Some [] then Inl ''etcd TLS CA certificate must not be empty''
      else if client_certificate options = Some [] \<or> client_key options = Some [] then Inl ''etcd client identity must not be empty''
      else bind_result (check_timeouts [(''connect'', connect_timeout options), (''request'', request_timeout options),
             (''keepalive interval'', keep_alive_interval options), (''keepalive timeout'', keep_alive_timeout options)]) (\<lambda>_.
      case tls_domain_name options of
        Some name \<Rightarrow> if blank name \<or> contains_nul name then Inl ''etcd TLS domain name must not be empty or contain NUL'' else Inr ()
      | None \<Rightarrow> Inr ()))"

record TlsOptions =
  tls_ca_certificate :: "string option"
  tls_identity :: "(string \<times> string) option"
  tls_domain :: "string option"

record ConnectOptions =
  connect_user :: "(string \<times> string) option"
  connect_keep_alive :: "(nat \<times> nat) option"
  connect_connect_timeout :: "nat option"
  connect_request_timeout :: "nat option"
  connect_keep_alive_while_idle :: bool
  connect_tls :: "TlsOptions option"

definition both :: "'a option \<Rightarrow> 'b option \<Rightarrow> ('a \<times> 'b) option" where
  "both x y = (case (x, y) of (Some a, Some b) \<Rightarrow> Some (a, b) | _ \<Rightarrow> None)"

definition to_connect_options :: "EtcdConnectionOptions \<Rightarrow> CoordinationError + ConnectOptions" where
  "to_connect_options options =
     bind_result (map_err InvalidConnectionOptions (EtcdConnectionOptions_validate options)) (\<lambda>_.
     Inr \<lparr>connect_user = both (username options) (password options),
          connect_keep_alive = both (keep_alive_interval options) (keep_alive_timeout options),
          connect_connect_timeout = connect_timeout options,
          connect_request_timeout = request_timeout options,
          connect_keep_alive_while_idle = keep_alive_while_idle options,
          connect_tls = (if tls_enabled options
            then Some \<lparr>tls_ca_certificate = ca_certificate options, tls_identity = both (client_certificate options) (client_key options),
                       tls_domain = tls_domain_name options\<rparr>
            else None)\<rparr>)"

section \<open>Cluster configuration\<close>

datatype ConfigError = MissingValue string | InvalidConfig string

definition ConfigError_fmt :: "ConfigError \<Rightarrow> string" where
  "ConfigError_fmt e = (case e of MissingValue name \<Rightarrow> ''missing configuration value '' @ name | InvalidConfig message \<Rightarrow> message)"

definition DEFAULT_ENDPOINT :: string where
  "DEFAULT_ENDPOINT = ''http://127.0.0.1:2379''"

definition DEFAULT_CLUSTER :: string where
  "DEFAULT_CLUSTER = ''default''"

record ClusterConfig =
  config_cluster :: string
  config_endpoints :: "string list"
  config_namespace :: string
  config_connection_options :: EtcdConnectionOptions

definition ClusterConfig_new :: "string \<Rightarrow> ClusterConfig" where
  "ClusterConfig_new name = \<lparr>config_cluster = name, config_endpoints = [DEFAULT_ENDPOINT], config_namespace = ''/clustodian/'' @ name,
     config_connection_options = EtcdConnectionOptions_new\<rparr>"

definition etcd_endpoints :: "string list \<Rightarrow> ClusterConfig \<Rightarrow> ClusterConfig" where
  "etcd_endpoints endpoints config = config\<lparr>config_endpoints := endpoints\<rparr>"

definition set_namespace :: "string \<Rightarrow> ClusterConfig \<Rightarrow> ClusterConfig" where
  "set_namespace namespace config = config\<lparr>config_namespace := namespace\<rparr>"

definition etcd_connection_options :: "EtcdConnectionOptions \<Rightarrow> ClusterConfig \<Rightarrow> ClusterConfig" where
  "etcd_connection_options options config = config\<lparr>config_connection_options := options\<rparr>"

definition ClusterConfig_validate :: "ClusterConfig \<Rightarrow> ConfigError + ClusterConfig" where
  "ClusterConfig_validate config =
     (if blank (config_cluster config) \<or> contains_nul (config_cluster config) then Inl (InvalidConfig ''cluster name must not be empty or contain NUL'')
      else if config_endpoints config = [] \<or> list_ex blank (config_endpoints config)
      then Inl (InvalidConfig ''at least one non-empty etcd endpoint is required'')
      else if blank (config_namespace config) \<or> contains_nul (config_namespace config) then Inl (InvalidConfig ''namespace must not be empty or contain NUL'')
      else bind_result (map_err InvalidConfig (EtcdConnectionOptions_validate (config_connection_options config))) (\<lambda>_. Inr config))"

section \<open>Loading from the environment\<close>

text \<open>The characters of a text, each with its bytes, and \<open>str::trim\<close>.\<close>

fun utf8_chars :: "string \<Rightarrow> string list" where
  "utf8_chars [] = []"
| "utf8_chars (c # rest) =
     (let n = (if of_char c < (128 :: nat) then 0 else if of_char c < (224 :: nat) then 1 else if of_char c < (240 :: nat) then 2 else 3)
      in (c # take n rest) # utf8_chars (drop n rest))"

definition trim :: "string \<Rightarrow> string" where
  "trim s = concat (rev (dropWhile blank (rev (dropWhile blank (utf8_chars s)))))"

text \<open>Which environment variables are set, as text, and the content of a file or the text of the
  error of reading it.\<close>

record environment =
  env_var :: "string \<Rightarrow> string option"
  env_read :: "string \<Rightarrow> string + string"

definition env_or :: "environment \<Rightarrow> string \<Rightarrow> string \<Rightarrow> string" where
  "env_or env name fallback = (case env_var env name of Some v \<Rightarrow> v | None \<Rightarrow> fallback)"

definition env_file :: "environment \<Rightarrow> string \<Rightarrow> string \<Rightarrow> ConfigError + string" where
  "env_file env what path = map_err (\<lambda>err. InvalidConfig (''failed to read etcd '' @ what @ '': '' @ err)) (env_read env path)"

definition env_user :: "environment \<Rightarrow> EtcdConnectionOptions \<Rightarrow> ConfigError + EtcdConnectionOptions" where
  "env_user env options = (case (env_var env ''CLUSTODIAN_ETCD_USERNAME'', env_var env ''CLUSTODIAN_ETCD_PASSWORD'') of
     (Some name, Some secret) \<Rightarrow> Inr (with_user name secret options)
   | (None, None) \<Rightarrow> Inr options
   | _ \<Rightarrow> Inl (InvalidConfig ''CLUSTODIAN_ETCD_USERNAME and CLUSTODIAN_ETCD_PASSWORD must be set together''))"

definition env_ca :: "environment \<Rightarrow> EtcdConnectionOptions \<Rightarrow> ConfigError + EtcdConnectionOptions" where
  "env_ca env options = (case env_var env ''CLUSTODIAN_ETCD_CA_CERT_FILE'' of
     Some path \<Rightarrow> bind_result (env_file env ''CA certificate'' path) (\<lambda>pem. Inr (with_ca_certificate pem options))
   | None \<Rightarrow> Inr options)"

definition env_identity :: "environment \<Rightarrow> EtcdConnectionOptions \<Rightarrow> ConfigError + EtcdConnectionOptions" where
  "env_identity env options = (case (env_var env ''CLUSTODIAN_ETCD_CLIENT_CERT_FILE'', env_var env ''CLUSTODIAN_ETCD_CLIENT_KEY_FILE'') of
     (Some certificate, Some key) \<Rightarrow>
       bind_result (env_file env ''client certificate'' certificate) (\<lambda>certificate.
       bind_result (env_file env ''client key'' key) (\<lambda>key. Inr (with_client_identity certificate key options)))
   | (None, None) \<Rightarrow> Inr options
   | _ \<Rightarrow> Inl (InvalidConfig ''CLUSTODIAN_ETCD_CLIENT_CERT_FILE and CLUSTODIAN_ETCD_CLIENT_KEY_FILE must be set together''))"

definition env_domain :: "environment \<Rightarrow> EtcdConnectionOptions \<Rightarrow> EtcdConnectionOptions" where
  "env_domain env options = (case env_var env ''CLUSTODIAN_ETCD_TLS_DOMAIN_NAME'' of
     Some name \<Rightarrow> with_tls_domain_name name options | None \<Rightarrow> options)"

definition from_env :: "environment \<Rightarrow> ConfigError + ClusterConfig" where
  "from_env env =
     (let name = env_or env ''CLUSTODIAN_CLUSTER'' DEFAULT_CLUSTER;
          endpoints = env_or env ''CLUSTODIAN_ETCD_ENDPOINTS'' DEFAULT_ENDPOINT;
          namespace = env_or env ''CLUSTODIAN_NAMESPACE'' (''/clustodian/'' @ name);
          config = set_namespace namespace (etcd_endpoints (map trim (split_on CHR '','' endpoints)) (ClusterConfig_new name))
      in bind_result (env_user env EtcdConnectionOptions_new) (\<lambda>options.
         bind_result (env_ca env options) (\<lambda>options.
         bind_result (env_identity env options) (\<lambda>options.
         ClusterConfig_validate (etcd_connection_options (env_domain env options) config)))))"

end
