(* ===== verification/Admin.thy ===== *)
theory Admin
  imports Etcd_Sessions Controller_Plans Cluster_Config
begin

text \<open>
  Administrative writes (\<^verbatim>\<open>src/admin.rs\<close>) and the declarative facade above them (\<^verbatim>\<open>src/cluster.rs\<close>):
  cluster identity, instance configurations, resource records, throttle records, and the
  validation and application of a cluster specification. The serialization by \<^verbatim>\<open>serde_json\<close> is a
  parameter. The records written here are the ones \<open>Controller_Plans\<close> reads.
\<close>

record admin_codec =
  decode_instance_records :: "string \<Rightarrow> InstanceConfigRecord list option"
  encode_instance_records :: "InstanceConfigRecord list \<Rightarrow> string option"
  encode_resource_record :: "ResourceRecord \<Rightarrow> string option"
  encode_throttle_records :: "ThrottleRecord list \<Rightarrow> string option"

section \<open>Specifications\<close>

record InstanceSpec =
  spec_instance_id :: string
  spec_zone :: string

record CrushTopologySpec =
  spec_path :: string
  spec_fault_zone_type :: string
  spec_end_node_type :: string

datatype PlacementSpec = CrushPlacement | CrushWithTopology CrushTopologySpec | SemiAutoPlacement "(string, string list) btree"

record ResourceSpec =
  spec_name :: string
  spec_partitions :: nat
  spec_replicas :: nat
  spec_state_model :: string
  spec_placement :: PlacementSpec

datatype TransitionLimitTarget = LimitCluster | LimitResource ResourceId | LimitInstance InstanceId

datatype TransitionRebalanceType = LimitAny | LimitRecoveryBalance | LimitLoadBalance

record TransitionLimitSpec =
  limit_target :: TransitionLimitTarget
  limit_rebalance_type :: TransitionRebalanceType
  limit_max_in_flight :: nat

record ThrottleSpec =
  throttle_spec_scope :: string
  throttle_spec_rebalance_type :: string
  throttle_spec_max_in_flight :: nat

section \<open>The cluster identity\<close>

definition ensure_cluster :: "EtcdCoordination \<Rightarrow> string \<Rightarrow> unit action" where
  "ensure_cluster b cluster =
     (if cluster \<noteq> namespace_cluster b \<or> blank cluster \<or> contains_nul cluster then Return (Inl InvalidCluster)
      else bind_action (compare_and_put_absent b ''controller/cluster'' cluster) (\<lambda>applied.
        if applied then Return (Inr ())
        else bind_action (metadata_get b ''controller/cluster'') (\<lambda>existing.
          if Option.bind existing entry_value = Some cluster then Return (Inr ()) else Return (Inl InvalidCluster))))"

section \<open>Instances\<close>

definition ADMIN_CAS_RETRIES :: nat where
  "ADMIN_CAS_RETRIES = 32"

definition decode_instances :: "admin_codec \<Rightarrow> MetadataEntry option \<Rightarrow> CoordinationError + InstanceConfigRecord list" where
  "decode_instances codec entry = (case Option.bind entry entry_value of
     None \<Rightarrow> Inr [] | Some v \<Rightarrow> ok_or (decode_instance_records codec v) InvalidStoreValue)"

definition by_name :: "InstanceConfigRecord list \<Rightarrow> InstanceConfigRecord list" where
  "by_name = sort_by (\<lambda>a b. config_name a \<le> config_name b)"

definition with_instance :: "string \<Rightarrow> string \<Rightarrow> InstanceConfigRecord list \<Rightarrow> InstanceConfigRecord list" where
  "with_instance name zone records =
     by_name (filter (\<lambda>r. config_name r \<noteq> name) records @ [\<lparr>config_name = name, config_zone = zone\<rparr>])"

fun put_instance_loop :: "nat \<Rightarrow> admin_codec \<Rightarrow> EtcdCoordination \<Rightarrow> InstanceId \<Rightarrow> string \<Rightarrow> unit action" where
  "put_instance_loop 0 codec b i zone = Return (Inl Contention)"
| "put_instance_loop (Suc n) codec b i zone =
     bind_action (metadata_get b INSTANCE_CONFIGS_KEY) (\<lambda>current.
     bind_action (Return (decode_instances codec current)) (\<lambda>existing.
     let instances = with_instance (InstanceId_as_str i) zone existing
     in if instances = by_name existing then Return (Inr ())
        else bind_action (Return (ok_or (encode_instance_records codec instances) InvalidStoreValue)) (\<lambda>v.
        bind_action (case current of
            Some entry \<Rightarrow> bind_action (compare_and_put b INSTANCE_CONFIGS_KEY (entry_revision entry) v) (\<lambda>r. Return (Inr (cas_applied r)))
          | None \<Rightarrow> compare_and_put_absent b INSTANCE_CONFIGS_KEY v) (\<lambda>applied.
        if applied then Return (Inr ()) else put_instance_loop n codec b i zone))))"

definition put_instance :: "admin_codec \<Rightarrow> EtcdCoordination \<Rightarrow> InstanceSpec \<Rightarrow> unit action" where
  "put_instance codec b spec =
     bind_action (Return (map_err (\<lambda>_. InvalidKey) (InstanceId_new (spec_instance_id spec)))) (\<lambda>i.
     if blank (spec_zone spec) \<or> contains_nul (spec_zone spec) then Return (Inl InvalidStoreValue)
     else put_instance_loop ADMIN_CAS_RETRIES codec b i (spec_zone spec))"

fun remove_instance_loop :: "nat \<Rightarrow> admin_codec \<Rightarrow> EtcdCoordination \<Rightarrow> InstanceId \<Rightarrow> unit action" where
  "remove_instance_loop 0 codec b i = Return (Inl Contention)"
| "remove_instance_loop (Suc n) codec b i =
     bind_action (metadata_get b INSTANCE_CONFIGS_KEY) (\<lambda>current. case current of
       None \<Rightarrow> Return (Inr ())
     | Some entry \<Rightarrow>
         bind_action (Return (decode_instances codec (Some entry))) (\<lambda>instances.
         if \<not> list_ex (\<lambda>r. config_name r = InstanceId_as_str i) instances then Return (Inr ())
         else bind_action (Return (ok_or (encode_instance_records codec (filter (\<lambda>r. config_name r \<noteq> InstanceId_as_str i) instances)) InvalidStoreValue)) (\<lambda>v.
         bind_action (compare_and_put_if_live_absent b INSTANCE_CONFIGS_KEY (entry_revision entry) i v) (\<lambda>r.
         if cas_applied r then Return (Inr ())
         else bind_action (live_session b i) (\<lambda>live.
         if live \<noteq> None then Return (Inl (InstanceStillLive i)) else remove_instance_loop n codec b i)))))"

definition remove_instance :: "admin_codec \<Rightarrow> EtcdCoordination \<Rightarrow> string \<Rightarrow> unit action" where
  "remove_instance codec b instance_id =
     bind_action (Return (map_err (\<lambda>_. InvalidKey) (InstanceId_new instance_id))) (\<lambda>i.
     remove_instance_loop ADMIN_CAS_RETRIES codec b i)"

section \<open>Resources\<close>

definition partition_names :: "ResourceId \<Rightarrow> nat \<Rightarrow> string list" where
  "partition_names resource n = map (\<lambda>index. ResourceId_as_str resource @ ''_'' @ show_nat index) [0..<n]"

definition check_semi_auto :: "nat \<Rightarrow> string \<times> string list \<Rightarrow> CoordinationError + unit" where
  "check_semi_auto n x = (case x of (p, instances) \<Rightarrow>
     bind_result (map_err (\<lambda>_. InvalidKey) (PartitionId_new p)) (\<lambda>_.
     if length instances \<noteq> n then Inl InvalidStoreValue
     else if length (remdups instances) \<noteq> length instances then Inl InvalidStoreValue
     else bind_result (map_result (\<lambda>i. map_err (\<lambda>_. InvalidKey) (InstanceId_new i)) instances) (\<lambda>_. Inr ())))"

definition placement_record :: "ResourceId \<Rightarrow> ResourceSpec \<Rightarrow> CoordinationError + PlacementRecord" where
  "placement_record resource spec = (case spec_placement spec of
     CrushPlacement \<Rightarrow> Inr \<lparr>placement_kind = ''CRUSH'', placement_replicas = spec_replicas spec, placement_preference_lists = bt_empty,
       placement_partitions = partition_names resource (spec_partitions spec), placement_topology = None\<rparr>
   | CrushWithTopology topology \<Rightarrow> Inr \<lparr>placement_kind = ''CRUSH'', placement_replicas = spec_replicas spec, placement_preference_lists = bt_empty,
       placement_partitions = partition_names resource (spec_partitions spec),
       placement_topology = Some \<lparr>record_path = spec_path topology, record_fault_zone_type = spec_fault_zone_type topology,
         record_end_node_type = spec_end_node_type topology\<rparr>\<rparr>
   | SemiAutoPlacement pls \<Rightarrow>
       if bt_len pls \<noteq> spec_partitions spec then Inl InvalidStoreValue
       else bind_result (map_result (check_semi_auto (spec_replicas spec)) (entries pls)) (\<lambda>_.
       Inr \<lparr>placement_kind = ''SEMI_AUTO'', placement_replicas = spec_replicas spec, placement_preference_lists = pls,
         placement_partitions = [], placement_topology = None\<rparr>))"

definition resource_record :: "ResourceSpec \<Rightarrow> CoordinationError + ResourceId \<times> ResourceRecord" where
  "resource_record spec =
     bind_result (map_err (\<lambda>_. InvalidKey) (ResourceId_new (spec_name spec))) (\<lambda>resource.
     if spec_partitions spec = 0 \<or> spec_replicas spec = 0 \<or> spec_state_model spec \<noteq> ''LeaderStandby'' then Inl InvalidStoreValue
     else bind_result (placement_record resource spec) (\<lambda>placement.
     Inr (resource, \<lparr>record_name = ResourceId_as_str resource, record_state_model = spec_state_model spec, record_placement = placement\<rparr>)))"

definition put_resource :: "admin_codec \<Rightarrow> EtcdCoordination \<Rightarrow> ResourceSpec \<Rightarrow> unit action" where
  "put_resource codec b spec =
     bind_action (Return (resource_record spec)) (\<lambda>(resource, record).
     bind_action (Return (ok_or (encode_resource_record codec record) InvalidStoreValue)) (\<lambda>v.
     let key = RESOURCE_PREFIX @ ResourceId_as_str resource
     in bind_action (metadata_get b key) (\<lambda>entry.
        if Option.bind entry entry_value = Some v then Return (Inr ())
        else bind_action (metadata_put b key v None) (\<lambda>_. Return (Inr ())))))"

definition remove_resource :: "string \<Rightarrow> unit action" where
  "remove_resource resource_id =
     bind_action (Return (map_err (\<lambda>_. InvalidKey) (ResourceId_new resource_id))) (\<lambda>_. Return (Inl ResourceDeletionDisabled))"

section \<open>Throttles\<close>

text \<open>The untyped record has no target fields.\<close>

definition throttle_record_of :: "ThrottleSpec \<Rightarrow> ThrottleRecord" where
  "throttle_record_of spec = \<lparr>throttle_scope = throttle_spec_scope spec, throttle_resource_name = None, throttle_instance_name = None,
     throttle_rebalance_type = throttle_spec_rebalance_type spec, max_in_flight = throttle_spec_max_in_flight spec\<rparr>"

definition put_throttles :: "admin_codec \<Rightarrow> EtcdCoordination \<Rightarrow> ThrottleSpec list \<Rightarrow> unit action" where
  "put_throttles codec b specs =
     (if list_ex (\<lambda>t. throttle_spec_max_in_flight t = 0 \<or> blank (throttle_spec_scope t)) specs then Return (Inl InvalidStoreValue)
      else bind_action (Return (ok_or (encode_throttle_records codec (map throttle_record_of specs)) InvalidStoreValue)) (\<lambda>v.
        bind_action (metadata_put b THROTTLES_KEY v None) (\<lambda>_. Return (Inr ()))))"

definition TransitionLimitRecord_from :: "TransitionLimitSpec \<Rightarrow> ThrottleRecord" where
  "TransitionLimitRecord_from limit =
     (case (case limit_target limit of
         LimitCluster \<Rightarrow> (''CLUSTER'', None, None)
       | LimitResource r \<Rightarrow> (''RESOURCE'', Some (ResourceId_as_str r), None)
       | LimitInstance i \<Rightarrow> (''INSTANCE'', None, Some (InstanceId_as_str i))) of (scope, resource, i) \<Rightarrow>
      \<lparr>throttle_scope = scope, throttle_resource_name = resource, throttle_instance_name = i,
       throttle_rebalance_type = (case limit_rebalance_type limit of
         LimitAny \<Rightarrow> ''ANY'' | LimitRecoveryBalance \<Rightarrow> ''RECOVERY_BALANCE'' | LimitLoadBalance \<Rightarrow> ''LOAD_BALANCE''),
       max_in_flight = limit_max_in_flight limit\<rparr>)"

definition put_transition_limits :: "admin_codec \<Rightarrow> EtcdCoordination \<Rightarrow> TransitionLimitSpec list \<Rightarrow> unit action" where
  "put_transition_limits codec b limits =
     (if list_ex (\<lambda>l. limit_max_in_flight l = 0) limits then Return (Inl InvalidStoreValue)
      else bind_action (Return (ok_or (encode_throttle_records codec (map TransitionLimitRecord_from limits)) InvalidStoreValue)) (\<lambda>v.
        bind_action (metadata_put b THROTTLES_KEY v None) (\<lambda>_. Return (Inr ()))))"

end
