(* ===== verification/Admin_Laws.thy ===== *)
theory Admin_Laws
  imports Admin Etcd_Queue_Laws
begin

text \<open>
  Administrative writes under concurrency, and their agreement with the controller that reads
  them: changes of the instance configurations take effect atomically on the list of that moment,
  an instance is removed only while it has no live record, and limits and resources read back as
  they were given.
\<close>

section \<open>The instance list of a store\<close>

definition faithful_instances :: "admin_codec \<Rightarrow> bool" where
  "faithful_instances codec \<longleftrightarrow> (\<forall>records v. encode_instance_records codec records = Some v \<longrightarrow> decode_instance_records codec v = Some records)"

definition instances_at :: "'s etcd \<Rightarrow> admin_codec \<Rightarrow> EtcdCoordination \<Rightarrow> 's \<Rightarrow> CoordinationError + InstanceConfigRecord list" where
  "instances_at e codec b s = (case etcd_get e s (metadata_key b INSTANCE_CONFIGS_KEY) of
     None \<Rightarrow> Inr [] | Some kv \<Rightarrow> ok_or (decode_instance_records codec (kv_value kv)) InvalidStoreValue)"

text \<open>The list is replaced as a whole; nothing else changes but the input marker.\<close>

definition instances_updated :: "'s etcd \<Rightarrow> admin_codec \<Rightarrow> EtcdCoordination \<Rightarrow> (InstanceConfigRecord list \<Rightarrow> InstanceConfigRecord list) \<Rightarrow> 's \<Rightarrow> 's \<Rightarrow> bool" where
  "instances_updated e codec b f t u \<longleftrightarrow>
     (\<exists>old. instances_at e codec b t = Inr old \<and> instances_at e codec b u = Inr (f old)) \<and>
     (\<forall>k. k \<notin> {metadata_key b INSTANCE_CONFIGS_KEY, metadata_key b AUTHORITATIVE_INPUT_MARKER} \<longrightarrow> etcd_get e u k = etcd_get e t k)"

lemma instances_not_marker [simp]: "INSTANCE_CONFIGS_KEY \<noteq> AUTHORITATIVE_INPUT_MARKER" "AUTHORITATIVE_INPUT_MARKER \<noteq> INSTANCE_CONFIGS_KEY"
  by (simp_all add: INSTANCE_CONFIGS_KEY_def AUTHORITATIVE_INPUT_MARKER_def)

abbreviation instances_put :: "EtcdCoordination \<Rightarrow> string \<Rightarrow> TxnOp list" where
  "instances_put b v \<equiv> with_input_marker b INSTANCE_CONFIGS_KEY (PutOp (metadata_key b INSTANCE_CONFIGS_KEY) v None)"

lemma instances_put_distinct [simp]: "distinct (map op_key (instances_put b v))"
  by (simp add: with_input_marker_def authoritative_input_marker_operation_def)

lemma instances_put_updates:
  assumes "etcd_contract e" and "faithful_instances codec" and "etcd_txn e t cs (instances_put b v) = (True, u)"
    and "instances_at e codec b t = Inr old" and "encode_instance_records codec (f old) = Some v"
  shows "instances_updated e codec b f t u"
proof -
  have get: "etcd_get e u = Etcd_Client.written (etcd_revision e t + 1) (instances_put b v) (etcd_get e t)"
    using contract_txn(3)[OF assms(1) instances_put_distinct assms(3)] by simp
  have "map_option kv_value (etcd_get e u (metadata_key b INSTANCE_CONFIGS_KEY)) = Some v"
    by (simp add: get Etcd_Client.written_def with_input_marker_def)
  then have "instances_at e codec b u = Inr (f old)"
    using assms(2,5) by (auto simp: instances_at_def faithful_instances_def ok_or_def)
  moreover have "etcd_get e u k = etcd_get e t k" if "k \<notin> {metadata_key b INSTANCE_CONFIGS_KEY, metadata_key b AUTHORITATIVE_INPUT_MARKER}" for k
    using that by (auto simp: get Etcd_Client.written_def with_input_marker_def authoritative_input_marker_operation_def)
  ultimately show ?thesis using assms(4) by (auto simp: instances_updated_def)
qed

lemma decode_instances_at:
  "etcd_get e s (metadata_key b INSTANCE_CONFIGS_KEY) = Some kv \<Longrightarrow> decode_instances codec (Some \<lparr>entry_value = Some (kv_value kv), entry_revision = r\<rparr>) = instances_at e codec b s"
  "etcd_get e s (metadata_key b INSTANCE_CONFIGS_KEY) = None \<Longrightarrow> decode_instances codec None = instances_at e codec b s"
  by (simp_all add: decode_instances_def instances_at_def)

section \<open>Removing an instance\<close>

definition without :: "InstanceId \<Rightarrow> InstanceConfigRecord list \<Rightarrow> InstanceConfigRecord list" where
  "without i records = filter (\<lambda>r. config_name r \<noteq> InstanceId_as_str i) records"

definition removal_log :: "'s etcd \<Rightarrow> admin_codec \<Rightarrow> EtcdCoordination \<Rightarrow> InstanceId \<Rightarrow> ('s \<times> TxnOp list \<times> 's) list \<Rightarrow> CoordinationError + unit \<Rightarrow> bool" where
  "removal_log e codec b i log y \<longleftrightarrow> length log \<le> 1 \<and>
     (\<forall>(t, ops, u) \<in> set log. etcd_get e t (live_key b i) = None \<and> instances_updated e codec b (without i) t u) \<and>
     (\<forall>err. y = Inl err \<longrightarrow> log = [] \<or> is_transient err \<or> err = MissingRevision)"

text \<open>Success: the removal was applied, or a store was seen in which there was nothing to remove.\<close>

definition removal_done :: "'s etcd \<Rightarrow> admin_codec \<Rightarrow> EtcdCoordination \<Rightarrow> InstanceId \<Rightarrow> 's event list \<Rightarrow> CoordinationError + unit \<Rightarrow> bool" where
  "removal_done e codec b i tr y \<longleftrightarrow> (case y of
     Inr _ \<Rightarrow> applied tr \<noteq> [] \<or> (\<exists>t old. Saw t \<in> set tr \<and> instances_at e codec b t = Inr old \<and> without i old = old)
   | Inl _ \<Rightarrow> True)"

lemma removal_log_silent [simp]: "removal_log e codec b i [] y"
  by (simp add: removal_log_def)

lemma removal_done_simps [simp]:
  "removal_done e codec b i tr (Inl err)" "removal_done e codec b i (tr @ [Did t ops u]) (Inr r)"
  "instances_at e codec b t = Inr old \<Longrightarrow> without i old = old \<Longrightarrow> removal_done e codec b i (tr @ [Saw t]) (Inr r)"
  by (auto simp: removal_done_def)

lemma removal_log_once:
  "etcd_get e t (live_key b i) = None \<Longrightarrow> instances_updated e codec b (without i) t u \<Longrightarrow>
     y = Inr () \<or> (\<exists>err. y = Inl err \<and> (is_transient err \<or> err = MissingRevision)) \<Longrightarrow> removal_log e codec b i [(t, ops, u)] y"
  by (auto simp: removal_log_def)

lemma remove_instance_loop_runs:
  assumes "etcd_contract e" and "faithful_instances codec" and "runs e s (remove_instance_loop n codec b i) log s' y"
  shows "removal_log e codec b i log y"
  using assms(3)
proof (induction n arbitrary: s log)
  case (Suc n)
  from Suc.prems[unfolded remove_instance_loop.simps] assms(1) show ?case
  proof (cases rule: run_metadata_get_then)
    case (absent t u)
    then show ?thesis by (simp add: runs_Return)
  next
    case (present t u kv)
    note dec = decode_instances_at(1)[OF present(3), of codec]
    from present(4)[simplified option.case, unfolded dec] show ?thesis
    proof (cases rule: run_pure_then)
      case (result old)
      show ?thesis
      proof (cases "list_ex (\<lambda>r. config_name r = InstanceId_as_str i) old")
        case False
        then show ?thesis using result by (simp add: runs_Return)
      next
        case True
        from result(2)[simplified True not_True_eq_False if_False] show ?thesis
        proof (cases rule: run_pure_then)
          case put: (result v)
          then have v: "encode_instance_records codec (without i old) = Some v" by (auto simp: ok_or_def without_def split: option.splits)
          have applied_at: "etcd_get e t' (live_key b i) = None \<and> instances_updated e codec b (without i) t' u'"
            if n: "newer e u t'" and txn: "etcd_txn e t' [CompareModRevision (metadata_key b INSTANCE_CONFIGS_KEY) (kv_mod_revision kv), CompareVersion (live_key b i) 0] (instances_put b v) = (True, u')" for t' u'
          proof -
            have cs: "compare_holds (etcd_get e t') (CompareModRevision (metadata_key b INSTANCE_CONFIGS_KEY) (kv_mod_revision kv))" "compare_holds (etcd_get e t') (CompareVersion (live_key b i) 0)"
              using contract_txn(1)[OF assms(1) instances_put_distinct txn] by simp_all
            have "etcd_get e t' (metadata_key b INSTANCE_CONFIGS_KEY) = Some kv"
              by (rule record_unchanged[OF assms(1) newer_trans[OF present(2) n] present(3) cs(1)])
            then have "instances_at e codec b t' = Inr old" using result(1) present(3) by (simp add: instances_at_def)
            from instances_put_updates[where f = "without i", OF assms(1,2) txn this v] show ?thesis
              using cs(2) by (auto simp: compare_simps dest: contract_get[OF assms(1)] split: option.splits)
          qed
          from put(2)[unfolded compare_and_put_if_live_absent_def] assms(1) instances_put_distinct show ?thesis
          proof (cases rule: run_cas_then)
            case (failed w r)
            then have "runs e w (bind_action (live_session b i) (\<lambda>live. if live \<noteq> None then Return (Inl (InstanceStillLive i)) else remove_instance_loop n codec b i)) log s' y" by simp
            then show ?thesis using assms(1) live_session_silent
            proof (cases rule: run_silent_then)
              case (result w' live)
              then show ?thesis using Suc.IH[of w' log] by (auto simp: runs_Return split: if_splits)
            qed simp
          next
            case (applied t' u' w r log')
            then show ?thesis using applied_at[OF applied(1)] by (auto simp: runs_Return intro!: removal_log_once)
          qed (use applied_at in \<open>auto simp: is_transient_def intro!: removal_log_once\<close>)
        qed simp
      qed
    qed simp
  qed simp
qed (simp add: runs_Return)

lemma remove_instance_loop_ensures: "ensures e (removal_done e codec b i) (remove_instance_loop n codec b i) tr"
proof (induction n arbitrary: tr)
  case (Suc n)
  have live: "ensures e (removal_done e codec b i) (bind_action (live_session b i) (\<lambda>live.
      if live \<noteq> None then Return (Inl (InstanceStillLive i)) else remove_instance_loop n codec b i)) tr" for tr
    unfolding ensures_bind_action by (rule ensures_live_session[where session = undefined]) (use Suc.IH in auto)
  have put: "ensures e (removal_done e codec b i) (bind_action (compare_and_put_if_live_absent b INSTANCE_CONFIGS_KEY r i v) (\<lambda>r.
      if cas_applied r then Return (Inr ()) else bind_action (live_session b i) (\<lambda>live.
      if live \<noteq> None then Return (Inl (InstanceStillLive i)) else remove_instance_loop n codec b i))) tr" for tr r v
    unfolding ensures_bind_action[of _ _ "compare_and_put_if_live_absent _ _ _ _ _"] unfolding compare_and_put_if_live_absent_def
    by (rule ensures_cas) (use live in auto)
  have absent: "without i old = old" if "\<not> list_ex (\<lambda>r. config_name r = InstanceId_as_str i) old" for old
    using that by (auto simp: without_def list_ex_iff intro!: filter_True)
  show ?case unfolding remove_instance_loop.simps ensures_bind_action[of _ _ "metadata_get _ _"]
  proof (rule ensures_metadata_get, goal_cases)
    case (2 t)
    then have "instances_at e codec b t = Inr []" by (simp add: instances_at_def)
    then show ?case by (simp add: without_def)
  next
    case (3 t kv)
    note dec = decode_instances_at(1)[OF 3, of codec "Revision (kv_mod_revision kv)"]
    show ?case
    proof (cases "instances_at e codec b t")
      case (Inr old)
      let ?v = "encode_instance_records codec (filter (\<lambda>r. config_name r \<noteq> InstanceId_as_str i) old)"
      show ?thesis using Inr absent[of old] put by (cases ?v) (auto simp: dec ok_or_def)
    qed (simp add: dec)
  qed simp
qed simp

text \<open>C20: Only absent instances are removed. Whatever other clients do meanwhile, removing an instance
  sends at most one transaction that takes effect, at a moment when the instance has no live
  record, and that transaction drops exactly the instance's records from the list of that moment.
  The removal succeeds only if it applied such a transaction, or if it was answered from a store
  whose list has no record of the instance.\<close>

theorem removal_spares_live_instances:
  assumes "etcd_contract e" and "faithful_instances codec" and "traced e s (remove_instance codec b name) tr s' y"
  shows "removal_log e codec b (InstanceId name) (applied tr) y \<and> removal_done e codec b (InstanceId name) tr y"
proof (cases "InstanceId_new name")
  case (Inl err)
  then show ?thesis using assms(3) traced_runs[OF assms(3)] by (auto simp: remove_instance_def runs_Return)
next
  case (Inr i)
  then have i: "i = InstanceId name" and p: "remove_instance codec b name = remove_instance_loop ADMIN_CAS_RETRIES codec b i"
    by (auto simp: remove_instance_def InstanceId_new_def validate_def split: if_splits)
  have "removal_done e codec b i tr y" using assms(3)[unfolded p] remove_instance_loop_ensures by (rule ensures_sound)
  then show ?thesis using remove_instance_loop_runs[OF assms(1,2) traced_runs[OF assms(3), unfolded p]] i by simp
qed

section \<open>Adding an instance\<close>

definition addition_log :: "'s etcd \<Rightarrow> admin_codec \<Rightarrow> EtcdCoordination \<Rightarrow> string \<Rightarrow> string \<Rightarrow> ('s \<times> TxnOp list \<times> 's) list \<Rightarrow> CoordinationError + unit \<Rightarrow> bool" where
  "addition_log e codec b name zone log y \<longleftrightarrow> length log \<le> 1 \<and>
     (\<forall>(t, ops, u) \<in> set log. instances_updated e codec b (with_instance name zone) t u) \<and>
     (\<forall>err. y = Inl err \<longrightarrow> log = [] \<or> is_transient err \<or> err = MissingRevision)"

definition addition_done :: "'s etcd \<Rightarrow> admin_codec \<Rightarrow> EtcdCoordination \<Rightarrow> string \<Rightarrow> string \<Rightarrow> 's event list \<Rightarrow> CoordinationError + unit \<Rightarrow> bool" where
  "addition_done e codec b name zone tr y \<longleftrightarrow> (case y of
     Inr _ \<Rightarrow> applied tr \<noteq> [] \<or> (\<exists>t old. Saw t \<in> set tr \<and> instances_at e codec b t = Inr old \<and> with_instance name zone old = by_name old)
   | Inl _ \<Rightarrow> True)"

lemma addition_log_silent [simp]: "addition_log e codec b name zone [] y"
  by (simp add: addition_log_def)

lemma addition_done_simps [simp]:
  "addition_done e codec b name zone tr (Inl err)" "addition_done e codec b name zone (tr @ [Did t ops u]) (Inr r)"
  "instances_at e codec b t = Inr old \<Longrightarrow> with_instance name zone old = by_name old \<Longrightarrow> addition_done e codec b name zone (tr @ [Saw t]) (Inr r)"
  by (auto simp: addition_done_def)

lemma addition_log_once:
  "instances_updated e codec b (with_instance name zone) t u \<Longrightarrow>
     y = Inr () \<or> (\<exists>err. y = Inl err \<and> (is_transient err \<or> err = MissingRevision)) \<Longrightarrow> addition_log e codec b name zone [(t, ops, u)] y"
  by (auto simp: addition_log_def)

text \<open>The guarded write, whichever comparison guards it, and the retry.\<close>

lemma put_if_unchanged:
  assumes "etcd_contract e" and "faithful_instances codec" and "encode_instance_records codec (with_instance name zone old) = Some v"
    and "runs e u (bind_action (case entry of
        Some entry \<Rightarrow> bind_action (compare_and_put b INSTANCE_CONFIGS_KEY (entry_revision entry) v) (\<lambda>r. Return (Inr (cas_applied r)))
      | None \<Rightarrow> compare_and_put_absent b INSTANCE_CONFIGS_KEY v) (\<lambda>applied. if applied then Return (Inr ()) else rest)) log s' y"
    and "\<And>w log. newer e u w \<Longrightarrow> runs e w rest log s' y \<Longrightarrow> addition_log e codec b name zone log y"
    and "\<And>t. newer e u t \<Longrightarrow> compare_holds (etcd_get e t) (case entry of Some entry \<Rightarrow> CompareModRevision (metadata_key b INSTANCE_CONFIGS_KEY) (revision_value (entry_revision entry))
      | None \<Rightarrow> CompareVersion (metadata_key b INSTANCE_CONFIGS_KEY) 0) \<Longrightarrow> instances_at e codec b t = Inr old"
  shows "addition_log e codec b name zone log y"
proof -
  have updated: "instances_updated e codec b (with_instance name zone) t u'"
    if n: "newer e u t" and txn: "etcd_txn e t [case entry of Some entry \<Rightarrow> CompareModRevision (metadata_key b INSTANCE_CONFIGS_KEY) (revision_value (entry_revision entry))
      | None \<Rightarrow> CompareVersion (metadata_key b INSTANCE_CONFIGS_KEY) 0] (instances_put b v) = (True, u')" for t u'
  proof -
    have "instances_at e codec b t = Inr old" using assms(6)[OF n] contract_txn(1)[OF assms(1) instances_put_distinct txn] by simp
    from instances_put_updates[where f = "with_instance name zone", OF assms(1,2) txn this assms(3)] show ?thesis .
  qed
  show ?thesis
  proof (cases entry)
    case None
    from assms(4)[unfolded None option.case compare_and_put_absent_def bind_action_assoc] assms(1) instances_put_distinct show ?thesis
    proof (cases rule: run_commit_then)
      case (failed t w h)
      then show ?thesis using assms(5)[of w log] newer_trans[OF failed(1,3)] by simp
    next
      case (applied t u' w h log')
      then show ?thesis using updated[of t u'] None by (auto simp: runs_Return intro!: addition_log_once)
    qed (use updated None in \<open>auto simp: is_transient_def intro!: addition_log_once\<close>)
  next
    case (Some en)
    have "runs e u (bind_action (bind_action (commit [CompareModRevision (metadata_key b INSTANCE_CONFIGS_KEY) (revision_value (entry_revision en))] (instances_put b v)) (\<lambda>r. Return (cas_result r)))
        (\<lambda>r. if cas_applied r then Return (Inr ()) else rest)) log s' y"
      using assms(4) by (simp add: Some compare_and_put_def bind_action_assoc)
    then show ?thesis using assms(1) instances_put_distinct
    proof (cases rule: run_cas_then)
      case (failed w r)
      then show ?thesis using assms(5)[of w log] by simp
    next
      case (applied t u' w r log')
      then show ?thesis using updated[of t u'] Some by (auto simp: runs_Return intro!: addition_log_once)
    qed (use updated Some in \<open>auto simp: is_transient_def intro!: addition_log_once\<close>)
  qed
qed

lemma put_instance_loop_runs:
  assumes "etcd_contract e" and "faithful_instances codec" and "runs e s (put_instance_loop n codec b i zone) log s' y"
  shows "addition_log e codec b (InstanceId_as_str i) zone log y"
  using assms(3)
proof (induction n arbitrary: s log)
  case (Suc n)
  have step: "addition_log e codec b (InstanceId_as_str i) zone log y"
    if seen: "newer e s t" "newer e t u" "decode_instances codec entry = instances_at e codec b t"
      and guard: "\<And>t' old. newer e u t' \<Longrightarrow> instances_at e codec b t = Inr old \<Longrightarrow> compare_holds (etcd_get e t') (case entry of
          Some entry \<Rightarrow> CompareModRevision (metadata_key b INSTANCE_CONFIGS_KEY) (revision_value (entry_revision entry))
        | None \<Rightarrow> CompareVersion (metadata_key b INSTANCE_CONFIGS_KEY) 0) \<Longrightarrow> instances_at e codec b t' = Inr old"
      and run: "runs e u (bind_action (Return (decode_instances codec entry)) (\<lambda>existing.
        let instances = with_instance (InstanceId_as_str i) zone existing
        in if instances = by_name existing then Return (Inr ())
           else bind_action (Return (ok_or (encode_instance_records codec instances) InvalidStoreValue)) (\<lambda>v.
           bind_action (case entry of
               Some entry \<Rightarrow> bind_action (compare_and_put b INSTANCE_CONFIGS_KEY (entry_revision entry) v) (\<lambda>r. Return (Inr (cas_applied r)))
             | None \<Rightarrow> compare_and_put_absent b INSTANCE_CONFIGS_KEY v) (\<lambda>applied.
           if applied then Return (Inr ()) else put_instance_loop n codec b i zone)))) log s' y" for t u entry
    using run
  proof (cases rule: run_pure_then)
    case (result old)
    then have old: "instances_at e codec b t = Inr old" using seen(3) by simp
    show ?thesis
    proof (cases "with_instance (InstanceId_as_str i) zone old = by_name old")
      case True
      then show ?thesis using result(2) by (simp add: Let_def runs_Return)
    next
      case False
      from result(2)[simplified Let_def False if_False] show ?thesis
      proof (cases rule: run_pure_then)
        case put: (result v)
        then have v: "encode_instance_records codec (with_instance (InstanceId_as_str i) zone old) = Some v" by (simp add: ok_or_def split: option.splits)
        show ?thesis
        proof (rule put_if_unchanged[OF assms(1,2) v put(2)])
          fix w l assume "newer e u w" and "runs e w (put_instance_loop n codec b i zone) l s' y"
          then show "addition_log e codec b (InstanceId_as_str i) zone l y"
            by (intro Suc.IH)
        qed (rule guard[OF _ old])
      qed simp
    qed
  qed simp
  from Suc.prems[unfolded put_instance_loop.simps] assms(1) show ?case
  proof (cases rule: run_metadata_get_then)
    case (absent t u)
    show ?thesis
    proof (rule step[OF absent(1,2) decode_instances_at(2)[OF absent(3)] _ absent(4)])
      fix t' old assume "instances_at e codec b t = Inr old" and "compare_holds (etcd_get e t') (case None of
          Some entry \<Rightarrow> CompareModRevision (metadata_key b INSTANCE_CONFIGS_KEY) (revision_value (entry_revision entry))
        | None \<Rightarrow> CompareVersion (metadata_key b INSTANCE_CONFIGS_KEY) 0)"
      then show "instances_at e codec b t' = Inr old"
        using absent(3) by (auto simp: instances_at_def compare_simps dest: contract_get[OF assms(1)] split: option.splits)
    qed
  next
    case (present t u kv)
    show ?thesis
    proof (rule step[OF present(1,2) decode_instances_at(1)[OF present(3)] _ present(4)], goal_cases)
      case (1 t' old)
      from record_unchanged[OF assms(1) newer_trans[OF present(2) 1(1)] present(3)] 1(2,3) show ?case
        using present(3) by (simp add: instances_at_def)
    qed
  qed simp
qed (simp add: runs_Return)

lemma put_instance_loop_ensures: "ensures e (addition_done e codec b (InstanceId_as_str i) zone) (put_instance_loop n codec b i zone) tr"
proof (induction n arbitrary: tr)
  case (Suc n)
  let ?Q = "addition_done e codec b (InstanceId_as_str i) zone"
  let ?put = "\<lambda>entry v. case entry of
      Some entry \<Rightarrow> bind_action (compare_and_put b INSTANCE_CONFIGS_KEY (entry_revision entry) v) (\<lambda>r. Return (Inr (cas_applied r)))
    | None \<Rightarrow> compare_and_put_absent b INSTANCE_CONFIGS_KEY v"
  have put: "ensures e ?Q (bind_action (?put entry v) (\<lambda>applied. if applied then Return (Inr ()) else put_instance_loop n codec b i zone)) tr" for entry v tr
  proof (cases entry)
    case None
    then show ?thesis using Suc.IH by (simp add: compare_and_put_absent_def ensures_requests)
  next
    case (Some en)
    have "ensures e (\<lambda>tr y. case y of Inl err \<Rightarrow> ?Q tr (Inl err) | Inr r \<Rightarrow> ensures e ?Q (if cas_applied r then Return (Inr ()) else put_instance_loop n codec b i zone) tr)
        (compare_and_put b INSTANCE_CONFIGS_KEY (entry_revision en) v) tr"
      unfolding compare_and_put_def by (rule ensures_cas) (use Suc.IH in auto)
    then show ?thesis by (simp add: Some bind_action_assoc ensures_bind_action)
  qed
  have step: "ensures e ?Q (bind_action (Return (decode_instances codec entry)) (\<lambda>existing.
      let instances = with_instance (InstanceId_as_str i) zone existing
      in if instances = by_name existing then Return (Inr ())
         else bind_action (Return (ok_or (encode_instance_records codec instances) InvalidStoreValue)) (\<lambda>v.
         bind_action (?put entry v) (\<lambda>applied. if applied then Return (Inr ()) else put_instance_loop n codec b i zone)))) (tr @ [Saw t])"
    if dec: "decode_instances codec entry = instances_at e codec b t" for entry t
  proof (cases "instances_at e codec b t")
    case (Inr old)
    then show ?thesis using put by (cases "encode_instance_records codec (with_instance (InstanceId_as_str i) zone old)") (auto simp: dec Let_def ok_or_def)
  qed (simp add: dec)
  show ?case unfolding put_instance_loop.simps ensures_bind_action[of _ _ "metadata_get _ _"]
    by (rule ensures_metadata_get) (use step[OF decode_instances_at(1)] step[OF decode_instances_at(2)] in simp_all)
qed simp

text \<open>C21: Adding an instance linearizes. The list of instance configurations is changed by at most one
  transaction, which replaces the list of that moment by the same list with the instance's record
  set and sorted by name, so that a concurrent addition or removal is never lost. The addition
  succeeds only if it applied such a transaction, or if it was answered from a store whose list
  has the record already.\<close>

theorem put_instance_linearizes:
  assumes "etcd_contract e" and "faithful_instances codec" and "traced e s (put_instance codec b spec) tr s' y"
  shows "addition_log e codec b (spec_instance_id spec) (spec_zone spec) (applied tr) y \<and> addition_done e codec b (spec_instance_id spec) (spec_zone spec) tr y"
proof (cases "(\<exists>err. InstanceId_new (spec_instance_id spec) = Inl err) \<or> blank (spec_zone spec) \<or> contains_nul (spec_zone spec)")
  case True
  then show ?thesis using traced_runs[OF assms(3)] by (cases "InstanceId_new (spec_instance_id spec)") (auto simp: put_instance_def runs_Return)
next
  case False
  then obtain i where "InstanceId_new (spec_instance_id spec) = Inr i" by (cases "InstanceId_new (spec_instance_id spec)") auto
  then have i: "InstanceId_as_str i = spec_instance_id spec" and p: "put_instance codec b spec = put_instance_loop ADMIN_CAS_RETRIES codec b i (spec_zone spec)"
    using False by (auto simp: put_instance_def InstanceId_new_def validate_def split: if_splits)
  have "addition_done e codec b (InstanceId_as_str i) (spec_zone spec) tr y" using assms(3)[unfolded p] put_instance_loop_ensures by (rule ensures_sound)
  then show ?thesis using put_instance_loop_runs[OF assms(1,2) traced_runs[OF assms(3), unfolded p]] i by simp
qed

section \<open>Examples\<close>

text \<open>A codec for the lists that occur here: none, \<open>a\<close> alone, and \<open>a\<close> and \<open>b\<close>.\<close>

definition only_a :: "InstanceConfigRecord list" where
  "only_a = [\<lparr>config_name = ''a'', config_zone = ''z''\<rparr>]"

definition a_and_b :: "InstanceConfigRecord list" where
  "a_and_b = only_a @ [\<lparr>config_name = ''b'', config_zone = ''y''\<rparr>]"

definition small_codec :: admin_codec where
  "small_codec =
     \<lparr>decode_instance_records = map_of [(''0'', []), (''1'', only_a), (''2'', a_and_b)],
      encode_instance_records = map_of [([], ''0''), (only_a, ''1''), (a_and_b, ''2'')],
      encode_resource_record = \<lambda>_. None, encode_throttle_records = \<lambda>_. None\<rparr>"

lemma small_codec_faithful: "faithful_instances small_codec"
  by (auto simp: faithful_instances_def small_codec_def only_a_def a_and_b_def)

definition small_store :: mem_store where
  "small_store = mem_of [(metadata_key demo_backend INSTANCE_CONFIGS_KEY, ''1'', 0)]"

theorem put_instance_linearizes_witness:
  "\<exists>t ops u. fst (mem_run (put_instance small_codec demo_backend \<lparr>spec_instance_id = ''b'', spec_zone = ''y''\<rparr>) small_store) = [(t, ops, u)] \<and>
     instances_updated mem_etcd small_codec demo_backend (with_instance ''b'' ''y'') t u \<and> instances_at mem_etcd small_codec demo_backend u = Inr a_and_b"
proof -
  let ?p = "put_instance small_codec demo_backend \<lparr>spec_instance_id = ''b'', spec_zone = ''y''\<rparr>"
  let ?run = "mem_run ?p small_store"
  have log: "map (\<lambda>(t, ops, u). instances_at mem_etcd small_codec demo_backend u) (fst ?run) = [Inr a_and_b]"
    unfolding instances_at_def mem_etcd_def etcd.simps by code_simp
  obtain tr where tr: "traced mem_etcd small_store ?p tr (fst (snd ?run)) (snd (snd ?run))" "applied tr = fst ?run" by (rule mem_traced)
  from put_instance_linearizes[OF mem_contract small_codec_faithful tr(1), unfolded tr(2)] log show ?thesis
    by (cases "fst ?run" rule: list.exhaust; cases "hd (fst ?run)") (auto simp: addition_log_def)
qed

theorem removal_spares_live_instances_witness:
  "\<exists>t ops u. fst (mem_run (remove_instance small_codec demo_backend ''a'') small_store) = [(t, ops, u)] \<and>
    etcd_get mem_etcd t (live_key demo_backend (InstanceId ''a'')) = None \<and> instances_updated mem_etcd small_codec demo_backend (without (InstanceId ''a'')) t u \<and>
    instances_at mem_etcd small_codec demo_backend u = Inr []"
proof -
  let ?p = "remove_instance small_codec demo_backend ''a''"
  let ?run = "mem_run ?p small_store"
  have log: "map (\<lambda>(t, ops, u). instances_at mem_etcd small_codec demo_backend u) (fst ?run) = [Inr []]"
    unfolding instances_at_def mem_etcd_def etcd.simps by code_simp
  obtain tr where tr: "traced mem_etcd small_store ?p tr (fst (snd ?run)) (snd (snd ?run))" "applied tr = fst ?run" by (rule mem_traced)
  from removal_spares_live_instances[OF mem_contract small_codec_faithful tr(1), unfolded tr(2)] log show ?thesis
    by (cases "fst ?run" rule: list.exhaust; cases "hd (fst ?run)") (auto simp: removal_log_def)
qed

end
