(* ===== verification/Observe.thy ===== *)
theory Observe
  imports Etcd_Sessions Controller_Runtime Routing
begin

text \<open>
  Read-only observations (\<^verbatim>\<open>src/observe.rs\<close>): the semantic snapshot assembled from one coordination
  snapshot, the typed routing view, and the loop that waits for a condition. Values of \<^verbatim>\<open>serde_json\<close>
  are of a type of their own, a parameter.
\<close>

type_synonym view_wire = "(string, (string, (string, string) btree) btree) btree"

record 'j observer_codec =
  parse_value :: "string \<Rightarrow> 'j option"
  empty_object :: 'j
  wire_of_value :: "'j \<Rightarrow> view_wire option"
  parse_published :: "string \<Rightarrow> PublishedTransition list option"
  parse_instance_names :: "string \<Rightarrow> string list option"

section \<open>The observation\<close>

record ControllerMembership =
  membership_active :: "string list"
  membership_standby :: "string list"

definition active_controller :: "ControllerMembership \<Rightarrow> string option" where
  "active_controller m = (case membership_active m of [] \<Rightarrow> None | c # _ \<Rightarrow> Some c)"

definition controllers :: "CoordinationSnapshot \<Rightarrow> ControllerMembership" where
  "controllers snap =
     (let active = (case election_active (controller_election snap) of Some (controller, _) \<Rightarrow> [controller] | None \<Rightarrow> [])
      in \<lparr>membership_active = active,
          membership_standby = filter (\<lambda>candidate. \<not> list_ex (\<lambda>a. a = candidate) active) (bt_keys (election_candidates (controller_election snap)))\<rparr>)"

record ActiveCurrentStateObservation =
  observed_session :: u64
  observed_resources :: "(string, (string, string) btree) btree"

text \<open>The states of all instances under a partition are collected by the partition's name.\<close>

definition observed_partitions :: "CurrentState \<Rightarrow> (string, string) btree" where
  "observed_partitions c =
     bt_collect (concat (map (\<lambda>(p, instances). map (\<lambda>s. (PartitionId_as_str p, State_as_str s)) (bt_values instances)) (entries (CurrentState_entries c))))"

definition observed_current_state :: "CoordinationSnapshot \<Rightarrow> (string, ActiveCurrentStateObservation) btree" where
  "observed_current_state snap =
     bt_collect (map (\<lambda>(i, active). (InstanceId_as_str i,
       \<lparr>observed_session = SessionId_wire_value (active_session_id active),
        observed_resources = bt_collect (map (\<lambda>(r, c). (ResourceId_as_str r, observed_partitions c)) (entries (active_resources active)))\<rparr>))
       (entries (snapshot_active_current_state (snapshot_participants snap))))"

definition observed_instances :: "'j observer_codec \<Rightarrow> CoordinationSnapshot \<Rightarrow> CoordinationError + InstanceId list" where
  "observed_instances codec snap =
     (case metadata_value snap INSTANCE_CONFIGS_KEY of
        None \<Rightarrow> Inr []
      | Some v \<Rightarrow> bind_result (ok_or (parse_instance_names codec v) InvalidStoreValue)
          (map_result (\<lambda>name. map_err (\<lambda>_. InvalidKey) (InstanceId_new name))))"

section \<open>The external view\<close>

definition read_replica :: "PartitionId \<Rightarrow> string \<times> string \<Rightarrow> ReplicaStates \<Rightarrow> CoordinationError + ReplicaStates" where
  "read_replica p x states = (case x of (instance_name, state_name) \<Rightarrow>
     bind_result (map_err (\<lambda>_. InvalidKey) (InstanceId_new instance_name)) (\<lambda>i.
     bind_result (map_err (\<lambda>_. InvalidStoreValue) (State_new state_name)) (\<lambda>s.
     map_err (\<lambda>_. InvalidStoreValue) (set_state p i s states))))"

definition read_partition :: "string \<times> (string, string) btree \<Rightarrow> ReplicaStates \<Rightarrow> CoordinationError + ReplicaStates" where
  "read_partition x states = (case x of (partition_name, instances) \<Rightarrow>
     bind_result (map_err (\<lambda>_. InvalidKey) (PartitionId_new partition_name)) (\<lambda>p.
     try_fold (read_replica p) (entries instances) states))"

definition read_resource :: "string \<times> (string, (string, string) btree) btree \<Rightarrow> CoordinationError + ResourceId \<times> CurrentState" where
  "read_resource x = (case x of (resource_name, partitions) \<Rightarrow>
     bind_result (map_err (\<lambda>_. InvalidKey) (ResourceId_new resource_name)) (\<lambda>r.
     bind_result (try_fold read_partition (entries partitions) ReplicaStates_default) (\<lambda>states.
     Inr (r, CurrentState_build states))))"

definition view_of_wire :: "view_wire \<Rightarrow> CoordinationError + ExternalView" where
  "view_of_wire wire =
     bind_result (map_result read_resource (entries wire)) (\<lambda>current.
     Inr (ExternalView_from_current_states (bt_collect current)))"

definition external_view_model :: "'j observer_codec \<Rightarrow> 'j \<Rightarrow> CoordinationError + ExternalView" where
  "external_view_model codec v = bind_result (ok_or (wire_of_value codec v) InvalidStoreValue) view_of_wire"

section \<open>Routing results\<close>

record RoutingResult =
  result_resource :: string
  result_partition :: string
  result_state :: string
  result_instances :: "string list"

definition routing_results :: "RoutingSnapshot \<Rightarrow> RoutingResult list" where
  "routing_results routing =
     concat (map (\<lambda>(r, partitions). concat (map (\<lambda>(p, instances).
       map (\<lambda>s. \<lparr>result_resource = ResourceId_as_str r, result_partition = PartitionId_as_str p, result_state = State_as_str s,
                 result_instances = map InstanceId_as_str (bt_keys (instances_for routing r p s))\<rparr>)
         (bt_keys (bs_collect (bt_values instances))))
       (entries partitions))) (entries (view_states (routing_view routing))))"

section \<open>Cluster snapshots\<close>

text \<open>An \<open>ObserverRevision\<close> is the number of the revision.\<close>

record 'j ClusterSnapshot =
  observer_revision :: int
  observed_authoritative :: int
  processed_revision :: "int option"
  observed_controllers :: ControllerMembership
  observed_live :: "(string, u64) btree"
  observed_states :: "(string, ActiveCurrentStateObservation) btree"
  observed_view :: 'j
  observed_pending :: "PublishedTransition list"
  observed_routing :: "RoutingResult list"

definition with_authoritative_floor :: "int \<Rightarrow> 'j ClusterSnapshot \<Rightarrow> 'j ClusterSnapshot" where
  "with_authoritative_floor floor snap = snap\<lparr>observed_authoritative := max (observed_authoritative snap) floor\<rparr>"

definition read_processed :: "CoordinationSnapshot \<Rightarrow> CoordinationError + Revision option" where
  "read_processed snap = (case metadata_value snap PROCESSED_OUTPUT_KEY of
     None \<Rightarrow> Inr None
   | Some v \<Rightarrow> bind_result (ok_or (parse_i64 v) InvalidStoreValue) (\<lambda>n. bind_result (Revision_new n) (\<lambda>r. Inr (Some r))))"

definition snapshot_from_coordination :: "'j observer_codec \<Rightarrow> CoordinationSnapshot \<Rightarrow> CoordinationError + 'j ClusterSnapshot" where
  "snapshot_from_coordination codec snap =
     bind_result (read_processed snap) (\<lambda>processed.
     bind_result (case metadata_value snap EXTERNAL_OUTPUT_KEY of
         None \<Rightarrow> Inr (empty_object codec) | Some v \<Rightarrow> ok_or (parse_value codec v) InvalidStoreValue) (\<lambda>view.
     bind_result (case metadata_value snap PENDING_OUTPUT_KEY of
         None \<Rightarrow> Inr [] | Some v \<Rightarrow> ok_or (parse_published codec v) InvalidStoreValue) (\<lambda>pending.
     bind_result (observed_instances codec snap) (\<lambda>configured.
     bind_result (external_view_model codec view) (\<lambda>external.
     Inr \<lparr>observer_revision = revision_value (snapshot_revision snap),
          observed_authoritative = revision_value (authoritative_revision snap),
          processed_revision = map_option revision_value processed,
          observed_controllers = controllers snap,
          observed_live = bt_collect (map (\<lambda>(i, live). (InstanceId_as_str i, SessionId_wire_value (live_session_id live))) (entries (participants_live snap))),
          observed_states = observed_current_state snap,
          observed_view = view,
          observed_pending = pending,
          observed_routing = routing_results (from_external_view external configured)\<rparr>)))))"

definition try_routing :: "'j observer_codec \<Rightarrow> 'j ClusterSnapshot \<Rightarrow> CoordinationError + RoutingSnapshot" where
  "try_routing codec snap =
     bind_result (map_result (\<lambda>name. map_err (\<lambda>_. InvalidStoreValue) (InstanceId_new name)) (concat (map result_instances (observed_routing snap)))) (\<lambda>configured.
     bind_result (external_view_model codec (observed_view snap)) (\<lambda>external.
     Inr (from_external_view external configured)))"

record 'j Snapshot =
  snapshot_raw :: "'j ClusterSnapshot"
  snapshot_routing :: RoutingSnapshot

definition Snapshot_from_raw :: "'j observer_codec \<Rightarrow> 'j ClusterSnapshot \<Rightarrow> CoordinationError + 'j Snapshot" where
  "Snapshot_from_raw codec raw = bind_result (try_routing codec raw) (\<lambda>routing. Inr \<lparr>snapshot_raw = raw, snapshot_routing = routing\<rparr>)"

section \<open>Reading\<close>

definition observe_snapshot :: "'j observer_codec \<Rightarrow> EtcdCoordination \<Rightarrow> 'j ClusterSnapshot action" where
  "observe_snapshot codec b = bind_action (controller_snapshot b) (\<lambda>snap. Return (snapshot_from_coordination codec snap))"

definition observe_and_watch :: "'j observer_codec \<Rightarrow> EtcdCoordination \<Rightarrow> ('j ClusterSnapshot \<times> WatchSubscription) action" where
  "observe_and_watch codec b = bind_action (snapshot_and_watch_namespace b) (\<lambda>(snap, watch).
     bind_action (Return (snapshot_from_coordination codec snap)) (\<lambda>s. Return (Inr (s, watch))))"

definition observe_and_watch_from_authoritative :: "'j observer_codec \<Rightarrow> EtcdCoordination \<Rightarrow> ('j ClusterSnapshot \<times> WatchSubscription) action" where
  "observe_and_watch_from_authoritative codec b = bind_action (snapshot_and_watch_namespace_from_authoritative b) (\<lambda>(snap, watch).
     bind_action (Return (snapshot_from_coordination codec snap)) (\<lambda>s. Return (Inr (s, watch))))"

text \<open>The session is any \<^verbatim>\<open>u64\<close> here, zero included.\<close>

definition session_current_state_exists :: "EtcdCoordination \<Rightarrow> string \<Rightarrow> string \<Rightarrow> bool action" where
  "session_current_state_exists b instance_name session =
     bind_action (Return (map_err (\<lambda>_. InvalidKey) (InstanceId_new instance_name))) (\<lambda>i.
     bind_action (Return (ok_or (parse_unsigned 64 session) InvalidSession)) (\<lambda>value.
     bind_action (raw_snapshot_prefix (current_state_session_prefix b i (SessionId_from_wire_value (of_nat value)))) (\<lambda>(_, kvs).
       Return (Inr (kvs \<noteq> [])))))"

section \<open>Waiting\<close>

datatype WaitError = WaitCoordination CoordinationError | WaitWatch WatchError | WaitTimeout nat

text \<open>What the loop wakes up to: a watch event and the snapshot read after it, a compacted watch and
  the replacement snapshot, an interrupted watch and the outcome of resuming it, any other watch
  error, the poll and its snapshot, or the timeout.\<close>

datatype 'j wait_event =
    WaitEvent WatchEvent "CoordinationError + 'j ClusterSnapshot"
  | WaitCompacted "CoordinationError + 'j ClusterSnapshot"
  | WaitInterrupted "WatchError + unit"
  | WaitFailed WatchError
  | WaitPoll "CoordinationError + 'j ClusterSnapshot"
  | WaitTimedOut

text \<open>The answer is given by \<open>answer\<close>: the raw snapshot, or the typed one, which may be rejected.
  \<open>None\<close>: still waiting.\<close>

fun wait_loop :: "nat \<Rightarrow> ('j ClusterSnapshot \<Rightarrow> CoordinationError + 'a) \<Rightarrow> ('a \<Rightarrow> bool) \<Rightarrow> int \<Rightarrow> int \<Rightarrow> bool \<Rightarrow> 'j wait_event list \<Rightarrow>
    (WaitError + 'a) option" where
  "wait_loop timeout answer pred catch_up floor caught_up [] = None"
| "wait_loop timeout answer pred catch_up floor caught_up (e # es) = (case e of
     WaitTimedOut \<Rightarrow> Some (Inl (WaitTimeout timeout))
   | WaitFailed err \<Rightarrow> Some (Inl (WaitWatch err))
   | WaitInterrupted (Inl err) \<Rightarrow> Some (Inl (WaitWatch err))
   | WaitInterrupted (Inr _) \<Rightarrow> wait_loop timeout answer pred catch_up floor caught_up es
   | WaitEvent event read \<Rightarrow>
       (let caught_up = (caught_up \<or> catch_up \<le> revision_value (event_revision event));
            floor = (if is_lease_backed_delete event then max floor (revision_value (event_revision event)) else floor)
        in case bind_result read (\<lambda>raw. answer (with_authoritative_floor floor raw)) of
             Inl err \<Rightarrow> Some (Inl (WaitCoordination err))
           | Inr x \<Rightarrow> if caught_up \<and> pred x then Some (Inr x) else wait_loop timeout answer pred catch_up floor caught_up es)
   | WaitCompacted read \<Rightarrow>
       (case bind_result read (\<lambda>raw. bind_result (answer (with_authoritative_floor floor raw)) (\<lambda>x. Inr (raw, x))) of
          Inl err \<Rightarrow> Some (Inl (WaitCoordination err))
        | Inr (raw, x) \<Rightarrow> if pred x then Some (Inr x)
            else wait_loop timeout answer pred catch_up (max floor (observed_authoritative (with_authoritative_floor floor raw))) True es)
   | WaitPoll read \<Rightarrow>
       (case read of
          Inl (EtcdError _) \<Rightarrow> wait_loop timeout answer pred catch_up floor caught_up es
        | Inl err \<Rightarrow> Some (Inl (WaitCoordination err))
        | Inr raw \<Rightarrow> (case answer (with_authoritative_floor floor raw) of
            Inl err \<Rightarrow> Some (Inl (WaitCoordination err))
          | Inr x \<Rightarrow> if caught_up \<and> pred x then Some (Inr x) else wait_loop timeout answer pred catch_up floor caught_up es)))"

definition wait_until :: "nat \<Rightarrow> ('j ClusterSnapshot \<Rightarrow> CoordinationError + 'a) \<Rightarrow> ('a \<Rightarrow> bool) \<Rightarrow> CoordinationError + 'j ClusterSnapshot \<Rightarrow> 'j wait_event list \<Rightarrow>
    (WaitError + 'a) option" where
  "wait_until timeout answer pred start es =
     (case bind_result start (\<lambda>raw. bind_result (answer raw) (\<lambda>x. Inr (raw, x))) of
        Inl err \<Rightarrow> Some (Inl (WaitCoordination err))
      | Inr (raw, x) \<Rightarrow>
          let caught_up = (observer_revision raw \<le> observed_authoritative raw)
          in if caught_up \<and> pred x then Some (Inr x)
             else wait_loop timeout answer pred (observer_revision raw) (observed_authoritative raw) caught_up es)"

definition has_controller :: "'j ClusterSnapshot \<Rightarrow> bool" where
  "has_controller raw \<longleftrightarrow> active_controller (observed_controllers raw) \<noteq> None"

definition is_idle :: "'j ClusterSnapshot \<Rightarrow> bool" where
  "is_idle raw \<longleftrightarrow> observed_pending raw = [] \<and> (case processed_revision raw of None \<Rightarrow> False | Some r \<Rightarrow> observed_authoritative raw \<le> r)"

text \<open>\<open>ClusterObserver\<close> answers with raw snapshots, \<open>Observer\<close> with typed ones.\<close>

definition cluster_wait_for_idle :: "nat \<Rightarrow> CoordinationError + 'j ClusterSnapshot \<Rightarrow> 'j wait_event list \<Rightarrow> (WaitError + 'j ClusterSnapshot) option" where
  "cluster_wait_for_idle timeout start es = wait_until timeout Inr is_idle start es"

definition cluster_wait_for_controller :: "nat \<Rightarrow> CoordinationError + 'j ClusterSnapshot \<Rightarrow> 'j wait_event list \<Rightarrow> (WaitError + 'j ClusterSnapshot) option" where
  "cluster_wait_for_controller timeout start es = wait_until timeout Inr has_controller start es"

definition wait_for_idle :: "'j observer_codec \<Rightarrow> nat \<Rightarrow> CoordinationError + 'j ClusterSnapshot \<Rightarrow> 'j wait_event list \<Rightarrow> (WaitError + 'j Snapshot) option" where
  "wait_for_idle codec timeout start es = wait_until timeout (Snapshot_from_raw codec) (\<lambda>s. is_idle (snapshot_raw s)) start es"

definition wait_for_controller :: "'j observer_codec \<Rightarrow> nat \<Rightarrow> CoordinationError + 'j ClusterSnapshot \<Rightarrow> 'j wait_event list \<Rightarrow> (WaitError + 'j Snapshot) option" where
  "wait_for_controller codec timeout start es = wait_until timeout (Snapshot_from_raw codec) (\<lambda>s. has_controller (snapshot_raw s)) start es"

end
