(* ===== verification/Observe_Laws.thy ===== *)
theory Observe_Laws
  imports Observe "HOL-Library.Sublist"
begin

text \<open>
  What an observation is worth: the routing view rebuilt from a snapshot answers as the original
  one, the published external view reads back, and an answer of the waiting loop satisfies its
  condition for a snapshot that accounts for every lease expiry the loop has seen.
\<close>

section \<open>Routing\<close>

lemma bset_eqI: "(\<And>k. bt_contains s k \<longleftrightarrow> bt_contains t k) \<Longrightarrow> s = (t :: 'k::linorder bset)"
  by (rule bt_eqI) (metis (full_types) bt_contains_iff not_None_eq old.unit.exhaust)

lemma routed_instances:
  "i \<in> InstanceId_as_str ` X \<longleftrightarrow> InstanceId i \<in> X"
  by (auto intro: rev_image_eqI)

lemma map_result_InstanceId:
  assumes "\<forall>i \<in> set ids. InstanceId_as_str i \<noteq> []"
  shows "map_result (\<lambda>name. map_err f (InstanceId_new name)) (map InstanceId_as_str ids) = Inr ids"
  using assms by (induction ids) (auto simp: InstanceId_new_def validate_def)

lemma advertises_entry:
  "advertises routing r p s i \<Longrightarrow>
     \<exists>partitions instances. bt_get (view_states (routing_view routing)) r = Some partitions \<and> bt_get partitions p = Some instances \<and> bt_get instances i = Some s"
  by (simp add: advertises_def ExternalView_state_def resource_map_state_def split: option.splits)

lemma routing_results_instances:
  "i \<in> set (concat (map result_instances (routing_results routing))) \<longleftrightarrow> (\<exists>r p s. advertises routing r p s (InstanceId i))"
proof -
  let ?view = "view_states (routing_view routing)"
  have keys: "i \<in> InstanceId_as_str ` set (bt_keys (instances_for routing r p s)) \<longleftrightarrow> advertises routing r p s (InstanceId i)" for r p s
    unfolding routed_instances bt_keys_contains instances_for_contains ..
  have "i \<in> set (concat (map result_instances (routing_results routing))) \<longleftrightarrow>
      (\<exists>(r, partitions) \<in> set (entries ?view). \<exists>(p, instances) \<in> set (entries partitions). \<exists>s \<in> set (bt_keys (bs_collect (bt_values instances))).
        i \<in> InstanceId_as_str ` set (bt_keys (instances_for routing r p s)))"
    by (simp add: routing_results_def case_prod_beta)
  also have "\<dots> \<longleftrightarrow> (\<exists>r partitions p instances s. bt_get ?view r = Some partitions \<and> bt_get partitions p = Some instances \<and>
      (\<exists>k. bt_get instances k = Some s) \<and> advertises routing r p s (InstanceId i))"
    by (simp only: keys Bex_def split_paired_Ex prod.case bt_entries_iff bt_keys_contains bs_contains_collect bt_values_iff) blast
  also have "\<dots> \<longleftrightarrow> (\<exists>r p s. advertises routing r p s (InstanceId i))"
    using advertises_entry by blast
  finally show ?thesis .
qed

lemma observed_instances_named: "observed_instances codec snap = Inr configured \<Longrightarrow> i \<in> set configured \<Longrightarrow> InstanceId_as_str i \<noteq> []"
  by (auto simp: observed_instances_def bind_result_Inr map_result_Inr list_all2_conv_all_nth in_set_conv_nth map_err_Inr split: option.splits)

lemma try_routing_advertises:
  assumes "external_view_model codec (observed_view s) = Inr external" and "observed_routing s = routing_results (from_external_view external configured)"
    and "\<forall>i \<in> set configured. InstanceId_as_str i \<noteq> []"
  obtains routing where "try_routing codec s = Inr routing" "\<And>r p st i. advertises routing r p st i \<longleftrightarrow> advertises (from_external_view external configured) r p st i"
proof -
  let ?orig = "from_external_view external configured"
  let ?names = "concat (map result_instances (observed_routing s))"
  have names: "i \<in> set ?names \<longleftrightarrow> (\<exists>r p st. advertises ?orig r p st (InstanceId i))" for i
    unfolding assms(2) routing_results_instances ..
  then have "\<forall>i \<in> set (map InstanceId ?names). InstanceId_as_str i \<noteq> []"
    using assms(3) by (fastforce simp: advertises_def from_external_view_def)
  from map_result_InstanceId[OF this, of "\<lambda>_. InvalidStoreValue"]
  have "map_result (\<lambda>name. map_err (\<lambda>_. InvalidStoreValue) (InstanceId_new name)) ?names = Inr (map InstanceId ?names)" by (simp add: comp_def)
  then have t: "try_routing codec s = Inr (from_external_view external (map InstanceId ?names))" by (simp add: try_routing_def assms(1))
  have "i \<in> set (map InstanceId ?names) \<longleftrightarrow> (\<exists>r p st. advertises ?orig r p st i)" for i
    using names[of "InstanceId_as_str i"] by (cases i) (auto simp: image_iff)
  then have "advertises (from_external_view external (map InstanceId ?names)) r p st i \<longleftrightarrow> advertises ?orig r p st i" for r p st i
    unfolding advertises_def from_external_view_def by (auto simp del: set_map)
  with t show ?thesis by (rule that)
qed

text \<open>C16: A snapshot carries its routing. The routing view rebuilt from the fields of an observation
  answers every question for the instances of a state, the leader and the replicas of a partition
  exactly as the view the observation was made from, although it keeps only the instances that
  occur in the routing results.\<close>

theorem snapshot_routing_equivalent:
  assumes "snapshot_from_coordination codec snap = Inr s"
  shows "\<exists>external configured routing. external_view_model codec (observed_view s) = Inr external \<and> observed_instances codec snap = Inr configured \<and>
    try_routing codec s = Inr routing \<and>
    instances_for routing = instances_for (from_external_view external configured) \<and>
    leader routing = leader (from_external_view external configured) \<and>
    routing_replicas routing = routing_replicas (from_external_view external configured)"
proof -
  from assms obtain external configured where e: "external_view_model codec (observed_view s) = Inr external" "observed_instances codec snap = Inr configured"
      "observed_routing s = routing_results (from_external_view external configured)"
    by (auto simp: snapshot_from_coordination_def bind_result_Inr)
  have named: "\<forall>i \<in> set configured. InstanceId_as_str i \<noteq> []" using observed_instances_named[OF e(2)] by blast
  obtain routing where r: "try_routing codec s = Inr routing"
      "\<And>r p st i. advertises routing r p st i \<longleftrightarrow> advertises (from_external_view external configured) r p st i"
    using try_routing_advertises[OF e(1,3) named] by blast
  have same: "instances_for routing = instances_for (from_external_view external configured)"
    by (intro ext bset_eqI) (simp add: instances_for_contains r(2))
  then show ?thesis using e(1,2) r(1) by (auto simp: leader_def routing_replicas_def fun_eq_iff)
qed

definition served_codec :: "view_wire observer_codec" where
  "served_codec = \<lparr>parse_value = \<lambda>v. if v = ''view'' then Some (bt_insert ''db'' (bt_insert ''db_0'' (bt_insert ''a'' ''LEADER'' bt_empty) bt_empty) bt_empty) else None,
     empty_object = bt_empty, wire_of_value = Some, parse_published = \<lambda>_. Some [], parse_instance_names = \<lambda>v. Some [v, ''b'']\<rparr>"

definition served_snapshot :: CoordinationSnapshot where
  "served_snapshot = \<lparr>snapshot_revision = Revision 7, authoritative_revision = Revision 6,
     snapshot_metadata = bt_insert EXTERNAL_OUTPUT_KEY \<lparr>entry_value = Some ''view'', entry_revision = Revision 6\<rparr>
       (bt_insert INSTANCE_CONFIGS_KEY \<lparr>entry_value = Some ''a'', entry_revision = Revision 5\<rparr> bt_empty),
     snapshot_participants = \<lparr>snapshot_live_instances = bt_empty, snapshot_active_current_state = bt_empty\<rparr>,
     controller_election = \<lparr>election_active = None, election_candidates = bt_empty\<rparr>\<rparr>"

theorem snapshot_routing_equivalent_witness:
  "\<exists>s. snapshot_from_coordination served_codec served_snapshot = Inr s \<and>
    (\<exists>external configured routing. external_view_model served_codec (observed_view s) = Inr external \<and> observed_instances served_codec served_snapshot = Inr configured \<and>
    try_routing served_codec s = Inr routing \<and>
    instances_for routing = instances_for (from_external_view external configured) \<and>
    leader routing = leader (from_external_view external configured) \<and>
    routing_replicas routing = routing_replicas (from_external_view external configured))"
proof -
  have "\<not> isl (snapshot_from_coordination served_codec served_snapshot)" by code_simp
  then obtain s where "snapshot_from_coordination served_codec served_snapshot = Inr s" by (cases "snapshot_from_coordination served_codec served_snapshot") auto
  then show ?thesis using snapshot_routing_equivalent by blast
qed

section \<open>Waiting\<close>

text \<open>The snapshot read with an event, and the lease-backed deletions among events.\<close>

definition event_read :: "'j wait_event \<Rightarrow> 'j ClusterSnapshot option" where
  "event_read e = (case e of WaitEvent _ (Inr raw) \<Rightarrow> Some raw | WaitCompacted (Inr raw) \<Rightarrow> Some raw | WaitPoll (Inr raw) \<Rightarrow> Some raw | _ \<Rightarrow> None)"

definition expiries :: "'j wait_event list \<Rightarrow> int set" where
  "expiries es = {revision_value (event_revision event) | event read. WaitEvent event read \<in> set es \<and> is_lease_backed_delete event}"

lemma expiries_Cons: "expiries (e # es) = expiries [e] \<union> expiries es"
  by (auto simp: expiries_def)

lemma expiries_other [simp]:
  "expiries [WaitCompacted r] = {}" "expiries [WaitPoll r] = {}" "expiries [WaitInterrupted x] = {}" "expiries [] = {}"
  "expiries [WaitEvent event read] = (if is_lease_backed_delete event then {revision_value (event_revision event)} else {})"
  by (auto simp: expiries_def)

text \<open>An answer: the condition holds for a snapshot read with the last consumed event, raised to a
  floor above all deletions seen.\<close>

definition answered :: "('j ClusterSnapshot \<Rightarrow> CoordinationError + 'a) \<Rightarrow> ('a \<Rightarrow> bool) \<Rightarrow> int \<Rightarrow> 'j wait_event list \<Rightarrow> 'a \<Rightarrow> bool" where
  "answered answer pred floor es x \<longleftrightarrow> pred x \<and> (\<exists>seen raw floor'. prefix seen es \<and> seen \<noteq> [] \<and> event_read (last seen) = Some raw \<and>
     answer (with_authoritative_floor floor' raw) = Inr x \<and> floor \<le> floor' \<and> (\<forall>n \<in> expiries seen. n \<le> floor'))"

lemma answered_now:
  "pred x \<Longrightarrow> event_read e = Some raw \<Longrightarrow> answer (with_authoritative_floor floor' raw) = Inr x \<Longrightarrow> floor \<le> floor' \<Longrightarrow> \<forall>n \<in> expiries [e]. n \<le> floor' \<Longrightarrow>
     answered answer pred floor (e # es) x"
  unfolding answered_def by (intro conjI exI[of _ "[e]"] exI[of _ raw] exI[of _ floor']) auto

lemma answered_later:
  assumes "answered answer pred floor' es x" and "floor \<le> floor'" and "\<forall>n \<in> expiries [e]. n \<le> floor'"
  shows "answered answer pred floor (e # es) x"
proof -
  from assms(1) obtain seen raw f where *: "pred x" "prefix seen es" "seen \<noteq> []" "event_read (last seen) = Some raw" "answer (with_authoritative_floor f raw) = Inr x"
      "floor' \<le> f" "\<forall>n \<in> expiries seen. n \<le> f" unfolding answered_def by blast
  show ?thesis unfolding answered_def
    by (intro conjI exI[of _ "e # seen"] exI[of _ raw] exI[of _ f]) (use * assms(2,3) in \<open>auto simp: expiries_Cons[of e seen]\<close>)
qed

lemma wait_loop_sound: "wait_loop timeout answer pred catch_up floor caught_up es = Some (Inr x) \<Longrightarrow> answered answer pred floor es x"
proof (induction timeout answer pred catch_up floor caught_up es rule: wait_loop.induct)
  case (2 timeout answer pred catch_up floor caught_up e es)
  show ?case
  proof (cases e)
    case (WaitEvent event read)
    let ?floor = "if is_lease_backed_delete event then max floor (revision_value (event_revision event)) else floor"
    have f: "floor \<le> ?floor" "\<forall>n \<in> expiries [e]. n \<le> ?floor" by (auto simp: WaitEvent)
    show ?thesis
    proof (cases "bind_result read (\<lambda>raw. answer (with_authoritative_floor ?floor raw))")
      case (Inl err)
      then show ?thesis using "2.prems" by (simp add: WaitEvent Let_def)
    next
      case (Inr z)
      then obtain raw where raw: "read = Inr raw" "answer (with_authoritative_floor ?floor raw) = Inr z" by (auto simp: bind_result_Inr)
      show ?thesis
      proof (cases "(caught_up \<or> catch_up \<le> revision_value (event_revision event)) \<and> pred z")
        case True
        then show ?thesis using "2.prems" Inr raw f answered_now[of pred x e raw answer ?floor floor es] by (simp add: WaitEvent Let_def event_read_def)
      next
        case False
        then have "wait_loop timeout answer pred catch_up ?floor (caught_up \<or> catch_up \<le> revision_value (event_revision event)) es = Some (Inr x)"
          using "2.prems" Inr by (simp only: WaitEvent Let_def wait_loop.simps wait_event.case sum.case if_False)
        from "2.IH"(1)[OF WaitEvent refl refl Inr False this] show ?thesis by (rule answered_later[OF _ f])
      qed
    qed
  next
    case (WaitCompacted read)
    show ?thesis
    proof (cases "bind_result read (\<lambda>raw. bind_result (answer (with_authoritative_floor floor raw)) (\<lambda>x. Inr (raw, x)))")
      case (Inl err)
      then show ?thesis using "2.prems" by (simp add: WaitCompacted)
    next
      case (Inr rz)
      then obtain raw z where raw: "rz = (raw, z)" "read = Inr raw" "answer (with_authoritative_floor floor raw) = Inr z" by (auto simp: bind_result_Inr)
      show ?thesis
      proof (cases "pred z")
        case True
        then show ?thesis using "2.prems" Inr raw answered_now[of pred x e raw answer floor floor es] by (simp add: WaitCompacted event_read_def)
      next
        case False
        then show ?thesis using "2.prems" Inr raw "2.IH"(2)[OF WaitCompacted Inr raw(1)[symmetric] False]
            answered_later[of answer pred "max floor (observed_authoritative (with_authoritative_floor floor raw))" es x floor e] by (simp add: WaitCompacted)
      qed
    qed
  next
    case (WaitInterrupted r)
    then show ?thesis using "2.prems" "2.IH"(3)[OF WaitInterrupted] answered_later[of answer pred floor es x floor e] by (cases r) auto
  next
    case (WaitPoll read)
    show ?thesis
    proof (cases read)
      case (Inl err)
      then show ?thesis using "2.prems" "2.IH"(4)[OF WaitPoll Inl] answered_later[of answer pred floor es x floor e] by (cases err) (simp_all add: WaitPoll)
    next
      case (Inr raw)
      show ?thesis
      proof (cases "answer (with_authoritative_floor floor raw)")
        case answered: (Inr z)
        show ?thesis
        proof (cases "caught_up \<and> pred z")
          case True
          then show ?thesis using "2.prems" Inr answered answered_now[of pred x e raw answer floor floor es] by (simp add: WaitPoll event_read_def)
        next
          case False
          then show ?thesis using "2.prems" Inr answered "2.IH"(5)[OF WaitPoll Inr answered False] answered_later[of answer pred floor es x floor e] by (auto simp: WaitPoll)
        qed
      qed (use "2.prems" Inr in \<open>simp add: WaitPoll\<close>)
    qed
  qed (use "2.prems" in simp_all)
qed simp

text \<open>C37: An idle cluster is really idle. When waiting for an idle cluster answers, the answered
  snapshot has no pending transitions and its processed revision has reached its authoritative
  revision, which in turn is no older than the authoritative revision at the start and than every
  deletion of a live or state record, by lease expiry, among the events seen until then. The
  snapshot was read at the start or with the last of those events.\<close>

theorem idle_accounts_for_expiry:
  assumes "cluster_wait_for_idle timeout (Inr start) es = Some (Inr x)"
  shows "\<exists>seen r. prefix seen es \<and> observed_pending x = [] \<and> processed_revision x = Some r \<and> observed_authoritative x \<le> r \<and>
    observed_authoritative start \<le> observed_authoritative x \<and> (\<forall>n \<in> expiries seen. n \<le> observed_authoritative x) \<and>
    (seen = [] \<and> x = start \<or> (\<exists>raw floor. seen \<noteq> [] \<and> event_read (last seen) = Some raw \<and> x = with_authoritative_floor floor raw))"
proof -
  have idle: "\<exists>r. observed_pending x = [] \<and> processed_revision x = Some r \<and> observed_authoritative x \<le> r" if "is_idle x"
    using that by (simp add: is_idle_def split: option.splits)
  consider "is_idle x" "x = start" | "answered Inr is_idle (observed_authoritative start) es x"
    using assms wait_loop_sound[of timeout Inr is_idle _ "observed_authoritative start" _ es x]
    by (auto simp: cluster_wait_for_idle_def wait_until_def Let_def split: if_splits)
  then show ?thesis
  proof cases
    case 1
    then show ?thesis using idle by (intro exI[of _ "[]"]) auto
  next
    case 2
    then obtain seen raw f where a: "is_idle x" "prefix seen es" "seen \<noteq> []" "event_read (last seen) = Some raw" "x = with_authoritative_floor f raw"
        "observed_authoritative start \<le> f" "\<forall>n \<in> expiries seen. n \<le> f" unfolding answered_def by auto
    have "f \<le> observed_authoritative x" by (simp add: a(5) with_authoritative_floor_def)
    then show ?thesis using idle[OF a(1)] a(2-7) by (intro exI[of _ seen]) force
  qed
qed

text \<open>A start that lags behind its own read, then the expiry of a live record at revision 8.\<close>

definition lagging :: "unit ClusterSnapshot" where
  "lagging = \<lparr>observer_revision = 7, observed_authoritative = 6, processed_revision = Some 6, observed_controllers = \<lparr>membership_active = [], membership_standby = []\<rparr>,
     observed_live = bt_empty, observed_states = bt_empty, observed_view = (), observed_pending = [], observed_routing = []\<rparr>"

definition expired_live :: WatchEvent where
  "expired_live = \<lparr>event_revision = Revision 8, event_key = ''live/a'', event_value = None, event_kind = DeleteEvent\<rparr>"

definition expiry_run :: "unit wait_event list" where
  "expiry_run = [WaitEvent expired_live (Inr lagging), WaitPoll (Inr (lagging\<lparr>processed_revision := Some 8\<rparr>))]"

theorem idle_accounts_for_expiry_witness:
  "\<exists>x. cluster_wait_for_idle 1000 (Inr lagging) expiry_run = Some (Inr x) \<and>
   (\<exists>seen r. prefix seen expiry_run \<and> observed_pending x = [] \<and> processed_revision x = Some r \<and> observed_authoritative x \<le> r \<and>
    observed_authoritative lagging \<le> observed_authoritative x \<and> expiries seen \<subseteq> {..observed_authoritative x} \<and>
    (seen = [] \<and> x = lagging \<or> (\<exists>raw floor. seen \<noteq> [] \<and> event_read (last seen) = Some raw \<and> x = with_authoritative_floor floor raw)))"
proof -
  have "cluster_wait_for_idle 1000 (Inr lagging) expiry_run = Some (Inr (lagging\<lparr>processed_revision := Some 8, observed_authoritative := 8\<rparr>))" by code_simp
  note run = this idle_accounts_for_expiry[OF this]
  then show ?thesis unfolding subset_iff atMost_iff by blast
qed

section \<open>Publishing and reading the external view\<close>

lemma read_replicas:
  assumes "distinct (map fst xs)" and "\<forall>(i, s) \<in> set xs. i \<noteq> [] \<and> s \<noteq> []" and "\<forall>(i, s) \<in> set xs. ReplicaStates_get rs p (InstanceId i) = None"
  shows "\<exists>rs'. try_fold (read_replica p) xs rs = Inr rs' \<and>
    (\<forall>p' i'. ReplicaStates_get rs' p' i' = (case map_of xs (InstanceId_as_str i') of Some s \<Rightarrow> if p' = p then Some (State s) else ReplicaStates_get rs p' i' | None \<Rightarrow> ReplicaStates_get rs p' i'))"
  using assms
proof (induction xs arbitrary: rs)
  case (Cons x xs)
  obtain i s where x: "x = (i, s)" by (cases x)
  let ?rs = "put_state p (InstanceId i) (State s) rs"
  have r: "read_replica p x rs = Inr ?rs" using Cons.prems by (simp add: x read_replica_def InstanceId_new_def validate_def State_new_def set_state_eq)
  have "\<forall>(j, t) \<in> set xs. ReplicaStates_get ?rs p (InstanceId j) = None" using Cons.prems by (force simp: x)
  with Cons.IH[of ?rs] Cons.prems obtain rs' where "try_fold (read_replica p) xs ?rs = Inr rs'"
    and *: "\<forall>p' i'. ReplicaStates_get rs' p' i' = (case map_of xs (InstanceId_as_str i') of Some s \<Rightarrow> if p' = p then Some (State s) else ReplicaStates_get ?rs p' i' | None \<Rightarrow> ReplicaStates_get ?rs p' i')"
    by auto
  moreover have "i \<notin> fst ` set xs" using Cons.prems(1) by (simp add: x)
  ultimately show ?case by (intro exI[of _ rs']) (auto simp: x r[unfolded x] map_of_eq_None_iff[symmetric] split: option.splits)
qed simp

lemma read_partitions:
  assumes "distinct (map fst xs)" and "\<forall>(p, instances) \<in> set xs. p \<noteq> [] \<and> (\<forall>i s. bt_get instances i = Some s \<longrightarrow> i \<noteq> [] \<and> s \<noteq> [])"
    and "\<forall>(p, instances) \<in> set xs. \<forall>i. ReplicaStates_get rs (PartitionId p) i = None"
  shows "\<exists>rs'. try_fold read_partition xs rs = Inr rs' \<and>
    (\<forall>p i. ReplicaStates_get rs' p i = (case map_of xs (PartitionId_as_str p) of Some instances \<Rightarrow> map_option State (bt_get instances (InstanceId_as_str i)) | None \<Rightarrow> ReplicaStates_get rs p i))"
  using assms
proof (induction xs arbitrary: rs)
  case (Cons x xs)
  obtain p instances where x: "x = (p, instances)" by (cases x)
  have a: "\<forall>(i, s) \<in> set (entries instances). i \<noteq> [] \<and> s \<noteq> []" using Cons.prems(2) unfolding x by (fastforce simp: bt_entries_iff)
  have b: "\<forall>(i, s) \<in> set (entries instances). ReplicaStates_get rs (PartitionId p) (InstanceId i) = None" using Cons.prems(3) by (auto simp: x)
  from read_replicas[OF ascending_distinct[OF ascending_entries] a b, folded bt_get_entries]
  obtain mid where m: "try_fold (read_replica (PartitionId p)) (entries instances) rs = Inr mid"
    and mid: "\<And>p' i. ReplicaStates_get mid p' i = (case bt_get instances (InstanceId_as_str i) of Some s \<Rightarrow> if p' = PartitionId p then Some (State s) else ReplicaStates_get rs p' i | None \<Rightarrow> ReplicaStates_get rs p' i)" by blast
  have r: "read_partition x rs = Inr mid" using Cons.prems(2) m by (simp add: x read_partition_def PartitionId_new_def validate_def)
  have new: "p \<notin> fst ` set xs" using Cons.prems(1) by (simp add: x)
  then have "\<forall>(q, is) \<in> set xs. \<forall>i. ReplicaStates_get mid (PartitionId q) i = None" using Cons.prems(3) by (force simp: mid split: option.splits)
  with Cons.IH[of mid] Cons.prems obtain rs' where "try_fold read_partition xs mid = Inr rs'"
    and *: "\<forall>p i. ReplicaStates_get rs' p i = (case map_of xs (PartitionId_as_str p) of Some instances \<Rightarrow> map_option State (bt_get instances (InstanceId_as_str i)) | None \<Rightarrow> ReplicaStates_get mid p i)"
    by auto
  moreover have "\<forall>i. ReplicaStates_get rs (PartitionId p) i = None" using Cons.prems(3) by (simp add: x)
  ultimately show ?case using new
    by (intro exI[of _ rs']) (auto simp: x r[unfolded x] mid map_of_eq_None_iff[symmetric] split: option.splits)
qed simp

text \<open>A view whose names are all non-empty, as the validated identifiers are.\<close>

definition named_states :: "replica_map \<Rightarrow> bool" where
  "named_states m \<longleftrightarrow> (\<forall>(p, instances) \<in> set (entries m). PartitionId_as_str p \<noteq> [] \<and>
     (\<forall>(i, s) \<in> set (entries instances). InstanceId_as_str i \<noteq> [] \<and> State_as_str s \<noteq> []))"

definition named_view :: "ExternalView \<Rightarrow> bool" where
  "named_view view \<longleftrightarrow> (\<forall>(r, m) \<in> set (entries (view_states view)). ResourceId_as_str r \<noteq> [] \<and> named_states m)"

definition partition_wire :: "instance_states \<Rightarrow> (string, string) btree" where
  "partition_wire instances = bt_collect (map (\<lambda>(i, s). (InstanceId_as_str i, State_as_str s)) (entries instances))"

definition resource_wire :: "replica_map \<Rightarrow> (string, (string, string) btree) btree" where
  "resource_wire m = bt_collect (map (\<lambda>(p, instances). (PartitionId_as_str p, partition_wire instances)) (entries m))"

lemma id_inj: "inj InstanceId_as_str" "inj PartitionId_as_str" "inj ResourceId_as_str"
  by (auto simp: inj_def intro: InstanceId.expand PartitionId.expand ResourceId.expand)

lemmas wire_get = bt_get_collect_map[OF id_inj(1)] bt_get_collect_map[OF id_inj(2)] bt_get_collect_map[OF id_inj(3)]

lemma partition_wire_get: "bt_get (partition_wire instances) (InstanceId_as_str i) = map_option State_as_str (bt_get instances i)"
  unfolding partition_wire_def by (rule wire_get)

lemma resource_wire_get: "bt_get (resource_wire m) (PartitionId_as_str p) = map_option partition_wire (bt_get m p)"
  unfolding resource_wire_def by (rule wire_get)

lemma external_view_output_get: "bt_get (external_view_output view) (ResourceId_as_str r) = map_option resource_wire (bt_get (view_states view) r)"
  unfolding external_view_output_def resource_wire_def partition_wire_def by (rule wire_get)

lemma resource_wire_states: "map_option State (Option.bind (bt_get (resource_wire m) (PartitionId_as_str p)) (\<lambda>instances. bt_get instances (InstanceId_as_str i))) =
    Option.bind (bt_get m p) (\<lambda>instances. bt_get instances i)"
  by (cases "bt_get m p") (simp_all add: resource_wire_get partition_wire_get option.map_comp comp_def option.map_ident)

lemma resource_wire_named:
  assumes "named_states m" and "(p, w) \<in> set (entries (resource_wire m))"
  shows "p \<noteq> [] \<and> (\<forall>i s. bt_get w i = Some s \<longrightarrow> i \<noteq> [] \<and> s \<noteq> [])"
proof -
  from assms(2) have "bt_get (resource_wire m) (PartitionId_as_str (PartitionId p)) = Some w" by (simp add: bt_entries_iff)
  then obtain instances where i: "bt_get m (PartitionId p) = Some instances" "w = partition_wire instances" unfolding resource_wire_get by auto
  then have n: "p \<noteq> []" "\<forall>(i, s) \<in> set (entries instances). InstanceId_as_str i \<noteq> [] \<and> State_as_str s \<noteq> []"
    using assms(1) bt_entries_iff[of "PartitionId p" instances m] by (auto simp: named_states_def)
  have "i \<noteq> [] \<and> s \<noteq> []" if "bt_get w i = Some s" for i s
  proof -
    from that have "bt_get (partition_wire instances) (InstanceId_as_str (InstanceId i)) = Some s" by (simp add: i(2))
    then obtain st where "bt_get instances (InstanceId i) = Some st" "s = State_as_str st" unfolding partition_wire_get by auto
    then show ?thesis using n(2) bt_entries_iff[of "InstanceId i" st instances] by auto
  qed
  with n(1) show ?thesis by blast
qed

lemma read_resource_wire:
  assumes "named_states m" and "ResourceId_as_str r \<noteq> []"
  shows "\<exists>c. read_resource (ResourceId_as_str r, resource_wire m) = Inr (r, c) \<and>
    (\<forall>p i. CurrentState_state c p i = Option.bind (bt_get m p) (\<lambda>instances. bt_get instances i))"
proof -
  have "\<forall>(p, w) \<in> set (entries (resource_wire m)). p \<noteq> [] \<and> (\<forall>i s. bt_get w i = Some s \<longrightarrow> i \<noteq> [] \<and> s \<noteq> [])"
    using resource_wire_named[OF assms(1)] by blast
  from read_partitions[OF ascending_distinct[OF ascending_entries] this, of ReplicaStates_default]
  obtain rs where t: "try_fold read_partition (entries (resource_wire m)) ReplicaStates_default = Inr rs"
    and g: "\<And>p i. ReplicaStates_get rs p i = (case bt_get (resource_wire m) (PartitionId_as_str p) of
        Some w \<Rightarrow> map_option State (bt_get w (InstanceId_as_str i)) | None \<Rightarrow> ReplicaStates_get ReplicaStates_default p i)"
    unfolding bt_get_entries using ReplicaStates_get_default by blast
  have "ReplicaStates_get rs p i = Option.bind (bt_get m p) (\<lambda>instances. bt_get instances i)" for p i
    unfolding g using resource_wire_states[of m p i] by (cases "bt_get (resource_wire m) (PartitionId_as_str p)") simp_all
  then show ?thesis using t assms(2) by (simp add: read_resource_def ResourceId_new_def validate_def)
qed

lemma list_all2_partner: "list_all2 P xs ys \<Longrightarrow> x \<in> set xs \<Longrightarrow> \<exists>y \<in> set ys. P x y" "list_all2 P xs ys \<Longrightarrow> y \<in> set ys \<Longrightarrow> \<exists>x \<in> set xs. P x y"
  by (induction rule: list_all2_induct) auto

lemma read_resources:
  assumes "\<forall>(k, w) \<in> set xs. \<exists>r m. k = ResourceId_as_str r \<and> w = resource_wire m \<and> k \<noteq> [] \<and> named_states m \<and> P r m"
  shows "\<exists>cs. map_result read_resource xs = Inr cs \<and>
    list_all2 (\<lambda>(k, w) (r, c). k = ResourceId_as_str r \<and> (\<exists>m. w = resource_wire m \<and> P r m \<and>
      (\<forall>p i. CurrentState_state c p i = Option.bind (bt_get m p) (\<lambda>instances. bt_get instances i)))) xs cs"
  using assms
proof (induction xs)
  case (Cons x xs)
  then obtain r m where x: "x = (ResourceId_as_str r, resource_wire m)" "ResourceId_as_str r \<noteq> []" "named_states m" "P r m" by (cases x) auto
  from read_resource_wire[OF x(3,2)] obtain c where c: "read_resource x = Inr (r, c)"
    "\<forall>p i. CurrentState_state c p i = Option.bind (bt_get m p) (\<lambda>instances. bt_get instances i)" unfolding x(1) by blast
  from Cons obtain cs where "map_result read_resource xs = Inr cs" and
    "list_all2 (\<lambda>(k, w) (r, c). k = ResourceId_as_str r \<and> (\<exists>m. w = resource_wire m \<and> P r m \<and>
      (\<forall>p i. CurrentState_state c p i = Option.bind (bt_get m p) (\<lambda>instances. bt_get instances i)))) xs cs" by auto
  then show ?case using c x by (intro exI[of _ "(r, c) # cs"]) auto
qed simp

text \<open>C38: Publishing loses nothing. Reading back the external view the controller publishes succeeds
  and gives a view with the same state for every resource, partition and instance, provided the
  names are non-empty.\<close>

theorem external_view_roundtrip:
  assumes "named_view view"
  shows "\<exists>view'. view_of_wire (external_view_output view) = Inr view' \<and> ExternalView_state view' = ExternalView_state view"
proof -
  let ?w = "external_view_output view" and ?P = "\<lambda>r m. bt_get (view_states view) r = Some m"
  have "\<exists>r m. k = ResourceId_as_str r \<and> w = resource_wire m \<and> k \<noteq> [] \<and> named_states m \<and> ?P r m" if "(k, w) \<in> set (entries ?w)" for k w
  proof -
    from that have "bt_get ?w (ResourceId_as_str (ResourceId k)) = Some w" by (simp add: bt_entries_iff)
    then obtain m where "?P (ResourceId k) m" "w = resource_wire m" unfolding external_view_output_get by auto
    moreover from this(1) have "(ResourceId k, m) \<in> set (entries (view_states view))" by (simp add: bt_entries_iff)
    ultimately show ?thesis using assms by (auto simp: named_view_def intro!: exI[of _ "ResourceId k"])
  qed
  then have "\<forall>(k, w) \<in> set (entries ?w). \<exists>r m. k = ResourceId_as_str r \<and> w = resource_wire m \<and> k \<noteq> [] \<and> named_states m \<and> ?P r m" by blast
  from read_resources[OF this] obtain cs where cs: "map_result read_resource (entries ?w) = Inr cs"
    and all: "list_all2 (\<lambda>(k, w) (r, c). k = ResourceId_as_str r \<and> (\<exists>m. w = resource_wire m \<and> ?P r m \<and>
      (\<forall>p i. CurrentState_state c p i = Option.bind (bt_get m p) (\<lambda>instances. bt_get instances i)))) (entries ?w) cs" by blast
  have "map fst (entries ?w) = map (ResourceId_as_str \<circ> fst) cs"
    using all by (auto simp: list_all2_conv_all_nth case_prod_beta intro!: nth_equalityI)
  then have "distinct (map fst cs)" using ascending_distinct[OF ascending_entries[of ?w]] by (metis distinct_map list.map_comp)
  note get = bt_get_collect_distinct[OF this]
  have "(case map_of cs r of None \<Rightarrow> None | Some c \<Rightarrow> CurrentState_state c p i) = ExternalView_state view r p i" for r p i
  proof (cases "bt_get (view_states view) r")
    case None
    then have "r \<notin> fst ` set cs" using list_all2_partner(2)[OF all] by fastforce
    then show ?thesis using None by (simp add: ExternalView_state_def resource_map_state_def map_of_eq_None_iff[symmetric])
  next
    case (Some m)
    then have "(ResourceId_as_str r, resource_wire m) \<in> set (entries ?w)" by (simp add: bt_entries_iff external_view_output_get)
    from list_all2_partner(1)[OF all this] obtain r' m' c where *: "ResourceId_as_str r = ResourceId_as_str r'" "(r', c) \<in> set cs" "?P r' m'"
        "\<forall>p i. CurrentState_state c p i = Option.bind (bt_get m' p) (\<lambda>instances. bt_get instances i)" by auto
    have "r' = r" using *(1) by (rule injD[OF id_inj(3), symmetric])
    with * Some have in_cs: "(r, c) \<in> set cs" and c: "\<forall>p i. CurrentState_state c p i = Option.bind (bt_get m p) (\<lambda>instances. bt_get instances i)"
      by auto
    from in_cs have "map_of cs r = Some c" using \<open>distinct (map fst cs)\<close> by simp
    then show ?thesis using Some c by (simp add: ExternalView_state_def resource_map_state_def split: option.splits)
  qed
  then show ?thesis by (simp add: view_of_wire_def cs fun_eq_iff ExternalView_state_current get)
qed

definition served :: ExternalView where
  "served = \<lparr>view_states = bt_insert (ResourceId ''db'') (bt_insert (PartitionId ''db_0'')
     (bt_insert (InstanceId ''a'') (State ''LEADER'') (bt_insert (InstanceId ''b'') (State ''STANDBY'') bt_empty)) bt_empty) bt_empty\<rparr>"

theorem external_view_roundtrip_witness:
  "named_view served \<and> (\<exists>view'. view_of_wire (external_view_output served) = Inr view' \<and> ExternalView_state view' = ExternalView_state served)"
proof -
  have "named_view served" by code_simp
  then show ?thesis using external_view_roundtrip by blast
qed

end
