(* ===== verification/Cluster_Spec.thy ===== *)
theory Cluster_Spec
  imports Admin Observe Participant Election
begin

text \<open>
  The application facade (\<^verbatim>\<open>src/cluster.rs\<close>): declarative specifications of instances, resources and
  transition limits, their validation, their conversion to the administrative ones and their
  application, and what the builders of the controller and participant processes check and report.
  The types of the facade carry the prefix \<open>App\<close> where the administrative layer has a type of the
  same name.
\<close>

section \<open>Errors\<close>

text \<open>\<open>crate::Error\<close>, boxed errors and I/O errors are their messages.\<close>

datatype ApplicationError =
    ConfigFailed ConfigError
  | CoordinationFailed CoordinationError
  | RuntimeFailed string
  | SpecRejected string
  | ParticipantFailed ParticipantRuntimeError
  | ControllerFailed string
  | CallbackFailed string
  | SignalFailed string
  | RoutingFailed RoutingError
  | WaitFailedWith WaitError

section \<open>Specifications\<close>

datatype StateModelKind = LeaderStandby

definition DEFAULT_ZONE :: string where
  "DEFAULT_ZONE = ''default''"

record AppInstanceSpec =
  app_instance_id :: string
  app_zone :: string

definition AppInstanceSpec_new :: "string \<Rightarrow> AppInstanceSpec" where
  "AppInstanceSpec_new i = \<lparr>app_instance_id = i, app_zone = DEFAULT_ZONE\<rparr>"

definition in_zone :: "string \<Rightarrow> AppInstanceSpec \<Rightarrow> AppInstanceSpec" where
  "in_zone zone spec = spec\<lparr>app_zone := zone\<rparr>"

definition instance_low_level :: "AppInstanceSpec \<Rightarrow> InstanceSpec" where
  "instance_low_level spec = \<lparr>spec_instance_id = app_instance_id spec, spec_zone = app_zone spec\<rparr>"

record Topology =
  topology_path :: string
  topology_fault_zone_type :: string
  topology_end_node_type :: string

definition Topology_zones :: Topology where
  "Topology_zones = \<lparr>topology_path = ''/zone/instance'', topology_fault_zone_type = ''zone'', topology_end_node_type = ''instance''\<rparr>"

definition topology_low_level :: "Topology \<Rightarrow> CrushTopologySpec" where
  "topology_low_level t = \<lparr>spec_path = topology_path t, spec_fault_zone_type = topology_fault_zone_type t, spec_end_node_type = topology_end_node_type t\<rparr>"

datatype Placement = AppCrush | AppCrushWithTopology Topology | AppSemiAuto "(string, string list) btree"

definition placement_low_level :: "Placement \<Rightarrow> PlacementSpec" where
  "placement_low_level p = (case p of
     AppCrush \<Rightarrow> CrushPlacement
   | AppCrushWithTopology topology \<Rightarrow> CrushWithTopology (topology_low_level topology)
   | AppSemiAuto pls \<Rightarrow> SemiAutoPlacement pls)"

record AppResourceSpec =
  app_name :: string
  app_partitions :: nat
  app_replicas :: nat
  app_state_model :: StateModelKind
  app_placement :: Placement

definition leader_standby_resource :: "string \<Rightarrow> AppResourceSpec" where
  "leader_standby_resource name = \<lparr>app_name = name, app_partitions = 0, app_replicas = 0, app_state_model = LeaderStandby, app_placement = AppCrush\<rparr>"

definition with_partitions :: "nat \<Rightarrow> AppResourceSpec \<Rightarrow> AppResourceSpec" where
  "with_partitions n spec = spec\<lparr>app_partitions := n\<rparr>"

definition with_replicas :: "nat \<Rightarrow> AppResourceSpec \<Rightarrow> AppResourceSpec" where
  "with_replicas n spec = spec\<lparr>app_replicas := n\<rparr>"

definition with_placement :: "Placement \<Rightarrow> AppResourceSpec \<Rightarrow> AppResourceSpec" where
  "with_placement p spec = spec\<lparr>app_placement := p\<rparr>"

definition resource_low_level :: "AppResourceSpec \<Rightarrow> ResourceSpec" where
  "resource_low_level spec = \<lparr>spec_name = app_name spec, spec_partitions = app_partitions spec, spec_replicas = app_replicas spec,
     spec_state_model = (case app_state_model spec of LeaderStandby \<Rightarrow> ''LeaderStandby''), spec_placement = placement_low_level (app_placement spec)\<rparr>"

record ClusterSpec =
  app_instances :: "AppInstanceSpec list"
  app_resources :: "AppResourceSpec list"

definition ClusterSpec_new :: ClusterSpec where
  "ClusterSpec_new = \<lparr>app_instances = [], app_resources = []\<rparr>"

definition declare_instances :: "AppInstanceSpec list \<Rightarrow> ClusterSpec \<Rightarrow> ClusterSpec" where
  "declare_instances instances spec = spec\<lparr>app_instances := app_instances spec @ instances\<rparr>"

definition declare_resource :: "AppResourceSpec \<Rightarrow> ClusterSpec \<Rightarrow> ClusterSpec" where
  "declare_resource resource spec = spec\<lparr>app_resources := app_resources spec @ [resource]\<rparr>"

section \<open>Validation\<close>

definition check_instance :: "AppInstanceSpec \<Rightarrow> InstanceId bset \<Rightarrow> ApplicationError + InstanceId bset" where
  "check_instance spec seen =
     bind_result (map_err (\<lambda>err. SpecRejected (IdentifierError_fmt err)) (InstanceId_new (app_instance_id spec))) (\<lambda>i.
     if blank (app_zone spec) \<or> contains_nul (app_zone spec)
     then Inl (SpecRejected (''instance '' @ InstanceId_as_str i @ '': zone must not be empty or contain NUL''))
     else if bt_contains seen i then Inl (SpecRejected (''instance '' @ InstanceId_as_str i @ '' is declared more than once''))
     else Inr (bs_insert i seen))"

definition check_preference_lists :: "ResourceId \<Rightarrow> AppResourceSpec \<Rightarrow> (string, string list) btree \<Rightarrow> ApplicationError + unit" where
  "check_preference_lists r spec pls =
     (if bt_len pls \<noteq> app_partitions spec \<or> list_ex (\<lambda>instances. length instances \<noteq> app_replicas spec) (bt_values pls)
      then Inl (SpecRejected (''resource '' @ ResourceId_as_str r @ '': semi-auto lists must match partitions and replicas''))
      else if list_ex (\<lambda>instances. bt_len (bs_collect instances) \<noteq> length instances) (bt_values pls)
      then Inl (SpecRejected (''resource '' @ ResourceId_as_str r @ '': semi-auto preference lists must not contain duplicate instances''))
      else Inr ())"

definition check_resource :: "AppResourceSpec \<Rightarrow> ResourceId bset \<Rightarrow> ApplicationError + ResourceId bset" where
  "check_resource spec seen =
     bind_result (map_err (\<lambda>err. SpecRejected (IdentifierError_fmt err)) (ResourceId_new (app_name spec))) (\<lambda>r.
     if app_partitions spec = 0 \<or> app_replicas spec = 0
     then Inl (SpecRejected (''resource '' @ ResourceId_as_str r @ '': partitions and replicas must be greater than zero''))
     else if bt_contains seen r then Inl (SpecRejected (''resource '' @ ResourceId_as_str r @ '' is declared more than once''))
     else bind_result (case app_placement spec of AppSemiAuto pls \<Rightarrow> check_preference_lists r spec pls | _ \<Rightarrow> Inr ()) (\<lambda>_.
     Inr (bs_insert r seen)))"

definition ClusterSpec_validate :: "ClusterSpec \<Rightarrow> ApplicationError + unit" where
  "ClusterSpec_validate spec =
     bind_result (try_fold check_instance (app_instances spec) bt_empty) (\<lambda>_.
     bind_result (try_fold check_resource (app_resources spec) bt_empty) (\<lambda>_. Inr ()))"

section \<open>Transition limits\<close>

datatype TransitionType = AnyTransition | RecoveryTransition | LoadTransition

datatype TransitionLimitTargetSpec = SpecCluster | SpecResource string | SpecInstance string

record TransitionLimit =
  app_limit_target :: TransitionLimitTargetSpec
  app_limit_type :: TransitionType
  app_limit_max :: nat

definition limit_cluster :: "nat \<Rightarrow> TransitionLimit" where
  "limit_cluster n = \<lparr>app_limit_target = SpecCluster, app_limit_type = AnyTransition, app_limit_max = n\<rparr>"

definition limit_resource :: "string \<Rightarrow> nat \<Rightarrow> TransitionLimit" where
  "limit_resource r n = \<lparr>app_limit_target = SpecResource r, app_limit_type = AnyTransition, app_limit_max = n\<rparr>"

definition limit_instance :: "string \<Rightarrow> nat \<Rightarrow> TransitionLimit" where
  "limit_instance i n = \<lparr>app_limit_target = SpecInstance i, app_limit_type = AnyTransition, app_limit_max = n\<rparr>"

definition counting :: "TransitionType \<Rightarrow> TransitionLimit \<Rightarrow> TransitionLimit" where
  "counting t limit = limit\<lparr>app_limit_type := t\<rparr>"

definition limit_low_level :: "TransitionLimit \<Rightarrow> ApplicationError + TransitionLimitSpec" where
  "limit_low_level limit =
     (if app_limit_max limit = 0 then Inl (SpecRejected ''transition limit must be greater than zero'')
      else bind_result (case app_limit_target limit of
          SpecCluster \<Rightarrow> Inr LimitCluster
        | SpecResource r \<Rightarrow> bind_result (map_err (\<lambda>err. SpecRejected (IdentifierError_fmt err)) (ResourceId_new r)) (\<lambda>r. Inr (LimitResource r))
        | SpecInstance i \<Rightarrow> bind_result (map_err (\<lambda>err. SpecRejected (IdentifierError_fmt err)) (InstanceId_new i)) (\<lambda>i. Inr (LimitInstance i))) (\<lambda>target.
      Inr \<lparr>limit_target = target,
           limit_rebalance_type = (case app_limit_type limit of AnyTransition \<Rightarrow> LimitAny | RecoveryTransition \<Rightarrow> LimitRecoveryBalance | LoadTransition \<Rightarrow> LimitLoadBalance),
           limit_max_in_flight = app_limit_max limit\<rparr>))"

section \<open>Administration\<close>

text \<open>\<open>?\<close> on a result of the administrative layer wraps its error.\<close>

definition administer :: "'a action \<Rightarrow> (ApplicationError + 'a) client" where
  "administer p = bind_client p (\<lambda>r. Return (map_err CoordinationFailed r))"

fun for_each :: "('a \<Rightarrow> unit action) \<Rightarrow> 'a list \<Rightarrow> unit action" where
  "for_each f [] = Return (Inr ())"
| "for_each f (x # xs) = bind_action (f x) (\<lambda>_. for_each f xs)"

definition apply_writes :: "admin_codec \<Rightarrow> EtcdCoordination \<Rightarrow> ClusterSpec \<Rightarrow> unit action" where
  "apply_writes codec b spec =
     bind_action (ensure_cluster b (namespace_cluster b)) (\<lambda>_.
     bind_action (for_each (\<lambda>i. put_instance codec b (instance_low_level i)) (app_instances spec)) (\<lambda>_.
     for_each (\<lambda>r. put_resource codec b (resource_low_level r)) (app_resources spec)))"

definition apply_spec :: "admin_codec \<Rightarrow> EtcdCoordination \<Rightarrow> ClusterSpec \<Rightarrow> (ApplicationError + unit) client" where
  "apply_spec codec b spec = (case ClusterSpec_validate spec of Inl err \<Rightarrow> Return (Inl err) | Inr _ \<Rightarrow> administer (apply_writes codec b spec))"

definition app_remove_instance :: "admin_codec \<Rightarrow> EtcdCoordination \<Rightarrow> string \<Rightarrow> (ApplicationError + unit) client" where
  "app_remove_instance codec b i = administer (remove_instance codec b i)"

definition app_remove_resource :: "string \<Rightarrow> (ApplicationError + unit) client" where
  "app_remove_resource r = administer (remove_resource r)"

definition set_transition_limits :: "admin_codec \<Rightarrow> EtcdCoordination \<Rightarrow> TransitionLimit list \<Rightarrow> (ApplicationError + unit) client" where
  "set_transition_limits codec b limits = (case map_result limit_low_level limits of
     Inl err \<Rightarrow> Return (Inl err) | Inr limits \<Rightarrow> administer (put_transition_limits codec b limits))"

section \<open>Connecting\<close>

text \<open>The checks before the client connects. \<open>Client::connect\<close> is a parameter: an error message, or
  nothing when the endpoints are reached.\<close>

definition connect_settings :: "string list \<Rightarrow> string \<Rightarrow> string \<Rightarrow> EtcdConnectionOptions \<Rightarrow> CoordinationError + EtcdCoordination \<times> ConnectOptions" where
  "connect_settings endpoints prefix cluster options =
     bind_result (normalize_prefix prefix) (\<lambda>prefix.
     if blank cluster \<or> contains_nul cluster then Inl InvalidCluster
     else if endpoints = [] \<or> list_ex blank endpoints then Inl InvalidStoreValue
     else bind_result (to_connect_options options) (\<lambda>options.
     Inr (\<lparr>namespace_prefix = prefix, namespace_cluster = cluster\<rparr>, options)))"

definition connect_endpoints_with_options ::
    "(string list \<Rightarrow> ConnectOptions \<Rightarrow> string option) \<Rightarrow> string list \<Rightarrow> string \<Rightarrow> string \<Rightarrow> EtcdConnectionOptions \<Rightarrow> EtcdCoordination action" where
  "connect_endpoints_with_options client endpoints prefix cluster options =
     bind_action (Return (connect_settings endpoints prefix cluster options)) (\<lambda>(b, options).
     case client endpoints options of
       Some message \<Rightarrow> Return (Inl (EtcdError message))
     | None \<Rightarrow> bind_action (initialize_authoritative_input_marker b) (\<lambda>_. Return (Inr b)))"

text \<open>The other ways to connect: one endpoint, and the default options.\<close>

record EtcdCoordinationConfig =
  coordination_endpoint :: string
  coordination_prefix :: string
  coordination_cluster :: string

definition connect_with_options :: "(string list \<Rightarrow> ConnectOptions \<Rightarrow> string option) \<Rightarrow> EtcdCoordinationConfig \<Rightarrow> EtcdConnectionOptions \<Rightarrow> EtcdCoordination action" where
  "connect_with_options client config options =
     connect_endpoints_with_options client [coordination_endpoint config] (coordination_prefix config) (coordination_cluster config) options"

definition EtcdCoordination_connect :: "(string list \<Rightarrow> ConnectOptions \<Rightarrow> string option) \<Rightarrow> EtcdCoordinationConfig \<Rightarrow> EtcdCoordination action" where
  "EtcdCoordination_connect client config = connect_with_options client config EtcdConnectionOptions_new"

definition connect_endpoints :: "(string list \<Rightarrow> ConnectOptions \<Rightarrow> string option) \<Rightarrow> string list \<Rightarrow> string \<Rightarrow> string \<Rightarrow> EtcdCoordination action" where
  "connect_endpoints client endpoints prefix cluster = connect_endpoints_with_options client endpoints prefix cluster EtcdConnectionOptions_new"

definition Cluster_connect :: "(string list \<Rightarrow> ConnectOptions \<Rightarrow> string option) \<Rightarrow> ClusterConfig \<Rightarrow> (ApplicationError + EtcdCoordination) client" where
  "Cluster_connect client config = (case ClusterConfig_validate config of
     Inl err \<Rightarrow> Return (Inl (ConfigFailed err))
   | Inr config \<Rightarrow> administer (
       bind_action (connect_endpoints_with_options client (config_endpoints config) (config_namespace config) (config_cluster config) (config_connection_options config)) (\<lambda>b.
       bind_action (ensure_cluster b (namespace_cluster b)) (\<lambda>_. Return (Inr b)))))"

section \<open>Builders\<close>

text \<open>A duration is its whole seconds and nanoseconds.\<close>

definition DEFAULT_CONTROLLER_LEASE_TTL_MS :: nat where
  "DEFAULT_CONTROLLER_LEASE_TTL_MS = 60000"

definition lease_ttl_millis :: "nat \<times> nat \<Rightarrow> ApplicationError + u64" where
  "lease_ttl_millis ttl =
     (let ms = fst ttl * 1000 + snd ttl div 1000000
      in if ms < 2 ^ 64 then Inr (of_nat ms) else Inl (ConfigFailed (InvalidConfig ''controller lease TTL is too large'')))"

definition controller_config :: "EtcdCoordination \<Rightarrow> string \<Rightarrow> nat \<times> nat \<Rightarrow> ApplicationError + ControllerElectionConfig" where
  "controller_config b controller_id ttl =
     bind_result (lease_ttl_millis ttl) (\<lambda>ms.
     Inr \<lparr>election_cluster = namespace_cluster b, election_controller_id = controller_id, lease_ttl_ms = ms\<rparr>)"

text \<open>A failed callback is reported rather than the outcome of the run; a failed signal handler
  rather than either.\<close>

definition controller_outcome :: "string option \<Rightarrow> string + unit \<Rightarrow> ApplicationError + unit" where
  "controller_outcome callback_error result = (case callback_error of Some err \<Rightarrow> Inl (CallbackFailed err) | None \<Rightarrow> map_err ControllerFailed result)"

definition participant_outcome :: "string option \<Rightarrow> ParticipantRuntimeError + unit \<Rightarrow> ApplicationError + unit" where
  "participant_outcome callback_error result = (case callback_error of Some err \<Rightarrow> Inl (CallbackFailed err) | None \<Rightarrow> map_err ParticipantFailed result)"

definition signal_outcome :: "string option \<Rightarrow> ApplicationError + unit \<Rightarrow> ApplicationError + unit" where
  "signal_outcome signal_error result = (case signal_error of Some err \<Rightarrow> Inl (SignalFailed err) | None \<Rightarrow> result)"

definition add_handler :: "string \<times> 'h \<Rightarrow> (ResourceId, 'h) btree \<Rightarrow> ApplicationError + (ResourceId, 'h) btree" where
  "add_handler x handlers = (case x of (resource, handler) \<Rightarrow>
     bind_result (map_err (\<lambda>err. SpecRejected (IdentifierError_fmt err)) (ResourceId_new resource)) (\<lambda>r.
     if bt_contains handlers r then Inl (SpecRejected ''participant resource handler declared more than once'')
     else Inr (bt_insert r handler handlers)))"

text \<open>What \<open>ParticipantBuilder::run_until\<close> checks before it starts the runtime.\<close>

definition participant_config :: "string \<Rightarrow> (string \<times> 'h) list \<Rightarrow> nat \<times> nat \<Rightarrow> ApplicationError + InstanceId \<times> (ResourceId, 'h) btree" where
  "participant_config instance_id handlers ttl =
     bind_result (map_err (\<lambda>err. SpecRejected (IdentifierError_fmt err)) (InstanceId_new instance_id)) (\<lambda>i.
     bind_result (try_fold add_handler handlers bt_empty) (\<lambda>handlers.
     bind_result (map_err (\<lambda>err. ParticipantFailed (ParticipantCoordination err)) (RegistrationOptions_new ttl)) (\<lambda>_.
     Inr (i, handlers))))"

text \<open>The builders themselves. A run is given by what it answers: the error of the application's
  callback, if it failed, and the outcome of the process.\<close>

record ControllerBuilder =
  builder_controller_id :: string
  builder_lease_ttl :: "nat \<times> nat"

definition cluster_controller :: "string \<Rightarrow> ControllerBuilder" where
  "cluster_controller controller_id = \<lparr>builder_controller_id = controller_id,
     builder_lease_ttl = (DEFAULT_CONTROLLER_LEASE_TTL_MS div 1000, DEFAULT_CONTROLLER_LEASE_TTL_MS mod 1000 * 1000000)\<rparr>"

definition controller_lease_ttl :: "nat \<times> nat \<Rightarrow> ControllerBuilder \<Rightarrow> ControllerBuilder" where
  "controller_lease_ttl ttl builder = builder\<lparr>builder_lease_ttl := ttl\<rparr>"

definition ControllerRuntime_new :: "EtcdCoordination \<Rightarrow> ControllerElectionConfig \<Rightarrow> string + unit" where
  "ControllerRuntime_new b config = map_err ElectionError_fmt (validate_config b config)"

definition ControllerBuilder_run_until ::
    "EtcdCoordination \<Rightarrow> ControllerBuilder \<Rightarrow> (ControllerElectionConfig \<Rightarrow> string option \<times> (string + unit)) \<Rightarrow> ApplicationError + unit" where
  "ControllerBuilder_run_until b builder run =
     bind_result (controller_config b (builder_controller_id builder) (builder_lease_ttl builder)) (\<lambda>config.
     bind_result (map_err ControllerFailed (ControllerRuntime_new b config)) (\<lambda>_.
     case run config of (callback_error, result) \<Rightarrow> controller_outcome callback_error result))"

text \<open>Installing the handler of the termination signal may fail before the run starts; the handler of
  the interrupt signal may fail during it.\<close>

definition run_until_signal :: "string option \<Rightarrow> string option \<Rightarrow> (unit \<Rightarrow> ApplicationError + unit) \<Rightarrow> ApplicationError + unit" where
  "run_until_signal installed signal_error run = (case installed of
     Some err \<Rightarrow> Inl (SignalFailed err)
   | None \<Rightarrow> signal_outcome signal_error (run ()))"

record 'h ParticipantBuilder =
  builder_instance_id :: string
  builder_handlers :: "(string \<times> 'h) list"
  builder_participant_ttl :: "nat \<times> nat"

definition cluster_participant :: "string \<Rightarrow> 'h ParticipantBuilder" where
  "cluster_participant instance_id = \<lparr>builder_instance_id = instance_id, builder_handlers = [], builder_participant_ttl = (60, 0)\<rparr>"

definition handle_resource :: "string \<Rightarrow> 'h \<Rightarrow> 'h ParticipantBuilder \<Rightarrow> 'h ParticipantBuilder" where
  "handle_resource resource handler builder = builder\<lparr>builder_handlers := builder_handlers builder @ [(resource, handler)]\<rparr>"

definition participant_lease_ttl :: "nat \<times> nat \<Rightarrow> 'h ParticipantBuilder \<Rightarrow> 'h ParticipantBuilder" where
  "participant_lease_ttl ttl builder = builder\<lparr>builder_participant_ttl := ttl\<rparr>"

definition ParticipantBuilder_run_until ::
    "'h ParticipantBuilder \<Rightarrow> (InstanceId \<Rightarrow> (ResourceId, 'h) btree \<Rightarrow> string option \<times> (ParticipantRuntimeError + unit)) \<Rightarrow> ApplicationError + unit" where
  "ParticipantBuilder_run_until builder run =
     bind_result (participant_config (builder_instance_id builder) (builder_handlers builder) (builder_participant_ttl builder)) (\<lambda>(i, handlers).
     case run i handlers of (callback_error, result) \<Rightarrow> participant_outcome callback_error result)"

end
