(* ===== verification/Cluster_Laws.thy ===== *)
theory Cluster_Laws
  imports Cluster_Spec
begin

text \<open>
  What the facade promises: limits and preference lists reach the controller as they were given,
  a validated specification is accepted by the administrative layer unless it names a replica or
  a partition with the empty string, and a loaded configuration passes the checks of connecting
  unless its namespace is made of slashes.
\<close>

section \<open>Transition limits\<close>

definition limit_type :: "TransitionLimit \<Rightarrow> RebalanceType" where
  "limit_type limit = (case app_limit_type limit of AnyTransition \<Rightarrow> AnyBalance | RecoveryTransition \<Rightarrow> RecoveryBalance | LoadTransition \<Rightarrow> LoadBalance)"

text \<open>The configuration the controller should throttle with.\<close>

definition limit_meaning :: "TransitionLimit \<Rightarrow> StateTransitionThrottleConfig" where
  "limit_meaning limit = (case app_limit_target limit of
     SpecCluster \<Rightarrow> ThrottleConfig_new (limit_type limit) ClusterScope (app_limit_max limit)
   | SpecResource r \<Rightarrow> ThrottleConfig_for_resource (limit_type limit) (ResourceId r) (app_limit_max limit)
   | SpecInstance i \<Rightarrow> ThrottleConfig_for_instance (limit_type limit) (InstanceId i) (app_limit_max limit))"

definition limit_valid :: "TransitionLimit \<Rightarrow> bool" where
  "limit_valid limit \<longleftrightarrow> app_limit_max limit \<noteq> 0 \<and> (case app_limit_target limit of SpecCluster \<Rightarrow> True | SpecResource r \<Rightarrow> r \<noteq> [] | SpecInstance i \<Rightarrow> i \<noteq> [])"

lemma limit_read_back:
  "(case limit_low_level limit of Inl _ \<Rightarrow> \<not> limit_valid limit
    | Inr spec \<Rightarrow> limit_valid limit \<and> throttle_config (TransitionLimitRecord_from spec) = Inr (limit_meaning limit))"
  by (cases "app_limit_target limit"; cases "app_limit_type limit")
    (auto simp: limit_low_level_def limit_valid_def limit_meaning_def limit_type_def TransitionLimitRecord_from_def throttle_config_def
      throttle_scope_of_def rebalance_type_of_def ResourceId_new_def InstanceId_new_def validate_def)

lemma limits_low_level:
  "map_result limit_low_level limits = Inr specs \<Longrightarrow> list_all limit_valid limits \<and> map_result throttle_config (map TransitionLimitRecord_from specs) = Inr (map limit_meaning limits)"
proof (induction limits arbitrary: specs)
  case (Cons limit limits)
  then show ?case using limit_read_back[of limit] by (auto simp: bind_result_Inr split: sum.splits)
qed simp

text \<open>Limits reach the controller unchanged. A list of typed limits is rejected exactly when one of
  them is zero or names nothing; otherwise the records that are stored read back, by the
  controller, as throttle configurations with the same scope, target, class of transitions and
  bound, in the same order.\<close>

lemma limits_roundtrip:
  "(\<exists>specs. map_result limit_low_level limits = Inr specs \<and> map_result throttle_config (map TransitionLimitRecord_from specs) = Inr (map limit_meaning limits))
   \<longleftrightarrow> list_all limit_valid limits"
proof -
  have "\<exists>specs. map_result limit_low_level limits = Inr specs" if "list_all limit_valid limits"
    using that
  proof (induction limits)
    case (Cons limit limits)
    then show ?case using limit_read_back[of limit] by (auto split: sum.splits)
  qed simp
  then show ?thesis using limits_low_level by blast
qed

section \<open>Explicit placements\<close>

text \<open>The preference lists of a specification as identifiers.\<close>

definition lists_meaning :: "(string, string list) btree \<Rightarrow> PartitionId \<Rightarrow> InstanceId list option" where
  "lists_meaning pls p = map_option (map InstanceId) (bt_get pls (PartitionId_as_str p))"

definition lists_valid :: "nat \<Rightarrow> nat \<Rightarrow> (string, string list) btree \<Rightarrow> bool" where
  "lists_valid partitions n pls \<longleftrightarrow> bt_len pls = partitions \<and>
     (\<forall>(p, instances) \<in> set (entries pls). p \<noteq> [] \<and> length instances = n \<and> distinct instances \<and> [] \<notin> set instances)"

lemma map_result_new: "(\<exists>is. map_result (\<lambda>i. map_err f (InstanceId_new i)) names = Inr is) \<longleftrightarrow> [] \<notin> set names"
  "[] \<notin> set names \<Longrightarrow> map_result (\<lambda>i. map_err f (InstanceId_new i)) names = Inr (map InstanceId names)"
  by (induction names) (auto simp: bind_result_Inr InstanceId_new_def validate_def)

lemma check_semi_auto_Inr:
  "check_semi_auto n (p, instances) = Inr () \<longleftrightarrow> p \<noteq> [] \<and> length instances = n \<and> distinct instances \<and> [] \<notin> set instances"
  by (auto simp: check_semi_auto_def bind_result_Inr map_err_Inr map_result_new PartitionId_new_def validate_def length_remdups_card_conv distinct_card card_distinct)

lemma map_result_unit: "(\<exists>us. map_result f xs = Inr us) \<longleftrightarrow> (\<forall>x \<in> set xs. \<exists>u. f x = Inr u)"
  by (induction xs) (auto simp: bind_result_Inr)

lemma placement_record_semi_auto:
  assumes "spec_placement spec = SemiAutoPlacement pls"
  shows "(\<exists>record. placement_record r spec = Inr record) \<longleftrightarrow> lists_valid (spec_partitions spec) (spec_replicas spec) pls"
    and "placement_record r spec = Inr record \<Longrightarrow> record = \<lparr>placement_kind = ''SEMI_AUTO'', placement_replicas = spec_replicas spec,
      placement_preference_lists = pls, placement_partitions = [], placement_topology = None\<rparr>"
proof -
  have "(\<exists>us. map_result (check_semi_auto (spec_replicas spec)) (entries pls) = Inr us) \<longleftrightarrow>
      (\<forall>(p, instances) \<in> set (entries pls). p \<noteq> [] \<and> length instances = spec_replicas spec \<and> distinct instances \<and> [] \<notin> set instances)"
    unfolding map_result_unit using check_semi_auto_Inr by (auto simp: split_beta)
  then show "(\<exists>record. placement_record r spec = Inr record) \<longleftrightarrow> lists_valid (spec_partitions spec) (spec_replicas spec) pls"
    by (auto simp: placement_record_def assms lists_valid_def bind_result_Inr)
  show "placement_record r spec = Inr record \<Longrightarrow> record = \<lparr>placement_kind = ''SEMI_AUTO'', placement_replicas = spec_replicas spec,
      placement_preference_lists = pls, placement_partitions = [], placement_topology = None\<rparr>"
    by (auto simp: placement_record_def assms bind_result_Inr split: if_splits)
qed

lemma semi_auto_lists_read:
  assumes "lists_valid partitions n pls" and "placement_preference_lists record = pls"
  shows "\<exists>prefs. semi_auto_lists record = Inr prefs \<and> (\<forall>p. bt_get prefs p = lists_meaning pls p)"
proof -
  let ?read = "\<lambda>(p, instances). bind_result (map_err BadIdentifier (PartitionId_new p)) (\<lambda>p.
         bind_result (map_result (\<lambda>i. map_err BadIdentifier (InstanceId_new i)) instances) (\<lambda>instances. Inr (p, instances)))"
  have "map_result ?read xs = Inr (map (\<lambda>(p, instances). (PartitionId p, map InstanceId instances)) xs)"
    if "\<forall>(p, instances) \<in> set xs. p \<noteq> [] \<and> [] \<notin> set instances" for xs
    using that by (induction xs) (auto simp: map_result_new PartitionId_new_def validate_def)
  then have "map_result ?read (entries pls) = Inr (map (\<lambda>(p, instances). (PartitionId p, map InstanceId instances)) (entries pls))"
    using assms(1) by (auto simp: lists_valid_def)
  moreover have "inj PartitionId" by (auto simp: inj_def)
  from bt_get_collect_map[OF this, of "map InstanceId" pls] have "bt_get (bt_collect (map (\<lambda>(p, instances). (PartitionId p, map InstanceId instances)) (entries pls))) p = lists_meaning pls p" for p
    by (cases p) (simp add: lists_meaning_def)
  ultimately show ?thesis by (simp add: semi_auto_lists_def assms(2))
qed

lemma build_ideal_lists:
  assumes "prefs \<noteq> bt_empty" and "\<And>p is. bt_get prefs p = Some is \<Longrightarrow> length is = n \<and> distinct is"
  shows "\<exists>ideal. build_ideal r n prefs = Inr ideal \<and> ideal_resource ideal = r \<and> ideal_replicas ideal = n \<and> (\<forall>p. preference_list ideal p = bt_get prefs p)"
proof -
  have fold: "try_fold (\<lambda>(p, is). set_preference_list p is) xs b = Inr (b\<lparr>preference_lists := fold (\<lambda>(k, v). bt_insert k v) xs (preference_lists b)\<rparr>)"
    if "distinct (map fst xs)" "\<forall>(p, is) \<in> set xs. length is = ideal_replicas b \<and> distinct is \<and> \<not> bt_contains (preference_lists b) p" for xs b
    using that
  proof (induction xs arbitrary: b)
    case (Cons x xs)
    obtain p "is" where x: "x = (p, is)" by (cases x)
    have put: "set_preference_list p is b = Inr (b\<lparr>preference_lists := bt_insert p is (preference_lists b)\<rparr>)" using Cons.prems(2) by (simp add: x)
    have "\<forall>(q, js) \<in> set xs. length js = ideal_replicas b \<and> distinct js \<and> \<not> bt_contains (bt_insert p is (preference_lists b)) q"
      using Cons.prems by (force simp: x)
    then show ?case using Cons.IH[of "b\<lparr>preference_lists := bt_insert p is (preference_lists b)\<rparr>"] Cons.prems(1)
      by (simp add: x put del: set_preference_list_Inr)
  qed simp
  have "\<forall>(p, is) \<in> set (entries prefs). length is = n \<and> distinct is" using assms(2) by (auto simp: bt_entries_iff)
  then have "try_fold (\<lambda>(p, is). set_preference_list p is) (entries prefs) (IdealState_builder r n) =
      Inr (IdealState_builder r n\<lparr>preference_lists := fold (\<lambda>(k, v). bt_insert k v) (entries prefs) bt_empty\<rparr>)"
    by (subst fold) (auto simp: IdealState_builder_def ascending_distinct split: prod.splits)
  moreover have "fold (\<lambda>(k, v). bt_insert k v) (entries prefs) bt_empty = prefs" using bt_collect_entries[of prefs] by (simp add: bt_collect_def)
  ultimately show ?thesis using assms(1)
    by (simp add: build_ideal_def IdealState_build_def IdealState_builder_def bt_is_empty_iff preference_list_def)
qed

lemma semi_auto_plan:
  assumes "spec_placement spec = SemiAutoPlacement pls" and "spec_name spec \<noteq> []" and "spec_partitions spec \<noteq> 0" and "spec_replicas spec \<noteq> 0"
    and "spec_state_model spec = ''LeaderStandby''"
  shows "(\<exists>r record. resource_record spec = Inr (r, record)) \<longleftrightarrow> lists_valid (spec_partitions spec) (spec_replicas spec) pls"
    and "resource_record spec = Inr (r, record) \<Longrightarrow> decode_resource dec v = Inr record \<Longrightarrow>
      \<exists>plan. resource_plan dec ops configs live (spec_name spec) \<lparr>entry_value = Some v, entry_revision = revision\<rparr> = Some (Inr plan) \<and>
        plan_resource plan = ResourceId (spec_name spec) \<and> ideal_replicas (plan_ideal plan) = spec_replicas spec \<and>
        preference_list (plan_ideal plan) = lists_meaning pls"
proof -
  have new: "ResourceId_new (spec_name spec) = Inr (ResourceId (spec_name spec))" using assms(2) by simp
  show accepted: "(\<exists>r record. resource_record spec = Inr (r, record)) \<longleftrightarrow> lists_valid (spec_partitions spec) (spec_replicas spec) pls"
    using assms(3-5) placement_record_semi_auto(1)[OF assms(1)] by (auto simp: resource_record_def new bind_result_Inr)
  assume r: "resource_record spec = Inr (r, record)" and d: "decode_resource dec v = Inr record"
  then have v: "lists_valid (spec_partitions spec) (spec_replicas spec) pls" using accepted by blast
  from r obtain placement where rec: "placement_record (ResourceId (spec_name spec)) spec = Inr placement"
      "record = \<lparr>record_name = spec_name spec, record_state_model = spec_state_model spec, record_placement = placement\<rparr>"
    by (auto simp: resource_record_def new bind_result_Inr split: if_splits)
  note p = placement_record_semi_auto(2)[OF assms(1) rec(1)]
  obtain prefs where l: "semi_auto_lists placement = Inr prefs" "\<And>p. bt_get prefs p = lists_meaning pls p"
    using semi_auto_lists_read[OF v, of placement] by (auto simp: p)
  have each: "length is = spec_replicas spec \<and> distinct is" if "bt_get prefs q = Some is" for q "is"
    using that v by (auto simp: l(2) lists_meaning_def lists_valid_def bt_entries_iff[symmetric] distinct_map inj_on_def)
  have "dom (bt_get pls) \<noteq> {}" using v assms(3) by (auto simp: lists_valid_def bt_len_keys)
  then obtain q where "bt_get pls q \<noteq> None" by (metis domIff ex_in_conv)
  then have "bt_get prefs (PartitionId q) \<noteq> None" by (simp add: l(2) lists_meaning_def)
  then have "prefs \<noteq> bt_empty" by auto
  from build_ideal_lists[OF this, of "spec_replicas spec" "ResourceId (spec_name spec)"] each obtain ideal where "build_ideal (ResourceId (spec_name spec)) (spec_replicas spec) prefs = Inr ideal"
    "ideal_replicas ideal = spec_replicas spec" "\<And>p. preference_list ideal p = bt_get prefs p" by blast
  then show "\<exists>plan. resource_plan dec ops configs live (spec_name spec) \<lparr>entry_value = Some v, entry_revision = revision\<rparr> = Some (Inr plan) \<and>
        plan_resource plan = ResourceId (spec_name spec) \<and> ideal_replicas (plan_ideal plan) = spec_replicas spec \<and>
        preference_list (plan_ideal plan) = lists_meaning pls"
    using l by (simp add: resource_plan_def d rec(2) assms(5) new p effective_replicas_def fun_eq_iff)
qed

text \<open>C39: An explicit placement is planned as it was given. A resource with explicit preference lists is
  accepted by the administrative layer exactly when there is one list per partition, the lists
  have as many distinct instances as there are replicas and no name is empty; and when the
  controller reads the accepted record, its plan has the given preference lists.\<close>

theorem semi_auto_resource_planned:
  assumes "spec_placement spec = SemiAutoPlacement pls" and "spec_name spec \<noteq> []" and "spec_partitions spec \<noteq> 0" and "spec_replicas spec \<noteq> 0"
    and "spec_state_model spec = ''LeaderStandby''"
  shows "if lists_valid (spec_partitions spec) (spec_replicas spec) pls
    then \<exists>r record. resource_record spec = Inr (r, record) \<and> (\<forall>dec v revision. decode_resource dec v = Inr record \<longrightarrow>
      (\<exists>plan. resource_plan dec ops configs live (spec_name spec) \<lparr>entry_value = Some v, entry_revision = revision\<rparr> = Some (Inr plan) \<and>
        plan_resource plan = ResourceId (spec_name spec) \<and> ideal_replicas (plan_ideal plan) = spec_replicas spec \<and>
        preference_list (plan_ideal plan) = lists_meaning pls))
    else \<nexists>x. resource_record spec = Inr x"
  using semi_auto_plan[OF assms] by (auto split: if_splits) blast

text \<open>Two partitions, each with its own order of the same two instances.\<close>

definition explicit_spec :: ResourceSpec where
  "explicit_spec = \<lparr>spec_name = ''db'', spec_partitions = 2, spec_replicas = 2, spec_state_model = ''LeaderStandby'',
     spec_placement = SemiAutoPlacement (bt_insert ''db_0'' [''a'', ''b''] (bt_insert ''db_1'' [''b'', ''a''] bt_empty))\<rparr>"

definition explicit_decoders :: "ResourceRecord \<Rightarrow> decoders" where
  "explicit_decoders record = \<lparr>decode_instance_configs = \<lambda>_. Inr [], decode_resource = \<lambda>_. Inr record, decode_throttles = \<lambda>_. Inr [], decode_pending = \<lambda>_. Inr []\<rparr>"

theorem semi_auto_resource_planned_witness:
  "\<exists>r record plan. resource_record explicit_spec = Inr (r, record) \<and>
    resource_plan (explicit_decoders record) demo_ops bt_empty bt_empty ''db'' \<lparr>entry_value = Some ''{}'', entry_revision = Revision 3\<rparr> = Some (Inr plan) \<and>
    preference_list (plan_ideal plan) (PartitionId ''db_1'') = Some [InstanceId ''b'', InstanceId ''a'']"
proof -
  let ?pls = "bt_insert ''db_0'' [''a'', ''b''] (bt_insert ''db_1'' [''b'', ''a''] bt_empty)"
  have v: "lists_valid 2 2 ?pls" by code_simp
  have spec: "spec_placement explicit_spec = SemiAutoPlacement ?pls" "spec_name explicit_spec = ''db''" "spec_partitions explicit_spec = 2"
    "spec_replicas explicit_spec = 2" "spec_state_model explicit_spec = ''LeaderStandby''" by (simp_all add: explicit_spec_def)
  from semi_auto_resource_planned[OF spec(1), of demo_ops bt_empty bt_empty] v
  obtain r rr where rec: "resource_record explicit_spec = Inr (r, rr)" and plan: "\<forall>dec v revision. decode_resource dec v = Inr rr \<longrightarrow>
      (\<exists>plan. resource_plan dec demo_ops bt_empty bt_empty ''db'' \<lparr>entry_value = Some v, entry_revision = revision\<rparr> = Some (Inr plan) \<and>
        plan_resource plan = ResourceId ''db'' \<and> ideal_replicas (plan_ideal plan) = 2 \<and> preference_list (plan_ideal plan) = lists_meaning ?pls)"
    unfolding spec if_P[OF v] by fastforce
  have "lists_meaning ?pls (PartitionId ''db_1'') = Some [InstanceId ''b'', InstanceId ''a'']" by code_simp
  then show ?thesis using rec plan[rule_format, of "explicit_decoders rr" "''{}''" "Revision 3"] by (auto simp: explicit_decoders_def)
qed

section \<open>Validated specifications\<close>

definition nameless :: "AppResourceSpec \<Rightarrow> bool" where
  "nameless spec \<longleftrightarrow> (case app_placement spec of AppSemiAuto pls \<Rightarrow> list_ex (\<lambda>(p, instances). p = [] \<or> [] \<in> set instances) (entries pls) | _ \<Rightarrow> False)"

lemma check_resource_accepts:
  assumes "check_resource spec seen = Inr seen'"
  shows "(\<exists>x. resource_record (resource_low_level spec) = Inr x) \<longleftrightarrow> \<not> nameless spec"
proof -
  from assms have ok: "app_name spec \<noteq> []" "app_partitions spec \<noteq> 0" "app_replicas spec \<noteq> 0"
    and lists: "\<And>pls. app_placement spec = AppSemiAuto pls \<Longrightarrow> check_preference_lists (ResourceId (app_name spec)) spec pls = Inr ()"
    by (auto simp: check_resource_def bind_result_Inr map_err_Inr split: if_splits Placement.splits)
  have low: "spec_name (resource_low_level spec) = app_name spec" "spec_partitions (resource_low_level spec) = app_partitions spec"
    "spec_replicas (resource_low_level spec) = app_replicas spec" "spec_state_model (resource_low_level spec) = ''LeaderStandby''"
    "spec_placement (resource_low_level spec) = placement_low_level (app_placement spec)"
    by (simp_all add: resource_low_level_def split: StateModelKind.splits)
  show ?thesis
  proof (cases "app_placement spec")
    case (AppSemiAuto pls)
    have "bt_len pls = app_partitions spec \<and> (\<forall>(p, instances) \<in> set (entries pls). length instances = app_replicas spec \<and> distinct instances)"
    proof -
      have "bt_len pls = app_partitions spec" "\<forall>instances \<in> set (bt_values pls). length instances = app_replicas spec \<and> distinct instances"
        using lists[OF AppSemiAuto] by (auto simp: check_preference_lists_def list_ex_iff bt_len_collect intro: card_distinct split: if_splits)
      then show ?thesis by (auto simp: bt_values_iff bt_entries_iff)
    qed
    then have "lists_valid (app_partitions spec) (app_replicas spec) pls \<longleftrightarrow> \<not> nameless spec"
      by (auto simp: lists_valid_def nameless_def AppSemiAuto list_ex_iff)
    moreover have "spec_placement (resource_low_level spec) = SemiAutoPlacement pls" by (simp add: low AppSemiAuto placement_low_level_def)
    from semi_auto_plan(1)[OF this] have "(\<exists>x. resource_record (resource_low_level spec) = Inr x) \<longleftrightarrow> lists_valid (app_partitions spec) (app_replicas spec) pls"
      using ok by (auto simp: low)
    ultimately show ?thesis by simp
  qed (use ok in \<open>simp_all add: resource_record_def low placement_low_level_def placement_record_def nameless_def ResourceId_new_def validate_def\<close>)
qed

lemma try_fold_each: "try_fold f xs s = Inr t \<Longrightarrow> x \<in> set xs \<Longrightarrow> \<exists>u v. f x u = Inr v"
  by (induction xs arbitrary: s) (auto simp: bind_result_Inr)

text \<open>What validation misses. When the facade accepts a specification, each of its instances has a
  valid name and zone, and each of its resources is accepted by the administrative layer exactly
  when none of its preference lists is keyed by, or contains, the empty name. Only such a name can
  make the application of a validated specification fail on a resource after earlier ones have
  been written.\<close>

lemma validated_spec_accepted:
  assumes "ClusterSpec_validate spec = Inr ()"
  shows "(\<forall>i \<in> set (app_instances spec). app_instance_id i \<noteq> [] \<and> \<not> blank (app_zone i) \<and> \<not> contains_nul (app_zone i)) \<and>
    (\<forall>r \<in> set (app_resources spec). (\<exists>x. resource_record (resource_low_level r) = Inr x) \<longleftrightarrow> \<not> nameless r)"
proof -
  from assms obtain a b where ok: "try_fold check_instance (app_instances spec) bt_empty = Inr a" "try_fold check_resource (app_resources spec) bt_empty = Inr b"
    by (auto simp: ClusterSpec_validate_def bind_result_Inr)
  show ?thesis
    using try_fold_each[OF ok(1)] try_fold_each[OF ok(2)] check_resource_accepts
    by (fastforce simp: check_instance_def bind_result_Inr map_err_Inr split: if_splits)
qed

definition nameless_spec :: ClusterSpec where
  "nameless_spec = declare_resource (with_placement (AppSemiAuto (bt_insert ''db_0'' [''a'', []] bt_empty)) (with_partitions 1 (with_replicas 2 (leader_standby_resource ''db''))))
     (declare_instances [AppInstanceSpec_new ''a''] ClusterSpec_new)"

lemma nameless_spec_rejected_late:
  "ClusterSpec_validate nameless_spec = Inr () \<and> (\<nexists>x. resource_record (resource_low_level (hd (app_resources nameless_spec))) = Inr x)"
proof -
  have v: "ClusterSpec_validate nameless_spec = Inr ()" by code_simp
  have "hd (app_resources nameless_spec) \<in> set (app_resources nameless_spec)" by (simp add: nameless_spec_def declare_resource_def declare_instances_def ClusterSpec_new_def)
  moreover have "nameless (hd (app_resources nameless_spec))" by code_simp
  ultimately show ?thesis using v validated_spec_accepted[OF v] by blast
qed

section \<open>Configurations\<close>

lemma normalize_namespace:
  assumes "\<not> contains_nul p"
  shows "if set p \<subseteq> {CHR ''/''} then normalize_prefix p = Inl InvalidPrefix else \<exists>q. normalize_prefix p = Inr q"
proof -
  have "rev (dropWhile (\<lambda>c. c = CHR ''/'') (rev p)) = [] \<longleftrightarrow> set p \<subseteq> {CHR ''/''}" by auto
  moreover have "\<not> contains_nul (rev (dropWhile (\<lambda>c. c = CHR ''/'') (rev p)))"
    using assms set_dropWhileD[of _ "\<lambda>c. c = CHR ''/''" "rev p"] by (fastforce simp: contains_nul_def list_ex_iff)
  ultimately show ?thesis by (simp add: normalize_prefix_def Let_def)
qed

lemma loaded_options:
  assumes "from_env env = Inr config"
  shows "ClusterConfig_validate config = Inr config" and "config_cluster config = env_or env ''CLUSTODIAN_CLUSTER'' DEFAULT_CLUSTER"
    and "username (config_connection_options config) = env_var env ''CLUSTODIAN_ETCD_USERNAME''"
    and "password (config_connection_options config) = env_var env ''CLUSTODIAN_ETCD_PASSWORD''"
    and "tls_domain_name (config_connection_options config) = env_var env ''CLUSTODIAN_ETCD_TLS_DOMAIN_NAME''"
proof -
  from assms obtain o1 o2 o3 c where o: "env_user env EtcdConnectionOptions_new = Inr o1" "env_ca env o1 = Inr o2" "env_identity env o2 = Inr o3"
    and v: "ClusterConfig_validate (etcd_connection_options (env_domain env o3) c) = Inr config"
    and c: "config_cluster c = env_or env ''CLUSTODIAN_CLUSTER'' DEFAULT_CLUSTER"
    by (auto simp: from_env_def bind_result_Inr Let_def set_namespace_def etcd_endpoints_def ClusterConfig_new_def)
  have config: "config = etcd_connection_options (env_domain env o3) c" using v by (auto simp: ClusterConfig_validate_def bind_result_Inr split: if_splits)
  show "ClusterConfig_validate config = Inr config" using v by (simp add: config)
  show "config_cluster config = env_or env ''CLUSTODIAN_CLUSTER'' DEFAULT_CLUSTER" by (simp add: config etcd_connection_options_def c)
  have "username o1 = env_var env ''CLUSTODIAN_ETCD_USERNAME'' \<and> password o1 = env_var env ''CLUSTODIAN_ETCD_PASSWORD'' \<and> tls_domain_name o1 = None"
    using o(1) by (auto simp: env_user_def with_user_def EtcdConnectionOptions_new_def split: option.splits)
  moreover have "username o2 = username o1 \<and> password o2 = password o1 \<and> tls_domain_name o2 = tls_domain_name o1"
    using o(2) by (auto simp: env_ca_def with_ca_certificate_def bind_result_Inr split: option.splits)
  moreover have "username o3 = username o2 \<and> password o3 = password o2 \<and> tls_domain_name o3 = tls_domain_name o2"
    using o(3) by (auto simp: env_identity_def with_client_identity_def bind_result_Inr split: option.splits)
  ultimately show "username (config_connection_options config) = env_var env ''CLUSTODIAN_ETCD_USERNAME''"
    "password (config_connection_options config) = env_var env ''CLUSTODIAN_ETCD_PASSWORD''"
    "tls_domain_name (config_connection_options config) = env_var env ''CLUSTODIAN_ETCD_TLS_DOMAIN_NAME''"
    by (auto simp: config etcd_connection_options_def env_domain_def with_tls_domain_name_def split: option.splits)
qed

text \<open>C40: A loaded configuration is fit for connecting. A configuration read from the environment passes
  every check that is made before the client connects, unless its namespace consists of slashes
  only, which the configuration's own validation lets through; the connection then uses the
  cluster name and the credentials of the environment, and TLS when a domain name is set.\<close>

theorem loaded_config_connects:
  assumes "from_env env = Inr config"
  shows "let outcome = connect_settings (config_endpoints config) (config_namespace config) (config_cluster config) (config_connection_options config)
    in if set (config_namespace config) \<subseteq> {CHR ''/''} then outcome = Inl InvalidPrefix
       else \<exists>b settings. outcome = Inr (b, settings) \<and> namespace_cluster b = env_or env ''CLUSTODIAN_CLUSTER'' DEFAULT_CLUSTER \<and>
         connect_user settings = both (env_var env ''CLUSTODIAN_ETCD_USERNAME'') (env_var env ''CLUSTODIAN_ETCD_PASSWORD'') \<and>
         (connect_tls settings = None \<longrightarrow> env_var env ''CLUSTODIAN_ETCD_TLS_DOMAIN_NAME'' = None)"
proof -
  note l = loaded_options[OF assms]
  have v: "\<not> blank (config_cluster config)" "\<not> contains_nul (config_cluster config)" "config_endpoints config \<noteq> []" "\<not> list_ex blank (config_endpoints config)"
    "\<not> contains_nul (config_namespace config)" "EtcdConnectionOptions_validate (config_connection_options config) = Inr ()"
    using l(1) by (auto simp: ClusterConfig_validate_def bind_result_Inr map_err_Inr split: if_splits)
  show ?thesis using normalize_namespace[OF v(5)] v
    by (auto simp: connect_settings_def to_connect_options_def l(2-5)[symmetric] tls_enabled_def Let_def split: if_splits)
qed

definition loaded_env :: environment where
  "loaded_env = \<lparr>env_var = map_of [(''CLUSTODIAN_CLUSTER'', ''cache''), (''CLUSTODIAN_ETCD_ENDPOINTS'', ''http://a:2379, http://b:2379''),
       (''CLUSTODIAN_ETCD_USERNAME'', ''u''), (''CLUSTODIAN_ETCD_PASSWORD'', ''p'')],
     env_read = \<lambda>_. Inl ''missing''\<rparr>"

theorem loaded_config_connects_witness:
  "\<exists>config b settings. from_env loaded_env = Inr config \<and> config_endpoints config = [''http://a:2379'', ''http://b:2379''] \<and>
    connect_settings (config_endpoints config) (config_namespace config) (config_cluster config) (config_connection_options config) = Inr (b, settings) \<and>
    namespace_cluster b = ''cache'' \<and> connect_user settings = Some (''u'', ''p'')"
proof -
  have loaded: "from_env loaded_env = Inr (etcd_connection_options (with_user ''u'' ''p'' EtcdConnectionOptions_new)
      (etcd_endpoints [''http://a:2379'', ''http://b:2379''] (ClusterConfig_new ''cache'')))" by code_simp
  have "\<not> set (config_namespace (etcd_connection_options (with_user ''u'' ''p'' EtcdConnectionOptions_new)
      (etcd_endpoints [''http://a:2379'', ''http://b:2379''] (ClusterConfig_new ''cache'')))) \<subseteq> {CHR ''/''}" by code_simp
  moreover have "env_or loaded_env ''CLUSTODIAN_CLUSTER'' DEFAULT_CLUSTER = ''cache''"
    "both (env_var loaded_env ''CLUSTODIAN_ETCD_USERNAME'') (env_var loaded_env ''CLUSTODIAN_ETCD_PASSWORD'') = Some (''u'', ''p'')" by code_simp+
  moreover have "config_endpoints (etcd_connection_options (with_user ''u'' ''p'' EtcdConnectionOptions_new)
      (etcd_endpoints [''http://a:2379'', ''http://b:2379''] (ClusterConfig_new ''cache''))) = [''http://a:2379'', ''http://b:2379'']" by code_simp
  ultimately show ?thesis using loaded loaded_config_connects[OF loaded] by (auto simp: Let_def)
qed

section \<open>Builders\<close>

text \<open>With its defaults the controller builder starts a run for every proper identity, and reports a
  failed callback rather than the run.\<close>

lemma default_controller_runs:
  assumes "\<not> blank c" and "\<not> contains_nul c"
  shows "ControllerBuilder_run_until b (cluster_controller c) run =
    (case run \<lparr>election_cluster = namespace_cluster b, election_controller_id = c, lease_ttl_ms = 60000\<rparr> of (callback_error, result) \<Rightarrow> controller_outcome callback_error result)"
proof -
  have "lease_seconds 60000 = Inr 60" by code_simp
  then show ?thesis using assms
    by (simp add: ControllerBuilder_run_until_def cluster_controller_def controller_config_def lease_ttl_millis_def DEFAULT_CONTROLLER_LEASE_TTL_MS_def
        ControllerRuntime_new_def validate_config_def)
qed

text \<open>A participant with handlers for distinct, named resources runs with exactly these handlers.\<close>

lemma handlers_collected:
  assumes "distinct (map fst handlers)" and "\<forall>x \<in> set handlers. fst x \<noteq> [] \<and> \<not> bt_contains m (ResourceId (fst x))"
  shows "\<exists>m'. try_fold add_handler handlers m = Inr m' \<and>
    (\<forall>r. bt_get m' r = (case map_of handlers (ResourceId_as_str r) of Some h \<Rightarrow> Some h | None \<Rightarrow> bt_get m r))"
  using assms
proof (induction handlers arbitrary: m)
  case (Cons x xs)
  obtain resource h where x: "x = (resource, h)" by (cases x)
  have named: "ResourceId_new resource = Inr (ResourceId resource)" using Cons.prems(2) by (simp add: x)
  then have add: "add_handler x m = Inr (bt_insert (ResourceId resource) h m)" using Cons.prems(2) by (simp add: add_handler_def x del: ResourceId_new_Inr)
  have "map_of xs resource = None" using Cons.prems(1) by (simp add: x map_of_eq_None_iff)
  moreover have "\<forall>y \<in> set xs. fst y \<noteq> [] \<and> \<not> bt_contains (bt_insert (ResourceId resource) h m) (ResourceId (fst y))" using Cons.prems by (auto simp: x)
  ultimately obtain m' where m': "try_fold add_handler xs (bt_insert (ResourceId resource) h m) = Inr m'"
    "bt_get m' r = (case map_of xs (ResourceId_as_str r) of Some h \<Rightarrow> Some h | None \<Rightarrow> bt_get (bt_insert (ResourceId resource) h m) r)" for r
    using Cons.IH[of "bt_insert (ResourceId resource) h m"] Cons.prems(1) by auto
  have "bt_get m' r = (case map_of (x # xs) (ResourceId_as_str r) of Some h \<Rightarrow> Some h | None \<Rightarrow> bt_get m r)" for r
    using m'(2)[of r] \<open>map_of xs resource = None\<close> by (cases r) (auto simp: x split: option.splits)
  then show ?case using m'(1) by (simp add: add)
qed simp

lemma participant_starts:
  assumes "instance_id \<noteq> []" and "distinct (map fst handlers)" and "\<forall>x \<in> set handlers. fst x \<noteq> []" and "0 < fst ttl" and "fst ttl < 2 ^ 63"
  shows "\<exists>m. participant_config instance_id handlers ttl = Inr (InstanceId instance_id, m) \<and> (\<forall>r. bt_get m r = map_of handlers (ResourceId_as_str r))"
proof -
  obtain m where "try_fold add_handler handlers bt_empty = Inr m" "\<forall>r. bt_get m r = map_of handlers (ResourceId_as_str r)"
    using handlers_collected[OF assms(2), of bt_empty] assms(3) by (auto simp: option.case_eq_if)
  moreover have "InstanceId_new instance_id = Inr (InstanceId instance_id)" using assms(1) by simp
  ultimately show ?thesis using assms(4,5) by (simp add: participant_config_def RegistrationOptions_new_def prod_eq_iff del: InstanceId_new_Inr)
qed

end
