(* ===== verification/Spec2Isabelle.thy ===== *)
theory Spec2Isabelle
  imports Session Semi_Auto Message_Throttle_Laws Routing Completion Crush_Laws Controller_Laws Watch_Laws
    Etcd_Discipline Controller_Loop_Laws Participant_Laws Participant_Process Cancellation_Signal
    Admin_Laws Observe_Laws Cluster_Laws
begin

text \<open>
  A verification library for clustodian, a control plane for partitioned, replicated systems
  written in Rust. Paths below are relative to the repository.

  \<^bold>\<open>The system.\<close> Resources consist of partitions, and the replicas of a partition are in states of a
  state model (\<open>LeaderStandby\<close> is built in). A \<^emph>\<open>controller\<close> is elected among several processes
  through etcd. It reads a snapshot of the coordination namespace (configuration, live sessions,
  reported states, the queue of pending transitions), computes where every replica should be
  (SEMI_AUTO or CRUSH), turns the difference into single transitions, selects those that respect
  the cardinality of the states, throttles them, and publishes the external view and the queue in
  one fenced transaction. \<^emph>\<open>Participants\<close> register a leased session, watch the queue, run the
  application's handler for each transition, and publish the new state together with the removal of
  the message. \<^emph>\<open>Observers\<close> read snapshots, build routing tables and wait for conditions.
  \<^emph>\<open>Administrators\<close> write the configuration that the controller reads.

  \<^bold>\<open>Modelling.\<close> Structs are records, enums are datatypes, \<open>Result\<close> is a sum with the error on the left,
  unsigned and signed 64-bit integers are words where arithmetic may overflow, and \<open>BTreeMap\<close> is the type \<open>btree\<close>
  of ascending association lists. An asynchronous function of the backend is a value of type
  \<open>client\<close>: it returns, or sends one request and goes on with the response. Its runs (\<open>runs\<close>) let any
  other client change the store between two requests, and let a request fail with or without
  having taken effect. A trace (\<open>traced\<close>) is such a run with the stores that its requests were
  answered from and the transactions it applied, in order; results are tied to them. Functions that
  loop until something happens recurse on the outcomes of their waits, and \<open>None\<close> says that they are
  still running. Concurrent tasks are step relations.

  \<^bold>\<open>Theories.\<close>

  \<^item> Foundations. \<open>Prelude\<close>: words, results, maps, and the locale \<open>invariant_system\<close> for invariants of
    step relations. \<open>Identity\<close> (\<^verbatim>\<open>src/model/identity.rs\<close>, \<^verbatim>\<open>state.rs\<close>): validated names and states.
    \<open>State_Model\<close> (\<^verbatim>\<open>state_model.rs\<close>, \<^verbatim>\<open>builtins.rs\<close>) with \<open>Shortest_Paths\<close> and \<open>State_Model_Laws\<close>: the
    builder accepts exactly the well-formed definitions, and its next-hop table follows shortest
    paths; the locale \<open>next_hop\<close> is what the planning stages rely on. \<open>Replica_State\<close>
    (\<^verbatim>\<open>replica_state.rs\<close>, \<^verbatim>\<open>current_state.rs\<close>, \<^verbatim>\<open>best_possible_state.rs\<close>, \<^verbatim>\<open>external_view.rs\<close>,
    \<^verbatim>\<open>ideal_state.rs\<close>, \<^verbatim>\<open>src/transition\<close>): the snapshots the stages exchange. \<open>Session\<close>
    (\<^verbatim>\<open>session.rs\<close>): sessions and their histories; a stale session is refused forever.

  \<^item> Planning. \<open>Semi_Auto\<close> (\<^verbatim>\<open>src/rebalance/semi_auto.rs\<close>), \<open>Crush_Hash\<close>, \<open>Crush\<close> and \<open>Crush_Laws\<close>
    (\<^verbatim>\<open>src/rebalance/crush.rs\<close>): placements are exact, or distinct live instances in distinct fault zones,
    and CRUSH returns for fair draws. \<open>Message_Generation\<close>, \<open>Message_Selection\<close>, \<open>Message_Throttle\<close> and
    \<open>Message_Throttle_Laws\<close> (the files of the same names under \<^verbatim>\<open>src/controller\<close>): exactly the first candidates in priority order
    that fit are selected, and every quota is respected (locale \<open>admission\<close>). \<open>Controller_Plans\<close>,
    \<open>Controller_Runtime\<close> and \<open>Controller_Laws\<close> (\<^verbatim>\<open>src/controller/runtime.rs\<close>): a whole planning cycle
    keeps one message per replica, all for live sessions, never adds a second promotion, and fails
    only in a named case.

  \<^item> Coordination. \<open>Coordination\<close>, \<open>Coordination_Laws\<close> (keys and snapshots of
    \<^verbatim>\<open>src/coordination/etcd/mod.rs\<close>) and \<open>Watch\<close>, \<open>Watch_Laws\<close> (\<^verbatim>\<open>watch.rs\<close>): records survive the round trip; over any history of
    reads, errors and resumptions a watch of a key returns every event once, and a resumed watch of the
    namespace returns nothing but events of one key, which no record of the program has. \<open>Etcd_Client\<close> states the contract of etcd, \<open>Etcd_Reference\<close> shows a
    store that satisfies it, and \<open>Etcd_Trace\<close> gives runs their traces and weakest
    preconditions. \<open>Etcd_Metadata\<close>, \<open>Etcd_Publish\<close> (\<^verbatim>\<open>metadata.rs\<close>): a publication is fenced by
    lease, inputs, sessions and queue. \<open>Etcd_Queue\<close>, \<open>Etcd_Queue_Laws\<close> (\<^verbatim>\<open>mod.rs\<close>): claims linearize and
    completions are fenced. \<open>Etcd_Sessions\<close>, \<open>Etcd_Sessions_Laws\<close> (\<^verbatim>\<open>session.rs\<close>): session numbers are
    issued once and a registration starts a fresh incarnation. \<open>Election\<close>, \<open>Election_Laws\<close>
    (\<^verbatim>\<open>src/election.rs\<close>): leadership is exclusive. \<open>Etcd_Discipline\<close>: every operation that changes an
    input stamps the marker that the fence compares.

  \<^item> The running controller. \<open>Controller_Loop\<close>, \<open>Controller_Loop_Laws\<close> (\<^verbatim>\<open>src/controller/runtime.rs\<close>,
    \<^verbatim>\<open>src/runtime.rs\<close>, \<^verbatim>\<open>src/observability.rs\<close>): a reconciliation publishes nothing but fenced plans, the
    leader accounts for every input event, and a progress record defeats publication.

  \<^item> The running participant. \<open>Completion\<close>, \<open>Participant\<close>, \<open>Participant_Laws\<close>, \<open>Participant_Runtime\<close>,
    \<open>Participant_Runtime_Laws\<close>, \<open>Participant_Process\<close> and \<open>Cancellation_Signal\<close> (\<^verbatim>\<open>src/participant.rs\<close>): executing
    a message is safe under any interference, workers of a replica exclude each other, no queued
    message is forgotten, the keepalive loop decides within the lease, a frontier that has reached
    a revision accounts for all its messages, and when a wait for cancellation ends.

  \<^item> The edges. \<open>Cluster_Config\<close>, \<open>Cluster_Spec\<close>, \<open>Cluster_Laws\<close> (\<^verbatim>\<open>src/cluster.rs\<close> and the connection
    options of \<^verbatim>\<open>src/coordination/etcd/mod.rs\<close>), \<open>Admin\<close>, \<open>Admin_Laws\<close> (\<^verbatim>\<open>src/admin.rs\<close>), \<open>Observe\<close>, \<open>Observe_Laws\<close>
    (\<^verbatim>\<open>src/observe.rs\<close>) and \<open>Routing\<close> (\<^verbatim>\<open>src/routing/snapshot.rs\<close>): configuration and specifications
    reach the controller as given, changes of the instances linearize, live instances are not
    removed, the external view reads back, and a snapshot routes like the store.

  \<^bold>\<open>How the parts meet.\<close> The planning cycle is a pure function of a snapshot; \<open>Controller_Loop\<close> runs it
  between reads and the fenced publication of \<open>Etcd_Publish\<close>, whose fence is meaningful because of
  \<open>Etcd_Discipline\<close>. The queue it publishes is what \<open>Participant\<close> claims and completes through
  \<open>Etcd_Queue\<close>, under sessions of \<open>Etcd_Sessions\<close>. \<open>Participant_Runtime\<close> schedules these executions;
  \<open>Observe\<close> and \<open>Admin\<close> share the records of the controller.

  \<^bold>\<open>Bounds and fuel.\<close> Bounded retries are those of the code: 256 attempts for completions and
  cleanups of a participant, 32 for publications and administrative writes. The loop of a
  reconciliation has no bound in the code; it recurses on a number of rounds, and its properties
  hold for every number. The searches of CRUSH that may not end use \<open>partial_function\<close> over \<open>option\<close>;
  that they return is proved for fair draws.

  \<^bold>\<open>Parameters.\<close> The JSON coding of \<^verbatim>\<open>serde_json\<close> (\<open>decoders\<close>, \<open>message_codec\<close>, \<open>admin_codec\<close>,
  \<open>observer_codec\<close>, \<open>output_codec\<close>), the floating-point operations of CRUSH (\<open>float_ops\<close>), the etcd
  server (\<open>etcd_contract\<close>), connecting by the client library, the handlers of the application, the process
  environment, and the order in which signals, timers and tasks fire.

  \<^bold>\<open>Not modelled.\<close> Failpoints, which are compiled away without the test feature; reads at old
  revisions and compaction requests, which only test drivers send; the keepalive stream of a lease
  below one pass; task spawning and abortion beyond their effect on the worker set; debug output,
  error sources and plain accessors; operating-system signals beyond their outcome; the crate root
  \<^verbatim>\<open>src/lib.rs\<close>; the test support, chaos and conformance programs and the examples.
\<close>

end
